(* ===== verification/Prelude.thy ===== *)
theory Prelude
  imports Main "HOL-Library.Word"
begin

text \<open>
  Shared vocabulary of the development: the machine integers and byte strings of the Go
  sources, the big-endian accessors of \<^verbatim>\<open>encoding/binary\<close> the code calls, slices, the
  result type of fallible operations, and the generic facts (byte order, lists, round-robin
  scans, association of maps with their finite domains) that several components use.
\<close>

unbundle bit_operations_syntax

section \<open>Go's basic types\<close>

type_synonym byte = "8 word"
type_synonym u16 = "16 word"
type_synonym u32 = "32 word"
type_synonym u64 = "64 word"

text \<open>A Go string and a \<^verbatim>\<open>[]byte\<close> are both sequences of bytes; conversions keep them.\<close>

type_synonym bytes = "byte list"
type_synonym gostring = "byte list"

text \<open>A fallible Go function returning \<^verbatim>\<open>(T, error)\<close>: \<open>Inl\<close> the error, \<open>Inr\<close> the value.\<close>

type_synonym ('e, 'a) result = "'e + 'a"

named_theorems wire_simps "equations that evaluate encoders and decoders"
named_theorems state_defs "definitions of state transformers, unfolded in invariant proofs"

section \<open>Slices\<close>

text \<open>\<^verbatim>\<open>b[i:j]\<close>; the caller has checked \<^verbatim>\<open>i <= j <= len(b)\<close>.\<close>

definition bslice :: "nat \<Rightarrow> nat \<Rightarrow> 'a list \<Rightarrow> 'a list" where
  "bslice i j xs = take (j - i) (drop i xs)"

lemma length_bslice [simp]: "i \<le> j \<Longrightarrow> j \<le> length xs \<Longrightarrow> length (bslice i j xs) = j - i"
  by (simp add: bslice_def)

lemma bslice_append_left:
  "j \<le> length xs \<Longrightarrow> bslice i j (xs @ ys) = bslice i j xs"
  by (simp add: bslice_def)

lemma bslice_full [simp]: "bslice 0 (length xs) xs = xs"
  by (simp add: bslice_def)

section \<open>Big-endian integers\<close>

text \<open>
  \<^verbatim>\<open>binary.BigEndian\<close>: \<open>PutUintN\<close> writes the most significant byte first, \<open>UintN\<close> reads it
  back. The Go readers panic on a short slice; every call site of the modelled code has checked
  the length, so the second equations are never reached.
\<close>

definition PutUint16 :: "u16 \<Rightarrow> bytes" where
  "PutUint16 v = [ucast (drop_bit 8 v), ucast v]"

definition PutUint32 :: "u32 \<Rightarrow> bytes" where
  "PutUint32 v =
     [ucast (drop_bit 24 v), ucast (drop_bit 16 v), ucast (drop_bit 8 v), ucast v]"

definition PutUint64 :: "u64 \<Rightarrow> bytes" where
  "PutUint64 v = PutUint32 (ucast (drop_bit 32 v)) @ PutUint32 (ucast v)"

fun Uint16 :: "bytes \<Rightarrow> u16" where
  "Uint16 (a # b # _) = push_bit 8 (ucast a) OR ucast b"
| "Uint16 _ = 0"

fun Uint32 :: "bytes \<Rightarrow> u32" where
  "Uint32 (a # b # c # d # _) =
     push_bit 24 (ucast a) OR push_bit 16 (ucast b) OR push_bit 8 (ucast c) OR ucast d"
| "Uint32 _ = 0"

definition Uint64 :: "bytes \<Rightarrow> u64" where
  "Uint64 bs = push_bit 32 (ucast (Uint32 bs)) OR ucast (Uint32 (drop 4 bs))"

lemma length_PutUint16 [simp]: "length (PutUint16 v) = 2"
  by (simp add: PutUint16_def)

lemma length_PutUint32 [simp]: "length (PutUint32 v) = 4"
  by (simp add: PutUint32_def)

lemma length_PutUint64 [simp]: "length (PutUint64 v) = 8"
  by (simp add: PutUint64_def)

lemma PutUint32_neq_Nil [simp]: "PutUint32 v \<noteq> []"
  by (simp add: PutUint32_def)

lemma bit_byte_ge [simp]: "8 \<le> n \<Longrightarrow> \<not> bit (b :: byte) n"
  using bit_imp_le_length [of b n] by auto

lemma bit_u32_ge [simp]: "32 \<le> n \<Longrightarrow> \<not> bit (b :: u32) n"
  using bit_imp_le_length [of b n] by auto

lemma Uint16_PutUint16 [simp]: "Uint16 (PutUint16 v @ r) = v"
proof (rule bit_word_eqI)
  fix n assume "n < LENGTH(16)"
  then consider "n < 8" | "8 \<le> n" "n < 16" by fastforce
  then show "bit (Uint16 (PutUint16 v @ r)) n = bit v n"
    by cases (auto simp: PutUint16_def bit_simps)
qed

lemma Uint32_PutUint32_append [simp]: "Uint32 (PutUint32 v @ r) = v"
proof (rule bit_word_eqI)
  fix n assume "n < LENGTH(32)"
  then consider "n < 8" | "8 \<le> n" "n < 16" | "16 \<le> n" "n < 24" | "24 \<le> n" "n < 32"
    by fastforce
  then show "bit (Uint32 (PutUint32 v @ r)) n = bit v n"
    by cases (auto simp: PutUint32_def bit_simps)
qed

lemma Uint32_PutUint32 [simp]: "Uint32 (PutUint32 v) = v"
  using Uint32_PutUint32_append [of v "[]"] by simp

text \<open>The three low bytes of a written integer read back as its low 24 bits: the length fields.\<close>

lemma Uint32_tl_PutUint32 [simp]: "Uint32 (0 # tl (PutUint32 v) @ r) = take_bit 24 v"
proof (rule bit_word_eqI)
  fix n assume "n < LENGTH(32)"
  then consider "n < 8" | "8 \<le> n" "n < 16" | "16 \<le> n" "n < 24" | "24 \<le> n" "n < 32"
    by fastforce
  then show "bit (Uint32 (0 # tl (PutUint32 v) @ r)) n = bit (take_bit 24 v) n"
    by cases (auto simp: PutUint32_def bit_simps)
qed

lemma list_length_4:
  "length xs = 4 \<longleftrightarrow> (\<exists>a b c d. xs = [a, b, c, d])"
  by (auto simp: numeral_eq_Suc length_Suc_conv)

lemma PutUint32_Uint32: "length bs = 4 \<Longrightarrow> PutUint32 (Uint32 bs) = bs"
proof -
  have byte: "x = y" if "\<And>n. n < 8 \<Longrightarrow> bit x n = bit y n" for x y :: byte
    using that by (intro bit_word_eqI) simp
  assume "length bs = 4"
  then obtain a b c d where bs: "bs = [a, b, c, d]"
    unfolding list_length_4 by blast
  show ?thesis
    unfolding bs PutUint32_def Uint32.simps list.inject
    by (intro conjI TrueI byte) (simp_all add: bit_simps)
qed

lemma PutUint16_Uint16: "PutUint16 (Uint16 (a # b # r)) = [a, b]"
proof -
  have byte: "x = y" if "\<And>n. n < 8 \<Longrightarrow> bit x n = bit y n" for x y :: byte
    using that by (intro bit_word_eqI) simp
  show ?thesis
    unfolding PutUint16_def Uint16.simps list.inject
    by (intro conjI TrueI byte) (simp_all add: bit_simps)
qed

lemma Uint64_PutUint64 [simp]: "Uint64 (PutUint64 v) = v"
proof (rule bit_word_eqI)
  fix n assume "n < LENGTH(64)"
  then consider "n < 32" | "32 \<le> n" "n < 64" by fastforce
  then show "bit (Uint64 (PutUint64 v)) n = bit v n"
    by cases (auto simp: Uint64_def PutUint64_def bit_simps)
qed

lemma PutUint64_Uint64: "length bs = 8 \<Longrightarrow> PutUint64 (Uint64 bs) = bs"
proof -
  assume len: "length bs = 8"
  have hi: "ucast (drop_bit 32 (Uint64 bs)) = Uint32 bs"
    by (rule bit_word_eqI) (simp add: Uint64_def bit_simps)
  have lo: "ucast (Uint64 bs) = Uint32 (drop 4 bs)"
    by (rule bit_word_eqI) (simp add: Uint64_def bit_simps)
  have "Uint32 bs = Uint32 (take 4 bs)"
    using len by (cases bs rule: Uint32.cases) auto
  then have "PutUint32 (Uint32 bs) = take 4 bs"
    using len by (simp add: PutUint32_Uint32)
  moreover have "PutUint32 (Uint32 (drop 4 bs)) = drop 4 bs"
    using len by (simp add: PutUint32_Uint32)
  ultimately show ?thesis
    by (simp add: PutUint64_def hi lo)
qed

text \<open>A 24-bit length field written from an integer that fits reads back as that integer.\<close>

lemma unat_take_bit_24:
  "n < 2 ^ 24 \<Longrightarrow> unat (take_bit 24 (word_of_nat n :: u32)) = n"
  by (simp add: unsigned_take_bit_eq unsigned_of_nat take_bit_nat_eq_self)

lemma unat_length_field [simp]:
  "n < 2 ^ 24 \<Longrightarrow> unat (Uint32 (0 # tl (PutUint32 (word_of_nat n)) @ r)) = n"
  by (simp only: Uint32_tl_PutUint32 unat_take_bit_24)

lemma take_bit_24_less: "take_bit 24 (v :: u32) = v \<longleftrightarrow> unat v < 2 ^ 24"
  by (metis take_bit_nat_eq_self take_bit_nat_less_exp word_unat_eq_iff unsigned_take_bit_eq)

text \<open>The readers unfold only on request, so that goals keep their shape.\<close>

declare Uint16.simps [simp del, wire_simps] Uint32.simps [simp del, wire_simps]

lemma Uint32_bytes [simp]:
  "Uint32 [ucast (drop_bit 24 v), ucast (drop_bit 16 v), ucast (drop_bit 8 v), ucast (v :: u32)] = v"
  using Uint32_PutUint32 [of v] by (simp add: PutUint32_def)

lemma Uint24_bytes [simp]:
  "Uint32 [0, ucast (drop_bit 16 v), ucast (drop_bit 8 v), ucast v] = take_bit 24 (v :: u32)"
  using Uint32_tl_PutUint32 [of v "[]"] by (simp add: PutUint32_def)

end
