(* ===== verification/Avp_Types.thy ===== *)
theory Avp_Types
  imports Prelude
begin

text \<open>
  The AVP data types of \<^verbatim>\<open>models_base/\<close>: one datatype constructor per Go type that implements
  the interface \<^verbatim>\<open>Type\<close>, one decoder per \<^verbatim>\<open>DecodeX\<close> function, and the method set
  (\<^verbatim>\<open>Serialize\<close>, \<^verbatim>\<open>Len\<close>, \<^verbatim>\<open>Padding\<close>, \<^verbatim>\<open>Type\<close>) of each type as a record, so that
  \<open>iface v\<close> is the dynamic dispatch of a Go interface value. The \<^verbatim>\<open>String\<close> methods, which only
  format for logs, are left out. Floating-point values are kept as the IEEE bit patterns that
  \<^verbatim>\<open>math.Float32bits\<close> and its kin exchange with the wire; a \<^verbatim>\<open>time.Time\<close> is its Unix time in
  seconds. The lemmas show that every decoder inverts its serialiser, on which values, and that
  \<^verbatim>\<open>Len\<close> and \<^verbatim>\<open>Padding\<close> describe the serialised form.
\<close>

section \<open>The standard library's IP addresses\<close>

text \<open>\<^verbatim>\<open>net.IP.To4\<close> and \<^verbatim>\<open>net.IP.To16\<close>; \<open>None\<close> is Go's \<^verbatim>\<open>nil\<close>.\<close>

definition v4InV6Prefix :: bytes where
  "v4InV6Prefix = replicate 10 0 @ [255, 255]"

definition To4 :: "bytes \<Rightarrow> bytes option" where
  "To4 ip =
     (if length ip = 4 then Some ip
      else if length ip = 16 \<and> take 12 ip = v4InV6Prefix then Some (drop 12 ip)
      else None)"

definition To16 :: "bytes \<Rightarrow> bytes option" where
  "To16 ip =
     (if length ip = 4 then Some (v4InV6Prefix @ ip)
      else if length ip = 16 then Some ip
      else None)"

lemma length_v4InV6Prefix [simp]: "length v4InV6Prefix = 12"
  by (simp add: v4InV6Prefix_def)

lemma To4_length: "To4 ip = Some q \<Longrightarrow> length q = 4"
  by (auto simp: To4_def split: if_splits)

lemma To16_length: "To16 ip = Some q \<Longrightarrow> length q = 16"
  by (auto simp: To16_def split: if_splits)

section \<open>Type identifiers, values and the interface\<close>

datatype TypeID =
    UnknownType | AddressType | DiameterIdentityType | DiameterURIType | EnumeratedType
  | Float32Type | Float64Type | GroupedType | IPFilterRuleType | IPv4Type | Integer32Type
  | Integer64Type | OctetStringType | QoSFilterRuleType | TimeType | UTF8StringType
  | Unsigned32Type | Unsigned64Type | IPv6Type

text \<open>
  The dynamic values of \<^verbatim>\<open>Type\<close>. \<^verbatim>\<open>DecodeTime\<close> returns a pointer \<^verbatim>\<open>&Time{}\<close> for input of the
  wrong length and a plain \<^verbatim>\<open>Time\<close> otherwise: two different dynamic types, so two constructors.
\<close>

datatype avp_value =
    Unknown bytes
  | Address bytes
  | DiameterIdentity gostring
  | DiameterURI gostring
  | Enumerated u32
  | Float32 u32
  | Float64 u64
  | Grouped bytes
  | IPFilterRule gostring
  | IPv4 bytes
  | IPv6 bytes
  | Integer32 u32
  | Integer64 u64
  | OctetString gostring
  | QoSFilterRule gostring
  | Time int
  | TimePtr int
  | UTF8String gostring
  | Unsigned32 u32
  | Unsigned64 u64

datatype decode_error =
    NotEnoughAddressData nat
  | InvalidAddressType
  | InvalidIPv4Length
  | InvalidIPv6Length
  | UnknownDataType TypeID

record type_iface =
  Serialize :: bytes
  Len :: int
  Padding :: int
  TypeOf :: TypeID

text \<open>\<^verbatim>\<open>pad4\<close> works on Go's \<^verbatim>\<open>int\<close>; \<^verbatim>\<open>4 - n\<close> is negative for longer data.\<close>

definition pad4 :: "int \<Rightarrow> int" where
  "pad4 n = n + ((4 - n) AND 3)"

section \<open>The data types, one decoder and one method set each\<close>

definition DecodeInteger32 :: "bytes \<Rightarrow> (decode_error, avp_value) result" where
  "DecodeInteger32 b = (if length b \<noteq> 4 then Inr (Integer32 0) else Inr (Integer32 (Uint32 b)))"

definition Integer32_methods :: "u32 \<Rightarrow> type_iface" where
  "Integer32_methods n =
     \<lparr>Serialize = PutUint32 n, Len = 4, Padding = 0, TypeOf = Integer32Type\<rparr>"

text \<open>
  \<^verbatim>\<open>DecodeEnumerated\<close> delegates to \<^verbatim>\<open>DecodeInteger32\<close> and converts; the type assertion always
  succeeds, because that decoder only returns \<^verbatim>\<open>Integer32\<close> values.
\<close>

definition DecodeEnumerated :: "bytes \<Rightarrow> (decode_error, avp_value) result" where
  "DecodeEnumerated b =
     (case DecodeInteger32 b of
        Inl e \<Rightarrow> Inl e
      | Inr (Integer32 v) \<Rightarrow> Inr (Enumerated v)
      | Inr v \<Rightarrow> Inr v)"

definition Enumerated_methods :: "u32 \<Rightarrow> type_iface" where
  "Enumerated_methods n =
     \<lparr>Serialize = Serialize (Integer32_methods n), Len = 4, Padding = 0,
      TypeOf = EnumeratedType\<rparr>"

definition DecodeInteger64 :: "bytes \<Rightarrow> (decode_error, avp_value) result" where
  "DecodeInteger64 b = (if length b \<noteq> 8 then Inr (Integer64 0) else Inr (Integer64 (Uint64 b)))"

definition Integer64_methods :: "u64 \<Rightarrow> type_iface" where
  "Integer64_methods n =
     \<lparr>Serialize = PutUint64 n, Len = 8, Padding = 0, TypeOf = Integer64Type\<rparr>"

definition DecodeUnsigned32 :: "bytes \<Rightarrow> (decode_error, avp_value) result" where
  "DecodeUnsigned32 b =
     (if length b \<noteq> 4 then Inr (Unsigned32 0) else Inr (Unsigned32 (Uint32 b)))"

definition Unsigned32_methods :: "u32 \<Rightarrow> type_iface" where
  "Unsigned32_methods n =
     \<lparr>Serialize = PutUint32 n, Len = 4, Padding = 0, TypeOf = Unsigned32Type\<rparr>"

definition DecodeUnsigned64 :: "bytes \<Rightarrow> (decode_error, avp_value) result" where
  "DecodeUnsigned64 b =
     (if length b \<noteq> 8 then Inr (Unsigned64 0) else Inr (Unsigned64 (Uint64 b)))"

definition Unsigned64_methods :: "u64 \<Rightarrow> type_iface" where
  "Unsigned64_methods n =
     \<lparr>Serialize = PutUint64 n, Len = 8, Padding = 0, TypeOf = Unsigned64Type\<rparr>"

definition DecodeFloat32 :: "bytes \<Rightarrow> (decode_error, avp_value) result" where
  "DecodeFloat32 b = (if length b \<noteq> 4 then Inr (Float32 0) else Inr (Float32 (Uint32 b)))"

definition Float32_methods :: "u32 \<Rightarrow> type_iface" where
  "Float32_methods n = \<lparr>Serialize = PutUint32 n, Len = 4, Padding = 0, TypeOf = Float32Type\<rparr>"

definition DecodeFloat64 :: "bytes \<Rightarrow> (decode_error, avp_value) result" where
  "DecodeFloat64 b = (if length b \<noteq> 8 then Inr (Float64 0) else Inr (Float64 (Uint64 b)))"

definition Float64_methods :: "u64 \<Rightarrow> type_iface" where
  "Float64_methods n = \<lparr>Serialize = PutUint64 n, Len = 8, Padding = 0, TypeOf = Float64Type\<rparr>"

definition DecodeOctetString :: "bytes \<Rightarrow> (decode_error, avp_value) result" where
  "DecodeOctetString b = Inr (OctetString b)"

definition OctetString_methods :: "gostring \<Rightarrow> type_iface" where
  "OctetString_methods s =
     (let l = int (length s)
      in \<lparr>Serialize = s, Len = l, Padding = pad4 l - l, TypeOf = OctetStringType\<rparr>)"

definition DecodeUTF8String :: "bytes \<Rightarrow> (decode_error, avp_value) result" where
  "DecodeUTF8String b = Inr (UTF8String b)"

definition UTF8String_methods :: "gostring \<Rightarrow> type_iface" where
  "UTF8String_methods s =
     (let l = int (length s)
      in \<lparr>Serialize = Serialize (OctetString_methods s), Len = l, Padding = pad4 l - l,
          TypeOf = UTF8StringType\<rparr>)"

definition DecodeDiameterIdentity :: "bytes \<Rightarrow> (decode_error, avp_value) result" where
  "DecodeDiameterIdentity b = Inr (DiameterIdentity b)"

definition DiameterIdentity_methods :: "gostring \<Rightarrow> type_iface" where
  "DiameterIdentity_methods s =
     (let l = int (length s)
      in \<lparr>Serialize = s, Len = l, Padding = pad4 l - l, TypeOf = DiameterIdentityType\<rparr>)"

definition DecodeDiameterURI :: "bytes \<Rightarrow> (decode_error, avp_value) result" where
  "DecodeDiameterURI b = Inr (DiameterURI b)"

definition DiameterURI_methods :: "gostring \<Rightarrow> type_iface" where
  "DiameterURI_methods s =
     (let l = int (length s)
      in \<lparr>Serialize = Serialize (OctetString_methods s), Len = l, Padding = pad4 l - l,
          TypeOf = DiameterURIType\<rparr>)"

definition DecodeIPFilterRule :: "bytes \<Rightarrow> (decode_error, avp_value) result" where
  "DecodeIPFilterRule b = Inr (IPFilterRule b)"

definition IPFilterRule_methods :: "gostring \<Rightarrow> type_iface" where
  "IPFilterRule_methods s =
     (let l = int (length s)
      in \<lparr>Serialize = Serialize (OctetString_methods s), Len = l, Padding = pad4 l - l,
          TypeOf = IPFilterRuleType\<rparr>)"

definition DecodeQoSFilterRule :: "bytes \<Rightarrow> (decode_error, avp_value) result" where
  "DecodeQoSFilterRule b = Inr (QoSFilterRule b)"

definition QoSFilterRule_methods :: "gostring \<Rightarrow> type_iface" where
  "QoSFilterRule_methods s =
     (let l = int (length s)
      in \<lparr>Serialize = Serialize (OctetString_methods s), Len = l, Padding = pad4 l - l,
          TypeOf = QoSFilterRuleType\<rparr>)"

definition DecodeUnknown :: "bytes \<Rightarrow> (decode_error, avp_value) result" where
  "DecodeUnknown b = Inr (Unknown b)"

definition Unknown_methods :: "bytes \<Rightarrow> type_iface" where
  "Unknown_methods u =
     (let l = int (length u)
      in \<lparr>Serialize = u, Len = l, Padding = pad4 l - l, TypeOf = UnknownType\<rparr>)"

definition DecodeGrouped :: "bytes \<Rightarrow> (decode_error, avp_value) result" where
  "DecodeGrouped b = Inr (Grouped b)"

definition Grouped_methods :: "bytes \<Rightarrow> type_iface" where
  "Grouped_methods g =
     \<lparr>Serialize = g, Len = int (length g), Padding = 0, TypeOf = GroupedType\<rparr>"

definition DecodeIPv4 :: "bytes \<Rightarrow> (decode_error, avp_value) result" where
  "DecodeIPv4 b = (if length b \<noteq> 4 then Inr (IPv4 [0, 0, 0, 0]) else Inr (IPv4 b))"

definition IPv4_methods :: "bytes \<Rightarrow> type_iface" where
  "IPv4_methods ip =
     \<lparr>Serialize = (case To4 ip of Some ip4 \<Rightarrow> ip4 | None \<Rightarrow> ip), Len = 4, Padding = 0,
      TypeOf = IPv4Type\<rparr>"

definition DecodeIPv6 :: "bytes \<Rightarrow> (decode_error, avp_value) result" where
  "DecodeIPv6 b = (if length b \<noteq> 16 then Inr (IPv6 (replicate 16 0)) else Inr (IPv6 b))"

definition IPv6_methods :: "bytes \<Rightarrow> type_iface" where
  "IPv6_methods ip =
     \<lparr>Serialize = (case To16 ip of Some ip6 \<Rightarrow> ip6 | None \<Rightarrow> ip), Len = 16, Padding = 0,
      TypeOf = IPv6Type\<rparr>"

text \<open>
  \<^verbatim>\<open>Time\<close>: seconds since 1900 on the wire (RFC 868), with the RFC 2030 rule that a clear top bit
  means the era starting in 2036. \<open>zero_time_unix\<close> is \<^verbatim>\<open>time.Time{}.Unix()\<close>, year 1. The model of a time
  is its whole seconds: \<^verbatim>\<open>DecodeTime\<close> calls \<^verbatim>\<open>time.Unix(ts, 0)\<close>, and \<^verbatim>\<open>Serialize\<close> reads nothing finer.
\<close>

definition rfc868offset :: int where "rfc868offset = 2208988800"
definition rfc2030offset :: int where "rfc2030offset = 2085978496"
definition zero_time_unix :: int where "zero_time_unix = - 62135596800"

definition DecodeTime :: "bytes \<Rightarrow> (decode_error, avp_value) result" where
  "DecodeTime b =
     (if length b \<noteq> 4 then Inr (TimePtr zero_time_unix)
      else let ts = uint (Uint32 b)
           in if drop_bit 7 (b ! 0) = 0 then Inr (Time (ts + rfc2030offset))
              else Inr (Time (ts - rfc868offset)))"

definition Time_methods :: "int \<Rightarrow> type_iface" where
  "Time_methods t =
     \<lparr>Serialize = PutUint32 (word_of_int t + word_of_int rfc868offset), Len = 4, Padding = 0,
      TypeOf = TimeType\<rparr>"

text \<open>\<^verbatim>\<open>Address\<close>: a two-byte family before the address, kept only for unknown families.\<close>

definition DecodeAddress :: "bytes \<Rightarrow> (decode_error, avp_value) result" where
  "DecodeAddress b =
     (if length b < 3 then Inl (NotEnoughAddressData (length b))
      else if Uint16 (bslice 0 2 b) = 0 \<or> Uint16 (bslice 0 2 b) = 65535 then Inl InvalidAddressType
      else if Uint16 (bslice 0 2 b) = 1 then
        (if length (drop 2 b) \<noteq> 4 then Inl InvalidIPv4Length else Inr (Address (drop 2 b)))
      else if Uint16 (bslice 0 2 b) = 2 then
        (if length (drop 2 b) \<noteq> 16 then Inl InvalidIPv6Length else Inr (Address (drop 2 b)))
      else Inr (Address b))"

definition Address_Serialize :: "bytes \<Rightarrow> bytes" where
  "Address_Serialize addr =
     (case To4 addr of
        Some ip4 \<Rightarrow> [0, 1] @ ip4
      | None \<Rightarrow> (case To16 addr of Some ip6 \<Rightarrow> [0, 2] @ addr | None \<Rightarrow> addr))"

definition Address_Len :: "bytes \<Rightarrow> int" where
  "Address_Len addr =
     (case To4 addr of
        Some ip4 \<Rightarrow> int (length ip4) + 2
      | None \<Rightarrow> (case To16 addr of
                  Some ip6 \<Rightarrow> int (length ip6) + 2
                | None \<Rightarrow> int (length addr)))"

definition Address_methods :: "bytes \<Rightarrow> type_iface" where
  "Address_methods addr =
     \<lparr>Serialize = Address_Serialize addr, Len = Address_Len addr,
      Padding = pad4 (Address_Len addr) - Address_Len addr, TypeOf = AddressType\<rparr>"

section \<open>Dynamic dispatch and the decoder table\<close>

fun iface :: "avp_value \<Rightarrow> type_iface" where
  "iface (Unknown b) = Unknown_methods b"
| "iface (Address b) = Address_methods b"
| "iface (DiameterIdentity s) = DiameterIdentity_methods s"
| "iface (DiameterURI s) = DiameterURI_methods s"
| "iface (Enumerated n) = Enumerated_methods n"
| "iface (Float32 n) = Float32_methods n"
| "iface (Float64 n) = Float64_methods n"
| "iface (Grouped b) = Grouped_methods b"
| "iface (IPFilterRule s) = IPFilterRule_methods s"
| "iface (IPv4 b) = IPv4_methods b"
| "iface (IPv6 b) = IPv6_methods b"
| "iface (Integer32 n) = Integer32_methods n"
| "iface (Integer64 n) = Integer64_methods n"
| "iface (OctetString s) = OctetString_methods s"
| "iface (QoSFilterRule s) = QoSFilterRule_methods s"
| "iface (Time t) = Time_methods t"
| "iface (TimePtr t) = Time_methods t"
| "iface (UTF8String s) = UTF8String_methods s"
| "iface (Unsigned32 n) = Unsigned32_methods n"
| "iface (Unsigned64 n) = Unsigned64_methods n"

fun Decoder :: "TypeID \<Rightarrow> (bytes \<Rightarrow> (decode_error, avp_value) result) option" where
  "Decoder UnknownType = Some DecodeUnknown"
| "Decoder AddressType = Some DecodeAddress"
| "Decoder DiameterIdentityType = Some DecodeDiameterIdentity"
| "Decoder DiameterURIType = Some DecodeDiameterURI"
| "Decoder EnumeratedType = Some DecodeEnumerated"
| "Decoder Float32Type = Some DecodeFloat32"
| "Decoder Float64Type = Some DecodeFloat64"
| "Decoder GroupedType = Some DecodeGrouped"
| "Decoder IPFilterRuleType = Some DecodeIPFilterRule"
| "Decoder IPv4Type = Some DecodeIPv4"
| "Decoder Integer32Type = Some DecodeInteger32"
| "Decoder Integer64Type = Some DecodeInteger64"
| "Decoder OctetStringType = Some DecodeOctetString"
| "Decoder TimeType = Some DecodeTime"
| "Decoder UTF8StringType = Some DecodeUTF8String"
| "Decoder Unsigned32Type = Some DecodeUnsigned32"
| "Decoder Unsigned64Type = Some DecodeUnsigned64"
| "Decoder _ = None"

definition Decode :: "TypeID \<Rightarrow> bytes \<Rightarrow> (decode_error, avp_value) result" where
  "Decode t b = (case Decoder t of None \<Rightarrow> Inl (UnknownDataType t) | Some f \<Rightarrow> f b)"

text \<open>\<^verbatim>\<open>Available\<close>: the type names a dictionary may use.\<close>

definition Available :: "(string \<times> TypeID) list" where
  "Available =
    [(''Address'', AddressType), (''DiameterIdentity'', DiameterIdentityType),
     (''DiameterURI'', DiameterURIType), (''Enumerated'', EnumeratedType),
     (''Float32'', Float32Type), (''Float64'', Float64Type), (''Grouped'', GroupedType),
     (''IPFilterRule'', IPFilterRuleType), (''IPv4'', IPv4Type), (''IPv6'', IPv6Type),
     (''Integer32'', Integer32Type), (''Integer64'', Integer64Type),
     (''OctetString'', OctetStringType), (''QoSFilterRule'', QoSFilterRuleType),
     (''Time'', TimeType), (''UTF8String'', UTF8StringType), (''Unsigned32'', Unsigned32Type),
     (''Unsigned64'', Unsigned64Type)]"


section \<open>Padding and length\<close>

lemmas octet_methods [simp] =
  Unknown_methods_def DiameterIdentity_methods_def DiameterURI_methods_def
  IPFilterRule_methods_def OctetString_methods_def QoSFilterRule_methods_def
  UTF8String_methods_def Grouped_methods_def

lemmas number_methods [simp] =
  Integer32_methods_def Integer64_methods_def Unsigned32_methods_def Unsigned64_methods_def
  Float32_methods_def Float64_methods_def Enumerated_methods_def

lemmas ip_methods = IPv4_methods_def IPv6_methods_def Address_methods_def
  Address_Serialize_def Address_Len_def

lemmas decoders [simp] =
  DecodeInteger32_def DecodeInteger64_def DecodeUnsigned32_def DecodeUnsigned64_def
  DecodeFloat32_def DecodeFloat64_def DecodeOctetString_def DecodeUTF8String_def
  DecodeDiameterIdentity_def DecodeDiameterURI_def DecodeIPFilterRule_def
  DecodeQoSFilterRule_def DecodeUnknown_def DecodeGrouped_def DecodeEnumerated_def

lemma TypeOf_Time [simp]: "TypeOf (Time_methods t) = TimeType" "Len (Time_methods t) = 4"
  "Padding (Time_methods t) = 0" "length (Serialize (Time_methods t)) = 4"
  by (simp_all add: Time_methods_def)

lemma and_3_mod_4: "(x :: int) AND 3 = x mod 4"
proof -
  have "x AND 3 = take_bit 2 x"
    by (simp add: take_bit_eq_mask mask_eq_exp_minus_1)
  then show ?thesis
    by (simp add: take_bit_eq_mod)
qed

lemma pad4_alt: "pad4 n = n + (- n) mod 4"
proof -
  have "(4 - n) mod 4 = (- n) mod 4"
    by presburger
  then show ?thesis
    by (simp add: pad4_def and_3_mod_4)
qed

lemma pad4_bounds: "n \<le> pad4 n" "pad4 n < n + 4" "4 dvd pad4 n"
  unfolding pad4_alt by presburger+

lemma Len_Serialize_aux:
  "To4 ip = Some q \<Longrightarrow> int (length (Serialize (IPv4_methods ip))) = 4"
  "To16 ip = Some r \<Longrightarrow> int (length (Serialize (IPv6_methods ip))) = 16"
  by (auto simp: ip_methods dest: To4_length To16_length)

lemma length_Address_Serialize: "int (length (Address_Serialize a)) = Address_Len a"
  by (auto simp: ip_methods To4_def To16_def)

text \<open>The values whose wire form has the size that \<^verbatim>\<open>Len\<close> reports.\<close>

fun sized :: "avp_value \<Rightarrow> bool" where
  "sized (IPv4 ip) = (To4 ip \<noteq> None)"
| "sized (IPv6 ip) = (To16 ip \<noteq> None)"
| "sized _ = True"

lemma iface_padding:
  "TypeOf (iface v) \<noteq> GroupedType \<Longrightarrow> Padding (iface v) = pad4 (Len (iface v)) - Len (iface v)"
  by (cases v) (simp_all add: Let_def ip_methods(1-3), simp_all add: pad4_alt)

text \<open>
  For every value whose IP payload has a legal size, \<^verbatim>\<open>Len()\<close> is the number of bytes
  \<^verbatim>\<open>Serialize()\<close> produces, and except for \<^verbatim>\<open>Grouped\<close>, whose \<^verbatim>\<open>Padding()\<close> is constantly 0,
  \<^verbatim>\<open>Len()+Padding()\<close> is the least multiple of 4 that is not below \<^verbatim>\<open>Len()\<close>.
\<close>

theorem iface_len_padding:
  assumes "sized v"
  shows "Len (iface v) = int (length (Serialize (iface v))) \<and>
    (TypeOf (iface v) \<noteq> GroupedType \<longrightarrow>
      4 dvd Len (iface v) + Padding (iface v) \<and> 0 \<le> Padding (iface v) \<and> Padding (iface v) < 4)"
proof (intro conjI impI)
  show "Len (iface v) = int (length (Serialize (iface v)))"
    using assms
    by (cases v) (auto simp: Let_def length_Address_Serialize Address_methods_def
        IPv4_methods_def IPv6_methods_def dest: To4_length To16_length)
qed (use iface_padding [of v] pad4_bounds [of "Len (iface v)"] in simp_all)

theorem iface_len_padding_witness:
  "sized (IPv4 [10, 0, 0, 1]) \<and> Len (iface (IPv4 [10, 0, 0, 1])) = 4 \<and>
   4 dvd Len (iface (IPv4 [10, 0, 0, 1])) + Padding (iface (IPv4 [10, 0, 0, 1]))"
  using iface_len_padding [of "IPv4 [10, 0, 0, 1]"] by (simp add: To4_def IPv4_methods_def)

section \<open>Round trips\<close>

lemma Uint16_family [simp]:
  "Uint16 (bslice 0 2 (0 # 1 # r)) = 1" "Uint16 (bslice 0 2 (0 # 2 # r)) = 2"
  by (simp_all add: bslice_def wire_simps)

lemma DecodeAddress_Serialize_v4:
  "length b = 4 \<Longrightarrow> DecodeAddress (Address_Serialize b) = Inr (Address b)"
  by (simp add: DecodeAddress_def Address_Serialize_def To4_def)

lemma DecodeAddress_Serialize_v6:
  "length b = 16 \<Longrightarrow> To4 b = None \<Longrightarrow> DecodeAddress (Address_Serialize b) = Inr (Address b)"
  by (simp add: DecodeAddress_def Address_Serialize_def To16_def)

lemma DecodeAddress_Serialize_other:
  "3 \<le> length b \<Longrightarrow> length b \<notin> {4, 16} \<Longrightarrow> Uint16 (bslice 0 2 b) \<notin> {0, 1, 2, 65535} \<Longrightarrow>
   DecodeAddress (Address_Serialize b) = Inr (Address b)"
  by (simp add: DecodeAddress_def Address_Serialize_def To16_def To4_def)

text \<open>
  Addresses that survive the wire: IPv4 in four bytes, genuine IPv6, or the untouched payload of
  another address family whose total size cannot be mistaken for an IP address.
\<close>

definition canonical_address :: "bytes \<Rightarrow> bool" where
  "canonical_address b \<longleftrightarrow>
     length b = 4 \<or> (length b = 16 \<and> To4 b = None) \<or>
     (3 \<le> length b \<and> length b \<notin> {4, 16} \<and> Uint16 (bslice 0 2 b) \<notin> {0, 1, 2, 65535})"

lemma DecodeAddress_Serialize:
  "canonical_address b \<Longrightarrow> DecodeAddress (Address_Serialize b) = Inr (Address b)"
  unfolding canonical_address_def
  using DecodeAddress_Serialize_v4 DecodeAddress_Serialize_v6 DecodeAddress_Serialize_other
  by blast

fun canonical :: "avp_value \<Rightarrow> bool" where
  "canonical (Address b) = canonical_address b"
| "canonical (IPv4 b) = (length b = 4)"
| "canonical (IPv6 b) = (length b = 16)"
| "canonical (Time t) = (- 61505152 \<le> t \<and> t < 4233462144)"
| "canonical (TimePtr t) = False"
| "canonical _ = True"

lemma drop_bit_7_byte: "drop_bit 7 (b :: byte) = of_bool (bit b 7)"
proof (rule bit_word_eqI)
  fix n assume "n < LENGTH(8)"
  then show "bit (drop_bit 7 b) n = bit (of_bool (bit b 7) :: byte) n"
    by (cases n) (simp_all add: bit_simps bit_1_iff)
qed

lemma top_bit_PutUint32: "bit (PutUint32 w ! 0) 7 = bit w 31"
  by (simp add: PutUint32_def bit_simps)

lemma uint_top_bit: "uint (w :: u32) < 2147483648 \<longleftrightarrow> \<not> bit w 31"
proof -
  have u: "uint w < 2 ^ 32"
    using uint_lt2p [of w] by simp
  have "bit w 31 \<longleftrightarrow> bit (uint w) 31"
    by (simp add: bit_uint_iff)
  also have "\<dots> \<longleftrightarrow> odd (uint w div 2 ^ 31)"
    by (simp add: bit_iff_odd)
  also have "\<dots> \<longleftrightarrow> 2147483648 \<le> uint w"
  proof (cases "uint w < 2147483648")
    case False
    then have "uint w div 2 ^ 31 = 1" using u by simp
    then show ?thesis using False by simp
  qed simp
  finally show ?thesis by linarith
qed

text \<open>The era of a decoded time, in terms of the 32-bit number on the wire.\<close>

lemma DecodeTime_PutUint32:
  "DecodeTime (PutUint32 w) =
     Inr (Time (if uint w < 2147483648 then uint w + rfc2030offset else uint w - rfc868offset))"
  by (simp add: DecodeTime_def drop_bit_7_byte top_bit_PutUint32 uint_top_bit Let_def)

lemma DecodeTime_Serialize:
  assumes "- 61505152 \<le> t" "t < 4233462144"
  shows "DecodeTime (Serialize (Time_methods t)) = Inr (Time t)"
proof -
  define w :: u32 where "w = word_of_int t + word_of_int rfc868offset"
  have "w = word_of_int (t + 2208988800)"
    by (simp add: w_def rfc868offset_def)
  then have "uint w = take_bit LENGTH(32) (t + 2208988800)"
    by (simp only: uint_word_of_int_eq)
  also have "\<dots> = (t + 2208988800) mod 4294967296"
    by (simp add: take_bit_eq_mod)
  also have "\<dots> = (if t < 2085978496 then t + 2208988800 else t - 2085978496)"
  proof (cases "t < 2085978496")
    case False
    have "(t + 2208988800) mod 4294967296 = (t - 2085978496) mod 4294967296"
      using mod_add_self2 [of "t - 2085978496" "4294967296"] by (simp add: algebra_simps)
    then show ?thesis using False assms by simp
  qed (use assms in simp)
  finally have "DecodeTime (PutUint32 w) = Inr (Time t)"
    using assms by (simp add: DecodeTime_PutUint32 rfc868offset_def rfc2030offset_def)
  then show ?thesis
    by (simp add: w_def Time_methods_def)
qed

lemma Serialize_DecodeTime:
  assumes "length b = 4"
  shows "\<exists>t. DecodeTime b = Inr (Time t) \<and> Serialize (Time_methods t) = b"
proof -
  have b: "b = PutUint32 (Uint32 b)"
    using assms by (simp add: PutUint32_Uint32)
  have "word_of_int (uint (Uint32 b) + rfc2030offset) + word_of_int rfc868offset = Uint32 b"
    "word_of_int (uint (Uint32 b) - rfc868offset) + word_of_int rfc868offset = Uint32 b"
    by (simp_all add: rfc2030offset_def rfc868offset_def)
  then have "Serialize (Time_methods (uint (Uint32 b) + rfc2030offset)) = b"
    "Serialize (Time_methods (uint (Uint32 b) - rfc868offset)) = b"
    using b unfolding Time_methods_def by (metis type_iface.select_convs(1))+
  then show ?thesis
    using DecodeTime_PutUint32 [of "Uint32 b"] b by auto
qed

text \<open>
  C30. Decoding inverts serialising: every canonical value of a type in the decoder table is
  recovered exactly from its own wire form.
\<close>

theorem Decode_Serialize:
  assumes "canonical v" and "TypeOf (iface v) \<notin> {QoSFilterRuleType, IPv6Type}"
  shows "Decode (TypeOf (iface v)) (Serialize (iface v)) = Inr v"
  using assms
  by (cases v)
    (simp_all add: Decode_def Let_def DecodeAddress_Serialize Address_methods_def IPv4_methods_def
      IPv6_methods_def To4_def DecodeIPv4_def DecodeTime_Serialize)

theorem Decode_Serialize_witness:
  "canonical (Time 1700000000) \<and>
   Decode TimeType (Serialize (iface (Time 1700000000))) = Inr (Time 1700000000)"
  using Decode_Serialize [of "Time 1700000000"] by simp

text \<open>
  Input of the size its type requires. For \<^verbatim>\<open>Address\<close> this leaves out IPv4-mapped IPv6 addresses
  and payloads of other families of total size 4 or 16, which serialise as IP addresses.
\<close>

fun well_sized :: "TypeID \<Rightarrow> bytes \<Rightarrow> bool" where
  "well_sized AddressType b =
     (case DecodeAddress b of
        Inr (Address a) \<Rightarrow> canonical_address a \<and> (a = b \<longrightarrow> length b \<notin> {4, 16})
      | _ \<Rightarrow> False)"
| "well_sized EnumeratedType b = (length b = 4)"
| "well_sized Float32Type b = (length b = 4)"
| "well_sized Float64Type b = (length b = 8)"
| "well_sized IPv4Type b = (length b = 4)"
| "well_sized Integer32Type b = (length b = 4)"
| "well_sized Integer64Type b = (length b = 8)"
| "well_sized TimeType b = (length b = 4)"
| "well_sized Unsigned32Type b = (length b = 4)"
| "well_sized Unsigned64Type b = (length b = 8)"
| "well_sized _ b = True"

lemma Serialize_DecodeAddress:
  assumes "well_sized AddressType b" and "DecodeAddress b = Inr v"
  shows "Serialize (iface v) = b"
proof -
  from assms obtain a where v: "v = Address a" and can: "canonical_address a"
    and other: "a = b \<longrightarrow> length b \<notin> {4, 16}"
    by (auto split: sum.splits avp_value.splits)
  have "3 \<le> length b"
    using assms(2) by (auto simp: DecodeAddress_def split: if_splits)
  then obtain x y r where b: "b = x # y # r"
    by (metis Suc_le_length_iff numeral_3_eq_3)
  have "bslice 0 2 b = [x, y]"
    by (simp add: b bslice_def)
  then have fam: "[x, y] = PutUint16 (Uint16 (bslice 0 2 b))"
    by (simp only: PutUint16_Uint16)
  consider "Uint16 (bslice 0 2 b) = 1" "a = r" "length r = 4"
    | "Uint16 (bslice 0 2 b) = 2" "a = r" "length r = 16"
    | "a = b" "Uint16 (bslice 0 2 b) \<notin> {0, 1, 2, 65535}"
    using assms(2) v b by (auto simp: DecodeAddress_def split: if_splits)
  then have "Address_Serialize a = b"
  proof cases
    case 1
    then have "[x, y] = [0, 1]"
      using fam by (simp add: PutUint16_def)
    then show ?thesis
      using 1 b by (simp add: Address_Serialize_def To4_def)
  next
    case 2
    then have "[x, y] = [0, 2]"
      using fam by (simp add: PutUint16_def)
    moreover have "To4 a = None"
      using can 2 by (simp add: canonical_address_def)
    ultimately show ?thesis
      using 2 b by (simp add: Address_Serialize_def To16_def)
  next
    case 3
    then show ?thesis
      using other by (simp add: Address_Serialize_def To4_def To16_def)
  qed
  then show ?thesis
    by (simp add: v Address_methods_def)
qed

text \<open>
  Serialising inverts decoding: input of the size its type requires is reproduced byte for
  byte by serialising the decoded value.
\<close>

theorem Serialize_Decode:
  assumes "well_sized t b" and "Decode t b = Inr v"
  shows "Serialize (iface v) = b"
proof (cases "t = AddressType \<or> t = TimeType")
  case True
  then show ?thesis
    using assms Serialize_DecodeAddress Serialize_DecodeTime [of b]
    by (auto simp: Decode_def)
next
  case False
  then show ?thesis
    using assms
    by (cases t) (auto simp: Decode_def Let_def PutUint32_Uint32 PutUint64_Uint64 DecodeIPv4_def
        IPv4_methods_def To4_def)
qed

theorem Serialize_Decode_witness:
  "well_sized AddressType [0, 1, 10, 1, 2, 3] \<and>
   Decode AddressType [0, 1, 10, 1, 2, 3] = Inr (Address [10, 1, 2, 3]) \<and>
   Serialize (iface (Address [10, 1, 2, 3])) = [0, 1, 10, 1, 2, 3]"
proof -
  have h: "well_sized AddressType [0, 1, 10, 1, 2, 3]"
    "Decode AddressType [0, 1, 10, 1, 2, 3] = Inr (Address [10, 1, 2, 3])"
    by (simp_all add: Decode_def DecodeAddress_def canonical_address_def wire_simps)
  then show ?thesis
    using Serialize_Decode [OF h] by blast
qed

text \<open>
  An IPv4-mapped IPv6 address is not preserved: it decodes without error, but the decoded
  value serialises as an AVP of the IPv4 family, twelve bytes shorter.
\<close>

theorem DecodeAddress_v4_mapped_shrinks:
  assumes "length ip = 4"
  shows "DecodeAddress ([0, 2] @ v4InV6Prefix @ ip) = Inr (Address (v4InV6Prefix @ ip)) \<and>
    Serialize (iface (Address (v4InV6Prefix @ ip))) = [0, 1] @ ip"
  using assms by (simp add: DecodeAddress_def Address_methods_def Address_Serialize_def To4_def)

theorem DecodeAddress_v4_mapped_shrinks_witness:
  "length [10, 0, 0, 1 :: byte] = 4 \<and>
   Serialize (iface (Address (v4InV6Prefix @ [10, 0, 0, 1]))) = [0, 1, 10, 0, 0, 1]"
  using DecodeAddress_v4_mapped_shrinks [of "[10, 0, 0, 1]"] by simp

text \<open>
  \<^verbatim>\<open>Decode\<close> rejects a type identifier as unknown exactly for \<^verbatim>\<open>QoSFilterRuleType\<close> and
  \<^verbatim>\<open>IPv6Type\<close>, although both are names of \<^verbatim>\<open>Available\<close> and have decoders.
\<close>

theorem Decode_unknown_types:
  "(Decode t b = Inl (UnknownDataType t) \<longleftrightarrow> t \<in> {QoSFilterRuleType, IPv6Type}) \<and>
   {QoSFilterRuleType, IPv6Type} \<subseteq> snd ` set Available"
proof
  show "Decode t b = Inl (UnknownDataType t) \<longleftrightarrow> t \<in> {QoSFilterRuleType, IPv6Type}"
    by (cases t) (auto simp: Decode_def DecodeAddress_def DecodeIPv4_def DecodeTime_def Let_def)
qed (simp add: Available_def)

end
