(* ===== verification/Avp_Codec.thy ===== *)
theory Avp_Codec
  imports Avp_Types
begin

text \<open>
  The message header and the AVP framing of \<^verbatim>\<open>commands/base/diameter.pb.go\<close>: the helpers
  \<^verbatim>\<open>marshalHeader\<close>, \<^verbatim>\<open>unmarshalHeader\<close>, \<^verbatim>\<open>marshalAVP\<close> and \<^verbatim>\<open>marshalAVPWithVendor\<close>, and the loop
  over AVPs that every generated \<^verbatim>\<open>Unmarshal\<close> method repeats literally, here once as
  \<open>walkAVPs\<close> with the method's \<^verbatim>\<open>switch\<close> on the AVP code as its argument. The lemmas show that
  the loop terminates on every input, that it takes a marshalled AVP apart again, and that the
  header survives the wire.
\<close>

section \<open>Header\<close>

record CommandFlags =
  fl_Request :: bool
  fl_Proxiable :: bool
  fl_Error :: bool
  fl_Retransmitted :: bool

record DiameterHeader =
  hdr_Version :: byte
  hdr_Length :: u32
  hdr_Flags :: CommandFlags
  hdr_CommandCode :: u32
  hdr_ApplicationID :: u32
  hdr_HopByHopID :: u32
  hdr_EndToEndID :: u32

datatype codec_error =
    DataTooShort
  | AvpLengthExceeds
  | AvpTooShortForVendor
  | InvalidAvpDataLength
  | RequiredFieldEmpty string
  | ValidationFailed codec_error

definition flags_byte :: "CommandFlags \<Rightarrow> byte" where
  "flags_byte f =
     (if fl_Request f then 0x80 else 0) OR (if fl_Proxiable f then 0x40 else 0) OR
     (if fl_Error f then 0x20 else 0) OR (if fl_Retransmitted f then 0x10 else 0)"

text \<open>
  \<^verbatim>\<open>PutUint32(b[0:4], h.Length)\<close> followed by \<^verbatim>\<open>b[0] = h.Version\<close> keeps the three low bytes of the
  length; the command code shares its word with the flags in the same way.
\<close>

definition marshalHeader :: "DiameterHeader \<Rightarrow> bytes" where
  "marshalHeader h =
     [hdr_Version h] @ tl (PutUint32 (hdr_Length h)) @
     [flags_byte (hdr_Flags h)] @ tl (PutUint32 (hdr_CommandCode h)) @
     PutUint32 (hdr_ApplicationID h) @ PutUint32 (hdr_HopByHopID h) @
     PutUint32 (hdr_EndToEndID h)"

definition decode_flags :: "byte \<Rightarrow> CommandFlags" where
  "decode_flags flags =
     \<lparr>fl_Request = (flags AND 0x80 \<noteq> 0), fl_Proxiable = (flags AND 0x40 \<noteq> 0),
      fl_Error = (flags AND 0x20 \<noteq> 0), fl_Retransmitted = (flags AND 0x10 \<noteq> 0)\<rparr>"

definition unmarshalHeader :: "bytes \<Rightarrow> (codec_error, DiameterHeader) result" where
  "unmarshalHeader data =
     (if length data < 20 then Inl DataTooShort
      else Inr \<lparr>hdr_Version = data ! 0,
        hdr_Length = Uint32 [0, data ! 1, data ! 2, data ! 3],
        hdr_Flags = decode_flags (data ! 4),
        hdr_CommandCode = Uint32 [0, data ! 5, data ! 6, data ! 7],
        hdr_ApplicationID = Uint32 (bslice 8 12 data),
        hdr_HopByHopID = Uint32 (bslice 12 16 data),
        hdr_EndToEndID = Uint32 (bslice 16 20 data)\<rparr>)"

section \<open>AVPs\<close>

definition avp_flags :: "bool \<Rightarrow> bool \<Rightarrow> bool \<Rightarrow> byte" where
  "avp_flags hasVendor mandatory protected =
     (if hasVendor then 0x80 else 0) OR (if mandatory then 0x40 else 0) OR
     (if protected then 0x20 else 0)"

definition avp_padding :: "nat \<Rightarrow> nat" where
  "avp_padding n = (4 - n mod 4) mod 4"

definition marshalAVP :: "u32 \<Rightarrow> avp_value \<Rightarrow> bool \<Rightarrow> bool \<Rightarrow> bytes" where
  "marshalAVP code data mandatory protected =
     (let serialized = Serialize (iface data);
          totalLen = 8 + length serialized;
          buf = PutUint32 code @ [avp_flags False mandatory protected] @
                tl (PutUint32 (word_of_nat totalLen)) @ serialized
      in buf @ replicate (avp_padding (length buf)) 0)"

definition marshalAVPWithVendor :: "u32 \<Rightarrow> avp_value \<Rightarrow> bool \<Rightarrow> bool \<Rightarrow> u32 \<Rightarrow> bytes" where
  "marshalAVPWithVendor code data mandatory protected vendorID =
     (let serialized = Serialize (iface data);
          hasVendor = (vendorID \<noteq> 0);
          headerSize = (if hasVendor then 12 else 8);
          totalLen = headerSize + length serialized;
          buf = PutUint32 code @ [avp_flags hasVendor mandatory protected] @
                tl (PutUint32 (word_of_nat totalLen)) @
                (if hasVendor then PutUint32 vendorID else []) @ serialized
      in buf @ replicate (avp_padding (length buf)) 0)"

definition padded_length :: "nat \<Rightarrow> nat" where
  "padded_length n = (if n mod 4 \<noteq> 0 then n + (4 - n mod 4) else n)"

lemma padded_length_ge: "n \<le> padded_length n"
  by (simp add: padded_length_def) presburger

text \<open>
  The loop of the \<^verbatim>\<open>Unmarshal\<close> methods. \<open>step code vendor value\<close> is the \<^verbatim>\<open>switch\<close>; \<open>vendor\<close> is 0
  when the V bit is clear, as the zero-initialised Go variable. A method that fails part-way
  returns its error and its caller discards the half-filled receiver, so \<open>Inl\<close> carries no message.
\<close>

function walkAVPs ::
  "(u32 \<Rightarrow> u32 \<Rightarrow> bytes \<Rightarrow> 'm \<Rightarrow> 'm) \<Rightarrow> bytes \<Rightarrow> 'm \<Rightarrow> (codec_error, 'm) result" where
  "walkAVPs step avpData m =
     (if length avpData < 8 then Inr m
      else
        let avpCode = Uint32 (bslice 0 4 avpData);
            hasV = (avpData ! 4 AND 0x80 \<noteq> 0);
            avpLength = unat (Uint32 [0, avpData ! 5, avpData ! 6, avpData ! 7]);
            headerSize = (if hasV then 12 else 8);
            vendorID = (if hasV then Uint32 (bslice 8 12 avpData) else 0)
        in if avpLength > length avpData then Inl AvpLengthExceeds
           else if hasV \<and> length avpData < 12 then Inl AvpTooShortForVendor
           else if avpLength < headerSize then Inl InvalidAvpDataLength
           else
             let m' = step avpCode vendorID (bslice headerSize avpLength avpData) m
             in if padded_length avpLength > length avpData then Inr m'
                else walkAVPs step (drop (padded_length avpLength) avpData) m')"
  by pat_completeness auto
termination
proof (relation "measure (\<lambda>(step, avpData, m). length avpData)", goal_cases)
  case (2 step avpData m code hasV len hs vendor m')
  then have "0 < len"
    by (simp split: if_splits)
  then have "0 < padded_length len"
    using padded_length_ge [of len] by linarith
  then show ?case
    using 2 by simp
qed simp

declare walkAVPs.simps [simp del]

section \<open>Header round trip\<close>

lemma length_marshalHeader [simp]: "length (marshalHeader h) = 20"
  by (simp add: marshalHeader_def)

lemma decode_flags_byte [simp]: "decode_flags (flags_byte f) = f"
  by (cases f) (simp add: decode_flags_def flags_byte_def)

lemma PutUint32_nth:
  "PutUint32 v ! 0 = ucast (drop_bit 24 v)" "PutUint32 v ! Suc 0 = ucast (drop_bit 16 v)"
  "PutUint32 v ! 2 = ucast (drop_bit 8 v)" "PutUint32 v ! 3 = ucast v"
  by (simp_all add: PutUint32_def)

lemma unmarshalHeader_append:
  "unmarshalHeader (marshalHeader h @ rest) =
     Inr (h\<lparr>hdr_Length := take_bit 24 (hdr_Length h),
            hdr_CommandCode := take_bit 24 (hdr_CommandCode h)\<rparr>)"
  by (cases h)
    (simp add: unmarshalHeader_def marshalHeader_def bslice_def PutUint32_def)

text \<open>
  A marshalled header unmarshals to the same header with the length and the command code
  reduced to the 24 bits their fields have on the wire.
\<close>

theorem unmarshalHeader_marshalHeader:
  "unmarshalHeader (marshalHeader h @ rest) =
     Inr (h\<lparr>hdr_Length := take_bit 24 (hdr_Length h),
            hdr_CommandCode := take_bit 24 (hdr_CommandCode h)\<rparr>)"
  by (rule unmarshalHeader_append)

section \<open>The loop takes marshalled AVPs apart\<close>

lemma avp_flags_vendor_bit [simp]: "avp_flags v m p AND 0x80 \<noteq> 0 \<longleftrightarrow> v"
  by (simp add: avp_flags_def)

lemma avp_padding_padded: "n + avp_padding n = padded_length n"
  using mod_less_divisor [of 4 n] by (simp add: avp_padding_def padded_length_def)

lemma padded_length_mod [simp]: "padded_length n mod 4 = 0"
  by (simp add: padded_length_def) presburger

text \<open>What the loop reads at the front of an AVP given by its parts.\<close>

lemma avp_frame:
  fixes flags :: byte
  assumes len: "hs + length value < 2 ^ 24"
    and hs: "hs = (if flags AND 0x80 \<noteq> 0 then 12 else 8)"
    and vend: "vendor = (if flags AND 0x80 \<noteq> 0 then PutUint32 vid else [])"
    and pad: "length pad = avp_padding (hs + length value)"
    and data: "data = PutUint32 code @ [flags] @ tl (PutUint32 (word_of_nat (hs + length value))) @
      vendor @ value @ pad @ rest"
  shows "\<not> length data < 8" and "Uint32 (bslice 0 4 data) = code" and "data ! 4 = flags"
    and "unat (Uint32 [0, data ! 5, data ! 6, data ! 7]) = hs + length value"
    and "flags AND 0x80 \<noteq> 0 \<Longrightarrow> Uint32 (bslice 8 12 data) = vid"
    and "bslice hs (hs + length value) data = value"
    and "padded_length (hs + length value) \<le> length data"
    and "drop (padded_length (hs + length value)) data = rest"
    and "hs + length value \<le> length data"
    and "flags AND 0x80 \<noteq> 0 \<Longrightarrow> 12 \<le> length data"
proof -
  define n where "n = hs + length value"
  define avp where "avp = PutUint32 code @ [flags] @ tl (PutUint32 (word_of_nat n)) @ vendor @ value @ pad"
  have d: "data = avp @ rest"
    by (simp add: data avp_def n_def)
  have lv: "length vendor = hs - 8"
    by (simp add: vend hs)
  have la: "length avp = padded_length n"
    using avp_padding_padded [of n] hs by (simp add: avp_def lv pad n_def split: if_splits)
  have n8: "8 \<le> n" and nle: "n \<le> padded_length n"
    using hs padded_length_ge by (auto simp: n_def)
  have "unat (Uint32 (0 # tl (PutUint32 (word_of_nat n)) @ [])) = n"
    using len by (intro unat_length_field) (simp add: n_def)
  then show "unat (Uint32 [0, data ! 5, data ! 6, data ! 7]) = hs + length value"
    by (simp add: d n_def [symmetric]) (simp add: avp_def PutUint32_def nth_append)
  show "Uint32 (bslice 0 4 data) = code" "data ! 4 = flags"
    by (simp_all add: d avp_def bslice_def nth_append)
  show "flags AND 0x80 \<noteq> 0 \<Longrightarrow> Uint32 (bslice 8 12 data) = vid"
    by (simp add: d avp_def vend bslice_def PutUint32_def)
  show "bslice hs (hs + length value) data = value"
    by (simp add: data bslice_def hs vend PutUint32_def)
  show "\<not> length data < 8" "padded_length (hs + length value) \<le> length data"
    "drop (padded_length (hs + length value)) data = rest" "hs + length value \<le> length data"
    using n8 nle la by (simp_all add: d n_def [symmetric])
  show "flags AND 0x80 \<noteq> 0 \<Longrightarrow> 12 \<le> length data"
    using nle la hs by (simp add: d n_def)
qed

text \<open>One turn of the loop on such an AVP.\<close>

lemma walkAVPs_frame:
  assumes len: "hs + length value < 2 ^ 24"
    and hs: "hs = (if flags AND 0x80 \<noteq> 0 then 12 else 8)"
    and vend: "vendor = (if flags AND 0x80 \<noteq> 0 then PutUint32 vid else [])"
    and pad: "length pad = avp_padding (hs + length value)"
  shows "walkAVPs step
      (PutUint32 code @ [flags] @ tl (PutUint32 (word_of_nat (hs + length value))) @ vendor @
       value @ pad @ rest) m =
    walkAVPs step rest (step code (if flags AND 0x80 \<noteq> 0 then vid else 0) value m)"
proof -
  define data where "data = PutUint32 code @ [flags] @ tl (PutUint32 (word_of_nat (hs + length value))) @
      vendor @ value @ pad @ rest"
  note fr = avp_frame [OF len hs vend pad data_def]
  have "walkAVPs step data m = walkAVPs step rest (step code (if flags AND 0x80 \<noteq> 0 then vid else 0) value m)"
    using fr hs by (cases "flags AND 0x80 \<noteq> 0") (subst walkAVPs.simps, simp add: Let_def)+
  then show ?thesis
    by (simp only: data_def)
qed

lemma walkAVPs_Nil [simp]: "walkAVPs step [] m = Inr m"
  by (simp add: walkAVPs.simps)

lemma walkAVPs_marshalAVP:
  assumes "8 + length (Serialize (iface data)) < 2 ^ 24"
  shows "walkAVPs step (marshalAVP code data mandatory protected @ rest) m =
    walkAVPs step rest (step code 0 (Serialize (iface data)) m)"
  using walkAVPs_frame [of 8 "Serialize (iface data)" "avp_flags False mandatory protected" "[]" 0
      "replicate (avp_padding (8 + length (Serialize (iface data)))) 0" step code rest m] assms
  by (simp add: marshalAVP_def Let_def)

text \<open>
  The loop of the \<^verbatim>\<open>Unmarshal\<close> methods hands exactly the code, the vendor and the serialised
  value of a marshalled AVP to the \<^verbatim>\<open>switch\<close> and goes on behind its padding, whatever follows.
\<close>

theorem walkAVPs_marshalAVPWithVendor:
  assumes "12 + length (Serialize (iface data)) < 2 ^ 24"
  shows "walkAVPs step (marshalAVPWithVendor code data mandatory protected vendorID @ rest) m =
    walkAVPs step rest (step code vendorID (Serialize (iface data)) m)"
proof (cases "vendorID = 0")
  case True
  then have "marshalAVPWithVendor code data mandatory protected vendorID =
      marshalAVP code data mandatory protected"
    by (simp add: marshalAVPWithVendor_def marshalAVP_def Let_def)
  then show ?thesis
    using True assms walkAVPs_marshalAVP [of data step code mandatory protected rest m] by simp
next
  case False
  then show ?thesis
    using walkAVPs_frame [of 12 "Serialize (iface data)" "avp_flags True mandatory protected"
        "PutUint32 vendorID" vendorID
        "replicate (avp_padding (12 + length (Serialize (iface data)))) 0" step code rest m] assms
    by (simp add: marshalAVPWithVendor_def Let_def)
qed

theorem walkAVPs_marshalAVPWithVendor_witness:
  "walkAVPs (\<lambda>c v b m. m @ [(c, v, b)])
     (marshalAVPWithVendor 264 (DiameterIdentity [104, 115, 115]) True False 10415) [] =
   Inr [(264, 10415, [104, 115, 115])]"
  using walkAVPs_marshalAVPWithVendor [of "DiameterIdentity [104, 115, 115]"
      "\<lambda>c v b m. m @ [(c, v, b)]" 264 True False 10415 "[]" "[]"]
  by simp

end
