(* ===== verification/Base_Messages.thy ===== *)
theory Base_Messages
  imports Avp_Codec
begin

text \<open>
  The six base-protocol messages of \<^verbatim>\<open>commands/base/diameter.pb.go\<close> that the gateway itself sends
  and answers (CER, CEA, DWR, DWA, DPR, DPA) and the grouped AVPs they carry. Each message is a
  record with the fields of the Go struct (a pointer is an \<open>option\<close>, a slice a list, a slice of
  pointers a list of options), its \<^verbatim>\<open>Validate\<close>, \<^verbatim>\<open>Marshal\<close> and \<^verbatim>\<open>Unmarshal\<close>. \<open>Marshal\<close> returns
  the receiver too, because the Go method stores the message length in its header; \<open>Unmarshal\<close>
  takes the receiver, because the Go method fills it and appends to its slices.

  The locale \<open>generated_message\<close> is the contract the code generator promises for every message;
  it is interpreted on the six messages, which gives each its round trip.
\<close>

section \<open>AVP codes\<close>

abbreviation AVPCodeACCTAPPLICATIONID :: u32 where "AVPCodeACCTAPPLICATIONID \<equiv> 259"
abbreviation AVPCodeAUTHAPPLICATIONID :: u32 where "AVPCodeAUTHAPPLICATIONID \<equiv> 258"
abbreviation AVPCodeDISCONNECTCAUSE :: u32 where "AVPCodeDISCONNECTCAUSE \<equiv> 273"
abbreviation AVPCodeERRORMESSAGE :: u32 where "AVPCodeERRORMESSAGE \<equiv> 281"
abbreviation AVPCodeFAILEDAVP :: u32 where "AVPCodeFAILEDAVP \<equiv> 279"
abbreviation AVPCodeFIRMWAREREVISION :: u32 where "AVPCodeFIRMWAREREVISION \<equiv> 267"
abbreviation AVPCodeHOSTIPADDRESS :: u32 where "AVPCodeHOSTIPADDRESS \<equiv> 257"
abbreviation AVPCodeINBANDSECURITYID :: u32 where "AVPCodeINBANDSECURITYID \<equiv> 299"
abbreviation AVPCodeORIGINHOST :: u32 where "AVPCodeORIGINHOST \<equiv> 264"
abbreviation AVPCodeORIGINREALM :: u32 where "AVPCodeORIGINREALM \<equiv> 296"
abbreviation AVPCodeORIGINSTATEID :: u32 where "AVPCodeORIGINSTATEID \<equiv> 278"
abbreviation AVPCodePRODUCTNAME :: u32 where "AVPCodePRODUCTNAME \<equiv> 269"
abbreviation AVPCodeRESULTCODE :: u32 where "AVPCodeRESULTCODE \<equiv> 268"
abbreviation AVPCodeSUPPORTEDVENDORID :: u32 where "AVPCodeSUPPORTEDVENDORID \<equiv> 265"
abbreviation AVPCodeVENDORID :: u32 where "AVPCodeVENDORID \<equiv> 266"
abbreviation AVPCodeVENDORSPECIFICAPPLICATIONID :: u32 where
  "AVPCodeVENDORSPECIFICAPPLICATIONID \<equiv> 260"

section \<open>What every generated method does\<close>

text \<open>
  A call \<^verbatim>\<open>buf.Write(marshalAVP(code, value, mandatory, false))\<close> is a triple; the body of a
  \<^verbatim>\<open>Marshal\<close> method is the list of them in program order, \<^verbatim>\<open>if m.F != nil\<close> and
  \<^verbatim>\<open>for _, v := range m.F\<close> being \<open>optional\<close> and \<open>repeated\<close>.
\<close>

type_synonym avp_write = "u32 \<times> avp_value \<times> bool"

definition repeated :: "u32 \<Rightarrow> ('a \<Rightarrow> avp_value) \<Rightarrow> bool \<Rightarrow> 'a list \<Rightarrow> avp_write list" where
  "repeated code con mandatory vs = map (\<lambda>v. (code, con v, mandatory)) vs"

definition optional :: "u32 \<Rightarrow> ('a \<Rightarrow> avp_value) \<Rightarrow> bool \<Rightarrow> 'a option \<Rightarrow> avp_write list" where
  "optional code con mandatory v = (case v of None \<Rightarrow> [] | Some x \<Rightarrow> [(code, con x, mandatory)])"

primrec writeAVPs :: "avp_write list \<Rightarrow> bytes" where
  "writeAVPs [] = []"
| "writeAVPs (w # ws) =
     (case w of (code, v, mandatory) \<Rightarrow> marshalAVP code v mandatory False) @ writeAVPs ws"

text \<open>
  The common ends of the methods: \<^verbatim>\<open>Marshal\<close> stores the total length in the header and copies the
  header over its placeholder; \<^verbatim>\<open>Unmarshal\<close> reads the header and runs the loop.
\<close>

definition sealMessage :: "DiameterHeader \<Rightarrow> bytes \<Rightarrow> DiameterHeader \<times> bytes" where
  "sealMessage h body =
     (let h' = h\<lparr>hdr_Length := word_of_nat (20 + length body)\<rparr> in (h', marshalHeader h' @ body))"

definition unmarshalMessage ::
  "(DiameterHeader \<Rightarrow> 'm \<Rightarrow> 'm) \<Rightarrow> (u32 \<Rightarrow> u32 \<Rightarrow> bytes \<Rightarrow> 'm \<Rightarrow> 'm) \<Rightarrow> bytes \<Rightarrow> 'm \<Rightarrow>
   (codec_error, 'm) result" where
  "unmarshalMessage setHeader step data m =
     (if length data < 20 then Inl DataTooShort
      else case unmarshalHeader (take 20 data) of
        Inl e \<Rightarrow> Inl e
      | Inr h \<Rightarrow> walkAVPs step (drop 20 data) (setHeader h m))"

definition zero_header :: DiameterHeader where
  "zero_header =
     \<lparr>hdr_Version = 0, hdr_Length = 0,
      hdr_Flags = \<lparr>fl_Request = False, fl_Proxiable = False, fl_Error = False,
        fl_Retransmitted = False\<rparr>,
      hdr_CommandCode = 0, hdr_ApplicationID = 0, hdr_HopByHopID = 0, hdr_EndToEndID = 0\<rparr>"

definition new_header :: "u32 \<Rightarrow> bool \<Rightarrow> DiameterHeader" where
  "new_header commandCode request =
     zero_header\<lparr>hdr_Version := 1, hdr_CommandCode := commandCode,
       hdr_Flags := (hdr_Flags zero_header)\<lparr>fl_Request := request\<rparr>\<rparr>"

text \<open>
  \<^verbatim>\<open>val, err := DecodeX(avpValue); if err == nil { ... val.(X) ... }\<close>. Each of these decoders
  returns values of its own type only, so the type assertion cannot panic (lemma
  \<open>decoders_own_type\<close>) and the last case stands for \<^verbatim>\<open>err != nil\<close>.
\<close>

definition with_DiameterIdentity :: "bytes \<Rightarrow> (gostring \<Rightarrow> 'm) \<Rightarrow> 'm \<Rightarrow> 'm" where
  "with_DiameterIdentity avpValue f m =
     (case DecodeDiameterIdentity avpValue of Inr (DiameterIdentity v) \<Rightarrow> f v | _ \<Rightarrow> m)"

definition with_UTF8String :: "bytes \<Rightarrow> (gostring \<Rightarrow> 'm) \<Rightarrow> 'm \<Rightarrow> 'm" where
  "with_UTF8String avpValue f m =
     (case DecodeUTF8String avpValue of Inr (UTF8String v) \<Rightarrow> f v | _ \<Rightarrow> m)"

definition with_Unsigned32 :: "bytes \<Rightarrow> (u32 \<Rightarrow> 'm) \<Rightarrow> 'm \<Rightarrow> 'm" where
  "with_Unsigned32 avpValue f m =
     (case DecodeUnsigned32 avpValue of Inr (Unsigned32 v) \<Rightarrow> f v | _ \<Rightarrow> m)"

definition with_Enumerated :: "bytes \<Rightarrow> (u32 \<Rightarrow> 'm) \<Rightarrow> 'm \<Rightarrow> 'm" where
  "with_Enumerated avpValue f m =
     (case DecodeEnumerated avpValue of Inr (Enumerated v) \<Rightarrow> f v | _ \<Rightarrow> m)"

definition with_Address :: "bytes \<Rightarrow> (bytes \<Rightarrow> 'm) \<Rightarrow> 'm \<Rightarrow> 'm" where
  "with_Address avpValue f m =
     (case DecodeAddress avpValue of Inr (Address v) \<Rightarrow> f v | _ \<Rightarrow> m)"

section \<open>Grouped AVPs\<close>

record VendorSpecificApplicationId =
  vsa_VendorId :: "u32 option"
  vsa_AuthApplicationId :: "u32 option"
  vsa_AcctApplicationId :: "u32 option"

definition VSA_zero :: VendorSpecificApplicationId where
  "VSA_zero =
     \<lparr>vsa_VendorId = None, vsa_AuthApplicationId = None, vsa_AcctApplicationId = None\<rparr>"

definition VSA_Marshal :: "VendorSpecificApplicationId \<Rightarrow> (codec_error, bytes) result" where
  "VSA_Marshal g = Inr (writeAVPs (
     optional AVPCodeVENDORID Unsigned32 True (vsa_VendorId g) @
     optional AVPCodeAUTHAPPLICATIONID Unsigned32 True (vsa_AuthApplicationId g) @
     optional AVPCodeACCTAPPLICATIONID Unsigned32 True (vsa_AcctApplicationId g)))"

definition VSA_avp ::
  "u32 \<Rightarrow> u32 \<Rightarrow> bytes \<Rightarrow> VendorSpecificApplicationId \<Rightarrow> VendorSpecificApplicationId" where
  "VSA_avp avpCode vendorID avpValue g =
     (if avpCode = AVPCodeVENDORID then
        with_Unsigned32 avpValue (\<lambda>v. g\<lparr>vsa_VendorId := Some v\<rparr>) g
      else if avpCode = AVPCodeAUTHAPPLICATIONID then
        with_Unsigned32 avpValue (\<lambda>v. g\<lparr>vsa_AuthApplicationId := Some v\<rparr>) g
      else if avpCode = AVPCodeACCTAPPLICATIONID then
        with_Unsigned32 avpValue (\<lambda>v. g\<lparr>vsa_AcctApplicationId := Some v\<rparr>) g
      else g)"

definition VSA_Unmarshal ::
  "bytes \<Rightarrow> VendorSpecificApplicationId \<Rightarrow> (codec_error, VendorSpecificApplicationId) result" where
  "VSA_Unmarshal data g = walkAVPs VSA_avp data g"

text \<open>The member AVPs of \<^verbatim>\<open>FailedAVP\<close> have no code in the dictionary: nothing is written or read.\<close>

record FailedAVP =
  fa_Avp :: "gostring list"

definition FailedAVP_Marshal :: "FailedAVP \<Rightarrow> (codec_error, bytes) result" where
  "FailedAVP_Marshal g = Inr []"

definition FailedAVP_Unmarshal :: "bytes \<Rightarrow> FailedAVP \<Rightarrow> (codec_error, FailedAVP) result" where
  "FailedAVP_Unmarshal data g = walkAVPs (\<lambda>avpCode vendorID avpValue g. g) data g"

text \<open>The uses of the grouped AVPs in the messages: writing skips nil pointers and errors.\<close>

definition VSA_writes :: "VendorSpecificApplicationId option \<Rightarrow> avp_write list" where
  "VSA_writes v =
     (case v of
        None \<Rightarrow> []
      | Some g \<Rightarrow> (case VSA_Marshal g of
          Inr groupedData \<Rightarrow> [(AVPCodeVENDORSPECIFICAPPLICATIONID, Grouped groupedData, True)]
        | Inl err \<Rightarrow> []))"

definition with_VSA :: "bytes \<Rightarrow> (VendorSpecificApplicationId \<Rightarrow> 'm) \<Rightarrow> 'm \<Rightarrow> 'm" where
  "with_VSA avpValue f m = (case VSA_Unmarshal avpValue VSA_zero of Inr g \<Rightarrow> f g | Inl err \<Rightarrow> m)"

definition FailedAVP_writes :: "FailedAVP option \<Rightarrow> avp_write list" where
  "FailedAVP_writes v =
     (case v of
        None \<Rightarrow> []
      | Some g \<Rightarrow> (case FailedAVP_Marshal g of
          Inr groupedData \<Rightarrow> [(AVPCodeFAILEDAVP, Grouped groupedData, True)]
        | Inl err \<Rightarrow> []))"

definition with_FailedAVP :: "bytes \<Rightarrow> (FailedAVP \<Rightarrow> 'm) \<Rightarrow> 'm \<Rightarrow> 'm" where
  "with_FailedAVP avpValue f m =
     (case FailedAVP_Unmarshal avpValue \<lparr>fa_Avp = []\<rparr> of Inr g \<Rightarrow> f g | Inl err \<Rightarrow> m)"

section \<open>\<^verbatim>\<open>CapabilitiesExchangeRequest\<close>\<close>

record CapabilitiesExchangeRequest =
  cer_Header :: DiameterHeader
  cer_OriginHost :: gostring
  cer_OriginRealm :: gostring
  cer_HostIpAddress :: "bytes list"
  cer_VendorId :: u32
  cer_ProductName :: gostring
  cer_OriginStateId :: "u32 option"
  cer_SupportedVendorId :: "u32 list"
  cer_AuthApplicationId :: "u32 list"
  cer_InbandSecurityId :: "u32 list"
  cer_AcctApplicationId :: "u32 list"
  cer_VendorSpecificApplicationId :: "VendorSpecificApplicationId option list"
  cer_FirmwareRevision :: "u32 option"
  cer_Avp :: "gostring list"

definition CER_zero :: CapabilitiesExchangeRequest where
  "CER_zero =
     \<lparr>cer_Header = zero_header, cer_OriginHost = [], cer_OriginRealm = [],
      cer_HostIpAddress = [], cer_VendorId = 0, cer_ProductName = [],
      cer_OriginStateId = None, cer_SupportedVendorId = [], cer_AuthApplicationId = [],
      cer_InbandSecurityId = [], cer_AcctApplicationId = [], cer_VendorSpecificApplicationId = [],
      cer_FirmwareRevision = None, cer_Avp = []\<rparr>"

definition NewCapabilitiesExchangeRequest :: CapabilitiesExchangeRequest where
  "NewCapabilitiesExchangeRequest = CER_zero\<lparr>cer_Header := new_header 257 True\<rparr>"

definition CER_Validate :: "CapabilitiesExchangeRequest \<Rightarrow> codec_error option" where
  "CER_Validate m =
     (if cer_OriginHost m = [] then Some (RequiredFieldEmpty ''Origin-Host'')
      else if cer_OriginRealm m = [] then Some (RequiredFieldEmpty ''Origin-Realm'')
      else if cer_HostIpAddress m = [] then Some (RequiredFieldEmpty ''Host-IP-Address'')
      else if cer_ProductName m = [] then Some (RequiredFieldEmpty ''Product-Name'')
      else None)"

definition CER_writes :: "CapabilitiesExchangeRequest \<Rightarrow> avp_write list" where
  "CER_writes m =
     [(AVPCodeORIGINHOST, DiameterIdentity (cer_OriginHost m), True)] @
     [(AVPCodeORIGINREALM, DiameterIdentity (cer_OriginRealm m), True)] @
     repeated AVPCodeHOSTIPADDRESS Address True (cer_HostIpAddress m) @
     [(AVPCodeVENDORID, Unsigned32 (cer_VendorId m), True)] @
     [(AVPCodePRODUCTNAME, UTF8String (cer_ProductName m), False)] @
     optional AVPCodeORIGINSTATEID Unsigned32 False (cer_OriginStateId m) @
     repeated AVPCodeSUPPORTEDVENDORID Unsigned32 True (cer_SupportedVendorId m) @
     repeated AVPCodeAUTHAPPLICATIONID Unsigned32 True (cer_AuthApplicationId m) @
     repeated AVPCodeINBANDSECURITYID Unsigned32 True (cer_InbandSecurityId m) @
     repeated AVPCodeACCTAPPLICATIONID Unsigned32 True (cer_AcctApplicationId m) @
     concat (map VSA_writes (cer_VendorSpecificApplicationId m)) @
     optional AVPCodeFIRMWAREREVISION Unsigned32 False (cer_FirmwareRevision m)"

definition CER_Marshal :: "CapabilitiesExchangeRequest \<Rightarrow> (codec_error, CapabilitiesExchangeRequest \<times> bytes) result" where
  "CER_Marshal m =
     (case CER_Validate m of
        Some err \<Rightarrow> Inl (ValidationFailed err)
      | None \<Rightarrow>
          let (header, result) = sealMessage (cer_Header m) (writeAVPs (CER_writes m))
          in Inr (m\<lparr>cer_Header := header\<rparr>, result))"

definition CER_avp :: "u32 \<Rightarrow> u32 \<Rightarrow> bytes \<Rightarrow> CapabilitiesExchangeRequest \<Rightarrow> CapabilitiesExchangeRequest" where
  "CER_avp avpCode vendorID avpValue m =
     (if avpCode = AVPCodeORIGINHOST then
        with_DiameterIdentity avpValue (\<lambda>v. m\<lparr>cer_OriginHost := v\<rparr>) m
      else if avpCode = AVPCodeORIGINREALM then
        with_DiameterIdentity avpValue (\<lambda>v. m\<lparr>cer_OriginRealm := v\<rparr>) m
      else if avpCode = AVPCodeHOSTIPADDRESS then
        with_Address avpValue (\<lambda>v. m\<lparr>cer_HostIpAddress := cer_HostIpAddress m @ [v]\<rparr>) m
      else if avpCode = AVPCodeVENDORID then
        with_Unsigned32 avpValue (\<lambda>v. m\<lparr>cer_VendorId := v\<rparr>) m
      else if avpCode = AVPCodePRODUCTNAME then
        with_UTF8String avpValue (\<lambda>v. m\<lparr>cer_ProductName := v\<rparr>) m
      else if avpCode = AVPCodeORIGINSTATEID then
        with_Unsigned32 avpValue (\<lambda>v. m\<lparr>cer_OriginStateId := Some v\<rparr>) m
      else if avpCode = AVPCodeSUPPORTEDVENDORID then
        with_Unsigned32 avpValue (\<lambda>v. m\<lparr>cer_SupportedVendorId := cer_SupportedVendorId m @ [v]\<rparr>) m
      else if avpCode = AVPCodeAUTHAPPLICATIONID then
        with_Unsigned32 avpValue (\<lambda>v. m\<lparr>cer_AuthApplicationId := cer_AuthApplicationId m @ [v]\<rparr>) m
      else if avpCode = AVPCodeINBANDSECURITYID then
        with_Unsigned32 avpValue (\<lambda>v. m\<lparr>cer_InbandSecurityId := cer_InbandSecurityId m @ [v]\<rparr>) m
      else if avpCode = AVPCodeACCTAPPLICATIONID then
        with_Unsigned32 avpValue (\<lambda>v. m\<lparr>cer_AcctApplicationId := cer_AcctApplicationId m @ [v]\<rparr>) m
      else if avpCode = AVPCodeVENDORSPECIFICAPPLICATIONID then
        with_VSA avpValue (\<lambda>v. m\<lparr>cer_VendorSpecificApplicationId := cer_VendorSpecificApplicationId m @ [Some v]\<rparr>) m
      else if avpCode = AVPCodeFIRMWAREREVISION then
        with_Unsigned32 avpValue (\<lambda>v. m\<lparr>cer_FirmwareRevision := Some v\<rparr>) m
      else m)"

definition CER_Unmarshal :: "bytes \<Rightarrow> CapabilitiesExchangeRequest \<Rightarrow> (codec_error, CapabilitiesExchangeRequest) result" where
  "CER_Unmarshal = unmarshalMessage (\<lambda>h m. m\<lparr>cer_Header := h\<rparr>) CER_avp"

section \<open>\<^verbatim>\<open>CapabilitiesExchangeAnswer\<close>\<close>

record CapabilitiesExchangeAnswer =
  cea_Header :: DiameterHeader
  cea_ResultCode :: u32
  cea_OriginHost :: gostring
  cea_OriginRealm :: gostring
  cea_HostIpAddress :: "bytes list"
  cea_VendorId :: u32
  cea_ProductName :: gostring
  cea_OriginStateId :: "u32 option"
  cea_ErrorMessage :: "gostring option"
  cea_FailedAvp :: "FailedAVP option"
  cea_SupportedVendorId :: "u32 list"
  cea_AuthApplicationId :: "u32 list"
  cea_InbandSecurityId :: "u32 list"
  cea_AcctApplicationId :: "u32 list"
  cea_VendorSpecificApplicationId :: "VendorSpecificApplicationId option list"
  cea_FirmwareRevision :: "u32 option"
  cea_Avp :: "gostring list"

definition CEA_zero :: CapabilitiesExchangeAnswer where
  "CEA_zero =
     \<lparr>cea_Header = zero_header, cea_ResultCode = 0, cea_OriginHost = [],
      cea_OriginRealm = [], cea_HostIpAddress = [], cea_VendorId = 0,
      cea_ProductName = [], cea_OriginStateId = None, cea_ErrorMessage = None,
      cea_FailedAvp = None, cea_SupportedVendorId = [], cea_AuthApplicationId = [],
      cea_InbandSecurityId = [], cea_AcctApplicationId = [], cea_VendorSpecificApplicationId = [],
      cea_FirmwareRevision = None, cea_Avp = []\<rparr>"

definition NewCapabilitiesExchangeAnswer :: CapabilitiesExchangeAnswer where
  "NewCapabilitiesExchangeAnswer = CEA_zero\<lparr>cea_Header := new_header 257 False\<rparr>"

definition CEA_Validate :: "CapabilitiesExchangeAnswer \<Rightarrow> codec_error option" where
  "CEA_Validate m =
     (if cea_OriginHost m = [] then Some (RequiredFieldEmpty ''Origin-Host'')
      else if cea_OriginRealm m = [] then Some (RequiredFieldEmpty ''Origin-Realm'')
      else if cea_HostIpAddress m = [] then Some (RequiredFieldEmpty ''Host-IP-Address'')
      else if cea_ProductName m = [] then Some (RequiredFieldEmpty ''Product-Name'')
      else None)"

definition CEA_writes :: "CapabilitiesExchangeAnswer \<Rightarrow> avp_write list" where
  "CEA_writes m =
     [(AVPCodeRESULTCODE, Unsigned32 (cea_ResultCode m), True)] @
     [(AVPCodeORIGINHOST, DiameterIdentity (cea_OriginHost m), True)] @
     [(AVPCodeORIGINREALM, DiameterIdentity (cea_OriginRealm m), True)] @
     repeated AVPCodeHOSTIPADDRESS Address True (cea_HostIpAddress m) @
     [(AVPCodeVENDORID, Unsigned32 (cea_VendorId m), True)] @
     [(AVPCodePRODUCTNAME, UTF8String (cea_ProductName m), False)] @
     optional AVPCodeORIGINSTATEID Unsigned32 False (cea_OriginStateId m) @
     optional AVPCodeERRORMESSAGE UTF8String False (cea_ErrorMessage m) @
     FailedAVP_writes (cea_FailedAvp m) @
     repeated AVPCodeSUPPORTEDVENDORID Unsigned32 True (cea_SupportedVendorId m) @
     repeated AVPCodeAUTHAPPLICATIONID Unsigned32 True (cea_AuthApplicationId m) @
     repeated AVPCodeINBANDSECURITYID Unsigned32 True (cea_InbandSecurityId m) @
     repeated AVPCodeACCTAPPLICATIONID Unsigned32 True (cea_AcctApplicationId m) @
     concat (map VSA_writes (cea_VendorSpecificApplicationId m)) @
     optional AVPCodeFIRMWAREREVISION Unsigned32 False (cea_FirmwareRevision m)"

definition CEA_Marshal :: "CapabilitiesExchangeAnswer \<Rightarrow> (codec_error, CapabilitiesExchangeAnswer \<times> bytes) result" where
  "CEA_Marshal m =
     (case CEA_Validate m of
        Some err \<Rightarrow> Inl (ValidationFailed err)
      | None \<Rightarrow>
          let (header, result) = sealMessage (cea_Header m) (writeAVPs (CEA_writes m))
          in Inr (m\<lparr>cea_Header := header\<rparr>, result))"

definition CEA_avp :: "u32 \<Rightarrow> u32 \<Rightarrow> bytes \<Rightarrow> CapabilitiesExchangeAnswer \<Rightarrow> CapabilitiesExchangeAnswer" where
  "CEA_avp avpCode vendorID avpValue m =
     (if avpCode = AVPCodeRESULTCODE then
        with_Unsigned32 avpValue (\<lambda>v. m\<lparr>cea_ResultCode := v\<rparr>) m
      else if avpCode = AVPCodeORIGINHOST then
        with_DiameterIdentity avpValue (\<lambda>v. m\<lparr>cea_OriginHost := v\<rparr>) m
      else if avpCode = AVPCodeORIGINREALM then
        with_DiameterIdentity avpValue (\<lambda>v. m\<lparr>cea_OriginRealm := v\<rparr>) m
      else if avpCode = AVPCodeHOSTIPADDRESS then
        with_Address avpValue (\<lambda>v. m\<lparr>cea_HostIpAddress := cea_HostIpAddress m @ [v]\<rparr>) m
      else if avpCode = AVPCodeVENDORID then
        with_Unsigned32 avpValue (\<lambda>v. m\<lparr>cea_VendorId := v\<rparr>) m
      else if avpCode = AVPCodePRODUCTNAME then
        with_UTF8String avpValue (\<lambda>v. m\<lparr>cea_ProductName := v\<rparr>) m
      else if avpCode = AVPCodeORIGINSTATEID then
        with_Unsigned32 avpValue (\<lambda>v. m\<lparr>cea_OriginStateId := Some v\<rparr>) m
      else if avpCode = AVPCodeERRORMESSAGE then
        with_UTF8String avpValue (\<lambda>v. m\<lparr>cea_ErrorMessage := Some v\<rparr>) m
      else if avpCode = AVPCodeFAILEDAVP then
        with_FailedAVP avpValue (\<lambda>v. m\<lparr>cea_FailedAvp := Some v\<rparr>) m
      else if avpCode = AVPCodeSUPPORTEDVENDORID then
        with_Unsigned32 avpValue (\<lambda>v. m\<lparr>cea_SupportedVendorId := cea_SupportedVendorId m @ [v]\<rparr>) m
      else if avpCode = AVPCodeAUTHAPPLICATIONID then
        with_Unsigned32 avpValue (\<lambda>v. m\<lparr>cea_AuthApplicationId := cea_AuthApplicationId m @ [v]\<rparr>) m
      else if avpCode = AVPCodeINBANDSECURITYID then
        with_Unsigned32 avpValue (\<lambda>v. m\<lparr>cea_InbandSecurityId := cea_InbandSecurityId m @ [v]\<rparr>) m
      else if avpCode = AVPCodeACCTAPPLICATIONID then
        with_Unsigned32 avpValue (\<lambda>v. m\<lparr>cea_AcctApplicationId := cea_AcctApplicationId m @ [v]\<rparr>) m
      else if avpCode = AVPCodeVENDORSPECIFICAPPLICATIONID then
        with_VSA avpValue (\<lambda>v. m\<lparr>cea_VendorSpecificApplicationId := cea_VendorSpecificApplicationId m @ [Some v]\<rparr>) m
      else if avpCode = AVPCodeFIRMWAREREVISION then
        with_Unsigned32 avpValue (\<lambda>v. m\<lparr>cea_FirmwareRevision := Some v\<rparr>) m
      else m)"

definition CEA_Unmarshal :: "bytes \<Rightarrow> CapabilitiesExchangeAnswer \<Rightarrow> (codec_error, CapabilitiesExchangeAnswer) result" where
  "CEA_Unmarshal = unmarshalMessage (\<lambda>h m. m\<lparr>cea_Header := h\<rparr>) CEA_avp"

section \<open>\<^verbatim>\<open>DeviceWatchdogRequest\<close>\<close>

record DeviceWatchdogRequest =
  dwr_Header :: DiameterHeader
  dwr_OriginHost :: gostring
  dwr_OriginRealm :: gostring
  dwr_OriginStateId :: "u32 option"
  dwr_Avp :: "gostring list"

definition DWR_zero :: DeviceWatchdogRequest where
  "DWR_zero =
     \<lparr>dwr_Header = zero_header, dwr_OriginHost = [], dwr_OriginRealm = [],
      dwr_OriginStateId = None, dwr_Avp = []\<rparr>"

definition NewDeviceWatchdogRequest :: DeviceWatchdogRequest where
  "NewDeviceWatchdogRequest = DWR_zero\<lparr>dwr_Header := new_header 280 True\<rparr>"

definition DWR_Validate :: "DeviceWatchdogRequest \<Rightarrow> codec_error option" where
  "DWR_Validate m =
     (if dwr_OriginHost m = [] then Some (RequiredFieldEmpty ''Origin-Host'')
      else if dwr_OriginRealm m = [] then Some (RequiredFieldEmpty ''Origin-Realm'')
      else None)"

definition DWR_writes :: "DeviceWatchdogRequest \<Rightarrow> avp_write list" where
  "DWR_writes m =
     [(AVPCodeORIGINHOST, DiameterIdentity (dwr_OriginHost m), True)] @
     [(AVPCodeORIGINREALM, DiameterIdentity (dwr_OriginRealm m), True)] @
     optional AVPCodeORIGINSTATEID Unsigned32 False (dwr_OriginStateId m)"

definition DWR_Marshal :: "DeviceWatchdogRequest \<Rightarrow> (codec_error, DeviceWatchdogRequest \<times> bytes) result" where
  "DWR_Marshal m =
     (case DWR_Validate m of
        Some err \<Rightarrow> Inl (ValidationFailed err)
      | None \<Rightarrow>
          let (header, result) = sealMessage (dwr_Header m) (writeAVPs (DWR_writes m))
          in Inr (m\<lparr>dwr_Header := header\<rparr>, result))"

definition DWR_avp :: "u32 \<Rightarrow> u32 \<Rightarrow> bytes \<Rightarrow> DeviceWatchdogRequest \<Rightarrow> DeviceWatchdogRequest" where
  "DWR_avp avpCode vendorID avpValue m =
     (if avpCode = AVPCodeORIGINHOST then
        with_DiameterIdentity avpValue (\<lambda>v. m\<lparr>dwr_OriginHost := v\<rparr>) m
      else if avpCode = AVPCodeORIGINREALM then
        with_DiameterIdentity avpValue (\<lambda>v. m\<lparr>dwr_OriginRealm := v\<rparr>) m
      else if avpCode = AVPCodeORIGINSTATEID then
        with_Unsigned32 avpValue (\<lambda>v. m\<lparr>dwr_OriginStateId := Some v\<rparr>) m
      else m)"

definition DWR_Unmarshal :: "bytes \<Rightarrow> DeviceWatchdogRequest \<Rightarrow> (codec_error, DeviceWatchdogRequest) result" where
  "DWR_Unmarshal = unmarshalMessage (\<lambda>h m. m\<lparr>dwr_Header := h\<rparr>) DWR_avp"

section \<open>\<^verbatim>\<open>DeviceWatchdogAnswer\<close>\<close>

record DeviceWatchdogAnswer =
  dwa_Header :: DiameterHeader
  dwa_ResultCode :: u32
  dwa_OriginHost :: gostring
  dwa_OriginRealm :: gostring
  dwa_ErrorMessage :: "gostring option"
  dwa_FailedAvp :: "FailedAVP option"
  dwa_OriginStateId :: "u32 option"
  dwa_Avp :: "gostring list"

definition DWA_zero :: DeviceWatchdogAnswer where
  "DWA_zero =
     \<lparr>dwa_Header = zero_header, dwa_ResultCode = 0, dwa_OriginHost = [],
      dwa_OriginRealm = [], dwa_ErrorMessage = None, dwa_FailedAvp = None,
      dwa_OriginStateId = None, dwa_Avp = []\<rparr>"

definition NewDeviceWatchdogAnswer :: DeviceWatchdogAnswer where
  "NewDeviceWatchdogAnswer = DWA_zero\<lparr>dwa_Header := new_header 280 False\<rparr>"

definition DWA_Validate :: "DeviceWatchdogAnswer \<Rightarrow> codec_error option" where
  "DWA_Validate m =
     (if dwa_OriginHost m = [] then Some (RequiredFieldEmpty ''Origin-Host'')
      else if dwa_OriginRealm m = [] then Some (RequiredFieldEmpty ''Origin-Realm'')
      else None)"

definition DWA_writes :: "DeviceWatchdogAnswer \<Rightarrow> avp_write list" where
  "DWA_writes m =
     [(AVPCodeRESULTCODE, Unsigned32 (dwa_ResultCode m), True)] @
     [(AVPCodeORIGINHOST, DiameterIdentity (dwa_OriginHost m), True)] @
     [(AVPCodeORIGINREALM, DiameterIdentity (dwa_OriginRealm m), True)] @
     optional AVPCodeERRORMESSAGE UTF8String False (dwa_ErrorMessage m) @
     FailedAVP_writes (dwa_FailedAvp m) @
     optional AVPCodeORIGINSTATEID Unsigned32 False (dwa_OriginStateId m)"

definition DWA_Marshal :: "DeviceWatchdogAnswer \<Rightarrow> (codec_error, DeviceWatchdogAnswer \<times> bytes) result" where
  "DWA_Marshal m =
     (case DWA_Validate m of
        Some err \<Rightarrow> Inl (ValidationFailed err)
      | None \<Rightarrow>
          let (header, result) = sealMessage (dwa_Header m) (writeAVPs (DWA_writes m))
          in Inr (m\<lparr>dwa_Header := header\<rparr>, result))"

definition DWA_avp :: "u32 \<Rightarrow> u32 \<Rightarrow> bytes \<Rightarrow> DeviceWatchdogAnswer \<Rightarrow> DeviceWatchdogAnswer" where
  "DWA_avp avpCode vendorID avpValue m =
     (if avpCode = AVPCodeRESULTCODE then
        with_Unsigned32 avpValue (\<lambda>v. m\<lparr>dwa_ResultCode := v\<rparr>) m
      else if avpCode = AVPCodeORIGINHOST then
        with_DiameterIdentity avpValue (\<lambda>v. m\<lparr>dwa_OriginHost := v\<rparr>) m
      else if avpCode = AVPCodeORIGINREALM then
        with_DiameterIdentity avpValue (\<lambda>v. m\<lparr>dwa_OriginRealm := v\<rparr>) m
      else if avpCode = AVPCodeERRORMESSAGE then
        with_UTF8String avpValue (\<lambda>v. m\<lparr>dwa_ErrorMessage := Some v\<rparr>) m
      else if avpCode = AVPCodeFAILEDAVP then
        with_FailedAVP avpValue (\<lambda>v. m\<lparr>dwa_FailedAvp := Some v\<rparr>) m
      else if avpCode = AVPCodeORIGINSTATEID then
        with_Unsigned32 avpValue (\<lambda>v. m\<lparr>dwa_OriginStateId := Some v\<rparr>) m
      else m)"

definition DWA_Unmarshal :: "bytes \<Rightarrow> DeviceWatchdogAnswer \<Rightarrow> (codec_error, DeviceWatchdogAnswer) result" where
  "DWA_Unmarshal = unmarshalMessage (\<lambda>h m. m\<lparr>dwa_Header := h\<rparr>) DWA_avp"

section \<open>\<^verbatim>\<open>DisconnectPeerRequest\<close>\<close>

record DisconnectPeerRequest =
  dpr_Header :: DiameterHeader
  dpr_OriginHost :: gostring
  dpr_OriginRealm :: gostring
  dpr_DisconnectCause :: u32
  dpr_Avp :: "gostring list"

definition DPR_zero :: DisconnectPeerRequest where
  "DPR_zero =
     \<lparr>dpr_Header = zero_header, dpr_OriginHost = [], dpr_OriginRealm = [],
      dpr_DisconnectCause = 0, dpr_Avp = []\<rparr>"

definition NewDisconnectPeerRequest :: DisconnectPeerRequest where
  "NewDisconnectPeerRequest = DPR_zero\<lparr>dpr_Header := new_header 282 True\<rparr>"

definition DPR_Validate :: "DisconnectPeerRequest \<Rightarrow> codec_error option" where
  "DPR_Validate m =
     (if dpr_OriginHost m = [] then Some (RequiredFieldEmpty ''Origin-Host'')
      else if dpr_OriginRealm m = [] then Some (RequiredFieldEmpty ''Origin-Realm'')
      else None)"

definition DPR_writes :: "DisconnectPeerRequest \<Rightarrow> avp_write list" where
  "DPR_writes m =
     [(AVPCodeORIGINHOST, DiameterIdentity (dpr_OriginHost m), True)] @
     [(AVPCodeORIGINREALM, DiameterIdentity (dpr_OriginRealm m), True)] @
     [(AVPCodeDISCONNECTCAUSE, Enumerated (dpr_DisconnectCause m), True)]"

definition DPR_Marshal :: "DisconnectPeerRequest \<Rightarrow> (codec_error, DisconnectPeerRequest \<times> bytes) result" where
  "DPR_Marshal m =
     (case DPR_Validate m of
        Some err \<Rightarrow> Inl (ValidationFailed err)
      | None \<Rightarrow>
          let (header, result) = sealMessage (dpr_Header m) (writeAVPs (DPR_writes m))
          in Inr (m\<lparr>dpr_Header := header\<rparr>, result))"

definition DPR_avp :: "u32 \<Rightarrow> u32 \<Rightarrow> bytes \<Rightarrow> DisconnectPeerRequest \<Rightarrow> DisconnectPeerRequest" where
  "DPR_avp avpCode vendorID avpValue m =
     (if avpCode = AVPCodeORIGINHOST then
        with_DiameterIdentity avpValue (\<lambda>v. m\<lparr>dpr_OriginHost := v\<rparr>) m
      else if avpCode = AVPCodeORIGINREALM then
        with_DiameterIdentity avpValue (\<lambda>v. m\<lparr>dpr_OriginRealm := v\<rparr>) m
      else if avpCode = AVPCodeDISCONNECTCAUSE then
        with_Enumerated avpValue (\<lambda>v. m\<lparr>dpr_DisconnectCause := v\<rparr>) m
      else m)"

definition DPR_Unmarshal :: "bytes \<Rightarrow> DisconnectPeerRequest \<Rightarrow> (codec_error, DisconnectPeerRequest) result" where
  "DPR_Unmarshal = unmarshalMessage (\<lambda>h m. m\<lparr>dpr_Header := h\<rparr>) DPR_avp"

section \<open>\<^verbatim>\<open>DisconnectPeerAnswer\<close>\<close>

record DisconnectPeerAnswer =
  dpa_Header :: DiameterHeader
  dpa_ResultCode :: u32
  dpa_OriginHost :: gostring
  dpa_OriginRealm :: gostring
  dpa_ErrorMessage :: "gostring option"
  dpa_FailedAvp :: "FailedAVP option"
  dpa_Avp :: "gostring list"

definition DPA_zero :: DisconnectPeerAnswer where
  "DPA_zero =
     \<lparr>dpa_Header = zero_header, dpa_ResultCode = 0, dpa_OriginHost = [],
      dpa_OriginRealm = [], dpa_ErrorMessage = None, dpa_FailedAvp = None,
      dpa_Avp = []\<rparr>"

definition NewDisconnectPeerAnswer :: DisconnectPeerAnswer where
  "NewDisconnectPeerAnswer = DPA_zero\<lparr>dpa_Header := new_header 282 False\<rparr>"

definition DPA_Validate :: "DisconnectPeerAnswer \<Rightarrow> codec_error option" where
  "DPA_Validate m =
     (if dpa_OriginHost m = [] then Some (RequiredFieldEmpty ''Origin-Host'')
      else if dpa_OriginRealm m = [] then Some (RequiredFieldEmpty ''Origin-Realm'')
      else None)"

definition DPA_writes :: "DisconnectPeerAnswer \<Rightarrow> avp_write list" where
  "DPA_writes m =
     [(AVPCodeRESULTCODE, Unsigned32 (dpa_ResultCode m), True)] @
     [(AVPCodeORIGINHOST, DiameterIdentity (dpa_OriginHost m), True)] @
     [(AVPCodeORIGINREALM, DiameterIdentity (dpa_OriginRealm m), True)] @
     optional AVPCodeERRORMESSAGE UTF8String False (dpa_ErrorMessage m) @
     FailedAVP_writes (dpa_FailedAvp m)"

definition DPA_Marshal :: "DisconnectPeerAnswer \<Rightarrow> (codec_error, DisconnectPeerAnswer \<times> bytes) result" where
  "DPA_Marshal m =
     (case DPA_Validate m of
        Some err \<Rightarrow> Inl (ValidationFailed err)
      | None \<Rightarrow>
          let (header, result) = sealMessage (dpa_Header m) (writeAVPs (DPA_writes m))
          in Inr (m\<lparr>dpa_Header := header\<rparr>, result))"

definition DPA_avp :: "u32 \<Rightarrow> u32 \<Rightarrow> bytes \<Rightarrow> DisconnectPeerAnswer \<Rightarrow> DisconnectPeerAnswer" where
  "DPA_avp avpCode vendorID avpValue m =
     (if avpCode = AVPCodeRESULTCODE then
        with_Unsigned32 avpValue (\<lambda>v. m\<lparr>dpa_ResultCode := v\<rparr>) m
      else if avpCode = AVPCodeORIGINHOST then
        with_DiameterIdentity avpValue (\<lambda>v. m\<lparr>dpa_OriginHost := v\<rparr>) m
      else if avpCode = AVPCodeORIGINREALM then
        with_DiameterIdentity avpValue (\<lambda>v. m\<lparr>dpa_OriginRealm := v\<rparr>) m
      else if avpCode = AVPCodeERRORMESSAGE then
        with_UTF8String avpValue (\<lambda>v. m\<lparr>dpa_ErrorMessage := Some v\<rparr>) m
      else if avpCode = AVPCodeFAILEDAVP then
        with_FailedAVP avpValue (\<lambda>v. m\<lparr>dpa_FailedAvp := Some v\<rparr>) m
      else m)"

definition DPA_Unmarshal :: "bytes \<Rightarrow> DisconnectPeerAnswer \<Rightarrow> (codec_error, DisconnectPeerAnswer) result" where
  "DPA_Unmarshal = unmarshalMessage (\<lambda>h m. m\<lparr>dpa_Header := h\<rparr>) DPA_avp"

section \<open>The contract of a generated message\<close>

lemma decoders_own_type:
  "\<exists>v. DecodeDiameterIdentity b = Inr (DiameterIdentity v)"
  "\<exists>v. DecodeUTF8String b = Inr (UTF8String v)"
  "\<exists>v. DecodeUnsigned32 b = Inr (Unsigned32 v)"
  "\<exists>v. DecodeEnumerated b = Inr (Enumerated v)"
  "(\<exists>v. DecodeAddress b = Inr (Address v)) \<or> (\<exists>e. DecodeAddress b = Inl e)"
  by (auto simp: DecodeAddress_def)

text \<open>The effect of the \<^verbatim>\<open>switch\<close> on the AVP that a write produces.\<close>

definition readback ::
  "(u32 \<Rightarrow> u32 \<Rightarrow> bytes \<Rightarrow> 'm \<Rightarrow> 'm) \<Rightarrow> avp_write \<Rightarrow> 'm \<Rightarrow> 'm" where
  "readback step w m = (case w of (code, v, _) \<Rightarrow> step code 0 (Serialize (iface v)) m)"

lemma length_marshalAVP:
  "length (marshalAVP code v mandatory protected) =
     padded_length (8 + length (Serialize (iface v)))"
  by (simp add: marshalAVP_def Let_def flip: avp_padding_padded)

lemma writeAVPs_append [simp]: "writeAVPs (ws @ vs) = writeAVPs ws @ writeAVPs vs"
  by (induction ws) auto

lemma length_writeAVPs_dvd [simp]: "4 dvd length (writeAVPs ws)"
proof (induction ws)
  case (Cons w ws)
  obtain c v m where w: "w = (c, v, m)" by (cases w)
  have "4 dvd padded_length (8 + length (Serialize (iface v)))"
    by (simp add: dvd_eq_mod_eq_0)
  then show ?case
    using Cons by (simp add: w length_marshalAVP)
qed simp

lemma walkAVPs_writeAVPs:
  "length (writeAVPs ws) < 2 ^ 24 \<Longrightarrow>
   walkAVPs step (writeAVPs ws @ rest) m = walkAVPs step rest (fold (readback step) ws m)"
proof (induction ws arbitrary: m)
  case (Cons w ws)
  obtain c v mn where w: "w = (c, v, mn)" by (cases w)
  have "8 + length (Serialize (iface v)) < 2 ^ 24"
    using Cons.prems padded_length_ge [of "8 + length (Serialize (iface v))"]
    by (simp add: w length_marshalAVP)
  then show ?case
    using Cons by (simp add: w walkAVPs_marshalAVP readback_def)
qed simp

locale generated_message =
  fixes header :: "'m \<Rightarrow> DiameterHeader"
    and set_header :: "DiameterHeader \<Rightarrow> 'm \<Rightarrow> 'm"
    and Validate :: "'m \<Rightarrow> codec_error option"
    and writes :: "'m \<Rightarrow> avp_write list"
    and avp :: "u32 \<Rightarrow> u32 \<Rightarrow> bytes \<Rightarrow> 'm \<Rightarrow> 'm"
    and zero :: 'm
    and faithful :: "'m \<Rightarrow> bool"
    and Marshal :: "'m \<Rightarrow> (codec_error, 'm \<times> bytes) result"
    and Unmarshal :: "bytes \<Rightarrow> 'm \<Rightarrow> (codec_error, 'm) result"
  assumes header_set: "header (set_header h m) = h"
    and Marshal_shape: "Marshal m =
      (case Validate m of
         Some err \<Rightarrow> Inl (ValidationFailed err)
       | None \<Rightarrow>
           let (h, result) = sealMessage (header m) (writeAVPs (writes m))
           in Inr (set_header h m, result))"
    and Unmarshal_shape: "Unmarshal = unmarshalMessage set_header avp"
    and rebuild: "faithful m \<Longrightarrow> fold (readback avp) (writes m) (set_header h zero) = set_header h m"
begin

lemma Marshal_cases:
  assumes "Marshal m = Inr (m', bs)"
  shows "Validate m = None"
    and "m' = set_header ((header m)\<lparr>hdr_Length := word_of_nat (length bs)\<rparr>) m"
    and "bs = marshalHeader (header m') @ writeAVPs (writes m)"
  using assms by (auto simp: Marshal_shape sealMessage_def Let_def header_set split: option.splits)

lemma Marshal_defined: "(\<exists>r. Marshal m = Inr r) \<longleftrightarrow> Validate m = None"
  by (auto simp: Marshal_shape sealMessage_def Let_def split: option.splits)

lemma Marshal_total:
  assumes "Validate m = None"
  obtains h bs where "Marshal m = Inr (set_header h m, bs)"
    and "length bs = 20 + length (writeAVPs (writes m))"
  using assms by (auto simp: Marshal_shape sealMessage_def Let_def)

lemma Marshal_length:
  assumes "Marshal m = Inr (m', bs)"
  shows "hdr_Length (header m') = word_of_nat (length bs) \<and> 20 \<le> length bs \<and> 4 dvd length bs"
proof -
  note c = Marshal_cases [OF assms]
  have "4 dvd 20 + length (writeAVPs (writes m))"
    by (rule dvd_add) simp_all
  moreover have "length bs = 20 + length (writeAVPs (writes m))"
    by (subst c(3)) simp
  ultimately show ?thesis
    by (simp add: c(2) header_set)
qed

text \<open>What \<^verbatim>\<open>Unmarshal\<close> makes of a marshalled message, whether or not the wire can carry it.\<close>

lemma Unmarshal_fold:
  assumes m: "Marshal m = Inr (m', bs)"
    and len: "length bs < 2 ^ 24" and code: "unat (hdr_CommandCode (header m)) < 2 ^ 24"
  shows "Unmarshal bs zero = Inr (fold (readback avp) (writes m) (set_header (header m') zero))"
proof -
  note c = Marshal_cases [OF m]
  have h: "header m' = (header m)\<lparr>hdr_Length := word_of_nat (length bs)\<rparr>"
    using c(2) by (simp add: header_set)
  have "take_bit 24 (hdr_Length (header m')) = hdr_Length (header m')"
    "take_bit 24 (hdr_CommandCode (header m')) = hdr_CommandCode (header m')"
    using len code by (simp_all add: h take_bit_24_less unsigned_of_nat take_bit_nat_eq_self)
  then have hdr: "unmarshalHeader (marshalHeader (header m')) = Inr (header m')"
    using unmarshalHeader_append [of "header m'" "[]"] by simp
  have "length (writeAVPs (writes m)) < 2 ^ 24"
    using len by (subst (asm) c(3)) simp
  then have "walkAVPs avp (writeAVPs (writes m)) (set_header (header m') zero) =
      Inr (fold (readback avp) (writes m) (set_header (header m') zero))"
    using walkAVPs_writeAVPs [of "writes m" avp "[]"] by simp
  then show ?thesis
    by (subst c(3)) (simp add: Unmarshal_shape unmarshalMessage_def hdr)
qed

lemma Unmarshal_Marshal:
  assumes m: "Marshal m = Inr (m', bs)" and f: "faithful m"
    and len: "length bs < 2 ^ 24" and code: "unat (hdr_CommandCode (header m)) < 2 ^ 24"
  shows "Unmarshal bs zero = Inr m'"
  using Unmarshal_fold [OF m len code] rebuild [OF f, of "header m'"] Marshal_cases(2) [OF m]
  by (simp add: header_set)

lemma Unmarshal_short: "length bs < 20 \<Longrightarrow> Unmarshal bs m = Inl DataTooShort"
  by (simp add: Unmarshal_shape unmarshalMessage_def)

end

section \<open>The grouped AVPs survive the wire\<close>

lemma with_decoded [simp]:
  "with_DiameterIdentity s f m = f s" "with_UTF8String s f m = f s"
  "with_Unsigned32 (PutUint32 n) g m = g n" "with_Enumerated (PutUint32 n) g m = g n"
  "canonical_address a \<Longrightarrow> with_Address (Address_Serialize a) h m = h a"
  by (simp_all add: with_DiameterIdentity_def with_UTF8String_def with_Unsigned32_def
      with_Enumerated_def with_Address_def DecodeAddress_Serialize)

lemma VSA_avp_codes [simp]:
  "VSA_avp AVPCodeVENDORID w (PutUint32 n) g = g\<lparr>vsa_VendorId := Some n\<rparr>"
  "VSA_avp AVPCodeAUTHAPPLICATIONID w (PutUint32 n) g = g\<lparr>vsa_AuthApplicationId := Some n\<rparr>"
  "VSA_avp AVPCodeACCTAPPLICATIONID w (PutUint32 n) g = g\<lparr>vsa_AcctApplicationId := Some n\<rparr>"
  by (simp_all add: VSA_avp_def)

lemma VSA_roundtrip:
  "\<exists>bs. VSA_Marshal g = Inr bs \<and> VSA_Unmarshal bs VSA_zero = Inr g"
proof -
  define ws where "ws = optional AVPCodeVENDORID Unsigned32 True (vsa_VendorId g) @
     optional AVPCodeAUTHAPPLICATIONID Unsigned32 True (vsa_AuthApplicationId g) @
     optional AVPCodeACCTAPPLICATIONID Unsigned32 True (vsa_AcctApplicationId g)"
  have "length (writeAVPs ws) < 2 ^ 24"
    by (simp add: ws_def optional_def length_marshalAVP padded_length_def split: option.split)
  then have "walkAVPs VSA_avp (writeAVPs ws) VSA_zero = Inr (fold (readback VSA_avp) ws VSA_zero)"
    using walkAVPs_writeAVPs [of ws VSA_avp "[]"] by simp
  also have "fold (readback VSA_avp) ws VSA_zero = g"
    by (cases g) (simp add: ws_def optional_def readback_def VSA_zero_def split: option.split)
  finally show ?thesis
    by (simp add: VSA_Marshal_def VSA_Unmarshal_def ws_def)
qed

lemma VSA_writes_Some: "\<exists>bs. VSA_writes (Some g) =
    [(AVPCodeVENDORSPECIFICAPPLICATIONID, Grouped bs, True)] \<and>
  (\<forall>f m. with_VSA bs f m = f g)"
  using VSA_roundtrip [of g] by (auto simp: VSA_writes_def with_VSA_def)

lemma with_FailedAVP_Nil [simp]: "with_FailedAVP [] f m = f \<lparr>fa_Avp = []\<rparr>"
  by (simp add: with_FailedAVP_def FailedAVP_Unmarshal_def)

section \<open>Rebuilding a message from its writes\<close>

lemma fold_repeated:
  assumes "\<And>v m. v \<in> set vs \<Longrightarrow> readback step (code, con v, mandatory) m = upd (\<lambda>xs. xs @ [v]) m"
    and "\<And>f g m. upd f (upd g m) = upd (\<lambda>xs. f (g xs)) m" and "\<And>m. upd (\<lambda>xs. xs) m = m"
  shows "fold (readback step) (repeated code con mandatory vs) m = upd (\<lambda>xs. xs @ vs) m"
  using assms(1)
  by (induction vs arbitrary: m) (simp_all add: repeated_def assms(2,3))

lemma fold_optional:
  "fold (readback step) (optional code con mandatory v) m =
     (case v of None \<Rightarrow> m | Some x \<Rightarrow> readback step (code, con x, mandatory) m)"
  by (cases v) (simp_all add: optional_def)

lemma fold_VSA:
  assumes "None \<notin> set vs"
    and "\<And>b m. readback step (AVPCodeVENDORSPECIFICAPPLICATIONID, Grouped b, True) m =
      with_VSA b (\<lambda>v. upd (\<lambda>xs. xs @ [Some v]) m) m"
    and "\<And>f g m. upd f (upd g m) = upd (\<lambda>xs. f (g xs)) m" and "\<And>m. upd (\<lambda>xs. xs) m = m"
  shows "fold (readback step) (concat (map VSA_writes vs)) m = upd (\<lambda>xs. xs @ vs) m"
  using assms(1)
proof (induction vs arbitrary: m)
  case (Cons v vs)
  then obtain g where v: "v = Some g"
    by (cases v) auto
  obtain bs where "VSA_writes (Some g) = [(AVPCodeVENDORSPECIFICAPPLICATIONID, Grouped bs, True)]"
    and "\<forall>f m. with_VSA bs f m = (f g :: 'a)"
    using VSA_writes_Some by blast
  then show ?case
    using Cons by (simp add: v assms(2,3))
qed (simp add: assms(4))

definition faithful_FailedAVP :: "FailedAVP option \<Rightarrow> bool" where
  "faithful_FailedAVP v = (case v of None \<Rightarrow> True | Some g \<Rightarrow> fa_Avp g = [])"

lemma fold_FailedAVP:
  assumes "faithful_FailedAVP v"
    and "\<And>b m. readback step (AVPCodeFAILEDAVP, Grouped b, True) m =
      with_FailedAVP b (\<lambda>g. upd (Some g) m) m"
  shows "fold (readback step) (FailedAVP_writes v) m = (case v of None \<Rightarrow> m | Some g \<Rightarrow> upd (Some g) m)"
proof (cases v)
  case (Some g)
  then have "g = \<lparr>fa_Avp = []\<rparr>"
    using assms(1) by (cases g) (simp add: faithful_FailedAVP_def)
  then show ?thesis
    using Some assms(2) by (simp add: FailedAVP_writes_def FailedAVP_Marshal_def)
qed (simp add: FailedAVP_writes_def)

text \<open>
  The messages the wire can carry: addresses in canonical form, no nil pointer in a slice, and
  nothing in the fields whose AVP code the dictionary does not define.
\<close>

definition CER_faithful :: "CapabilitiesExchangeRequest \<Rightarrow> bool" where
  "CER_faithful m \<longleftrightarrow>
     list_all canonical_address (cer_HostIpAddress m) \<and>
     None \<notin> set (cer_VendorSpecificApplicationId m) \<and> cer_Avp m = []"

definition CEA_faithful :: "CapabilitiesExchangeAnswer \<Rightarrow> bool" where
  "CEA_faithful m \<longleftrightarrow>
     list_all canonical_address (cea_HostIpAddress m) \<and>
     None \<notin> set (cea_VendorSpecificApplicationId m) \<and>
     faithful_FailedAVP (cea_FailedAvp m) \<and> cea_Avp m = []"

definition DWR_faithful :: "DeviceWatchdogRequest \<Rightarrow> bool" where
  "DWR_faithful m \<longleftrightarrow> dwr_Avp m = []"

definition DWA_faithful :: "DeviceWatchdogAnswer \<Rightarrow> bool" where
  "DWA_faithful m \<longleftrightarrow> faithful_FailedAVP (dwa_FailedAvp m) \<and> dwa_Avp m = []"

definition DPR_faithful :: "DisconnectPeerRequest \<Rightarrow> bool" where
  "DPR_faithful m \<longleftrightarrow> dpr_Avp m = []"

definition DPA_faithful :: "DisconnectPeerAnswer \<Rightarrow> bool" where
  "DPA_faithful m \<longleftrightarrow> faithful_FailedAVP (dpa_FailedAvp m) \<and> dpa_Avp m = []"

lemma CER_fold_repeated:
  "fold (readback CER_avp) (repeated AVPCodeSUPPORTEDVENDORID Unsigned32 True vs) m =
     cer_SupportedVendorId_update (\<lambda>xs. xs @ vs) m"
  "fold (readback CER_avp) (repeated AVPCodeAUTHAPPLICATIONID Unsigned32 True vs) m =
     cer_AuthApplicationId_update (\<lambda>xs. xs @ vs) m"
  "fold (readback CER_avp) (repeated AVPCodeINBANDSECURITYID Unsigned32 True vs) m =
     cer_InbandSecurityId_update (\<lambda>xs. xs @ vs) m"
  "fold (readback CER_avp) (repeated AVPCodeACCTAPPLICATIONID Unsigned32 True vs) m =
     cer_AcctApplicationId_update (\<lambda>xs. xs @ vs) m"
  by (rule fold_repeated; simp add: readback_def CER_avp_def)+

lemma CER_fold_HostIpAddress:
  "list_all canonical_address as \<Longrightarrow>
   fold (readback CER_avp) (repeated AVPCodeHOSTIPADDRESS Address True as) m =
     cer_HostIpAddress_update (\<lambda>xs. xs @ as) m"
  by (rule fold_repeated)
    (auto simp: readback_def CER_avp_def Address_methods_def list_all_iff)

lemma CER_fold_VSA:
  "None \<notin> set vs \<Longrightarrow> fold (readback CER_avp) (concat (map VSA_writes vs)) m =
     cer_VendorSpecificApplicationId_update (\<lambda>xs. xs @ vs) m"
  by (rule fold_VSA) (simp_all add: readback_def CER_avp_def with_VSA_def split: sum.split)

lemma CEA_fold_repeated:
  "fold (readback CEA_avp) (repeated AVPCodeSUPPORTEDVENDORID Unsigned32 True vs) m =
     cea_SupportedVendorId_update (\<lambda>xs. xs @ vs) m"
  "fold (readback CEA_avp) (repeated AVPCodeAUTHAPPLICATIONID Unsigned32 True vs) m =
     cea_AuthApplicationId_update (\<lambda>xs. xs @ vs) m"
  "fold (readback CEA_avp) (repeated AVPCodeINBANDSECURITYID Unsigned32 True vs) m =
     cea_InbandSecurityId_update (\<lambda>xs. xs @ vs) m"
  "fold (readback CEA_avp) (repeated AVPCodeACCTAPPLICATIONID Unsigned32 True vs) m =
     cea_AcctApplicationId_update (\<lambda>xs. xs @ vs) m"
  by (rule fold_repeated; simp add: readback_def CEA_avp_def)+

lemma CEA_fold_HostIpAddress:
  "list_all canonical_address as \<Longrightarrow>
   fold (readback CEA_avp) (repeated AVPCodeHOSTIPADDRESS Address True as) m =
     cea_HostIpAddress_update (\<lambda>xs. xs @ as) m"
  by (rule fold_repeated)
    (auto simp: readback_def CEA_avp_def Address_methods_def list_all_iff)

lemma CEA_fold_VSA:
  "None \<notin> set vs \<Longrightarrow> fold (readback CEA_avp) (concat (map VSA_writes vs)) m =
     cea_VendorSpecificApplicationId_update (\<lambda>xs. xs @ vs) m"
  by (rule fold_VSA) (simp_all add: readback_def CEA_avp_def with_VSA_def split: sum.split)

lemma CEA_fold_FailedAVP:
  "faithful_FailedAVP v \<Longrightarrow> fold (readback CEA_avp) (FailedAVP_writes v) m =
     (case v of None \<Rightarrow> m | Some g \<Rightarrow> m\<lparr>cea_FailedAvp := Some g\<rparr>)"
  by (rule fold_FailedAVP) (simp_all add: readback_def CEA_avp_def)

lemma DWA_fold_FailedAVP:
  "faithful_FailedAVP v \<Longrightarrow> fold (readback DWA_avp) (FailedAVP_writes v) m =
     (case v of None \<Rightarrow> m | Some g \<Rightarrow> m\<lparr>dwa_FailedAvp := Some g\<rparr>)"
  by (rule fold_FailedAVP) (simp_all add: readback_def DWA_avp_def)

lemma DPA_fold_FailedAVP:
  "faithful_FailedAVP v \<Longrightarrow> fold (readback DPA_avp) (FailedAVP_writes v) m =
     (case v of None \<Rightarrow> m | Some g \<Rightarrow> m\<lparr>dpa_FailedAvp := Some g\<rparr>)"
  by (rule fold_FailedAVP) (simp_all add: readback_def DPA_avp_def)

section \<open>The contract holds for the six messages\<close>

lemma CER_rebuild:
  "CER_faithful m \<Longrightarrow>
   fold (readback CER_avp) (CER_writes m) (CER_zero\<lparr>cer_Header := h\<rparr>) = m\<lparr>cer_Header := h\<rparr>"
  by (cases m)
    (simp add: CER_faithful_def CER_writes_def CER_zero_def fold_optional CER_fold_repeated CER_fold_HostIpAddress CER_fold_VSA,
     simp add: readback_def CER_avp_def Let_def split: option.split)

interpretation cer: generated_message cer_Header "\<lambda>h m. m\<lparr>cer_Header := h\<rparr>"
  CER_Validate CER_writes CER_avp CER_zero CER_faithful CER_Marshal CER_Unmarshal
  by unfold_locales (simp_all add: CER_Marshal_def CER_Unmarshal_def CER_rebuild)

lemma CEA_rebuild:
  "CEA_faithful m \<Longrightarrow>
   fold (readback CEA_avp) (CEA_writes m) (CEA_zero\<lparr>cea_Header := h\<rparr>) = m\<lparr>cea_Header := h\<rparr>"
  by (cases m)
    (simp add: CEA_faithful_def CEA_writes_def CEA_zero_def fold_optional CEA_fold_repeated CEA_fold_HostIpAddress CEA_fold_VSA CEA_fold_FailedAVP,
     simp add: readback_def CEA_avp_def Let_def split: option.split)

interpretation cea: generated_message cea_Header "\<lambda>h m. m\<lparr>cea_Header := h\<rparr>"
  CEA_Validate CEA_writes CEA_avp CEA_zero CEA_faithful CEA_Marshal CEA_Unmarshal
  by unfold_locales (simp_all add: CEA_Marshal_def CEA_Unmarshal_def CEA_rebuild)

lemma DWR_rebuild:
  "DWR_faithful m \<Longrightarrow>
   fold (readback DWR_avp) (DWR_writes m) (DWR_zero\<lparr>dwr_Header := h\<rparr>) = m\<lparr>dwr_Header := h\<rparr>"
  by (cases m)
    (simp add: DWR_faithful_def DWR_writes_def DWR_zero_def fold_optional,
     simp add: readback_def DWR_avp_def Let_def split: option.split)

interpretation dwr: generated_message dwr_Header "\<lambda>h m. m\<lparr>dwr_Header := h\<rparr>"
  DWR_Validate DWR_writes DWR_avp DWR_zero DWR_faithful DWR_Marshal DWR_Unmarshal
  by unfold_locales (simp_all add: DWR_Marshal_def DWR_Unmarshal_def DWR_rebuild)

lemma DWA_rebuild:
  "DWA_faithful m \<Longrightarrow>
   fold (readback DWA_avp) (DWA_writes m) (DWA_zero\<lparr>dwa_Header := h\<rparr>) = m\<lparr>dwa_Header := h\<rparr>"
  by (cases m)
    (simp add: DWA_faithful_def DWA_writes_def DWA_zero_def fold_optional DWA_fold_FailedAVP,
     simp add: readback_def DWA_avp_def Let_def split: option.split)

interpretation dwa: generated_message dwa_Header "\<lambda>h m. m\<lparr>dwa_Header := h\<rparr>"
  DWA_Validate DWA_writes DWA_avp DWA_zero DWA_faithful DWA_Marshal DWA_Unmarshal
  by unfold_locales (simp_all add: DWA_Marshal_def DWA_Unmarshal_def DWA_rebuild)

lemma DPR_rebuild:
  "DPR_faithful m \<Longrightarrow>
   fold (readback DPR_avp) (DPR_writes m) (DPR_zero\<lparr>dpr_Header := h\<rparr>) = m\<lparr>dpr_Header := h\<rparr>"
  by (cases m)
    (simp add: DPR_faithful_def DPR_writes_def DPR_zero_def fold_optional,
     simp add: readback_def DPR_avp_def Let_def split: option.split)

interpretation dpr: generated_message dpr_Header "\<lambda>h m. m\<lparr>dpr_Header := h\<rparr>"
  DPR_Validate DPR_writes DPR_avp DPR_zero DPR_faithful DPR_Marshal DPR_Unmarshal
  by unfold_locales (simp_all add: DPR_Marshal_def DPR_Unmarshal_def DPR_rebuild)

lemma DPA_rebuild:
  "DPA_faithful m \<Longrightarrow>
   fold (readback DPA_avp) (DPA_writes m) (DPA_zero\<lparr>dpa_Header := h\<rparr>) = m\<lparr>dpa_Header := h\<rparr>"
  by (cases m)
    (simp add: DPA_faithful_def DPA_writes_def DPA_zero_def fold_optional DPA_fold_FailedAVP,
     simp add: readback_def DPA_avp_def Let_def split: option.split)

interpretation dpa: generated_message dpa_Header "\<lambda>h m. m\<lparr>dpa_Header := h\<rparr>"
  DPA_Validate DPA_writes DPA_avp DPA_zero DPA_faithful DPA_Marshal DPA_Unmarshal
  by unfold_locales (simp_all add: DPA_Marshal_def DPA_Unmarshal_def DPA_rebuild)

section \<open>Properties of the messages\<close>

lemma length_Address_Serialize_v4: "length a = 4 \<Longrightarrow> length (Address_Serialize a) = 6"
  by (simp add: Address_Serialize_def To4_def)

lemmas wire_length = length_marshalAVP padded_length_def optional_def repeated_def
  VSA_writes_def VSA_Marshal_def FailedAVP_writes_def FailedAVP_Marshal_def sealMessage_def Let_def

definition example_header :: DiameterHeader where
  "example_header = (new_header 257 True)\<lparr>hdr_HopByHopID := 7, hdr_EndToEndID := 9\<rparr>"

definition example_CER :: CapabilitiesExchangeRequest where
  "example_CER = NewCapabilitiesExchangeRequest\<lparr>cer_Header := example_header,
     cer_OriginHost := [103, 119], cer_OriginRealm := [114], cer_HostIpAddress := [[10, 0, 0, 1]],
     cer_VendorId := 10415, cer_ProductName := [71], cer_AuthApplicationId := [16777251],
     cer_VendorSpecificApplicationId := [Some (VSA_zero\<lparr>vsa_VendorId := Some 10415\<rparr>)]\<rparr>"

definition example_CEA :: CapabilitiesExchangeAnswer where
  "example_CEA = NewCapabilitiesExchangeAnswer\<lparr>cea_ResultCode := 2001,
     cea_OriginHost := [103, 119], cea_OriginRealm := [114], cea_HostIpAddress := [[10, 0, 0, 1]],
     cea_ProductName := [71], cea_ErrorMessage := Some [111, 107],
     cea_FailedAvp := Some \<lparr>fa_Avp = []\<rparr>\<rparr>"

lemmas example_defs = example_CER_def example_CEA_def example_header_def
  NewCapabilitiesExchangeRequest_def NewCapabilitiesExchangeAnswer_def new_header_def
  zero_header_def CER_zero_def CEA_zero_def

text \<open>
  C7. A CER that marshals, whose addresses are canonical and which uses no field without an AVP
  code, is rebuilt field by field by \<^verbatim>\<open>Unmarshal\<close> on an empty receiver, header included, provided
  the 24-bit length and command-code fields can hold its length and code.
\<close>

theorem CER_Unmarshal_Marshal:
  assumes "CER_Marshal m = Inr (m', bs)" and "CER_faithful m" and "length bs < 2 ^ 24"
    and "unat (hdr_CommandCode (cer_Header m)) < 2 ^ 24"
  shows "CER_Unmarshal bs CER_zero = Inr m'"
  using assms by (rule cer.Unmarshal_Marshal)

theorem CER_Unmarshal_Marshal_witness:
  "\<exists>m' bs. CER_Marshal example_CER = Inr (m', bs) \<and> CER_Unmarshal bs CER_zero = Inr m' \<and>
     length bs = 116"
proof -
  have v: "CER_Validate example_CER = None"
    by (simp add: CER_Validate_def example_defs)
  have w: "length (writeAVPs (CER_writes example_CER)) = 96"
    by (simp add: CER_writes_def example_defs wire_length Address_methods_def
        length_Address_Serialize_v4 VSA_zero_def)
  obtain h bs where m: "CER_Marshal example_CER = Inr (example_CER\<lparr>cer_Header := h\<rparr>, bs)"
    and l: "length bs = 20 + length (writeAVPs (CER_writes example_CER))"
    using cer.Marshal_total [OF v] by blast
  have "CER_faithful example_CER"
    by (simp add: CER_faithful_def example_defs canonical_address_def)
  then have "CER_Unmarshal bs CER_zero = Inr (example_CER\<lparr>cer_Header := h\<rparr>)"
    using l w by (intro CER_Unmarshal_Marshal [OF m]) (simp_all add: example_defs)
  then show ?thesis
    using m l w by simp
qed

text \<open>
  The same for the CEA, with its Result-Code, Error-Message and Failed-AVP.
\<close>

theorem CEA_Unmarshal_Marshal:
  assumes "CEA_Marshal m = Inr (m', bs)" and "CEA_faithful m" and "length bs < 2 ^ 24"
    and "unat (hdr_CommandCode (cea_Header m)) < 2 ^ 24"
  shows "CEA_Unmarshal bs CEA_zero = Inr m'"
  using assms by (rule cea.Unmarshal_Marshal)

theorem CEA_Unmarshal_Marshal_witness:
  "\<exists>m' bs. CEA_Marshal example_CEA = Inr (m', bs) \<and> CEA_Unmarshal bs CEA_zero = Inr m'"
proof -
  have v: "CEA_Validate example_CEA = None"
    by (simp add: CEA_Validate_def example_defs)
  have w: "length (writeAVPs (CEA_writes example_CEA)) = 96"
    by (simp add: CEA_writes_def example_defs wire_length Address_methods_def
        length_Address_Serialize_v4 VSA_zero_def)
  obtain h bs where m: "CEA_Marshal example_CEA = Inr (example_CEA\<lparr>cea_Header := h\<rparr>, bs)"
    and l: "length bs = 20 + length (writeAVPs (CEA_writes example_CEA))"
    using cea.Marshal_total [OF v] by blast
  have "CEA_faithful example_CEA"
    by (simp add: CEA_faithful_def example_defs canonical_address_def faithful_FailedAVP_def)
  then have "CEA_Unmarshal bs CEA_zero = Inr (example_CEA\<lparr>cea_Header := h\<rparr>)"
    using l w by (intro CEA_Unmarshal_Marshal [OF m]) (simp_all add: example_defs)
  then show ?thesis
    using m by simp
qed

text \<open>
  A marshalled CER announces its own length: the header's length field, as the receiver
  keeps it and as it stands in the first bytes, is the number of bytes produced modulo
  \<open>2\<^sup>3\<^sup>2\<close>; the message is never shorter than its header and always ends on a 32-bit boundary.
\<close>

theorem CER_Marshal_length:
  assumes "CER_Marshal m = Inr (m', bs)"
  shows "hdr_Length (cer_Header m') = word_of_nat (length bs) \<and>
    take 20 bs = marshalHeader (cer_Header m') \<and> 20 \<le> length bs \<and> 4 dvd length bs"
  using cer.Marshal_length [OF assms] cer.Marshal_cases(3) [OF assms] by auto

theorem CER_Marshal_length_witness:
  "\<exists>m' bs. CER_Marshal example_CER = Inr (m', bs) \<and>
     hdr_Length (cer_Header m') = word_of_nat (length bs) \<and> 4 dvd length bs"
proof -
  have "CER_Validate example_CER = None"
    by (simp add: CER_Validate_def example_defs)
  then obtain m' bs where "CER_Marshal example_CER = Inr (m', bs)"
    using cer.Marshal_defined by fastforce
  then show ?thesis
    using CER_Marshal_length [of example_CER m' bs] by blast
qed

text \<open>
  \<^verbatim>\<open>Marshal\<close> of a CER fails exactly when one of Origin-Host, Origin-Realm, Host-IP-Address and
  Product-Name is missing, and names the first missing one; it never fails otherwise.
\<close>

theorem CER_Marshal_error:
  "CER_Marshal m = Inl e \<longleftrightarrow>
     (cer_OriginHost m = [] \<and> e = ValidationFailed (RequiredFieldEmpty ''Origin-Host'')) \<or>
     (cer_OriginHost m \<noteq> [] \<and> cer_OriginRealm m = [] \<and>
        e = ValidationFailed (RequiredFieldEmpty ''Origin-Realm'')) \<or>
     (cer_OriginHost m \<noteq> [] \<and> cer_OriginRealm m \<noteq> [] \<and> cer_HostIpAddress m = [] \<and>
        e = ValidationFailed (RequiredFieldEmpty ''Host-IP-Address'')) \<or>
     (cer_OriginHost m \<noteq> [] \<and> cer_OriginRealm m \<noteq> [] \<and> cer_HostIpAddress m \<noteq> [] \<and>
        cer_ProductName m = [] \<and> e = ValidationFailed (RequiredFieldEmpty ''Product-Name''))"
  by (auto simp: CER_Marshal_def CER_Validate_def sealMessage_def Let_def split: if_splits)

text \<open>
  The watchdog answer survives the wire, so that a peer reads the Result-Code that was sent.
\<close>

theorem DWA_Unmarshal_Marshal:
  assumes "DWA_Marshal m = Inr (m', bs)" and "DWA_faithful m" and "length bs < 2 ^ 24"
    and "unat (hdr_CommandCode (dwa_Header m)) < 2 ^ 24"
  shows "DWA_Unmarshal bs DWA_zero = Inr m'"
  using assms by (rule dwa.Unmarshal_Marshal)

theorem DWA_Unmarshal_Marshal_witness:
  "\<exists>m' bs. DWA_Marshal (NewDeviceWatchdogAnswer\<lparr>dwa_ResultCode := 2001, dwa_OriginHost := [103],
       dwa_OriginRealm := [114]\<rparr>) = Inr (m', bs) \<and>
     DWA_Unmarshal bs DWA_zero = Inr m' \<and> dwa_ResultCode m' = 2001"
proof -
  let ?m = "NewDeviceWatchdogAnswer\<lparr>dwa_ResultCode := 2001, dwa_OriginHost := [103],
       dwa_OriginRealm := [114]\<rparr>"
  note defs = NewDeviceWatchdogAnswer_def DWA_zero_def new_header_def zero_header_def
  have v: "DWA_Validate ?m = None"
    by (simp add: DWA_Validate_def)
  have w: "length (writeAVPs (DWA_writes ?m)) = 36"
    by (simp add: DWA_writes_def defs wire_length)
  obtain h bs where m: "DWA_Marshal ?m = Inr (?m\<lparr>dwa_Header := h\<rparr>, bs)"
    and l: "length bs = 20 + length (writeAVPs (DWA_writes ?m))"
    using dwa.Marshal_total [OF v] by blast
  have "DWA_Unmarshal bs DWA_zero = Inr (?m\<lparr>dwa_Header := h\<rparr>)"
    using l w by (intro DWA_Unmarshal_Marshal [OF m]) (simp_all add: DWA_faithful_def defs
        faithful_FailedAVP_def)
  then show ?thesis
    using m l w by simp
qed

text \<open>
  The disconnect request survives the wire, with its Disconnect-Cause.
\<close>

theorem DPR_Unmarshal_Marshal:
  assumes "DPR_Marshal m = Inr (m', bs)" and "DPR_faithful m" and "length bs < 2 ^ 24"
    and "unat (hdr_CommandCode (dpr_Header m)) < 2 ^ 24"
  shows "DPR_Unmarshal bs DPR_zero = Inr m'"
  using assms by (rule dpr.Unmarshal_Marshal)

theorem DPR_Unmarshal_Marshal_witness:
  "\<exists>m' bs. DPR_Marshal (NewDisconnectPeerRequest\<lparr>dpr_OriginHost := [103],
       dpr_OriginRealm := [114], dpr_DisconnectCause := 2\<rparr>) = Inr (m', bs) \<and>
     DPR_Unmarshal bs DPR_zero = Inr m' \<and> dpr_DisconnectCause m' = 2"
proof -
  let ?m = "NewDisconnectPeerRequest\<lparr>dpr_OriginHost := [103], dpr_OriginRealm := [114],
       dpr_DisconnectCause := 2\<rparr>"
  note defs = NewDisconnectPeerRequest_def DPR_zero_def new_header_def zero_header_def
  have v: "DPR_Validate ?m = None"
    by (simp add: DPR_Validate_def)
  have w: "length (writeAVPs (DPR_writes ?m)) = 36"
    by (simp add: DPR_writes_def defs wire_length)
  obtain h bs where m: "DPR_Marshal ?m = Inr (?m\<lparr>dpr_Header := h\<rparr>, bs)"
    and l: "length bs = 20 + length (writeAVPs (DPR_writes ?m))"
    using dpr.Marshal_total [OF v] by blast
  have "DPR_Unmarshal bs DPR_zero = Inr (?m\<lparr>dpr_Header := h\<rparr>)"
    using l w by (intro DPR_Unmarshal_Marshal [OF m]) (simp_all add: DPR_faithful_def defs)
  then show ?thesis
    using m l w by simp
qed

end
