(* ===== verification/Framing.thy ===== *)
theory Framing
  imports Base_Messages
begin

text \<open>
  \<^verbatim>\<open>pkg/connection\<close>: the command key of a message, the parsed header the client and the server
  dispatch on, the framing of messages on a byte stream (\<^verbatim>\<open>ReadMessage\<close>), and the close
  notification of a connection. An \<^verbatim>\<open>io.Reader\<close> is the list of bytes still to come before end of
  file. The lemmas show that the header parsers agree with the codec of the generated messages,
  that \<^verbatim>\<open>ReadMessage\<close> cuts a stream exactly at the lengths the messages announce, and that a
  message a peer marshalled arrives as it was sent.
\<close>

section \<open>Commands\<close>

record Command =
  cmd_Interface :: int
  cmd_Code :: int
  cmd_Request :: bool

datatype frame_error =
    InvalidHeaderLength
  | MessageTooShort
  | UnsupportedVersion byte
  | InvalidLength u32

definition ParseCommand :: "bytes \<Rightarrow> (frame_error, Command) result" where
  "ParseCommand header =
     (if length header < 20 then Inl InvalidHeaderLength
      else
        let flags = header ! 4;
            request = (flags AND 0x80 \<noteq> 0);
            commandCode = uint (Uint32 [0, header ! 5, header ! 6, header ! 7]);
            applicationID = uint (Uint32 (bslice 8 12 header))
        in Inr \<lparr>cmd_Interface = applicationID, cmd_Code = commandCode, cmd_Request = request\<rparr>)"

section \<open>Parsed headers\<close>

record MessageFlags =
  mf_Request :: bool
  mf_Proxiable :: bool
  mf_Error :: bool
  mf_Retrans :: bool

record MessageInfo =
  mi_Version :: byte
  mi_Length :: u32
  mi_CommandCode :: u32
  mi_ApplicationID :: u32
  mi_HopByHopID :: u32
  mi_EndToEndID :: u32
  mi_Flags :: MessageFlags
  mi_IsRequest :: bool
  mi_IsProxiable :: bool
  mi_IsError :: bool
  mi_IsRetrans :: bool

definition ParseMessageHeader :: "bytes \<Rightarrow> (frame_error, MessageInfo) result" where
  "ParseMessageHeader data =
     (if length data < 20 then Inl MessageTooShort
      else
        let flags = data ! 4;
            isRequest = (flags AND 0x80 \<noteq> 0);
            isProxiable = (flags AND 0x40 \<noteq> 0);
            isError = (flags AND 0x20 \<noteq> 0);
            isRetrans = (flags AND 0x10 \<noteq> 0);
            info = \<lparr>mi_Version = data ! 0,
              mi_Length = Uint32 [0, data ! 1, data ! 2, data ! 3],
              mi_CommandCode = Uint32 [0, data ! 5, data ! 6, data ! 7],
              mi_ApplicationID = Uint32 (bslice 8 12 data),
              mi_HopByHopID = Uint32 (bslice 12 16 data),
              mi_EndToEndID = Uint32 (bslice 16 20 data),
              mi_Flags = \<lparr>mf_Request = isRequest, mf_Proxiable = isProxiable,
                mf_Error = isError, mf_Retrans = isRetrans\<rparr>,
              mi_IsRequest = isRequest, mi_IsProxiable = isProxiable,
              mi_IsError = isError, mi_IsRetrans = isRetrans\<rparr>
        in if mi_Version info \<noteq> 1 then Inl (UnsupportedVersion (mi_Version info))
           else if mi_Length info < 20 then Inl (InvalidLength (mi_Length info))
           else Inr info)"

definition IsBaseProtocol :: "MessageInfo \<Rightarrow> bool" where
  "IsBaseProtocol m \<longleftrightarrow> mi_ApplicationID m = 0"

definition GetMessageType :: "MessageInfo \<Rightarrow> int" where
  "GetMessageType m = uint (mi_CommandCode m)"

section \<open>Messages on a stream\<close>

datatype io_error = EOF | UnexpectedEOF

datatype read_error =
    HeaderRead io_error
  | LengthLessThan20
  | BodyRead io_error nat

record Message =
  msg_Length :: u32
  msg_Header :: bytes
  msg_Body :: bytes

text \<open>
  \<^verbatim>\<open>io.ReadFull(r, b)\<close> with \<open>len(b) = n\<close>: all \<open>n\<close> bytes, or \<^verbatim>\<open>EOF\<close> when none could be read and
  \<^verbatim>\<open>ErrUnexpectedEOF\<close> when only some; the second component is the number of bytes read.
\<close>

definition ReadFull :: "bytes \<Rightarrow> nat \<Rightarrow> (io_error \<times> nat, bytes) result \<times> bytes" where
  "ReadFull r n =
     (if n \<le> length r then (Inr (take n r), drop n r)
      else if r = [] then (Inl (EOF, 0), [])
      else (Inl (UnexpectedEOF, length r), []))"

text \<open>
  The pooled buffer only serves as scratch space: \<^verbatim>\<open>readHeader\<close> and \<^verbatim>\<open>readBody\<close> copy out of it, so
  the buffers of the returned message are fresh. \<^verbatim>\<open>m.Length\<close> is at least 20 when \<^verbatim>\<open>readBody\<close> runs.
\<close>

definition readHeader :: "Message \<Rightarrow> bytes \<Rightarrow> (read_error, Message) result \<times> bytes" where
  "readHeader m r =
     (case ReadFull r 20 of
        (Inl (e, n), r') \<Rightarrow> (Inl (HeaderRead e), r')
      | (Inr b, r') \<Rightarrow>
          let len = push_bit 16 (ucast (b ! 1)) OR push_bit 8 (ucast (b ! 2)) OR ucast (b ! 3)
          in if len < 20 then (Inl LengthLessThan20, r')
             else (Inr (m\<lparr>msg_Length := len, msg_Header := b\<rparr>), r'))"

definition readBody :: "Message \<Rightarrow> bytes \<Rightarrow> (read_error, Message) result \<times> bytes" where
  "readBody m r =
     (if msg_Length m \<le> 20 then (Inr (m\<lparr>msg_Body := []\<rparr>), r)
      else
        let bodyLen = unat (msg_Length m - 20)
        in case ReadFull r bodyLen of
             (Inl (e, n), r') \<Rightarrow> (Inl (BodyRead e n), r')
           | (Inr b, r') \<Rightarrow> (Inr (m\<lparr>msg_Body := b\<rparr>), r'))"

text \<open>
  \<^verbatim>\<open>ReadMessage\<close>: both results of the Go function, and what is left of the stream. After a failed
  body the half-read message is returned beside the error.
\<close>

definition ReadMessage :: "bytes \<Rightarrow> (Message option \<times> read_error option) \<times> bytes" where
  "ReadMessage r =
     (case readHeader \<lparr>msg_Length = 0, msg_Header = [], msg_Body = []\<rparr> r of
        (Inl e, r') \<Rightarrow> ((None, Some e), r')
      | (Inr m, r') \<Rightarrow>
          (case readBody m r' of
             (Inl e, r'') \<Rightarrow> ((Some m, Some e), r'')
           | (Inr m', r'') \<Rightarrow> ((Some m', None), r'')))"

section \<open>The parsers agree\<close>

definition info_of_header :: "DiameterHeader \<Rightarrow> MessageInfo" where
  "info_of_header h =
     \<lparr>mi_Version = hdr_Version h, mi_Length = hdr_Length h, mi_CommandCode = hdr_CommandCode h,
      mi_ApplicationID = hdr_ApplicationID h, mi_HopByHopID = hdr_HopByHopID h,
      mi_EndToEndID = hdr_EndToEndID h,
      mi_Flags = \<lparr>mf_Request = fl_Request (hdr_Flags h), mf_Proxiable = fl_Proxiable (hdr_Flags h),
        mf_Error = fl_Error (hdr_Flags h), mf_Retrans = fl_Retransmitted (hdr_Flags h)\<rparr>,
      mi_IsRequest = fl_Request (hdr_Flags h), mi_IsProxiable = fl_Proxiable (hdr_Flags h),
      mi_IsError = fl_Error (hdr_Flags h), mi_IsRetrans = fl_Retransmitted (hdr_Flags h)\<rparr>"

lemma ParseMessageHeader_unmarshalHeader:
  "ParseMessageHeader data =
     (case unmarshalHeader data of
        Inl e \<Rightarrow> Inl MessageTooShort
      | Inr h \<Rightarrow>
          if hdr_Version h \<noteq> 1 then Inl (UnsupportedVersion (hdr_Version h))
          else if hdr_Length h < 20 then Inl (InvalidLength (hdr_Length h))
          else Inr (info_of_header h))"
  by (simp add: ParseMessageHeader_def unmarshalHeader_def decode_flags_def info_of_header_def Let_def)

text \<open>
  The header parser of the connection layer reads what the generated messages write: on a
  marshalled header it succeeds exactly when the version is 1 and the 24-bit length at least 20,
  and then yields the header's own fields.
\<close>

theorem ParseMessageHeader_marshalHeader:
  "ParseMessageHeader (marshalHeader h @ rest) = Inr info \<longleftrightarrow>
     hdr_Version h = 1 \<and> 20 \<le> take_bit 24 (hdr_Length h) \<and>
     info = info_of_header (h\<lparr>hdr_Length := take_bit 24 (hdr_Length h),
       hdr_CommandCode := take_bit 24 (hdr_CommandCode h)\<rparr>)"
  by (auto simp: ParseMessageHeader_unmarshalHeader unmarshalHeader_append not_less)

text \<open>
  \<^verbatim>\<open>ParseCommand\<close> and \<^verbatim>\<open>ParseMessageHeader\<close> never disagree: whenever the second accepts a
  message, the first returns the same application, command code and request bit, so the
  server's handler lookup and the client's dispatch see the same message.
\<close>

theorem ParseCommand_ParseMessageHeader:
  assumes "ParseMessageHeader data = Inr info"
  shows "ParseCommand data =
    Inr \<lparr>cmd_Interface = uint (mi_ApplicationID info), cmd_Code = GetMessageType info,
         cmd_Request = mi_IsRequest info\<rparr>"
  using assms
  by (auto simp: ParseMessageHeader_def ParseCommand_def GetMessageType_def Let_def split: if_splits)

theorem ParseCommand_ParseMessageHeader_witness:
  "\<exists>info. ParseMessageHeader (marshalHeader ((new_header 280 True)\<lparr>hdr_Length := 20\<rparr>)) = Inr info \<and>
     ParseCommand (marshalHeader ((new_header 280 True)\<lparr>hdr_Length := 20\<rparr>)) =
       Inr \<lparr>cmd_Interface = 0, cmd_Code = 280, cmd_Request = True\<rparr>"
proof -
  let ?h = "(new_header 280 True)\<lparr>hdr_Length := 20\<rparr>"
  have "ParseMessageHeader (marshalHeader ?h) = Inr (info_of_header ?h)"
    using unmarshalHeader_append [of ?h "[]"]
    by (simp add: ParseMessageHeader_unmarshalHeader new_header_def zero_header_def)
  then show ?thesis
    using ParseCommand_ParseMessageHeader [of "marshalHeader ?h" "info_of_header ?h"]
    by (simp add: GetMessageType_def info_of_header_def new_header_def zero_header_def)
qed

section \<open>Framing\<close>

lemma length_field_Uint32:
  "push_bit 16 (ucast a) OR push_bit 8 (ucast b) OR ucast c = Uint32 [0, a, b, c]"
  by (simp add: wire_simps)

lemma ReadFull_enough [simp]: "n \<le> length r \<Longrightarrow> ReadFull r n = (Inr (take n r), drop n r)"
  by (simp add: ReadFull_def)

text \<open>The announced length of a header.\<close>

definition announced :: "bytes \<Rightarrow> u32" where
  "announced b = Uint32 [0, b ! 1, b ! 2, b ! 3]"

lemma readHeader_enough:
  "20 \<le> length r \<Longrightarrow> readHeader m r =
     (if announced r < 20 then (Inl LengthLessThan20, drop 20 r)
      else (Inr (m\<lparr>msg_Length := announced r, msg_Header := take 20 r\<rparr>), drop 20 r))"
  by (simp add: readHeader_def length_field_Uint32 announced_def Let_def)

lemma ReadMessage_exact:
  assumes "20 \<le> announced r" and "unat (announced r) \<le> length r"
  shows "ReadMessage r =
    ((Some \<lparr>msg_Length = announced r, msg_Header = take 20 r,
            msg_Body = bslice 20 (unat (announced r)) r\<rparr>, None), drop (unat (announced r)) r)"
proof -
  have a: "20 \<le> unat (announced r)"
    using assms(1) by (simp add: word_le_nat_alt)
  then have sub: "unat (announced r - 20) = unat (announced r) - 20"
    by (simp add: unat_sub word_le_nat_alt)
  show ?thesis
  proof (cases "announced r \<le> 20")
    case True
    then have "announced r = 20"
      using assms(1) by simp
    then show ?thesis
      using assms a by (simp add: ReadMessage_def readHeader_enough readBody_def bslice_def)
  next
    case False
    then show ?thesis
      using assms a by (simp add: ReadMessage_def readHeader_enough readBody_def sub bslice_def
          not_less [symmetric] Let_def)
  qed
qed

lemma announced_marshalHeader:
  "announced (marshalHeader h @ rest) = take_bit 24 (hdr_Length h)"
  by (simp add: announced_def marshalHeader_def PutUint32_def)

lemma ReadMessage_short:
  "length r < 20 \<Longrightarrow>
   ReadMessage r = ((None, Some (HeaderRead (if r = [] then EOF else UnexpectedEOF))), [])"
  by (simp add: ReadMessage_def readHeader_def ReadFull_def)

text \<open>
  C24. \<^verbatim>\<open>ReadMessage\<close> succeeds exactly when the stream holds a header that announces at least 20
  bytes and as many bytes as it announces; it then takes exactly these bytes off the stream,
  split into the header and the body.
\<close>

theorem ReadMessage_success:
  "ReadMessage r = ((Some m, None), r') \<longleftrightarrow>
     20 \<le> length r \<and> 20 \<le> announced r \<and> unat (announced r) \<le> length r \<and>
     m = \<lparr>msg_Length = announced r, msg_Header = take 20 r,
          msg_Body = bslice 20 (unat (announced r)) r\<rparr> \<and> r' = drop (unat (announced r)) r"
proof (cases "20 \<le> length r \<and> 20 \<le> announced r")
  case True
  show ?thesis
  proof (cases "unat (announced r) \<le> length r")
    case False
    then have "\<not> announced r \<le> 20" "\<not> unat (announced r - 20) \<le> length r - 20"
      using True by (auto simp: word_le_nat_alt unat_sub)
    then show ?thesis
      using True False
      by (auto simp: ReadMessage_def readHeader_enough readBody_def ReadFull_def Let_def not_less)
  qed (use True ReadMessage_exact in auto)
next
  case False
  then show ?thesis
  proof (cases "20 \<le> length r")
    case True
    then show ?thesis
      using False by (auto simp: ReadMessage_def readHeader_enough)
  qed (use ReadMessage_short in auto)
qed

context generated_message
begin

lemma announced_Marshal:
  assumes "Marshal m = Inr (m', bs)" and "length bs < 2 ^ 24"
  shows "unat (announced (bs @ rest)) = length bs"
proof -
  note c = Marshal_cases [OF assms(1)]
  have "announced (bs @ rest) = take_bit 24 (word_of_nat (length bs))"
    by (subst c(3)) (simp add: announced_marshalHeader, simp add: c(2) header_set)
  then show ?thesis
    using assms(2) by (simp only: unat_take_bit_24)
qed

lemma ReadMessage_Marshal:
  assumes m: "Marshal m = Inr (m', bs)" and len: "length bs < 2 ^ 24"
    and f: "faithful m" and code: "unat (hdr_CommandCode (header m)) < 2 ^ 24"
  shows "\<exists>msg. ReadMessage (bs @ rest) = ((Some msg, None), rest) \<and>
    Unmarshal (msg_Header msg @ msg_Body msg) zero = Inr m'"
proof -
  have u: "unat (announced (bs @ rest)) = length bs"
    using announced_Marshal [OF m len] .
  have l: "20 \<le> length bs"
    using Marshal_length [OF m] by blast
  have "20 \<le> announced (bs @ rest)"
    using u l by (simp add: word_le_nat_alt)
  then have "ReadMessage (bs @ rest) =
      ((Some \<lparr>msg_Length = announced (bs @ rest), msg_Header = take 20 bs, msg_Body = drop 20 bs\<rparr>,
        None), rest)"
    using l u by (simp add: ReadMessage_exact bslice_def)
  then show ?thesis
    using Unmarshal_Marshal [OF m f len code] by simp
qed

end

text \<open>
  A CER written to a connection by one peer is read from the stream by the other as one
  message, whatever bytes follow it, and unmarshals to the message that was sent.
\<close>

theorem ReadMessage_CER:
  assumes "CER_Marshal m = Inr (m', bs)" and "length bs < 2 ^ 24" and "CER_faithful m"
    and "unat (hdr_CommandCode (cer_Header m)) < 2 ^ 24"
  shows "\<exists>msg. ReadMessage (bs @ rest) = ((Some msg, None), rest) \<and>
    CER_Unmarshal (msg_Header msg @ msg_Body msg) CER_zero = Inr m'"
  using assms by (rule cer.ReadMessage_Marshal)

theorem ReadMessage_CER_witness:
  "\<exists>m' bs msg. CER_Marshal example_CER = Inr (m', bs) \<and>
     ReadMessage (bs @ [1, 0, 0]) = ((Some msg, None), [1, 0, 0]) \<and>
     CER_Unmarshal (msg_Header msg @ msg_Body msg) CER_zero = Inr m'"
proof -
  have v: "CER_Validate example_CER = None"
    by (simp add: CER_Validate_def example_defs)
  have w: "length (writeAVPs (CER_writes example_CER)) = 96"
    by (simp add: CER_writes_def example_defs wire_length Address_methods_def
        length_Address_Serialize_v4 VSA_zero_def)
  obtain h bs where m: "CER_Marshal example_CER = Inr (example_CER\<lparr>cer_Header := h\<rparr>, bs)"
    and l: "length bs = 20 + length (writeAVPs (CER_writes example_CER))"
    using cer.Marshal_total [OF v] by blast
  have "CER_faithful example_CER"
    by (simp add: CER_faithful_def example_defs canonical_address_def)
  then show ?thesis
    using m l w ReadMessage_CER [OF m, of "[1, 0, 0]"]
    by (simp add: example_header_def example_CER_def new_header_def zero_header_def
        NewCapabilitiesExchangeRequest_def CER_zero_def)
qed

section \<open>Close notification\<close>

text \<open>
  The part of \<^verbatim>\<open>conn\<close> that \<^verbatim>\<open>CloseNotify\<close> manages. \<open>cn_closeNotifyc\<close> is the channel, nil or open
  (\<open>Some False\<close>) or closed (\<open>Some True\<close>); \<open>cn_pipe\<close> says that \<^verbatim>\<open>sr.pr\<close> and \<^verbatim>\<open>sr.pipeCopyF\<close> are set,
  which the code does together; \<open>cn_copiers\<close> counts the running \<^verbatim>\<open>pipeCopyF\<close> goroutines. Closing a
  closed channel panics: \<open>None\<close>.
\<close>

record conn_notify =
  cn_closeNotifyc :: "bool option"
  cn_clientGone :: bool
  cn_pipe :: bool
  cn_copiers :: nat

definition NewConn_notify :: conn_notify where
  "NewConn_notify =
     \<lparr>cn_closeNotifyc = None, cn_clientGone = False, cn_pipe = False, cn_copiers = 0\<rparr>"

definition CloseNotify :: "conn_notify \<Rightarrow> conn_notify" where
  "CloseNotify c =
     (if cn_closeNotifyc c = None then c\<lparr>cn_closeNotifyc := Some False, cn_pipe := True\<rparr> else c)"

definition liveSwitchReader_Read :: "conn_notify \<Rightarrow> conn_notify" where
  "liveSwitchReader_Read c =
     (if cn_pipe c then c\<lparr>cn_pipe := False, cn_copiers := cn_copiers c + 1\<rparr> else c)"

definition notifyClientGone :: "conn_notify \<Rightarrow> conn_notify option" where
  "notifyClientGone c =
     (if cn_closeNotifyc c \<noteq> None \<and> \<not> cn_clientGone c
      then if cn_closeNotifyc c = Some True then None
           else Some (c\<lparr>cn_closeNotifyc := Some True, cn_clientGone := True\<rparr>)
      else Some c)"

text \<open>The copying goroutine ends with the client and then notifies.\<close>

definition pipeCopyF_end :: "conn_notify \<Rightarrow> conn_notify option" where
  "pipeCopyF_end c = notifyClientGone (c\<lparr>cn_copiers := cn_copiers c - 1\<rparr>)"

inductive conn_step :: "conn_notify \<Rightarrow> conn_notify option \<Rightarrow> bool" where
  step_notify: "conn_step c (Some (CloseNotify c))"
| step_read: "conn_step c (Some (liveSwitchReader_Read c))"
| step_gone: "0 < cn_copiers c \<Longrightarrow> conn_step c (pipeCopyF_end c)"

inductive conn_reach :: "conn_notify \<Rightarrow> bool" where
  reach_new: "conn_reach NewConn_notify"
| reach_step: "conn_reach c \<Longrightarrow> conn_step c (Some c') \<Longrightarrow> conn_reach c'"

inductive_cases conn_stepE: "conn_step c r"

definition conn_inv :: "conn_notify \<Rightarrow> bool" where
  "conn_inv c \<longleftrightarrow>
     (cn_clientGone c \<longleftrightarrow> cn_closeNotifyc c = Some True) \<and>
     (if cn_closeNotifyc c = None then \<not> cn_pipe c \<and> cn_copiers c = 0
      else cn_copiers c + (if cn_pipe c then 1 else 0) + (if cn_clientGone c then 1 else 0) = 1)"

lemma conn_inv_step:
  "conn_inv c \<Longrightarrow> conn_step c r \<Longrightarrow> r \<noteq> None \<and> (\<forall>c'. r = Some c' \<longrightarrow> conn_inv c')"
  by (erule conn_stepE)
    (auto simp: conn_inv_def CloseNotify_def liveSwitchReader_Read_def notifyClientGone_def
      pipeCopyF_end_def split: if_splits)

lemma conn_reach_inv: "conn_reach c \<Longrightarrow> conn_inv c"
proof (induction rule: conn_reach.induct)
  case reach_new
  show ?case by (simp add: conn_inv_def NewConn_notify_def)
next
  case (reach_step c c')
  then show ?case using conn_inv_step by blast
qed

text \<open>
  Whatever the interleaving of \<^verbatim>\<open>CloseNotify\<close> calls, reads and the end of the copying
  goroutine, no step panics by closing the notification channel twice, and at most one copying
  goroutine ever runs on a connection's input.
\<close>

theorem conn_notify_safe:
  assumes "conn_reach c" and "conn_step c r"
  shows "r \<noteq> None \<and> cn_copiers c \<le> 1 \<and> (cn_clientGone c \<longleftrightarrow> cn_closeNotifyc c = Some True)"
  using conn_reach_inv [OF assms(1)] conn_inv_step [OF conn_reach_inv [OF assms(1)] assms(2)]
  by (auto simp: conn_inv_def split: if_splits)

theorem conn_notify_safe_witness:
  "conn_reach (liveSwitchReader_Read (CloseNotify NewConn_notify)) \<and>
   cn_copiers (liveSwitchReader_Read (CloseNotify NewConn_notify)) = 1 \<and>
   pipeCopyF_end (liveSwitchReader_Read (CloseNotify NewConn_notify)) \<noteq> None"
proof -
  let ?c = "liveSwitchReader_Read (CloseNotify NewConn_notify)"
  have r: "conn_reach ?c"
    by (intro reach_step [OF reach_step [OF reach_new step_notify] step_read])
  have n: "cn_copiers ?c = 1"
    by (simp add: liveSwitchReader_Read_def CloseNotify_def NewConn_notify_def)
  then have "conn_step ?c (pipeCopyF_end ?c)"
    by (intro step_gone) simp
  then show ?thesis
    using conn_notify_safe [OF r] n r by blast
qed

end
