(* ===== verification/Client_Conn.thy ===== *)
theory Client_Conn
  imports Framing
begin

text \<open>
  The client side of one Diameter connection: \<^verbatim>\<open>client/config.go\<close>, \<^verbatim>\<open>client/state.go\<close>, the result codes
  of \<^verbatim>\<open>client/message.go\<close> and the methods of \<^verbatim>\<open>client/connection.go\<close>, each as a function on the
  connection's fields. Theory \<open>Client_Steps\<close> interleaves them. Logging is left out. Durations and
  times are nanoseconds. A channel is the list of its buffered elements, oldest first, with its
  capacity from the configuration; a response channel (capacity 1) is an \<open>option\<close>.

  Two ghost fields record what the methods do outside the object: \<open>c_held\<close>, the source ports
  acquired and not yet released, and \<open>c_sockets\<close>, the sockets dialled and not yet closed.
\<close>

section \<open>States and result codes\<close>

datatype ConnectionState =
    StateDisconnected | StateConnecting | StateCERSent | StateOpen | StateDWRSent
  | StateFailed | StateReconnecting | StateClosed

definition state_IsActive :: "ConnectionState \<Rightarrow> bool" where
  "state_IsActive s \<longleftrightarrow> s = StateOpen \<or> s = StateDWRSent"

definition CanReconnect :: "ConnectionState \<Rightarrow> bool" where
  "CanReconnect s \<longleftrightarrow> s = StateFailed \<or> s = StateDisconnected"

definition IsSuccess :: "u32 \<Rightarrow> bool" where
  "IsSuccess r \<longleftrightarrow> r \<ge> 2000 \<and> r < 3000"

section \<open>Configuration\<close>

record DRAConfig =
  Host :: gostring
  Port :: int
  LocalAddr :: gostring
  LocalPortMin :: int
  LocalPortMax :: int
  OriginHost :: gostring
  OriginRealm :: gostring
  ProductName :: gostring
  VendorID :: u32
  ConnectionCount :: int
  DWRInterval :: int
  DWRTimeout :: int
  MaxDWRFailures :: int
  ReconnectInterval :: int
  MaxReconnectDelay :: int
  SendBufferSize :: nat
  RecvBufferSize :: nat
  AuthAppIDs :: "u32 list"
  AcctAppIDs :: "u32 list"
  hasAcquireLocalAddr :: bool
  hasReleaseLocalAddr :: bool

datatype config_error = ErrInvalidConfig string string

text \<open>\<open>parseIP\<close> is \<^verbatim>\<open>net.ParseIP\<close>; \<open>None\<close> its nil.\<close>

definition DRAConfig_Validate ::
  "(gostring \<Rightarrow> bytes option) \<Rightarrow> DRAConfig \<Rightarrow> config_error option" where
  "DRAConfig_Validate parseIP c =
     (if Host c = [] then Some (ErrInvalidConfig ''Host'' ''must not be empty'')
      else if Port c \<le> 0 \<or> Port c > 65535 then
        Some (ErrInvalidConfig ''Port'' ''must be between 1 and 65535'')
      else if OriginHost c = [] then Some (ErrInvalidConfig ''OriginHost'' ''must not be empty'')
      else if OriginRealm c = [] then Some (ErrInvalidConfig ''OriginRealm'' ''must not be empty'')
      else if ProductName c = [] then Some (ErrInvalidConfig ''ProductName'' ''must not be empty'')
      else if ConnectionCount c \<le> 0 then
        Some (ErrInvalidConfig ''ConnectionCount'' ''must be greater than 0'')
      else if DWRInterval c \<le> 0 then Some (ErrInvalidConfig ''DWRInterval'' ''must be greater than 0'')
      else if DWRTimeout c \<le> 0 then Some (ErrInvalidConfig ''DWRTimeout'' ''must be greater than 0'')
      else if DWRTimeout c \<ge> DWRInterval c then
        Some (ErrInvalidConfig ''DWRTimeout'' ''must be less than DWRInterval'')
      else if MaxDWRFailures c \<le> 0 then
        Some (ErrInvalidConfig ''MaxDWRFailures'' ''must be greater than 0'')
      else if LocalAddr c \<noteq> [] \<and> parseIP (LocalAddr c) = None then
        Some (ErrInvalidConfig ''LocalAddr'' ''must be a valid IP address'')
      else if LocalPortMin c \<noteq> 0 \<or> LocalPortMax c \<noteq> 0 then
        (if LocalPortMin c \<le> 0 \<or> LocalPortMax c \<le> 0 then
           Some (ErrInvalidConfig ''LocalPortMin/Max'' ''both must be set together'')
         else if LocalPortMin c > LocalPortMax c then
           Some (ErrInvalidConfig ''LocalPortMin'' ''must be <= LocalPortMax'')
         else if LocalPortMax c > 65535 then
           Some (ErrInvalidConfig ''LocalPortMax'' ''must be <= 65535'')
         else None)
      else None)"

section \<open>The connection object\<close>

datatype conn_error =
    ErrConnectionClosed
  | ErrConnectionTimeout string
  | ErrHandshakeFailed u32
  | ErrCtxDone
  | ErrSendBufferFull
  | ErrMarshal codec_error
  | ErrUnmarshal codec_error
  | ErrDWAFailed u32
  | ErrAcquire
  | ErrDial
  | ErrIO
  | ErrInvalidHeader frame_error
  | ErrMaxDWRFailures conn_error
  | ErrHealthCheck

record Connection =
  c_config :: DRAConfig
  c_conn :: "nat option"
  c_boundLocalAddr :: "int option"
  c_state :: ConnectionState
  c_hopByHopID :: u32
  c_endToEndID :: u32
  c_lastActivity :: int
  c_dwrTicker :: bool
  c_dwrFailureCount :: u32
  c_dwrLastFailTime :: int
  c_sendCh :: "bytes list"
  c_recvCh :: "Message list"
  c_pending :: "u32 \<rightharpoonup> bytes option"
  c_ctxDone :: bool
  c_reconnectDisabled :: bool
  c_connGeneration :: u64
  c_reconnecting :: bool
  c_reconnectRequested :: bool
  c_portScanStart :: u32
  c_onFailureCalls :: "conn_error list"
  c_MessagesReceived :: u64
  c_BytesReceived :: u64
  c_Drops :: u64
  c_lastError :: "conn_error option"
  c_held :: "int list"
  c_sockets :: "nat set"

definition NewConnection :: "DRAConfig \<Rightarrow> Connection" where
  "NewConnection config =
     \<lparr>c_config = config, c_conn = None, c_boundLocalAddr = None, c_state = StateDisconnected,
      c_hopByHopID = 0, c_endToEndID = 0, c_lastActivity = 0, c_dwrTicker = False,
      c_dwrFailureCount = 0, c_dwrLastFailTime = 0, c_sendCh = [], c_recvCh = [],
      c_pending = Map.empty, c_ctxDone = False, c_reconnectDisabled = False, c_connGeneration = 0,
      c_reconnecting = False, c_reconnectRequested = False, c_portScanStart = 0, c_onFailureCalls = [],
      c_MessagesReceived = 0, c_BytesReceived = 0, c_Drops = 0, c_lastError = None,
      c_held = [], c_sockets = {}\<rparr>"

definition setState :: "ConnectionState \<Rightarrow> Connection \<Rightarrow> Connection" where
  "setState newState c = (if c_state c = newState then c else c\<lparr>c_state := newState\<rparr>)"

definition IsActive :: "Connection \<Rightarrow> bool" where
  "IsActive c = state_IsActive (c_state c)"

definition nextHopByHopID :: "Connection \<Rightarrow> u32 \<times> Connection" where
  "nextHopByHopID c = (c_hopByHopID c + 1, c\<lparr>c_hopByHopID := c_hopByHopID c + 1\<rparr>)"

definition nextEndToEndID :: "Connection \<Rightarrow> u32 \<times> Connection" where
  "nextEndToEndID c = (c_endToEndID c + 1, c\<lparr>c_endToEndID := c_endToEndID c + 1\<rparr>)"

definition registerPending :: "u32 \<Rightarrow> Connection \<Rightarrow> Connection" where
  "registerPending hbh c = c\<lparr>c_pending := (c_pending c)(hbh \<mapsto> None)\<rparr>"

definition unregisterPending :: "u32 \<Rightarrow> Connection \<Rightarrow> Connection" where
  "unregisterPending hbh c = c\<lparr>c_pending := (c_pending c)(hbh := None)\<rparr>"

definition isCurrentGeneration :: "u64 \<Rightarrow> Connection \<Rightarrow> bool" where
  "isCurrentGeneration generation c \<longleftrightarrow> c_connGeneration c = generation"

definition startWatchdog :: "Connection \<Rightarrow> Connection" where
  "startWatchdog c = (if c_dwrTicker c then c else c\<lparr>c_dwrTicker := True\<rparr>)"

definition stopWatchdog :: "Connection \<Rightarrow> Connection" where
  "stopWatchdog c = (if c_dwrTicker c then c\<lparr>c_dwrTicker := False\<rparr> else c)"

text \<open>\<^verbatim>\<open>config.ReleaseLocalAddr(bound)\<close>: the port goes back to its source.\<close>

definition ReleaseLocalAddr :: "int \<Rightarrow> Connection \<Rightarrow> Connection" where
  "ReleaseLocalAddr port c =
     (if hasReleaseLocalAddr (c_config c) then c\<lparr>c_held := remove1 port (c_held c)\<rparr> else c)"

definition close_conn :: "Connection \<Rightarrow> Connection" where
  "close_conn c =
     (let c1 = stopWatchdog c;
          c2 = (case c_conn c1 of
                  Some s \<Rightarrow> c1\<lparr>c_conn := None, c_connGeneration := c_connGeneration c1 + 1,
                             c_sockets := c_sockets c1 - {s}\<rparr>
                | None \<Rightarrow> c1);
          bound = c_boundLocalAddr c2;
          c3 = c2\<lparr>c_boundLocalAddr := None\<rparr>
      in case bound of Some port \<Rightarrow> ReleaseLocalAddr port c3 | None \<Rightarrow> c3)"

text \<open>The flag of \<open>scheduleReconnect\<close> and \<open>handleFailure\<close>: a \<^verbatim>\<open>reconnect\<close> goroutine is started.\<close>

definition scheduleReconnect :: "Connection \<Rightarrow> bool \<times> Connection" where
  "scheduleReconnect c =
     (if c_reconnecting c then (False, c\<lparr>c_reconnectRequested := True\<rparr>)
      else (True, c\<lparr>c_reconnecting := True\<rparr>))"

definition callOnFailure :: "conn_error \<Rightarrow> Connection \<Rightarrow> Connection" where
  "callOnFailure err c = c\<lparr>c_onFailureCalls := c_onFailureCalls c @ [err]\<rparr>"

definition handleFailure :: "conn_error \<Rightarrow> Connection \<Rightarrow> bool \<times> Connection" where
  "handleFailure err c =
     (let state = c_state c
      in if c_ctxDone c \<or> state = StateClosed then (False, c)
         else
           let c1 = c\<lparr>c_lastError := Some err\<rparr>;
               hasConn = (c_conn c1 \<noteq> None)
           in if \<not> hasConn \<and> (state = StateFailed \<or> state = StateReconnecting) then (False, c1)
              else
                let reconnectEnabled = \<not> c_reconnectDisabled c1;
                    c2 = close_conn (setState StateFailed c1);
                    c3 = callOnFailure err c2
                in if reconnectEnabled then scheduleReconnect c3 else (False, c3))"

definition finishReconnect :: "bool \<Rightarrow> Connection \<Rightarrow> bool \<times> Connection" where
  "finishReconnect success c =
     (if \<not> success \<or> (IsActive c \<and> \<not> c_reconnectRequested c)
      then (True, c\<lparr>c_reconnecting := False, c_reconnectRequested := False\<rparr>)
      else (False, c\<lparr>c_reconnectRequested := False\<rparr>))"

text \<open>\<^verbatim>\<open>Close\<close>, up to waiting for the goroutines and closing the channels.\<close>

definition Close :: "Connection \<Rightarrow> Connection" where
  "Close c =
     (let c1 = setState StateClosed c;
          c2 = c1\<lparr>c_ctxDone := True\<rparr>;
          c3 = close_conn c2
      in snd (finishReconnect False c3))"

section \<open>Sending\<close>

definition Send :: "bytes \<Rightarrow> Connection \<Rightarrow> conn_error option \<times> Connection" where
  "Send data c =
     (if \<not> IsActive c then (Some ErrConnectionClosed, c)
      else if length (c_sendCh c) < SendBufferSize (c_config c)
      then (None, c\<lparr>c_sendCh := c_sendCh c @ [data]\<rparr>)
      else if c_ctxDone c then (Some ErrCtxDone, c)
      else (Some ErrSendBufferFull, c))"

section \<open>The handshake\<close>

definition S13_APPLICATION_ID :: u32 where "S13_APPLICATION_ID = 16777252"

definition handshakeCER :: "DRAConfig \<Rightarrow> bytes option \<Rightarrow> u32 \<Rightarrow> u32 \<Rightarrow> CapabilitiesExchangeRequest" where
  "handshakeCER config localAddr hbh e2e =
     (let cer = NewCapabilitiesExchangeRequest
            \<lparr>cer_OriginHost := OriginHost config, cer_OriginRealm := OriginRealm config,
             cer_ProductName := ProductName config, cer_VendorId := VendorID config,
             cer_HostIpAddress := (case localAddr of Some ip \<Rightarrow> [ip] | None \<Rightarrow> []),
             cer_AuthApplicationId :=
               (if AuthAppIDs config \<noteq> [] then AuthAppIDs config else [S13_APPLICATION_ID]),
             cer_AcctApplicationId := AcctAppIDs config\<rparr>
      in cer\<lparr>cer_Header := (cer_Header cer)\<lparr>hdr_HopByHopID := hbh, hdr_EndToEndID := e2e\<rparr>\<rparr>)"

text \<open>
  The first half of \<^verbatim>\<open>performHandshake\<close>, up to the wait for the CEA: ids, CER, pending response and
  the message in the send channel. \<^verbatim>\<open>sendCh <- cerData\<close> waits until there is room or the context is
  done: with room it is sent, and without room the step happens only once the context is done. The
  same holds for \<open>sendDWR\<close> and \<open>handleDWR\<close> below.
\<close>

definition handshakeSend :: "bytes option \<Rightarrow> Connection \<Rightarrow> (conn_error, u32) result \<times> Connection" where
  "handshakeSend localAddr c =
     (let (hbh, c1) = nextHopByHopID c;
          (e2e, c2) = nextEndToEndID c1
      in case CER_Marshal (handshakeCER (c_config c) localAddr hbh e2e) of
           Inl e \<Rightarrow> (Inl (ErrMarshal e), c2)
         | Inr (cer, cerData) \<Rightarrow>
             let c3 = setState StateCERSent (registerPending hbh c2)
             in if length (c_sendCh c3) < SendBufferSize (c_config c3)
                then (Inr hbh, c3\<lparr>c_sendCh := c_sendCh c3 @ [cerData]\<rparr>)
                else (Inl ErrCtxDone, unregisterPending hbh c3))"

definition handleCEA :: "bytes \<Rightarrow> conn_error option" where
  "handleCEA data =
     (case CEA_Unmarshal data CEA_zero of
        Inl e \<Rightarrow> Some (ErrUnmarshal e)
      | Inr cea \<Rightarrow>
          if \<not> IsSuccess (cea_ResultCode cea) then Some (ErrHandshakeFailed (cea_ResultCode cea))
          else None)"

section \<open>The watchdog\<close>

definition handleDWRFailure :: "int \<Rightarrow> conn_error \<Rightarrow> Connection \<Rightarrow> bool \<times> Connection" where
  "handleDWRFailure now err c =
     (let failureCount = c_dwrFailureCount c + 1;
          c1 = c\<lparr>c_dwrFailureCount := failureCount, c_dwrLastFailTime := now\<rparr>
      in if sint failureCount \<ge> MaxDWRFailures (c_config c)
         then handleFailure (ErrMaxDWRFailures err) c1
         else (False, c1))"

definition handleDWA :: "int \<Rightarrow> bytes \<Rightarrow> Connection \<Rightarrow> conn_error option \<times> Connection" where
  "handleDWA now data c =
     (case DWA_Unmarshal data DWA_zero of
        Inl e \<Rightarrow> (Some (ErrUnmarshal e), c)
      | Inr dwa \<Rightarrow>
          if \<not> IsSuccess (dwa_ResultCode dwa) then (Some (ErrDWAFailed (dwa_ResultCode dwa)), c)
          else (None, (setState StateOpen c)\<lparr>c_lastActivity := now, c_dwrFailureCount := 0\<rparr>))"

definition watchdogDWR :: "DRAConfig \<Rightarrow> u32 \<Rightarrow> u32 \<Rightarrow> DeviceWatchdogRequest" where
  "watchdogDWR config hbh e2e =
     (let dwr = NewDeviceWatchdogRequest
            \<lparr>dwr_OriginHost := OriginHost config, dwr_OriginRealm := OriginRealm config\<rparr>
      in dwr\<lparr>dwr_Header := (dwr_Header dwr)\<lparr>hdr_HopByHopID := hbh, hdr_EndToEndID := e2e\<rparr>\<rparr>)"

text \<open>\<^verbatim>\<open>sendDWR\<close>, up to the goroutine that waits for the answer, which knows id and generation.\<close>

definition sendDWR :: "Connection \<Rightarrow> (conn_error, u32 \<times> u64) result \<times> Connection" where
  "sendDWR c =
     (if \<not> IsActive c then (Inl ErrConnectionClosed, c)
      else
        let generation = c_connGeneration c;
            (hbh, c1) = nextHopByHopID c;
            (e2e, c2) = nextEndToEndID c1
        in case DWR_Marshal (watchdogDWR (c_config c) hbh e2e) of
             Inl e \<Rightarrow> (Inl (ErrMarshal e), c2)
           | Inr (dwr, dwrData) \<Rightarrow>
               let c3 = setState StateDWRSent (registerPending hbh c2)
               in if length (c_sendCh c3) < SendBufferSize (c_config c3)
                  then (Inr (hbh, generation), c3\<lparr>c_sendCh := c_sendCh c3 @ [dwrData]\<rparr>)
                  else (Inl ErrCtxDone, unregisterPending hbh c3))"

section \<open>Receiving\<close>

definition deliverResponse :: "u32 \<Rightarrow> Message \<Rightarrow> Connection \<Rightarrow> Connection" where
  "deliverResponse hbh data c =
     (case c_pending c hbh of
        Some None \<Rightarrow> c\<lparr>c_pending := (c_pending c)(hbh \<mapsto> Some (msg_Header data @ msg_Body data))\<rparr>
      | _ \<Rightarrow> c)"

definition answerDWA :: "DRAConfig \<Rightarrow> DeviceWatchdogRequest \<Rightarrow> DeviceWatchdogAnswer" where
  "answerDWA config dwr =
     (let dwa = NewDeviceWatchdogAnswer
            \<lparr>dwa_OriginHost := OriginHost config, dwa_OriginRealm := OriginRealm config,
             dwa_ResultCode := 2001\<rparr>
      in dwa\<lparr>dwa_Header := (dwa_Header dwa)
           \<lparr>hdr_HopByHopID := hdr_HopByHopID (dwr_Header dwr),
            hdr_EndToEndID := hdr_EndToEndID (dwr_Header dwr)\<rparr>\<rparr>)"

definition handleDWR :: "int \<Rightarrow> Message \<Rightarrow> Connection \<Rightarrow> conn_error option \<times> Connection" where
  "handleDWR now data c =
     (case DWR_Unmarshal (msg_Header data @ msg_Body data) DWR_zero of
        Inl e \<Rightarrow> (Some (ErrUnmarshal e), c)
      | Inr dwr \<Rightarrow>
          (case DWA_Marshal (answerDWA (c_config c) dwr) of
             Inl e \<Rightarrow> (Some (ErrMarshal e), c)
           | Inr (dwa, dwaData) \<Rightarrow>
               if length (c_sendCh c) < SendBufferSize (c_config c)
               then (None, c\<lparr>c_sendCh := c_sendCh c @ [dwaData], c_lastActivity := now\<rparr>)
               else (Some ErrCtxDone, c)))"

definition forwardToRecv :: "Message \<Rightarrow> Connection \<Rightarrow> conn_error option \<times> Connection" where
  "forwardToRecv data c =
     (if length (c_recvCh c) < RecvBufferSize (c_config c)
      then (None, c\<lparr>c_recvCh := c_recvCh c @ [data]\<rparr>)
      else if c_ctxDone c then (Some ErrCtxDone, c)
      else (None, c))"

definition dispatchMessage :: "int \<Rightarrow> Message \<Rightarrow> Connection \<Rightarrow> conn_error option \<times> Connection" where
  "dispatchMessage now data c =
     (case ParseMessageHeader (msg_Header data) of
        Inl e \<Rightarrow> (Some (ErrInvalidHeader e), c)
      | Inr info \<Rightarrow>
          if IsBaseProtocol info \<and> GetMessageType info = 257 \<and> \<not> mi_IsRequest info
          then (None, deliverResponse (mi_HopByHopID info) data c)
          else if IsBaseProtocol info \<and> GetMessageType info = 280
          then (if mi_IsRequest info then handleDWR now data c
                else (None, deliverResponse (mi_HopByHopID info) data c))
          else forwardToRecv data c)"

text \<open>One message off the wire, as the read loop of a generation handles it.\<close>

definition readLoopMessage :: "u64 \<Rightarrow> int \<Rightarrow> Message \<Rightarrow> Connection \<Rightarrow> Connection" where
  "readLoopMessage generation now message c =
     (if \<not> isCurrentGeneration generation c then c
      else snd (dispatchMessage now message
        (c\<lparr>c_MessagesReceived := c_MessagesReceived c + 1,
           c_BytesReceived := c_BytesReceived c + ucast (msg_Length message)\<rparr>)))"

section \<open>Binding the source port\<close>

text \<open>
  \<open>dial ip port\<close> is one \<^verbatim>\<open>DialContext\<close> with that local address (port 0 leaves the choice to the
  system): a socket, \<^verbatim>\<open>EADDRINUSE\<close>, or another error.
\<close>

datatype dial_result = DialOK nat | DialAddrInUse | DialErr

datatype bind_error = InvalidLocalAddr | NoAvailableLocalPort int int | DialFailed | DivisionPanic

fun scanPorts :: "int \<Rightarrow> int \<Rightarrow> (int \<Rightarrow> dial_result) \<Rightarrow> int list \<Rightarrow> (bind_error, nat) result" where
  "scanPorts lo hi dial [] = Inl (NoAvailableLocalPort lo hi)"
| "scanPorts lo hi dial (port # rest) =
     (case dial port of
        DialOK s \<Rightarrow> Inr s
      | DialAddrInUse \<Rightarrow> scanPorts lo hi dial rest
      | DialErr \<Rightarrow> Inl DialFailed)"

definition scanOrder :: "int \<Rightarrow> int \<Rightarrow> u32 \<Rightarrow> int list" where
  "scanOrder lo hi start =
     (let count = hi - lo + 1; startOff = uint start mod count
      in map (\<lambda>i. lo + (startOff + i) mod count) [0..count - 1])"

definition dialWithLocalBind ::
  "(gostring \<Rightarrow> bytes option) \<Rightarrow> (bytes option \<Rightarrow> int \<Rightarrow> dial_result) \<Rightarrow> Connection \<Rightarrow>
   (bind_error, nat) result \<times> Connection" where
  "dialWithLocalBind parseIP dial c =
     (let localIP = (if LocalAddr (c_config c) \<noteq> [] then parseIP (LocalAddr (c_config c)) else None)
      in if LocalAddr (c_config c) \<noteq> [] \<and> localIP = None then (Inl InvalidLocalAddr, c)
         else
           let lo = LocalPortMin (c_config c); hi = LocalPortMax (c_config c)
           in if lo \<le> 0 \<or> hi \<le> 0
              then (case dial localIP 0 of DialOK s \<Rightarrow> (Inr s, c) | _ \<Rightarrow> (Inl DialFailed, c))
              else
                let start = c_portScanStart c + 1; c1 = c\<lparr>c_portScanStart := start\<rparr>
                in if hi - lo + 1 = 0 then (Inl DivisionPanic, c1)
                   else (scanPorts lo hi (dial localIP) (scanOrder lo hi start), c1))"

section \<open>Backoff\<close>

definition initialDelay :: "DRAConfig \<Rightarrow> int" where
  "initialDelay config = (if ReconnectInterval config \<le> 0 then 1000000000 else ReconnectInterval config)"

definition maxDelay :: "DRAConfig \<Rightarrow> int" where
  "maxDelay config =
     (if MaxReconnectDelay config \<le> 0 then initialDelay config else MaxReconnectDelay config)"

text \<open>
  \<open>scale\<close> is the conversion \<^verbatim>\<open>time.Duration(float64(ceiling) * backoff)\<close>; nothing is assumed of it.
\<close>

definition nextCeiling :: "(int \<Rightarrow> int) \<Rightarrow> DRAConfig \<Rightarrow> int \<Rightarrow> int" where
  "nextCeiling scale config ceiling =
     (let next = scale ceiling
      in if next > maxDelay config \<or> next \<le> 0 then maxDelay config else next)"

definition ceilingAfter :: "(int \<Rightarrow> int) \<Rightarrow> DRAConfig \<Rightarrow> nat \<Rightarrow> int" where
  "ceilingAfter scale config failures = (nextCeiling scale config ^^ failures) (initialDelay config)"

section \<open>Lemmas\<close>

lemma setState_simps [simp]:
  "c_state (setState s c) = s" "c_conn (setState s c) = c_conn c"
  "c_boundLocalAddr (setState s c) = c_boundLocalAddr c" "c_held (setState s c) = c_held c"
  "c_config (setState s c) = c_config c" "c_ctxDone (setState s c) = c_ctxDone c"
  "c_reconnecting (setState s c) = c_reconnecting c" "c_sockets (setState s c) = c_sockets c"
  "c_reconnectRequested (setState s c) = c_reconnectRequested c"
  "c_connGeneration (setState s c) = c_connGeneration c" "c_pending (setState s c) = c_pending c"
  "c_sendCh (setState s c) = c_sendCh c" "c_reconnectDisabled (setState s c) = c_reconnectDisabled c"
  "c_dwrTicker (setState s c) = c_dwrTicker c" "c_recvCh (setState s c) = c_recvCh c"
  by (simp_all add: setState_def)

lemma close_conn_simps [simp]:
  "c_conn (close_conn c) = None" "c_boundLocalAddr (close_conn c) = None"
  "c_state (close_conn c) = c_state c" "c_ctxDone (close_conn c) = c_ctxDone c"
  "c_config (close_conn c) = c_config c" "c_reconnecting (close_conn c) = c_reconnecting c"
  "c_reconnectRequested (close_conn c) = c_reconnectRequested c"
  "c_dwrTicker (close_conn c) = False" "c_reconnectDisabled (close_conn c) = c_reconnectDisabled c"
  "c_pending (close_conn c) = c_pending c" "c_sendCh (close_conn c) = c_sendCh c"
  by (simp_all add: close_conn_def stopWatchdog_def ReleaseLocalAddr_def Let_def split: option.split)

lemma close_conn_held:
  "hasReleaseLocalAddr (c_config c) \<Longrightarrow> c_held (close_conn c) =
     (case c_boundLocalAddr c of None \<Rightarrow> c_held c | Some port \<Rightarrow> remove1 port (c_held c))"
  by (simp add: close_conn_def stopWatchdog_def ReleaseLocalAddr_def Let_def split: option.split)

lemma close_conn_sockets:
  "c_sockets (close_conn c) = (case c_conn c of None \<Rightarrow> c_sockets c | Some s \<Rightarrow> c_sockets c - {s})"
  by (simp add: close_conn_def stopWatchdog_def ReleaseLocalAddr_def Let_def split: option.split)

text \<open>
  \<^verbatim>\<open>close\<close> may run twice on a failure path: the second run changes nothing, so the socket is
  closed once, the generation advances once and the source port is returned once.
\<close>

theorem close_conn_idempotent: "close_conn (close_conn c) = close_conn c"
proof -
  have "close_conn d = d"
    if "c_conn d = None" "c_boundLocalAddr d = None" "\<not> c_dwrTicker d" for d
    using that by (cases d) (simp add: close_conn_def stopWatchdog_def)
  then show ?thesis by simp
qed

lemma scanOrder_perm:
  assumes "lo \<le> hi"
  shows "distinct (scanOrder lo hi start) \<and> set (scanOrder lo hi start) = {lo..hi}"
proof -
  let ?n = "hi - lo + 1" let ?f = "\<lambda>i. lo + (uint start mod ?n + i) mod ?n"
  have inj: "inj_on ?f {0..?n - 1}"
  proof (rule inj_onI)
    fix i j assume ij: "i \<in> {0..?n - 1}" "j \<in> {0..?n - 1}" "?f i = ?f j"
    then have "(uint start mod ?n + i) mod ?n = (uint start mod ?n + j) mod ?n"
      by simp
    then have "?n dvd i - j"
      by (simp only: mod_eq_dvd_iff add_diff_cancel_left)
    then have "i mod ?n = j mod ?n"
      by (simp only: mod_eq_dvd_iff)
    then show "i = j"
      using ij by (auto simp: mod_pos_pos_trivial)
  qed
  have "?f ` {0..?n - 1} \<subseteq> {lo..hi}"
  proof
    fix x assume "x \<in> ?f ` {0..?n - 1}"
    then obtain i where "x = ?f i" by auto
    then show "x \<in> {lo..hi}"
      using assms pos_mod_bound [of ?n "uint start mod ?n + i"] pos_mod_sign [of ?n "uint start mod ?n + i"]
      by auto
  qed
  moreover have "card (?f ` {0..?n - 1}) = card {lo..hi}"
    unfolding card_image [OF inj] using assms by simp
  ultimately have "?f ` {0..?n - 1} = {lo..hi}"
    by (simp add: card_subset_eq)
  then show ?thesis
    using inj by (simp add: scanOrder_def Let_def distinct_map)
qed

lemma scanPorts_result:
  "scanPorts lo hi dial ports = Inr s \<Longrightarrow> \<exists>p \<in> set ports. dial p = DialOK s"
  "scanPorts lo hi dial ports = Inl (NoAvailableLocalPort a b) \<Longrightarrow> \<forall>p \<in> set ports. dial p = DialAddrInUse"
  by (induction ports) (auto split: dial_result.splits)

text \<open>
  With a configured port range the dialer never uses a source port outside it and never gives
  up early: every dial binds a port of the range, each port is tried at most once per call, and
  the error for an exhausted range is returned only if every port of the range is in use.
\<close>

theorem dialWithLocalBind_range:
  assumes "dialWithLocalBind parseIP dial c = (r, c')"
    and "0 < LocalPortMin (c_config c)" and "LocalPortMin (c_config c) \<le> LocalPortMax (c_config c)"
    and "LocalAddr (c_config c) = []"
  shows "distinct (scanOrder (LocalPortMin (c_config c)) (LocalPortMax (c_config c)) (c_portScanStart c')) \<and>
    (\<forall>s. r = Inr s \<longrightarrow>
       (\<exists>port \<in> {LocalPortMin (c_config c)..LocalPortMax (c_config c)}. dial None port = DialOK s)) \<and>
    (\<forall>a b. r = Inl (NoAvailableLocalPort a b) \<longrightarrow>
       (\<forall>port \<in> {LocalPortMin (c_config c)..LocalPortMax (c_config c)}. dial None port = DialAddrInUse))"
proof -
  let ?lo = "LocalPortMin (c_config c)" and ?hi = "LocalPortMax (c_config c)"
  have "c_portScanStart c' = c_portScanStart c + 1"
    and r: "r = scanPorts ?lo ?hi (dial None) (scanOrder ?lo ?hi (c_portScanStart c + 1))"
    using assms by (auto simp: dialWithLocalBind_def Let_def)
  then show ?thesis
    using scanOrder_perm [OF assms(3), of "c_portScanStart c + 1"] scanPorts_result [of ?lo ?hi "dial None"]
    by metis
qed

lemma initialDelay_pos: "0 < initialDelay config"
  by (simp add: initialDelay_def)

lemma maxDelay_pos: "0 < maxDelay config"
  using initialDelay_pos [of config] by (simp add: maxDelay_def)

text \<open>
  The reconnect backoff stays within its bounds for ever, whatever the multiplier does,
  including overflow of the float conversion: after any number of failures the ceiling is
  positive, at most the initial delay or the configured maximum, and after the first failure at
  most the maximum. \<^verbatim>\<open>rand.Int63n\<close> is therefore never called with a non-positive bound by a
  ceiling that is too small.
\<close>

theorem backoff_bounded:
  "0 < ceilingAfter scale config n \<and>
   ceilingAfter scale config n \<le> max (initialDelay config) (maxDelay config) \<and>
   ceilingAfter scale config (Suc n) \<le> maxDelay config"
proof -
  have step: "0 < nextCeiling scale config x \<and> nextCeiling scale config x \<le> maxDelay config" for x
    using maxDelay_pos by (simp add: nextCeiling_def Let_def)
  show ?thesis
    using step initialDelay_pos [of config]
    by (cases n) (auto simp: ceilingAfter_def le_max_iff_disj)
qed

definition example_conn :: Connection where
  "example_conn = NewConnection
     \<lparr>Host = [104], Port = 3868, LocalAddr = [], LocalPortMin = 5000, LocalPortMax = 5002,
      OriginHost = [103, 119], OriginRealm = [114], ProductName = [71], VendorID = 10415,
      ConnectionCount = 1, DWRInterval = 30, DWRTimeout = 10, MaxDWRFailures = 3,
      ReconnectInterval = 5, MaxReconnectDelay = 300, SendBufferSize = 10, RecvBufferSize = 10,
      AuthAppIDs = [], AcctAppIDs = [], hasAcquireLocalAddr = True, hasReleaseLocalAddr = True\<rparr>"

theorem dialWithLocalBind_range_witness:
  "fst (dialWithLocalBind (\<lambda>_. None) (\<lambda>ip port. if port = 5001 then DialAddrInUse else DialOK (nat port))
     example_conn) = Inr 5002 \<and>
   distinct (scanOrder 5000 5002 1)"
proof -
  let ?d = "\<lambda>ip port. if port = 5001 then DialAddrInUse else DialOK (nat port)"
  obtain r c' where d: "dialWithLocalBind (\<lambda>_. None) ?d example_conn = (r, c')"
    by (cases "dialWithLocalBind (\<lambda>_. None) ?d example_conn")
  have "c_portScanStart c' = 1" "r = Inr 5002"
    using d by (auto simp: dialWithLocalBind_def example_conn_def NewConnection_def scanOrder_def Let_def
        upto.simps)
  then show ?thesis
    using dialWithLocalBind_range [OF d] d by (simp add: example_conn_def NewConnection_def)
qed

section \<open>Messages the connection sends and accepts\<close>

text \<open>Unmarshalling into a fresh message and into the zero value give the same result.\<close>

lemma Unmarshal_New [simp]:
  "CER_Unmarshal bs NewCapabilitiesExchangeRequest = CER_Unmarshal bs CER_zero"
  "DWR_Unmarshal bs NewDeviceWatchdogRequest = DWR_Unmarshal bs DWR_zero"
  by (simp_all add: CER_Unmarshal_def DWR_Unmarshal_def unmarshalMessage_def
      NewCapabilitiesExchangeRequest_def NewDeviceWatchdogRequest_def split: sum.split)

lemma padded_length_le: "padded_length n \<le> n + 3"
proof (cases "n mod 4 = 0")
  case False
  then have "1 \<le> n mod 4" by simp
  then show ?thesis
    by (simp add: padded_length_def)
qed (simp add: padded_length_def)

lemma length_writeAVPs_repeated:
  assumes "\<And>v. v \<in> set vs \<Longrightarrow> length (Serialize (iface (con v))) \<le> n"
  shows "length (writeAVPs (repeated code con mandatory vs)) \<le> length vs * (n + 11)"
  using assms
proof (induction vs)
  case (Cons v vs)
  have "length (marshalAVP code (con v) mandatory False) \<le> n + 11"
    using padded_length_le [of "8 + length (Serialize (iface (con v)))"] Cons.prems [of v]
    by (simp add: length_marshalAVP)
  then show ?case
    using Cons by (simp add: repeated_def)
qed (simp add: repeated_def)

lemma length_Address_Serialize_le: "length ip \<le> 16 \<Longrightarrow> length (Address_Serialize ip) \<le> 18"
  by (auto simp: Address_Serialize_def To4_def split: option.split)

text \<open>
  A watchdog request from the peer is answered at once and correctly: if it decodes and the
  send channel has room, the message put in the channel decodes to a DWA with Result-Code 2001,
  this node's identity and the Hop-by-Hop and End-to-End ids of the request.
\<close>

theorem handleDWR_answers:
  assumes "DWR_Unmarshal (msg_Header data @ msg_Body data) DWR_zero = Inr dwr"
    and "OriginHost (c_config c) \<noteq> []" and "OriginRealm (c_config c) \<noteq> []"
    and "length (OriginHost (c_config c)) + length (OriginRealm (c_config c)) < 2 ^ 20"
    and "length (c_sendCh c) < SendBufferSize (c_config c)"
  shows "\<exists>bs dwa. handleDWR now data c =
      (None, c\<lparr>c_sendCh := c_sendCh c @ [bs], c_lastActivity := now\<rparr>) \<and>
    DWA_Unmarshal bs DWA_zero = Inr dwa \<and> dwa_ResultCode dwa = 2001 \<and>
    dwa_OriginHost dwa = OriginHost (c_config c) \<and>
    hdr_HopByHopID (dwa_Header dwa) = hdr_HopByHopID (dwr_Header dwr) \<and>
    hdr_EndToEndID (dwa_Header dwa) = hdr_EndToEndID (dwr_Header dwr)"
proof -
  let ?a = "answerDWA (c_config c) dwr"
  note defs = answerDWA_def NewDeviceWatchdogAnswer_def DWA_zero_def new_header_def zero_header_def
  have v: "DWA_Validate ?a = None"
    using assms(2,3) by (simp add: DWA_Validate_def answerDWA_def)
  obtain h bs where m: "DWA_Marshal ?a = Inr (?a\<lparr>dwa_Header := h\<rparr>, bs)"
    and l: "length bs = 20 + length (writeAVPs (DWA_writes ?a))"
    using dwa.Marshal_total [OF v] by blast
  have h: "h = (dwa_Header ?a)\<lparr>hdr_Length := word_of_nat (length bs)\<rparr>"
    using dwa.Marshal_cases(2) [OF m] by (metis dwa.header_set)
  note pad = padded_length_le
  have "length (writeAVPs (DWA_writes ?a)) \<le> 12 + (8 + length (OriginHost (c_config c)) + 3) +
      (8 + length (OriginRealm (c_config c)) + 3)"
    using pad [of "8 + length (OriginHost (c_config c))"] pad [of "8 + length (OriginRealm (c_config c))"]
      pad [of 12]
    by (simp add: DWA_writes_def defs length_marshalAVP optional_def FailedAVP_writes_def Let_def
        padded_length_def [of 12])
  then have "DWA_Unmarshal bs DWA_zero = Inr (?a\<lparr>dwa_Header := h\<rparr>)"
    using l assms(4)
    by (intro dwa.Unmarshal_Marshal [OF m]) (simp_all add: DWA_faithful_def faithful_FailedAVP_def defs)
  then show ?thesis
    using m assms(1,5) h
    by (intro exI [of _ bs] exI [of _ "?a\<lparr>dwa_Header := h\<rparr>"]) (simp add: handleDWR_def answerDWA_def)
qed

theorem handleDWR_answers_witness:
  "\<exists>bs dwa. snd (handleDWR 5 \<lparr>msg_Length = 20, msg_Header = marshalHeader
        \<lparr>hdr_Version = 1, hdr_Length = 20, hdr_Flags = decode_flags 0x80, hdr_CommandCode = 280,
         hdr_ApplicationID = 0, hdr_HopByHopID = 77, hdr_EndToEndID = 78\<rparr>, msg_Body = []\<rparr> example_conn) =
      example_conn\<lparr>c_sendCh := [bs], c_lastActivity := 5\<rparr> \<and>
    DWA_Unmarshal bs DWA_zero = Inr dwa \<and> hdr_HopByHopID (dwa_Header dwa) = 77"
proof -
  let ?h = "\<lparr>hdr_Version = 1, hdr_Length = 20, hdr_Flags = decode_flags 0x80, hdr_CommandCode = 280,
         hdr_ApplicationID = 0, hdr_HopByHopID = 77, hdr_EndToEndID = 78\<rparr>"
  let ?m = "\<lparr>msg_Length = 20, msg_Header = marshalHeader ?h, msg_Body = []\<rparr>"
  have "DWR_Unmarshal (msg_Header ?m @ msg_Body ?m) DWR_zero = Inr (DWR_zero\<lparr>dwr_Header := ?h\<rparr>)"
    using unmarshalHeader_append [of ?h "[]"]
    by (simp add: DWR_Unmarshal_def unmarshalMessage_def)
  from handleDWR_answers [OF this, of example_conn 5] show ?thesis
    by (auto simp: example_conn_def NewConnection_def)
qed

lemma dispatch_answer:
  assumes "length (msg_Header data) = 20" and "msg_Header data = marshalHeader h"
    and "hdr_Version h = 1" and "20 \<le> take_bit 24 (hdr_Length h)"
    and "take_bit 24 (hdr_CommandCode h) \<in> {257, 280}" and "hdr_ApplicationID h = 0"
    and "\<not> fl_Request (hdr_Flags h)"
  shows "dispatchMessage now data c = (None, deliverResponse (hdr_HopByHopID h) data c)"
proof -
  have "unmarshalHeader (msg_Header data) = Inr (h\<lparr>hdr_Length := take_bit 24 (hdr_Length h),
      hdr_CommandCode := take_bit 24 (hdr_CommandCode h)\<rparr>)"
    using unmarshalHeader_append [of h "[]"] assms(2) by simp
  then have "ParseMessageHeader (msg_Header data) = Inr (info_of_header
      (h\<lparr>hdr_Length := take_bit 24 (hdr_Length h),
         hdr_CommandCode := take_bit 24 (hdr_CommandCode h)\<rparr>))"
    using assms(3,4) by (simp add: ParseMessageHeader_unmarshalHeader not_less)
  then show ?thesis
    using assms(5-7)
    by (auto simp: dispatchMessage_def info_of_header_def IsBaseProtocol_def GetMessageType_def)
qed

context generated_message
begin

lemma answer_dispatched:
  assumes m: "Marshal m = Inr (m', bs)" and len: "length bs < 2 ^ 24"
    and "hdr_Version (header m) = 1" and "hdr_CommandCode (header m) \<in> {257, 280}"
    and "hdr_ApplicationID (header m) = 0" and "\<not> fl_Request (hdr_Flags (header m))"
    and "c_pending c (hdr_HopByHopID (header m)) = Some None"
  shows "\<exists>msg. ReadMessage (bs @ rest) = ((Some msg, None), rest) \<and>
    dispatchMessage now msg c =
      (None, c\<lparr>c_pending := (c_pending c)(hdr_HopByHopID (header m) \<mapsto> Some bs)\<rparr>)"
proof -
  note cs = Marshal_cases [OF m]
  have hl: "header m' = (header m)\<lparr>hdr_Length := word_of_nat (length bs)\<rparr>"
    using cs(2) by (simp add: header_set)
  have l20: "20 \<le> length bs" and u: "unat (announced (bs @ rest)) = length bs"
    using Marshal_length [OF m] announced_Marshal [OF m len] by blast+
  have "20 \<le> announced (bs @ rest)"
    using l20 u by (simp add: word_le_nat_alt)
  then obtain msg where r: "ReadMessage (bs @ rest) = ((Some msg, None), rest)"
    and hb: "msg_Header msg = take 20 bs" "msg_Body msg = drop 20 bs"
    using ReadMessage_exact [of "bs @ rest"] u l20 by (simp add: bslice_def)
  have t20: "take 20 bs = marshalHeader (header m')"
    by (subst cs(3)) simp
  have "20 \<le> take_bit 24 (hdr_Length (header m'))"
    using len l20 unat_take_bit_24 [of "length bs"] by (simp add: hl word_le_nat_alt)
  then have "dispatchMessage now msg c = (None, deliverResponse (hdr_HopByHopID (header m')) msg c)"
    using assms(3-6) hb t20
    by (intro dispatch_answer [where h = "header m'"]) (auto simp: hl)
  then show ?thesis
    using r assms(7) hb by (simp add: deliverResponse_def hl)
qed

end

text \<open>
  A complete watchdog round on the requesting side: a DWA the peer marshalled is cut from the
  stream, handed to the request that waits for its Hop-by-Hop id and to no other, and if its
  Result-Code is in the success range the connection returns to the open state with its failure
  counter cleared.
\<close>

theorem watchdog_answer_accepted:
  assumes "DWA_Marshal m = Inr (m', bs)" and "length bs < 2 ^ 24" and "DWA_faithful m"
    and "hdr_Version (dwa_Header m) = 1" and "hdr_CommandCode (dwa_Header m) = 280"
    and "hdr_ApplicationID (dwa_Header m) = 0" and "\<not> fl_Request (hdr_Flags (dwa_Header m))"
    and "c_pending c (hdr_HopByHopID (dwa_Header m)) = Some None" and "IsSuccess (dwa_ResultCode m)"
  shows "\<exists>msg. ReadMessage (bs @ rest) = ((Some msg, None), rest) \<and>
    dispatchMessage now msg c =
      (None, c\<lparr>c_pending := (c_pending c)(hdr_HopByHopID (dwa_Header m) \<mapsto> Some bs)\<rparr>) \<and>
    handleDWA now bs c = (None, (setState StateOpen c)\<lparr>c_lastActivity := now, c_dwrFailureCount := 0\<rparr>)"
proof -
  have "DWA_Unmarshal bs DWA_zero = Inr m'" "dwa_ResultCode m' = dwa_ResultCode m"
    using dwa.Unmarshal_Marshal [OF assms(1,3,2)] dwa.Marshal_cases(2) [OF assms(1)] assms(5)
    by simp_all
  then show ?thesis
    using dwa.answer_dispatched [OF assms(1,2,4) _ assms(6-8), of rest now] assms(5,9)
    by (auto simp: handleDWA_def)
qed

theorem watchdog_answer_accepted_witness:
  "\<exists>m' bs. DWA_Marshal (NewDeviceWatchdogAnswer\<lparr>dwa_ResultCode := 2001, dwa_OriginHost := [103],
       dwa_OriginRealm := [114]\<rparr>) = Inr (m', bs) \<and>
     c_state (snd (handleDWA 9 bs (registerPending 0 example_conn))) = StateOpen"
proof -
  let ?m = "NewDeviceWatchdogAnswer\<lparr>dwa_ResultCode := 2001, dwa_OriginHost := [103],
       dwa_OriginRealm := [114]\<rparr>"
  note defs = NewDeviceWatchdogAnswer_def DWA_zero_def new_header_def zero_header_def
  have v: "DWA_Validate ?m = None"
    by (simp add: DWA_Validate_def)
  have w: "length (writeAVPs (DWA_writes ?m)) = 36"
    by (simp add: DWA_writes_def defs wire_length)
  obtain h bs where m: "DWA_Marshal ?m = Inr (?m\<lparr>dwa_Header := h\<rparr>, bs)"
    and l: "length bs = 20 + length (writeAVPs (DWA_writes ?m))"
    using dwa.Marshal_total [OF v] by blast
  have "c_pending (registerPending 0 example_conn) (hdr_HopByHopID (dwa_Header ?m)) = Some None"
    by (simp add: registerPending_def defs)
  then show ?thesis
    using watchdog_answer_accepted [OF m, of "registerPending 0 example_conn" "[]" 9] m l w
    by (auto simp: DWA_faithful_def faithful_FailedAVP_def defs IsSuccess_def)
qed

end
