(* ===== verification/Conn_Pool.thy ===== *)
theory Conn_Pool
  imports Client_Conn "HOL-Library.Multiset"
begin

text \<open>
  The pool of connections to one agent (\<^verbatim>\<open>client/connection_pool.go\<close>): round-robin sending over the
  active connections, sending to a named one, the aggregation of received messages, the queries
  and \<^verbatim>\<open>Close\<close>. The contract of everything one can send to is the locale \<open>message_sink\<close>: an accepted
  message is queued exactly once, a refused one not at all. Connections and pools satisfy it here,
  the pool over several agents in its own theory.
\<close>

section \<open>Decimal numbers\<close>

text \<open>\<^verbatim>\<open>%d\<close> of \<^verbatim>\<open>fmt.Sprintf\<close>.\<close>

fun digits :: "nat \<Rightarrow> gostring" where
  "digits n = (if n < 10 then [48 + word_of_nat n] else digits (n div 10) @ [48 + word_of_nat (n mod 10)])"

declare digits.simps [simp del]

definition itoa :: "int \<Rightarrow> gostring" where
  "itoa i = (if i < 0 then 45 # digits (nat (- i)) else digits (nat i))"

definition value_of :: "gostring \<Rightarrow> nat" where
  "value_of s = foldl (\<lambda>v d. 10 * v + unat (d - 48)) 0 s"

lemma value_of_digits: "value_of (digits n) = n"
proof (induction n rule: digits.induct)
  case (1 n)
  have d: "unat (48 + word_of_nat k - 48 :: byte) = k" if "k < 10" for k
    using that by (simp add: unsigned_of_nat take_bit_nat_eq_self)
  show ?case
  proof (cases "n < 10")
    case True
    then show ?thesis
      using d [of n] by (simp add: digits.simps [of n] value_of_def)
  next
    case False
    then show ?thesis
      using 1 d [of "n mod 10"] by (simp add: digits.simps [of n] value_of_def)
  qed
qed

lemma digits_inj: "digits m = digits n \<longleftrightarrow> m = n"
  using value_of_digits by metis

section \<open>The pool\<close>

datatype send_error =
    ErrPoolClosed
  | ErrNoActiveConnections
  | ErrConnection conn_error
  | ErrConnNotFound gostring
  | ErrNoDRAs int
  | ErrAllDRAs int
  | ErrDRANotFound gostring
  | ErrDRANotHealthy gostring
  | DivideByZero
  | NilDereference

record ConnectionPool =
  cp_config :: DRAConfig
  cp_connections :: "(gostring \<times> Connection) list"
  cp_nextConnIdx :: u32
  cp_closed :: bool
  cp_recvCh :: "Message list"

text \<open>\<^verbatim>\<open>fmt.Sprintf("%s:%d-conn%d", config.Host, config.Port, i)\<close>\<close>

definition connID :: "DRAConfig \<Rightarrow> nat \<Rightarrow> gostring" where
  "connID config i = Host config @ [58] @ itoa (Port config) @ [45, 99, 111, 110, 110] @ digits i"

definition NewConnectionPool ::
  "(gostring \<Rightarrow> bytes option) \<Rightarrow> DRAConfig \<Rightarrow> (config_error, ConnectionPool) result" where
  "NewConnectionPool parseIP config =
     (case DRAConfig_Validate parseIP config of
        Some err \<Rightarrow> Inl err
      | None \<Rightarrow> Inr \<lparr>cp_config = config,
          cp_connections = map (\<lambda>i. (connID config i, NewConnection config))
            [0..<nat (ConnectionCount config)],
          cp_nextConnIdx = 0, cp_closed = False, cp_recvCh = []\<rparr>)"

text \<open>\<^verbatim>\<open>conn.Send(data)\<close> on the connection at an index: the others are left alone.\<close>

definition sendOn :: "nat \<Rightarrow> bytes \<Rightarrow> ConnectionPool \<Rightarrow> send_error option \<times> ConnectionPool" where
  "sendOn idx data p =
     (case cp_connections p ! idx of
        (name, conn) \<Rightarrow>
          (case Send data conn of
             (r, conn') \<Rightarrow> (map_option ErrConnection r,
               p\<lparr>cp_connections := (cp_connections p)[idx := (name, conn')]\<rparr>)))"

text \<open>The indices the loop of \<^verbatim>\<open>Send\<close> visits; the additions are those of \<^verbatim>\<open>uint32\<close>.\<close>

definition rotation :: "u32 \<Rightarrow> nat \<Rightarrow> nat list" where
  "rotation start n =
     map (\<lambda>i. unat ((start + word_of_nat i) mod (word_of_nat n :: u32))) [0..<n]"

definition connActive :: "ConnectionPool \<Rightarrow> nat \<Rightarrow> bool" where
  "connActive p idx = IsActive (snd (cp_connections p ! idx))"

definition cp_Send :: "bytes \<Rightarrow> ConnectionPool \<Rightarrow> send_error option \<times> ConnectionPool" where
  "cp_Send data p =
     (if cp_closed p then (Some ErrPoolClosed, p)
      else
        let next = cp_nextConnIdx p + 1;
            p1 = p\<lparr>cp_nextConnIdx := next\<rparr>;
            n = length (cp_connections p)
        in if (word_of_nat n :: u32) = 0 then (Some DivideByZero, p1)
           else
             let startIdx = next mod word_of_nat n
             in case List.find (connActive p1) (rotation startIdx n) of
                  Some idx \<Rightarrow> sendOn idx data p1
                | None \<Rightarrow> (Some ErrNoActiveConnections, p1))"

definition SendRoundRobin :: "bytes \<Rightarrow> ConnectionPool \<Rightarrow> send_error option \<times> ConnectionPool" where
  "SendRoundRobin data p =
     (if cp_closed p then (Some ErrPoolClosed, p)
      else
        let next = cp_nextConnIdx p + 1;
            p1 = p\<lparr>cp_nextConnIdx := next\<rparr>;
            n = length (cp_connections p)
        in if (word_of_nat n :: u32) = 0 then (Some DivideByZero, p1)
           else
             let idx = unat (next mod word_of_nat n)
             in if \<not> connActive p1 idx then cp_Send data p1 else sendOn idx data p1)"

definition findConn :: "gostring \<Rightarrow> ConnectionPool \<Rightarrow> nat option" where
  "findConn cid p = List.find (\<lambda>i. fst (cp_connections p ! i) = cid) [0..<length (cp_connections p)]"

definition SendToConnection ::
  "gostring \<Rightarrow> bytes \<Rightarrow> ConnectionPool \<Rightarrow> send_error option \<times> ConnectionPool" where
  "SendToConnection cid data p =
     (if cp_closed p then (Some ErrPoolClosed, p)
      else case findConn cid p of
             Some idx \<Rightarrow> sendOn idx data p
           | None \<Rightarrow> (Some (ErrConnNotFound cid), p))"

definition GetActiveConnections :: "ConnectionPool \<Rightarrow> (gostring \<times> Connection) list" where
  "GetActiveConnections p = filter (IsActive \<circ> snd) (cp_connections p)"

definition GetConnection :: "gostring \<Rightarrow> ConnectionPool \<Rightarrow> Connection option" where
  "GetConnection cid p = map_option (\<lambda>i. snd (cp_connections p ! i)) (findConn cid p)"

definition GetConnectionStates :: "ConnectionPool \<Rightarrow> gostring \<rightharpoonup> ConnectionState" where
  "GetConnectionStates p =
     foldl (\<lambda>m (name, conn). m(name \<mapsto> c_state conn)) Map.empty (cp_connections p)"

definition cp_IsHealthy :: "ConnectionPool \<Rightarrow> bool" where
  "cp_IsHealthy p \<longleftrightarrow> list_ex (IsActive \<circ> snd) (cp_connections p)"

definition countActive :: "ConnectionPool \<Rightarrow> nat" where
  "countActive p = length (filter (IsActive \<circ> snd) (cp_connections p))"

text \<open>One message moved by the aggregator goroutine of a connection.\<close>

definition aggregate :: "nat \<Rightarrow> ConnectionPool \<Rightarrow> ConnectionPool" where
  "aggregate idx p =
     (case cp_connections p ! idx of
        (name, conn) \<Rightarrow>
          (case c_recvCh conn of
             [] \<Rightarrow> p
           | msg # rest \<Rightarrow>
               let p1 = p\<lparr>cp_connections := (cp_connections p)[idx := (name, conn\<lparr>c_recvCh := rest\<rparr>)]\<rparr>
               in if length (cp_recvCh p) < RecvBufferSize (cp_config p) * nat (ConnectionCount (cp_config p))
                  then p1\<lparr>cp_recvCh := cp_recvCh p @ [msg]\<rparr>
                  else p1))"

definition cp_Close :: "ConnectionPool \<Rightarrow> ConnectionPool" where
  "cp_Close p =
     (if cp_closed p then p
      else p\<lparr>cp_closed := True, cp_connections := map (\<lambda>(name, conn). (name, Close conn)) (cp_connections p)\<rparr>)"

section \<open>Sinks\<close>

text \<open>
  What a sender promises: \<open>queued\<close> is everything in its send channels. A sender either takes a
  message, once, or reports an error and keeps its channels as they were.
\<close>

text \<open>A sequence of sends; the result lists the accepted messages.\<close>

primrec send_all :: "(bytes \<Rightarrow> 's \<Rightarrow> 'e option \<times> 's) \<Rightarrow> bytes list \<Rightarrow> 's \<Rightarrow> bytes list \<times> 's" where
  "send_all send [] s = ([], s)"
| "send_all send (d # ds) s =
     (case send d s of
        (r, s1) \<Rightarrow> (case send_all send ds s1 of
          (taken, s2) \<Rightarrow> (if r = None then d # taken else taken, s2)))"

locale message_sink =
  fixes send :: "bytes \<Rightarrow> 's \<Rightarrow> 'e option \<times> 's"
    and queued :: "'s \<Rightarrow> bytes multiset"
    and inv :: "'s \<Rightarrow> bool"
  assumes inv_send: "inv s \<Longrightarrow> send d s = (r, s') \<Longrightarrow> inv s'"
    and send_accepted: "inv s \<Longrightarrow> send d s = (None, s') \<Longrightarrow> queued s' = add_mset d (queued s)"
    and send_refused: "inv s \<Longrightarrow> send d s = (Some e, s') \<Longrightarrow> queued s' = queued s"
begin

lemma inv_send_all: "inv s \<Longrightarrow> send_all send ds s = (taken, s') \<Longrightarrow> inv s'"
  by (induction ds arbitrary: s taken s') (auto dest: inv_send split: prod.splits if_splits)

lemma send_all_exact:
  "inv s \<Longrightarrow> send_all send ds s = (taken, s') \<Longrightarrow> queued s' = queued s + mset taken"
proof (induction ds arbitrary: s taken s')
  case (Cons d ds)
  obtain r s1 taken1 where 1: "send d s = (r, s1)" "send_all send ds s1 = (taken1, s')"
    "taken = (if r = None then d # taken1 else taken1)"
    using Cons.prems(2) by (auto split: prod.splits)
  have "queued s' = queued s1 + mset taken1"
    using Cons.IH [OF inv_send [OF Cons.prems(1) 1(1)] 1(2)] .
  moreover have "queued s1 = (if r = None then add_mset d (queued s) else queued s)"
    using send_accepted send_refused Cons.prems(1) 1(1) by (cases r) auto
  ultimately show ?case
    using 1(3) by simp
qed simp

end

lemma send_all_taken: "send_all send ds s = (taken, s') \<Longrightarrow> mset taken \<subseteq># mset ds"
proof (induction ds arbitrary: s taken s')
  case (Cons d ds)
  then obtain r s1 taken1 where "send d s = (r, s1)" "send_all send ds s1 = (taken1, s')"
    "taken = (if r = None then d # taken1 else taken1)"
    by (auto split: prod.splits)
  then show ?case
    using Cons.IH [of s1 taken1 s'] subset_mset.order_trans [of "mset taken1" "mset ds" "add_mset d (mset ds)"]
    by (simp add: subset_mset.less_imp_le)
qed simp

section \<open>The rotation\<close>

lemma unat_rotate:
  fixes start :: u32
  assumes "unat start < n" and "i < n" and "n \<le> 2 ^ 31"
  shows "unat ((start + word_of_nat i) mod (word_of_nat n :: u32)) = (unat start + i) mod n"
proof -
  have "unat (start + word_of_nat i) = unat start + i"
    using assms by (simp add: unat_word_ariths unsigned_of_nat take_bit_nat_eq_self)
  then show ?thesis
    using assms by (simp add: unat_mod unsigned_of_nat take_bit_nat_eq_self)
qed

lemma rotation_eq:
  "unat start < n \<Longrightarrow> n \<le> 2 ^ 31 \<Longrightarrow> rotation start n = map (\<lambda>i. (unat start + i) mod n) [0..<n]"
  by (simp add: rotation_def unat_rotate)

lemma rotation_shift:
  "s < n \<Longrightarrow> map (\<lambda>i. (s + i) mod n) [0..<n] = [s..<n] @ [0..<s]"
  by (rule nth_equalityI) (auto simp: nth_append mod_if)

lemma set_rotation: "unat start < n \<Longrightarrow> n \<le> 2 ^ 31 \<Longrightarrow> set (rotation start n) = {0..<n}"
  by (auto simp: rotation_eq rotation_shift)

lemma distinct_rotation: "unat start < n \<Longrightarrow> n \<le> 2 ^ 31 \<Longrightarrow> distinct (rotation start n)"
  by (simp add: rotation_eq rotation_shift)

section \<open>Connections and pools are sinks\<close>

interpretation conn_sink: message_sink Send "\<lambda>c. mset (c_sendCh c)" "\<lambda>c. True"
  by unfold_locales (auto simp: Send_def split: if_splits)

definition cp_queued :: "ConnectionPool \<Rightarrow> bytes multiset" where
  "cp_queued p = sum_list (map (\<lambda>(name, conn). mset (c_sendCh conn)) (cp_connections p))"

definition cp_inv :: "ConnectionPool \<Rightarrow> bool" where
  "cp_inv p \<longleftrightarrow> cp_connections p \<noteq> [] \<and> length (cp_connections p) \<le> 2 ^ 31"

lemma sum_list_update_add:
  fixes f :: "'a \<Rightarrow> 'b multiset"
  shows "i < length xs \<Longrightarrow> sum_list (map f (xs[i := y])) + f (xs ! i) = sum_list (map f xs) + f y"
  by (induction xs arbitrary: i) (auto simp: nth_Cons split: nat.split)

lemma sendOn_queued:
  assumes "idx < length (cp_connections p)" and "sendOn idx d p = (r, p')"
  shows "cp_queued p' = (if r = None then add_mset d (cp_queued p) else cp_queued p)"
proof -
  obtain name conn r1 conn' where 1: "cp_connections p ! idx = (name, conn)" "Send d conn = (r1, conn')"
    "r = map_option ErrConnection r1" "p' = p\<lparr>cp_connections := (cp_connections p)[idx := (name, conn')]\<rparr>"
    using assms(2) by (auto simp: sendOn_def split: prod.splits)
  have "mset (c_sendCh conn') = (if r = None then add_mset d (mset (c_sendCh conn)) else mset (c_sendCh conn))"
    using conn_sink.send_accepted conn_sink.send_refused 1(2,3) by (cases r1) auto
  then show ?thesis
    using sum_list_update_add [OF assms(1), of "\<lambda>(name, conn). mset (c_sendCh conn)" "(name, conn')"] 1(1,4)
    by (auto simp: cp_queued_def)
qed

lemma sendOn_shape:
  "sendOn idx d p = (r, p') \<Longrightarrow> length (cp_connections p') = length (cp_connections p) \<and>
     map fst (cp_connections p') = map fst (cp_connections p) \<and> cp_closed p' = cp_closed p \<and>
     cp_config p' = cp_config p \<and> cp_nextConnIdx p' = cp_nextConnIdx p"
  by (auto simp: sendOn_def map_update split: prod.splits) (metis fst_conv list_update_id map_update)

lemma start_less:
  assumes "cp_inv p"
  shows "(word_of_nat (length (cp_connections p)) :: u32) \<noteq> 0"
    and "unat ((w :: u32) mod word_of_nat (length (cp_connections p))) =
      unat w mod length (cp_connections p)"
    and "unat ((w :: u32) mod word_of_nat (length (cp_connections p))) < length (cp_connections p)"
proof -
  let ?n = "length (cp_connections p)"
  have u: "unat (word_of_nat ?n :: u32) = ?n"
    using assms by (simp add: cp_inv_def unsigned_of_nat take_bit_nat_eq_self)
  moreover have "0 < ?n"
    using assms by (simp add: cp_inv_def)
  ultimately show "(word_of_nat ?n :: u32) \<noteq> 0"
    by (metis less_numeral_extra(3) unsigned_0)
  show "unat (w mod word_of_nat ?n) = unat w mod ?n" "unat (w mod word_of_nat ?n) < ?n"
    using u \<open>0 < ?n\<close> by (simp_all add: unat_mod)
qed

lemma cp_IsHealthy_nth: "cp_IsHealthy p \<longleftrightarrow> (\<exists>i<length (cp_connections p). connActive p i)"
  by (simp add: cp_IsHealthy_def list_ex_length connActive_def)

text \<open>The pool sends on the first active connection of the rotation, if there is one.\<close>

lemma cp_Send_cases:
  assumes "cp_inv p" and "\<not> cp_closed p"
  obtains (none) "\<not> cp_IsHealthy p"
      "cp_Send d p = (Some ErrNoActiveConnections, p\<lparr>cp_nextConnIdx := cp_nextConnIdx p + 1\<rparr>)"
  | (some) k where "k < length (cp_connections p)"
      "connActive p ((unat (cp_nextConnIdx p + 1) + k) mod length (cp_connections p))"
      "\<And>j. j < k \<Longrightarrow> \<not> connActive p ((unat (cp_nextConnIdx p + 1) + j) mod length (cp_connections p))"
      "cp_Send d p = sendOn ((unat (cp_nextConnIdx p + 1) + k) mod length (cp_connections p)) d
         (p\<lparr>cp_nextConnIdx := cp_nextConnIdx p + 1\<rparr>)"
proof -
  let ?n = "length (cp_connections p)" and ?w = "cp_nextConnIdx p + 1"
  let ?p1 = "p\<lparr>cp_nextConnIdx := ?w\<rparr>"
  let ?s = "?w mod word_of_nat ?n :: u32"
  note sl = start_less(1) [OF assms(1)] start_less(2,3) [OF assms(1), of ?w]
  have act: "connActive ?p1 = connActive p"
    by (simp add: connActive_def fun_eq_iff)
  have rot: "rotation ?s ?n = map (\<lambda>i. (unat ?w + i) mod ?n) [0..<?n]"
    using rotation_eq [OF sl(3)] assms(1) sl(2) by (simp add: cp_inv_def mod_add_left_eq)
  have send: "cp_Send d p = (case List.find (connActive p) (rotation ?s ?n) of
      Some idx \<Rightarrow> sendOn idx d ?p1 | None \<Rightarrow> (Some ErrNoActiveConnections, ?p1))"
    using assms(2) sl(1) by (simp add: cp_Send_def Let_def act)
  show thesis
  proof (cases "List.find (connActive p) (rotation ?s ?n)")
    case None
    have "set (rotation ?s ?n) = {0..<?n}"
      using set_rotation [OF sl(3)] assms(1) by (simp add: cp_inv_def)
    then have "\<not> cp_IsHealthy p"
      using None by (auto simp: find_None_iff cp_IsHealthy_nth)
    then show thesis
      using none None send by simp
  next
    case (Some idx)
    then obtain k where "k < ?n" "idx = (unat ?w + k) mod ?n" "connActive p idx"
      "\<forall>j<k. \<not> connActive p ((unat ?w + j) mod ?n)"
      unfolding rot find_Some_iff by auto
    then show thesis
      using some [of k] send Some by simp
  qed
qed

lemma cp_Send_sink:
  assumes "cp_inv p" and "cp_Send d p = (r, p')"
  shows "cp_inv p'" and "cp_queued p' = (if r = None then add_mset d (cp_queued p) else cp_queued p)"
    and "map fst (cp_connections p') = map fst (cp_connections p) \<and> cp_closed p' = cp_closed p"
proof -
  let ?p1 = "p\<lparr>cp_nextConnIdx := cp_nextConnIdx p + 1\<rparr>"
  have q: "cp_queued ?p1 = cp_queued p"
    by (simp add: cp_queued_def)
  have "cp_inv p' \<and> cp_queued p' = (if r = None then add_mset d (cp_queued p) else cp_queued p) \<and>
      map fst (cp_connections p') = map fst (cp_connections p) \<and> cp_closed p' = cp_closed p"
  proof (cases "cp_closed p")
    case True
    then show ?thesis
      using assms by (auto simp: cp_Send_def)
  next
    case False
    from assms(1) False show ?thesis
    proof (cases rule: cp_Send_cases [of p d])
      case none
      then show ?thesis
        using assms by (auto simp: q cp_inv_def)
    next
      case (some k)
      let ?i = "(unat (cp_nextConnIdx p + 1) + k) mod length (cp_connections p)"
      have i: "?i < length (cp_connections ?p1)" and s: "sendOn ?i d ?p1 = (r, p')"
        using assms some(4) by (simp_all add: cp_inv_def)
      show ?thesis
        using sendOn_queued [OF i s] sendOn_shape [OF s] assms(1) by (auto simp: q cp_inv_def)
    qed
  qed
  then show "cp_inv p'" "cp_queued p' = (if r = None then add_mset d (cp_queued p) else cp_queued p)"
    "map fst (cp_connections p') = map fst (cp_connections p) \<and> cp_closed p' = cp_closed p"
    by blast+
qed

interpretation pool_sink: message_sink cp_Send cp_queued cp_inv
  by unfold_locales (auto dest: cp_Send_sink)

section \<open>Fairness\<close>

text \<open>Every connection is up and its send channel has room for \<open>k\<close> more messages.\<close>

definition roomy :: "nat \<Rightarrow> ConnectionPool \<Rightarrow> bool" where
  "roomy k p \<longleftrightarrow> list_all (\<lambda>(name, conn). IsActive conn \<and>
     length (c_sendCh conn) + k \<le> SendBufferSize (c_config conn)) (cp_connections p)"

definition channel :: "ConnectionPool \<Rightarrow> nat \<Rightarrow> bytes list" where
  "channel p j = c_sendCh (snd (cp_connections p ! j))"

lemma cp_Send_roomy:
  assumes "cp_inv p" and "\<not> cp_closed p" and "roomy (Suc k) p"
  obtains p' where "cp_Send d p = (None, p')" and "roomy k p'" and "cp_inv p'" and "\<not> cp_closed p'"
    and "length (cp_connections p') = length (cp_connections p)" and "cp_nextConnIdx p' = cp_nextConnIdx p + 1"
    and "\<And>j. j < length (cp_connections p) \<Longrightarrow> channel p' j =
      (if j = unat (cp_nextConnIdx p + 1) mod length (cp_connections p) then channel p j @ [d] else channel p j)"
proof -
  let ?n = "length (cp_connections p)" and ?p1 = "p\<lparr>cp_nextConnIdx := cp_nextConnIdx p + 1\<rparr>"
  let ?i = "unat (cp_nextConnIdx p + 1) mod ?n"
  have n: "0 < ?n" "?i < ?n"
    using assms(1) by (simp_all add: cp_inv_def)
  have room: "IsActive (snd (cp_connections p ! j))"
    "length (c_sendCh (snd (cp_connections p ! j))) + Suc k \<le> SendBufferSize (c_config (snd (cp_connections p ! j)))"
    if "j < ?n" for j
    using assms(3) that by (auto simp: roomy_def list_all_length split_beta)
  obtain name conn where c: "cp_connections p ! ?i = (name, conn)"
    by (cases "cp_connections p ! ?i")
  have send: "Send d conn = (None, conn\<lparr>c_sendCh := c_sendCh conn @ [d]\<rparr>)"
    using room [OF n(2)] c by (simp add: Send_def)
  let ?p' = "?p1\<lparr>cp_connections := (cp_connections p)[?i := (name, conn\<lparr>c_sendCh := c_sendCh conn @ [d]\<rparr>)]\<rparr>"
  have "cp_Send d p = (None, ?p')"
    using assms(1,2)
  proof (cases rule: cp_Send_cases [of p d])
    case none
    then show ?thesis
      using room(1) n by (auto simp: cp_IsHealthy_nth connActive_def)
  next
    case (some k')
    have "k' = 0"
      using some(3) [of 0] room(1) [OF n(2)] by (cases k') (auto simp: connActive_def)
    then show ?thesis
      using some(4) send c by (simp add: sendOn_def)
  qed
  moreover have "roomy k ?p'"
    using room room [OF n(2)] n(2) c by (auto simp: roomy_def list_all_length nth_list_update split_beta IsActive_def
        intro: Suc_leD)
  moreover have "channel ?p' j = (if j = ?i then channel p j @ [d] else channel p j)" if "j < ?n" for j
    using that c by (simp add: channel_def nth_list_update)
  ultimately show thesis
    using that [of ?p'] assms(1,2) by (simp add: cp_inv_def)
qed

lemma round_robin_channels:
  assumes "cp_inv p" and "\<not> cp_closed p" and "roomy (length ds) p"
    and "unat (cp_nextConnIdx p) + length ds < 2 ^ 32" and "j < length (cp_connections p)"
  shows "\<exists>p'. send_all cp_Send ds p = (ds, p') \<and> channel p' j = channel p j @
    map (nth ds) (filter (\<lambda>i. (unat (cp_nextConnIdx p) + 1 + i) mod length (cp_connections p) = j)
      [0..<length ds])"
  using assms
proof (induction ds arbitrary: p)
  case (Cons d ds)
  let ?n = "length (cp_connections p)" and ?w = "cp_nextConnIdx p + 1"
  obtain p1 where p1: "cp_Send d p = (None, p1)" "roomy (length ds) p1" "cp_inv p1" "\<not> cp_closed p1"
    "length (cp_connections p1) = ?n" "cp_nextConnIdx p1 = ?w"
    "channel p1 j = (if j = unat ?w mod ?n then channel p j @ [d] else channel p j)"
    using cp_Send_roomy [of p "length ds" d] Cons.prems by auto
  have w: "unat ?w = unat (cp_nextConnIdx p) + 1"
    using Cons.prems(4) by (simp add: unat_word_ariths)
  have up: "[0..<length (d # ds)] = 0 # map Suc [0..<length ds]"
    by (simp add: upt_conv_Cons map_Suc_upt del: upt_Suc)
  obtain p' where "send_all cp_Send ds p1 = (ds, p')"
    "channel p' j = channel p1 j @
      map (nth ds) (filter (\<lambda>i. (unat ?w + 1 + i) mod ?n = j) [0..<length ds])"
    using Cons.IH [of p1] p1 Cons.prems(4,5) w by auto
  then show ?case
    unfolding up using p1(1,7) by (auto simp: w filter_map comp_def)
qed simp

section \<open>Properties\<close>

text \<open>
  A pool queues every message it accepts exactly once, on exactly one of its connections, and
  leaves all channels alone when it reports an error, over any sequence of sends.
\<close>

theorem pool_accepts_once:
  assumes "cp_inv p" and "send_all cp_Send ds p = (taken, p')"
  shows "cp_queued p' = cp_queued p + mset taken \<and> mset taken \<subseteq># mset ds"
  using pool_sink.send_all_exact [OF assms] send_all_taken [OF assms(2)] by blast

definition example_pool :: ConnectionPool where
  "example_pool =
     \<lparr>cp_config = c_config example_conn,
      cp_connections = [([65], example_conn\<lparr>c_state := StateOpen\<rparr>), ([66], example_conn),
        ([67], example_conn\<lparr>c_state := StateOpen\<rparr>)],
      cp_nextConnIdx = 0, cp_closed = False, cp_recvCh = []\<rparr>"

lemma example_pool_sends:
  "send_all cp_Send [[1], [2], [3]] example_pool = ([[1], [2], [3]],
     example_pool\<lparr>cp_nextConnIdx := 3,
      cp_connections := [([65], example_conn\<lparr>c_state := StateOpen, c_sendCh := [[3]]\<rparr>), ([66], example_conn),
        ([67], example_conn\<lparr>c_state := StateOpen, c_sendCh := [[1], [2]]\<rparr>)]\<rparr>)"
  by (simp add: example_pool_def cp_Send_def rotation_def connActive_def sendOn_def Send_def IsActive_def
      state_IsActive_def example_conn_def NewConnection_def Let_def upt_rec)

theorem pool_accepts_once_witness:
  "cp_queued (snd (send_all cp_Send [[1], [2], [3]] example_pool)) = {#[1], [2], [3]#}"
proof -
  have "cp_queued example_pool = {#}"
    by (simp add: example_pool_def cp_queued_def example_conn_def NewConnection_def)
  moreover have "cp_inv example_pool"
    by (simp add: cp_inv_def example_pool_def)
  ultimately show ?thesis
    unfolding example_pool_sends snd_conv using pool_accepts_once [OF _ example_pool_sends] by simp
qed

text \<open>
  The pool is fair: while all connections are up and have room, the messages of a sequence of
  sends go round the connections, the \<open>i\<close>-th to the connection \<open>i + 1\<close> places after the counter, in
  the order they were sent (until the counter wraps at the width of its type).
\<close>

theorem pool_round_robin:
  assumes "cp_inv p" and "\<not> cp_closed p" and "roomy (length ds) p"
    and "unat (cp_nextConnIdx p) + length ds < 2 ^ 32" and "j < length (cp_connections p)"
  shows "\<exists>p'. send_all cp_Send ds p = (ds, p') \<and> channel p' j = channel p j @
    map (nth ds) (filter (\<lambda>i. (unat (cp_nextConnIdx p) + 1 + i) mod length (cp_connections p) = j)
      [0..<length ds])"
  using assms by (rule round_robin_channels)

theorem pool_round_robin_witness:
  "\<exists>p'. send_all cp_Send [[1], [2], [3]] (example_pool\<lparr>cp_connections :=
        [([65], example_conn\<lparr>c_state := StateOpen\<rparr>), ([67], example_conn\<lparr>c_state := StateOpen\<rparr>)]\<rparr>) =
      ([[1], [2], [3]], p') \<and> channel p' 1 = [[1], [3]]"
proof -
  let ?p = "example_pool\<lparr>cp_connections :=
        [([65], example_conn\<lparr>c_state := StateOpen\<rparr>), ([67], example_conn\<lparr>c_state := StateOpen\<rparr>)]\<rparr>"
  let ?ds = "[[1], [2], [3]] :: bytes list"
  have h: "cp_inv ?p" "\<not> cp_closed ?p" "roomy (length ?ds) ?p" "unat (cp_nextConnIdx ?p) + length ?ds < 2 ^ 32"
    "1 < length (cp_connections ?p)"
    by (simp_all add: example_pool_def cp_inv_def roomy_def example_conn_def NewConnection_def
        IsActive_def state_IsActive_def)
  have e: "channel ?p 1 @ map (nth ?ds) (filter (\<lambda>i. (unat (cp_nextConnIdx ?p) + 1 + i) mod
      length (cp_connections ?p) = 1) [0..<length ?ds]) = [[1], [3]]"
    by code_simp
  show ?thesis
    using pool_round_robin [OF h] unfolding e .
qed

text \<open>
  Sending to a pool that is open fails for want of a connection exactly when none is active;
  otherwise the message goes to the active connection that comes first in the rotation, and the
  answer is that connection's.
\<close>

theorem pool_Send_picks_active:
  assumes "cp_inv p" and "\<not> cp_closed p"
  shows "if cp_IsHealthy p
    then \<exists>k<length (cp_connections p).
      let idx = \<lambda>j. (unat (cp_nextConnIdx p + 1) + j) mod length (cp_connections p)
      in connActive p (idx k) \<and> (\<forall>j<k. \<not> connActive p (idx j)) \<and>
        cp_Send d p = sendOn (idx k) d (p\<lparr>cp_nextConnIdx := cp_nextConnIdx p + 1\<rparr>)
    else cp_Send d p = (Some ErrNoActiveConnections, p\<lparr>cp_nextConnIdx := cp_nextConnIdx p + 1\<rparr>)"
  using assms
proof (cases rule: cp_Send_cases [of p d])
  case (some k)
  have "0 < length (cp_connections p)"
    using assms(1) by (simp add: cp_inv_def)
  then have "cp_IsHealthy p"
    using some(2) by (auto simp: cp_IsHealthy_nth intro: mod_less_divisor)
  then show ?thesis
    using some by (auto simp: Let_def)
qed simp

theorem pool_Send_picks_active_witness:
  "fst (cp_Send [9] (example_pool\<lparr>cp_connections := [([66], example_conn)]\<rparr>)) = Some ErrNoActiveConnections"
proof -
  let ?p = "example_pool\<lparr>cp_connections := [([66], example_conn)]\<rparr>"
  have "cp_inv ?p" "\<not> cp_closed ?p" "\<not> cp_IsHealthy ?p"
    by (simp_all add: example_pool_def cp_inv_def cp_IsHealthy_def example_conn_def NewConnection_def
        IsActive_def state_IsActive_def)
  then show ?thesis
    using pool_Send_picks_active [of ?p "[9]"] by simp
qed

text \<open>
  The identifiers \<^verbatim>\<open>NewConnectionPool\<close> makes are distinct, so every connection of a new pool is
  found under its own identifier.
\<close>

theorem NewConnectionPool_ids:
  assumes "NewConnectionPool parseIP config = Inr p" and "i < nat (ConnectionCount config)"
  shows "distinct (map fst (cp_connections p)) \<and> findConn (connID config i) p = Some i \<and>
    GetConnection (connID config i) p = Some (NewConnection config)"
proof -
  let ?n = "nat (ConnectionCount config)"
  have c: "cp_connections p = map (\<lambda>i. (connID config i, NewConnection config)) [0..<?n]"
    using assms(1) by (auto simp: NewConnectionPool_def split: option.splits)
  have inj: "connID config i = connID config j \<longleftrightarrow> i = j" for i j
    by (simp add: connID_def digits_inj)
  have "findConn (connID config i) p = Some i"
    using assms(2) unfolding findConn_def find_Some_iff by (auto simp: c inj intro!: exI [of _ i])
  then show ?thesis
    using assms(2) by (simp add: c GetConnection_def distinct_map inj_on_def inj comp_def)
qed

theorem NewConnectionPool_ids_witness:
  "\<exists>p. NewConnectionPool (\<lambda>_. None) ((c_config example_conn)\<lparr>ConnectionCount := 3\<rparr>) = Inr p \<and>
     distinct (map fst (cp_connections p))"
proof -
  let ?c = "(c_config example_conn)\<lparr>ConnectionCount := 3\<rparr>"
  obtain p where "NewConnectionPool (\<lambda>_. None) ?c = Inr p"
    by (simp add: NewConnectionPool_def DRAConfig_Validate_def example_conn_def NewConnection_def)
  then show ?thesis
    using NewConnectionPool_ids [of "\<lambda>_. None" ?c p 0] by simp
qed

end
