(* ===== verification/Server_Conn.thy ===== *)
theory Server_Conn
  imports Conn_Pool
begin

text \<open>
  The server's own connection (\<^verbatim>\<open>server/connection.go\<close>): the framing of its read loop, the dispatch
  of received messages with the built-in CER, DWR and DPR handlers, requests sent to the peer and
  their answers, and the three loops with \<^verbatim>\<open>Close\<close> as a step relation. The lemmas show that the
  read loop cuts the stream as \<^verbatim>\<open>ReadMessage\<close> does, what the handlers answer, that answers find
  their request, and when \<^verbatim>\<open>Close\<close> cannot return.
\<close>

section \<open>State\<close>

record sc_Config =
  scf_MaxMessageSize :: int
  scf_SendChannelSize :: nat
  scf_RecvChannelSize :: nat
  scf_OriginHost :: gostring
  scf_OriginRealm :: gostring
  scf_ProductName :: gostring
  scf_VendorID :: u32
  scf_HandleWatchdog :: bool

text \<open>\<open>gostr\<close> turns a literal into the bytes of a Go string.\<close>

definition gostr :: "string \<Rightarrow> gostring" where
  "gostr s = map (\<lambda>ch. word_of_nat (of_char ch)) s"

definition sc_DefaultConfig :: sc_Config where
  "sc_DefaultConfig =
     \<lparr>scf_MaxMessageSize = 65535, scf_SendChannelSize = 100, scf_RecvChannelSize = 100,
      scf_OriginHost = gostr ''diameter-server.example.com'', scf_OriginRealm = gostr ''example.com'',
      scf_ProductName = gostr ''Diameter Gateway'', scf_VendorID = 10415, scf_HandleWatchdog = True\<rparr>"

text \<open>
  A channel is the list of its elements, oldest first. \<open>sc_inbound\<close> is what the socket still
  delivers, \<open>sc_written\<close> what was written to it; \<open>sc_closeChan\<close> and \<open>sc_sockClosed\<close> say that the
  channel and the socket are closed; \<open>sc_closeTimer\<close> that the timer of \<^verbatim>\<open>handleDPR\<close> runs.
\<close>

record ServerConn =
  sc_config :: sc_Config
  sc_localIP :: "bytes option"
  sc_state :: ConnectionState
  sc_sendChan :: "bytes list"
  sc_receiveChan :: "bytes list"
  sc_processChan :: "bytes list"
  sc_closeChan :: bool
  sc_sockClosed :: bool
  sc_originHost :: gostring
  sc_originRealm :: gostring
  sc_supportedAppIDs :: "u32 list"
  sc_authAppIDs :: "u32 list"
  sc_acctAppIDs :: "u32 list"
  sc_pendingReqs :: "u32 \<rightharpoonup> bytes list"
  sc_MessagesSent :: u64
  sc_MessagesReceived :: u64
  sc_BytesSent :: u64
  sc_BytesReceived :: u64
  sc_Errors :: u64
  sc_closeTimer :: bool
  sc_inbound :: bytes
  sc_written :: "bytes list"

definition sc_NewConnection :: "sc_Config option \<Rightarrow> bytes option \<Rightarrow> ServerConn" where
  "sc_NewConnection config localIP =
     \<lparr>sc_config = (case config of None \<Rightarrow> sc_DefaultConfig | Some cfg \<Rightarrow> cfg), sc_localIP = localIP,
      sc_state = StateConnecting, sc_sendChan = [], sc_receiveChan = [], sc_processChan = [],
      sc_closeChan = False, sc_sockClosed = False, sc_originHost = [], sc_originRealm = [],
      sc_supportedAppIDs = [], sc_authAppIDs = [], sc_acctAppIDs = [], sc_pendingReqs = Map.empty,
      sc_MessagesSent = 0, sc_MessagesReceived = 0, sc_BytesSent = 0, sc_BytesReceived = 0,
      sc_Errors = 0, sc_closeTimer = False, sc_inbound = [], sc_written = []\<rparr>"

datatype sc_error =
    SCConnectionClosed
  | SCSendTimeout
  | SCMessageTooShort
  | SCParseHeader frame_error
  | SCCodec codec_error
  | SCRequestTimeout

text \<open>
  \<^verbatim>\<open>Send\<close>: when the channel has room and the connection is closed both arms of the \<^verbatim>\<open>select\<close> are
  ready and Go picks one at random; \<open>pick\<close> is that choice, true for the send. A full channel of an
  open connection ends in the timeout.
\<close>

definition sc_Send :: "bool \<Rightarrow> bytes \<Rightarrow> ServerConn \<Rightarrow> sc_error option \<times> ServerConn" where
  "sc_Send pick data c =
     (if length (sc_sendChan c) < scf_SendChannelSize (sc_config c) \<and> (pick \<or> \<not> sc_closeChan c)
      then (None, c\<lparr>sc_sendChan := sc_sendChan c @ [data]\<rparr>)
      else if sc_closeChan c then (Some SCConnectionClosed, c)
      else (Some SCSendTimeout, c))"

definition sc_Write :: "bool \<Rightarrow> bytes \<Rightarrow> ServerConn \<Rightarrow> (sc_error, nat) result \<times> ServerConn" where
  "sc_Write pick b c =
     (case sc_Send pick b c of
        (Some err, c') \<Rightarrow> (Inl err, c')
      | (None, c') \<Rightarrow> (Inr (length b), c'))"

definition SupportsInterface :: "u32 \<Rightarrow> ServerConn \<Rightarrow> bool" where
  "SupportsInterface appID c \<longleftrightarrow> list_ex (\<lambda>i. i = appID) (sc_supportedAppIDs c)"

definition interfaceName :: "u32 \<Rightarrow> gostring" where
  "interfaceName appID =
     (if appID = 16777251 then gostr ''S6a''
      else if appID = 16777252 then gostr ''S13''
      else if appID = 16777238 then gostr ''Gx''
      else if appID = 16777236 then gostr ''Cx''
      else if appID = 16777216 then gostr ''Sh''
      else gostr ''App-'' @ itoa (uint appID))"

definition GetInterfaceNames :: "ServerConn \<Rightarrow> gostring list" where
  "GetInterfaceNames c = map interfaceName (sc_supportedAppIDs c)"

section \<open>Reading from the socket\<close>

text \<open>Errors of a read: the end of the stream, or an error of the network with its text.\<close>

datatype sc_io_error = IOErr io_error | NetErr string

definition isClosedError :: "sc_io_error \<Rightarrow> bool" where
  "isClosedError e =
     (let errStr = (case e of IOErr EOF \<Rightarrow> ''EOF'' | IOErr UnexpectedEOF \<Rightarrow> ''unexpected EOF'' | NetErr s \<Rightarrow> s)
      in errStr = ''use of closed network connection'' \<or> errStr = ''EOF'')"

datatype sc_read_error =
    SCHeaderRead sc_io_error
  | SCInvalidLength u32
  | SCBodyRead sc_io_error

definition sc_readOne :: "int \<Rightarrow> bytes \<Rightarrow> (sc_read_error, bytes) result \<times> bytes" where
  "sc_readOne maxMessageSize r =
     (case ReadFull r 20 of
        (Inl (e, n), r') \<Rightarrow> (Inl (SCHeaderRead (IOErr e)), r')
      | (Inr header, r') \<Rightarrow>
          let msgLen = Uint32 [0, header ! 1, header ! 2, header ! 3]
          in if msgLen < 20 \<or> msgLen > word_of_int maxMessageSize
             then (Inl (SCInvalidLength msgLen), r')
             else
               let bodyLen = unat (msgLen - 20)
               in if 0 < bodyLen
                  then (case ReadFull r' bodyLen of
                          (Inl (e, n), r'') \<Rightarrow> (Inl (SCBodyRead (IOErr e)), r'')
                        | (Inr body, r'') \<Rightarrow> (Inr (header @ body), r''))
                  else (Inr header, r'))"

text \<open>The counters after a message and after an error of the read loop.\<close>

definition countRead :: "bytes \<Rightarrow> ServerConn \<Rightarrow> ServerConn" where
  "countRead message c = c\<lparr>sc_MessagesReceived := sc_MessagesReceived c + 1,
     sc_BytesReceived := sc_BytesReceived c + word_of_nat (length message)\<rparr>"

definition countReadError :: "sc_read_error \<Rightarrow> ServerConn \<Rightarrow> ServerConn" where
  "countReadError e c =
     (case e of
        SCHeaderRead err \<Rightarrow>
          if err \<noteq> IOErr EOF \<and> \<not> isClosedError err then c\<lparr>sc_Errors := sc_Errors c + 1\<rparr> else c
      | _ \<Rightarrow> c\<lparr>sc_Errors := sc_Errors c + 1\<rparr>)"

section \<open>The built-in handlers\<close>

definition success_DWA :: "u32 \<Rightarrow> u32 \<Rightarrow> gostring \<Rightarrow> gostring \<Rightarrow> DeviceWatchdogAnswer" where
  "success_DWA hbh e2e host realm = NewDeviceWatchdogAnswer
     \<lparr>dwa_Header := (dwa_Header NewDeviceWatchdogAnswer)\<lparr>hdr_HopByHopID := hbh, hdr_EndToEndID := e2e\<rparr>,
      dwa_ResultCode := 2001, dwa_OriginHost := host, dwa_OriginRealm := realm\<rparr>"

definition success_DPA :: "u32 \<Rightarrow> u32 \<Rightarrow> gostring \<Rightarrow> gostring \<Rightarrow> DisconnectPeerAnswer" where
  "success_DPA hbh e2e host realm = NewDisconnectPeerAnswer
     \<lparr>dpa_Header := (dpa_Header NewDisconnectPeerAnswer)\<lparr>hdr_HopByHopID := hbh, hdr_EndToEndID := e2e\<rparr>,
      dpa_ResultCode := 2001, dpa_OriginHost := host, dpa_OriginRealm := realm\<rparr>"

definition success_CEA ::
  "u32 \<Rightarrow> u32 \<Rightarrow> gostring \<Rightarrow> gostring \<Rightarrow> gostring \<Rightarrow> u32 \<Rightarrow> bytes list \<Rightarrow> CapabilitiesExchangeAnswer" where
  "success_CEA hbh e2e host realm product vendor ips = NewCapabilitiesExchangeAnswer
     \<lparr>cea_Header := (cea_Header NewCapabilitiesExchangeAnswer)
        \<lparr>hdr_HopByHopID := hbh, hdr_EndToEndID := e2e\<rparr>,
      cea_ResultCode := 2001, cea_OriginHost := host, cea_OriginRealm := realm,
      cea_ProductName := product, cea_VendorId := vendor, cea_HostIpAddress := ips\<rparr>"

text \<open>The application ids of a CER, in the order the three loops of \<^verbatim>\<open>handleCER\<close> append them.\<close>

definition vsAuthIDs :: "VendorSpecificApplicationId option list \<Rightarrow> u32 list" where
  "vsAuthIDs vs = concat (map (\<lambda>v. case v of None \<Rightarrow> []
     | Some g \<Rightarrow> (case vsa_AuthApplicationId g of None \<Rightarrow> [] | Some i \<Rightarrow> [i])) vs)"

definition vsAcctIDs :: "VendorSpecificApplicationId option list \<Rightarrow> u32 list" where
  "vsAcctIDs vs = concat (map (\<lambda>v. case v of None \<Rightarrow> []
     | Some g \<Rightarrow> (case vsa_AcctApplicationId g of None \<Rightarrow> [] | Some i \<Rightarrow> [i])) vs)"

definition vsAppIDs :: "VendorSpecificApplicationId option list \<Rightarrow> u32 list" where
  "vsAppIDs vs = concat (map (\<lambda>v. vsAuthIDs [v] @ vsAcctIDs [v]) vs)"

definition recordPeer :: "CapabilitiesExchangeRequest \<Rightarrow> ServerConn \<Rightarrow> ServerConn" where
  "recordPeer cer c = c\<lparr>sc_originHost := cer_OriginHost cer, sc_originRealm := cer_OriginRealm cer,
     sc_authAppIDs := cer_AuthApplicationId cer @ vsAuthIDs (cer_VendorSpecificApplicationId cer),
     sc_acctAppIDs := cer_AcctApplicationId cer @ vsAcctIDs (cer_VendorSpecificApplicationId cer),
     sc_supportedAppIDs := cer_AuthApplicationId cer @ cer_AcctApplicationId cer @
       vsAppIDs (cer_VendorSpecificApplicationId cer)\<rparr>"

definition sc_handleCER ::
  "bool \<Rightarrow> bytes \<Rightarrow> MessageInfo \<Rightarrow> ServerConn \<Rightarrow> sc_error option \<times> ServerConn" where
  "sc_handleCER pick msg msgInfo c =
     (case CER_Unmarshal msg CER_zero of
        Inl err \<Rightarrow> (Some (SCCodec err), c)
      | Inr cer \<Rightarrow>
          let c1 = recordPeer cer c;
              cfg = sc_config c;
              cea = success_CEA (mi_HopByHopID msgInfo) (mi_EndToEndID msgInfo) (scf_OriginHost cfg)
                (scf_OriginRealm cfg) (scf_ProductName cfg) (scf_VendorID cfg)
                (case sc_localIP c of None \<Rightarrow> [] | Some ip \<Rightarrow> [ip])
          in case CEA_Marshal cea of
               Inl err \<Rightarrow> (Some (SCCodec err), c1)
             | Inr (_, ceaBytes) \<Rightarrow>
                 (case sc_Send pick ceaBytes c1 of
                    (Some err, c2) \<Rightarrow> (Some err, c2)
                  | (None, c2) \<Rightarrow> (None, c2\<lparr>sc_state := StateOpen\<rparr>)))"

definition sc_handleDWR ::
  "bool \<Rightarrow> MessageInfo \<Rightarrow> ServerConn \<Rightarrow> sc_error option \<times> ServerConn" where
  "sc_handleDWR pick msgInfo c =
     (case DWA_Marshal (success_DWA (mi_HopByHopID msgInfo) (mi_EndToEndID msgInfo)
            (scf_OriginHost (sc_config c)) (scf_OriginRealm (sc_config c))) of
        Inl err \<Rightarrow> (Some (SCCodec err), c)
      | Inr (_, dwaBytes) \<Rightarrow> sc_Send pick dwaBytes c)"

definition sc_handleDPR ::
  "bool \<Rightarrow> MessageInfo \<Rightarrow> ServerConn \<Rightarrow> sc_error option \<times> ServerConn" where
  "sc_handleDPR pick msgInfo c =
     (case DPA_Marshal (success_DPA (mi_HopByHopID msgInfo) (mi_EndToEndID msgInfo)
            (scf_OriginHost (sc_config c)) (scf_OriginRealm (sc_config c))) of
        Inl err \<Rightarrow> (Some (SCCodec err), c)
      | Inr (_, dpaBytes) \<Rightarrow>
          (case sc_Send pick dpaBytes c of
             (Some err, c') \<Rightarrow> (Some err, c')
           | (None, c') \<Rightarrow> (None, c'\<lparr>sc_closeTimer := True\<rparr>)))"

text \<open>
  Handing a message to the application blocks while its channel is full and the connection is
  open: \<open>None\<close>.
\<close>

definition sc_forward :: "bool \<Rightarrow> bytes \<Rightarrow> ServerConn \<Rightarrow> ServerConn option" where
  "sc_forward pick msg c =
     (if length (sc_receiveChan c) < scf_RecvChannelSize (sc_config c) \<and> (pick \<or> \<not> sc_closeChan c)
      then Some (c\<lparr>sc_receiveChan := sc_receiveChan c @ [msg]\<rparr>)
      else if sc_closeChan c then Some c else None)"

text \<open>An answer goes to the channel of its request, of capacity one; a full one drops it.\<close>

definition sc_deliver :: "u32 \<Rightarrow> bytes \<Rightarrow> ServerConn \<Rightarrow> ServerConn" where
  "sc_deliver hbh msg c =
     (case sc_pendingReqs c hbh of
        None \<Rightarrow> c
      | Some ch \<Rightarrow> if ch = [] then c\<lparr>sc_pendingReqs := (sc_pendingReqs c)(hbh \<mapsto> [msg])\<rparr> else c)"

definition sc_handleMessage ::
  "bool \<Rightarrow> bytes \<Rightarrow> ServerConn \<Rightarrow> (sc_error option \<times> ServerConn) option" where
  "sc_handleMessage pick msg c =
     (if length msg < 20 then Some (Some SCMessageTooShort, c)
      else case ParseMessageHeader msg of
        Inl err \<Rightarrow> Some (Some (SCParseHeader err), c)
      | Inr msgInfo \<Rightarrow>
          if mi_CommandCode msgInfo = 257 then Some (sc_handleCER pick msg msgInfo c)
          else if mi_CommandCode msgInfo = 280 then
            (if scf_HandleWatchdog (sc_config c) then Some (sc_handleDWR pick msgInfo c)
             else map_option (Pair None) (sc_forward pick msg c))
          else if mi_CommandCode msgInfo = 282 then Some (sc_handleDPR pick msgInfo c)
          else if \<not> mf_Request (mi_Flags msgInfo)
          then Some (None, sc_deliver (mi_HopByHopID msgInfo) msg c)
          else map_option (Pair None) (sc_forward pick msg c))"

section \<open>Requests to the peer\<close>

text \<open>
  \<^verbatim>\<open>SendRequest\<close> up to its wait, and its end: the arm of the \<^verbatim>\<open>select\<close> that fired and the deferred
  deletion. A wake-up by a response needs one in the channel, by the close a closed connection.
  The table holds the channel itself, so the model covers one outstanding request per id.
\<close>

definition sc_SendRequest :: "bool \<Rightarrow> bytes \<Rightarrow> ServerConn \<Rightarrow> (sc_error, u32) result \<times> ServerConn" where
  "sc_SendRequest pick msg c =
     (if length msg < 20 then (Inl SCMessageTooShort, c)
      else
        let h2hID = Uint32 (bslice 12 16 msg);
            c1 = c\<lparr>sc_pendingReqs := (sc_pendingReqs c)(h2hID \<mapsto> [])\<rparr>
        in case sc_Send pick msg c1 of
             (Some err, c2) \<Rightarrow> (Inl err, c2\<lparr>sc_pendingReqs := (sc_pendingReqs c2)(h2hID := None)\<rparr>)
           | (None, c2) \<Rightarrow> (Inr h2hID, c2))"

datatype wake = WakeResponse | WakeTimeout | WakeClosed

definition sc_EndRequest :: "wake \<Rightarrow> u32 \<Rightarrow> ServerConn \<Rightarrow> ((sc_error, bytes) result \<times> ServerConn) option" where
  "sc_EndRequest w h2hID c =
     (let c' = c\<lparr>sc_pendingReqs := (sc_pendingReqs c)(h2hID := None)\<rparr>
      in case w of
           WakeResponse \<Rightarrow>
             (case sc_pendingReqs c h2hID of Some (resp # _) \<Rightarrow> Some (Inr resp, c') | _ \<Rightarrow> None)
         | WakeTimeout \<Rightarrow> Some (Inl SCRequestTimeout, c')
         | WakeClosed \<Rightarrow> if sc_closeChan c then Some (Inl SCConnectionClosed, c') else None)"


section \<open>Framing\<close>

text \<open>
  The read loop of the server connection and \<^verbatim>\<open>ReadMessage\<close> of \<^verbatim>\<open>pkg/connection\<close> agree: the loop
  accepts a message exactly when \<^verbatim>\<open>ReadMessage\<close> does and the message is within the configured size,
  it yields the same bytes and leaves the same rest of the stream.
\<close>

theorem sc_readOne_ReadMessage:
  "sc_readOne maxSize r = (Inr msg, rest) \<longleftrightarrow>
     (\<exists>m. ReadMessage r = ((Some m, None), rest) \<and> msg = msg_Header m @ msg_Body m \<and>
        msg_Length m \<le> word_of_int maxSize)"
proof (cases "20 \<le> length r")
  case True
  then have a: "Uint32 [0, take 20 r ! 1, take 20 r ! 2, take 20 r ! 3] = announced r"
    by (simp add: announced_def)
  consider "announced r < 20" | "announced r = 20" | "20 < announced r"
    by (meson linorder_less_linear)
  then show ?thesis
  proof cases
    case 3
    then have "0 < unat (announced r - 20)"
      by (simp add: unat_gt_0)
    with 3 True a show ?thesis
      by (auto simp: sc_readOne_def ReadMessage_def readHeader_enough readBody_def Let_def not_less
          split: sum.splits prod.splits)
  qed (use True a in \<open>auto simp: sc_readOne_def ReadMessage_def readHeader_enough readBody_def Let_def
        not_less\<close>)
qed (auto simp: sc_readOne_def ReadMessage_def readHeader_def ReadFull_def)

section \<open>Answers of the built-in handlers\<close>

lemmas success_defs = success_DWA_def success_DPA_def success_CEA_def NewDeviceWatchdogAnswer_def
  DWA_zero_def NewDisconnectPeerAnswer_def DPA_zero_def NewCapabilitiesExchangeAnswer_def CEA_zero_def
  new_header_def zero_header_def

lemma marshalAVP_le:
  "length (marshalAVP code (DiameterIdentity v) True False) \<le> length v + 11"
  "length (marshalAVP code (UTF8String v) False False) \<le> length v + 11"
  "length (marshalAVP code (Unsigned32 x) True False) \<le> 15"
  using padded_length_le [of "8 + length v"] padded_length_le [of 12]
  by (simp_all add: length_marshalAVP Let_def)

context generated_message
begin

lemma valid_codec:
  assumes "Validate m = None" and "faithful m" and "length (writeAVPs (writes m)) < 2 ^ 23"
    and "unat (hdr_CommandCode (header m)) < 2 ^ 24"
  obtains m' bs where "Marshal m = Inr (m', bs)" and "Unmarshal bs zero = Inr m'" and "length bs < 2 ^ 24"
    and "m' = set_header ((header m)\<lparr>hdr_Length := word_of_nat (length bs)\<rparr>) m"
proof -
  obtain h bs where m: "Marshal m = Inr (set_header h m, bs)"
    and l: "length bs = 20 + length (writeAVPs (writes m))"
    using assms(1) by (rule Marshal_total)
  have "length bs < 2 ^ 24"
    using l assms(3) by simp
  then show thesis
    using that [OF m] Unmarshal_Marshal [OF m assms(2) _ assms(4)] Marshal_cases(2) [OF m] by blast
qed

end

text \<open>An identity that makes valid answers which fit the 24-bit length.\<close>

definition sane_identity :: "gostring \<Rightarrow> gostring \<Rightarrow> bool" where
  "sane_identity host realm \<longleftrightarrow> host \<noteq> [] \<and> realm \<noteq> [] \<and> length host + length realm < 2 ^ 20"

lemma success_DWA_codec:
  assumes "sane_identity host realm"
  obtains dwa bs where "DWA_Marshal (success_DWA hbh e2e host realm) = Inr (dwa, bs)"
    and "DWA_Unmarshal bs DWA_zero = Inr dwa" and "length bs < 2 ^ 24"
    and "dwa = (success_DWA hbh e2e host realm)\<lparr>dwa_Header :=
      (dwa_Header (success_DWA hbh e2e host realm))\<lparr>hdr_Length := word_of_nat (length bs)\<rparr>\<rparr>"
proof (rule dwa.valid_codec [of "success_DWA hbh e2e host realm"])
  show "length (writeAVPs (DWA_writes (success_DWA hbh e2e host realm))) < 2 ^ 23"
    using assms marshalAVP_le(1) [of AVPCodeORIGINHOST host] marshalAVP_le(1) [of AVPCodeORIGINREALM realm]
      marshalAVP_le(3) [of AVPCodeRESULTCODE 2001]
    by (simp add: DWA_writes_def success_defs optional_def FailedAVP_writes_def sane_identity_def)
qed (use assms in \<open>simp_all add: DWA_Validate_def DWA_faithful_def faithful_FailedAVP_def success_defs
  sane_identity_def\<close>)

lemma success_DPA_codec:
  assumes "sane_identity host realm"
  obtains dpa bs where "DPA_Marshal (success_DPA hbh e2e host realm) = Inr (dpa, bs)"
    and "DPA_Unmarshal bs DPA_zero = Inr dpa" and "length bs < 2 ^ 24"
    and "dpa = (success_DPA hbh e2e host realm)\<lparr>dpa_Header :=
      (dpa_Header (success_DPA hbh e2e host realm))\<lparr>hdr_Length := word_of_nat (length bs)\<rparr>\<rparr>"
proof (rule dpa.valid_codec [of "success_DPA hbh e2e host realm"])
  show "length (writeAVPs (DPA_writes (success_DPA hbh e2e host realm))) < 2 ^ 23"
    using assms marshalAVP_le(1) [of AVPCodeORIGINHOST host] marshalAVP_le(1) [of AVPCodeORIGINREALM realm]
      marshalAVP_le(3) [of AVPCodeRESULTCODE 2001]
    by (simp add: DPA_writes_def success_defs optional_def FailedAVP_writes_def sane_identity_def)
qed (use assms in \<open>simp_all add: DPA_Validate_def DPA_faithful_def faithful_FailedAVP_def success_defs
  sane_identity_def\<close>)

lemma success_CEA_length:
  assumes "length ip \<le> 16"
  shows "length (writeAVPs (CEA_writes (success_CEA hbh e2e host realm product vendor [ip]))) \<le>
    length host + length realm + length product + 100"
proof -
  have "length (writeAVPs (repeated AVPCodeHOSTIPADDRESS Address True [ip])) \<le> length [ip] * (18 + 11)"
    using assms by (intro length_writeAVPs_repeated)
      (simp add: Address_methods_def length_Address_Serialize_le)
  then show ?thesis
    using marshalAVP_le(1) [of AVPCodeORIGINHOST host] marshalAVP_le(1) [of AVPCodeORIGINREALM realm]
      marshalAVP_le(3) [of AVPCodeRESULTCODE 2001] marshalAVP_le(2) [of AVPCodePRODUCTNAME product]
      marshalAVP_le(3) [of AVPCodeVENDORID vendor]
    by (simp add: CEA_writes_def success_defs optional_def FailedAVP_writes_def repeated_def [of _ _ _ "[]"])
qed

lemma success_CEA_codec:
  assumes "sane_identity host realm" and "product \<noteq> []" and "length product < 2 ^ 20"
    and "canonical_address ip" and "length ip \<le> 16"
  obtains cea bs where "CEA_Marshal (success_CEA hbh e2e host realm product vendor [ip]) = Inr (cea, bs)"
    and "CEA_Unmarshal bs CEA_zero = Inr cea" and "length bs < 2 ^ 24"
    and "cea = (success_CEA hbh e2e host realm product vendor [ip])\<lparr>cea_Header :=
      (cea_Header (success_CEA hbh e2e host realm product vendor [ip]))\<lparr>hdr_Length := word_of_nat (length bs)\<rparr>\<rparr>"
proof (rule cea.valid_codec [of "success_CEA hbh e2e host realm product vendor [ip]"])
  show "length (writeAVPs (CEA_writes (success_CEA hbh e2e host realm product vendor [ip]))) < 2 ^ 23"
    using assms(1,3) success_CEA_length [OF assms(5), of hbh e2e host realm product vendor]
    by (simp add: sane_identity_def)
qed (use assms in \<open>simp_all add: CEA_Validate_def CEA_faithful_def faithful_FailedAVP_def success_defs
  sane_identity_def\<close>)

section \<open>A connection to try the handlers on\<close>

definition example_sc :: ServerConn where
  "example_sc = sc_NewConnection (Some (sc_DefaultConfig\<lparr>scf_OriginHost := [104], scf_OriginRealm := [114],
     scf_ProductName := [112]\<rparr>)) (Some [127, 0, 0, 1])"

definition bare_header :: "u32 \<Rightarrow> bool \<Rightarrow> DiameterHeader" where
  "bare_header code req = \<lparr>hdr_Version = 1, hdr_Length = 20,
     hdr_Flags = \<lparr>fl_Request = req, fl_Proxiable = False, fl_Error = False, fl_Retransmitted = False\<rparr>,
     hdr_CommandCode = code, hdr_ApplicationID = 0, hdr_HopByHopID = 77, hdr_EndToEndID = 78\<rparr>"

lemma example_sc_simps [simp]:
  "sc_sendChan example_sc = []" "\<not> sc_closeChan example_sc" "sc_localIP example_sc = Some [127, 0, 0, 1]"
  "scf_SendChannelSize (sc_config example_sc) = 100" "scf_HandleWatchdog (sc_config example_sc)"
  "scf_OriginHost (sc_config example_sc) = [104]" "scf_OriginRealm (sc_config example_sc) = [114]"
  "scf_ProductName (sc_config example_sc) = [112]" "sc_pendingReqs example_sc = Map.empty"
  by (simp_all add: example_sc_def sc_NewConnection_def sc_DefaultConfig_def)

lemma bare_header_parsed:
  assumes "take_bit 24 code = code"
  shows "ParseMessageHeader (marshalHeader (bare_header code req)) = Inr (info_of_header (bare_header code req))"
    and "unmarshalHeader (marshalHeader (bare_header code req)) = Inr (bare_header code req)"
  using unmarshalHeader_append [of "bare_header code req" "[]"] assms
  by (simp_all add: ParseMessageHeader_unmarshalHeader bare_header_def)

lemma ParseMessageHeader_length: "ParseMessageHeader msg = Inr info \<Longrightarrow> 20 \<le> length msg"
  by (simp add: ParseMessageHeader_def split: if_splits)

text \<open>
  A CER that decodes is answered by a CEA with Result-Code 2001, the server's identity and the
  ids of the request; afterwards the connection is open, knows the peer's identity and supports
  exactly the applications the CER names as authentication, accounting or vendor-specific ones.
\<close>

theorem sc_CER_answered:
  assumes "ParseMessageHeader msg = Inr info" and "mi_CommandCode info = 257"
    and "CER_Unmarshal msg CER_zero = Inr cer"
    and "sane_identity (scf_OriginHost (sc_config c)) (scf_OriginRealm (sc_config c))"
    and "scf_ProductName (sc_config c) \<noteq> []" and "length (scf_ProductName (sc_config c)) < 2 ^ 20"
    and "sc_localIP c = Some ip" and "canonical_address ip" and "length ip \<le> 16"
    and "length (sc_sendChan c) < scf_SendChannelSize (sc_config c)" and "\<not> sc_closeChan c"
  shows "\<exists>c' bs cea. sc_handleMessage pick msg c = Some (None, c') \<and>
    sc_sendChan c' = sc_sendChan c @ [bs] \<and> CEA_Unmarshal bs CEA_zero = Inr cea \<and>
    cea_ResultCode cea = 2001 \<and> cea_OriginHost cea = scf_OriginHost (sc_config c) \<and>
    cea_HostIpAddress cea = [ip] \<and>
    hdr_HopByHopID (cea_Header cea) = mi_HopByHopID info \<and>
    hdr_EndToEndID (cea_Header cea) = mi_EndToEndID info \<and>
    sc_state c' = StateOpen \<and> sc_originHost c' = cer_OriginHost cer \<and>
    (\<forall>a. SupportsInterface a c' \<longleftrightarrow> a \<in> set (cer_AuthApplicationId cer) \<or> a \<in> set (cer_AcctApplicationId cer) \<or>
      (\<exists>g. Some g \<in> set (cer_VendorSpecificApplicationId cer) \<and>
        (vsa_AuthApplicationId g = Some a \<or> vsa_AcctApplicationId g = Some a)))"
proof -
  let ?cfg = "sc_config c"
  obtain cea bs where m: "CEA_Marshal (success_CEA (mi_HopByHopID info) (mi_EndToEndID info)
      (scf_OriginHost ?cfg) (scf_OriginRealm ?cfg) (scf_ProductName ?cfg) (scf_VendorID ?cfg) [ip]) = Inr (cea, bs)"
    and u: "CEA_Unmarshal bs CEA_zero = Inr cea"
    and cea: "cea = (success_CEA (mi_HopByHopID info) (mi_EndToEndID info)
      (scf_OriginHost ?cfg) (scf_OriginRealm ?cfg) (scf_ProductName ?cfg) (scf_VendorID ?cfg) [ip])\<lparr>cea_Header :=
        (cea_Header (success_CEA (mi_HopByHopID info) (mi_EndToEndID info) (scf_OriginHost ?cfg)
          (scf_OriginRealm ?cfg) (scf_ProductName ?cfg) (scf_VendorID ?cfg) [ip]))
        \<lparr>hdr_Length := word_of_nat (length bs)\<rparr>\<rparr>"
    using success_CEA_codec [OF assms(4,5,6,8,9)] by blast
  let ?c' = "(recordPeer cer c)\<lparr>sc_sendChan := sc_sendChan c @ [bs], sc_state := StateOpen\<rparr>"
  have "sc_handleMessage pick msg c = Some (None, ?c')"
    using assms(1-3,7,10,11) m ParseMessageHeader_length [OF assms(1)]
    by (simp add: sc_handleMessage_def sc_handleCER_def sc_Send_def recordPeer_def Let_def)
  moreover have "SupportsInterface a ?c' \<longleftrightarrow>
      a \<in> set (cer_AuthApplicationId cer) \<or> a \<in> set (cer_AcctApplicationId cer) \<or>
      (\<exists>g. Some g \<in> set (cer_VendorSpecificApplicationId cer) \<and>
        (vsa_AuthApplicationId g = Some a \<or> vsa_AcctApplicationId g = Some a))" for a
    by (force simp: SupportsInterface_def recordPeer_def vsAppIDs_def vsAuthIDs_def vsAcctIDs_def list_ex_iff
        split: option.splits)
  ultimately show ?thesis
    using u cea by (intro exI [of _ ?c'] exI [of _ bs] exI [of _ cea])
      (simp add: success_CEA_def recordPeer_def)
qed

theorem sc_CER_answered_witness:
  "\<exists>c' bs cea. sc_handleMessage False (marshalHeader (bare_header 257 True)) example_sc = Some (None, c') \<and>
     sc_sendChan c' = [bs] \<and> CEA_Unmarshal bs CEA_zero = Inr cea \<and> cea_ResultCode cea = 2001 \<and>
     hdr_HopByHopID (cea_Header cea) = 77 \<and> sc_state c' = StateOpen"
proof -
  let ?m = "marshalHeader (bare_header 257 True)"
  have p: "ParseMessageHeader ?m = Inr (info_of_header (bare_header 257 True))"
    by (rule bare_header_parsed) simp
  have u: "CER_Unmarshal ?m CER_zero = Inr (CER_zero\<lparr>cer_Header := bare_header 257 True\<rparr>)"
    by (simp add: CER_Unmarshal_def unmarshalMessage_def bare_header_parsed)
  show ?thesis
    using sc_CER_answered [OF p _ u, of example_sc "[127, 0, 0, 1]" False]
    by (auto simp: info_of_header_def bare_header_def sane_identity_def canonical_address_def)
qed

text \<open>
  With \<^verbatim>\<open>HandleWatchdog\<close> set, every message with command code 280 is answered by a DWA with its
  ids and the pending requests are left alone. The request bit is not consulted: a DWA is answered
  by another DWA, and a request of code 280 sent with \<^verbatim>\<open>SendRequest\<close> never sees its answer.
\<close>

theorem sc_watchdog_answered:
  assumes "ParseMessageHeader msg = Inr info" and "mi_CommandCode info = 280"
    and "scf_HandleWatchdog (sc_config c)"
    and "sane_identity (scf_OriginHost (sc_config c)) (scf_OriginRealm (sc_config c))"
    and "length (sc_sendChan c) < scf_SendChannelSize (sc_config c)" and "\<not> sc_closeChan c"
  shows "\<exists>bs dwa. sc_handleMessage pick msg c = Some (None, c\<lparr>sc_sendChan := sc_sendChan c @ [bs]\<rparr>) \<and>
    DWA_Unmarshal bs DWA_zero = Inr dwa \<and> dwa_ResultCode dwa = 2001 \<and>
    hdr_HopByHopID (dwa_Header dwa) = mi_HopByHopID info \<and>
    hdr_EndToEndID (dwa_Header dwa) = mi_EndToEndID info \<and> \<not> fl_Request (hdr_Flags (dwa_Header dwa))"
proof -
  let ?cfg = "sc_config c"
  obtain dwa bs where m: "DWA_Marshal (success_DWA (mi_HopByHopID info) (mi_EndToEndID info)
      (scf_OriginHost ?cfg) (scf_OriginRealm ?cfg)) = Inr (dwa, bs)"
    and u: "DWA_Unmarshal bs DWA_zero = Inr dwa"
    and dwa: "dwa = (success_DWA (mi_HopByHopID info) (mi_EndToEndID info) (scf_OriginHost ?cfg)
        (scf_OriginRealm ?cfg))\<lparr>dwa_Header := (dwa_Header (success_DWA (mi_HopByHopID info) (mi_EndToEndID info)
          (scf_OriginHost ?cfg) (scf_OriginRealm ?cfg)))\<lparr>hdr_Length := word_of_nat (length bs)\<rparr>\<rparr>"
    using success_DWA_codec [OF assms(4)] by blast
  have "sc_handleMessage pick msg c = Some (None, c\<lparr>sc_sendChan := sc_sendChan c @ [bs]\<rparr>)"
    using assms m ParseMessageHeader_length [OF assms(1)]
    by (simp add: sc_handleMessage_def sc_handleDWR_def sc_Send_def)
  with u dwa show ?thesis
    by (intro exI [of _ bs] exI [of _ dwa]) (simp add: success_defs)
qed

theorem sc_watchdog_answered_witness:
  "\<exists>bs dwa. sc_handleMessage False (marshalHeader (bare_header 280 False)) example_sc =
       Some (None, example_sc\<lparr>sc_sendChan := [bs]\<rparr>) \<and>
     DWA_Unmarshal bs DWA_zero = Inr dwa \<and> hdr_HopByHopID (dwa_Header dwa) = 77"
proof -
  have p: "ParseMessageHeader (marshalHeader (bare_header 280 False)) = Inr (info_of_header (bare_header 280 False))"
    by (rule bare_header_parsed) simp
  show ?thesis
    using sc_watchdog_answered [OF p, of example_sc False]
    by (auto simp: info_of_header_def bare_header_def sane_identity_def)
qed

text \<open>
  A request sent with \<^verbatim>\<open>SendRequest\<close> is queued once and registered under its Hop-by-Hop id; an
  answer of an application command with that id, whatever happened to the connection meanwhile,
  reaches exactly this request, and the table is then as if the request had never been.
\<close>

theorem sc_request_answered:
  assumes "sc_SendRequest pick req c = (Inr h, c1)"
    and "ParseMessageHeader ans = Inr info" and "\<not> mf_Request (mi_Flags info)"
    and "mi_CommandCode info \<notin> {257, 280, 282}" and "mi_HopByHopID info = h"
    and "sc_pendingReqs c2 h = sc_pendingReqs c1 h"
  shows "sc_sendChan c1 = sc_sendChan c @ [req] \<and> h = Uint32 (bslice 12 16 req) \<and>
    (\<exists>c3. sc_handleMessage pick' ans c2 = Some (None, c3) \<and>
      (\<forall>k. k \<noteq> h \<longrightarrow> sc_pendingReqs c3 k = sc_pendingReqs c2 k) \<and>
      sc_EndRequest WakeResponse h c3 =
        Some (Inr ans, c2\<lparr>sc_pendingReqs := (sc_pendingReqs c2)(h := None)\<rparr>))"
proof -
  have 1: "sc_sendChan c1 = sc_sendChan c @ [req]" "h = Uint32 (bslice 12 16 req)" "sc_pendingReqs c1 h = Some []"
    using assms(1) by (auto simp: sc_SendRequest_def sc_Send_def Let_def split: if_splits)
  then have "sc_handleMessage pick' ans c2 =
      Some (None, c2\<lparr>sc_pendingReqs := (sc_pendingReqs c2)(h \<mapsto> [ans])\<rparr>)"
    using assms ParseMessageHeader_length [OF assms(2)]
    by (simp add: sc_handleMessage_def sc_deliver_def)
  with 1 show ?thesis
    by (simp add: sc_EndRequest_def)
qed

theorem sc_request_answered_witness:
  "\<exists>c1 c3. sc_SendRequest False (marshalHeader (bare_header 300 True)) example_sc = (Inr 77, c1) \<and>
     sc_handleMessage False (marshalHeader (bare_header 300 False)) c1 = Some (None, c3) \<and>
     sc_EndRequest WakeResponse 77 c3 = Some (Inr (marshalHeader (bare_header 300 False)),
       c1\<lparr>sc_pendingReqs := Map.empty\<rparr>)"
proof -
  let ?q = "marshalHeader (bare_header 300 True)" and ?a = "marshalHeader (bare_header 300 False)"
  let ?c1 = "example_sc\<lparr>sc_pendingReqs := [77 \<mapsto> []], sc_sendChan := [?q]\<rparr>"
  have s: "sc_SendRequest False ?q example_sc = (Inr 77, ?c1)"
    by (simp add: sc_SendRequest_def sc_Send_def marshalHeader_def bslice_def bare_header_def PutUint32_def
        Let_def wire_simps)
  have p: "ParseMessageHeader ?a = Inr (info_of_header (bare_header 300 False))"
    by (rule bare_header_parsed) simp
  show ?thesis
    using sc_request_answered [OF s p, of ?c1 False] s
    by (auto simp: info_of_header_def bare_header_def)
qed

section \<open>The loops and \<^verbatim>\<open>Close\<close>\<close>

text \<open>
  The three goroutines of \<^verbatim>\<open>Start\<close>. A loop is at the top of its body, the reader may be blocked in a
  read or hold a message it has read, a loop may be inside \<^verbatim>\<open>Close\<close>, and it may have returned.
  \<^verbatim>\<open>closeOnce\<close> has not run, runs, or is done; \<open>ss_callers\<close> counts the other goroutines inside \<^verbatim>\<open>Close\<close>.
  \<^verbatim>\<open>closeOnce.Do\<close> lets a second caller wait for the first, and the first waits in \<^verbatim>\<open>wg.Wait\<close> for the
  three loops.
\<close>

datatype loop = Reader | Writer | Processor

datatype phase = AtTop | InRead | Holding bytes | InClose | Exited

datatype once = NotRun | Running | OnceDone

record sc_sys =
  ss_conn :: ServerConn
  ss_phase :: "loop \<Rightarrow> phase"
  ss_once :: once
  ss_callers :: nat

definition sc_Start :: "ServerConn \<Rightarrow> sc_sys" where
  "sc_Start c = \<lparr>ss_conn = c, ss_phase = (\<lambda>_. AtTop), ss_once = NotRun, ss_callers = 0\<rparr>"

text \<open>What the first caller does inside \<^verbatim>\<open>closeOnce.Do\<close> before it waits.\<close>

definition sc_closeBody :: "ServerConn \<Rightarrow> ServerConn" where
  "sc_closeBody c = c\<lparr>sc_state := StateClosed, sc_closeChan := True, sc_sockClosed := True\<rparr>"

definition beginClose :: "sc_sys \<Rightarrow> sc_sys" where
  "beginClose s =
     (if ss_once s = NotRun then s\<lparr>ss_conn := sc_closeBody (ss_conn s), ss_once := Running\<rparr> else s)"

definition setPhase :: "loop \<Rightarrow> phase \<Rightarrow> sc_sys \<Rightarrow> sc_sys" where
  "setPhase g p s = s\<lparr>ss_phase := (ss_phase s)(g := p)\<rparr>"

text \<open>A loop calls \<^verbatim>\<open>c.Close()\<close>, after which it returns.\<close>

definition loopClose :: "loop \<Rightarrow> sc_sys \<Rightarrow> sc_sys" where
  "loopClose g s = setPhase g (if ss_once s = OnceDone then Exited else InClose) (beginClose s)"

definition countError :: "ServerConn \<Rightarrow> ServerConn" where
  "countError c = c\<lparr>sc_Errors := sc_Errors c + 1\<rparr>"

definition countWrite :: "bytes \<Rightarrow> ServerConn \<Rightarrow> ServerConn" where
  "countWrite msg c = c\<lparr>sc_MessagesSent := sc_MessagesSent c + 1,
     sc_BytesSent := sc_BytesSent c + word_of_nat (length msg), sc_written := sc_written c @ [msg]\<rparr>"

inductive sc_step :: "sc_sys \<Rightarrow> sc_sys \<Rightarrow> bool" where
  ss_arrive: "sc_step s (s\<lparr>ss_conn := (ss_conn s)\<lparr>sc_inbound := sc_inbound (ss_conn s) @ bs\<rparr>\<rparr>)"
| ss_exit: "ss_phase s g = AtTop \<Longrightarrow> sc_closeChan (ss_conn s) \<Longrightarrow> sc_step s (setPhase g Exited s)"
| ss_deadline: "ss_phase s Reader = AtTop \<Longrightarrow> sc_sockClosed (ss_conn s) \<Longrightarrow> sc_step s (loopClose Reader s)"
| ss_read: "ss_phase s Reader = AtTop \<Longrightarrow> sc_step s (setPhase Reader InRead s)"
| ss_got: "ss_phase s Reader = InRead \<Longrightarrow> \<not> sc_sockClosed (ss_conn s) \<Longrightarrow>
    sc_readOne (scf_MaxMessageSize (sc_config (ss_conn s))) (sc_inbound (ss_conn s)) = (Inr msg, rest) \<Longrightarrow>
    sc_step s (setPhase Reader (Holding msg)
      (s\<lparr>ss_conn := countRead msg ((ss_conn s)\<lparr>sc_inbound := rest\<rparr>)\<rparr>))"
| ss_bad: "ss_phase s Reader = InRead \<Longrightarrow> \<not> sc_sockClosed (ss_conn s) \<Longrightarrow>
    sc_readOne (scf_MaxMessageSize (sc_config (ss_conn s))) (sc_inbound (ss_conn s)) = (Inl e, rest) \<Longrightarrow>
    sc_step s (loopClose Reader (s\<lparr>ss_conn := countReadError e ((ss_conn s)\<lparr>sc_inbound := rest\<rparr>)\<rparr>))"
| ss_readerr: "ss_phase s Reader = InRead \<Longrightarrow> e \<in> {SCHeaderRead (NetErr t), SCBodyRead (NetErr t)} \<Longrightarrow>
    sc_step s (loopClose Reader (s\<lparr>ss_conn := countReadError e (ss_conn s)\<rparr>))"
| ss_push: "ss_phase s Reader = Holding msg \<Longrightarrow>
    length (sc_processChan (ss_conn s)) < scf_RecvChannelSize (sc_config (ss_conn s)) \<Longrightarrow>
    sc_step s (setPhase Reader AtTop
      (s\<lparr>ss_conn := (ss_conn s)\<lparr>sc_processChan := sc_processChan (ss_conn s) @ [msg]\<rparr>\<rparr>))"
| ss_drop: "ss_phase s Reader = Holding msg \<Longrightarrow> sc_closeChan (ss_conn s) \<Longrightarrow>
    sc_step s (setPhase Reader Exited s)"
| ss_write: "ss_phase s Writer = AtTop \<Longrightarrow> sc_sendChan (ss_conn s) = msg # ms \<Longrightarrow>
    \<not> sc_sockClosed (ss_conn s) \<Longrightarrow>
    sc_step s (s\<lparr>ss_conn := countWrite msg ((ss_conn s)\<lparr>sc_sendChan := ms\<rparr>)\<rparr>)"
| ss_writedeadline: "ss_phase s Writer = AtTop \<Longrightarrow> sc_sendChan (ss_conn s) = msg # ms \<Longrightarrow>
    sc_step s (s\<lparr>ss_conn := countError ((ss_conn s)\<lparr>sc_sendChan := ms\<rparr>)\<rparr>)"
| ss_writeerr: "ss_phase s Writer = AtTop \<Longrightarrow> sc_sendChan (ss_conn s) = msg # ms \<Longrightarrow>
    sc_step s (loopClose Writer (s\<lparr>ss_conn := countError ((ss_conn s)\<lparr>sc_sendChan := ms\<rparr>)\<rparr>))"
| ss_process: "ss_phase s Processor = AtTop \<Longrightarrow> sc_processChan (ss_conn s) = msg # ms \<Longrightarrow>
    sc_handleMessage pick msg ((ss_conn s)\<lparr>sc_processChan := ms\<rparr>) = Some (err, c') \<Longrightarrow>
    sc_step s (s\<lparr>ss_conn := (if err = None then c' else countError c')\<rparr>)"
| ss_take: "sc_receiveChan (ss_conn s) = msg # ms \<Longrightarrow>
    sc_step s (s\<lparr>ss_conn := (ss_conn s)\<lparr>sc_receiveChan := ms\<rparr>\<rparr>)"
| ss_close: "sc_step s ((beginClose s)\<lparr>ss_callers := ss_callers s + (if ss_once s = OnceDone then 0 else 1)\<rparr>)"
| ss_waited: "ss_once s = Running \<Longrightarrow> \<forall>g. ss_phase s g = Exited \<Longrightarrow> sc_step s (s\<lparr>ss_once := OnceDone\<rparr>)"
| ss_return: "ss_once s = OnceDone \<Longrightarrow> 0 < ss_callers s \<Longrightarrow> sc_step s (s\<lparr>ss_callers := ss_callers s - 1\<rparr>)"
| ss_loopreturn: "ss_once s = OnceDone \<Longrightarrow> ss_phase s g = InClose \<Longrightarrow> sc_step s (setPhase g Exited s)"

inductive_cases sc_stepE: "sc_step s s'"

abbreviation sc_steps :: "sc_sys \<Rightarrow> sc_sys \<Rightarrow> bool" where
  "sc_steps \<equiv> sc_step\<^sup>*\<^sup>*"

text \<open>\<^verbatim>\<open>Close\<close> has started and the loop \<open>g\<close> waits, or will have to wait, for it.\<close>

definition stuck_close :: "loop \<Rightarrow> sc_sys \<Rightarrow> bool" where
  "stuck_close g s \<longleftrightarrow> ss_once s = Running \<and> sc_sockClosed (ss_conn s) \<and>
     (ss_phase s g = InClose \<or> g = Reader \<and> ss_phase s Reader = InRead)"

lemma handler_keeps_socket:
  "sc_handleMessage pick msg c = Some (err, c') \<Longrightarrow> sc_sockClosed c' = sc_sockClosed c"
  by (auto simp: sc_handleMessage_def sc_handleCER_def sc_handleDWR_def sc_handleDPR_def sc_forward_def
      sc_deliver_def sc_Send_def recordPeer_def Let_def split: sum.splits if_splits option.splits prod.splits)

lemma counters_keep_socket [simp]:
  "sc_sockClosed (countRead m c) = sc_sockClosed c" "sc_sockClosed (countReadError e c) = sc_sockClosed c"
  "sc_sockClosed (countError c) = sc_sockClosed c" "sc_sockClosed (countWrite m c) = sc_sockClosed c"
  by (simp_all add: countRead_def countReadError_def countError_def countWrite_def split: sc_read_error.split)

lemma setPhase_simps [simp]:
  "ss_conn (setPhase g p s) = ss_conn s" "ss_once (setPhase g p s) = ss_once s"
  "ss_callers (setPhase g p s) = ss_callers s" "ss_phase (setPhase g p s) = (ss_phase s)(g := p)"
  by (simp_all add: setPhase_def)

lemma beginClose_simps [simp]:
  "ss_callers (beginClose s) = ss_callers s" "ss_phase (beginClose s) = ss_phase s"
  "ss_once s = NotRun \<Longrightarrow> ss_once (beginClose s) = Running"
  "ss_once s = NotRun \<Longrightarrow> sc_sockClosed (ss_conn (beginClose s))"
  "ss_once s = Running \<Longrightarrow> beginClose s = s"
  by (simp_all add: beginClose_def sc_closeBody_def)

lemma loopClose_Running: "ss_once s = Running \<Longrightarrow> loopClose g s = setPhase g InClose s"
  by (simp add: loopClose_def)

lemma stuck_close_step:
  assumes "stuck_close g s" and "sc_step s s'"
  shows "stuck_close g s' \<and> ss_callers s \<le> ss_callers s'"
proof -
  have s: "ss_once s = Running" "sc_sockClosed (ss_conn s)" "ss_phase s g \<noteq> Exited"
    "ss_phase s g = InClose \<or> g = Reader \<and> ss_phase s Reader = InRead"
    using assms(1) by (auto simp: stuck_close_def)
  show ?thesis
    using assms(2)
  proof cases
    case ss_waited
    with s(3) show ?thesis by simp
  next
    case (ss_process msg ms pick err c')
    with s show ?thesis
      by (simp add: stuck_close_def handler_keeps_socket [OF ss_process(4)])
  qed (use s in \<open>force simp: stuck_close_def loopClose_Running\<close>)+
qed

text \<open>
  C28. \<^verbatim>\<open>Close\<close> cannot return when a loop is involved: once \<^verbatim>\<open>Close\<close> has been started by one of the
  loops, or by anyone while the reader is blocked in a read, no continuation lets \<^verbatim>\<open>closeOnce\<close>
  finish, so the caller, the loop and every later caller of \<^verbatim>\<open>Close\<close> wait for ever.
\<close>

theorem sc_Close_never_returns:
  assumes "ss_once s = NotRun"
    and "(\<exists>g. s1 = loopClose g s) \<or>
      ss_phase s Reader = InRead \<and> s1 = (beginClose s)\<lparr>ss_callers := ss_callers s + 1\<rparr>"
    and "sc_steps s1 s2"
  shows "ss_once s2 = Running \<and> ss_callers s1 \<le> ss_callers s2"
proof -
  have "\<exists>g. stuck_close g s1"
    using assms(2)
  proof (elim disjE exE conjE)
    fix g
    assume "s1 = loopClose g s"
    then have "stuck_close g s1"
      using assms(1) by (simp add: stuck_close_def loopClose_def)
    then show ?thesis ..
  next
    assume "ss_phase s Reader = InRead" "s1 = (beginClose s)\<lparr>ss_callers := ss_callers s + 1\<rparr>"
    then have "stuck_close Reader s1"
      using assms(1) by (simp add: stuck_close_def)
    then show ?thesis ..
  qed
  then obtain g where i: "stuck_close g s1" ..
  have "stuck_close g s2 \<and> ss_callers s1 \<le> ss_callers s2"
    using assms(3)
  proof (induction rule: rtranclp_induct)
    case (step y z)
    then show ?case
      using stuck_close_step [of g y z] by simp
  qed (use i in simp)
  then show ?thesis
    by (simp add: stuck_close_def)
qed

theorem sc_Close_never_returns_witness:
  "\<exists>s s1. sc_steps (sc_Start example_sc) s \<and> sc_step s s1 \<and> ss_callers s1 = 1 \<and>
     (\<forall>s2. sc_steps s1 s2 \<longrightarrow> ss_once s2 = Running \<and> 1 \<le> ss_callers s2)"
proof -
  define s where "s = setPhase Reader InRead (sc_Start example_sc)"
  define s1 where "s1 = (beginClose s)\<lparr>ss_callers := ss_callers s + 1\<rparr>"
  have s: "ss_once s = NotRun" "ss_phase s Reader = InRead" "ss_callers s = 0"
    by (simp_all add: s_def sc_Start_def)
  have r: "sc_step (sc_Start example_sc) s"
    unfolding s_def by (rule ss_read) (simp add: sc_Start_def)
  have c: "sc_step s s1"
    using ss_close [of s] s by (simp add: s1_def)
  have d: "(\<exists>g. s1 = loopClose g s) \<or>
      ss_phase s Reader = InRead \<and> s1 = (beginClose s)\<lparr>ss_callers := ss_callers s + 1\<rparr>"
    using s(2) s1_def by blast
  have n: "ss_callers s1 = 1"
    by (simp add: s1_def s)
  have "ss_once s2 = Running \<and> 1 \<le> ss_callers s2" if "sc_steps s1 s2" for s2
    using sc_Close_never_returns [OF s(1) d that] n by simp
  then show ?thesis
    using r c n by blast
qed

end
