(* ===== verification/Diam_Server.thy ===== *)
theory Diam_Server
  imports Server_Conn
begin

text \<open>
  The server (\<^verbatim>\<open>server/server.go\<close>): its statistics, the response writer, the handler table with the
  default CER, DWR and DPR handlers, the middleware chain, and the accept loop with the serving
  goroutines as a step relation. What a handler may do to the server is the locale
  \<open>server_handler\<close>. The lemmas show what the default handlers answer, that the statistics add up and
  that the number of served connections never exceeds the configured maximum.
\<close>

section \<open>Statistics\<close>

record CommandStats =
  cs_MessagesReceived :: u64
  cs_MessagesSent :: u64
  cs_BytesReceived :: u64
  cs_BytesSent :: u64
  cs_Errors :: u64

record InterfaceStats =
  is_MessagesReceived :: u64
  is_MessagesSent :: u64
  is_BytesReceived :: u64
  is_BytesSent :: u64
  is_Errors :: u64
  is_CommandStats :: "int \<rightharpoonup> CommandStats"

record ServerStats =
  st_TotalConnections :: u64
  st_ActiveConnections :: u64
  st_TotalMessages :: u64
  st_MessagesSent :: u64
  st_MessagesReceived :: u64
  st_TotalBytesSent :: u64
  st_TotalBytesReceived :: u64
  st_Errors :: u64
  st_InterfaceStats :: "int \<rightharpoonup> InterfaceStats"

definition zeroCommandStats :: CommandStats where
  "zeroCommandStats = \<lparr>cs_MessagesReceived = 0, cs_MessagesSent = 0, cs_BytesReceived = 0,
     cs_BytesSent = 0, cs_Errors = 0\<rparr>"

definition newInterfaceStats :: InterfaceStats where
  "newInterfaceStats = \<lparr>is_MessagesReceived = 0, is_MessagesSent = 0, is_BytesReceived = 0,
     is_BytesSent = 0, is_Errors = 0, is_CommandStats = Map.empty\<rparr>"

definition newServerStats :: ServerStats where
  "newServerStats = \<lparr>st_TotalConnections = 0, st_ActiveConnections = 0, st_TotalMessages = 0,
     st_MessagesSent = 0, st_MessagesReceived = 0, st_TotalBytesSent = 0, st_TotalBytesReceived = 0,
     st_Errors = 0, st_InterfaceStats = Map.empty\<rparr>"

text \<open>The entry of a key, and the table with the entry in it.\<close>

definition getOrCreateInterfaceStats :: "int \<Rightarrow> ServerStats \<Rightarrow> InterfaceStats \<times> ServerStats" where
  "getOrCreateInterfaceStats appID st =
     (case st_InterfaceStats st appID of
        Some stats \<Rightarrow> (stats, st)
      | None \<Rightarrow> (newInterfaceStats,
          st\<lparr>st_InterfaceStats := (st_InterfaceStats st)(appID \<mapsto> newInterfaceStats)\<rparr>))"

definition getOrCreateCommandStats :: "int \<Rightarrow> InterfaceStats \<Rightarrow> CommandStats \<times> InterfaceStats" where
  "getOrCreateCommandStats cmdCode ifStats =
     (case is_CommandStats ifStats cmdCode of
        Some stats \<Rightarrow> (stats, ifStats)
      | None \<Rightarrow> (zeroCommandStats,
          ifStats\<lparr>is_CommandStats := (is_CommandStats ifStats)(cmdCode \<mapsto> zeroCommandStats)\<rparr>))"

text \<open>
  The statistics of one received and of one sent message, with the command of its header. The
  pointers the look-ups return are updated in place.
\<close>

definition countReceivedCommand :: "Command \<Rightarrow> u32 \<Rightarrow> ServerStats \<Rightarrow> ServerStats" where
  "countReceivedCommand cmd len st =
     (let (ifStats, st1) = getOrCreateInterfaceStats (cmd_Interface cmd) st;
          if1 = ifStats\<lparr>is_MessagesReceived := is_MessagesReceived ifStats + 1,
                        is_BytesReceived := is_BytesReceived ifStats + ucast len\<rparr>;
          (cmdStats, if2) = getOrCreateCommandStats (cmd_Code cmd) if1;
          cs1 = cmdStats\<lparr>cs_MessagesReceived := cs_MessagesReceived cmdStats + 1,
                         cs_BytesReceived := cs_BytesReceived cmdStats + ucast len\<rparr>;
          if3 = if2\<lparr>is_CommandStats := (is_CommandStats if2)(cmd_Code cmd \<mapsto> cs1)\<rparr>
      in st1\<lparr>st_InterfaceStats := (st_InterfaceStats st1)(cmd_Interface cmd \<mapsto> if3)\<rparr>)"

definition countSentCommand :: "Command \<Rightarrow> nat \<Rightarrow> ServerStats \<Rightarrow> ServerStats" where
  "countSentCommand cmd n st =
     (let (ifStats, st1) = getOrCreateInterfaceStats (cmd_Interface cmd) st;
          if1 = ifStats\<lparr>is_MessagesSent := is_MessagesSent ifStats + 1,
                        is_BytesSent := is_BytesSent ifStats + word_of_nat n\<rparr>;
          (cmdStats, if2) = getOrCreateCommandStats (cmd_Code cmd) if1;
          cs1 = cmdStats\<lparr>cs_MessagesSent := cs_MessagesSent cmdStats + 1,
                         cs_BytesSent := cs_BytesSent cmdStats + word_of_nat n\<rparr>;
          if3 = if2\<lparr>is_CommandStats := (is_CommandStats if2)(cmd_Code cmd \<mapsto> cs1)\<rparr>
      in st1\<lparr>st_InterfaceStats := (st_InterfaceStats st1)(cmd_Interface cmd \<mapsto> if3)\<rparr>)"

definition countReceived :: "u32 \<Rightarrow> ServerStats \<Rightarrow> ServerStats" where
  "countReceived len st = st\<lparr>st_TotalMessages := st_TotalMessages st + 1,
     st_MessagesReceived := st_MessagesReceived st + 1,
     st_TotalBytesReceived := st_TotalBytesReceived st + ucast len\<rparr>"

definition countSent :: "nat \<Rightarrow> ServerStats \<Rightarrow> ServerStats" where
  "countSent n st = st\<lparr>st_MessagesSent := st_MessagesSent st + 1,
     st_TotalBytesSent := st_TotalBytesSent st + word_of_nat n\<rparr>"

definition addError :: "ServerStats \<Rightarrow> ServerStats" where
  "addError st = st\<lparr>st_Errors := st_Errors st + 1\<rparr>"

section \<open>What handlers see\<close>

text \<open>
  The accepted connections are numbered. \<open>wc_open\<close> says that the socket has not been closed here,
  \<open>wc_broken\<close> that the peer or the network makes writes fail; \<open>w_connections\<close> is the server's map by
  remote address, \<open>w_closeTimers\<close> the connections with a running close timer. \<open>w_now\<close> is the clock and
  \<open>w_limiters\<close> the variables the rate-limiting middlewares share between calls.
\<close>

record server_conn =
  wc_remote :: gostring
  wc_open :: bool
  wc_broken :: bool
  wc_written :: "bytes list"

record limiter =
  lim_lastReset :: int
  lim_requestCount :: int

record server_world =
  w_stats :: ServerStats
  w_conns :: "nat \<rightharpoonup> server_conn"
  w_connections :: "gostring \<rightharpoonup> nat"
  w_closeTimers :: "nat list"
  w_now :: int
  w_limiters :: "nat \<Rightarrow> limiter"

text \<open>
  A handler returns, panics in its own goroutine, or brings the process down because a goroutine
  without \<^verbatim>\<open>recover\<close> panicked.
\<close>

datatype outcome = Returned | Panicked | Crashed

type_synonym handler = "Message \<Rightarrow> nat \<Rightarrow> server_world \<Rightarrow> outcome \<times> server_world"

type_synonym middleware = "handler \<Rightarrow> handler"

definition updStats :: "(ServerStats \<Rightarrow> ServerStats) \<Rightarrow> server_world \<Rightarrow> server_world" where
  "updStats f w = w\<lparr>w_stats := f (w_stats w)\<rparr>"

definition canWrite :: "nat \<Rightarrow> server_world \<Rightarrow> bool" where
  "canWrite i w = (case w_conns w i of None \<Rightarrow> False | Some k \<Rightarrow> wc_open k \<and> \<not> wc_broken k)"

text \<open>\<^verbatim>\<open>conn.Write\<close> of \<^verbatim>\<open>pkg/connection\<close>: the bytes are buffered and flushed in one piece, or an error.\<close>

definition conn_Write :: "bytes \<Rightarrow> nat \<Rightarrow> server_world \<Rightarrow> nat option \<times> server_world" where
  "conn_Write b i w =
     (if canWrite i w
      then (Some (length b), w\<lparr>w_conns := (w_conns w)(i := map_option
              (\<lambda>k. k\<lparr>wc_written := wc_written k @ [b]\<rparr>) (w_conns w i))\<rparr>)
      else (None, w))"

definition response_Write :: "bytes \<Rightarrow> nat \<Rightarrow> server_world \<Rightarrow> nat option \<times> server_world" where
  "response_Write b i w =
     (case conn_Write b i w of
        (None, w1) \<Rightarrow> (None, updStats addError w1)
      | (Some n, w1) \<Rightarrow>
          let w2 = updStats (countSent n) w1
          in if 20 \<le> length b
             then (case ParseCommand (take 20 b) of
                     Inr cmd \<Rightarrow> (Some n, updStats (countSentCommand cmd n) w2)
                   | Inl err \<Rightarrow> (Some n, w2))
             else (Some n, w2))"

definition conn_Close :: "nat \<Rightarrow> server_world \<Rightarrow> server_world" where
  "conn_Close i w = w\<lparr>w_conns := (w_conns w)(i := map_option (\<lambda>k. k\<lparr>wc_open := False\<rparr>) (w_conns w i))\<rparr>"

section \<open>The server and its handlers\<close>

record ServerConfig =
  svc_ListenAddress :: gostring
  svc_MaxConnections :: int
  svc_ConnectionConfig :: sc_Config

definition DefaultServerConfig :: ServerConfig where
  "DefaultServerConfig = \<lparr>svc_ListenAddress = gostr ''0.0.0.0:3868'', svc_MaxConnections = 1000,
     svc_ConnectionConfig = sc_DefaultConfig\<rparr>"

record Server =
  sv_config :: ServerConfig
  sv_HandlerMux :: "Command \<rightharpoonup> handler"
  sv_middlewares :: "middleware list"

text \<open>
  The default handlers. \<open>parseIP\<close> is \<^verbatim>\<open>net.ParseIP\<close>, \<open>None\<close> its nil, and \<^verbatim>\<open>Address(nil)\<close> is empty. When
  \<^verbatim>\<open>Marshal\<close> fails its error is ignored and the nil slice is written.
\<close>

definition parsedAddress :: "(gostring \<Rightarrow> bytes option) \<Rightarrow> gostring \<Rightarrow> bytes" where
  "parsedAddress parseIP s = (case parseIP s of None \<Rightarrow> [] | Some ip \<Rightarrow> ip)"

definition marshalled :: "(codec_error, 'm \<times> bytes) result \<Rightarrow> bytes" where
  "marshalled r = (case r of Inl err \<Rightarrow> [] | Inr (_, bs) \<Rightarrow> bs)"

definition defaultCER :: "(gostring \<Rightarrow> bytes option) \<Rightarrow> ServerConfig \<Rightarrow> handler" where
  "defaultCER parseIP cfg msg i w =
     (case CER_Unmarshal (msg_Header msg @ msg_Body msg) CER_zero of
        Inl err \<Rightarrow> (Returned, w)
      | Inr cer \<Rightarrow>
          let cc = svc_ConnectionConfig cfg;
              cea = success_CEA (hdr_HopByHopID (cer_Header cer)) (hdr_EndToEndID (cer_Header cer))
                (scf_OriginHost cc) (scf_OriginRealm cc) (scf_ProductName cc) 10415
                [parsedAddress parseIP (svc_ListenAddress cfg)]
          in (Returned, snd (response_Write (marshalled (CEA_Marshal cea)) i w)))"

definition defaultDWR :: "ServerConfig \<Rightarrow> handler" where
  "defaultDWR cfg msg i w =
     (case DWR_Unmarshal (msg_Header msg @ msg_Body msg) DWR_zero of
        Inl err \<Rightarrow> (Returned, w)
      | Inr dwr \<Rightarrow>
          let cc = svc_ConnectionConfig cfg;
              dwa = success_DWA (hdr_HopByHopID (dwr_Header dwr)) (hdr_EndToEndID (dwr_Header dwr))
                (scf_OriginHost cc) (scf_OriginRealm cc)
          in (Returned, snd (response_Write (marshalled (DWA_Marshal dwa)) i w)))"

definition defaultDPR :: "ServerConfig \<Rightarrow> handler" where
  "defaultDPR cfg msg i w =
     (case DPR_Unmarshal (msg_Header msg @ msg_Body msg) DPR_zero of
        Inl err \<Rightarrow> (Returned, w)
      | Inr dpr \<Rightarrow>
          let cc = svc_ConnectionConfig cfg;
              dpa = success_DPA (hdr_HopByHopID (dpr_Header dpr)) (hdr_EndToEndID (dpr_Header dpr))
                (scf_OriginHost cc) (scf_OriginRealm cc);
              w1 = snd (response_Write (marshalled (DPA_Marshal dpa)) i w)
          in (Returned, w1\<lparr>w_closeTimers := w_closeTimers w1 @ [i]\<rparr>))"

definition sv_HandleFunc :: "Command \<Rightarrow> handler \<Rightarrow> Server \<Rightarrow> Server" where
  "sv_HandleFunc cmd handler s = s\<lparr>sv_HandlerMux := (sv_HandlerMux s)(cmd \<mapsto> handler)\<rparr>"

definition NewServer :: "(gostring \<Rightarrow> bytes option) \<Rightarrow> ServerConfig option \<Rightarrow> Server" where
  "NewServer parseIP config =
     (let cfg = (case config of None \<Rightarrow> DefaultServerConfig | Some c \<Rightarrow> c);
          s = \<lparr>sv_config = cfg, sv_HandlerMux = Map.empty, sv_middlewares = []\<rparr>;
          s1 = sv_HandleFunc \<lparr>cmd_Interface = 0, cmd_Code = 257, cmd_Request = True\<rparr> (defaultCER parseIP cfg) s;
          s2 = sv_HandleFunc \<lparr>cmd_Interface = 0, cmd_Code = 280, cmd_Request = True\<rparr> (defaultDWR cfg) s1
      in sv_HandleFunc \<lparr>cmd_Interface = 0, cmd_Code = 282, cmd_Request = True\<rparr> (defaultDPR cfg) s2)"

definition Use :: "middleware \<Rightarrow> Server \<Rightarrow> Server" where
  "Use mw s = s\<lparr>sv_middlewares := sv_middlewares s @ [mw]\<rparr>"

text \<open>The loop of \<^verbatim>\<open>wrapHandler\<close> from the last index down to the first.\<close>

primrec wrapFrom :: "nat \<Rightarrow> middleware list \<Rightarrow> handler \<Rightarrow> handler" where
  "wrapFrom 0 ms wrapped = wrapped"
| "wrapFrom (Suc i) ms wrapped = wrapFrom i ms ((ms ! i) wrapped)"

definition wrapHandler :: "handler \<Rightarrow> Server \<Rightarrow> handler" where
  "wrapHandler handler s = wrapFrom (length (sv_middlewares s)) (sv_middlewares s) handler"

definition getHandler :: "Command \<Rightarrow> Server \<Rightarrow> handler option" where
  "getHandler cmd s =
     (case sv_HandlerMux s cmd of None \<Rightarrow> None | Some handler \<Rightarrow> Some (wrapHandler handler s))"

section \<open>Serving\<close>

text \<open>
  One round of the loop of \<^verbatim>\<open>serve\<close> on a message that was read: the statistics, and the handler it
  starts. The handler runs in a goroutine of its own on both branches; the \<^verbatim>\<open>recover\<close> of the second
  one is in the goroutine that starts it, so a panic of the handler is never recovered.
\<close>

definition serveMessage :: "Server \<Rightarrow> Message \<Rightarrow> server_world \<Rightarrow> handler option \<times> server_world" where
  "serveMessage s m w =
     (let w1 = updStats (countReceived (msg_Length m)) w
      in case ParseCommand (msg_Header m) of
           Inl err \<Rightarrow> (None, updStats addError w1)
         | Inr cmd \<Rightarrow> (getHandler cmd s, updStats (countReceivedCommand cmd (msg_Length m)) w1))"

definition goHandler :: "handler \<Rightarrow> handler" where
  "goHandler h m i w =
     (case h m i w of (Returned, w') \<Rightarrow> (Returned, w') | (_, w') \<Rightarrow> (Crashed, w'))"

text \<open>
  The end of \<^verbatim>\<open>serve\<close> after a failed read, with the deferred function. The error of a body that ends
  early is a new one, so only a clean or an early end in the header is not counted.
\<close>

definition serveEnd :: "read_error \<Rightarrow> nat \<Rightarrow> server_world \<Rightarrow> server_world" where
  "serveEnd err i w =
     (let w1 = conn_Close i w;
          w2 = (if err = HeaderRead EOF \<or> err = HeaderRead UnexpectedEOF then w1 else updStats addError w1);
          w3 = conn_Close i w2
      in updStats (\<lambda>st. st\<lparr>st_ActiveConnections := st_ActiveConnections st + NOT 0\<rparr>) w3)"

text \<open>The retry delay of the accept loop in milliseconds.\<close>

definition nextTempDelay :: "int \<Rightarrow> int" where
  "nextTempDelay tempDelay =
     (let d = (if tempDelay = 0 then 5 else tempDelay * 2) in if d > 1000 then 1000 else d)"

text \<open>
  An accepted socket: refused at the limit, else counted, registered under its remote address and
  served. \<^verbatim>\<open>newConn\<close> returns no error. The accept loop is the only code that increments the number of
  active connections, and it does not overtake itself, so that a connection that ends between its check
  and its increment only makes the number smaller: check and increment are one step here.
\<close>

definition acceptConn :: "Server \<Rightarrow> nat \<Rightarrow> gostring \<Rightarrow> server_world \<Rightarrow> bool \<times> server_world" where
  "acceptConn s i remote w =
     (if sint (st_ActiveConnections (w_stats w)) \<ge> svc_MaxConnections (sv_config s)
      then (False, updStats addError w)
      else
        let w1 = updStats (\<lambda>st. st\<lparr>st_TotalConnections := st_TotalConnections st + 1,
              st_ActiveConnections := st_ActiveConnections st + 1\<rparr>) w
        in (True, w1\<lparr>w_conns := (w_conns w1)(i \<mapsto>
              \<lparr>wc_remote = remote, wc_open = True, wc_broken = False, wc_written = []\<rparr>),
            w_connections := (w_connections w1)(remote \<mapsto> i)\<rparr>))"

definition sv_GetConnection :: "gostring \<Rightarrow> server_world \<Rightarrow> nat option" where
  "sv_GetConnection addr w = w_connections w addr"

text \<open>\<^verbatim>\<open>range\<close> over a map visits the keys in some order; \<open>order\<close> is that order.\<close>

fun broadcastTo :: "bytes \<Rightarrow> gostring list \<Rightarrow> bool \<Rightarrow> server_world \<Rightarrow> bool \<times> server_world" where
  "broadcastTo msg [] failed w = (failed, w)"
| "broadcastTo msg (addr # order) failed w =
     (case w_connections w addr of
        None \<Rightarrow> broadcastTo msg order failed w
      | Some i \<Rightarrow>
          (case response_Write msg i w of
             (None, w1) \<Rightarrow> broadcastTo msg order True (updStats addError w1)
           | (Some n, w1) \<Rightarrow> broadcastTo msg order failed
               (updStats (\<lambda>st. st\<lparr>st_MessagesSent := st_MessagesSent st + 1\<rparr>) w1)))"

definition Broadcast :: "bytes \<Rightarrow> gostring list \<Rightarrow> server_world \<Rightarrow> bool \<times> server_world" where
  "Broadcast msg order w = broadcastTo msg order False w"

definition closeAll :: "gostring list \<Rightarrow> server_world \<Rightarrow> server_world" where
  "closeAll order w = fold (\<lambda>addr w. case w_connections w addr of None \<Rightarrow> w | Some i \<Rightarrow> conn_Close i w) order w"

section \<open>Snapshots\<close>

text \<open>A snapshot of a command or an interface also names its key.\<close>

definition snapshotCommands :: "InterfaceStats \<Rightarrow> int \<rightharpoonup> int \<times> CommandStats" where
  "snapshotCommands ifStats = (\<lambda>code. map_option (Pair code) (is_CommandStats ifStats code))"

definition GetInterfaceStats ::
  "int \<Rightarrow> server_world \<Rightarrow> (int \<times> InterfaceStats \<times> (int \<rightharpoonup> int \<times> CommandStats)) option" where
  "GetInterfaceStats appID w =
     (case st_InterfaceStats (w_stats w) appID of
        None \<Rightarrow> None
      | Some ifStats \<Rightarrow> Some (appID, ifStats, snapshotCommands ifStats))"

definition GetCommandStats :: "int \<Rightarrow> int \<Rightarrow> server_world \<Rightarrow> (int \<times> CommandStats) option" where
  "GetCommandStats appID cmdCode w =
     (case st_InterfaceStats (w_stats w) appID of
        None \<Rightarrow> None
      | Some ifStats \<Rightarrow> map_option (Pair cmdCode) (is_CommandStats ifStats cmdCode))"

section \<open>Sums over tables\<close>

definition table_sum :: "('b \<Rightarrow> u64) \<Rightarrow> ('k \<rightharpoonup> 'b) \<Rightarrow> u64" where
  "table_sum f m = (\<Sum>k\<in>dom m. f (the (m k)))"

lemma table_sum_empty [simp]: "table_sum f Map.empty = 0"
  by (simp add: table_sum_def)

lemma table_sum_upd:
  assumes "finite (dom m)"
  shows "table_sum f (m(k \<mapsto> v)) = table_sum f m + f v - (case m k of None \<Rightarrow> 0 | Some u \<Rightarrow> f u)"
proof -
  have r: "(\<Sum>j\<in>dom m - {k}. f (the ((m(k \<mapsto> v)) j))) = (\<Sum>j\<in>dom m - {k}. f (the (m j)))"
    by (rule sum.cong) auto
  have "table_sum f (m(k \<mapsto> v)) = f v + (\<Sum>j\<in>dom m - {k}. f (the (m j)))"
    unfolding table_sum_def
    using assms r by (simp add: sum.insert_remove)
  moreover have "table_sum f m = (case m k of None \<Rightarrow> 0 | Some u \<Rightarrow> f u) + (\<Sum>j\<in>dom m - {k}. f (the (m j)))"
    unfolding table_sum_def
    using assms sum.remove [of "dom m" k "\<lambda>j. f (the (m j))"]
    by (cases "m k") (simp_all add: domI domIff)
  ultimately show ?thesis
    by simp
qed

text \<open>
  The received counters add up: every interface to the sum of its commands, the server to the sum
  of its interfaces.
\<close>

definition interface_adds_up :: "InterfaceStats \<Rightarrow> bool" where
  "interface_adds_up f \<longleftrightarrow> finite (dom (is_CommandStats f)) \<and>
     is_MessagesReceived f = table_sum cs_MessagesReceived (is_CommandStats f) \<and>
     is_BytesReceived f = table_sum cs_BytesReceived (is_CommandStats f)"

definition stats_add_up :: "ServerStats \<Rightarrow> bool" where
  "stats_add_up st \<longleftrightarrow> finite (dom (st_InterfaceStats st)) \<and>
     (\<forall>f \<in> ran (st_InterfaceStats st). interface_adds_up f) \<and>
     st_TotalMessages st = st_MessagesReceived st \<and>
     st_MessagesReceived st = table_sum is_MessagesReceived (st_InterfaceStats st) \<and>
     st_TotalBytesReceived st = table_sum is_BytesReceived (st_InterfaceStats st)"

abbreviation interfaceOf :: "int \<Rightarrow> ServerStats \<Rightarrow> InterfaceStats" where
  "interfaceOf a st \<equiv> (case st_InterfaceStats st a of None \<Rightarrow> newInterfaceStats | Some f \<Rightarrow> f)"

abbreviation commandOf :: "int \<Rightarrow> InterfaceStats \<Rightarrow> CommandStats" where
  "commandOf k f \<equiv> (case is_CommandStats f k of None \<Rightarrow> zeroCommandStats | Some c \<Rightarrow> c)"

lemma countReceivedCommand_eq:
  "countReceivedCommand cmd len st =
     (let f = interfaceOf (cmd_Interface cmd) st; c = commandOf (cmd_Code cmd) f
      in st\<lparr>st_InterfaceStats := (st_InterfaceStats st)(cmd_Interface cmd \<mapsto>
           f\<lparr>is_MessagesReceived := is_MessagesReceived f + 1,
             is_BytesReceived := is_BytesReceived f + ucast len,
             is_CommandStats := (is_CommandStats f)(cmd_Code cmd \<mapsto>
               c\<lparr>cs_MessagesReceived := cs_MessagesReceived c + 1,
                 cs_BytesReceived := cs_BytesReceived c + ucast len\<rparr>)\<rparr>)\<rparr>)"
  by (simp add: countReceivedCommand_def getOrCreateInterfaceStats_def getOrCreateCommandStats_def Let_def
      split: option.split)

lemma countSentCommand_eq:
  "countSentCommand cmd n st =
     (let f = interfaceOf (cmd_Interface cmd) st; c = commandOf (cmd_Code cmd) f
      in st\<lparr>st_InterfaceStats := (st_InterfaceStats st)(cmd_Interface cmd \<mapsto>
           f\<lparr>is_MessagesSent := is_MessagesSent f + 1, is_BytesSent := is_BytesSent f + word_of_nat n,
             is_CommandStats := (is_CommandStats f)(cmd_Code cmd \<mapsto>
               c\<lparr>cs_MessagesSent := cs_MessagesSent c + 1, cs_BytesSent := cs_BytesSent c + word_of_nat n\<rparr>)\<rparr>)\<rparr>)"
  by (simp add: countSentCommand_def getOrCreateInterfaceStats_def getOrCreateCommandStats_def Let_def
      split: option.split)

lemma interface_adds_up_new: "interface_adds_up newInterfaceStats"
  by (simp add: interface_adds_up_def newInterfaceStats_def)

lemma interfaceOf_adds_up: "stats_add_up st \<Longrightarrow> interface_adds_up (interfaceOf a st)"
  by (auto simp: stats_add_up_def interface_adds_up_new ranI split: option.split)

lemma ran_upd_subset: "x \<in> ran (m(k \<mapsto> v)) \<Longrightarrow> x = v \<or> x \<in> ran m"
  by (auto simp: ran_def split: if_splits)

text \<open>Replacing one interface by one that adds up, with the totals moved by the difference.\<close>

lemma stats_add_up_replace:
  assumes "stats_add_up st" and "interface_adds_up f"
    and "is_MessagesReceived f = is_MessagesReceived (interfaceOf a st) + d"
    and "is_BytesReceived f = is_BytesReceived (interfaceOf a st) + b"
    and "st_TotalMessages st' = st_TotalMessages st + d"
    and "st_MessagesReceived st' = st_MessagesReceived st + d"
    and "st_TotalBytesReceived st' = st_TotalBytesReceived st + b"
    and "st_InterfaceStats st' = (st_InterfaceStats st)(a \<mapsto> f)"
  shows "stats_add_up st'"
proof -
  have fin: "finite (dom (st_InterfaceStats st))"
    using assms(1) by (simp add: stats_add_up_def)
  have "\<forall>g \<in> ran (st_InterfaceStats st'). interface_adds_up g"
    using assms(1,2) ran_upd_subset unfolding assms(8) stats_add_up_def by fast
  then show ?thesis
    using assms(1,3-8) fin
    by (auto simp: stats_add_up_def table_sum_upd newInterfaceStats_def split: option.splits)
qed

lemma received_adds_up:
  assumes "stats_add_up st"
  shows "stats_add_up (countReceivedCommand cmd len (countReceived len st))"
proof -
  let ?f = "interfaceOf (cmd_Interface cmd) st"
  let ?c = "commandOf (cmd_Code cmd) ?f"
  let ?f' = "?f\<lparr>is_MessagesReceived := is_MessagesReceived ?f + 1,
             is_BytesReceived := is_BytesReceived ?f + ucast len,
             is_CommandStats := (is_CommandStats ?f)(cmd_Code cmd \<mapsto>
               ?c\<lparr>cs_MessagesReceived := cs_MessagesReceived ?c + 1,
                 cs_BytesReceived := cs_BytesReceived ?c + ucast len\<rparr>)\<rparr>"
  have "interface_adds_up g \<Longrightarrow> c = commandOf k g \<Longrightarrow> interface_adds_up
      (g\<lparr>is_MessagesReceived := is_MessagesReceived g + 1, is_BytesReceived := is_BytesReceived g + b,
         is_CommandStats := (is_CommandStats g)(k \<mapsto> c\<lparr>cs_MessagesReceived := cs_MessagesReceived c + 1,
           cs_BytesReceived := cs_BytesReceived c + b\<rparr>)\<rparr>)" for g c k b
    by (auto simp: interface_adds_up_def table_sum_upd zeroCommandStats_def split: option.split)
  then have "interface_adds_up ?f'"
    using interfaceOf_adds_up [OF assms] by blast
  then show ?thesis
    by (rule stats_add_up_replace [OF assms])
      (simp_all add: countReceivedCommand_eq countReceived_def Let_def)
qed

lemma sent_adds_up:
  assumes "stats_add_up st"
  shows "stats_add_up (countSentCommand cmd n st)"
proof -
  let ?f = "interfaceOf (cmd_Interface cmd) st"
  let ?c = "commandOf (cmd_Code cmd) ?f"
  let ?f' = "?f\<lparr>is_MessagesSent := is_MessagesSent ?f + 1, is_BytesSent := is_BytesSent ?f + word_of_nat n,
             is_CommandStats := (is_CommandStats ?f)(cmd_Code cmd \<mapsto>
               ?c\<lparr>cs_MessagesSent := cs_MessagesSent ?c + 1, cs_BytesSent := cs_BytesSent ?c + word_of_nat n\<rparr>)\<rparr>"
  have "interface_adds_up g \<Longrightarrow> c = commandOf k g \<Longrightarrow> interface_adds_up
      (g\<lparr>is_MessagesSent := x, is_BytesSent := y,
         is_CommandStats := (is_CommandStats g)(k \<mapsto> c\<lparr>cs_MessagesSent := z, cs_BytesSent := b\<rparr>)\<rparr>)" for g c k b x y z
    by (auto simp: interface_adds_up_def table_sum_upd zeroCommandStats_def split: option.split)
  then have "interface_adds_up ?f'"
    using interfaceOf_adds_up [OF assms] by blast
  then show ?thesis
    by (rule stats_add_up_replace [OF assms, where d = 0 and b = 0])
      (simp_all add: countSentCommand_eq Let_def)
qed

section \<open>What a handler may do\<close>

text \<open>
  The effects a handler can have through the connection it is given and through the middlewares:
  writing, closing, arming the close timer, counting an error and using the rate limiters.
\<close>

inductive handler_effect :: "server_world \<Rightarrow> server_world \<Rightarrow> bool" where
  he_none: "handler_effect w w"
| he_write: "handler_effect w w' \<Longrightarrow> handler_effect w (snd (response_Write b i w'))"
| he_close: "handler_effect w w' \<Longrightarrow> handler_effect w (conn_Close i w')"
| he_timer: "handler_effect w w' \<Longrightarrow> handler_effect w (w'\<lparr>w_closeTimers := ts\<rparr>)"
| he_error: "handler_effect w w' \<Longrightarrow> handler_effect w (updStats addError w')"
| he_limit: "handler_effect w w' \<Longrightarrow> handler_effect w (w'\<lparr>w_limiters := l\<rparr>)"

lemma handler_effect_trans: "handler_effect w' w'' \<Longrightarrow> handler_effect w w' \<Longrightarrow> handler_effect w w''"
  by (induction rule: handler_effect.induct) (auto intro: handler_effect.intros)

locale server_handler =
  fixes h :: handler
  assumes effects: "handler_effect w (snd (h m i w))"

locale server_middleware =
  fixes mw :: middleware
  assumes wraps: "server_handler h \<Longrightarrow> server_handler (mw h)"

lemma goHandler_effects: "snd (goHandler h m i w) = snd (h m i w)"
  by (auto simp: goHandler_def split: prod.split outcome.split)

context server_handler
begin

lemma in_goroutine: "server_handler (goHandler h)"
  by unfold_locales (simp add: goHandler_effects effects)

end

interpretation cer_handler: server_handler "defaultCER parseIP cfg" for parseIP cfg
  by unfold_locales (auto simp: defaultCER_def Let_def intro: handler_effect.intros split: sum.split)

interpretation dwr_handler: server_handler "defaultDWR cfg" for cfg
  by unfold_locales (auto simp: defaultDWR_def Let_def intro: handler_effect.intros split: sum.split)

interpretation dpr_handler: server_handler "defaultDPR cfg" for cfg
  by unfold_locales (auto simp: defaultDPR_def Let_def intro: handler_effect.intros split: sum.split)

text \<open>What no effect changes.\<close>

definition accounts :: "server_world \<Rightarrow> u64 \<times> u64 \<times> u64 \<times> (gostring \<rightharpoonup> nat)" where
  "accounts w = (st_ActiveConnections (w_stats w), st_TotalConnections (w_stats w),
     st_MessagesReceived (w_stats w), w_connections w)"

lemma countSentCommand_keeps [simp]:
  "st_ActiveConnections (countSentCommand cmd n st) = st_ActiveConnections st"
  "st_TotalConnections (countSentCommand cmd n st) = st_TotalConnections st"
  "st_MessagesReceived (countSentCommand cmd n st) = st_MessagesReceived st"
  "st_MessagesSent (countSentCommand cmd n st) = st_MessagesSent st"
  "st_Errors (countSentCommand cmd n st) = st_Errors st"
  by (simp_all add: countSentCommand_eq Let_def)

lemma stats_add_up_other:
  "stats_add_up (addError st) = stats_add_up st" "stats_add_up (countSent n st) = stats_add_up st"
  "stats_add_up (st\<lparr>st_MessagesSent := x\<rparr>) = stats_add_up st"
  "stats_add_up (st\<lparr>st_ActiveConnections := y\<rparr>) = stats_add_up st"
  "stats_add_up (st\<lparr>st_TotalConnections := x\<rparr>) = stats_add_up st"
  by (simp_all add: stats_add_up_def addError_def countSent_def)

lemma response_Write_world:
  "snd (response_Write b i w) =
     (if canWrite i w
      then w\<lparr>w_conns := w_conns (snd (conn_Write b i w)),
             w_stats := (if 20 \<le> length b then case ParseCommand (take 20 b) of
               Inr cmd \<Rightarrow> countSentCommand cmd (length b) (countSent (length b) (w_stats w))
             | Inl err \<Rightarrow> countSent (length b) (w_stats w) else countSent (length b) (w_stats w))\<rparr>
      else w\<lparr>w_stats := addError (w_stats w)\<rparr>)"
  by (simp add: response_Write_def conn_Write_def updStats_def Let_def split: sum.split)

lemma response_Write_accounts:
  "accounts (snd (response_Write b i w)) = accounts w"
  by (simp add: response_Write_world accounts_def countSent_def addError_def split: sum.split)

lemma response_Write_adds_up:
  "stats_add_up (w_stats w) \<Longrightarrow> stats_add_up (w_stats (snd (response_Write b i w)))"
  by (simp add: response_Write_world stats_add_up_other sent_adds_up split: sum.split)

lemma handler_effect_accounts: "handler_effect w w' \<Longrightarrow> accounts w' = accounts w"
  by (induction rule: handler_effect.induct)
    (simp_all add: response_Write_accounts, simp_all add: accounts_def conn_Close_def updStats_def addError_def)

lemma handler_effect_adds_up:
  "handler_effect w w' \<Longrightarrow> stats_add_up (w_stats w) \<Longrightarrow> stats_add_up (w_stats w')"
  by (induction rule: handler_effect.induct)
    (simp_all add: response_Write_adds_up conn_Close_def updStats_def stats_add_up_other)

section \<open>The middleware chain\<close>

lemma wrapFrom_foldr: "wrapFrom (length ms) ms handler = foldr (\<lambda>mw h. mw h) ms handler"
proof (induction ms arbitrary: handler rule: rev_induct)
  case (snoc mw ms)
  have "wrapFrom n (ms @ [mw]) h = wrapFrom n ms h" if "n \<le> length ms" for n h
    using that by (induction n arbitrary: h) (simp_all add: nth_append)
  then show ?case
    using snoc by simp
qed simp

lemma wrapped_is_handler:
  "\<forall>mw \<in> set ms. server_middleware mw \<Longrightarrow> server_handler h \<Longrightarrow> server_handler (foldr (\<lambda>mw h. mw h) ms h)"
  by (induction ms) (auto simp: server_middleware_def)

section \<open>The running server\<close>

text \<open>
  The accept loop, one serving goroutine per accepted connection and one goroutine per handler
  call. A handler call is one step; what interleaves are the calls. \<open>vs_serving\<close> holds the
  connections whose \<^verbatim>\<open>serve\<close> runs, \<open>vs_tasks\<close> the handler calls that have not run yet.
\<close>

record server_sys =
  vs_world :: server_world
  vs_serving :: "nat set"
  vs_tasks :: "(handler \<times> Message \<times> nat) list"
  vs_next :: nat
  vs_tempDelay :: int
  vs_listening :: bool
  vs_crashed :: bool

definition emptyWorld :: server_world where
  "emptyWorld = \<lparr>w_stats = newServerStats, w_conns = Map.empty, w_connections = Map.empty,
     w_closeTimers = [], w_now = 0, w_limiters = (\<lambda>_. \<lparr>lim_lastReset = 0, lim_requestCount = 0\<rparr>)\<rparr>"

definition startServer :: server_sys where
  "startServer = \<lparr>vs_world = emptyWorld, vs_serving = {}, vs_tasks = [], vs_next = 0,
     vs_tempDelay = 0, vs_listening = True, vs_crashed = False\<rparr>"

inductive server_step :: "Server \<Rightarrow> server_sys \<Rightarrow> server_sys \<Rightarrow> bool" for s where
  vs_accept: "vs_listening y \<Longrightarrow> acceptConn s (vs_next y) remote (vs_world y) = (True, w) \<Longrightarrow>
    server_step s y (y\<lparr>vs_world := w, vs_serving := insert (vs_next y) (vs_serving y),
      vs_next := vs_next y + 1, vs_tempDelay := 0\<rparr>)"
| vs_refuse: "vs_listening y \<Longrightarrow> acceptConn s (vs_next y) remote (vs_world y) = (False, w) \<Longrightarrow>
    server_step s y (y\<lparr>vs_world := w, vs_tempDelay := 0\<rparr>)"
| vs_retry: "vs_listening y \<Longrightarrow> server_step s y (y\<lparr>vs_tempDelay := nextTempDelay (vs_tempDelay y)\<rparr>)"
| vs_fail: "vs_listening y \<Longrightarrow> server_step s y (y\<lparr>vs_listening := False\<rparr>)"
| vs_message: "i \<in> vs_serving y \<Longrightarrow> length (msg_Header m) = 20 \<Longrightarrow> serveMessage s m (vs_world y) = (Some h, w) \<Longrightarrow>
    server_step s y (y\<lparr>vs_world := w, vs_tasks := vs_tasks y @ [(goHandler h, m, i)]\<rparr>)"
| vs_unhandled: "i \<in> vs_serving y \<Longrightarrow> length (msg_Header m) = 20 \<Longrightarrow> serveMessage s m (vs_world y) = (None, w) \<Longrightarrow>
    server_step s y (y\<lparr>vs_world := w\<rparr>)"
| vs_end: "i \<in> vs_serving y \<Longrightarrow>
    server_step s y (y\<lparr>vs_world := serveEnd err i (vs_world y), vs_serving := vs_serving y - {i}\<rparr>)"
| vs_run: "vs_tasks y = xs @ (h, m, i) # ys \<Longrightarrow> h m i (vs_world y) = (out, w) \<Longrightarrow>
    server_step s y (y\<lparr>vs_world := w, vs_tasks := xs @ ys, vs_crashed := (vs_crashed y \<or> out \<noteq> Returned)\<rparr>)"
| vs_timer: "i \<in> set (w_closeTimers (vs_world y)) \<Longrightarrow>
    server_step s y (y\<lparr>vs_world := (conn_Close i (vs_world y))
      \<lparr>w_closeTimers := remove1 i (w_closeTimers (vs_world y))\<rparr>\<rparr>)"
| vs_broken: "server_step s y (y\<lparr>vs_world := (vs_world y)\<lparr>w_conns := (w_conns (vs_world y))
      (i := map_option (\<lambda>k. k\<lparr>wc_broken := True\<rparr>) (w_conns (vs_world y) i))\<rparr>\<rparr>)"
| vs_clock: "w_now (vs_world y) \<le> t \<Longrightarrow> server_step s y (y\<lparr>vs_world := (vs_world y)\<lparr>w_now := t\<rparr>\<rparr>)"
| vs_broadcast: "Broadcast b order (vs_world y) = (failed, w) \<Longrightarrow> server_step s y (y\<lparr>vs_world := w\<rparr>)"
| vs_stop: "server_step s y (y\<lparr>vs_world := closeAll order (vs_world y), vs_listening := False\<rparr>)"

inductive server_reach :: "Server \<Rightarrow> server_sys \<Rightarrow> bool" for s where
  sr_start: "server_reach s startServer"
| sr_step: "server_reach s y \<Longrightarrow> \<not> vs_crashed y \<Longrightarrow> server_step s y y' \<Longrightarrow> server_reach s y'"

definition server_ok :: "Server \<Rightarrow> bool" where
  "server_ok s \<longleftrightarrow> 0 \<le> svc_MaxConnections (sv_config s) \<and> svc_MaxConnections (sv_config s) < 2 ^ 63 \<and>
     (\<forall>h \<in> ran (sv_HandlerMux s). server_handler h) \<and> (\<forall>mw \<in> set (sv_middlewares s). server_middleware mw)"

definition server_inv :: "Server \<Rightarrow> server_sys \<Rightarrow> bool" where
  "server_inv s y \<longleftrightarrow> finite (vs_serving y) \<and> (\<forall>i \<in> vs_serving y. i < vs_next y) \<and>
     st_ActiveConnections (w_stats (vs_world y)) = word_of_nat (card (vs_serving y)) \<and>
     int (card (vs_serving y)) \<le> svc_MaxConnections (sv_config s) \<and>
     stats_add_up (w_stats (vs_world y)) \<and>
     (\<forall>(h, m, i) \<in> set (vs_tasks y). server_handler h) \<and>
     0 \<le> vs_tempDelay y \<and> vs_tempDelay y \<le> 1000"

lemma sint_word_of_nat: "n < 2 ^ 63 \<Longrightarrow> sint (word_of_nat n :: u64) = int n"
  by (simp add: signed_of_nat signed_take_bit_int_eq_self)

lemma getHandler_is_handler:
  assumes "server_ok s" and "getHandler cmd s = Some h"
  shows "server_handler h"
proof -
  obtain h0 where h: "sv_HandlerMux s cmd = Some h0" "h = wrapHandler h0 s"
    using assms(2) by (auto simp: getHandler_def split: option.splits)
  then have "server_handler h0"
    using assms(1) by (auto simp: server_ok_def ran_def)
  then show ?thesis
    using h assms(1) wrapped_is_handler [of "sv_middlewares s" h0]
    by (simp add: wrapHandler_def wrapFrom_foldr server_ok_def)
qed

lemma serveMessage_stats:
  assumes "length (msg_Header m) = 20" and "serveMessage s m w = (r, w')"
  shows "st_ActiveConnections (w_stats w') = st_ActiveConnections (w_stats w)"
    and "stats_add_up (w_stats w) \<Longrightarrow> stats_add_up (w_stats w')"
proof -
  obtain cmd where "ParseCommand (msg_Header m) = Inr cmd"
    using assms(1) by (simp add: ParseCommand_def Let_def)
  then have w': "w_stats w' = countReceivedCommand cmd (msg_Length m) (countReceived (msg_Length m) (w_stats w))"
    using assms(2) by (auto simp: serveMessage_def updStats_def Let_def)
  show "st_ActiveConnections (w_stats w') = st_ActiveConnections (w_stats w)"
    by (simp add: w' countReceivedCommand_eq countReceived_def Let_def)
  show "stats_add_up (w_stats w) \<Longrightarrow> stats_add_up (w_stats w')"
    by (simp add: w' received_adds_up)
qed

lemma broadcastTo_stats:
  "st_ActiveConnections (w_stats (snd (broadcastTo b order failed w))) = st_ActiveConnections (w_stats w) \<and>
   (stats_add_up (w_stats w) \<longrightarrow> stats_add_up (w_stats (snd (broadcastTo b order failed w))))"
proof (induction b order failed w rule: broadcastTo.induct)
  case (2 msg addr order failed w)
  show ?case
  proof (cases "w_connections w addr")
    case None
    then show ?thesis using 2 by simp
  next
    case (Some i)
    obtain r w1 where w1: "response_Write msg i w = (r, w1)"
      by (cases "response_Write msg i w")
    then have "st_ActiveConnections (w_stats w1) = st_ActiveConnections (w_stats w)"
      "stats_add_up (w_stats w) \<Longrightarrow> stats_add_up (w_stats w1)"
      using response_Write_accounts [of msg i w] response_Write_adds_up [of w msg i]
      by (simp_all add: accounts_def)
    then show ?thesis
      using 2 Some w1 by (cases r) (simp_all add: updStats_def stats_add_up_other, simp_all add: addError_def)
  qed
qed simp

lemma closeAll_stats: "w_stats (closeAll order w) = w_stats w"
proof -
  have "w_stats (fold (\<lambda>addr w. case w_connections w addr of None \<Rightarrow> w | Some i \<Rightarrow> conn_Close i w) order w) =
      w_stats w"
    by (induction order arbitrary: w) (simp_all add: conn_Close_def split: option.split)
  then show ?thesis
    by (simp add: closeAll_def)
qed

lemma serveEnd_stats:
  "st_ActiveConnections (w_stats (serveEnd err i w)) = st_ActiveConnections (w_stats w) - 1"
  "stats_add_up (w_stats (serveEnd err i w)) = stats_add_up (w_stats w)"
  by (simp_all add: serveEnd_def updStats_def conn_Close_def stats_add_up_other Let_def)
    (simp_all add: addError_def)

lemma acceptConn_refused:
  assumes "acceptConn s i remote w = (False, w')"
  shows "st_ActiveConnections (w_stats w') = st_ActiveConnections (w_stats w)"
    and "stats_add_up (w_stats w') = stats_add_up (w_stats w)"
  using assms by (auto simp: acceptConn_def updStats_def stats_add_up_other Let_def split: if_splits)
    (simp_all add: addError_def)

lemma acceptConn_accepted:
  assumes "acceptConn s i remote w = (True, w')"
  shows "st_ActiveConnections (w_stats w') = st_ActiveConnections (w_stats w) + 1"
    and "stats_add_up (w_stats w') = stats_add_up (w_stats w)"
    and "sint (st_ActiveConnections (w_stats w)) < svc_MaxConnections (sv_config s)"
  using assms by (auto simp: acceptConn_def updStats_def stats_add_up_other Let_def split: if_splits)

lemma nextTempDelay_bounds: "0 \<le> d \<Longrightarrow> 0 \<le> nextTempDelay d \<and> nextTempDelay d \<le> 1000"
  by (simp add: nextTempDelay_def Let_def)

lemma server_inv_step:
  assumes ok: "server_ok s" and inv: "server_inv s y" and "server_step s y y'"
  shows "server_inv s y'"
  using assms(3)
proof cases
  case (vs_accept remote w)
  have "card (vs_serving y) < 2 ^ 63"
    using inv ok by (simp add: server_inv_def server_ok_def)
  moreover have "vs_next y \<notin> vs_serving y"
    using inv by (auto simp: server_inv_def)
  ultimately show ?thesis
    using inv vs_accept(1) acceptConn_accepted [OF vs_accept(3)]
    by (auto simp: server_inv_def sint_word_of_nat)
next
  case (vs_message i m h w)
  then show ?thesis
    using inv serveMessage_stats [OF vs_message(3,4)] server_handler.in_goroutine [OF getHandler_is_handler [OF ok]]
    by (auto simp: server_inv_def serveMessage_def Let_def split: sum.splits)
next
  case (vs_end i err)
  then obtain n where "card (vs_serving y) = Suc n"
    using inv by (metis card_gt_0_iff empty_iff gr0_conv_Suc server_inv_def)
  then show ?thesis
    using inv vs_end by (simp add: server_inv_def serveEnd_stats)
next
  case (vs_run xs h m i ys out w)
  then have "handler_effect (vs_world y) w"
    using inv server_handler.effects [of h "vs_world y" m i] by (auto simp: server_inv_def)
  then have "accounts w = accounts (vs_world y)" "stats_add_up (w_stats w)"
    using handler_effect_accounts handler_effect_adds_up inv by (auto simp: server_inv_def)
  then show ?thesis
    using inv vs_run(1,2) by (auto simp: server_inv_def accounts_def)
next
  case (vs_broadcast b order failed w)
  then show ?thesis
    using inv broadcastTo_stats [of b order False "vs_world y"] by (auto simp: server_inv_def Broadcast_def)
qed (use inv in \<open>auto simp: server_inv_def acceptConn_refused serveMessage_stats closeAll_stats conn_Close_def
      nextTempDelay_bounds\<close>)

lemma server_reach_inv: "server_reach s y \<Longrightarrow> server_ok s \<Longrightarrow> server_inv s y"
proof (induction rule: server_reach.induct)
  case sr_start
  then show ?case
    by (simp add: server_inv_def server_ok_def startServer_def emptyWorld_def newServerStats_def stats_add_up_def)
qed (use server_inv_step in blast)

text \<open>
  C10. In every reachable state the counter of active connections is the number of connections
  that are being served, and that number never exceeds \<^verbatim>\<open>MaxConnections\<close>, although the accept loop
  checks the counter and increments it in two steps: only the accept loop increments it.
\<close>

theorem active_connections_bounded:
  assumes "server_reach s y" and "server_ok s"
  shows "st_ActiveConnections (w_stats (vs_world y)) = word_of_nat (card (vs_serving y)) \<and>
    int (card (vs_serving y)) \<le> svc_MaxConnections (sv_config s) \<and> vs_tempDelay y \<le> 1000"
  using server_reach_inv [OF assms] by (simp add: server_inv_def)

lemma NewServer_ok:
  "0 \<le> svc_MaxConnections cfg \<Longrightarrow> svc_MaxConnections cfg < 2 ^ 63 \<Longrightarrow> server_ok (NewServer parseIP (Some cfg))"
  by (auto simp: server_ok_def NewServer_def sv_HandleFunc_def ran_def Let_def
      cer_handler.server_handler_axioms dwr_handler.server_handler_axioms dpr_handler.server_handler_axioms)

definition example_server :: Server where
  "example_server = NewServer (\<lambda>_. None) (Some (DefaultServerConfig\<lparr>svc_MaxConnections := 1\<rparr>))"

lemma example_server_ok: "server_ok example_server"
  by (simp add: example_server_def NewServer_ok)

definition example_run :: server_sys where
  "example_run = startServer\<lparr>vs_world := snd (acceptConn example_server 0 [49] emptyWorld),
     vs_serving := {0}, vs_next := 1\<rparr>"

lemma example_run:
  shows "server_reach example_server example_run" and "vs_serving example_run = {0}" and "\<not> vs_crashed example_run"
    and "w_connections (vs_world example_run) = [[49] \<mapsto> 0]" and "canWrite 0 (vs_world example_run)"
    and "st_MessagesReceived (w_stats (vs_world example_run)) = 0"
    and "st_MessagesSent (w_stats (vs_world example_run)) = 0"
proof -
  define w where "w = snd (acceptConn example_server 0 [49] emptyWorld)"
  note defs = acceptConn_def emptyWorld_def newServerStats_def startServer_def example_server_def
    NewServer_def sv_HandleFunc_def updStats_def Let_def
  have a: "acceptConn example_server (vs_next startServer) [49] (vs_world startServer) = (True, w)"
    by (simp add: w_def defs)
  have e: "example_run = startServer\<lparr>vs_world := w, vs_serving := insert (vs_next startServer) (vs_serving startServer),
      vs_next := vs_next startServer + 1, vs_tempDelay := 0\<rparr>"
    by (simp add: example_run_def w_def startServer_def)
  have "server_step example_server startServer example_run"
    unfolding e by (rule vs_accept [OF _ a]) (simp add: startServer_def)
  then show "server_reach example_server example_run"
    by (rule sr_step [OF sr_start, rotated]) (simp add: startServer_def)
  show "w_connections (vs_world example_run) = [[49] \<mapsto> 0]" "canWrite 0 (vs_world example_run)"
    "st_MessagesReceived (w_stats (vs_world example_run)) = 0" "st_MessagesSent (w_stats (vs_world example_run)) = 0"
    by (simp_all add: example_run_def defs canWrite_def)
qed (simp_all add: example_run_def startServer_def)

theorem active_connections_bounded_witness:
  "st_ActiveConnections (w_stats (vs_world example_run)) = 1 \<and>
     svc_MaxConnections (sv_config example_server) = 1"
proof -
  have "svc_MaxConnections (sv_config example_server) = 1"
    by (simp add: example_server_def NewServer_def sv_HandleFunc_def Let_def)
  then show ?thesis
    using active_connections_bounded [OF example_run(1) example_server_ok] example_run(2) by simp
qed

text \<open>
  The statistics add up in every reachable state: the messages and bytes received by the server
  are the sums over its interfaces, and those of an interface the sums over its commands. In
  particular no received message is lost to the tables, since the header of a message that was
  read always has a command.
\<close>

theorem statistics_add_up:
  assumes "server_reach s y" and "server_ok s"
  shows "st_MessagesReceived (w_stats (vs_world y)) =
      table_sum is_MessagesReceived (st_InterfaceStats (w_stats (vs_world y))) \<and>
    st_TotalBytesReceived (w_stats (vs_world y)) =
      table_sum is_BytesReceived (st_InterfaceStats (w_stats (vs_world y))) \<and>
    (\<forall>a f. st_InterfaceStats (w_stats (vs_world y)) a = Some f \<longrightarrow>
      is_MessagesReceived f = table_sum cs_MessagesReceived (is_CommandStats f))"
  using server_reach_inv [OF assms]
  by (auto simp: server_inv_def stats_add_up_def interface_adds_up_def ran_def)

theorem statistics_add_up_witness:
  "\<exists>y. server_reach example_server y \<and> st_MessagesReceived (w_stats (vs_world y)) = 1 \<and>
     table_sum is_MessagesReceived (st_InterfaceStats (w_stats (vs_world y))) = 1"
proof -
  define m where "m = \<lparr>msg_Length = 20, msg_Header = replicate 20 0, msg_Body = []\<rparr>"
  obtain w where w: "serveMessage example_server m (vs_world example_run) = (None, w)"
    "st_MessagesReceived (w_stats w) = st_MessagesReceived (w_stats (vs_world example_run)) + 1"
    by (simp add: serveMessage_def m_def ParseCommand_def example_server_def NewServer_def sv_HandleFunc_def
        getHandler_def updStats_def countReceivedCommand_eq countReceived_def bslice_def Let_def)
  have "server_step example_server example_run (example_run\<lparr>vs_world := w\<rparr>)"
    using example_run(2) by (intro vs_unhandled [OF _ _ w(1)]) (simp_all add: m_def)
  then have r: "server_reach example_server (example_run\<lparr>vs_world := w\<rparr>)"
    by (rule sr_step [OF example_run(1,3)])
  show ?thesis
    using statistics_add_up [OF r example_server_ok] r w(2) example_run(6)
    by (intro exI [of _ "example_run\<lparr>vs_world := w\<rparr>"]) simp
qed

section \<open>Broadcast\<close>

lemma broadcastTo_Cons:
  "w_connections w a = Some i \<Longrightarrow> broadcastTo msg (a # order) failed w =
     (if canWrite i w
      then broadcastTo msg order failed (updStats (\<lambda>st. st\<lparr>st_MessagesSent := st_MessagesSent st + 1\<rparr>)
             (snd (response_Write msg i w)))
      else broadcastTo msg order True (updStats addError (snd (response_Write msg i w))))"
  by (auto simp: response_Write_def conn_Write_def Let_def split: sum.split)

lemma response_Write_canWrite: "canWrite j (snd (response_Write b i w)) = canWrite j w"
  by (auto simp: response_Write_world conn_Write_def canWrite_def split: option.split)

lemma response_Write_counts:
  "st_MessagesSent (w_stats (snd (response_Write b i w))) =
     st_MessagesSent (w_stats w) + (if canWrite i w then 1 else 0)"
  "w_connections (snd (response_Write b i w)) = w_connections w"
  by (simp_all add: response_Write_world countSent_def addError_def split: sum.split)

definition reachable_writable :: "gostring list \<Rightarrow> server_world \<Rightarrow> bool" where
  "reachable_writable order w \<longleftrightarrow> (\<forall>a \<in> set order. \<exists>i. w_connections w a = Some i \<and> canWrite i w)"

text \<open>
  A broadcast counts every message twice: when all \<open>n\<close> connections accept the message, the
  counter of sent messages grows by \<open>2 n\<close>, because the writer of each connection counts it too.
\<close>

theorem Broadcast_double_counts:
  assumes "reachable_writable order w"
  shows "fst (Broadcast msg order w) = False \<and>
    st_MessagesSent (w_stats (snd (Broadcast msg order w))) =
      st_MessagesSent (w_stats w) + 2 * word_of_nat (length order)"
proof -
  have "reachable_writable order w \<Longrightarrow> fst (broadcastTo msg order failed w) = failed \<and>
      st_MessagesSent (w_stats (snd (broadcastTo msg order failed w))) =
        st_MessagesSent (w_stats w) + 2 * word_of_nat (length order)" for failed w
  proof (induction order arbitrary: failed w)
    case (Cons a order)
    then obtain i where i: "w_connections w a = Some i" "canWrite i w"
      by (auto simp: reachable_writable_def)
    define w1 where "w1 = updStats (\<lambda>st. st\<lparr>st_MessagesSent := st_MessagesSent st + 1\<rparr>) (snd (response_Write msg i w))"
    have step: "broadcastTo msg (a # order) failed w = broadcastTo msg order failed w1"
      using i by (simp add: broadcastTo_Cons w1_def del: broadcastTo.simps)
    have "reachable_writable order w1"
      using Cons.prems response_Write_canWrite response_Write_counts(2)
      by (simp add: reachable_writable_def w1_def updStats_def canWrite_def)
    moreover have "st_MessagesSent (w_stats w1) = st_MessagesSent (w_stats w) + 2"
      using i by (simp add: w1_def updStats_def response_Write_counts)
    ultimately show ?case
      using Cons.IH [of w1 failed] unfolding step by (simp add: algebra_simps)
  qed simp
  then show ?thesis
    using assms by (simp add: Broadcast_def)
qed

theorem Broadcast_double_counts_witness:
  "st_MessagesSent (w_stats (vs_world example_run)) = 0 \<and>
     st_MessagesSent (w_stats (snd (Broadcast [1] [[49]] (vs_world example_run)))) = 2"
  using Broadcast_double_counts [of "[[49]]" "vs_world example_run" "[1]"] example_run(4,5,7)
  by (simp add: reachable_writable_def)

lemma failed_stays: "fst (broadcastTo msg order True w)"
  by (induction order arbitrary: w) (simp_all split: option.split prod.split)

lemma updStats_same:
  "canWrite i (updStats f w) = canWrite i w" "w_connections (updStats f w) = w_connections w"
  by (simp_all add: updStats_def canWrite_def)

text \<open>
  A connection whose serving has ended stays in the map of connections: \<^verbatim>\<open>GetConnection\<close> still
  returns it, nothing can be written to it, and every later broadcast over a map that holds it
  reports an error.
\<close>

theorem ended_connection_stays:
  assumes "w_connections w addr = Some i" and "addr \<in> set order"
  shows "sv_GetConnection addr (serveEnd err i w) = Some i \<and> \<not> canWrite i (serveEnd err i w) \<and>
    fst (Broadcast msg order (serveEnd err i w)) = True"
proof -
  let ?w = "serveEnd err i w"
  have c: "w_connections ?w addr = Some i" and n: "\<not> canWrite i ?w"
    using assms(1) by (auto simp: serveEnd_def updStats_def conn_Close_def canWrite_def Let_def split: option.splits)
  have "addr \<in> set order \<Longrightarrow> w_connections w addr = Some i \<Longrightarrow> \<not> canWrite i w \<Longrightarrow>
      fst (broadcastTo msg order failed w) = True" for order failed w
  proof (induction order arbitrary: failed w)
    case (Cons a order)
    note same = response_Write_canWrite response_Write_counts(2) updStats_same
    show ?case
    proof (cases "w_connections w a")
      case None
      then show ?thesis
        using Cons by auto
    next
      case (Some j)
      show ?thesis
      proof (cases "a = addr")
        case True
        then show ?thesis
          using Cons.prems Some by (simp add: broadcastTo_Cons failed_stays del: broadcastTo.simps)
      next
        case False
        then show ?thesis
          using Cons Some by (simp add: broadcastTo_Cons failed_stays same del: broadcastTo.simps)
      qed
    qed
  qed simp
  then show ?thesis
    using c n assms(2) by (simp add: sv_GetConnection_def Broadcast_def)
qed

theorem ended_connection_stays_witness:
  "canWrite 0 (vs_world example_run) \<and>
   sv_GetConnection [49] (serveEnd (HeaderRead EOF) 0 (vs_world example_run)) = Some 0 \<and>
   fst (Broadcast [1] [[49]] (serveEnd (HeaderRead EOF) 0 (vs_world example_run))) = True"
  using ended_connection_stays [of "vs_world example_run" "[49]" 0 "[[49]]" "HeaderRead EOF" "[1]"] example_run(4,5)
  by simp

end
