(* ===== verification/Client_Steps.thy ===== *)
theory Client_Steps
  imports Client_Conn
begin

text \<open>
  The goroutines of one client connection (\<^verbatim>\<open>client/connection.go\<close>) as a step relation: the caller of
  \<^verbatim>\<open>Start\<close>, the \<^verbatim>\<open>reconnect\<close> loop, the read, write and watchdog loops, the goroutines that wait for
  a DWA, the health monitor and \<^verbatim>\<open>Close\<close>. A step is a section between two blocking points or two
  critical sections; \<^verbatim>\<open>connect\<close> is cut where it waits or where its effects become visible to the
  others. \<^verbatim>\<open>handleFailure\<close> and \<^verbatim>\<open>Close\<close> are one step each here; \<open>Reconnect_Loops\<close> cuts them into their lock
  sections. The timer of the \<^verbatim>\<open>reconnect\<close> loop may win against a cancelled context, as in the \<^verbatim>\<open>select\<close>. The
  environment chooses the outcome of dials, reads and writes and when timers fire.

  The invariants show that source ports are never released twice and that the flag \<^verbatim>\<open>reconnecting\<close>
  tells whether the reconnect loop runs. Two reachable states show defects of the retry logic: a stale handshake of
  \<^verbatim>\<open>Start\<close> can kill the connection that the reconnect loop has established, for good; and a failure
  recorded during an earlier attempt makes the loop dial again over a healthy connection, whose
  socket and source port are then lost.
\<close>

section \<open>Threads\<close>

datatype who = Starter | Reconnector

text \<open>
  Where a goroutine that executes \<^verbatim>\<open>connect\<close> stands. The arguments are its local variables: the local
  address it acquired, the socket it dialled, the Hop-by-Hop id it waits for.
\<close>

datatype pc =
    Idle
  | Begin
  | Dial "int option"
  | Install "int option" nat
  | SendCER
  | AwaitCEA u32
  | Accepted
  | Wait
  | Finished

record sys =
  sy_c :: Connection
  sy_pc :: "who \<Rightarrow> pc"
  sy_dwrs :: "(u32 \<times> u64) set"

definition sys_init :: "DRAConfig \<Rightarrow> sys" where
  "sys_init config = \<lparr>sy_c = NewConnection config, sy_pc = (\<lambda>_. Idle), sy_dwrs = {}\<rparr>"

definition at :: "who \<Rightarrow> pc \<Rightarrow> Connection \<Rightarrow> sys \<Rightarrow> sys" where
  "at w p c y = y\<lparr>sy_c := c, sy_pc := (sy_pc y)(w := p)\<rparr>"

text \<open>\<^verbatim>\<open>handleFailure\<close> with its \<^verbatim>\<open>go c.reconnect()\<close>.\<close>

definition failWith :: "conn_error \<Rightarrow> sys \<Rightarrow> sys" where
  "failWith err y =
     (case handleFailure err (sy_c y) of
        (True, c) \<Rightarrow> at Reconnector Wait c y
      | (False, c) \<Rightarrow> y\<lparr>sy_c := c\<rparr>)"

text \<open>
  The end of \<^verbatim>\<open>connect\<close> as its two callers take it: \<^verbatim>\<open>Start\<close> calls \<^verbatim>\<open>handleFailure\<close> and returns,
  \<^verbatim>\<open>reconnect\<close> goes round its loop.
\<close>

definition connectFailed :: "who \<Rightarrow> conn_error \<Rightarrow> Connection \<Rightarrow> sys \<Rightarrow> sys" where
  "connectFailed w err c y =
     (let c1 = (setState StateFailed c)\<lparr>c_lastError := Some err\<rparr>
      in case w of
           Starter \<Rightarrow> failWith err (at Starter Finished c1 y)
         | Reconnector \<Rightarrow> at Reconnector Wait c1 y)"

definition handshakeFailed :: "who \<Rightarrow> conn_error \<Rightarrow> Connection \<Rightarrow> sys \<Rightarrow> sys" where
  "handshakeFailed w err c y = connectFailed w err (close_conn c) y"

definition connectSucceeded :: "who \<Rightarrow> Connection \<Rightarrow> sys \<Rightarrow> sys" where
  "connectSucceeded w c y =
     (case w of
        Starter \<Rightarrow> at Starter Finished c y
      | Reconnector \<Rightarrow>
          (case finishReconnect True c of
             (True, c1) \<Rightarrow> at Reconnector Idle c1 y
           | (False, c1) \<Rightarrow> at Reconnector Wait c1 y))"

section \<open>Steps\<close>

inductive sys_step :: "sys \<Rightarrow> sys \<Rightarrow> bool" where
  start: "sy_pc y Starter = Idle \<Longrightarrow>
    sys_step y (at Starter Begin (setState StateConnecting (sy_c y)) y)"
| timer: "sy_pc y Reconnector = Wait \<Longrightarrow>
    sys_step y (at Reconnector Begin (setState StateConnecting (setState StateReconnecting (sy_c y))) y)"
| timer_cancelled: "sy_pc y Reconnector = Wait \<Longrightarrow> c_ctxDone (sy_c y) \<Longrightarrow>
    sys_step y (at Reconnector Idle (snd (finishReconnect False (sy_c y))) y)"
| acquire: "sy_pc y w = Begin \<Longrightarrow> hasAcquireLocalAddr (c_config (sy_c y)) \<Longrightarrow>
    port \<notin> set (c_held (sy_c y)) \<Longrightarrow>
    sys_step y (at w (Dial (Some port)) ((sy_c y)\<lparr>c_held := port # c_held (sy_c y)\<rparr>) y)"
| acquire_none: "sy_pc y w = Begin \<Longrightarrow> \<not> hasAcquireLocalAddr (c_config (sy_c y)) \<Longrightarrow>
    sys_step y (at w (Dial None) (sy_c y) y)"
| acquire_error: "sy_pc y w = Begin \<Longrightarrow> hasAcquireLocalAddr (c_config (sy_c y)) \<Longrightarrow>
    sys_step y (connectFailed w ErrAcquire (sy_c y) y)"
| dial: "sy_pc y w = Dial la \<Longrightarrow> s \<notin> c_sockets (sy_c y) \<Longrightarrow>
    sys_step y (at w (Install la s) ((sy_c y)\<lparr>c_sockets := insert s (c_sockets (sy_c y))\<rparr>) y)"
| dial_error: "sy_pc y w = Dial la \<Longrightarrow>
    sys_step y (connectFailed w ErrDial
      (case la of Some port \<Rightarrow> ReleaseLocalAddr port (sy_c y) | None \<Rightarrow> sy_c y) y)"
| install: "sy_pc y w = Install la s \<Longrightarrow>
    sys_step y (at w SendCER ((sy_c y)\<lparr>c_conn := Some s, c_boundLocalAddr := la,
      c_connGeneration := c_connGeneration (sy_c y) + 1\<rparr>) y)"
| cer_sent: "sy_pc y w = SendCER \<Longrightarrow> (ip \<noteq> None \<longrightarrow> c_conn (sy_c y) \<noteq> None) \<Longrightarrow>
    handshakeSend ip (sy_c y) = (Inr hbh, c) \<Longrightarrow>
    sys_step y (at w (AwaitCEA hbh) c y)"
| cer_error: "sy_pc y w = SendCER \<Longrightarrow> (ip \<noteq> None \<longrightarrow> c_conn (sy_c y) \<noteq> None) \<Longrightarrow>
    handshakeSend ip (sy_c y) = (Inl e, c) \<Longrightarrow>
    (e = ErrCtxDone \<longrightarrow> c_ctxDone c) \<Longrightarrow> sys_step y (handshakeFailed w e c y)"
| cea_ok: "sy_pc y w = AwaitCEA hbh \<Longrightarrow> c_pending (sy_c y) hbh = Some (Some data) \<Longrightarrow>
    handleCEA data = None \<Longrightarrow> sys_step y (at w Accepted (unregisterPending hbh (sy_c y)) y)"
| cea_bad: "sy_pc y w = AwaitCEA hbh \<Longrightarrow> c_pending (sy_c y) hbh = Some (Some data) \<Longrightarrow>
    handleCEA data = Some e \<Longrightarrow> sys_step y (handshakeFailed w e (unregisterPending hbh (sy_c y)) y)"
| cea_timeout: "sy_pc y w = AwaitCEA hbh \<Longrightarrow>
    sys_step y (handshakeFailed w (ErrConnectionTimeout ''CER/CEA'') (unregisterPending hbh (sy_c y)) y)"
| cea_cancelled: "sy_pc y w = AwaitCEA hbh \<Longrightarrow> c_ctxDone (sy_c y) \<Longrightarrow>
    sys_step y (handshakeFailed w ErrCtxDone (unregisterPending hbh (sy_c y)) y)"
| opened: "sy_pc y w = Accepted \<Longrightarrow>
    sys_step y (connectSucceeded w (startWatchdog
      ((setState StateOpen (sy_c y))\<lparr>c_lastActivity := now, c_dwrFailureCount := 0\<rparr>)) y)"
| read_message: "c_conn (sy_c y) \<noteq> None \<Longrightarrow> \<not> c_ctxDone (sy_c y) \<Longrightarrow>
    sys_step y (y\<lparr>sy_c := readLoopMessage (c_connGeneration (sy_c y)) now msg (sy_c y)\<rparr>)"
| read_failed: "c_conn (sy_c y) \<noteq> None \<Longrightarrow> \<not> c_ctxDone (sy_c y) \<Longrightarrow> sys_step y (failWith ErrIO y)"
| written: "c_sendCh (sy_c y) = d # rest \<Longrightarrow> c_conn (sy_c y) \<noteq> None \<Longrightarrow>
    sys_step y (y\<lparr>sy_c := (sy_c y)\<lparr>c_sendCh := rest\<rparr>\<rparr>)"
| dropped: "c_sendCh (sy_c y) = d # rest \<Longrightarrow> c_conn (sy_c y) = None \<Longrightarrow>
    sys_step y (y\<lparr>sy_c := (sy_c y)\<lparr>c_sendCh := rest, c_Drops := c_Drops (sy_c y) + 1\<rparr>\<rparr>)"
| write_failed: "c_sendCh (sy_c y) = d # rest \<Longrightarrow> c_conn (sy_c y) \<noteq> None \<Longrightarrow> \<not> c_ctxDone (sy_c y) \<Longrightarrow>
    sys_step y (failWith ErrIO (y\<lparr>sy_c := (sy_c y)\<lparr>c_sendCh := rest\<rparr>\<rparr>))"
| tick: "c_dwrTicker (sy_c y) \<Longrightarrow> sendDWR (sy_c y) = (Inr waiter, c) \<Longrightarrow>
    sys_step y (y\<lparr>sy_c := c, sy_dwrs := insert waiter (sy_dwrs y)\<rparr>)"
| tick_failed: "c_dwrTicker (sy_c y) \<Longrightarrow> sendDWR (sy_c y) = (Inl e, c) \<Longrightarrow>
    (e = ErrCtxDone \<longrightarrow> c_ctxDone c) \<Longrightarrow> sys_step y (failWith e (y\<lparr>sy_c := c\<rparr>))"
| dwa_ok: "(hbh, g) \<in> sy_dwrs y \<Longrightarrow> c_pending (sy_c y) hbh = Some (Some data) \<Longrightarrow>
    isCurrentGeneration g (sy_c y) \<Longrightarrow> handleDWA now data (sy_c y) = (None, c) \<Longrightarrow>
    sys_step y (y\<lparr>sy_c := unregisterPending hbh c, sy_dwrs := sy_dwrs y - {(hbh, g)}\<rparr>)"
| dwr_failed: "(hbh, g) \<in> sy_dwrs y \<Longrightarrow> isCurrentGeneration g (sy_c y) \<Longrightarrow>
    e = ErrConnectionTimeout ''DWR/DWA'' \<or>
      (\<exists>data c. c_pending (sy_c y) hbh = Some (Some data) \<and> handleDWA now data (sy_c y) = (Some e, c)) \<Longrightarrow>
    handleDWRFailure now e (sy_c y) = (go, c) \<Longrightarrow>
    sys_step y ((if go then at Reconnector Wait (unregisterPending hbh c) y
                 else y\<lparr>sy_c := unregisterPending hbh c\<rparr>)\<lparr>sy_dwrs := sy_dwrs y - {(hbh, g)}\<rparr>)"
| dwr_stale: "(hbh, g) \<in> sy_dwrs y \<Longrightarrow> \<not> isCurrentGeneration g (sy_c y) \<or> c_ctxDone (sy_c y) \<Longrightarrow>
    sys_step y (y\<lparr>sy_c := unregisterPending hbh (sy_c y), sy_dwrs := sy_dwrs y - {(hbh, g)}\<rparr>)"
| health: "c_state (sy_c y) = StateDWRSent \<Longrightarrow>
    sint (c_dwrFailureCount (sy_c y)) \<ge> MaxDWRFailures (c_config (sy_c y)) \<Longrightarrow>
    sys_step y (failWith ErrHealthCheck y)"
| user_send: "Send data (sy_c y) = (r, c) \<Longrightarrow> sys_step y (y\<lparr>sy_c := c\<rparr>)"
| user_close: "sys_step y (y\<lparr>sy_c := Close (sy_c y)\<rparr>)"

inductive sys_reach :: "DRAConfig \<Rightarrow> sys \<Rightarrow> bool" for config where
  init: "sys_reach config (sys_init config)"
| step: "sys_reach config y \<Longrightarrow> sys_step y y' \<Longrightarrow> sys_reach config y'"

section \<open>Ports\<close>

fun localPort :: "pc \<Rightarrow> int list" where
  "localPort (Dial (Some p)) = [p]"
| "localPort (Install (Some p) s) = [p]"
| "localPort _ = []"

definition bound_list :: "int option \<Rightarrow> int list" where
  "bound_list la = (case la of None \<Rightarrow> [] | Some p \<Rightarrow> [p])"

text \<open>The ports some variable still knows: the bound one and the local ones of the two threads.\<close>

definition tracked :: "sys \<Rightarrow> int list" where
  "tracked y = bound_list (c_boundLocalAddr (sy_c y)) @ localPort (sy_pc y Starter) @
     localPort (sy_pc y Reconnector)"

text \<open>What the methods may do to the bound port: nothing, or release it.\<close>

definition port_step :: "Connection \<Rightarrow> Connection \<Rightarrow> bool" where
  "port_step c c' \<longleftrightarrow> c_config c' = c_config c \<and>
     ((c_held c' = c_held c \<and> c_boundLocalAddr c' = c_boundLocalAddr c) \<or>
      (c_boundLocalAddr c' = None \<and>
       c_held c' = (case c_boundLocalAddr c of None \<Rightarrow> c_held c | Some p \<Rightarrow> remove1 p (c_held c))))"

definition ports_ok :: "sys \<Rightarrow> bool" where
  "ports_ok y \<longleftrightarrow> distinct (c_held (sy_c y)) \<and> distinct (tracked y) \<and>
     set (tracked y) \<subseteq> set (c_held (sy_c y)) \<and> hasReleaseLocalAddr (c_config (sy_c y))"

lemma port_step_same:
  "c_config c' = c_config c \<Longrightarrow> c_held c' = c_held c \<Longrightarrow> c_boundLocalAddr c' = c_boundLocalAddr c \<Longrightarrow>
   port_step c c'"
  by (simp add: port_step_def)

lemma port_step_trans: "port_step a b \<Longrightarrow> port_step b c \<Longrightarrow> port_step a c"
  by (auto simp: port_step_def split: option.splits)

lemma port_step_close:
  "hasReleaseLocalAddr (c_config c) \<Longrightarrow> port_step c (close_conn c)"
  by (simp add: port_step_def close_conn_held)

lemma port_step_handleFailure:
  assumes "hasReleaseLocalAddr (c_config c)" and "handleFailure e c = (go, c')"
  shows "port_step c c'"
proof -
  let ?d = "setState StateFailed (c\<lparr>c_lastError := Some e\<rparr>)"
  have "c' = c \<or> c' = c\<lparr>c_lastError := Some e\<rparr> \<or> c_config c' = c_config (close_conn ?d) \<and>
      c_held c' = c_held (close_conn ?d) \<and> c_boundLocalAddr c' = None"
    using assms(2)
    by (auto simp: handleFailure_def Let_def scheduleReconnect_def callOnFailure_def split: if_splits)
  then show ?thesis
    using assms(1) close_conn_held [of ?d] by (auto simp: port_step_def split: option.split)
qed

lemma port_step_simple:
  "port_step c (setState s c)" "port_step c (snd (finishReconnect b c))"
  "port_step c (unregisterPending hbh c)" "port_step c (startWatchdog c)"
  "port_step c (c\<lparr>c_lastError := err\<rparr>)" "port_step c (c\<lparr>c_sockets := ss\<rparr>)"
  "port_step c (c\<lparr>c_sendCh := ms\<rparr>)" "port_step c (c\<lparr>c_sendCh := ms, c_Drops := n\<rparr>)"
  "port_step c (startWatchdog ((setState s c)\<lparr>c_lastActivity := t, c_dwrFailureCount := k\<rparr>))"
  by (simp_all add: port_step_def finishReconnect_def unregisterPending_def startWatchdog_def)

lemma port_step_Close: "hasReleaseLocalAddr (c_config c) \<Longrightarrow> port_step c (Close c)"
  using close_conn_held [of "(setState StateClosed c)\<lparr>c_ctxDone := True\<rparr>"]
  by (simp add: port_step_def Close_def finishReconnect_def Let_def split: option.splits)

lemma port_step_handshakeSend: "handshakeSend ip c = (r, c') \<Longrightarrow> port_step c c'"
  by (auto simp: handshakeSend_def nextHopByHopID_def nextEndToEndID_def registerPending_def
      unregisterPending_def Let_def port_step_def split: sum.splits if_splits)

lemma port_step_sendDWR: "sendDWR c = (r, c') \<Longrightarrow> port_step c c'"
  by (auto simp: sendDWR_def nextHopByHopID_def nextEndToEndID_def registerPending_def
      unregisterPending_def Let_def port_step_def split: sum.splits if_splits)

lemma port_step_Send: "Send d c = (r, c') \<Longrightarrow> port_step c c'"
  by (auto simp: Send_def port_step_def split: if_splits)

lemma port_step_handleDWA: "handleDWA now d c = (r, c') \<Longrightarrow> port_step c c'"
  by (auto simp: handleDWA_def port_step_def split: sum.splits if_splits)

lemma port_step_handleDWRFailure:
  assumes "hasReleaseLocalAddr (c_config c)" and "handleDWRFailure now e c = (go, c')"
  shows "port_step c c'"
proof -
  let ?c1 = "c\<lparr>c_dwrFailureCount := c_dwrFailureCount c + 1, c_dwrLastFailTime := now\<rparr>"
  have "c' = ?c1 \<or> handleFailure (ErrMaxDWRFailures e) ?c1 = (go, c')"
    using assms(2) by (auto simp: handleDWRFailure_def Let_def split: if_splits)
  moreover have "port_step c ?c1"
    by (simp add: port_step_def)
  ultimately show ?thesis
    using port_step_handleFailure [of ?c1 "ErrMaxDWRFailures e" go c'] assms(1) port_step_trans
    by auto
qed

lemma port_step_dispatchMessage: "port_step c (snd (dispatchMessage now msg c))"
  by (simp add: dispatchMessage_def deliverResponse_def handleDWR_def forwardToRecv_def port_step_def
      split: sum.split option.split)

lemma port_step_readLoopMessage: "port_step c (readLoopMessage g now msg c)"
proof -
  let ?c1 = "c\<lparr>c_MessagesReceived := c_MessagesReceived c + 1,
      c_BytesReceived := c_BytesReceived c + ucast (msg_Length msg)\<rparr>"
  have "port_step c ?c1" and "port_step c c"
    by (simp_all add: port_step_def)
  then show ?thesis
    using port_step_trans [OF _ port_step_dispatchMessage [of ?c1 now msg]]
    by (simp add: readLoopMessage_def)
qed

lemma held_shrinks:
  assumes "distinct h" and "distinct (b @ l1 @ l2)" and "set (b @ l1 @ l2) \<subseteq> set h"
    and "l1' = l1 \<or> l1' = []" and "l2' = l2 \<or> l2' = []"
  shows "distinct (b @ l1' @ l2') \<and> set (b @ l1' @ l2') \<subseteq> set h"
    and "b = [p] \<Longrightarrow> distinct (l1' @ l2') \<and> set (l1' @ l2') \<subseteq> set (remove1 p h)"
  using assms(4,5) assms(1-3) by (elim disjE; simp; blast)+

lemma ports_ok_mono:
  assumes ok: "ports_ok y" and st: "port_step (sy_c y) (sy_c y')"
    and l: "\<And>w. localPort (sy_pc y' w) = localPort (sy_pc y w) \<or> localPort (sy_pc y' w) = []"
  shows "ports_ok y'"
proof -
  note h = held_shrinks [OF _ _ _ l [of Starter] l [of Reconnector]]
  have d: "distinct (c_held (sy_c y))" "distinct (tracked y)"
      "set (tracked y) \<subseteq> set (c_held (sy_c y))"
    using ok by (simp_all add: ports_ok_def)
  note h1 = h(1) [OF d(1) d(2,3) [unfolded tracked_def]] and h2 = h(2) [OF d(1) d(2,3) [unfolded tracked_def]]
  show ?thesis
  proof (cases "c_held (sy_c y') = c_held (sy_c y) \<and> c_boundLocalAddr (sy_c y') = c_boundLocalAddr (sy_c y)")
    case True
    then show ?thesis
      using h1 d(1) ok st by (simp add: ports_ok_def port_step_def tracked_def)
  next
    case False
    then show ?thesis
      using h1 h2 d(1) ok st
      by (cases "c_boundLocalAddr (sy_c y)")
        (auto simp: ports_ok_def port_step_def tracked_def bound_list_def)
  qed
qed

lemma ports_ok_config: "ports_ok y \<Longrightarrow> hasReleaseLocalAddr (c_config (sy_c y))"
  by (simp add: ports_ok_def)

lemma ports_ok_here: "ports_ok y \<Longrightarrow> port_step (sy_c y) c \<Longrightarrow> ports_ok (y\<lparr>sy_c := c\<rparr>)"
  by (erule ports_ok_mono) simp_all

lemma ports_ok_dwrs [simp]: "ports_ok (y\<lparr>sy_dwrs := ds\<rparr>) = ports_ok y"
  by (simp add: ports_ok_def tracked_def)

lemma ports_ok_at:
  "ports_ok y \<Longrightarrow> port_step (sy_c y) c \<Longrightarrow> localPort p = [] \<Longrightarrow> ports_ok (at w p c y)"
  by (erule ports_ok_mono) (simp_all add: at_def)

lemma ports_ok_failWith: "ports_ok y \<Longrightarrow> ports_ok (failWith e y)"
  using port_step_handleFailure [OF ports_ok_config]
  by (auto simp: failWith_def intro!: ports_ok_at ports_ok_here split: prod.split bool.split)

lemma ports_ok_connectFailed:
  assumes "ports_ok y" and "port_step (sy_c y) c"
  shows "ports_ok (connectFailed w e c y)"
proof -
  have "port_step c ((setState StateFailed c)\<lparr>c_lastError := Some e\<rparr>)"
    by (simp add: port_step_def)
  then have "port_step (sy_c y) ((setState StateFailed c)\<lparr>c_lastError := Some e\<rparr>)"
    using assms(2) port_step_trans by blast
  then show ?thesis
    using assms(1) by (auto simp: connectFailed_def Let_def intro!: ports_ok_failWith ports_ok_at
        split: who.split)
qed

lemma ports_ok_handshakeFailed:
  assumes "ports_ok y" and "port_step (sy_c y) c"
  shows "ports_ok (handshakeFailed w e c y)"
proof -
  have "hasReleaseLocalAddr (c_config c)"
    using assms by (simp add: ports_ok_def port_step_def)
  then show ?thesis
    unfolding handshakeFailed_def
    using ports_ok_connectFailed [OF assms(1) port_step_trans [OF assms(2) port_step_close]] by simp
qed

lemma ports_ok_connectSucceeded:
  assumes "ports_ok y" and "port_step (sy_c y) c"
  shows "ports_ok (connectSucceeded w c y)"
  using assms port_step_trans [OF assms(2) port_step_simple(2) [of c True]]
  by (auto simp: connectSucceeded_def intro!: ports_ok_at split: who.split prod.split bool.split)

lemma ports_ok_acquire:
  assumes "ports_ok y" and "sy_pc y w = Begin" and "port \<notin> set (c_held (sy_c y))"
  shows "ports_ok (at w (Dial (Some port)) ((sy_c y)\<lparr>c_held := port # c_held (sy_c y)\<rparr>) y)"
  using assms by (cases w) (auto simp: ports_ok_def tracked_def at_def)

lemma ports_ok_install:
  assumes "ports_ok y" and "sy_pc y w = Install la s"
  shows "ports_ok (at w SendCER ((sy_c y)\<lparr>c_conn := Some s, c_boundLocalAddr := la,
      c_connGeneration := c_connGeneration (sy_c y) + 1\<rparr>) y)"
  using assms by (cases w; cases la) (auto simp: ports_ok_def tracked_def at_def bound_list_def)

lemma ports_ok_dial:
  assumes "ports_ok y" and "sy_pc y w = Dial la"
  shows "ports_ok (at w (Install la s) ((sy_c y)\<lparr>c_sockets := ss\<rparr>) y)"
  using assms by (cases w; cases la) (auto simp: ports_ok_def tracked_def at_def)

lemma connectFailed_at: "connectFailed w e c (at w p c' y) = connectFailed w e c y"
  by (cases w) (simp_all add: connectFailed_def at_def Let_def)

lemma ports_ok_release_local:
  assumes "ports_ok y" and "sy_pc y w = Dial (Some port)"
  shows "ports_ok (at w Idle (ReleaseLocalAddr port (sy_c y)) y)"
  using assms by (cases w) (auto simp: ports_ok_def tracked_def at_def ReleaseLocalAddr_def)

lemma ports_ok_dial_error:
  assumes "ports_ok y" and "sy_pc y w = Dial la"
  shows "ports_ok (connectFailed w e
      (case la of Some port \<Rightarrow> ReleaseLocalAddr port (sy_c y) | None \<Rightarrow> sy_c y) y)"
proof (cases la)
  case None
  then show ?thesis
    using assms(1) by (simp add: ports_ok_connectFailed port_step_same)
next
  case (Some port)
  let ?c = "ReleaseLocalAddr port (sy_c y)"
  have "ports_ok (connectFailed w e ?c (at w Idle ?c y))"
    using ports_ok_release_local [OF assms(1)] assms(2) Some
    by (intro ports_ok_connectFailed) (auto simp: at_def intro: port_step_same)
  then show ?thesis
    using Some by (simp add: connectFailed_at)
qed

lemmas port_steps = port_step_same port_step_simple port_step_Close port_step_handshakeSend
  port_step_sendDWR port_step_Send port_step_handleDWA port_step_readLoopMessage ports_ok_config
  port_step_trans [OF _ port_step_simple(3)]

lemma ports_ok_step:
  assumes "sys_step y y'" and "ports_ok y"
  shows "ports_ok y'"
  using assms
proof (cases rule: sys_step.cases)
  case (dwr_failed hbh g e now go c)
  have "port_step (sy_c y) (unregisterPending hbh c)"
    using port_step_handleDWRFailure dwr_failed assms(2) port_step_trans
    by (blast intro: port_steps)
  then show ?thesis
    using assms(2) dwr_failed by (auto intro: ports_ok_at ports_ok_here)
next
  case (acquire w port)
  then show ?thesis using assms(2) by (simp add: ports_ok_acquire)
next
  case (install w la s)
  then show ?thesis using assms(2) by (simp add: ports_ok_install)
next
  case (dial w la s)
  then show ?thesis using assms(2) by (simp add: ports_ok_dial)
next
  case (dial_error w la)
  then show ?thesis using assms(2) by (simp add: ports_ok_dial_error)
next
  case (tick_failed e c)
  then have "ports_ok (y\<lparr>sy_c := c\<rparr>)"
    using assms(2) by (blast intro: ports_ok_here port_steps)
  then show ?thesis
    using tick_failed by (simp add: ports_ok_failWith)
next
  case (dwa_ok hbh g data now c)
  then show ?thesis
    using assms(2) by (simp add: ports_ok_here port_steps)
qed (use assms(2) in \<open>simp_all add: ports_ok_here ports_ok_at ports_ok_failWith
    ports_ok_handshakeFailed ports_ok_connectSucceeded ports_ok_connectFailed port_steps\<close>)

lemma ports_ok_reach: "sys_reach config y \<Longrightarrow> hasReleaseLocalAddr config \<Longrightarrow> ports_ok y"
proof (induction rule: sys_reach.induct)
  case init
  then show ?case
    by (simp add: ports_ok_def sys_init_def NewConnection_def tracked_def bound_list_def)
qed (simp add: ports_ok_step)

section \<open>The flag of the reconnect loop\<close>

definition loop_ok :: "sys \<Rightarrow> bool" where
  "loop_ok y \<longleftrightarrow> (\<not> c_ctxDone (sy_c y) \<longrightarrow> c_reconnecting (sy_c y) = (sy_pc y Reconnector \<noteq> Idle))"

text \<open>What the methods do to the two variables: nothing, or a new loop is started.\<close>

definition loop_step :: "bool \<Rightarrow> Connection \<Rightarrow> Connection \<Rightarrow> bool" where
  "loop_step go c c' \<longleftrightarrow> c_ctxDone c' = c_ctxDone c \<and>
     c_reconnecting c' = (c_reconnecting c \<or> go) \<and> (go \<longrightarrow> \<not> c_reconnecting c \<and> \<not> c_ctxDone c)"

lemma loop_step_trans: "loop_step False a b \<Longrightarrow> loop_step go b c \<Longrightarrow> loop_step go a c"
  by (auto simp: loop_step_def)

lemma loop_step_then: "loop_step go a b \<Longrightarrow> loop_step False b c \<Longrightarrow> loop_step go a c"
  by (auto simp: loop_step_def)

lemma loop_step_handleFailure: "handleFailure e c = (go, c') \<Longrightarrow> loop_step go c c'"
  by (auto simp: handleFailure_def Let_def scheduleReconnect_def callOnFailure_def loop_step_def
      split: if_splits)

lemma loop_step_handleDWRFailure: "handleDWRFailure now e c = (go, c') \<Longrightarrow> loop_step go c c'"
  using loop_step_handleFailure [of "ErrMaxDWRFailures e"
      "c\<lparr>c_dwrFailureCount := c_dwrFailureCount c + 1, c_dwrLastFailTime := now\<rparr>" go c']
  by (auto simp: handleDWRFailure_def Let_def loop_step_def split: if_splits)

lemma loop_step_simple:
  "loop_step False c (setState s c)" "loop_step False c (close_conn c)"
  "loop_step False c (unregisterPending hbh c)" "loop_step False c (ReleaseLocalAddr port c)"
  "loop_step False c (startWatchdog ((setState s c)\<lparr>c_lastActivity := t, c_dwrFailureCount := k\<rparr>))"
  by (simp_all add: loop_step_def unregisterPending_def startWatchdog_def ReleaseLocalAddr_def)

lemma loop_step_same:
  "c_ctxDone c' = c_ctxDone c \<Longrightarrow> c_reconnecting c' = c_reconnecting c \<Longrightarrow> loop_step False c c'"
  by (simp add: loop_step_def)

lemma loop_step_handshakeSend: "handshakeSend ip c = (r, c') \<Longrightarrow> loop_step False c c'"
  by (auto simp: handshakeSend_def nextHopByHopID_def nextEndToEndID_def registerPending_def
      unregisterPending_def Let_def loop_step_def split: sum.splits if_splits)

lemma loop_step_sendDWR: "sendDWR c = (r, c') \<Longrightarrow> loop_step False c c'"
  by (auto simp: sendDWR_def nextHopByHopID_def nextEndToEndID_def registerPending_def
      unregisterPending_def Let_def loop_step_def split: sum.splits if_splits)

lemma loop_step_Send: "Send d c = (r, c') \<Longrightarrow> loop_step False c c'"
  by (auto simp: Send_def loop_step_def split: if_splits)

lemma loop_step_handleDWA: "handleDWA now d c = (r, c') \<Longrightarrow> loop_step False c c'"
  by (auto simp: handleDWA_def loop_step_def split: sum.splits if_splits)

lemma loop_step_dispatchMessage: "loop_step False c (snd (dispatchMessage now msg c))"
  by (simp add: dispatchMessage_def deliverResponse_def handleDWR_def forwardToRecv_def loop_step_def
      split: sum.split option.split)

lemma loop_step_readLoopMessage: "loop_step False c (readLoopMessage g now msg c)"
  using loop_step_dispatchMessage by (simp add: readLoopMessage_def loop_step_def)

lemma loop_ok_here: "loop_ok y \<Longrightarrow> loop_step False (sy_c y) c \<Longrightarrow> loop_ok (y\<lparr>sy_c := c\<rparr>)"
  by (simp add: loop_ok_def loop_step_def)

lemma loop_ok_dwrs [simp]: "loop_ok (y\<lparr>sy_dwrs := ds\<rparr>) = loop_ok y"
  by (simp add: loop_ok_def)

lemma loop_ok_at:
  "loop_ok y \<Longrightarrow> loop_step False (sy_c y) c \<Longrightarrow> w = Reconnector \<Longrightarrow> sy_pc y w \<noteq> Idle \<and> p \<noteq> Idle \<Longrightarrow>
   loop_ok (at w p c y)"
  "loop_ok y \<Longrightarrow> loop_step False (sy_c y) c \<Longrightarrow> w = Starter \<Longrightarrow> loop_ok (at w p c y)"
  by (auto simp: loop_ok_def loop_step_def at_def)

lemma loop_ok_busy:
  "loop_ok y \<Longrightarrow> loop_step False (sy_c y) c \<Longrightarrow> sy_pc y w \<noteq> Idle \<Longrightarrow> p \<noteq> Idle \<Longrightarrow> loop_ok (at w p c y)"
  by (cases w) (auto intro: loop_ok_at)

lemma loop_ok_go: "loop_step True (sy_c y) c \<Longrightarrow> loop_ok (at Reconnector Wait c y)"
  by (simp add: loop_ok_def loop_step_def at_def)

lemma loop_ok_failWith: "loop_ok y \<Longrightarrow> loop_ok (failWith e y)"
  using loop_step_handleFailure [of e "sy_c y"]
  by (auto simp: failWith_def intro!: loop_ok_go loop_ok_here split: prod.split bool.split)

lemma loop_ok_connectFailed:
  assumes "loop_ok y" and "sy_pc y w \<noteq> Idle" and "loop_step False (sy_c y) c"
  shows "loop_ok (connectFailed w e c y)"
  using assms by (cases w) (auto simp: connectFailed_def Let_def loop_step_def
      intro!: loop_ok_failWith loop_ok_busy)

lemma loop_ok_handshakeFailed:
  assumes "loop_ok y" and "sy_pc y w \<noteq> Idle" and "loop_step False (sy_c y) c"
  shows "loop_ok (handshakeFailed w e c y)"
  unfolding handshakeFailed_def
  using loop_ok_connectFailed [OF assms(1,2) loop_step_then [OF assms(3) loop_step_simple(2)]] .

lemma loop_ok_connectSucceeded:
  assumes "loop_ok y" and "sy_pc y w \<noteq> Idle" and "loop_step False (sy_c y) c"
  shows "loop_ok (connectSucceeded w c y)"
  using assms by (cases w) (auto simp: connectSucceeded_def finishReconnect_def loop_ok_def
      loop_step_def at_def)

lemmas loop_steps = loop_step_same loop_step_simple loop_step_handshakeSend loop_step_sendDWR
  loop_step_Send loop_step_handleDWA loop_step_readLoopMessage loop_step_then [OF _ loop_step_simple(3)]

lemma loop_ok_step:
  assumes "sys_step y y'" and "loop_ok y"
  shows "loop_ok y'"
  using assms
proof (cases rule: sys_step.cases)
  case (dwr_failed hbh g e now go c)
  have "loop_step go (sy_c y) (unregisterPending hbh c)"
    using loop_step_handleDWRFailure [OF dwr_failed(5)] loop_step_then loop_step_simple(3) by blast
  then show ?thesis
    using assms(2) dwr_failed(1) by (cases go) (auto intro: loop_ok_go loop_ok_here)
next
  case timer_cancelled
  then show ?thesis by (simp add: loop_ok_def at_def finishReconnect_def)
next
  case (dial_error w la)
  then show ?thesis
    using assms(2) by (simp add: loop_ok_connectFailed loop_steps split: option.split)
next
  case (tick_failed e c)
  then have "loop_ok (y\<lparr>sy_c := c\<rparr>)"
    using assms(2) by (blast intro: loop_ok_here loop_steps)
  then show ?thesis
    using tick_failed by (simp add: loop_ok_failWith)
next
  case user_close
  then show ?thesis by (simp add: loop_ok_def Close_def finishReconnect_def Let_def)
qed (use assms(2) in \<open>simp_all add: loop_ok_here loop_ok_at loop_ok_busy loop_ok_failWith
    loop_ok_handshakeFailed loop_ok_connectSucceeded loop_ok_connectFailed loop_steps\<close>)

lemma loop_ok_reach: "sys_reach config y \<Longrightarrow> loop_ok y"
proof (induction rule: sys_reach.induct)
  case init
  then show ?case by (simp add: loop_ok_def sys_init_def NewConnection_def)
qed (simp add: loop_ok_step)

section \<open>Runs of the retry logic\<close>

lemma at_simps [simp]:
  "sy_c (at w p c y) = c" "sy_pc (at w p c y) = (sy_pc y)(w := p)" "sy_dwrs (at w p c y) = sy_dwrs y"
  "at w p c (at w p' c' y) = at w p c y"
  by (simp_all add: at_def)

lemma setState_eq: "setState s c = c\<lparr>c_state := s\<rparr>"
  by (simp add: setState_def)

lemma close_conn_eq:
  "close_conn c = c\<lparr>c_dwrTicker := False, c_conn := None,
     c_connGeneration := (if c_conn c = None then c_connGeneration c else c_connGeneration c + 1),
     c_sockets := c_sockets c - set_option (c_conn c), c_boundLocalAddr := None,
     c_held := (if hasReleaseLocalAddr (c_config c)
                then fold remove1 (bound_list (c_boundLocalAddr c)) (c_held c) else c_held c)\<rparr>"
  by (simp add: close_conn_def stopWatchdog_def ReleaseLocalAddr_def Let_def bound_list_def
      split: option.split)

lemma handleFailure_live:
  assumes "\<not> c_ctxDone c" and "c_state c \<noteq> StateClosed" and "c_conn c = Some s" and "\<not> c_reconnectDisabled c"
  shows "handleFailure e c = (\<not> c_reconnecting c,
    (close_conn (c\<lparr>c_lastError := Some e, c_state := StateFailed\<rparr>))
      \<lparr>c_onFailureCalls := c_onFailureCalls c @ [e], c_reconnecting := True,
       c_reconnectRequested := c_reconnectRequested c \<or> c_reconnecting c\<rparr>)"
  using assms by (simp add: handleFailure_def Let_def setState_eq close_conn_eq callOnFailure_def
      scheduleReconnect_def)

definition sane :: "DRAConfig \<Rightarrow> bool" where
  "sane config \<longleftrightarrow> OriginHost config \<noteq> [] \<and> OriginRealm config \<noteq> [] \<and> ProductName config \<noteq> []"

definition cer_sent_conn :: "int option \<Rightarrow> nat \<Rightarrow> bytes \<Rightarrow> Connection \<Rightarrow> Connection" where
  "cer_sent_conn la s d c = c\<lparr>c_held := bound_list la @ c_held c, c_sockets := insert s (c_sockets c),
     c_conn := Some s, c_boundLocalAddr := la, c_connGeneration := c_connGeneration c + 1,
     c_hopByHopID := c_hopByHopID c + 1, c_endToEndID := c_endToEndID c + 1,
     c_pending := (c_pending c)(c_hopByHopID c + 1 \<mapsto> None), c_state := StateCERSent,
     c_sendCh := c_sendCh c @ [d]\<rparr>"

lemma handshakeSend_ok:
  assumes "sane (c_config c)" and "length (c_sendCh c) < SendBufferSize (c_config c)"
  obtains d where "handshakeSend (Some ip) c = (Inr (c_hopByHopID c + 1),
    c\<lparr>c_hopByHopID := c_hopByHopID c + 1, c_endToEndID := c_endToEndID c + 1,
      c_pending := (c_pending c)(c_hopByHopID c + 1 \<mapsto> None), c_state := StateCERSent,
      c_sendCh := c_sendCh c @ [d]\<rparr>)"
proof -
  let ?cer = "handshakeCER (c_config c) (Some ip) (c_hopByHopID c + 1) (c_endToEndID c + 1)"
  have "CER_Validate ?cer = None"
    using assms(1) by (simp add: CER_Validate_def handshakeCER_def sane_def Let_def)
  then obtain cer d where "CER_Marshal ?cer = Inr (cer, d)"
    by (cases "sealMessage (cer_Header ?cer) (writeAVPs (CER_writes ?cer))") (simp add: CER_Marshal_def)
  then show thesis
    using assms(2) that
    by (simp add: handshakeSend_def nextHopByHopID_def nextEndToEndID_def registerPending_def Let_def
        setState_eq)
qed

lemma reach_AwaitCEA:
  assumes r: "sys_reach config y" and b: "sy_pc y w = Begin" and "s \<notin> c_sockets (sy_c y)"
    and la: "hasAcquireLocalAddr (c_config (sy_c y)) = (la \<noteq> None)"
      "set (bound_list la) \<inter> set (c_held (sy_c y)) = {}"
    and s: "sane (c_config (sy_c y))" and l: "length (c_sendCh (sy_c y)) < SendBufferSize (c_config (sy_c y))"
  obtains d where
    "sys_reach config (at w (AwaitCEA (c_hopByHopID (sy_c y) + 1)) (cer_sent_conn la s d (sy_c y)) y)"
proof -
  have "sys_reach config (at w (Dial la) ((sy_c y)\<lparr>c_held := bound_list la @ c_held (sy_c y)\<rparr>) y)"
    using sys_reach.step [OF r acquire [OF b]] sys_reach.step [OF r acquire_none [OF b]] la
    by (cases la) (simp_all add: bound_list_def)
  from sys_reach.step [OF this dial [of _ w la s]] assms(3)
  have "sys_reach config (at w (Install la s) ((sy_c y)\<lparr>c_held := bound_list la @ c_held (sy_c y),
      c_sockets := insert s (c_sockets (sy_c y))\<rparr>) y)"
    by simp
  from sys_reach.step [OF this install [of _ w la s]]
  have i: "sys_reach config (at w SendCER ((sy_c y)\<lparr>c_held := bound_list la @ c_held (sy_c y),
      c_sockets := insert s (c_sockets (sy_c y)), c_conn := Some s, c_boundLocalAddr := la,
      c_connGeneration := c_connGeneration (sy_c y) + 1\<rparr>) y)" (is "sys_reach _ (at w _ ?c y)")
    by simp
  obtain d where "handshakeSend (Some []) ?c = (Inr (c_hopByHopID (sy_c y) + 1), cer_sent_conn la s d (sy_c y))"
    using handshakeSend_ok [of ?c "[]"] s l by (auto simp: cer_sent_conn_def)
  then show thesis
    using that sys_reach.step [OF i cer_sent [of _ w "Some []"]] by simp
qed

lemma reach_Accepted:
  assumes r: "sys_reach config y" and "sy_pc y w = AwaitCEA hbh" and "c_conn (sy_c y) \<noteq> None"
    and "\<not> c_ctxDone (sy_c y)" and "c_pending (sy_c y) hbh = Some None"
    and "dispatchMessage 0 msg c1 = (None, deliverResponse hbh msg c1)"
      (is "?dispatched")
    and "c1 = (sy_c y)\<lparr>c_MessagesReceived := c_MessagesReceived (sy_c y) + 1,
       c_BytesReceived := c_BytesReceived (sy_c y) + ucast (msg_Length msg)\<rparr>"
    and "handleCEA (msg_Header msg @ msg_Body msg) = None"
  shows "sys_reach config (at w Accepted (unregisterPending hbh c1) y)"
proof -
  let ?c2 = "c1\<lparr>c_pending := (c_pending c1)(hbh \<mapsto> Some (msg_Header msg @ msg_Body msg))\<rparr>"
  have "readLoopMessage (c_connGeneration (sy_c y)) 0 msg (sy_c y) = ?c2"
    using assms(5-7) by (simp add: readLoopMessage_def isCurrentGeneration_def deliverResponse_def)
  then have "sys_reach config (y\<lparr>sy_c := ?c2\<rparr>)"
    using sys_reach.step [OF r read_message [OF assms(3,4), of 0 msg]] by simp
  from sys_reach.step [OF this cea_ok [of _ w hbh]] show ?thesis
    using assms(2,8) by (simp add: unregisterPending_def at_def)
qed

definition demo_config :: "bool \<Rightarrow> DRAConfig" where
  "demo_config ports =
     \<lparr>Host = [104], Port = 3868, LocalAddr = [], LocalPortMin = 0, LocalPortMax = 0,
      OriginHost = [103, 119], OriginRealm = [114], ProductName = [71], VendorID = 10415,
      ConnectionCount = 1, DWRInterval = 30, DWRTimeout = 10, MaxDWRFailures = 3,
      ReconnectInterval = 5, MaxReconnectDelay = 300, SendBufferSize = 10, RecvBufferSize = 10,
      AuthAppIDs = [], AcctAppIDs = [], hasAcquireLocalAddr = ports, hasReleaseLocalAddr = ports\<rparr>"

definition demo_CEA :: "nat \<Rightarrow> Message" where
  "demo_CEA hbh =
     \<lparr>msg_Length = 32, msg_Header = [1,0,0,32, 0,0,1,1, 0,0,0,0, 0,0,0,of_nat hbh, 0,0,0,of_nat hbh],
      msg_Body = [0,0,1,12, 64,0,0,12, 0,0,7,209]\<rparr>"

lemma demo_CEA_accepted:
  "handleCEA (msg_Header (demo_CEA 2) @ msg_Body (demo_CEA 2)) = None"
  "handleCEA (msg_Header (demo_CEA 3) @ msg_Body (demo_CEA 3)) = None"
  by code_simp+

lemma demo_CEA_header:
  "ParseMessageHeader (msg_Header (demo_CEA 2)) = Inr
     \<lparr>mi_Version = 1, mi_Length = 32, mi_CommandCode = 257, mi_ApplicationID = 0, mi_HopByHopID = 2,
      mi_EndToEndID = 2, mi_Flags = \<lparr>mf_Request = False, mf_Proxiable = False, mf_Error = False,
      mf_Retrans = False\<rparr>, mi_IsRequest = False, mi_IsProxiable = False, mi_IsError = False,
      mi_IsRetrans = False\<rparr>"
  "ParseMessageHeader (msg_Header (demo_CEA 3)) = Inr
     \<lparr>mi_Version = 1, mi_Length = 32, mi_CommandCode = 257, mi_ApplicationID = 0, mi_HopByHopID = 3,
      mi_EndToEndID = 3, mi_Flags = \<lparr>mf_Request = False, mf_Proxiable = False, mf_Error = False,
      mf_Retrans = False\<rparr>, mi_IsRequest = False, mi_IsProxiable = False, mi_IsError = False,
      mi_IsRetrans = False\<rparr>"
  by code_simp+

lemma demo_CEA_dispatch:
  "dispatchMessage now (demo_CEA 2) c = (None, deliverResponse 2 (demo_CEA 2) c)"
  "dispatchMessage now (demo_CEA 3) c = (None, deliverResponse 3 (demo_CEA 3) c)"
  by (simp_all add: dispatchMessage_def demo_CEA_header IsBaseProtocol_def GetMessageType_def)

text \<open>
  Both runs begin alike: the peer drops the first TCP connection while \<^verbatim>\<open>Start\<close> waits for its CEA,
  and the reconnect loop begins an attempt of its own.
\<close>

lemma first_drop:
  defines "la \<equiv> \<lambda>ports. if ports then Some (5000::int) else None"
  obtains y d where "sys_reach (demo_config ports) y" and "sy_pc y Starter = AwaitCEA 1"
    and "sy_pc y Reconnector = Begin" and "sy_dwrs y = {}"
    and "sy_c y = (NewConnection (demo_config ports))\<lparr>c_connGeneration := 2, c_hopByHopID := 1,
       c_endToEndID := 1, c_pending := [1 \<mapsto> None], c_state := StateConnecting, c_sendCh := [d],
       c_lastError := Some ErrIO, c_onFailureCalls := [ErrIO], c_reconnecting := True\<rparr>"
proof -
  let ?cfg = "demo_config ports"
  let ?y1 = "at Starter Begin (setState StateConnecting (NewConnection ?cfg)) (sys_init ?cfg)"
  have y1: "sys_reach ?cfg ?y1"
    using sys_reach.step [OF sys_reach.init start [of "sys_init ?cfg"]] by (simp add: sys_init_def)
  obtain d where "sys_reach ?cfg (at Starter (AwaitCEA (c_hopByHopID (sy_c ?y1) + 1))
      (cer_sent_conn (la ports) 1 d (sy_c ?y1)) ?y1)"
    by (rule reach_AwaitCEA [OF y1, of Starter 1 "la ports"])
      (auto simp: la_def NewConnection_def demo_config_def sane_def bound_list_def)
  then have y2: "sys_reach ?cfg (at Starter (AwaitCEA 1) (cer_sent_conn (la ports) 1 d (sy_c ?y1)) ?y1)"
    (is "sys_reach _ ?y2")
    by (simp add: NewConnection_def setState_eq)
  have y3: "sys_reach ?cfg (failWith ErrIO ?y2)" (is "sys_reach _ ?y3")
    using sys_reach.step [OF y2 read_failed] by (simp add: cer_sent_conn_def NewConnection_def)
  note defs = failWith_def handleFailure_live [where s = 1] close_conn_eq cer_sent_conn_def
    NewConnection_def la_def bound_list_def setState_eq demo_config_def
  have t: "sy_pc ?y3 Reconnector = Wait"
    by (simp_all add: defs)
  show thesis
    by (rule that [OF sys_reach.step [OF y3 timer [OF t]], of d]) (simp_all add: defs sys_init_def)
qed

section \<open>A stale handshake kills the new connection\<close>

text \<open>No goroutine is left that would dial again, and nothing that could start one.\<close>

definition dead :: "sys \<Rightarrow> bool" where
  "dead y \<longleftrightarrow> sy_pc y Starter = Finished \<and> sy_pc y Reconnector = Idle \<and> sy_dwrs y = {} \<and>
     c_conn (sy_c y) = None \<and> \<not> c_dwrTicker (sy_c y) \<and>
     c_state (sy_c y) \<in> {StateFailed, StateClosed}"

lemma dead_pc: "dead y \<Longrightarrow> sy_pc y w = (case w of Starter \<Rightarrow> Finished | Reconnector \<Rightarrow> Idle)"
  by (cases w) (simp_all add: dead_def)

lemma dead_facts:
  "dead y \<Longrightarrow> c_conn (sy_c y) = None" "dead y \<Longrightarrow> \<not> c_dwrTicker (sy_c y)" "dead y \<Longrightarrow> sy_dwrs y = {}"
  "dead y \<Longrightarrow> c_state (sy_c y) \<noteq> StateDWRSent"
  by (auto simp: dead_def)

lemma dead_not_active: "dead y \<Longrightarrow> \<not> IsActive (sy_c y)"
  by (auto simp: dead_def IsActive_def state_IsActive_def)

lemma dead_Send: "dead y \<Longrightarrow> Send data (sy_c y) = (Some ErrConnectionClosed, sy_c y)"
  by (simp add: Send_def dead_not_active)

lemma dead_step: "sys_step y y' \<Longrightarrow> dead y \<Longrightarrow> dead y'"
proof (induction rule: sys_step.induct)
  case (user_close y)
  then show ?case
    by (simp add: dead_def Close_def finishReconnect_def Let_def)
next
  case (user_send data y r c)
  then show ?case
    by (auto simp: dead_Send)
next
  case (dropped y d rest)
  then show ?case
    by (simp add: dead_def)
qed (simp_all add: dead_pc dead_facts split: who.splits)

lemma dead_run: "sys_step\<^sup>*\<^sup>* y y' \<Longrightarrow> dead y \<Longrightarrow> dead y'"
  by (induction rule: rtranclp_induct) (auto intro: dead_step)

lemma stale_start_path:
  obtains y where "sys_reach (demo_config False) y" and "dead y" and "\<not> c_ctxDone (sy_c y)"
    and "c_state (sy_c y) = StateFailed"
proof -
  let ?cfg = "demo_config False"
  obtain y d where y: "sys_reach ?cfg y" "sy_pc y Starter = AwaitCEA 1" "sy_pc y Reconnector = Begin"
    "sy_dwrs y = {}"
    and c: "sy_c y = (NewConnection ?cfg)\<lparr>c_connGeneration := 2, c_hopByHopID := 1,
       c_endToEndID := 1, c_pending := [1 \<mapsto> None], c_state := StateConnecting, c_sendCh := [d],
       c_lastError := Some ErrIO, c_onFailureCalls := [ErrIO], c_reconnecting := True\<rparr>"
    by (rule first_drop)
  note defs = c NewConnection_def demo_config_def sane_def bound_list_def cer_sent_conn_def
  obtain d2 where "sys_reach ?cfg (at Reconnector (AwaitCEA (c_hopByHopID (sy_c y) + 1))
      (cer_sent_conn None 2 d2 (sy_c y)) y)" (is "sys_reach _ ?y2")
    by (rule reach_AwaitCEA [OF y(1,3), of 2 None]) (simp_all add: defs)
  then have "sys_reach ?cfg (at Reconnector Accepted (unregisterPending 2 ((sy_c ?y2)
      \<lparr>c_MessagesReceived := c_MessagesReceived (sy_c ?y2) + 1,
       c_BytesReceived := c_BytesReceived (sy_c ?y2) + ucast (msg_Length (demo_CEA 2))\<rparr>)) ?y2)"
    (is "sys_reach _ ?y3")
    by (rule reach_Accepted [OF _ _ _ _ _ demo_CEA_dispatch(1) refl demo_CEA_accepted(1)])
      (simp_all add: defs)
  from sys_reach.step [OF this opened [of ?y3 Reconnector 0]]
  have y4: "sys_reach ?cfg (connectSucceeded Reconnector (startWatchdog ((setState StateOpen (sy_c ?y3))
      \<lparr>c_lastActivity := 0, c_dwrFailureCount := 0\<rparr>)) ?y3)" (is "sys_reach _ ?y4")
    by simp
  note defs2 = defs connectSucceeded_def finishReconnect_def IsActive_def state_IsActive_def
    startWatchdog_def setState_eq unregisterPending_def
  have "sy_pc ?y4 Starter = AwaitCEA 1"
    using y by (simp add: defs2)
  from that [OF sys_reach.step [OF y4 cea_timeout [OF this]]] show thesis
    using y by (simp add: defs2 handshakeFailed_def connectFailed_def failWith_def Let_def dead_def
        handleFailure_def close_conn_eq)
qed

section \<open>A leftover request dials over a healthy connection\<close>

text \<open>The failure of an attempt is recorded, and the attempt itself then fails as well.\<close>

lemma second_drop:
  obtains y ds where "sys_reach (demo_config True) y" and "sy_pc y Starter = AwaitCEA 1"
    and "sy_pc y Reconnector = Begin" and "sy_dwrs y = {}" and "length ds = 2"
    and "sy_c y = (NewConnection (demo_config True))\<lparr>c_connGeneration := 4, c_hopByHopID := 2,
       c_endToEndID := 2, c_pending := [1 \<mapsto> None], c_state := StateConnecting, c_sendCh := ds,
       c_lastError := Some (ErrConnectionTimeout ''CER/CEA''), c_onFailureCalls := [ErrIO, ErrIO],
       c_reconnecting := True, c_reconnectRequested := True\<rparr>"
proof -
  let ?cfg = "demo_config True"
  obtain y d where y: "sys_reach ?cfg y" "sy_pc y Starter = AwaitCEA 1" "sy_pc y Reconnector = Begin"
    "sy_dwrs y = {}"
    and c: "sy_c y = (NewConnection ?cfg)\<lparr>c_connGeneration := 2, c_hopByHopID := 1,
       c_endToEndID := 1, c_pending := [1 \<mapsto> None], c_state := StateConnecting, c_sendCh := [d],
       c_lastError := Some ErrIO, c_onFailureCalls := [ErrIO], c_reconnecting := True\<rparr>"
    by (rule first_drop)
  note defs = c NewConnection_def demo_config_def sane_def bound_list_def cer_sent_conn_def
  obtain d2 where y2: "sys_reach ?cfg (at Reconnector (AwaitCEA (c_hopByHopID (sy_c y) + 1))
      (cer_sent_conn (Some 5001) 2 d2 (sy_c y)) y)" (is "sys_reach _ ?y2")
    by (rule reach_AwaitCEA [OF y(1,3), of 2 "Some 5001"]) (simp_all add: defs)
  have y3: "sys_reach ?cfg (failWith ErrIO ?y2)" (is "sys_reach _ ?y3")
    using sys_reach.step [OF y2 read_failed] by (simp add: defs)
  note defs2 = defs failWith_def handleFailure_live [where s = 2] close_conn_eq
  have "sy_pc ?y3 Reconnector = AwaitCEA 2"
    by (simp add: defs2)
  from sys_reach.step [OF y3 cea_timeout [OF this]]
  have y4: "sys_reach ?cfg (handshakeFailed Reconnector (ErrConnectionTimeout ''CER/CEA'')
      (unregisterPending 2 (sy_c ?y3)) ?y3)" (is "sys_reach _ ?y4") .
  note defs3 = defs2 handshakeFailed_def connectFailed_def Let_def setState_eq unregisterPending_def
  have t: "sy_pc ?y4 Reconnector = Wait"
    by (simp_all add: defs3)
  show thesis
    by (rule that [OF sys_reach.step [OF y4 timer [OF t]], of "[d, d2]"])
      (use y in \<open>simp_all add: defs3 fun_upd_def [symmetric]\<close>)
qed

lemma leftover_request_path:
  obtains y where "sys_reach (demo_config True) y" and "5002 \<in> set (c_held (sy_c y))"
    and "5002 \<notin> set (tracked y)" and "3 \<in> c_sockets (sy_c y)" and "c_conn (sy_c y) = Some 4"
    and "5002 \<in> set (c_held (Close (sy_c y)))" and "3 \<in> c_sockets (Close (sy_c y))"
proof -
  let ?cfg = "demo_config True"
  obtain y ds where y: "sys_reach ?cfg y" "sy_pc y Starter = AwaitCEA 1" "sy_pc y Reconnector = Begin"
    "sy_dwrs y = {}" and ds: "length ds = 2"
    and c: "sy_c y = (NewConnection ?cfg)\<lparr>c_connGeneration := 4, c_hopByHopID := 2,
       c_endToEndID := 2, c_pending := [1 \<mapsto> None], c_state := StateConnecting, c_sendCh := ds,
       c_lastError := Some (ErrConnectionTimeout ''CER/CEA''), c_onFailureCalls := [ErrIO, ErrIO],
       c_reconnecting := True, c_reconnectRequested := True\<rparr>"
    by (rule second_drop)
  note defs = c ds NewConnection_def demo_config_def sane_def bound_list_def cer_sent_conn_def
  obtain d2 where "sys_reach ?cfg (at Reconnector (AwaitCEA (c_hopByHopID (sy_c y) + 1))
      (cer_sent_conn (Some 5002) 3 d2 (sy_c y)) y)" (is "sys_reach _ ?y2")
    by (rule reach_AwaitCEA [OF y(1,3), of 3 "Some 5002"]) (simp_all add: defs)
  then have "sys_reach ?cfg (at Reconnector Accepted (unregisterPending 3 ((sy_c ?y2)
      \<lparr>c_MessagesReceived := c_MessagesReceived (sy_c ?y2) + 1,
       c_BytesReceived := c_BytesReceived (sy_c ?y2) + ucast (msg_Length (demo_CEA 3))\<rparr>)) ?y2)"
    (is "sys_reach _ ?y3")
    by (rule reach_Accepted [OF _ _ _ _ _ demo_CEA_dispatch(2) refl demo_CEA_accepted(2)])
      (simp_all add: defs)
  from sys_reach.step [OF this opened [of ?y3 Reconnector 0]]
  have y4: "sys_reach ?cfg (connectSucceeded Reconnector (startWatchdog ((setState StateOpen (sy_c ?y3))
      \<lparr>c_lastActivity := 0, c_dwrFailureCount := 0\<rparr>)) ?y3)" (is "sys_reach _ ?y4")
    by simp
  note defs2 = defs connectSucceeded_def finishReconnect_def startWatchdog_def setState_eq
    unregisterPending_def
  have t: "sy_pc ?y4 Reconnector = Wait"
    by (simp_all add: defs2)
  from sys_reach.step [OF y4 timer [OF t]]
  obtain y5 where y5: "sys_reach ?cfg y5" "sy_pc y5 Reconnector = Begin" "sy_pc y5 Starter = AwaitCEA 1"
    "c_sockets (sy_c y5) = {3}" "c_held (sy_c y5) = [5002]" "c_config (sy_c y5) = ?cfg"
    "length (c_sendCh (sy_c y5)) = 3"
    using y by (simp add: defs2)
  obtain d3 where "sys_reach ?cfg (at Reconnector (AwaitCEA (c_hopByHopID (sy_c y5) + 1))
      (cer_sent_conn (Some 5003) 4 d3 (sy_c y5)) y5)"
    by (rule reach_AwaitCEA [OF y5(1,2), of 4 "Some 5003"])
      (simp_all add: y5 demo_config_def sane_def bound_list_def)
  then show thesis
    by (rule that) (simp_all add: y5 cer_sent_conn_def demo_config_def tracked_def bound_list_def
        Close_def finishReconnect_def Let_def close_conn_eq setState_eq)
qed

section \<open>Properties\<close>

text \<open>
  C3. No source port is released twice: in every reachable state the ports that a variable still
  knows (the bound one, and those of a dial in progress in either goroutine) are different from each
  other and all still leased, so whichever \<^verbatim>\<open>close\<close> or dial error releases one releases a port that is
  held, and only once.
\<close>

theorem ports_released_once:
  assumes "sys_reach config y" and "hasReleaseLocalAddr config"
  shows "distinct (c_held (sy_c y)) \<and> distinct (tracked y) \<and> set (tracked y) \<subseteq> set (c_held (sy_c y))"
  using ports_ok_reach [OF assms] by (simp add: ports_ok_def)

theorem ports_released_once_witness:
  "\<exists>y. c_conn (sy_c y) = Some 4 \<and> distinct (c_held (sy_c y)) \<and> set (tracked y) \<subseteq> set (c_held (sy_c y))"
proof (rule leftover_request_path)
  fix y
  assume "sys_reach (demo_config True) y" and "c_conn (sy_c y) = Some 4"
  then show ?thesis
    using ports_released_once [of "demo_config True" y] by (auto simp: demo_config_def)
qed

text \<open>
  The guarantee that a connection is retried for ever fails: when the peer drops the first
  TCP connection during the handshake of \<^verbatim>\<open>Start\<close>, the reconnect loop establishes a new one and ends;
  then the handshake of \<^verbatim>\<open>Start\<close>, still waiting, times out and closes the new connection. The state
  reached, which nobody has closed, has no successor in which the connection is up again.
\<close>

theorem stale_start_kills_connection:
  "\<exists>y. sys_reach (demo_config False) y \<and> \<not> c_ctxDone (sy_c y) \<and> c_state (sy_c y) = StateFailed \<and>
     {y'. sys_step\<^sup>*\<^sup>* y y'} \<subseteq> {y'. c_conn (sy_c y') = None \<and> \<not> IsActive (sy_c y')}"
proof (rule stale_start_path)
  fix y
  assume y: "sys_reach (demo_config False) y" "dead y" "\<not> c_ctxDone (sy_c y)"
    "c_state (sy_c y) = StateFailed"
  have "{y'. sys_step\<^sup>*\<^sup>* y y'} \<subseteq> {y'. c_conn (sy_c y') = None \<and> \<not> IsActive (sy_c y')}"
    using dead_run [OF _ y(2)] dead_facts(1) dead_not_active by blast
  with y show ?thesis
    by blast
qed

text \<open>
  A failure recorded while an earlier attempt was running is still recorded when a later attempt
  succeeds. The loop then dials once more over the healthy connection: the old socket stays open
  although no variable refers to it, its source port stays leased although nothing will release it,
  and \<^verbatim>\<open>Close\<close> does not free them either.
\<close>

theorem leftover_request_leaks:
  "\<exists>y. sys_reach (demo_config True) y \<and> c_conn (sy_c y) = Some 4 \<and>
     3 \<in> c_sockets (sy_c y) \<and> 5002 \<in> set (c_held (sy_c y)) \<and> 5002 \<notin> set (tracked y) \<and>
     3 \<in> c_sockets (Close (sy_c y)) \<and> 5002 \<in> set (c_held (Close (sy_c y)))"
  by (rule leftover_request_path) blast

end
