(* ===== verification/Dra_Avp.thy ===== *)
theory Dra_Avp
  imports Framing
begin

text \<open>
  \<^verbatim>\<open>dra/avp.go\<close> and the framing of \<^verbatim>\<open>dra/peer.go\<close>: the routing agent's shallow view of a message.
  It works on whole message buffers with offsets; a slice expression beyond the capacity of the
  buffer panics, which is an outcome of its own. The lemmas show that on a message made of
  properly padded AVPs the rewrite replaces exactly the Origin-Host and Origin-Realm AVPs and
  keeps every other byte, that the agent's encoders coincide with the generated codec, and on
  which input the rewrite panics.
\<close>

section \<open>Outcomes\<close>

datatype dra_error =
    ShortHeader
  | MsgTooShort
  | TruncatedAVPHeader
  | BadAVPLength
  | TruncatedVendorAVP
  | BadAVPDataLength

datatype 'a outcome = Done 'a | Failed dra_error | Panic

section \<open>Header\<close>

definition headerLen :: nat where "headerLen = 20"

record parsedHeader =
  ph_Version :: byte
  ph_Length :: u32
  ph_Flags :: byte
  ph_CommandCode :: u32
  ph_ApplicationID :: u32
  ph_HopByHopID :: u32
  ph_EndToEndID :: u32

definition isRequest :: "parsedHeader \<Rightarrow> bool" where
  "isRequest h \<longleftrightarrow> ph_Flags h AND 0x80 \<noteq> 0"

definition be24 :: "byte \<Rightarrow> byte \<Rightarrow> byte \<Rightarrow> u32" where
  "be24 a b c = push_bit 16 (ucast a) OR push_bit 8 (ucast b) OR ucast c"

definition parseHeader :: "bytes \<Rightarrow> (dra_error, parsedHeader) result" where
  "parseHeader b =
     (if length b < headerLen then Inl ShortHeader
      else Inr \<lparr>ph_Version = b ! 0, ph_Length = be24 (b ! 1) (b ! 2) (b ! 3),
        ph_Flags = b ! 4, ph_CommandCode = be24 (b ! 5) (b ! 6) (b ! 7),
        ph_ApplicationID = Uint32 (bslice 8 12 b), ph_HopByHopID = Uint32 (bslice 12 16 b),
        ph_EndToEndID = Uint32 (bslice 16 20 b)\<rparr>)"

definition setHopByHop :: "bytes \<Rightarrow> u32 \<Rightarrow> bytes" where
  "setHopByHop msg hbh = take 12 msg @ PutUint32 hbh @ drop 16 msg"

section \<open>Walking the AVPs\<close>

record avpLoc =
  loc_start :: nat
  loc_hdrLen :: nat
  loc_dataLen :: nat
  loc_paddedTo :: nat

type_synonym 's avp_fn = "u32 \<Rightarrow> u32 \<Rightarrow> avpLoc \<Rightarrow> bytes \<Rightarrow> 's \<Rightarrow> 's outcome"

text \<open>
  The closures passed to \<^verbatim>\<open>iterateAVPs\<close> update captured variables, here the state \<open>'s\<close>. On an error
  the callers use none of them.
\<close>

function iterateLoop :: "bytes \<Rightarrow> 's avp_fn \<Rightarrow> nat \<Rightarrow> 's \<Rightarrow> 's outcome" where
  "iterateLoop msg fn pos s =
     (if \<not> pos < length msg then Done s
      else if pos + 8 > length msg then Failed TruncatedAVPHeader
      else
        let code = Uint32 (bslice pos (pos + 4) msg);
            flags = msg ! (pos + 4);
            avpLen = unat (be24 (msg ! (pos + 5)) (msg ! (pos + 6)) (msg ! (pos + 7)))
        in if avpLen < 8 \<or> avpLen > length msg - pos then Failed BadAVPLength
           else if flags AND 0x80 \<noteq> 0 \<and> pos + 12 > length msg then Failed TruncatedVendorAVP
           else
             let vendor = (if flags AND 0x80 \<noteq> 0 then Uint32 (bslice (pos + 8) (pos + 12) msg) else 0);
                 hdr = (if flags AND 0x80 \<noteq> 0 then 12 else 8)
             in if avpLen < hdr then Failed BadAVPDataLength
                else
                  let dataLen = avpLen - hdr;
                      padded = padded_length avpLen;
                      loc = \<lparr>loc_start = pos, loc_hdrLen = hdr, loc_dataLen = dataLen,
                             loc_paddedTo = padded\<rparr>;
                      body = bslice (pos + hdr) (pos + hdr + dataLen) msg
                  in case fn code vendor loc body s of
                       Done s' \<Rightarrow> iterateLoop msg fn (pos + padded) s'
                     | Failed e \<Rightarrow> Failed e
                     | Panic \<Rightarrow> Panic)"
  by pat_completeness auto
termination
proof (relation "measure (\<lambda>(msg, fn, pos, s). length msg - pos)", goal_cases)
  case (2 msg fn pos s code flags avpLen vendor hdr dataLen padded loc body s')
  then have "0 < padded"
    using padded_length_ge [of avpLen] by linarith
  then show ?case
    using 2 by simp
qed simp

declare iterateLoop.simps [simp del]

definition iterateAVPs :: "bytes \<Rightarrow> 's avp_fn \<Rightarrow> 's \<Rightarrow> 's outcome" where
  "iterateAVPs msg fn s =
     (if length msg < headerLen then Failed MsgTooShort else iterateLoop msg fn headerLen s)"

section \<open>Routing view\<close>

abbreviation avpOriginHost :: u32 where "avpOriginHost \<equiv> 264"
abbreviation avpOriginRealm :: u32 where "avpOriginRealm \<equiv> 296"
abbreviation avpDestinationHost :: u32 where "avpDestinationHost \<equiv> 293"
abbreviation avpDestinationRealm :: u32 where "avpDestinationRealm \<equiv> 283"

record routingView =
  rv_OriginHost :: gostring
  rv_OriginRealm :: gostring
  rv_DestinationHost :: gostring
  rv_DestinationRealm :: gostring
  rv_OriginHostLoc :: avpLoc
  rv_OriginRealmLoc :: avpLoc
  rv_hasOriginHost :: bool
  rv_hasOriginRealm :: bool

definition zero_loc :: avpLoc where
  "zero_loc = \<lparr>loc_start = 0, loc_hdrLen = 0, loc_dataLen = 0, loc_paddedTo = 0\<rparr>"

definition zero_view :: routingView where
  "zero_view =
     \<lparr>rv_OriginHost = [], rv_OriginRealm = [], rv_DestinationHost = [], rv_DestinationRealm = [],
      rv_OriginHostLoc = zero_loc, rv_OriginRealmLoc = zero_loc, rv_hasOriginHost = False,
      rv_hasOriginRealm = False\<rparr>"

definition routingStep :: "routingView avp_fn" where
  "routingStep code vendor loc body rv =
     Done
      (if vendor \<noteq> 0 then rv
       else if code = avpOriginHost then
         rv\<lparr>rv_OriginHost := body, rv_OriginHostLoc := loc, rv_hasOriginHost := True\<rparr>
       else if code = avpOriginRealm then
         rv\<lparr>rv_OriginRealm := body, rv_OriginRealmLoc := loc, rv_hasOriginRealm := True\<rparr>
       else if code = avpDestinationHost then rv\<lparr>rv_DestinationHost := body\<rparr>
       else if code = avpDestinationRealm then rv\<lparr>rv_DestinationRealm := body\<rparr>
       else rv)"

definition extractRouting :: "bytes \<Rightarrow> routingView outcome" where
  "extractRouting msg = iterateAVPs msg routingStep zero_view"

section \<open>Rewriting the origin\<close>

definition len_bytes :: "nat \<Rightarrow> bytes" where
  "len_bytes totalLen = [word_of_nat (totalLen div 65536), word_of_nat (totalLen div 256), word_of_nat totalLen]"

definition encodeStringAVP :: "u32 \<Rightarrow> gostring \<Rightarrow> bool \<Rightarrow> bytes" where
  "encodeStringAVP code value mandatory =
     (let totalLen = 8 + length value;
          padded = padded_length totalLen;
          flags = (if mandatory then 0x40 else 0)
      in PutUint32 code @ [flags] @ len_bytes totalLen @ value @ replicate (padded - totalLen) 0)"

record rewrite_state =
  rw_out :: bytes
  rw_wroteHost :: bool
  rw_wroteRealm :: bool

text \<open>
  \<^verbatim>\<open>msg[loc.start : loc.start+loc.paddedTo]\<close> panics beyond the capacity of \<^verbatim>\<open>msg\<close>; the buffer of a
  received message is allocated with \<^verbatim>\<open>make([]byte, total)\<close>, so its capacity is its length.
\<close>

definition rewriteStep :: "bytes \<Rightarrow> gostring \<Rightarrow> gostring \<Rightarrow> rewrite_state avp_fn" where
  "rewriteStep msg newHost newRealm code vendor loc body st =
     (if vendor = 0 \<and> code = avpOriginHost then
        Done (st\<lparr>rw_out := rw_out st @ encodeStringAVP avpOriginHost newHost True,
                 rw_wroteHost := True\<rparr>)
      else if vendor = 0 \<and> code = avpOriginRealm then
        Done (st\<lparr>rw_out := rw_out st @ encodeStringAVP avpOriginRealm newRealm True,
                 rw_wroteRealm := True\<rparr>)
      else if loc_start loc + loc_paddedTo loc > length msg then Panic
      else Done (st\<lparr>rw_out := rw_out st @
             bslice (loc_start loc) (loc_start loc + loc_paddedTo loc) msg\<rparr>))"

definition fixLength :: "bytes \<Rightarrow> bytes" where
  "fixLength out = take 1 out @ len_bytes (length out) @ drop 4 out"

definition rewriteOriginHostRealm :: "bytes \<Rightarrow> gostring \<Rightarrow> gostring \<Rightarrow> bytes outcome" where
  "rewriteOriginHostRealm msg newHost newRealm =
     (if length msg < headerLen then Failed MsgTooShort
      else case iterateAVPs msg (rewriteStep msg newHost newRealm)
             \<lparr>rw_out = take headerLen msg, rw_wroteHost = False, rw_wroteRealm = False\<rparr> of
        Failed e \<Rightarrow> Failed e
      | Panic \<Rightarrow> Panic
      | Done st \<Rightarrow>
          let out1 = rw_out st @
                (if rw_wroteHost st then [] else encodeStringAVP avpOriginHost newHost True);
              out2 = out1 @
                (if rw_wroteRealm st then [] else encodeStringAVP avpOriginRealm newRealm True)
          in Done (fixLength out2))"

section \<open>Framing of the routing agent\<close>

datatype dra_read_error = ReadFailed io_error | BadVersion | ImplausibleLength

definition readMessage :: "bytes \<Rightarrow> (dra_read_error, bytes) result \<times> bytes" where
  "readMessage conn =
     (case ReadFull conn 4 of
        (Inl (e, n), r) \<Rightarrow> (Inl (ReadFailed e), r)
      | (Inr prefix, r) \<Rightarrow>
          if prefix ! 0 \<noteq> 1 then (Inl BadVersion, r)
          else
            let totalLen = be24 (prefix ! 1) (prefix ! 2) (prefix ! 3)
            in if totalLen < 20 \<or> totalLen > 1048576 then (Inl ImplausibleLength, r)
               else case ReadFull r (unat totalLen - 4) of
                      (Inl (e, n), r') \<Rightarrow> (Inl (ReadFailed e), r')
                    | (Inr rest, r') \<Rightarrow> (Inr (prefix @ rest), r'))"

section \<open>The encoders coincide with the generated codec\<close>

lemma be24_Uint32: "be24 a b c = Uint32 [0, a, b, c]"
  by (simp add: be24_def length_field_Uint32)

lemma byte_of_nat:
  "(word_of_nat (n div 2 ^ k) :: byte) = ucast (drop_bit k (word_of_nat n :: u32))" if "k + 8 \<le> 32"
proof (rule bit_word_eqI)
  fix i assume i: "i < LENGTH(8)"
  have "n div 2 ^ k = drop_bit k n"
    by (simp add: drop_bit_eq_div)
  then show "bit (word_of_nat (n div 2 ^ k) :: byte) i = bit (ucast (drop_bit k (word_of_nat n :: u32)) :: byte) i"
    using i that by (simp add: bit_simps)
qed

lemma len_bytes_PutUint32: "len_bytes n = tl (PutUint32 (word_of_nat n))"
  using byte_of_nat [of 16 n] byte_of_nat [of 8 n] byte_of_nat [of 0 n]
  by (simp add: len_bytes_def PutUint32_def)

lemma length_len_bytes [simp]: "length (len_bytes n) = 3"
  by (simp add: len_bytes_def)

lemma encode_marshal:
  "encodeStringAVP code value mandatory = marshalAVP code (DiameterIdentity value) mandatory False"
proof -
  have "padded_length n - n = avp_padding n" for n
    using avp_padding_padded [of n] by simp
  then show ?thesis
    by (simp add: encodeStringAVP_def marshalAVP_def Let_def len_bytes_PutUint32 avp_flags_def)
qed

text \<open>
  The agent's hand-written string encoder produces byte for byte what the generated codec
  writes for the same AVP, for every code and value.
\<close>

theorem encodeStringAVP_marshalAVP:
  "encodeStringAVP code value mandatory = marshalAVP code (DiameterIdentity value) mandatory False"
  by (rule encode_marshal)

section \<open>Messages as lists of AVPs\<close>

text \<open>
  An AVP as it stands in a message: its code, flags, vendor (present when the V bit is set), data
  and the padding bytes, whatever their contents.
\<close>

record raw_avp =
  ra_code :: u32
  ra_flags :: byte
  ra_vendor :: u32
  ra_data :: bytes
  ra_pad :: bytes

definition ra_hdr :: "raw_avp \<Rightarrow> nat" where
  "ra_hdr a = (if ra_flags a AND 0x80 \<noteq> 0 then 12 else 8)"

definition ra_len :: "raw_avp \<Rightarrow> nat" where
  "ra_len a = ra_hdr a + length (ra_data a)"

definition ra_bytes :: "raw_avp \<Rightarrow> bytes" where
  "ra_bytes a =
     PutUint32 (ra_code a) @ [ra_flags a] @ tl (PutUint32 (word_of_nat (ra_len a))) @
     (if ra_flags a AND 0x80 \<noteq> 0 then PutUint32 (ra_vendor a) else []) @ ra_data a @ ra_pad a"

definition ra_ok :: "raw_avp \<Rightarrow> bool" where
  "ra_ok a \<longleftrightarrow> ra_len a < 2 ^ 24 \<and> length (ra_pad a) = avp_padding (ra_len a)"

definition ra_vid :: "raw_avp \<Rightarrow> u32" where
  "ra_vid a = (if ra_flags a AND 0x80 \<noteq> 0 then ra_vendor a else 0)"

lemma length_ra_bytes: "ra_ok a \<Longrightarrow> length (ra_bytes a) = padded_length (ra_len a)"
  using avp_padding_padded [of "ra_len a"]
  by (auto simp: ra_bytes_def ra_ok_def ra_len_def ra_hdr_def)

text \<open>One turn of the loop, at an AVP with anything before and after it.\<close>

lemma nth_drop_append: "i = length xs + j \<Longrightarrow> (xs @ ys) ! i = ys ! j"
  by (simp add: nth_append)

lemma bslice_drop_append:
  "i = length xs + j \<Longrightarrow> k = length xs + l \<Longrightarrow> bslice i k (xs @ ys) = bslice j l ys"
  by (simp add: bslice_def)

lemma ra_fields:
  assumes "ra_len a < 2 ^ 24"
  shows "Uint32 (bslice 0 4 (ra_bytes a @ rest)) = ra_code a"
    and "(ra_bytes a @ rest) ! 4 = ra_flags a"
    and "unat (be24 ((ra_bytes a @ rest) ! 5) ((ra_bytes a @ rest) ! 6) ((ra_bytes a @ rest) ! 7)) = ra_len a"
    and "ra_flags a AND 0x80 \<noteq> 0 \<Longrightarrow> Uint32 (bslice 8 12 (ra_bytes a @ rest)) = ra_vendor a"
    and "bslice (ra_hdr a) (ra_len a) (ra_bytes a @ rest) = ra_data a"
proof -
  show "Uint32 (bslice 0 4 (ra_bytes a @ rest)) = ra_code a" "(ra_bytes a @ rest) ! 4 = ra_flags a"
    by (simp_all add: ra_bytes_def bslice_def nth_append)
  have "be24 ((ra_bytes a @ rest) ! 5) ((ra_bytes a @ rest) ! 6) ((ra_bytes a @ rest) ! 7) =
      take_bit 24 (word_of_nat (ra_len a))"
    by (simp add: be24_Uint32 ra_bytes_def PutUint32_def nth_append)
  then show "unat (be24 ((ra_bytes a @ rest) ! 5) ((ra_bytes a @ rest) ! 6) ((ra_bytes a @ rest) ! 7)) =
      ra_len a"
    using assms by (simp only: unat_take_bit_24)
  show "ra_flags a AND 0x80 \<noteq> 0 \<Longrightarrow> Uint32 (bslice 8 12 (ra_bytes a @ rest)) = ra_vendor a"
    by (simp add: ra_bytes_def bslice_def PutUint32_def)
  show "bslice (ra_hdr a) (ra_len a) (ra_bytes a @ rest) = ra_data a"
    by (simp add: ra_bytes_def ra_len_def ra_hdr_def bslice_def PutUint32_def)
qed

definition ra_loc :: "nat \<Rightarrow> raw_avp \<Rightarrow> avpLoc" where
  "ra_loc pos a = \<lparr>loc_start = pos, loc_hdrLen = ra_hdr a, loc_dataLen = length (ra_data a),
     loc_paddedTo = padded_length (ra_len a)\<rparr>"

lemma iterateLoop_avp:
  assumes a: "ra_len a < 2 ^ 24" and "length pre = pos" and "ra_len a \<le> length (ra_bytes a @ rest)"
  shows "iterateLoop (pre @ ra_bytes a @ rest) fn pos s =
    (case fn (ra_code a) (ra_vid a) (ra_loc pos a) (ra_data a) s of
       Done s' \<Rightarrow> iterateLoop (pre @ ra_bytes a @ rest) fn (pos + padded_length (ra_len a)) s'
     | Failed e \<Rightarrow> Failed e
     | Panic \<Rightarrow> Panic)"
proof -
  let ?m = "pre @ ra_bytes a @ rest"
  note f = ra_fields [OF a, of rest]
  have pos: "pos = length pre" using assms(2) by simp
  have nth: "?m ! (pos + i) = (ra_bytes a @ rest) ! i" for i
    by (simp add: pos nth_append)
  have sl: "bslice (pos + i) (pos + j) ?m = bslice i j (ra_bytes a @ rest)" for i j
    by (simp add: pos bslice_def)
  have h8: "8 \<le> ra_hdr a" "ra_hdr a \<le> ra_len a"
    by (simp_all add: ra_hdr_def ra_len_def)
  have len: "length ?m = pos + length (ra_bytes a @ rest)"
    by (simp add: pos)
  have code: "Uint32 (bslice pos (pos + 4) ?m) = ra_code a"
    using sl [of 0 4] f(1) by simp
  have dl: "ra_len a - ra_hdr a = length (ra_data a)" "pos + ra_hdr a + length (ra_data a) = pos + ra_len a"
    by (simp_all add: ra_len_def)
  have body: "bslice (pos + ra_hdr a) (pos + ra_hdr a + length (ra_data a)) ?m = ra_data a"
    using sl [of "ra_hdr a" "ra_len a"] f(5) by (simp add: dl(2))
  have ne: "ra_bytes a \<noteq> []"
    by (simp add: ra_bytes_def)
  show ?thesis
  proof (cases "ra_flags a AND 0x80 \<noteq> 0")
    case True
    then have h: "ra_hdr a = 12" and "12 \<le> ra_len a"
      using h8 by (simp_all add: ra_hdr_def)
    then show ?thesis
      using True h8 assms(3) f dl body ne
      by (subst iterateLoop.simps)
        (simp add: Let_def code nth sl len ra_loc_def ra_vid_def del: length_append append_assoc)
  next
    case False
    then have h: "ra_hdr a = 8"
      by (simp add: ra_hdr_def)
    then show ?thesis
      using False h8 assms(3) f dl body ne
      by (subst iterateLoop.simps)
        (simp add: Let_def code nth sl len ra_loc_def ra_vid_def del: length_append append_assoc)
  qed
qed


text \<open>A message: a header of 20 bytes and a list of AVPs. The walk is a fold over the list.\<close>

definition msg_bytes :: "bytes \<Rightarrow> raw_avp list \<Rightarrow> bytes" where
  "msg_bytes hdr as = hdr @ concat (map ra_bytes as)"

fun fold_avps :: "'s avp_fn \<Rightarrow> nat \<Rightarrow> raw_avp list \<Rightarrow> 's \<Rightarrow> 's outcome" where
  "fold_avps fn pos [] s = Done s"
| "fold_avps fn pos (a # as) s =
     (case fn (ra_code a) (ra_vid a) (ra_loc pos a) (ra_data a) s of
        Done s' \<Rightarrow> fold_avps fn (pos + padded_length (ra_len a)) as s'
      | Failed e \<Rightarrow> Failed e
      | Panic \<Rightarrow> Panic)"

lemma iterateLoop_avps:
  "list_all ra_ok as \<Longrightarrow> length pre = pos \<Longrightarrow>
   iterateLoop (pre @ concat (map ra_bytes as)) fn pos s = fold_avps fn pos as s"
proof (induction as arbitrary: pre pos s)
  case Nil
  then show ?case by (simp add: iterateLoop.simps)
next
  case (Cons a as)
  have a: "ra_len a < 2 ^ 24" "length (ra_bytes a) = padded_length (ra_len a)"
    using Cons.prems length_ra_bytes [of a] by (simp_all add: ra_ok_def)
  have IH: "iterateLoop (pre @ ra_bytes a @ concat (map ra_bytes as)) fn
      (pos + padded_length (ra_len a)) s' = fold_avps fn (pos + padded_length (ra_len a)) as s'" for s'
    using Cons.IH [of "pre @ ra_bytes a" "pos + padded_length (ra_len a)"] Cons.prems a by simp
  have "ra_len a \<le> length (ra_bytes a @ concat (map ra_bytes as))"
    using padded_length_ge [of "ra_len a"] a(2) by simp
  then show ?case
    using iterateLoop_avp [OF a(1) Cons.prems(2), of "concat (map ra_bytes as)" fn s]
    by (cases "fn (ra_code a) (ra_vid a) (ra_loc pos a) (ra_data a) s") (simp_all add: IH)
qed

lemma iterateAVPs_msg:
  "length hdr = 20 \<Longrightarrow> list_all ra_ok as \<Longrightarrow>
   iterateAVPs (msg_bytes hdr as) fn s = fold_avps fn 20 as s"
  by (simp add: iterateAVPs_def msg_bytes_def headerLen_def iterateLoop_avps)

section \<open>The rewrite\<close>

definition is_origin :: "u32 \<Rightarrow> raw_avp \<Rightarrow> bool" where
  "is_origin code a \<longleftrightarrow> ra_vid a = 0 \<and> ra_code a = code"

definition origin_avp :: "u32 \<Rightarrow> gostring \<Rightarrow> raw_avp" where
  "origin_avp code value =
     \<lparr>ra_code = code, ra_flags = 0x40, ra_vendor = 0, ra_data = value,
      ra_pad = replicate (avp_padding (8 + length value)) 0\<rparr>"

lemma origin_avp_simps [simp]:
  "ra_bytes (origin_avp code value) = encodeStringAVP code value True"
  "ra_len (origin_avp code value) = 8 + length value"
  "8 + length value < 2 ^ 24 \<Longrightarrow> ra_ok (origin_avp code value)"
  "is_origin c (origin_avp code value) \<longleftrightarrow> code = c"
  "ra_vid (origin_avp code value) = 0" "ra_code (origin_avp code value) = code"
  "ra_data (origin_avp code value) = value"
proof -
  have "padded_length n - n = avp_padding n" for n
    using avp_padding_padded [of n] by simp
  then show "ra_bytes (origin_avp code value) = encodeStringAVP code value True"
    by (simp add: encodeStringAVP_def origin_avp_def ra_bytes_def ra_len_def ra_hdr_def
        len_bytes_PutUint32 Let_def)
qed (simp_all add: origin_avp_def ra_len_def ra_hdr_def ra_ok_def is_origin_def ra_vid_def)

definition replace_origin :: "gostring \<Rightarrow> gostring \<Rightarrow> raw_avp \<Rightarrow> raw_avp" where
  "replace_origin host realm a =
     (if is_origin avpOriginHost a then origin_avp avpOriginHost host
      else if is_origin avpOriginRealm a then origin_avp avpOriginRealm realm
      else a)"

definition rewritten_avps :: "gostring \<Rightarrow> gostring \<Rightarrow> raw_avp list \<Rightarrow> raw_avp list" where
  "rewritten_avps host realm as =
     map (replace_origin host realm) as @
     (if list_ex (is_origin avpOriginHost) as then [] else [origin_avp avpOriginHost host]) @
     (if list_ex (is_origin avpOriginRealm) as then [] else [origin_avp avpOriginRealm realm])"

lemma fold_rewriteStep:
  assumes "list_all ra_ok as" and "length pre = pos"
    and "msg = pre @ concat (map ra_bytes as) @ rest"
  shows "fold_avps (rewriteStep msg host realm) pos as st =
    Done (st\<lparr>rw_out := rw_out st @ concat (map (ra_bytes \<circ> replace_origin host realm) as),
      rw_wroteHost := rw_wroteHost st \<or> list_ex (is_origin avpOriginHost) as,
      rw_wroteRealm := rw_wroteRealm st \<or> list_ex (is_origin avpOriginRealm) as\<rparr>)"
  using assms
proof (induction as arbitrary: pre pos st)
  case (Cons a as)
  let ?p = "padded_length (ra_len a)"
  have len: "length (ra_bytes a) = ?p"
    using Cons.prems length_ra_bytes [of a] by simp
  have copy: "bslice pos (pos + ?p) msg = ra_bytes a" "\<not> pos + ?p > length msg"
    using Cons.prems len by (simp_all add: bslice_def)
  have "rewriteStep msg host realm (ra_code a) (ra_vid a) (ra_loc pos a) (ra_data a) st =
      Done (st\<lparr>rw_out := rw_out st @ ra_bytes (replace_origin host realm a),
        rw_wroteHost := rw_wroteHost st \<or> is_origin avpOriginHost a,
        rw_wroteRealm := rw_wroteRealm st \<or> is_origin avpOriginRealm a\<rparr>)"
    using copy by (cases st) (auto simp: rewriteStep_def replace_origin_def is_origin_def ra_loc_def)
  then show ?case
    using Cons.IH [of "pre @ ra_bytes a" "pos + ?p"] Cons.prems len by simp
qed simp

lemma fixLength_append:
  "4 \<le> length h \<Longrightarrow> fixLength (h @ b) = (take 1 h @ len_bytes (length h + length b) @ drop 4 h) @ b"
  by (simp add: fixLength_def)

definition with_length :: "bytes \<Rightarrow> nat \<Rightarrow> bytes" where
  "with_length hdr n = take 1 hdr @ len_bytes n @ drop 4 hdr"

lemma length_with_length [simp]: "4 \<le> length hdr \<Longrightarrow> length (with_length hdr n) = length hdr"
  by (simp add: with_length_def)

lemma rewrite_msg:
  assumes "length hdr = 20" and "list_all ra_ok as"
  shows "rewriteOriginHostRealm (msg_bytes hdr as) host realm =
    Done (msg_bytes (with_length hdr (20 + length (concat (map ra_bytes (rewritten_avps host realm as)))))
      (rewritten_avps host realm as))"
proof -
  let ?m = "msg_bytes hdr as"
  let ?body = "concat (map ra_bytes (rewritten_avps host realm as))"
  have it: "iterateAVPs ?m (rewriteStep ?m host realm)
      \<lparr>rw_out = hdr, rw_wroteHost = False, rw_wroteRealm = False\<rparr> =
    Done \<lparr>rw_out = hdr @ concat (map (ra_bytes \<circ> replace_origin host realm) as),
      rw_wroteHost = list_ex (is_origin avpOriginHost) as,
      rw_wroteRealm = list_ex (is_origin avpOriginRealm) as\<rparr>"
    using iterateAVPs_msg [OF assms, of "rewriteStep ?m host realm"]
      fold_rewriteStep [OF assms(2,1), of ?m "[]"]
    by (simp add: msg_bytes_def)
  have hd: "take headerLen ?m = hdr" "\<not> length ?m < headerLen"
    using assms(1) by (simp_all add: msg_bytes_def headerLen_def)
  have "rewriteOriginHostRealm ?m host realm = Done (fixLength (hdr @ ?body))"
    by (simp add: rewriteOriginHostRealm_def hd it rewritten_avps_def comp_def Let_def)
  also have "fixLength (hdr @ ?body) =
      msg_bytes (with_length hdr (20 + length ?body)) (rewritten_avps host realm as)"
    using assms(1) by (simp add: fixLength_append msg_bytes_def with_length_def)
  finally show ?thesis .
qed

section \<open>What the routing view sees\<close>

text \<open>The data of the last base-protocol AVP with a given code, or a default.\<close>

definition view_field :: "u32 \<Rightarrow> gostring \<Rightarrow> raw_avp list \<Rightarrow> gostring" where
  "view_field code v as = foldl (\<lambda>v a. if is_origin code a then ra_data a else v) v as"

lemma view_field_simps [simp]:
  "view_field code v [] = v"
  "view_field code v (a # as) = view_field code (if is_origin code a then ra_data a else v) as"
  "view_field code v (as @ bs) = view_field code (view_field code v as) bs"
  by (simp_all add: view_field_def)

lemma fold_routingStep:
  "\<exists>rv'. fold_avps routingStep pos as rv = Done rv' \<and>
     rv_OriginHost rv' = view_field avpOriginHost (rv_OriginHost rv) as \<and>
     rv_OriginRealm rv' = view_field avpOriginRealm (rv_OriginRealm rv) as \<and>
     rv_DestinationHost rv' = view_field avpDestinationHost (rv_DestinationHost rv) as \<and>
     rv_DestinationRealm rv' = view_field avpDestinationRealm (rv_DestinationRealm rv) as"
proof (induction as arbitrary: pos rv)
  case (Cons a as)
  obtain rv1 where rv1: "routingStep (ra_code a) (ra_vid a) (ra_loc pos a) (ra_data a) rv = Done rv1"
    by (simp add: routingStep_def)
  then show ?case
    using Cons [of "pos + padded_length (ra_len a)" rv1]
    by (auto simp: routingStep_def is_origin_def split: if_splits)
qed simp

lemma extractRouting_msg:
  assumes "length hdr = 20" and "list_all ra_ok as"
  obtains rv where "extractRouting (msg_bytes hdr as) = Done rv"
    and "rv_OriginHost rv = view_field avpOriginHost [] as"
    and "rv_OriginRealm rv = view_field avpOriginRealm [] as"
    and "rv_DestinationHost rv = view_field avpDestinationHost [] as"
    and "rv_DestinationRealm rv = view_field avpDestinationRealm [] as"
  using fold_routingStep [of 20 as zero_view] iterateAVPs_msg [OF assms, of routingStep zero_view] that
  by (auto simp: extractRouting_def zero_view_def)

lemma view_field_replace_other:
  "code \<noteq> avpOriginHost \<Longrightarrow> code \<noteq> avpOriginRealm \<Longrightarrow>
   view_field code v (map (replace_origin host realm) as) = view_field code v as"
  by (induction as arbitrary: v) (auto simp: replace_origin_def, auto simp: is_origin_def)

lemma view_field_replace_origin:
  "view_field avpOriginHost v (map (replace_origin host realm) as) =
     (if list_ex (is_origin avpOriginHost) as then host else v)"
  "view_field avpOriginRealm v (map (replace_origin host realm) as) =
     (if list_ex (is_origin avpOriginRealm) as then realm else v)"
proof -
  have "is_origin avpOriginHost (replace_origin host realm a) \<longleftrightarrow> is_origin avpOriginHost a"
    "is_origin avpOriginRealm (replace_origin host realm a) \<longleftrightarrow> is_origin avpOriginRealm a"
    "is_origin avpOriginHost a \<Longrightarrow> ra_data (replace_origin host realm a) = host"
    "is_origin avpOriginRealm a \<Longrightarrow> ra_data (replace_origin host realm a) = realm" for a
    by (auto simp: replace_origin_def) (auto simp: is_origin_def)
  then show "view_field avpOriginHost v (map (replace_origin host realm) as) =
     (if list_ex (is_origin avpOriginHost) as then host else v)"
    "view_field avpOriginRealm v (map (replace_origin host realm) as) =
     (if list_ex (is_origin avpOriginRealm) as then realm else v)"
    by (induction as arbitrary: v) simp_all
qed

lemma view_field_rewritten:
  "view_field avpOriginHost v (rewritten_avps host realm as) = host"
  "view_field avpOriginRealm v (rewritten_avps host realm as) = realm"
  "view_field avpDestinationHost v (rewritten_avps host realm as) = view_field avpDestinationHost v as"
  "view_field avpDestinationRealm v (rewritten_avps host realm as) = view_field avpDestinationRealm v as"
  by (simp_all add: rewritten_avps_def view_field_replace_origin view_field_replace_other)

lemma rewritten_ok:
  assumes "list_all ra_ok as" "8 + length host < 2 ^ 24" "8 + length realm < 2 ^ 24"
  shows "list_all ra_ok (rewritten_avps host realm as)"
  using assms by (auto simp: rewritten_avps_def list_all_iff replace_origin_def)

text \<open>
  C6. On a message of properly padded AVPs the rewrite does exactly what a proxy has to do: the
  message it returns consists of the same AVPs in the same order, each Origin-Host and
  Origin-Realm replaced by the agent's own, every other AVP copied verbatim with its padding, a
  missing one appended, and the header unchanged except for the length field.
\<close>

theorem rewriteOriginHostRealm_exact:
  assumes "length hdr = 20" and "list_all ra_ok as"
  shows "rewriteOriginHostRealm (msg_bytes hdr as) host realm =
    Done (msg_bytes (with_length hdr (20 + length (concat (map ra_bytes (rewritten_avps host realm as)))))
      (rewritten_avps host realm as))"
  using assms by (rule rewrite_msg)

definition example_avps :: "raw_avp list" where
  "example_avps =
     [origin_avp avpOriginHost [109, 109, 101],
      \<lparr>ra_code = 1, ra_flags = 0xC0, ra_vendor = 10415, ra_data = [1, 2, 3, 4, 5], ra_pad = [7, 8, 9]\<rparr>,
      origin_avp avpDestinationRealm [104, 115, 115]]"

lemma example_avps_ok: "list_all ra_ok example_avps"
  by (simp add: example_avps_def) (simp add: ra_ok_def ra_len_def ra_hdr_def avp_padding_def)

theorem rewriteOriginHostRealm_exact_witness:
  "list_all ra_ok example_avps \<and>
   (\<exists>hdr'. rewriteOriginHostRealm (msg_bytes (replicate 20 0) example_avps) [100] [114] =
     Done (hdr' @ encodeStringAVP avpOriginHost [100] True @ ra_bytes (example_avps ! 1) @
       ra_bytes (example_avps ! 2) @ encodeStringAVP avpOriginRealm [114] True))"
proof -
  have "rewritten_avps [100] [114] example_avps =
      [origin_avp avpOriginHost [100], example_avps ! 1, example_avps ! 2,
       origin_avp avpOriginRealm [114]]"
    by (simp add: rewritten_avps_def example_avps_def replace_origin_def)
      (simp add: is_origin_def ra_vid_def)
  then show ?thesis
    using rewriteOriginHostRealm_exact [OF _ example_avps_ok, of "replicate 20 0" "[100]" "[114]"]
      example_avps_ok
    by (simp add: msg_bytes_def)
qed

text \<open>
  After the rewrite a downstream node sees the agent as origin and the destination the sender
  asked for: reading the routing AVPs of the rewritten message yields the new Origin-Host and
  Origin-Realm, and Destination-Host and Destination-Realm as in the original message.
\<close>

theorem rewrite_preserves_destination:
  assumes "length hdr = 20" and "list_all ra_ok as"
    and "8 + length host < 2 ^ 24" and "8 + length realm < 2 ^ 24"
  shows "\<exists>out rv rv'. rewriteOriginHostRealm (msg_bytes hdr as) host realm = Done out \<and>
    extractRouting (msg_bytes hdr as) = Done rv \<and> extractRouting out = Done rv' \<and>
    rv_OriginHost rv' = host \<and> rv_OriginRealm rv' = realm \<and>
    rv_DestinationHost rv' = rv_DestinationHost rv \<and> rv_DestinationRealm rv' = rv_DestinationRealm rv"
proof -
  obtain rv where rv: "extractRouting (msg_bytes hdr as) = Done rv"
    "rv_DestinationHost rv = view_field avpDestinationHost [] as"
    "rv_DestinationRealm rv = view_field avpDestinationRealm [] as"
    using extractRouting_msg [OF assms(1,2)] .
  let ?as = "rewritten_avps host realm as"
  let ?h = "with_length hdr (20 + length (concat (map ra_bytes ?as)))"
  have "length ?h = 20"
    using assms(1) by simp
  then obtain rv' where "extractRouting (msg_bytes ?h ?as) = Done rv'"
    "rv_OriginHost rv' = view_field avpOriginHost [] ?as"
    "rv_OriginRealm rv' = view_field avpOriginRealm [] ?as"
    "rv_DestinationHost rv' = view_field avpDestinationHost [] ?as"
    "rv_DestinationRealm rv' = view_field avpDestinationRealm [] ?as"
    using extractRouting_msg [OF _ rewritten_ok [OF assms(2-4)]] by blast
  then show ?thesis
    using rewrite_msg [OF assms(1,2)] rv by (auto simp: view_field_rewritten)
qed

theorem rewrite_preserves_destination_witness:
  "\<exists>out rv'. rewriteOriginHostRealm (msg_bytes (replicate 20 0) example_avps) [100] [114] = Done out \<and>
     extractRouting out = Done rv' \<and> rv_OriginHost rv' = [100] \<and> rv_OriginRealm rv' = [114]"
  using rewrite_preserves_destination [OF _ example_avps_ok, of "replicate 20 0" "[100]" "[114]"]
  by auto

section \<open>The rewrite of a message without final padding\<close>

text \<open>
  A last AVP with fewer padding bytes than its length asks for. The walk still accepts it, because it
  checks the unpadded length only, and then stops because the next position lies past the end.
\<close>

definition short_padded :: "raw_avp \<Rightarrow> bool" where
  "short_padded a \<longleftrightarrow> ra_len a < 2 ^ 24 \<and> ra_len a + length (ra_pad a) < padded_length (ra_len a)"

lemma length_short: "length (ra_bytes a) = ra_len a + length (ra_pad a)"
  by (simp add: ra_bytes_def ra_len_def ra_hdr_def)

lemma iterateLoop_short:
  "list_all ra_ok as \<Longrightarrow> short_padded a \<Longrightarrow> length pre = pos \<Longrightarrow>
   iterateLoop (pre @ concat (map ra_bytes as) @ ra_bytes a) fn pos s = fold_avps fn pos (as @ [a]) s"
proof (induction as arbitrary: pre pos s)
  case Nil
  then have a: "ra_len a < 2 ^ 24" "ra_len a \<le> length (ra_bytes a @ [])"
      "pos + padded_length (ra_len a) > length (pre @ ra_bytes a)"
    by (simp_all add: short_padded_def length_short)
  then show ?case
    using iterateLoop_avp [OF a(1) Nil.prems(3) a(2), of fn s]
    by (cases "fn (ra_code a) (ra_vid a) (ra_loc pos a) (ra_data a) s")
      (simp_all add: iterateLoop.simps [of _ _ "pos + _"])
next
  case (Cons b bs)
  let ?rest = "concat (map ra_bytes bs) @ ra_bytes a"
  have b: "ra_len b < 2 ^ 24" "length (ra_bytes b) = padded_length (ra_len b)"
    using Cons.prems length_ra_bytes [of b] by (simp_all add: ra_ok_def)
  have IH: "iterateLoop (pre @ ra_bytes b @ ?rest) fn (pos + padded_length (ra_len b)) s' =
      fold_avps fn (pos + padded_length (ra_len b)) (bs @ [a]) s'" for s'
    using Cons.IH [of "pre @ ra_bytes b" "pos + padded_length (ra_len b)"] Cons.prems b by simp
  have "ra_len b \<le> length (ra_bytes b @ ?rest)"
    using padded_length_ge [of "ra_len b"] b(2) by simp
  then show ?case
    using iterateLoop_avp [OF b(1) Cons.prems(3), of ?rest fn s]
    by (cases "fn (ra_code b) (ra_vid b) (ra_loc pos b) (ra_data b) s") (simp_all add: IH)
qed

lemma fold_avps_snoc:
  "fold_avps fn pos as s = Done s' \<Longrightarrow> fold_avps fn pos (as @ [a]) s =
     fn (ra_code a) (ra_vid a) (ra_loc (pos + sum_list (map (padded_length \<circ> ra_len) as)) a) (ra_data a) s'"
proof (induction as arbitrary: pos s)
  case Nil
  then show ?case
    by (cases "fn (ra_code a) (ra_vid a) (ra_loc pos a) (ra_data a) s") auto
next
  case (Cons b bs)
  then show ?case
    by (cases "fn (ra_code b) (ra_vid b) (ra_loc pos b) (ra_data b) s") (simp_all add: add.assoc)
qed

lemma length_concat_ra: "list_all ra_ok as \<Longrightarrow>
   length (concat (map ra_bytes as)) = sum_list (map (padded_length \<circ> ra_len) as)"
  by (induction as) (simp_all add: length_ra_bytes)

text \<open>
  C32. A message whose last AVP lacks some or all of its padding bytes, whatever well-formed AVPs
  come before it, is accepted by the walk, and its routing AVPs are extracted without error, but
  the rewrite slices past the end of the buffer and panics, unless that AVP is an Origin-Host or
  Origin-Realm. A peer can therefore stop the whole process with one request.
\<close>

theorem rewrite_unpadded_panics:
  assumes "length hdr = 20" and "list_all ra_ok as" and "short_padded a"
  shows "(rewriteOriginHostRealm (msg_bytes hdr (as @ [a])) host realm = Panic \<longleftrightarrow>
      \<not> is_origin avpOriginHost a \<and> \<not> is_origin avpOriginRealm a) \<and>
    (\<exists>rv. extractRouting (msg_bytes hdr (as @ [a])) = Done rv)"
proof -
  let ?m = "msg_bytes hdr (as @ [a])"
  have m: "?m = hdr @ concat (map ra_bytes as) @ ra_bytes a" "\<not> length ?m < headerLen"
    using assms(1) by (simp_all add: msg_bytes_def headerLen_def)
  have it: "iterateAVPs ?m fn s = fold_avps fn 20 (as @ [a]) s" for fn :: "'s avp_fn" and s
    using iterateLoop_short [OF assms(2,3,1)] assms(1) by (simp add: iterateAVPs_def headerLen_def m(1))
  let ?pos = "20 + sum_list (map (padded_length \<circ> ra_len) as)"
  have past: "?pos + padded_length (ra_len a) > length ?m"
    using assms(1,3) length_concat_ra [OF assms(2)] by (simp add: m(1) length_short short_padded_def)
  let ?st = "\<lparr>rw_out = take headerLen ?m, rw_wroteHost = False, rw_wroteRealm = False\<rparr>"
  obtain st where "fold_avps (rewriteStep ?m host realm) 20 as ?st = Done st"
    using fold_rewriteStep [OF assms(2,1) m(1), of host realm ?st] by blast
  then have "iterateAVPs ?m (rewriteStep ?m host realm) ?st =
      rewriteStep ?m host realm (ra_code a) (ra_vid a) (ra_loc ?pos a) (ra_data a) st"
    by (simp add: it fold_avps_snoc)
  then have "rewriteOriginHostRealm ?m host realm = Panic \<longleftrightarrow>
      \<not> is_origin avpOriginHost a \<and> \<not> is_origin avpOriginRealm a"
    using past m(2)
    by (simp add: rewriteOriginHostRealm_def rewriteStep_def is_origin_def ra_loc_def Let_def)
  moreover have "\<exists>rv. extractRouting ?m = Done rv"
    using fold_routingStep [of 20 "as @ [a]" zero_view] by (auto simp: extractRouting_def it)
  ultimately show ?thesis
    by blast
qed

theorem rewrite_unpadded_panics_witness:
  "rewriteOriginHostRealm (msg_bytes (replicate 20 0) (example_avps @
     [\<lparr>ra_code = avpDestinationRealm, ra_flags = 0x40, ra_vendor = 0, ra_data = [104], ra_pad = [0]\<rparr>]))
     [100] [114] = Panic"
  using rewrite_unpadded_panics [of "replicate 20 0" example_avps "\<lparr>ra_code = avpDestinationRealm,
      ra_flags = 0x40, ra_vendor = 0, ra_data = [104], ra_pad = [0]\<rparr>" "[100]" "[114]"] example_avps_ok
  by (simp add: short_padded_def padded_length_def ra_len_def ra_hdr_def is_origin_def)

section \<open>Framing\<close>

text \<open>
  The agent's own reader and the connection package's \<^verbatim>\<open>ReadMessage\<close> cut a stream in the same
  place: whenever the first message starts with version 1 and announces between 20 bytes and
  1 MiB, all of them present, both return it and leave the same rest.
\<close>

theorem readMessage_ReadMessage:
  assumes "20 \<le> unat (announced r)" and "unat (announced r) \<le> 1048576"
    and "unat (announced r) \<le> length r" and "r ! 0 = 1"
  shows "\<exists>m. ReadMessage r = ((Some m, None), drop (unat (announced r)) r) \<and>
    readMessage r = (Inr (msg_Header m @ msg_Body m), drop (unat (announced r)) r)"
proof -
  let ?n = "unat (announced r)"
  have a: "20 \<le> announced r" "announced r \<le> 1048576"
    using assms(1,2) by (simp_all add: word_le_nat_alt)
  have be: "be24 (take 4 r ! 1) (take 4 r ! 2) (take 4 r ! 3) = announced r"
    by (simp add: be24_Uint32 announced_def)
  have "readMessage r = (Inr (take 4 r @ take (?n - 4) (drop 4 r)), drop (?n - 4) (drop 4 r))"
    using assms a be by (simp add: readMessage_def Let_def not_less)
  also have "take 4 r @ take (?n - 4) (drop 4 r) = take ?n r"
    using take_add [of 4 "?n - 4" r] assms(1) by simp
  also have "drop (?n - 4) (drop 4 r) = drop ?n r"
    using assms(1) by simp
  finally have "readMessage r = (Inr (take ?n r), drop ?n r)" .
  moreover have "take 20 r @ bslice 20 ?n r = take ?n r"
    using take_add [of 20 "?n - 20" r] assms(1) by (simp add: bslice_def)
  ultimately show ?thesis
    using ReadMessage_exact [OF a(1) assms(3)] by simp
qed

theorem readMessage_ReadMessage_witness:
  "\<exists>m. ReadMessage ([1, 0, 0, 20] @ replicate 18 0) = ((Some m, None), replicate 2 0) \<and>
     readMessage ([1, 0, 0, 20] @ replicate 18 0) = (Inr (msg_Header m @ msg_Body m), replicate 2 0)"
proof -
  have "unat (announced ([1, 0, 0, 20] @ replicate 18 0)) = 20"
    by (simp add: announced_def wire_simps)
  then show ?thesis
    using readMessage_ReadMessage [of "[1, 0, 0, 20] @ replicate 18 0"]
    by simp
qed

end
