(* ===== verification/Dra_Node.thy ===== *)
theory Dra_Node
  imports Dra_Avp
begin

text \<open>
  The routing agent of \<^verbatim>\<open>dra/node.go\<close>, \<^verbatim>\<open>dra/peer.go\<close>, \<^verbatim>\<open>dra/route.go\<close> and \<^verbatim>\<open>dra/start.go\<close>: the peer
  registry, the table of pending requests, peer selection and the handlers of a connection. A
  \<^verbatim>\<open>*Peer\<close> is an address into \<open>dn_heap\<close>; the messages written to peers are appended to \<open>dn_sent\<close>.
  What the code does not decide is an argument of the handlers: the order in which Go ranges over
  the peer map and whether a write to a connection succeeds. A handler that panics has no
  result (\<open>None\<close>).

  The locale \<open>correlation_table\<close> is the contract of the pending table. The lemmas show that a
  request never goes back to its sender, that an answer reaches the peer whose request it
  answers, with that peer's own Hop-by-Hop id, and that error answers are well formed.
\<close>

section \<open>State\<close>

datatype PeerRole = RoleUnknown | RoleClient | RoleServer

record Peer =
  peer_OriginHost :: gostring
  peer_OriginRealm :: gostring
  peer_Role :: PeerRole
  peer_RemoteAddr :: gostring
  peer_closed :: bool

record dra_Config =
  dc_NodeName :: gostring
  dc_ListenAddr :: gostring
  dc_OriginHost :: gostring
  dc_OriginRealm :: gostring
  dc_ProductName :: gostring
  dc_VendorID :: u32
  dc_HostIPs :: "bytes list"
  dc_SupportedApps :: "u32 list"

record pendingEntry =
  pe_origPeer :: nat
  pe_origHbH :: u32
  pe_origEndToEnd :: u32
  pe_cmdCode :: u32

type_synonym pendingTable = "u32 \<rightharpoonup> pendingEntry"

text \<open>The log lines, by call site, with the values their format strings take.\<close>

datatype log_line =
    LogListening gostring gostring
  | LogDisconnected gostring
  | LogReadInitial dra_read_error
  | LogNotCER
  | LogCERFailed
  | LogPeerUp gostring gostring
  | LogBadHeader gostring
  | LogDWASendFailed
  | LogParseAVPs dra_error
  | LogMissingRealm
  | LogNoPeer gostring gostring
  | LogRewrite dra_error
  | LogSendFailed gostring
  | LogForwardReq u32 gostring gostring gostring
  | LogNoPending u32 gostring
  | LogAnsRewrite dra_error
  | LogAnsSendFailed gostring
  | LogForwardAns u32 gostring gostring

record DRANode =
  dn_cfg :: dra_Config
  dn_peers :: "gostring \<rightharpoonup> nat"
  dn_pending :: pendingTable
  dn_hbhSeq :: u32
  dn_logs :: "log_line list"
  dn_rrCounter :: u64
  dn_heap :: "nat \<Rightarrow> Peer"
  dn_sent :: "(nat \<times> bytes) list"

text \<open>What the environment contributes to a handler.\<close>

record dra_env =
  env_hostOrder :: "gostring list"
  env_realmOrder :: "gostring list"
  env_writeOK :: "nat \<Rightarrow> bytes \<Rightarrow> bool"

definition nextHbH :: "DRANode \<Rightarrow> u32 \<times> DRANode" where
  "nextHbH d = (let hbh = dn_hbhSeq d + 1 in (hbh, d\<lparr>dn_hbhSeq := hbh\<rparr>))"

definition dra_log :: "log_line \<Rightarrow> DRANode \<Rightarrow> DRANode" where
  "dra_log line d =
     (let logs = dn_logs d @ [line]
      in d\<lparr>dn_logs := (if length logs > 512 then drop (length logs - 512) logs else logs)\<rparr>)"

section \<open>Pending requests\<close>

definition newPendingTable :: pendingTable where
  "newPendingTable = Map.empty"

definition pending_put :: "u32 \<Rightarrow> pendingEntry \<Rightarrow> pendingTable \<Rightarrow> pendingTable" where
  "pending_put hbh e t = t(hbh \<mapsto> e)"

definition pending_take :: "u32 \<Rightarrow> pendingTable \<Rightarrow> pendingEntry option \<times> pendingTable" where
  "pending_take hbh t =
     (case t hbh of None \<Rightarrow> (None, t) | Some e \<Rightarrow> (Some e, t(hbh := None)))"

definition forgetPeer :: "nat \<Rightarrow> pendingTable \<Rightarrow> pendingTable" where
  "forgetPeer p t =
     (\<lambda>k. case t k of None \<Rightarrow> None | Some e \<Rightarrow> if pe_origPeer e = p then None else Some e)"

section \<open>Peers\<close>

definition newPeer :: "gostring \<Rightarrow> Peer" where
  "newPeer remote =
     \<lparr>peer_OriginHost = [], peer_OriginRealm = [], peer_Role = RoleUnknown,
      peer_RemoteAddr = remote, peer_closed = False\<rparr>"

definition peer_Send :: "dra_env \<Rightarrow> nat \<Rightarrow> bytes \<Rightarrow> DRANode \<Rightarrow> bool \<times> DRANode" where
  "peer_Send env p msg d =
     (if env_writeOK env p msg then (True, d\<lparr>dn_sent := dn_sent d @ [(p, msg)]\<rparr>) else (False, d))"

definition peer_Close :: "nat \<Rightarrow> DRANode \<Rightarrow> DRANode" where
  "peer_Close p d = d\<lparr>dn_heap := (dn_heap d)(p := (dn_heap d p)\<lparr>peer_closed := True\<rparr>)\<rparr>"

definition peerRegistryKey :: "Peer \<Rightarrow> gostring" where
  "peerRegistryKey p = peer_OriginHost p @ [124] @ peer_RemoteAddr p"

definition registerPeer :: "nat \<Rightarrow> DRANode \<Rightarrow> DRANode" where
  "registerPeer p d = d\<lparr>dn_peers := (dn_peers d)(peerRegistryKey (dn_heap d p) \<mapsto> p)\<rparr>"

definition removePeer :: "nat \<Rightarrow> DRANode \<Rightarrow> DRANode" where
  "removePeer p d =
     (let key = peerRegistryKey (dn_heap d p)
      in if dn_peers d key = Some p then d\<lparr>dn_peers := (dn_peers d)(key := None)\<rparr> else d)"

text \<open>\<^verbatim>\<open>for _, p := range d.peers\<close>, in the given order of the keys.\<close>

definition rangePeers :: "gostring list \<Rightarrow> DRANode \<Rightarrow> nat list" where
  "rangePeers order d = List.map_filter (dn_peers d) order"

definition peerByHost :: "gostring list \<Rightarrow> gostring \<Rightarrow> DRANode \<Rightarrow> nat option" where
  "peerByHost order host d =
     List.find (\<lambda>p. peer_OriginHost (dn_heap d p) = host) (rangePeers order d)"

definition peersByRealm :: "gostring list \<Rightarrow> gostring \<Rightarrow> DRANode \<Rightarrow> nat list" where
  "peersByRealm order realm d =
     filter (\<lambda>p. peer_OriginRealm (dn_heap d p) = realm) (rangePeers order d)"

definition pickPeer :: "dra_env \<Rightarrow> routingView \<Rightarrow> nat \<Rightarrow> DRANode \<Rightarrow> nat option \<times> DRANode" where
  "pickPeer env rv from d =
     (let byHost =
            (if rv_DestinationHost rv \<noteq> []
             then (case peerByHost (env_hostOrder env) (rv_DestinationHost rv) d of
                     Some p \<Rightarrow> if p \<noteq> from then Some p else None
                   | None \<Rightarrow> None)
             else None)
      in case byHost of
           Some p \<Rightarrow> (Some p, d)
         | None \<Rightarrow>
             let candidates = peersByRealm (env_realmOrder env) (rv_DestinationRealm rv) d;
                 filtered = filter (\<lambda>p. p \<noteq> from) candidates
             in if filtered = [] then (None, d)
                else
                  let i = dn_rrCounter d + 1
                  in (Some (filtered ! (unat i mod length filtered)), d\<lparr>dn_rrCounter := i\<rparr>))"

section \<open>Handlers\<close>

definition DIAMETER_SUCCESS :: u32 where "DIAMETER_SUCCESS = 2001"
definition DIAMETER_UNABLE_TO_DELIVER :: u32 where "DIAMETER_UNABLE_TO_DELIVER = 3002"
definition DIAMETER_REALM_NOT_SERVED :: u32 where "DIAMETER_REALM_NOT_SERVED = 3003"
definition DIAMETER_INVALID_AVP_VALUE :: u32 where "DIAMETER_INVALID_AVP_VALUE = 5004"
definition DIAMETER_UNABLE_TO_COMPLY :: u32 where "DIAMETER_UNABLE_TO_COMPLY = 5012"

datatype handler_error = DecodeFailed codec_error | EncodeFailed codec_error | SendError

definition handleCER :: "dra_env \<Rightarrow> nat \<Rightarrow> bytes \<Rightarrow> DRANode \<Rightarrow> handler_error option \<times> DRANode" where
  "handleCER env peer msg d =
     (case CER_Unmarshal msg NewCapabilitiesExchangeRequest of
        Inl e \<Rightarrow> (Some (DecodeFailed e), d)
      | Inr cer \<Rightarrow>
          let d1 = d\<lparr>dn_heap := (dn_heap d)(peer := (dn_heap d peer)
                \<lparr>peer_OriginHost := cer_OriginHost cer, peer_OriginRealm := cer_OriginRealm cer\<rparr>)\<rparr>;
              new = NewCapabilitiesExchangeAnswer;
              cea = new
                \<lparr>cea_Header := (cea_Header new)
                   \<lparr>hdr_HopByHopID := hdr_HopByHopID (cer_Header cer),
                    hdr_EndToEndID := hdr_EndToEndID (cer_Header cer)\<rparr>,
                 cea_ResultCode := DIAMETER_SUCCESS,
                 cea_OriginHost := dc_OriginHost (dn_cfg d),
                 cea_OriginRealm := dc_OriginRealm (dn_cfg d),
                 cea_VendorId := dc_VendorID (dn_cfg d),
                 cea_ProductName := dc_ProductName (dn_cfg d),
                 cea_HostIpAddress := dc_HostIPs (dn_cfg d),
                 cea_AuthApplicationId := dc_SupportedApps (dn_cfg d)\<rparr>
          in case CEA_Marshal cea of
               Inl e \<Rightarrow> (Some (EncodeFailed e), d1)
             | Inr (cea', out) \<Rightarrow>
                 (case peer_Send env peer out d1 of
                    (True, d2) \<Rightarrow> (None, d2)
                  | (False, d2) \<Rightarrow> (Some SendError, d2)))"

definition handleDWR :: "dra_env \<Rightarrow> nat \<Rightarrow> bytes \<Rightarrow> DRANode \<Rightarrow> handler_error option \<times> DRANode" where
  "handleDWR env peer msg d =
     (case DWR_Unmarshal msg NewDeviceWatchdogRequest of
        Inl e \<Rightarrow> (Some (DecodeFailed e), d)
      | Inr dwr \<Rightarrow>
          let new = NewDeviceWatchdogAnswer;
              dwa = new
                \<lparr>dwa_Header := (dwa_Header new)
                   \<lparr>hdr_HopByHopID := hdr_HopByHopID (dwr_Header dwr),
                    hdr_EndToEndID := hdr_EndToEndID (dwr_Header dwr)\<rparr>,
                 dwa_ResultCode := DIAMETER_SUCCESS,
                 dwa_OriginHost := dc_OriginHost (dn_cfg d),
                 dwa_OriginRealm := dc_OriginRealm (dn_cfg d)\<rparr>
          in case DWA_Marshal dwa of
               Inl e \<Rightarrow> (Some (EncodeFailed e), d)
             | Inr (dwa', out) \<Rightarrow>
                 (case peer_Send env peer out d of
                    (True, d2) \<Rightarrow> (None, d2)
                  | (False, d2) \<Rightarrow> (Some SendError, d2)))"

definition protocolError :: "dra_Config \<Rightarrow> parsedHeader \<Rightarrow> u32 \<Rightarrow> bytes" where
  "protocolError cfg req resultCode =
     (let rcAvp = [0, 0, 1, 12, 0x40, 0, 0, 12,
            ucast (drop_bit 24 resultCode), ucast (drop_bit 16 resultCode),
            ucast (drop_bit 8 resultCode), ucast resultCode];
          avps = rcAvp @ encodeStringAVP avpOriginHost (dc_OriginHost cfg) True @
            encodeStringAVP avpOriginRealm (dc_OriginRealm cfg) True;
          totalLen = (word_of_nat (headerLen + length avps) :: u32);
          cc = ph_CommandCode req; app = ph_ApplicationID req;
          hbh = ph_HopByHopID req; e2e = ph_EndToEndID req
      in [1, ucast (drop_bit 16 totalLen), ucast (drop_bit 8 totalLen), ucast totalLen,
          (ph_Flags req AND 0x40) OR 0x20,
          ucast (drop_bit 16 cc), ucast (drop_bit 8 cc), ucast cc,
          ucast (drop_bit 24 app), ucast (drop_bit 16 app), ucast (drop_bit 8 app), ucast app,
          ucast (drop_bit 24 hbh), ucast (drop_bit 16 hbh), ucast (drop_bit 8 hbh), ucast hbh,
          ucast (drop_bit 24 e2e), ucast (drop_bit 16 e2e), ucast (drop_bit 8 e2e), ucast e2e] @ avps)"

definition sendProtocolError :: "dra_env \<Rightarrow> nat \<Rightarrow> parsedHeader \<Rightarrow> u32 \<Rightarrow> DRANode \<Rightarrow> DRANode" where
  "sendProtocolError env to req resultCode d =
     snd (peer_Send env to (protocolError (dn_cfg d) req resultCode) d)"

definition forwardRequest :: "dra_env \<Rightarrow> nat \<Rightarrow> bytes \<Rightarrow> parsedHeader \<Rightarrow> DRANode \<Rightarrow> DRANode option" where
  "forwardRequest env from msg h d =
     (case extractRouting msg of
        Panic \<Rightarrow> None
      | Failed e \<Rightarrow>
          Some (sendProtocolError env from h DIAMETER_INVALID_AVP_VALUE (dra_log (LogParseAVPs e) d))
      | Done rv \<Rightarrow>
          if rv_DestinationRealm rv = [] then
            Some (sendProtocolError env from h DIAMETER_REALM_NOT_SERVED (dra_log LogMissingRealm d))
          else
            (case pickPeer env rv from d of
               (None, d1) \<Rightarrow>
                 Some (sendProtocolError env from h DIAMETER_UNABLE_TO_DELIVER
                   (dra_log (LogNoPeer (rv_DestinationRealm rv) (rv_DestinationHost rv)) d1))
             | (Some to, d1) \<Rightarrow>
                 (case rewriteOriginHostRealm msg (dc_OriginHost (dn_cfg d)) (dc_OriginRealm (dn_cfg d)) of
                    Panic \<Rightarrow> None
                  | Failed e \<Rightarrow>
                      Some (sendProtocolError env from h DIAMETER_UNABLE_TO_COMPLY
                        (dra_log (LogRewrite e) d1))
                  | Done rewritten \<Rightarrow>
                      let (newHbH, d2) = nextHbH d1;
                          out = setHopByHop rewritten newHbH;
                          d3 = d2\<lparr>dn_pending := pending_put newHbH
                            \<lparr>pe_origPeer = from, pe_origHbH = ph_HopByHopID h,
                             pe_origEndToEnd = ph_EndToEndID h, pe_cmdCode = ph_CommandCode h\<rparr>
                            (dn_pending d2)\<rparr>
                      in (case peer_Send env to out d3 of
                            (False, d4) \<Rightarrow>
                              let d5 = dra_log (LogSendFailed (peer_OriginHost (dn_heap d4 to))) d4;
                                  d6 = d5\<lparr>dn_pending := snd (pending_take newHbH (dn_pending d5))\<rparr>
                              in Some (sendProtocolError env from h DIAMETER_UNABLE_TO_DELIVER d6)
                          | (True, d4) \<Rightarrow>
                              Some (dra_log (LogForwardReq (ph_CommandCode h)
                                (peer_OriginHost (dn_heap d4 from)) (peer_OriginHost (dn_heap d4 to))
                                (rv_DestinationRealm rv)) d4)))))"

definition forwardAnswer :: "dra_env \<Rightarrow> nat \<Rightarrow> bytes \<Rightarrow> parsedHeader \<Rightarrow> DRANode \<Rightarrow> DRANode option" where
  "forwardAnswer env from msg h d =
     (case pending_take (ph_HopByHopID h) (dn_pending d) of
        (None, t) \<Rightarrow>
          Some (dra_log (LogNoPending (ph_HopByHopID h) (peer_OriginHost (dn_heap d from)))
            (d\<lparr>dn_pending := t\<rparr>))
      | (Some entry, t) \<Rightarrow>
          let d1 = d\<lparr>dn_pending := t\<rparr>
          in case rewriteOriginHostRealm msg (dc_OriginHost (dn_cfg d1)) (dc_OriginRealm (dn_cfg d1)) of
               Panic \<Rightarrow> None
             | Failed e \<Rightarrow> Some (dra_log (LogAnsRewrite e) d1)
             | Done rewritten \<Rightarrow>
                 (case peer_Send env (pe_origPeer entry) (setHopByHop rewritten (pe_origHbH entry)) d1 of
                    (False, d2) \<Rightarrow>
                      Some (dra_log (LogAnsSendFailed
                        (peer_OriginHost (dn_heap d2 (pe_origPeer entry)))) d2)
                  | (True, d2) \<Rightarrow>
                      Some (dra_log (LogForwardAns (ph_CommandCode h)
                        (peer_OriginHost (dn_heap d2 from))
                        (peer_OriginHost (dn_heap d2 (pe_origPeer entry)))) d2)))"

section \<open>A connection's life\<close>

text \<open>
  \<^verbatim>\<open>handleConnection\<close> cut at its reads: the first frame, one turn of the main loop, and the
  deferred clean-up. The flag says whether the connection goes on.
\<close>

definition handleFirst :: "dra_env \<Rightarrow> nat \<Rightarrow> bytes \<Rightarrow> DRANode \<Rightarrow> bool \<times> DRANode" where
  "handleFirst env peer firstMsg d =
     (case parseHeader firstMsg of
        Inl e \<Rightarrow> (False, dra_log LogNotCER d)
      | Inr hdr \<Rightarrow>
          if ph_CommandCode hdr \<noteq> 257 \<or> \<not> isRequest hdr then (False, dra_log LogNotCER d)
          else
            (case handleCER env peer firstMsg d of
               (Some e, d1) \<Rightarrow> (False, dra_log LogCERFailed d1)
             | (None, d1) \<Rightarrow>
                 let d2 = registerPeer peer d1
                 in (True, dra_log (LogPeerUp (peer_OriginHost (dn_heap d2 peer))
                       (peer_OriginRealm (dn_heap d2 peer))) d2)))"

definition handleMessage :: "dra_env \<Rightarrow> nat \<Rightarrow> bytes \<Rightarrow> DRANode \<Rightarrow> (bool \<times> DRANode) option" where
  "handleMessage env peer msg d =
     (case parseHeader msg of
        Inl e \<Rightarrow> Some (False, dra_log (LogBadHeader (peer_OriginHost (dn_heap d peer))) d)
      | Inr h \<Rightarrow>
          if ph_CommandCode h = 280 then
            (if isRequest h then
               (case handleDWR env peer msg d of
                  (Some e, d1) \<Rightarrow> Some (False, dra_log LogDWASendFailed d1)
                | (None, d1) \<Rightarrow> Some (True, d1))
             else Some (True, d))
          else if ph_CommandCode h = 282 then Some (\<not> isRequest h, d)
          else if isRequest h then map_option (Pair True) (forwardRequest env peer msg h d)
          else map_option (Pair True) (forwardAnswer env peer msg h d))"

definition connectionClosed :: "nat \<Rightarrow> DRANode \<Rightarrow> DRANode" where
  "connectionClosed peer d =
     (let d1 = peer_Close peer d;
          d2 = d1\<lparr>dn_pending := forgetPeer peer (dn_pending d1)\<rparr>;
          d3 = removePeer peer d2
      in dra_log (LogDisconnected (peer_OriginHost (dn_heap d3 peer))) d3)"

text \<open>
  \<^verbatim>\<open>StartNode\<close> up to its accept loop (\<open>listenOK\<close> is the outcome of \<^verbatim>\<open>net.Listen\<close>), and \<^verbatim>\<open>Stop\<close>, which visits
  the registry in some order.
\<close>

datatype start_error = ListenAddrEmpty | IdentityRequired | ListenFailed

definition StartNode :: "bool \<Rightarrow> DRANode \<Rightarrow> (start_error, DRANode) result" where
  "StartNode listenOK d =
     (if dc_ListenAddr (dn_cfg d) = [] then Inl ListenAddrEmpty
      else if dc_OriginHost (dn_cfg d) = [] \<or> dc_OriginRealm (dn_cfg d) = [] then Inl IdentityRequired
      else if \<not> listenOK then Inl ListenFailed
      else Inr (dra_log (LogListening (dc_NodeName (dn_cfg d)) (dc_ListenAddr (dn_cfg d))) d))"

definition closePeers :: "gostring list \<Rightarrow> DRANode \<Rightarrow> DRANode" where
  "closePeers order d = fold (\<lambda>k d. case dn_peers d k of None \<Rightarrow> d | Some p \<Rightarrow> peer_Close p d) order d"

definition Stop :: "gostring list \<Rightarrow> DRANode \<Rightarrow> DRANode" where
  "Stop order d = (closePeers order d)\<lparr>dn_peers := Map.empty\<rparr>"

section \<open>The contract of the pending table\<close>

locale correlation_table =
  fixes lookup :: "'t \<Rightarrow> u32 \<Rightarrow> 'e option"
    and put :: "u32 \<Rightarrow> 'e \<Rightarrow> 't \<Rightarrow> 't"
    and take_entry :: "u32 \<Rightarrow> 't \<Rightarrow> 'e option \<times> 't"
    and forget :: "nat \<Rightarrow> 't \<Rightarrow> 't"
    and owner :: "'e \<Rightarrow> nat"
  assumes lookup_put: "lookup (put k e t) = (lookup t)(k := Some e)"
    and fst_take: "fst (take_entry k t) = lookup t k"
    and lookup_take: "lookup (snd (take_entry k t)) = (lookup t)(k := None)"
    and lookup_forget: "lookup (forget p t) k =
      (case lookup t k of None \<Rightarrow> None | Some e \<Rightarrow> if owner e = p then None else Some e)"
begin

lemma put_take [simp]: "fst (take_entry k (put k e t)) = Some e"
  by (simp add: fst_take lookup_put)

lemma take_twice [simp]: "fst (take_entry k (snd (take_entry k t))) = None"
  by (simp add: fst_take lookup_take)

lemma lookup_put_take [simp]: "lookup (snd (take_entry k (put k e t))) = (lookup t)(k := None)"
  by (simp add: lookup_take lookup_put)

lemma forget_owner: "lookup (forget p t) k = Some e \<Longrightarrow> owner e \<noteq> p"
  by (auto simp: lookup_forget split: option.splits if_splits)

lemma forget_other: "lookup t k = Some e \<Longrightarrow> owner e \<noteq> p \<Longrightarrow> lookup (forget p t) k = Some e"
  by (simp add: lookup_forget)

end

interpretation pending: correlation_table
  "\<lambda>t. t" pending_put pending_take forgetPeer pe_origPeer
  by unfold_locales (auto simp: pending_put_def pending_take_def forgetPeer_def split: option.split)

section \<open>Frame lemmas\<close>

lemma dra_log_simps [simp]:
  "dn_cfg (dra_log l d) = dn_cfg d" "dn_peers (dra_log l d) = dn_peers d"
  "dn_pending (dra_log l d) = dn_pending d" "dn_hbhSeq (dra_log l d) = dn_hbhSeq d"
  "dn_rrCounter (dra_log l d) = dn_rrCounter d" "dn_heap (dra_log l d) = dn_heap d"
  "dn_sent (dra_log l d) = dn_sent d" "length (dn_logs (dra_log l d)) \<le> 512"
  by (simp_all add: dra_log_def Let_def)

lemma peer_Send_simps [simp]:
  "dn_cfg (snd (peer_Send env p m d)) = dn_cfg d" "dn_peers (snd (peer_Send env p m d)) = dn_peers d"
  "dn_pending (snd (peer_Send env p m d)) = dn_pending d"
  "dn_hbhSeq (snd (peer_Send env p m d)) = dn_hbhSeq d"
  "dn_heap (snd (peer_Send env p m d)) = dn_heap d"
  by (simp_all add: peer_Send_def)

lemma sendProtocolError_simps [simp]:
  "dn_cfg (sendProtocolError env p h c d) = dn_cfg d"
  "dn_peers (sendProtocolError env p h c d) = dn_peers d"
  "dn_pending (sendProtocolError env p h c d) = dn_pending d"
  "dn_hbhSeq (sendProtocolError env p h c d) = dn_hbhSeq d"
  "dn_heap (sendProtocolError env p h c d) = dn_heap d"
  by (simp_all add: sendProtocolError_def)

section \<open>Peer selection\<close>

lemma set_rangePeers: "set (rangePeers order d) = {p. \<exists>k \<in> set order. dn_peers d k = Some p}"
  by (force simp: rangePeers_def List.map_filter_def)

lemma pickPeer_frame:
  "pickPeer env rv from d = (r, d') \<Longrightarrow> d' = d\<lparr>dn_rrCounter := dn_rrCounter d'\<rparr>"
  by (auto simp: pickPeer_def Let_def split: if_splits option.splits)

lemma pickPeer_sound:
  assumes "pickPeer env rv from d = (Some to, d')"
  shows "to \<noteq> from \<and> to \<in> ran (dn_peers d) \<and>
    (peer_OriginHost (dn_heap d to) = rv_DestinationHost rv \<or>
     peer_OriginRealm (dn_heap d to) = rv_DestinationRealm rv)"
proof -
  let ?f = "filter (\<lambda>p. p \<noteq> from) (peersByRealm (env_realmOrder env) (rv_DestinationRealm rv) d)"
  consider "peerByHost (env_hostOrder env) (rv_DestinationHost rv) d = Some to" "to \<noteq> from"
    | i where "?f \<noteq> []" "to = ?f ! (i mod length ?f)"
    using assms by (auto simp: pickPeer_def Let_def split: if_splits option.splits)
  then show ?thesis
  proof cases
    case 1
    then show ?thesis
      using set_rangePeers [of "env_hostOrder env" d]
      by (auto simp: peerByHost_def find_Some_iff ran_def)
  next
    case 2
    then have "to \<in> set ?f"
      by (metis length_greater_0_conv mod_less_divisor nth_mem)
    then show ?thesis
      using set_rangePeers [of "env_realmOrder env" d] by (auto simp: peersByRealm_def ran_def)
  qed
qed

text \<open>
  What the selection promises, over the registered peers as a set: those that are the
  Destination-Host, and those other than the sender that belong to the Destination-Realm.
\<close>

definition hostPeers :: "routingView \<Rightarrow> DRANode \<Rightarrow> nat set" where
  "hostPeers rv d = {p \<in> ran (dn_peers d). peer_OriginHost (dn_heap d p) = rv_DestinationHost rv}"

definition realmPeers :: "routingView \<Rightarrow> nat \<Rightarrow> DRANode \<Rightarrow> nat set" where
  "realmPeers rv from d =
     {p \<in> ran (dn_peers d). peer_OriginRealm (dn_heap d p) = rv_DestinationRealm rv} - {from}"

text \<open>The turn of the counter among the candidates \<open>ps\<close>: the counter advances only when there is one.\<close>

definition turnOf :: "nat list \<Rightarrow> DRANode \<Rightarrow> nat option \<times> DRANode" where
  "turnOf ps d =
     (if ps = [] then (None, d)
      else (Some (ps ! (unat (dn_rrCounter d + 1) mod length ps)), d\<lparr>dn_rrCounter := dn_rrCounter d + 1\<rparr>))"

definition realmCandidates :: "dra_env \<Rightarrow> routingView \<Rightarrow> nat \<Rightarrow> DRANode \<Rightarrow> nat list" where
  "realmCandidates env rv from d =
     filter (\<lambda>p. p \<noteq> from) (peersByRealm (env_realmOrder env) (rv_DestinationRealm rv) d)"

lemma set_rangePeers_all: "set order = dom (dn_peers d) \<Longrightarrow> set (rangePeers order d) = ran (dn_peers d)"
  by (force simp: set_rangePeers ran_def)

lemma set_realmCandidates:
  "set (env_realmOrder env) = dom (dn_peers d) \<Longrightarrow> set (realmCandidates env rv from d) = realmPeers rv from d"
  by (auto simp: realmCandidates_def realmPeers_def peersByRealm_def set_rangePeers_all)

lemma peerByHost_cases:
  assumes "set (env_hostOrder env) = dom (dn_peers d)"
  shows "case peerByHost (env_hostOrder env) (rv_DestinationHost rv) d of
      None \<Rightarrow> hostPeers rv d = {} | Some p \<Rightarrow> p \<in> hostPeers rv d"
  using set_rangePeers_all [OF assms]
  by (auto simp: peerByHost_def hostPeers_def find_None_iff find_Some_iff split: option.split)

lemma pickPeer_eq:
  "pickPeer env rv from d =
     (case peerByHost (env_hostOrder env) (rv_DestinationHost rv) d of
        Some p \<Rightarrow> if rv_DestinationHost rv \<noteq> [] \<and> p \<noteq> from then (Some p, d)
                  else turnOf (realmCandidates env rv from d) d
      | None \<Rightarrow> turnOf (realmCandidates env rv from d) d)"
  by (simp add: pickPeer_def turnOf_def realmCandidates_def Let_def split: option.split)

text \<open>
  C27. Which peer a request goes to. When the Destination-Host is given, registered, and not the
  sender, a peer with that host is chosen, whatever the realm, and the counter stays. When no host
  is given or no peer but the sender has it, the choice is the turn of the shared counter, advanced
  by one and wrapped at 64 bits, among the registered peers of the Destination-Realm other than the
  sender, and there is no choice exactly when there is no such peer. When the sender shares the
  Destination-Host with others, the order in which the map is visited decides between the two.
\<close>

theorem pickPeer_correct:
  assumes "set (env_hostOrder env) = dom (dn_peers d)" and "set (env_realmOrder env) = dom (dn_peers d)"
  shows "(rv_DestinationHost rv \<noteq> [] \<and> hostPeers rv d \<noteq> {} \<and> from \<notin> hostPeers rv d \<longrightarrow>
      (\<exists>to \<in> hostPeers rv d. pickPeer env rv from d = (Some to, d))) \<and>
    (rv_DestinationHost rv = [] \<or> hostPeers rv d \<subseteq> {from} \<longrightarrow>
      pickPeer env rv from d = turnOf (realmCandidates env rv from d) d) \<and>
    (pickPeer env rv from d = turnOf (realmCandidates env rv from d) d \<or>
      rv_DestinationHost rv \<noteq> [] \<and> (\<exists>to \<in> hostPeers rv d - {from}. pickPeer env rv from d = (Some to, d))) \<and>
    set (realmCandidates env rv from d) = realmPeers rv from d \<and>
    (fst (turnOf (realmCandidates env rv from d) d) = None \<longleftrightarrow> realmPeers rv from d = {})"
proof -
  note s = set_realmCandidates [OF assms(2), of rv "from"]
  have n: "fst (turnOf (realmCandidates env rv from d) d) = None \<longleftrightarrow> realmPeers rv from d = {}"
    using s by (auto simp: turnOf_def)
  show ?thesis
    using peerByHost_cases [OF assms(1), of rv] s n
    by (cases "peerByHost (env_hostOrder env) (rv_DestinationHost rv) d") (auto simp: pickPeer_eq)
qed

definition example_dra :: DRANode where
  "example_dra =
     \<lparr>dn_cfg = \<lparr>dc_NodeName = [100], dc_ListenAddr = [58], dc_OriginHost = [100], dc_OriginRealm = [114],
        dc_ProductName = [80], dc_VendorID = 0, dc_HostIPs = [[10, 0, 0, 9]], dc_SupportedApps = []\<rparr>,
      dn_peers = [[97] \<mapsto> 1, [98] \<mapsto> 2], dn_pending = newPendingTable, dn_hbhSeq = - 1,
      dn_logs = [], dn_rrCounter = 0,
      dn_heap = (\<lambda>p. (newPeer [])\<lparr>peer_OriginHost := [word_of_nat p], peer_OriginRealm := [104, 115, 115]\<rparr>),
      dn_sent = []\<rparr>"

text \<open>Two peers of the realm: the turn of the counter picks the second of the two candidates.\<close>

theorem pickPeer_correct_witness:
  "pickPeer \<lparr>env_hostOrder = [[98], [97]], env_realmOrder = [[97], [98]], env_writeOK = \<lambda>_ _. True\<rparr>
     (zero_view\<lparr>rv_DestinationRealm := [104, 115, 115]\<rparr>) 3 example_dra =
       (Some 2, example_dra\<lparr>dn_rrCounter := 1\<rparr>) \<and>
   fst (pickPeer \<lparr>env_hostOrder = [[98], [97]], env_realmOrder = [[97], [98]], env_writeOK = \<lambda>_ _. True\<rparr>
     (zero_view\<lparr>rv_DestinationHost := [1], rv_DestinationRealm := [104, 115, 115]\<rparr>) 2 example_dra) = Some 1"
proof -
  let ?env = "\<lparr>env_hostOrder = [[98], [97]], env_realmOrder = [[97], [98]], env_writeOK = \<lambda>_ _. True\<rparr>"
  let ?r = "zero_view\<lparr>rv_DestinationRealm := [104, 115, 115]\<rparr>"
  let ?h = "zero_view\<lparr>rv_DestinationHost := [1], rv_DestinationRealm := [104, 115, 115]\<rparr>"
  have o: "set (env_hostOrder ?env) = dom (dn_peers example_dra)"
      "set (env_realmOrder ?env) = dom (dn_peers example_dra)"
    by (simp_all add: example_dra_def insert_commute)
  have "ran (dn_peers example_dra) = {1, 2}"
    by (simp add: example_dra_def ran_map_upd insert_commute)
  then have h: "hostPeers ?h example_dra = {1}"
    by (auto simp: hostPeers_def zero_view_def example_dra_def)
  have "realmCandidates ?env ?r 3 example_dra = [1, 2]"
    by (simp add: realmCandidates_def peersByRealm_def rangePeers_def List.map_filter_def zero_view_def
        example_dra_def)
  then have "turnOf (realmCandidates ?env ?r 3 example_dra) example_dra =
      (Some 2, example_dra\<lparr>dn_rrCounter := 1\<rparr>)"
    by (simp add: turnOf_def example_dra_def)
  then have "pickPeer ?env ?r 3 example_dra = (Some 2, example_dra\<lparr>dn_rrCounter := 1\<rparr>)"
    using pickPeer_correct [OF o, of ?r 3] by (simp add: zero_view_def)
  moreover have "fst (pickPeer ?env ?h 2 example_dra) = Some 1"
    using pickPeer_correct [OF o, of ?h 2] h by (auto simp: zero_view_def)
  ultimately show ?thesis
    by simp
qed

section \<open>Error answers\<close>

lemma and_64_byte: "(w :: byte) AND 0x40 = (if bit w 6 then 0x40 else 0)"
proof (rule bit_word_eqI)
  fix n assume "n < LENGTH(8)"
  then have "n \<in> {0, 1, 2, 3, 4, 5, 6, 7}" by auto
  then show "bit (w AND 0x40) n = bit (if bit w 6 then 0x40 else 0 :: byte) n"
    by (auto simp: bit_simps)
qed

text \<open>
  The hand-built error answer is exactly what the generated codec would produce: a version-1
  header with the E bit set, the R and T bits clear and the P bit of the request, the request's
  command, application, Hop-by-Hop and End-to-End ids and the true length, followed by the
  Result-Code, Origin-Host and Origin-Realm AVPs.
\<close>

theorem protocolError_codec:
  "protocolError cfg req rc =
     (let avps = writeAVPs [(AVPCodeRESULTCODE, Unsigned32 rc, True),
            (AVPCodeORIGINHOST, DiameterIdentity (dc_OriginHost cfg), True),
            (AVPCodeORIGINREALM, DiameterIdentity (dc_OriginRealm cfg), True)]
      in marshalHeader \<lparr>hdr_Version = 1, hdr_Length = word_of_nat (20 + length avps),
           hdr_Flags = \<lparr>fl_Request = False, fl_Proxiable = (ph_Flags req AND 0x40 \<noteq> 0),
             fl_Error = True, fl_Retransmitted = False\<rparr>,
           hdr_CommandCode = ph_CommandCode req, hdr_ApplicationID = ph_ApplicationID req,
           hdr_HopByHopID = ph_HopByHopID req, hdr_EndToEndID = ph_EndToEndID req\<rparr> @ avps)"
proof -
  have rc: "marshalAVP AVPCodeRESULTCODE (Unsigned32 rc) True False =
      [0, 0, 1, 12, 0x40, 0, 0, 12] @ PutUint32 rc"
    by (simp add: marshalAVP_def avp_flags_def avp_padding_def PutUint32_def Let_def)
  have f: "(w AND 0x40) OR 0x20 =
      flags_byte \<lparr>fl_Request = False, fl_Proxiable = (w AND 0x40 \<noteq> 0), fl_Error = True,
        fl_Retransmitted = False\<rparr>" for w :: byte
  proof -
    have "w AND 0x40 = (if bit w 6 then 0x40 else 0)"
      by (rule and_64_byte)
    then show ?thesis
      by (auto simp: flags_byte_def)
  qed
  show ?thesis
    by (simp add: protocolError_def marshalHeader_def headerLen_def Let_def f rc
        encode_marshal PutUint32_def)
qed

section \<open>What a handler does to the pending table\<close>

lemma forwardRequest_effect:
  assumes "forwardRequest env from msg h d = Some d'"
  shows "dn_cfg d' = dn_cfg d \<and> dn_peers d' = dn_peers d \<and> dn_heap d' = dn_heap d \<and>
    ((dn_hbhSeq d' = dn_hbhSeq d \<and> dn_pending d' = dn_pending d) \<or>
     (dn_hbhSeq d' = dn_hbhSeq d + 1 \<and>
      dn_pending d' \<in> {(dn_pending d)(dn_hbhSeq d + 1 := None),
        (dn_pending d)(dn_hbhSeq d + 1 \<mapsto> \<lparr>pe_origPeer = from, pe_origHbH = ph_HopByHopID h,
           pe_origEndToEnd = ph_EndToEndID h, pe_cmdCode = ph_CommandCode h\<rparr>)}))"
proof -
  have pp: "\<exists>r c. pickPeer env rv from d = (r, d\<lparr>dn_rrCounter := c\<rparr>)" for rv
    using pickPeer_frame [of env rv "from" d] by (metis surj_pair)
  show ?thesis
  proof (cases "extractRouting msg")
    case (Done rv)
    obtain r c where r: "pickPeer env rv from d = (r, d\<lparr>dn_rrCounter := c\<rparr>)"
      using pp by blast
    show ?thesis
      using assms r Done
      by (cases "rv_DestinationRealm rv = []"; cases r)
        (auto simp: forwardRequest_def nextHbH_def Let_def peer_Send_def pending_put_def pending_take_def
          split: outcome.splits if_splits)
  qed (use assms in \<open>auto simp: forwardRequest_def\<close>)
qed

lemma forwardAnswer_effect:
  assumes "forwardAnswer env from msg h d = Some d'"
  shows "dn_cfg d' = dn_cfg d \<and> dn_peers d' = dn_peers d \<and> dn_heap d' = dn_heap d \<and>
    dn_hbhSeq d' = dn_hbhSeq d \<and> dn_pending d' = (dn_pending d)(ph_HopByHopID h := None)"
proof (cases "dn_pending d (ph_HopByHopID h)")
  case None
  then show ?thesis
    using assms by (auto simp: forwardAnswer_def pending_take_def)
next
  case (Some e)
  then show ?thesis
    using assms
    by (auto simp: forwardAnswer_def pending_take_def Let_def peer_Send_def
        split: outcome.splits if_splits)
qed

lemma handleDWR_effect:
  "handleDWR env p msg d = (r, d') \<Longrightarrow> \<exists>sent. d' = d\<lparr>dn_sent := sent\<rparr>"
  by (auto simp: handleDWR_def Let_def peer_Send_def split: sum.splits if_splits)
    (metis DRANode.surjective DRANode.update_convs(8))+

lemma handleMessage_effect:
  assumes "handleMessage env p msg d = Some (cont, d')"
  shows "dn_cfg d' = dn_cfg d \<and> dn_peers d' = dn_peers d \<and> dn_heap d' = dn_heap d \<and>
    dn_hbhSeq d' \<in> {dn_hbhSeq d, dn_hbhSeq d + 1} \<and>
    (\<forall>k. dn_pending d' k \<noteq> dn_pending d k \<longrightarrow>
       (k = dn_hbhSeq d + 1 \<and> dn_hbhSeq d' = dn_hbhSeq d + 1 \<and>
          (\<forall>e. dn_pending d' k = Some e \<longrightarrow> pe_origPeer e = p)) \<or>
       (dn_pending d' k = None \<and> (\<exists>h. parseHeader msg = Inr h \<and> \<not> isRequest h \<and> ph_HopByHopID h = k)))"
proof (cases "parseHeader msg")
  case (Inr h)
  consider "ph_CommandCode h = 280" | "ph_CommandCode h = 282"
    | "ph_CommandCode h \<notin> {280, 282}" "isRequest h" | "ph_CommandCode h \<notin> {280, 282}" "\<not> isRequest h"
    by blast
  then show ?thesis
  proof cases
    case 1
    then show ?thesis
      using assms Inr handleDWR_effect [of env p msg d]
      by (fastforce simp: handleMessage_def split: if_splits option.splits prod.splits)
  next
    case 2
    then show ?thesis
      using assms Inr by (simp add: handleMessage_def)
  next
    case 3
    then show ?thesis
      using assms Inr forwardRequest_effect [of env p msg h d d']
      by (auto simp: handleMessage_def fun_upd_def split: if_splits)
  next
    case 4
    then show ?thesis
      using assms Inr forwardAnswer_effect [of env p msg h d d']
      by (auto simp: handleMessage_def fun_upd_def split: if_splits)
  qed
qed (use assms in \<open>auto simp: handleMessage_def\<close>)

section \<open>Histories of a node\<close>

datatype dra_event =
    FirstFrame dra_env nat bytes
  | Frame dra_env nat bytes
  | Hangup nat

fun dra_event_step :: "dra_event \<Rightarrow> DRANode \<Rightarrow> DRANode option" where
  "dra_event_step (FirstFrame env p msg) d = Some (snd (handleFirst env p msg d))"
| "dra_event_step (Frame env p msg) d = map_option snd (handleMessage env p msg d)"
| "dra_event_step (Hangup p) d = Some (connectionClosed p d)"

fun dra_run :: "dra_event list \<Rightarrow> DRANode \<Rightarrow> DRANode option" where
  "dra_run [] d = Some d"
| "dra_run (ev # evs) d =
     (case dra_event_step ev d of None \<Rightarrow> None | Some d' \<Rightarrow> dra_run evs d')"

text \<open>An event that may consume the pending request \<open>k\<close> of peer \<open>p\<close>.\<close>

fun settles :: "u32 \<Rightarrow> nat \<Rightarrow> dra_event \<Rightarrow> bool" where
  "settles k p (Frame env q msg) =
     (case parseHeader msg of Inl e \<Rightarrow> False | Inr h \<Rightarrow> \<not> isRequest h \<and> ph_HopByHopID h = k)"
| "settles k p (Hangup q) = (q = p)"
| "settles k p (FirstFrame env q msg) = False"

lemma handleFirst_effect:
  "dn_pending (snd (handleFirst env p msg d)) = dn_pending d \<and>
   dn_hbhSeq (snd (handleFirst env p msg d)) = dn_hbhSeq d \<and>
   dn_cfg (snd (handleFirst env p msg d)) = dn_cfg d"
  by (simp add: handleFirst_def handleCER_def registerPeer_def peer_Send_def Let_def
      split: sum.split prod.split option.split bool.split)

lemma connectionClosed_effect:
  "dn_pending (connectionClosed p d) = forgetPeer p (dn_pending d)"
  "dn_hbhSeq (connectionClosed p d) = dn_hbhSeq d" "dn_cfg (connectionClosed p d) = dn_cfg d"
  by (simp_all add: connectionClosed_def removePeer_def peer_Close_def Let_def)

lemma unat_suc_le: "unat (x + 1 :: u32) \<le> unat x + 1"
  by (metis Suc_eq_plus1 unat_1 unat_add_lem unat_plus_simple le_refl not_less_eq_eq unat_word_ariths(1) mod_less_eq_dividend)

lemma dra_event_keeps_pending:
  assumes "dra_event_step ev d = Some d'" and "\<not> settles k (pe_origPeer e) ev"
    and "dn_pending d k = Some e" and "unat (dn_hbhSeq d - k) < 2 ^ 32 - 1"
  shows "dn_pending d' k = Some e \<and> unat (dn_hbhSeq d' - k) \<le> unat (dn_hbhSeq d - k) + 1 \<and>
    dn_cfg d' = dn_cfg d"
proof -
  have k: "k \<noteq> dn_hbhSeq d + 1"
  proof
    assume "k = dn_hbhSeq d + 1"
    then have "dn_hbhSeq d - k = - 1" by simp
    then show False using assms(4) by (simp add: unsigned_minus_1_eq_mask mask_eq_exp_minus_1)
  qed
  have up: "unat (dn_hbhSeq d + 1 - k) \<le> unat (dn_hbhSeq d - k) + 1"
    using unat_suc_le [of "dn_hbhSeq d - k"] by (simp add: algebra_simps)
  show ?thesis
  proof (cases ev)
    case (FirstFrame env p msg)
    then show ?thesis
      using assms(1,3) handleFirst_effect [of env p msg d] by auto
  next
    case (Frame env p msg)
    then obtain c where "handleMessage env p msg d = Some (c, d')"
      using assms(1) by auto
    note eff = handleMessage_effect [OF this]
    have "\<not> (\<exists>h. parseHeader msg = Inr h \<and> \<not> isRequest h \<and> ph_HopByHopID h = k)"
      using assms(2) Frame by auto
    then have "dn_pending d' k = dn_pending d k"
      using eff k by blast
    moreover have "unat (dn_hbhSeq d' - k) \<le> unat (dn_hbhSeq d - k) + 1"
      using eff up by auto
    ultimately show ?thesis
      using eff assms(3) by simp
  next
    case (Hangup p)
    then show ?thesis
      using assms by (auto simp: connectionClosed_effect pending.forget_other)
  qed
qed

lemma dra_run_keeps_pending:
  "dra_run evs d = Some d' \<Longrightarrow> \<forall>ev \<in> set evs. \<not> settles k (pe_origPeer e) ev \<Longrightarrow>
   dn_pending d k = Some e \<Longrightarrow> unat (dn_hbhSeq d - k) + length evs < 2 ^ 32 - 1 \<Longrightarrow>
   dn_pending d' k = Some e \<and> dn_cfg d' = dn_cfg d"
proof (induction evs arbitrary: d)
  case (Cons ev evs)
  then obtain d1 where d1: "dra_event_step ev d = Some d1" "dra_run evs d1 = Some d'"
    by (auto split: option.splits)
  have "dn_pending d1 k = Some e \<and> unat (dn_hbhSeq d1 - k) \<le> unat (dn_hbhSeq d - k) + 1 \<and>
      dn_cfg d1 = dn_cfg d"
    using Cons.prems d1(1) by (intro dra_event_keeps_pending) auto
  then show ?case
    using Cons.IH [OF d1(2)] Cons.prems by auto
qed simp

section \<open>Hop-by-Hop ids of rewritten messages\<close>

lemma iterateLoop_invariant:
  assumes "\<And>code vendor loc body s s'. P s \<Longrightarrow> fn code vendor loc body s = Done s' \<Longrightarrow> P s'"
  shows "P s \<Longrightarrow> iterateLoop msg fn pos s = Done s' \<Longrightarrow> P s'"
proof (induction "length msg - pos" arbitrary: pos s rule: less_induct)
  case less
  show ?case
  proof (cases "pos < length msg")
    case True
    then have "\<exists>code vendor loc body s1 n. fn code vendor loc body s = Done s1 \<and> 0 < n \<and>
        iterateLoop msg fn (pos + n) s1 = Done s'"
      using less.prems(2) padded_length_ge
      by (subst (asm) iterateLoop.simps)
        (auto simp: Let_def split: if_splits outcome.splits; metis gr0I le_zero_eq not_numeral_le_zero)
    then show ?thesis
      using less.hyps less.prems(1) assms True by (metis diff_less_mono2 less_add_same_cancel1)
  qed (use less.prems in \<open>simp add: iterateLoop.simps\<close>)
qed

lemma rewrite_length:
  assumes "rewriteOriginHostRealm msg host realm = Done out"
  shows "20 \<le> length out"
proof -
  have grow: "20 \<le> length (rw_out s')"
    if "20 \<le> length (rw_out s)" "rewriteStep msg host realm code vendor loc body s = Done s'"
    for code vendor loc body s s'
    using that by (auto simp: rewriteStep_def split: if_splits)
  have "20 \<le> length (rw_out st')"
    if "iterateAVPs msg (rewriteStep msg host realm) st = Done st'" "20 \<le> length (rw_out st)" for st st'
  proof (rule iterateLoop_invariant [of "\<lambda>st. 20 \<le> length (rw_out st)"])
    show "iterateLoop msg (rewriteStep msg host realm) 20 st = Done st'"
      using that(1) by (simp add: iterateAVPs_def headerLen_def split: if_splits)
  qed (use grow that(2) in auto)
  then show ?thesis
    using assms
    by (fastforce simp: rewriteOriginHostRealm_def fixLength_def headerLen_def Let_def
        split: if_splits outcome.splits)
qed

lemma parseHeader_setHopByHop:
  assumes "20 \<le> length msg"
  shows "\<exists>h. parseHeader (setHopByHop msg k) = Inr h \<and> ph_HopByHopID h = k"
proof -
  have "bslice 12 16 (setHopByHop msg k) = PutUint32 k"
    using assms by (simp add: setHopByHop_def bslice_def)
  then show ?thesis
    using assms by (simp add: parseHeader_def headerLen_def) (simp add: setHopByHop_def)
qed

lemma forwardRequest_sent:
  assumes "forwardRequest env from msg h d = Some d'" and "dn_sent d' = dn_sent d @ [(to, out)]"
    and "to \<noteq> from"
  shows "dn_hbhSeq d' = dn_hbhSeq d + 1 \<and>
    dn_pending d' (dn_hbhSeq d + 1) = Some \<lparr>pe_origPeer = from, pe_origHbH = ph_HopByHopID h,
       pe_origEndToEnd = ph_EndToEndID h, pe_cmdCode = ph_CommandCode h\<rparr> \<and>
    (\<exists>oh. parseHeader out = Inr oh \<and> ph_HopByHopID oh = dn_hbhSeq d + 1)"
proof (cases "extractRouting msg")
  case (Done rv)
  obtain r c where r: "pickPeer env rv from d = (r, d\<lparr>dn_rrCounter := c\<rparr>)"
    using pickPeer_frame [of env rv "from" d] by (metis surj_pair)
  show ?thesis
    using assms r Done rewrite_length parseHeader_setHopByHop
    by (cases "rv_DestinationRealm rv = []"; cases r)
      (auto simp: forwardRequest_def nextHbH_def Let_def peer_Send_def pending_put_def
        sendProtocolError_def split: outcome.splits if_splits)
qed (use assms in \<open>auto simp: forwardRequest_def sendProtocolError_def peer_Send_def split: if_splits\<close>)

lemma forwardAnswer_delivers:
  assumes "dn_pending d (ph_HopByHopID h) = Some e"
    and "rewriteOriginHostRealm msg (dc_OriginHost (dn_cfg d)) (dc_OriginRealm (dn_cfg d)) = Done rew"
    and "env_writeOK env (pe_origPeer e) (setHopByHop rew (pe_origHbH e))"
  shows "\<exists>d'. forwardAnswer env from msg h d = Some d' \<and>
    dn_sent d' = dn_sent d @ [(pe_origPeer e, setHopByHop rew (pe_origHbH e))] \<and>
    dn_pending d' (ph_HopByHopID h) = None"
  using assms by (simp add: forwardAnswer_def pending_take_def peer_Send_def)

text \<open>
  C2. End-to-end correlation. When the agent has forwarded a request of peer \<open>from\<close>, the copy it
  sent carries a Hop-by-Hop id of its own; and when later, after any history of fewer than
  \<open>2\<^sup>3\<^sup>2 - 1\<close> further events in which \<open>from\<close> stays connected and that id is not answered, an answer
  with that id arrives, it is sent to \<open>from\<close> with the Hop-by-Hop id \<open>from\<close> had chosen, and the
  entry is gone. The agent's own id counter may wrap around meanwhile.
\<close>

theorem answer_reaches_requester:
  assumes "forwardRequest env from req h d = Some d1"
    and "dn_sent d1 = dn_sent d @ [(to, out)]" and "to \<noteq> from"
    and "dra_run evs d1 = Some d2" and "length evs < 2 ^ 32 - 1"
    and "\<forall>ev \<in> set evs. \<not> settles (dn_hbhSeq d + 1) from ev"
    and "parseHeader ans = Inr ah" and "ph_HopByHopID ah = dn_hbhSeq d + 1"
    and "\<not> isRequest ah" and "ph_CommandCode ah \<notin> {280, 282}"
    and "rewriteOriginHostRealm ans (dc_OriginHost (dn_cfg d)) (dc_OriginRealm (dn_cfg d)) = Done rew"
    and "env_writeOK env' from (setHopByHop rew (ph_HopByHopID h))"
  shows "(\<exists>oh. parseHeader out = Inr oh \<and> ph_HopByHopID oh = dn_hbhSeq d + 1) \<and>
    (\<exists>d3. handleMessage env' server ans d2 = Some (True, d3) \<and>
      dn_sent d3 = dn_sent d2 @ [(from, setHopByHop rew (ph_HopByHopID h))] \<and>
      dn_pending d3 (dn_hbhSeq d + 1) = None)"
proof -
  let ?k = "dn_hbhSeq d + 1"
  let ?e = "\<lparr>pe_origPeer = from, pe_origHbH = ph_HopByHopID h, pe_origEndToEnd = ph_EndToEndID h,
     pe_cmdCode = ph_CommandCode h\<rparr>"
  note sent = forwardRequest_sent [OF assms(1-3)]
  have cfg: "dn_cfg d1 = dn_cfg d"
    using forwardRequest_effect [OF assms(1)] by simp
  have "dn_pending d2 ?k = Some ?e \<and> dn_cfg d2 = dn_cfg d1"
    using sent assms(4-6) by (intro dra_run_keeps_pending [of evs]) auto
  then have "\<exists>d'. forwardAnswer env' server ans ah d2 = Some d' \<and>
      dn_sent d' = dn_sent d2 @ [(from, setHopByHop rew (ph_HopByHopID h))] \<and> dn_pending d' ?k = None"
    using forwardAnswer_delivers [of d2 ah ?e ans rew env' server] assms(8,11,12) cfg by simp
  then show ?thesis
    using sent assms(7,9,10) by (auto simp: handleMessage_def)
qed

text \<open>
  C25. An answer is delivered at most once: after an answer with some Hop-by-Hop id has been
  handled, a second one with the same id is dropped and nothing is written to any peer.
\<close>

theorem answer_delivered_once:
  assumes "forwardAnswer env from msg h d = Some d1" and "ph_HopByHopID h' = ph_HopByHopID h"
  shows "\<exists>d2. forwardAnswer env' from' msg' h' d1 = Some d2 \<and> dn_sent d2 = dn_sent d1 \<and>
    dn_pending d2 = dn_pending d1"
proof -
  have "dn_pending d1 (ph_HopByHopID h') = None"
    using forwardAnswer_effect [OF assms(1)] assms(2) by simp
  then show ?thesis
    by (simp add: forwardAnswer_def pending_take_def)
qed

theorem answer_delivered_once_witness:
  "\<exists>d1 d2. forwardAnswer \<lparr>env_hostOrder = [], env_realmOrder = [], env_writeOK = \<lambda>_ _. True\<rparr> 2
      (replicate 20 0) \<lparr>ph_Version = 1, ph_Length = 20, ph_Flags = 0, ph_CommandCode = 316,
        ph_ApplicationID = 0, ph_HopByHopID = 5, ph_EndToEndID = 0\<rparr>
      (example_dra\<lparr>dn_pending := [5 \<mapsto> \<lparr>pe_origPeer = 1, pe_origHbH = 77, pe_origEndToEnd = 0,
        pe_cmdCode = 316\<rparr>]\<rparr>) = Some d1 \<and> length (dn_sent d1) = 1 \<and>
    forwardAnswer \<lparr>env_hostOrder = [], env_realmOrder = [], env_writeOK = \<lambda>_ _. True\<rparr> 2
      (replicate 20 0) \<lparr>ph_Version = 1, ph_Length = 20, ph_Flags = 0, ph_CommandCode = 316,
        ph_ApplicationID = 0, ph_HopByHopID = 5, ph_EndToEndID = 0\<rparr> d1 = Some d2 \<and>
    length (dn_sent d2) = 1"
proof -
  let ?env = "\<lparr>env_hostOrder = [], env_realmOrder = [], env_writeOK = \<lambda>_ _. True\<rparr>"
  let ?h = "\<lparr>ph_Version = 1, ph_Length = 20, ph_Flags = 0, ph_CommandCode = 316,
        ph_ApplicationID = 0, ph_HopByHopID = 5, ph_EndToEndID = 0\<rparr>"
  let ?d = "example_dra\<lparr>dn_pending := [5 \<mapsto> \<lparr>pe_origPeer = 1, pe_origHbH = 77, pe_origEndToEnd = 0,
        pe_cmdCode = 316\<rparr>]\<rparr>"
  obtain rew where "rewriteOriginHostRealm (replicate 20 0) [100] [114] = Done rew"
    using rewrite_msg [of "replicate 20 0" "[]" "[100]" "[114]"] by (auto simp: msg_bytes_def)
  then obtain d1 where d1: "forwardAnswer ?env 2 (replicate 20 0) ?h ?d = Some d1"
    "length (dn_sent d1) = 1"
    using forwardAnswer_delivers [of ?d ?h _ "replicate 20 0" rew ?env 2]
    by (auto simp: example_dra_def)
  then show ?thesis
    using answer_delivered_once [OF d1(1), of ?h] by (metis (no_types))
qed

text \<open>
  The witness for the correlation: peer 1 sends a request for the realm of peer 2 when the
  agent's counter stands at its maximum, so that the forwarded copy carries id 0.
\<close>

definition example_env :: dra_env where
  "example_env = \<lparr>env_hostOrder = [[97], [98]], env_realmOrder = [[97], [98]],
     env_writeOK = \<lambda>_ _. True\<rparr>"

definition example_req_header :: parsedHeader where
  "example_req_header = \<lparr>ph_Version = 1, ph_Length = 0, ph_Flags = 0x80, ph_CommandCode = 316,
     ph_ApplicationID = 0, ph_HopByHopID = 77, ph_EndToEndID = 0\<rparr>"

lemma example_forward:
  "\<exists>d1 out. forwardRequest example_env 1 (msg_bytes (replicate 20 0) example_avps) example_req_header
      example_dra = Some d1 \<and> dn_sent d1 = dn_sent example_dra @ [(2, out)]"
proof -
  let ?m = "msg_bytes (replicate 20 0) example_avps"
  obtain rv where rv: "extractRouting ?m = Done rv" "rv_DestinationHost rv = []"
    "rv_DestinationRealm rv = [104, 115, 115]"
  proof (rule extractRouting_msg [OF _ example_avps_ok, of "replicate 20 0"], simp)
    fix rv assume "extractRouting ?m = Done rv"
      and "rv_DestinationHost rv = view_field avpDestinationHost [] example_avps"
      and "rv_DestinationRealm rv = view_field avpDestinationRealm [] example_avps"
    then show thesis
      by (intro that) (simp_all add: example_avps_def is_origin_def ra_vid_def origin_avp_def)
  qed
  have "pickPeer example_env rv 1 example_dra = (Some 2, example_dra\<lparr>dn_rrCounter := 1\<rparr>)"
    by (simp add: pickPeer_def rv peersByRealm_def rangePeers_def List.map_filter_def example_env_def
        example_dra_def newPeer_def)
  then show ?thesis
    using rewrite_msg [OF _ example_avps_ok, of "replicate 20 0"] rv
    by (simp add: forwardRequest_def nextHbH_def Let_def peer_Send_def example_env_def)
qed

theorem answer_reaches_requester_witness:
  "\<exists>d1 d3 out rew. forwardRequest example_env 1 (msg_bytes (replicate 20 0) example_avps)
      example_req_header example_dra = Some d1 \<and>
    handleMessage example_env 2 (replicate 20 0) d1 = Some (True, d3) \<and>
    dn_sent d3 = dn_sent d1 @ [(1, setHopByHop rew 77)]"
proof -
  obtain d1 out where d1: "forwardRequest example_env 1 (msg_bytes (replicate 20 0) example_avps)
      example_req_header example_dra = Some d1" "dn_sent d1 = dn_sent example_dra @ [(2, out)]"
    using example_forward by blast
  obtain rew where rew: "rewriteOriginHostRealm (replicate 20 0) [100] [114] = Done rew"
    using rewrite_msg [of "replicate 20 0" "[]" "[100]" "[114]"] by (auto simp: msg_bytes_def)
  have "replicate 4 0 = [0, 0, 0, 0 :: byte]"
    by (simp add: numeral_eq_Suc)
  then have z: "Uint32 (replicate 4 0) = 0"
    by (simp add: wire_simps)
  have ah: "parseHeader (replicate 20 0) = Inr \<lparr>ph_Version = 0, ph_Length = 0, ph_Flags = 0,
      ph_CommandCode = 0, ph_ApplicationID = 0, ph_HopByHopID = 0, ph_EndToEndID = 0\<rparr>"
    by (simp add: parseHeader_def headerLen_def be24_def bslice_def z)
  show ?thesis
    using answer_reaches_requester [OF d1, of "[]" d1 "replicate 20 0" _ rew example_env 2, OF _ _ _ _ ah]
      rew d1(1)
    by (auto simp: example_dra_def example_env_def example_req_header_def isRequest_def)
qed

section \<open>Connections over time\<close>

definition NewDRANode :: "dra_Config \<Rightarrow> DRANode" where
  "NewDRANode cfg =
     \<lparr>dn_cfg = cfg, dn_peers = Map.empty, dn_pending = newPendingTable, dn_hbhSeq = 0, dn_logs = [],
      dn_rrCounter = 0, dn_heap = (\<lambda>_. newPeer []), dn_sent = []\<rparr>"

text \<open>
  Where the goroutine of a connection stands: before its first frame, in the main loop, about to
  run the deferred clean-up, or finished. Each handler runs as one step.
\<close>

datatype phase = Unused | Fresh | Up | Closing | Gone

inductive dra_reach :: "dra_Config \<Rightarrow> DRANode \<Rightarrow> (nat \<Rightarrow> phase) \<Rightarrow> bool" for cfg where
  start: "dra_reach cfg (NewDRANode cfg) (\<lambda>_. Unused)"
| listening: "dra_reach cfg d ph \<Longrightarrow> StartNode listenOK d = Inr d' \<Longrightarrow> dra_reach cfg d' ph"
| stopped: "dra_reach cfg d ph \<Longrightarrow> dra_reach cfg (Stop order d) ph"
| accepted: "dra_reach cfg d ph \<Longrightarrow> ph p = Unused \<Longrightarrow>
    dra_reach cfg (d\<lparr>dn_heap := (dn_heap d)(p := newPeer remote)\<rparr>) (ph(p := Fresh))"
| first_frame: "dra_reach cfg d ph \<Longrightarrow> ph p = Fresh \<Longrightarrow> handleFirst env p msg d = (go, d') \<Longrightarrow>
    dra_reach cfg d' (ph(p := if go then Up else Closing))"
| first_error: "dra_reach cfg d ph \<Longrightarrow> ph p = Fresh \<Longrightarrow>
    dra_reach cfg (dra_log (LogReadInitial e) d) (ph(p := Closing))"
| next_frame: "dra_reach cfg d ph \<Longrightarrow> ph p = Up \<Longrightarrow> handleMessage env p msg d = Some (go, d') \<Longrightarrow>
    dra_reach cfg d' (ph(p := if go then Up else Closing))"
| read_error: "dra_reach cfg d ph \<Longrightarrow> ph p = Up \<Longrightarrow> dra_reach cfg d (ph(p := Closing))"
| cleanup: "dra_reach cfg d ph \<Longrightarrow> ph p = Closing \<Longrightarrow>
    dra_reach cfg (connectionClosed p d) (ph(p := Gone))"

fun live :: "phase \<Rightarrow> bool" where
  "live Up = True"
| "live Closing = True"
| "live _ = False"

definition dra_inv :: "DRANode \<Rightarrow> (nat \<Rightarrow> phase) \<Rightarrow> bool" where
  "dra_inv d ph \<longleftrightarrow>
     (\<forall>k p. dn_peers d k = Some p \<longrightarrow> live (ph p) \<and> k = peerRegistryKey (dn_heap d p)) \<and>
     (\<forall>k e. dn_pending d k = Some e \<longrightarrow> live (ph (pe_origPeer e)))"

lemma dra_invD:
  "dra_inv d ph \<Longrightarrow> dn_peers d k = Some p \<Longrightarrow> live (ph p) \<and> k = peerRegistryKey (dn_heap d p)"
  "dra_inv d ph \<Longrightarrow> dn_pending d hbh = Some e \<Longrightarrow> live (ph (pe_origPeer e))"
  by (auto simp: dra_inv_def)

text \<open>The registry, the table and the phases may change only in ways that keep everything live.\<close>

lemma dra_inv_mono:
  assumes "dra_inv d ph"
    and "\<And>q. live (ph q) \<Longrightarrow> live (ph' q) \<and> peerRegistryKey (dn_heap d' q) = peerRegistryKey (dn_heap d q)"
    and "\<And>k q. dn_peers d' k = Some q \<Longrightarrow> dn_peers d k \<noteq> Some q \<Longrightarrow>
      live (ph' q) \<and> k = peerRegistryKey (dn_heap d' q)"
    and "\<And>k e. dn_pending d' k = Some e \<Longrightarrow> dn_pending d k \<noteq> Some e \<Longrightarrow> live (ph' (pe_origPeer e))"
  shows "dra_inv d' ph'"
proof -
  have "live (ph' q) \<and> k = peerRegistryKey (dn_heap d' q)" if "dn_peers d' k = Some q" for k q
    using that assms(2) [of q] assms(3) [of k q] dra_invD(1) [OF assms(1), of k q] by fastforce
  moreover have "live (ph' (pe_origPeer e))" if "dn_pending d' k = Some e" for k e
    using that assms(2) [of "pe_origPeer e"] assms(4) [of k e] dra_invD(2) [OF assms(1), of k e] by fastforce
  ultimately show ?thesis
    unfolding dra_inv_def by blast
qed

lemma handleCER_effect:
  assumes "handleCER env p msg d = (r, d')"
  shows "dn_peers d' = dn_peers d \<and> dn_pending d' = dn_pending d \<and>
    (\<forall>q. q \<noteq> p \<longrightarrow> dn_heap d' q = dn_heap d q)"
  using assms
  by (auto simp: handleCER_def Let_def peer_Send_def split: sum.splits if_splits)

lemma handleFirst_inv:
  assumes "dra_inv d ph" and "ph p = Fresh" and "handleFirst env p msg d = (go, d')"
  shows "dra_inv d' (ph(p := if go then Up else Closing))"
proof (cases "\<exists>h. parseHeader msg = Inr h \<and> ph_CommandCode h = 257 \<and> isRequest h")
  case False
  then have "d' = dra_log LogNotCER d" "\<not> go"
    using assms(3) by (auto simp: handleFirst_def split: sum.splits if_splits)
  then show ?thesis
    by (intro dra_inv_mono [OF assms(1)]) auto
next
  case True
  obtain r d1 where r: "handleCER env p msg d = (r, d1)"
    by (cases "handleCER env p msg d")
  note cer = handleCER_effect [OF r]
  have heap: "dn_heap d' = dn_heap d1" and pend: "dn_pending d' = dn_pending d"
    and go: "live (if go then Up else Closing)"
    and peers: "dn_peers d' = (if go then (dn_peers d)(peerRegistryKey (dn_heap d1 p) \<mapsto> p) else dn_peers d)"
    using assms(3) True r cer
    by (auto simp: handleFirst_def registerPeer_def Let_def split: option.splits if_splits)
  show ?thesis
    using assms(2) cer go
    by (intro dra_inv_mono [OF assms(1)]) (auto simp: heap pend peers split: if_splits)
qed

lemma handleMessage_inv:
  assumes "dra_inv d ph" and "ph p = Up" and "handleMessage env p msg d = Some (go, d')"
  shows "dra_inv d' (ph(p := if go then Up else Closing))"
proof -
  note eff = handleMessage_effect [OF assms(3)]
  have "pe_origPeer e = p" if "dn_pending d' k = Some e" "dn_pending d k \<noteq> Some e" for k e
    using eff that by (metis option.distinct(1))
  then show ?thesis
    using eff by (intro dra_inv_mono [OF assms(1)]) auto
qed

lemma connectionClosed_inv:
  assumes "dra_inv d ph"
  shows "dra_inv (connectionClosed p d) (ph(p := Gone))"
proof -
  let ?d = "connectionClosed p d"
  have heap: "peerRegistryKey (dn_heap ?d q) = peerRegistryKey (dn_heap d q)" for q
    by (simp add: connectionClosed_def removePeer_def peer_Close_def Let_def peerRegistryKey_def)
  have peers: "dn_peers ?d k = Some q \<Longrightarrow> dn_peers d k = Some q \<and> q \<noteq> p" for k q
    using dra_invD(1) [OF assms, of k q]
    by (auto simp: connectionClosed_def removePeer_def peer_Close_def Let_def peerRegistryKey_def
        split: if_splits)
  have "dn_pending ?d k = Some e \<Longrightarrow> dn_pending d k = Some e \<and> pe_origPeer e \<noteq> p" for k e
    by (auto simp: connectionClosed_effect pending.lookup_forget split: option.splits if_splits)
  then show ?thesis
    unfolding dra_inv_def using dra_invD [OF assms] heap peers by (metis fun_upd_other)
qed

lemma closePeers_frame:
  "dn_pending (closePeers order d) = dn_pending d \<and>
   (\<forall>q. peerRegistryKey (dn_heap (closePeers order d) q) = peerRegistryKey (dn_heap d q)) \<and>
   dn_peers (closePeers order d) = dn_peers d"
  unfolding closePeers_def
  by (induction order arbitrary: d) (auto simp: peer_Close_def peerRegistryKey_def split: option.split)

text \<open>\<^verbatim>\<open>Stop\<close> closes every registered peer and empties the registry; pending requests stay.\<close>

lemma Stop_closes_peers:
  assumes "dn_peers d k = Some p" and "k \<in> set order"
  shows "peer_closed (dn_heap (Stop order d) p)" and "dn_peers (Stop order d) = Map.empty"
    and "dn_pending (Stop order d) = dn_pending d"
proof -
  have keep: "peer_closed (dn_heap d p) \<Longrightarrow> peer_closed (dn_heap (closePeers order d) p)" for order d
    unfolding closePeers_def
    by (induction order arbitrary: d) (simp_all add: peer_Close_def split: option.split)
  have "dn_peers d k = Some p \<Longrightarrow> k \<in> set order \<Longrightarrow> peer_closed (dn_heap (closePeers order d) p)" for d
  proof (induction order arbitrary: d)
    case (Cons x order)
    let ?d = "case dn_peers d x of None \<Rightarrow> d | Some p \<Rightarrow> peer_Close p d"
    have step: "closePeers (x # order) d = closePeers order ?d"
      by (simp add: closePeers_def)
    have "dn_peers ?d = dn_peers d"
      by (simp add: peer_Close_def split: option.split)
    then show ?case
      using Cons keep [of ?d order] unfolding step by (cases "x = k") (auto simp: peer_Close_def)
  qed simp
  then show "peer_closed (dn_heap (Stop order d) p)"
    using assms by (simp add: Stop_def)
qed (simp_all add: Stop_def closePeers_frame)

lemma dra_reach_inv: "dra_reach cfg d ph \<Longrightarrow> dra_inv d ph"
proof (induction rule: dra_reach.induct)
  case start
  then show ?case
    by (simp add: dra_inv_def NewDRANode_def newPendingTable_def)
next
  case (listening d ph listenOK d')
  then show ?case
    by (intro dra_inv_mono [OF listening.IH]) (auto simp: StartNode_def split: if_splits)
next
  case (stopped d ph order)
  then show ?case
    by (intro dra_inv_mono [OF stopped.IH]) (auto simp: Stop_def closePeers_frame)
next
  case (accepted d ph p remote)
  then show ?case
    by (intro dra_inv_mono [OF accepted.IH]) auto
next
  case (first_frame d ph p env msg go d')
  then show ?case using handleFirst_inv by blast
next
  case (first_error d ph p e)
  then show ?case
    by (intro dra_inv_mono [OF first_error.IH]) auto
next
  case (next_frame d ph p env msg go d')
  then show ?case using handleMessage_inv by blast
next
  case (read_error d ph p)
  then show ?case
    by (intro dra_inv_mono [OF read_error.IH]) auto
next
  case (cleanup d ph p)
  then show ?case using connectionClosed_inv by blast
qed

text \<open>
  C26. A peer whose connection has ended is forgotten completely: in every reachable state it is
  in no registry slot and no pending request waits to be answered to it, so neither a request nor
  an answer is ever routed to it.
\<close>

theorem gone_peer_forgotten:
  assumes "dra_reach cfg d ph" and "ph p = Gone"
  shows "p \<notin> ran (dn_peers d) \<and> (\<forall>k e. dn_pending d k = Some e \<longrightarrow> pe_origPeer e \<noteq> p)"
  using dra_invD [OF dra_reach_inv [OF assms(1)]] assms(2) by (force simp: ran_def)

theorem gone_peer_forgotten_witness:
  "\<exists>d ph. dra_reach (dn_cfg example_dra) d ph \<and> ph 3 = Gone \<and> 3 \<notin> ran (dn_peers d)"
proof -
  have "dra_reach (dn_cfg example_dra) (connectionClosed 3 (dra_log (LogReadInitial BadVersion)
      ((NewDRANode (dn_cfg example_dra))\<lparr>dn_heap := (dn_heap (NewDRANode (dn_cfg example_dra)))(3 := newPeer [1])\<rparr>)))
      ((\<lambda>_. Unused)(3 := Fresh, 3 := Closing, 3 := Gone))"
    by (intro cleanup first_error accepted start) simp_all
  then show ?thesis
    using gone_peer_forgotten by (metis fun_upd_same)
qed

end
