(* ===== verification/Peering.thy ===== *)
theory Peering
  imports Client_Steps Dra_Node
begin

text \<open>
  The client of \<^verbatim>\<open>client/\<close> against the agent of \<^verbatim>\<open>dra/\<close>: the bytes one side writes are the bytes the
  other side handles. Both were modelled from their own sources; the theorems here show that they
  speak the same protocol.
\<close>

section \<open>Headers\<close>

lemma parseHeader_marshalHeader:
  "parseHeader (marshalHeader h @ rest) = Inr
     \<lparr>ph_Version = hdr_Version h, ph_Length = take_bit 24 (hdr_Length h),
      ph_Flags = flags_byte (hdr_Flags h), ph_CommandCode = take_bit 24 (hdr_CommandCode h),
      ph_ApplicationID = hdr_ApplicationID h, ph_HopByHopID = hdr_HopByHopID h,
      ph_EndToEndID = hdr_EndToEndID h\<rparr>"
  by (simp add: parseHeader_def headerLen_def be24_Uint32 marshalHeader_def bslice_def PutUint32_def)

lemma flags_byte_request: "flags_byte f AND 0x80 \<noteq> 0 \<longleftrightarrow> fl_Request f"
  using decode_flags_byte [of f] by (metis CommandFlags.select_convs(1) decode_flags_def)

section \<open>Sizes\<close>

definition fits :: "dra_Config \<Rightarrow> bool" where
  "fits cfg \<longleftrightarrow> length (dc_OriginHost cfg) \<le> 2 ^ 16 \<and> length (dc_OriginRealm cfg) \<le> 2 ^ 16 \<and>
     length (dc_ProductName cfg) \<le> 2 ^ 16 \<and> length (dc_HostIPs cfg) \<le> 2 ^ 16 \<and>
     length (dc_SupportedApps cfg) \<le> 2 ^ 16"

text \<open>The agent's configuration makes a valid CEA with addresses that are IPv4 or proper IPv6.\<close>

definition sane_agent :: "dra_Config \<Rightarrow> bool" where
  "sane_agent cfg \<longleftrightarrow> dc_OriginHost cfg \<noteq> [] \<and> dc_OriginRealm cfg \<noteq> [] \<and> dc_ProductName cfg \<noteq> [] \<and>
     dc_HostIPs cfg \<noteq> [] \<and>
     list_all (\<lambda>ip. canonical_address ip \<and> length ip \<le> 16) (dc_HostIPs cfg) \<and> fits cfg"


lemmas new_defs = NewCapabilitiesExchangeAnswer_def CEA_zero_def NewCapabilitiesExchangeRequest_def
  CER_zero_def NewDeviceWatchdogRequest_def DWR_zero_def NewDeviceWatchdogAnswer_def DWA_zero_def
  new_header_def zero_header_def


section \<open>The agent answers what the client sends\<close>





text \<open>An agent and a client for the instances below.\<close>

definition demo_agent :: DRANode where
  "demo_agent = NewDRANode
     \<lparr>dc_NodeName = [100], dc_ListenAddr = [], dc_OriginHost = [100, 114, 97], dc_OriginRealm = [114],
      dc_ProductName = [68], dc_VendorID = 10415, dc_HostIPs = [[10, 0, 0, 1]],
      dc_SupportedApps = [16777251, 16777252]\<rparr>"

definition demo_env :: dra_env where
  "demo_env = \<lparr>env_hostOrder = [], env_realmOrder = [], env_writeOK = (\<lambda>_ _. True)\<rparr>"

lemma sane_demo_agent: "sane_agent (dn_cfg demo_agent)"
  by (simp add: demo_agent_def NewDRANode_def sane_agent_def fits_def canonical_address_def)


section \<open>The watchdog\<close>

definition agentDWA :: "dra_Config \<Rightarrow> DeviceWatchdogRequest \<Rightarrow> DeviceWatchdogAnswer" where
  "agentDWA cfg dwr = NewDeviceWatchdogAnswer
     \<lparr>dwa_Header := (dwa_Header NewDeviceWatchdogAnswer)
        \<lparr>hdr_HopByHopID := hdr_HopByHopID (dwr_Header dwr),
         hdr_EndToEndID := hdr_EndToEndID (dwr_Header dwr)\<rparr>,
      dwa_ResultCode := DIAMETER_SUCCESS, dwa_OriginHost := dc_OriginHost cfg,
      dwa_OriginRealm := dc_OriginRealm cfg\<rparr>"

lemma agentDWA_Marshal:
  assumes "sane_agent cfg"
  obtains dwa out where "DWA_Marshal (agentDWA cfg dwr) = Inr (dwa, out)" and "length out < 2 ^ 24"
    and "DWA_faithful (agentDWA cfg dwr)"
proof -
  have "DWA_Validate (agentDWA cfg dwr) = None"
    using assms by (simp add: DWA_Validate_def agentDWA_def sane_agent_def)
  then obtain h out where m: "DWA_Marshal (agentDWA cfg dwr) = Inr ((agentDWA cfg dwr)\<lparr>dwa_Header := h\<rparr>, out)"
    and l: "length out = 20 + length (writeAVPs (DWA_writes (agentDWA cfg dwr)))"
    by (rule dwa.Marshal_total)
  have "length (writeAVPs (DWA_writes (agentDWA cfg dwr))) < 2 ^ 24 - 20"
    using assms padded_length_le [of "8 + length (dc_OriginHost cfg)"]
      padded_length_le [of "8 + length (dc_OriginRealm cfg)"] padded_length_le [of 12]
    by (simp add: DWA_writes_def agentDWA_def new_defs length_marshalAVP optional_def
        FailedAVP_writes_def Let_def sane_agent_def fits_def)
  then show thesis
    using that [OF m] l by (simp add: DWA_faithful_def agentDWA_def new_defs faithful_FailedAVP_def)
qed

lemma handleMessage_DWR:
  assumes m: "DWR_Marshal dwr = Inr (dwr', bs)" and f: "DWR_faithful dwr" and len: "length bs < 2 ^ 24"
    and h: "hdr_CommandCode (dwr_Header dwr) = 280" "fl_Request (hdr_Flags (dwr_Header dwr))"
    and a: "DWA_Marshal (agentDWA (dn_cfg d) dwr') = Inr (dwa, out)"
    and ok: "\<And>bs. env_writeOK env p bs"
  shows "handleMessage env p bs d = Some (True, d\<lparr>dn_sent := dn_sent d @ [(p, out)]\<rparr>)"
proof -
  note cs = dwr.Marshal_cases [OF m]
  have u: "DWR_Unmarshal bs DWR_zero = Inr dwr'"
    using dwr.Unmarshal_Marshal [OF m f len] h by simp
  have "parseHeader bs = parseHeader (marshalHeader (dwr_Header dwr') @ writeAVPs (DWR_writes dwr))"
    by (subst cs(3)) simp
  then obtain ph where ph: "parseHeader bs = Inr ph" "ph_CommandCode ph = 280" "isRequest ph"
    using h cs(2) by (simp add: parseHeader_marshalHeader isRequest_def flags_byte_request)
  have "Dra_Node.handleDWR env p bs d = (None, d\<lparr>dn_sent := dn_sent d @ [(p, out)]\<rparr>)"
    using u a ok unfolding agentDWA_def
    by (simp add: Dra_Node.handleDWR_def peer_Send_def Let_def)
  then show ?thesis
    using ph by (simp add: handleMessage_def)
qed

text \<open>
  A watchdog round between client and agent: the DWR that \<^verbatim>\<open>sendDWR\<close> puts into the send channel
  makes the agent's \<^verbatim>\<open>handleMessage\<close> write one message, which is cut from the client's stream and
  handed to the goroutine that waits for that Hop-by-Hop id; \<^verbatim>\<open>handleDWA\<close> accepts it, reopens the
  connection and clears its failure counter.
\<close>

theorem watchdog_round:
  assumes "sendDWR c = (Inr (hbh, generation), c1)" and "length (last (c_sendCh c1)) < 2 ^ 24"
    and "sane_agent (dn_cfg d)" and "env_writeOK env p = (\<lambda>bs. True)"
  shows "\<exists>out msg. handleMessage env p (last (c_sendCh c1)) d =
      Some (True, d\<lparr>dn_sent := dn_sent d @ [(p, out)]\<rparr>) \<and>
    ReadMessage (out @ rest) = ((Some msg, None), rest) \<and>
    dispatchMessage now msg c1 = (None, c1\<lparr>c_pending := (c_pending c1)(hbh \<mapsto> Some out)\<rparr>) \<and>
    handleDWA now out c1 =
      (None, (setState StateOpen c1)\<lparr>c_lastActivity := now, c_dwrFailureCount := 0\<rparr>)"
proof -
  obtain e2e dwr bs where m: "DWR_Marshal (watchdogDWR (c_config c) hbh e2e) = Inr (dwr, bs)"
    and l: "last (c_sendCh c1) = bs" and pend: "c_pending c1 hbh = Some None"
    using assms(1) by (auto simp: sendDWR_def nextHopByHopID_def nextEndToEndID_def registerPending_def
        Let_def split: if_splits sum.splits)
  let ?m = "watchdogDWR (c_config c) hbh e2e"
  have h: "DWR_faithful ?m" "hdr_CommandCode (dwr_Header ?m) = 280" "fl_Request (hdr_Flags (dwr_Header ?m))"
      "hdr_HopByHopID (dwr_Header ?m) = hbh"
    by (simp_all add: DWR_faithful_def watchdogDWR_def new_defs Let_def)
  obtain dwa out where dwa: "DWA_Marshal (agentDWA (dn_cfg d) dwr) = Inr (dwa, out)" "length out < 2 ^ 24"
    "DWA_faithful (agentDWA (dn_cfg d) dwr)"
    using agentDWA_Marshal [OF assms(3)] by blast
  have "handleMessage env p bs d = Some (True, d\<lparr>dn_sent := dn_sent d @ [(p, out)]\<rparr>)"
    using handleMessage_DWR [OF m h(1) _ h(2,3) dwa(1)] assms(2,4) l by simp
  moreover have "hdr_HopByHopID (dwa_Header (agentDWA (dn_cfg d) dwr)) = hbh"
    using dwr.Marshal_cases(2) [OF m] h(4) by (simp add: agentDWA_def)
  then obtain msg where "ReadMessage (out @ rest) = ((Some msg, None), rest)"
    "dispatchMessage now msg c1 = (None, c1\<lparr>c_pending := (c_pending c1)(hbh \<mapsto> Some out)\<rparr>)"
    using dwa.answer_dispatched [OF dwa(1,2), of c1 rest now] pend by (auto simp: agentDWA_def new_defs)
  moreover have "DWA_Unmarshal out DWA_zero = Inr dwa" "dwa_ResultCode dwa = DIAMETER_SUCCESS"
    using dwa.Unmarshal_Marshal [OF dwa(1,3,2)] dwa.Marshal_cases(2) [OF dwa(1)]
    by (simp_all add: agentDWA_def new_defs)
  then have "handleDWA now out c1 =
      (None, (setState StateOpen c1)\<lparr>c_lastActivity := now, c_dwrFailureCount := 0\<rparr>)"
    by (simp add: handleDWA_def IsSuccess_def DIAMETER_SUCCESS_def)
  ultimately show ?thesis
    using l by blast
qed

theorem watchdog_round_witness:
  "\<exists>hbh c1 out. sendDWR (example_conn\<lparr>c_state := StateOpen\<rparr>) = (Inr (hbh, 0), c1) \<and>
     c_state c1 = StateDWRSent \<and> c_state (snd (handleDWA 7 out c1)) = StateOpen"
proof -
  let ?c = "example_conn\<lparr>c_state := StateOpen\<rparr>"
  let ?m = "watchdogDWR (c_config ?c) 1 1"
  have v: "DWR_Validate ?m = None"
    by (simp add: DWR_Validate_def watchdogDWR_def example_conn_def NewConnection_def)
  have w: "length (writeAVPs (DWR_writes ?m)) \<le> 1000"
    by (simp add: DWR_writes_def watchdogDWR_def example_conn_def NewConnection_def new_defs wire_length)
  obtain h bs where m: "DWR_Marshal ?m = Inr (?m\<lparr>dwr_Header := h\<rparr>, bs)"
    and l: "length bs = 20 + length (writeAVPs (DWR_writes ?m))"
    using dwr.Marshal_total [OF v] by blast
  then obtain c1 where c1: "sendDWR ?c = (Inr (1, 0), c1)" "c_sendCh c1 = [bs]" "c_state c1 = StateDWRSent"
    by (simp add: sendDWR_def example_conn_def NewConnection_def IsActive_def state_IsActive_def
        nextHopByHopID_def nextEndToEndID_def registerPending_def Let_def)
  obtain out where "handleDWA 7 out c1 =
      (None, (setState StateOpen c1)\<lparr>c_lastActivity := 7, c_dwrFailureCount := 0\<rparr>)"
    using watchdog_round [OF c1(1) _ sane_demo_agent, of demo_env 0 "[]" 7] c1(2) l w
    by (auto simp: demo_env_def)
  then have "c_state (snd (handleDWA 7 out c1)) = StateOpen"
    by simp
  then show ?thesis
    using c1 by blast
qed

end
