(* ===== verification/Server_Peering.thy ===== *)
theory Server_Peering
  imports Diam_Server Peering
begin

text \<open>
  The client of \<^verbatim>\<open>client/\<close> against the server of \<^verbatim>\<open>server/\<close>: the CER of the client is read, dispatched
  to the default handler and answered, and the client accepts the answer, although the server's
  Host-IP-Address is empty whenever \<^verbatim>\<open>ListenAddress\<close> carries a port.
\<close>

section \<open>Commands of marshalled messages\<close>

lemma ParseCommand_marshalHeader:
  "ParseCommand (marshalHeader h) = Inr
     \<lparr>cmd_Interface = uint (hdr_ApplicationID h), cmd_Code = uint (take_bit 24 (hdr_CommandCode h)),
      cmd_Request = fl_Request (hdr_Flags h)\<rparr>"
proof -
  have "ParseCommand data = (case unmarshalHeader data of Inl e \<Rightarrow> Inl InvalidHeaderLength
      | Inr h \<Rightarrow> Inr \<lparr>cmd_Interface = uint (hdr_ApplicationID h), cmd_Code = uint (hdr_CommandCode h),
          cmd_Request = fl_Request (hdr_Flags h)\<rparr>)" for data
    by (simp add: ParseCommand_def unmarshalHeader_def decode_flags_def Let_def)
  then show ?thesis
    using unmarshalHeader_append [of h "[]"] by simp
qed

context generated_message
begin

lemma arrives:
  assumes m: "Marshal m = Inr (m', bs)" and len: "length bs < 2 ^ 24"
  obtains msg where "ReadMessage (bs @ rest) = ((Some msg, None), rest)"
    and "msg_Header msg = marshalHeader (header m')" and "msg_Header msg @ msg_Body msg = bs"
proof -
  have l20: "20 \<le> length bs" and u: "unat (announced (bs @ rest)) = length bs"
    using Marshal_length [OF m] announced_Marshal [OF m len] by blast+
  then have "20 \<le> announced (bs @ rest)"
    by (simp add: word_le_nat_alt)
  then obtain msg where r: "ReadMessage (bs @ rest) = ((Some msg, None), rest)"
    and hb: "msg_Header msg = take 20 bs" "msg_Body msg = drop 20 bs"
    using ReadMessage_exact [of "bs @ rest"] u l20 by (simp add: bslice_def)
  moreover have "take 20 bs = marshalHeader (header m')"
    by (subst Marshal_cases(3) [OF m]) simp
  ultimately show thesis
    using that append_take_drop_id [of 20 bs] by metis
qed

end

section \<open>A CEA without an address\<close>

lemma success_CEA_nil:
  assumes "sane_identity host realm" and "product \<noteq> []" and "length product < 2 ^ 20"
  obtains cea bs where "CEA_Marshal (success_CEA hbh e2e host realm product vendor [[]]) = Inr (cea, bs)"
    and "CEA_Unmarshal bs CEA_zero = Inr (cea\<lparr>cea_HostIpAddress := []\<rparr>)" and "length bs < 2 ^ 24"
    and "cea = (success_CEA hbh e2e host realm product vendor [[]])\<lparr>cea_Header :=
      (cea_Header (success_CEA hbh e2e host realm product vendor [[]]))\<lparr>hdr_Length := word_of_nat (length bs)\<rparr>\<rparr>"
proof -
  let ?a = "success_CEA hbh e2e host realm product vendor"
  have "CEA_Validate (?a [[]]) = None"
    using assms by (simp add: CEA_Validate_def success_CEA_def sane_identity_def)
  then obtain h bs where m: "CEA_Marshal (?a [[]]) = Inr ((?a [[]])\<lparr>cea_Header := h\<rparr>, bs)"
    and l: "length bs = 20 + length (writeAVPs (CEA_writes (?a [[]])))"
    by (rule cea.Marshal_total)
  have len: "length bs < 2 ^ 24"
    using l assms success_CEA_length [of "[]" hbh e2e host realm product vendor] by (simp add: sane_identity_def)
  have skip: "readback CEA_avp (AVPCodeHOSTIPADDRESS, Address [], True) x = x" for x
    by (simp add: readback_def CEA_avp_def with_Address_def Address_methods_def Address_Serialize_def To4_def
        To16_def DecodeAddress_def)
  have "fold (readback CEA_avp) (CEA_writes (?a [[]])) x = fold (readback CEA_avp) (CEA_writes (?a [])) x" for x
    by (simp add: CEA_writes_def success_CEA_def repeated_def skip)
  moreover have "fold (readback CEA_avp) (CEA_writes (?a [])) (CEA_zero\<lparr>cea_Header := h\<rparr>) = (?a [])\<lparr>cea_Header := h\<rparr>"
    by (rule cea.rebuild) (simp add: CEA_faithful_def faithful_FailedAVP_def success_defs)
  ultimately have "CEA_Unmarshal bs CEA_zero = Inr ((?a [])\<lparr>cea_Header := h\<rparr>)"
    using cea.Unmarshal_fold [OF m len] by (simp add: success_defs)
  moreover have "((?a [[]])\<lparr>cea_Header := h\<rparr>)\<lparr>cea_HostIpAddress := []\<rparr> = (?a [])\<lparr>cea_Header := h\<rparr>"
    by (simp add: success_CEA_def)
  ultimately show thesis
    using that [OF m _ len cea.Marshal_cases(2) [OF m]] by simp
qed

section \<open>A CEA with an address from the parser\<close>

text \<open>
  \<^verbatim>\<open>net.ParseIP\<close> returns sixteen bytes for IPv4 too (the mapped form); \<^verbatim>\<open>Serialize\<close> writes such an
  address in the four-byte form, which is what the peer reads.
\<close>

definition wire_address :: "bytes \<Rightarrow> bytes" where
  "wire_address b = (case To4 b of Some ip4 \<Rightarrow> ip4 | None \<Rightarrow> b)"

lemma wire_address_canonical: "length b = 16 \<Longrightarrow> canonical_address (wire_address b) \<and> length (wire_address b) \<le> 16"
  by (auto simp: wire_address_def canonical_address_def dest: To4_length split: option.split)

lemma Address_Serialize_wire: "length b = 16 \<Longrightarrow> Address_Serialize (wire_address b) = Address_Serialize b"
  by (auto simp: wire_address_def Address_Serialize_def To4_def split: option.split)

lemma success_CEA_16:
  assumes "sane_identity host realm" and "product \<noteq> []" and "length product < 2 ^ 20" and "length b = 16"
  obtains cea bs where "CEA_Marshal (success_CEA hbh e2e host realm product vendor [b]) = Inr (cea, bs)"
    and "CEA_Unmarshal bs CEA_zero = Inr (cea\<lparr>cea_HostIpAddress := [wire_address b]\<rparr>)" and "length bs < 2 ^ 24"
    and "cea_ResultCode cea = 2001"
proof -
  let ?a = "success_CEA hbh e2e host realm product vendor"
  have "CEA_Validate (?a [b]) = None"
    using assms by (simp add: CEA_Validate_def success_CEA_def sane_identity_def)
  then obtain h bs where m: "CEA_Marshal (?a [b]) = Inr ((?a [b])\<lparr>cea_Header := h\<rparr>, bs)"
    and l: "length bs = 20 + length (writeAVPs (CEA_writes (?a [b])))"
    by (rule cea.Marshal_total)
  have len: "length bs < 2 ^ 24"
    using l assms success_CEA_length [of b hbh e2e host realm product vendor] by (simp add: sane_identity_def)
  have "readback CEA_avp (AVPCodeHOSTIPADDRESS, Address b, True) x =
      readback CEA_avp (AVPCodeHOSTIPADDRESS, Address (wire_address b), True) x" for x
    by (simp add: readback_def CEA_avp_def Address_methods_def Address_Serialize_wire [OF assms(4)])
  then have "fold (readback CEA_avp) (CEA_writes (?a [b])) x =
      fold (readback CEA_avp) (CEA_writes (?a [wire_address b])) x" for x
    by (simp add: CEA_writes_def success_CEA_def repeated_def)
  moreover have "fold (readback CEA_avp) (CEA_writes (?a [wire_address b])) (CEA_zero\<lparr>cea_Header := h\<rparr>) =
      (?a [wire_address b])\<lparr>cea_Header := h\<rparr>"
    using wire_address_canonical [OF assms(4)]
    by (intro cea.rebuild) (simp add: CEA_faithful_def faithful_FailedAVP_def success_defs)
  ultimately have "CEA_Unmarshal bs CEA_zero = Inr ((?a [wire_address b])\<lparr>cea_Header := h\<rparr>)"
    using cea.Unmarshal_fold [OF m len] by (simp add: success_defs)
  moreover have "((?a [b])\<lparr>cea_Header := h\<rparr>)\<lparr>cea_HostIpAddress := [wire_address b]\<rparr> =
      (?a [wire_address b])\<lparr>cea_Header := h\<rparr>" "cea_ResultCode ((?a [b])\<lparr>cea_Header := h\<rparr>) = 2001"
    by (simp_all add: success_CEA_def)
  ultimately show thesis
    using that [OF m _ len] by simp
qed

section \<open>The handshake\<close>

text \<open>The default CEA, whatever \<^verbatim>\<open>net.ParseIP\<close> makes of the listen address: nothing or sixteen bytes.\<close>

definition parsesIP16 :: "(gostring \<Rightarrow> bytes option) \<Rightarrow> bool" where
  "parsesIP16 parseIP \<longleftrightarrow> (\<forall>s a. parseIP s = Some a \<longrightarrow> length a = 16)"

lemma default_CEA:
  assumes "sane_identity host realm" and "product \<noteq> []" and "length product < 2 ^ 20" and "parsesIP16 parseIP"
  obtains cea cea' out where
    "CEA_Marshal (success_CEA hbh e2e host realm product vendor [parsedAddress parseIP addr]) = Inr (cea, out)"
    and "length out < 2 ^ 24" and "CEA_Unmarshal out CEA_zero = Inr cea'" and "cea_ResultCode cea' = 2001"
    and "cea_HostIpAddress cea' = (case parseIP addr of None \<Rightarrow> [] | Some ip \<Rightarrow> [wire_address ip])"
proof (cases "parseIP addr")
  case None
  obtain cea bs where c: "CEA_Marshal (success_CEA hbh e2e host realm product vendor [[]]) = Inr (cea, bs)"
      "CEA_Unmarshal bs CEA_zero = Inr (cea\<lparr>cea_HostIpAddress := []\<rparr>)" "length bs < 2 ^ 24"
      "cea = (success_CEA hbh e2e host realm product vendor [[]])\<lparr>cea_Header :=
        (cea_Header (success_CEA hbh e2e host realm product vendor [[]]))\<lparr>hdr_Length := word_of_nat (length bs)\<rparr>\<rparr>"
    by (rule success_CEA_nil [OF assms(1-3)])
  then have "cea_ResultCode cea = 2001"
    by (simp add: success_CEA_def)
  then show thesis
    using that [OF _ c(3,2)] c(1) None by (simp add: parsedAddress_def)
next
  case (Some ip)
  then have "length ip = 16"
    using assms(4) by (simp add: parsesIP16_def)
  then obtain cea bs where c: "CEA_Marshal (success_CEA hbh e2e host realm product vendor [ip]) = Inr (cea, bs)"
      "CEA_Unmarshal bs CEA_zero = Inr (cea\<lparr>cea_HostIpAddress := [wire_address ip]\<rparr>)" "length bs < 2 ^ 24"
      "cea_ResultCode cea = 2001"
    by (rule success_CEA_16 [OF assms(1-3)])
  then show thesis
    using that [OF _ c(3,2)] Some by (simp add: parsedAddress_def)
qed

lemma response_Write_written:
  "w_conns w i = Some k \<Longrightarrow> wc_open k \<Longrightarrow> \<not> wc_broken k \<Longrightarrow>
   w_conns (snd (response_Write b i w)) i = Some (k\<lparr>wc_written := wc_written k @ [b]\<rparr>)"
  by (simp add: response_Write_world canWrite_def conn_Write_def)

lemma NewServer_handlers:
  "getHandler \<lparr>cmd_Interface = 0, cmd_Code = 257, cmd_Request = True\<rparr> (NewServer parseIP (Some cfg)) =
     Some (defaultCER parseIP cfg)"
  "getHandler \<lparr>cmd_Interface = 0, cmd_Code = 280, cmd_Request = True\<rparr> (NewServer parseIP (Some cfg)) =
     Some (defaultDWR cfg)"
  "getHandler \<lparr>cmd_Interface = 0, cmd_Code = 282, cmd_Request = True\<rparr> (NewServer parseIP (Some cfg)) =
     Some (defaultDPR cfg)"
  by (simp_all add: getHandler_def NewServer_def sv_HandleFunc_def wrapHandler_def Let_def)

text \<open>
  C13. The capabilities exchange between the client and the server: the CER of \<^verbatim>\<open>performHandshake\<close> is
  read by \<^verbatim>\<open>serve\<close>, dispatched to the default handler, which writes one message to this connection;
  that message is cut from the client's stream, handed to the waiting handshake and accepted. The
  CEA carries a Host-IP-Address only if the listen address is a bare IP address, and then that
  address, an IPv4 one in its four-byte form although \<^verbatim>\<open>net.ParseIP\<close> returned sixteen bytes.
\<close>

theorem server_handshake:
  assumes "CER_Marshal (handshakeCER config (Some ip) hbh e2e) = Inr (cer, cerData)"
    and "length cerData < 2 ^ 24" and "canonical_address ip"
    and "sane_identity (scf_OriginHost (svc_ConnectionConfig cfg)) (scf_OriginRealm (svc_ConnectionConfig cfg))"
    and "scf_ProductName (svc_ConnectionConfig cfg) \<noteq> []" and "length (scf_ProductName (svc_ConnectionConfig cfg)) < 2 ^ 20"
    and "parsesIP16 parseIP"
    and "w_conns w i = Some k" and "wc_open k" and "\<not> wc_broken k" and "c_pending c hbh = Some None"
  shows "\<exists>m h w1 w2 out cea msg. ReadMessage (cerData @ rest) = ((Some m, None), rest) \<and>
    serveMessage (NewServer parseIP (Some cfg)) m w = (Some h, w1) \<and> h m i w1 = (Returned, w2) \<and>
    w_conns w2 i = Some (k\<lparr>wc_written := wc_written k @ [out]\<rparr>) \<and>
    CEA_Unmarshal out CEA_zero = Inr cea \<and>
    cea_HostIpAddress cea = (case parseIP (svc_ListenAddress cfg) of None \<Rightarrow> [] | Some a \<Rightarrow> [wire_address a]) \<and>
    ReadMessage (out @ rest') = ((Some msg, None), rest') \<and>
    dispatchMessage now msg c = (None, c\<lparr>c_pending := (c_pending c)(hbh \<mapsto> Some out)\<rparr>) \<and>
    handleCEA out = None"
proof -
  let ?m = "handshakeCER config (Some ip) hbh e2e" and ?cc = "svc_ConnectionConfig cfg"
  have f: "CER_faithful ?m" and h: "hdr_CommandCode (cer_Header ?m) = 257" "hdr_ApplicationID (cer_Header ?m) = 0"
      "fl_Request (hdr_Flags (cer_Header ?m))" "hdr_HopByHopID (cer_Header ?m) = hbh"
    using assms(3) by (simp_all add: CER_faithful_def handshakeCER_def new_defs Let_def)
  have hd: "cer_Header cer = (cer_Header ?m)\<lparr>hdr_Length := word_of_nat (length cerData)\<rparr>"
    using cer.Marshal_cases(2) [OF assms(1)] by simp
  obtain m where m: "ReadMessage (cerData @ rest) = ((Some m, None), rest)"
      "msg_Header m = marshalHeader (cer_Header cer)" "msg_Header m @ msg_Body m = cerData"
    by (rule cer.arrives [OF assms(1,2)])
  have u: "CER_Unmarshal (msg_Header m @ msg_Body m) CER_zero = Inr cer"
    using cer.Unmarshal_Marshal [OF assms(1) f assms(2)] m(3) h by simp
  define w1 where "w1 = snd (serveMessage (NewServer parseIP (Some cfg)) m w)"
  have s: "serveMessage (NewServer parseIP (Some cfg)) m w = (Some (defaultCER parseIP cfg), w1)"
    using m(2) h by (simp add: w1_def serveMessage_def ParseCommand_marshalHeader hd NewServer_handlers Let_def)
  have "w_conns w1 = w_conns w"
    by (simp add: w1_def serveMessage_def updStats_def Let_def split: sum.split)
  then have k: "w_conns w1 i = Some k"
    using assms(8) by simp
  obtain cea cea' out where c: "CEA_Marshal (success_CEA (hdr_HopByHopID (cer_Header cer))
      (hdr_EndToEndID (cer_Header cer)) (scf_OriginHost ?cc) (scf_OriginRealm ?cc) (scf_ProductName ?cc) 10415
      [parsedAddress parseIP (svc_ListenAddress cfg)]) = Inr (cea, out)"
    "length out < 2 ^ 24" "CEA_Unmarshal out CEA_zero = Inr cea'" "cea_ResultCode cea' = 2001"
    "cea_HostIpAddress cea' = (case parseIP (svc_ListenAddress cfg) of None \<Rightarrow> [] | Some a \<Rightarrow> [wire_address a])"
    by (rule default_CEA [where parseIP = parseIP and addr = "svc_ListenAddress cfg", OF assms(4-7)])
  have r: "defaultCER parseIP cfg m i w1 = (Returned, snd (response_Write out i w1))"
    using u c(1) by (simp add: defaultCER_def marshalled_def Let_def)
  obtain msg where "ReadMessage (out @ rest') = ((Some msg, None), rest')"
    "dispatchMessage now msg c = (None, c\<lparr>c_pending := (c_pending c)(hbh \<mapsto> Some out)\<rparr>)"
    using cea.answer_dispatched [OF c(1,2), of c rest' now] assms(11) hd h(4)
    by (auto simp: success_CEA_def new_defs)
  moreover have "handleCEA out = None"
    using c(3,4) by (simp add: handleCEA_def IsSuccess_def)
  ultimately show ?thesis
    using m(1) s r c(3,5) response_Write_written [OF k assms(9,10), of out] by blast
qed

text \<open>A parser that knows two addresses, in the form \<^verbatim>\<open>net.ParseIP\<close> gives them.\<close>

definition example_parseIP :: "gostring \<Rightarrow> bytes option" where
  "example_parseIP s =
     (if s = gostr ''127.0.0.1'' then Some (v4InV6Prefix @ [127, 0, 0, 1])
      else if s = gostr ''::1'' then Some (replicate 15 0 @ [1])
      else None)"

definition bare_config :: ServerConfig where
  "bare_config = DefaultServerConfig\<lparr>svc_ListenAddress := gostr ''127.0.0.1''\<rparr>"

lemma example_parseIP:
  "parsesIP16 example_parseIP"
  "(case example_parseIP (svc_ListenAddress bare_config) of None \<Rightarrow> [] | Some a \<Rightarrow> [wire_address a]) =
     [[127, 0, 0, 1]]"
  by (simp_all add: parsesIP16_def example_parseIP_def bare_config_def wire_address_def To4_def)

theorem server_handshake_witness:
  "\<exists>cer cerData m h w1 w2 out cea.
     CER_Marshal (handshakeCER (demo_config True) (Some [127, 0, 0, 1]) 1 1) = Inr (cer, cerData) \<and>
     serveMessage (NewServer example_parseIP (Some bare_config)) m (vs_world example_run) = (Some h, w1) \<and>
     h m 0 w1 = (Returned, w2) \<and> CEA_Unmarshal out CEA_zero = Inr cea \<and>
     cea_HostIpAddress cea = [[127, 0, 0, 1]] \<and>
     handleCEA out = None"
proof -
  let ?m = "handshakeCER (demo_config True) (Some [127, 0, 0, 1]) 1 1"
  note defs = handshakeCER_def demo_config_def new_defs Let_def
  have v: "CER_Validate ?m = None"
    by (simp add: CER_Validate_def defs)
  have w: "length (writeAVPs (CER_writes ?m)) \<le> 1000"
    by (simp add: CER_writes_def defs wire_length Address_methods_def length_Address_Serialize_v4)
  obtain hd bs where m: "CER_Marshal ?m = Inr (?m\<lparr>cer_Header := hd\<rparr>, bs)"
    and l: "length bs = 20 + length (writeAVPs (CER_writes ?m))"
    using cer.Marshal_total [OF v] by blast
  obtain k where k: "w_conns (vs_world example_run) 0 = Some k" "wc_open k" "\<not> wc_broken k"
    using example_run(5) by (auto simp: canWrite_def split: option.splits)
  have p: "c_pending (registerPending 1 example_conn) 1 = Some None"
    by (simp add: registerPending_def)
  have cfg: "sane_identity (scf_OriginHost (svc_ConnectionConfig bare_config))
      (scf_OriginRealm (svc_ConnectionConfig bare_config))"
    "scf_ProductName (svc_ConnectionConfig bare_config) \<noteq> []"
    "length (scf_ProductName (svc_ConnectionConfig bare_config)) < 2 ^ 20"
    by (simp_all add: bare_config_def DefaultServerConfig_def sc_DefaultConfig_def sane_identity_def gostr_def)
  have bs: "length bs < 2 ^ 24" and ip: "canonical_address [127, 0, 0, 1]"
    using l w by (simp_all add: canonical_address_def)
  show ?thesis
    using server_handshake [where rest = "[]" and rest' = "[]" and now = 0, OF m bs ip cfg example_parseIP(1) k p]
      m unfolding example_parseIP(2) by fastforce
qed

end
