(* ===== verification/Middleware.thy ===== *)
theory Middleware
  imports Diam_Server
begin

text \<open>
  The middlewares of \<^verbatim>\<open>server/middleware.go\<close> as functions on handlers. Logging, metrics and context only
  write log records and pass the call on. The lemmas show that all of them keep the contract of
  handlers, in which order registered middlewares run, what recovery and time limits do to a panic,
  and how many requests the rate limiter lets through.
\<close>

section \<open>The middlewares\<close>

definition LoggingMiddleware :: middleware where
  "LoggingMiddleware next msg i w = next msg i w"

definition MetricsMiddleware :: middleware where
  "MetricsMiddleware next msg i w = next msg i w"

definition ContextMiddleware :: middleware where
  "ContextMiddleware next msg i w = next msg i w"

definition RecoveryMiddleware :: middleware where
  "RecoveryMiddleware next msg i w =
     (case next msg i w of
        (Panicked, w') \<Rightarrow> (Returned, updStats addError w')
      | (out, w') \<Rightarrow> (out, w'))"

text \<open>Times are in nanoseconds. One call of the limiter under its mutex: whether it passes.\<close>

definition rateAdmit :: "int \<Rightarrow> int \<Rightarrow> limiter \<Rightarrow> bool \<times> limiter" where
  "rateAdmit maxRequestsPerSecond now l =
     (let l1 = (if now - lim_lastReset l \<ge> 1000000000
                then \<lparr>lim_lastReset = now, lim_requestCount = 0\<rparr> else l);
          l2 = l1\<lparr>lim_requestCount := lim_requestCount l1 + 1\<rparr>
      in (\<not> lim_requestCount l2 > maxRequestsPerSecond, l2))"

definition RateLimitMiddleware :: "nat \<Rightarrow> int \<Rightarrow> middleware" where
  "RateLimitMiddleware k maxRequestsPerSecond next msg i w =
     (let (pass, l) = rateAdmit maxRequestsPerSecond (w_now w) (w_limiters w k);
          w1 = w\<lparr>w_limiters := (w_limiters w)(k := l)\<rparr>
      in if \<not> pass then (Returned, w1) else next msg i w1)"

definition ValidationMiddleware :: middleware where
  "ValidationMiddleware next msg i w =
     (if msg_Length msg < 20 then (Returned, updStats addError w)
      else if length (msg_Header msg) \<noteq> 20 then (Returned, updStats addError w)
      else case ParseCommand (msg_Header msg) of
             Inl err \<Rightarrow> (Returned, updStats addError w)
           | Inr cmd \<Rightarrow>
               if cmd_Code cmd = 0 then (Returned, updStats addError w) else next msg i w)"

text \<open>
  The handler runs in a goroutine of its own, which has no \<^verbatim>\<open>recover\<close>. The \<^verbatim>\<open>select\<close> only decides how
  long the caller waits for it; the work of the handler is the same when it is late.
\<close>

definition TimeoutMiddleware :: middleware where
  "TimeoutMiddleware next msg i w =
     (case next msg i w of (Returned, w') \<Rightarrow> (Returned, w') | (_, w') \<Rightarrow> (Crashed, w'))"

text \<open>A command code that the map does not hold reads as false.\<close>

definition CommandFilterMiddleware :: "(int \<rightharpoonup> bool) \<Rightarrow> middleware" where
  "CommandFilterMiddleware allowedCommands next msg i w =
     (case ParseCommand (msg_Header msg) of
        Inl err \<Rightarrow> (Returned, w)
      | Inr cmd \<Rightarrow>
          if allowedCommands (cmd_Code cmd) \<noteq> Some True then (Returned, w) else next msg i w)"

definition ChainMiddleware :: "middleware list \<Rightarrow> middleware" where
  "ChainMiddleware middlewares next = wrapFrom (length middlewares) middlewares next"

definition ConditionalMiddleware :: "(Message \<Rightarrow> nat \<Rightarrow> bool) \<Rightarrow> middleware \<Rightarrow> middleware" where
  "ConditionalMiddleware condition mw next msg i w =
     (if condition msg i then mw next msg i w else next msg i w)"

definition commandTest :: "(Command \<Rightarrow> bool) \<Rightarrow> Message \<Rightarrow> nat \<Rightarrow> bool" where
  "commandTest test msg i = (case ParseCommand (msg_Header msg) of Inl err \<Rightarrow> False | Inr cmd \<Rightarrow> test cmd)"

definition InterfaceSpecificMiddleware :: "int \<Rightarrow> middleware \<Rightarrow> middleware" where
  "InterfaceSpecificMiddleware interfaceID = ConditionalMiddleware (commandTest (\<lambda>cmd. cmd_Interface cmd = interfaceID))"

definition CommandSpecificMiddleware :: "int \<Rightarrow> middleware \<Rightarrow> middleware" where
  "CommandSpecificMiddleware commandCode = ConditionalMiddleware (commandTest (\<lambda>cmd. cmd_Code cmd = commandCode))"

definition RequestOnlyMiddleware :: "middleware \<Rightarrow> middleware" where
  "RequestOnlyMiddleware = ConditionalMiddleware (commandTest cmd_Request)"

definition AnswerOnlyMiddleware :: "middleware \<Rightarrow> middleware" where
  "AnswerOnlyMiddleware = ConditionalMiddleware (commandTest (\<lambda>cmd. \<not> cmd_Request cmd))"

section \<open>They keep the contract of handlers\<close>

lemma server_middlewareI:
  "(\<And>h m i w. (\<And>m i w. handler_effect w (snd (h m i w))) \<Longrightarrow> handler_effect w (snd (mw h m i w))) \<Longrightarrow>
   server_middleware mw"
  by (simp add: server_middleware_def server_handler_def)

interpretation logging: server_middleware LoggingMiddleware
  by (rule server_middlewareI) (simp add: LoggingMiddleware_def)

interpretation metrics: server_middleware MetricsMiddleware
  by (rule server_middlewareI) (simp add: MetricsMiddleware_def)

interpretation ctx: server_middleware ContextMiddleware
  by (rule server_middlewareI) (simp add: ContextMiddleware_def)

interpretation recovery: server_middleware RecoveryMiddleware
proof (rule server_middlewareI)
  fix h :: handler and m i w
  assume "\<And>m i w. handler_effect w (snd (h m i w))"
  then have "handler_effect w (snd (h m i w))" .
  then show "handler_effect w (snd (RecoveryMiddleware h m i w))"
    by (auto simp: RecoveryMiddleware_def intro: he_error split: prod.splits outcome.splits)
qed

interpretation rate: server_middleware "RateLimitMiddleware k limit" for k limit
proof (rule server_middlewareI)
  fix h :: handler and m i w
  assume h: "\<And>m i w. handler_effect w (snd (h m i w))"
  have "handler_effect w (w\<lparr>w_limiters := l\<rparr>)" for l
    by (rule he_limit [OF he_none])
  then show "handler_effect w (snd (RateLimitMiddleware k limit h m i w))"
    using handler_effect_trans [OF h] by (auto simp: RateLimitMiddleware_def Let_def split: prod.split)
qed

interpretation validation: server_middleware ValidationMiddleware
  by (rule server_middlewareI)
    (auto simp: ValidationMiddleware_def intro: handler_effect.intros split: sum.split)

interpretation timeout: server_middleware TimeoutMiddleware
proof (rule server_middlewareI)
  fix h :: handler and m i w
  assume "\<And>m i w. handler_effect w (snd (h m i w))"
  then have "handler_effect w (snd (h m i w))" .
  then show "handler_effect w (snd (TimeoutMiddleware h m i w))"
    by (auto simp: TimeoutMiddleware_def split: prod.splits outcome.splits)
qed

interpretation filtering: server_middleware "CommandFilterMiddleware allowed" for allowed
  by (rule server_middlewareI)
    (auto simp: CommandFilterMiddleware_def intro: handler_effect.intros split: sum.split)

context server_middleware
begin

lemma conditional: "server_middleware (ConditionalMiddleware condition mw)"
  using wraps by (auto simp: server_middleware_def server_handler_def ConditionalMiddleware_def)

end

lemma chain_keeps_contract:
  "\<forall>mw \<in> set ms. server_middleware mw \<Longrightarrow> server_middleware (ChainMiddleware ms)"
  unfolding server_middleware_def [of "ChainMiddleware ms"]
  by (simp add: ChainMiddleware_def wrapFrom_foldr wrapped_is_handler)

lemma getHandler_foldr:
  "getHandler cmd s = map_option (foldr (\<lambda>mw h. mw h) (sv_middlewares s)) (sv_HandlerMux s cmd)"
  by (simp add: getHandler_def wrapHandler_def wrapFrom_foldr split: option.split)

text \<open>
  Registered middlewares run in the order in which they were registered, the first outermost,
  around those the server already had, and registering a chain is the same as registering its
  members one by one.
\<close>

theorem Use_order:
  "getHandler cmd (fold Use ms s) =
     map_option (foldr (\<lambda>mw h. mw h) (sv_middlewares s @ ms)) (sv_HandlerMux s cmd) \<and>
   getHandler cmd (Use (ChainMiddleware ms) s) = getHandler cmd (fold Use ms s)"
proof -
  have f: "sv_middlewares (fold Use ms s) = sv_middlewares s @ ms \<and>
      sv_HandlerMux (fold Use ms s) = sv_HandlerMux s" for ms s
    by (induction ms arbitrary: s) (simp_all add: Use_def)
  then show ?thesis
    by (cases "sv_HandlerMux s cmd") (simp_all add: getHandler_foldr ChainMiddleware_def Use_def wrapFrom_foldr)
qed

text \<open>
  What protects the process: \<^verbatim>\<open>serve\<close> runs every handler in a goroutine without \<^verbatim>\<open>recover\<close>, so a
  panic of the handler ends the process; with the recovery middleware around it the call returns
  unless a goroutine of its own crashed; with the time limit between the two, recovery is useless
  and again every panic of the handler ends the process.
\<close>

theorem recovery_protects:
  "(fst (goHandler h m i w) = Returned \<longleftrightarrow> fst (h m i w) = Returned) \<and>
   (fst (goHandler (RecoveryMiddleware h) m i w) = Returned \<longleftrightarrow> fst (h m i w) \<noteq> Crashed) \<and>
   (fst (goHandler (RecoveryMiddleware (TimeoutMiddleware h)) m i w) = Returned \<longleftrightarrow> fst (h m i w) = Returned)"
  by (auto simp: goHandler_def RecoveryMiddleware_def TimeoutMiddleware_def split: prod.splits outcome.splits)

text \<open>
  Validation lets every message through that \<^verbatim>\<open>ReadMessage\<close> returned, except those of command code 0.
\<close>

theorem validation_passes_read_messages:
  assumes "ReadMessage r = ((Some m, None), rest)"
  shows "\<exists>cmd. ParseCommand (msg_Header m) = Inr cmd \<and> ValidationMiddleware next m i w =
    (if cmd_Code cmd = 0 then (Returned, updStats addError w) else next m i w)"
proof -
  have "20 \<le> msg_Length m" "length (msg_Header m) = 20"
    using assms by (auto simp: ReadMessage_def readHeader_def readBody_def ReadFull_def Let_def not_less
        split: if_splits sum.splits prod.splits)
  then show ?thesis
    by (auto simp: ValidationMiddleware_def ParseCommand_def Let_def)
qed

section \<open>The rate limiter\<close>

fun rateRun :: "int \<Rightarrow> int list \<Rightarrow> limiter \<Rightarrow> nat" where
  "rateRun limit [] l = 0"
| "rateRun limit (t # ts) l =
     (let (pass, l') = rateAdmit limit t l in (if pass then 1 else 0) + rateRun limit ts l')"

text \<open>The middleware admits calls as \<open>rateAdmit\<close> does, whatever the handler does in between.\<close>

lemma rate_passed:
  "RateLimitMiddleware k limit next m i w =
     (let (pass, l) = rateAdmit limit (w_now w) (w_limiters w k); w1 = w\<lparr>w_limiters := (w_limiters w)(k := l)\<rparr>
      in if pass then next m i w1 else (Returned, w1))"
  by (simp add: RateLimitMiddleware_def Let_def split: prod.split)

lemma rate_no_reset:
  assumes "\<forall>t \<in> set ts. t - lim_lastReset l < 1000000000"
  shows "int (rateRun limit ts l) \<le> max 0 (limit - lim_requestCount l)"
  using assms
proof (induction ts arbitrary: l)
  case (Cons t ts)
  let ?l = "l\<lparr>lim_requestCount := lim_requestCount l + 1\<rparr>"
  have "rateAdmit limit t l = (\<not> lim_requestCount l + 1 > limit, ?l)"
    using Cons.prems by (simp add: rateAdmit_def Let_def)
  then show ?case
    using Cons.IH [of ?l] Cons.prems by (auto simp: max_def split: if_splits)
qed simp

text \<open>
  The rate limiter counts in fixed windows: of any calls that fall into one second at most
  twice the configured number passes, and at most that number when no window ends among them.
\<close>

theorem rate_limit_bound:
  assumes "\<forall>t \<in> set ts. t0 \<le> t \<and> t < t0 + 1000000000" and "0 \<le> limit" and "0 \<le> lim_requestCount l"
  shows "int (rateRun limit ts l) \<le> 2 * limit \<and>
    ((\<forall>t \<in> set ts. t - lim_lastReset l < 1000000000) \<longrightarrow> int (rateRun limit ts l) \<le> limit)"
proof -
  have "\<forall>t \<in> set ts. t0 \<le> t \<and> t < t0 + 1000000000 \<Longrightarrow> 0 \<le> lim_requestCount l \<Longrightarrow>
      int (rateRun limit ts l) \<le> max 0 (limit - lim_requestCount l) + limit" for l
  proof (induction ts arbitrary: l)
    case (Cons t ts)
    show ?case
    proof (cases "t - lim_lastReset l \<ge> 1000000000")
      case True
      let ?l = "\<lparr>lim_lastReset = t, lim_requestCount = 1\<rparr>"
      have a: "rateAdmit limit t l = (\<not> 1 > limit, ?l)"
        using True by (auto simp: rateAdmit_def Let_def)
      have "int (rateRun limit ts ?l) \<le> max 0 (limit - 1)"
        using rate_no_reset [of ts ?l limit] Cons.prems by force
      then show ?thesis
        using a assms(2) by (auto simp: max_def split: if_splits)
    next
      case False
      let ?l = "l\<lparr>lim_requestCount := lim_requestCount l + 1\<rparr>"
      have "rateAdmit limit t l = (\<not> lim_requestCount l + 1 > limit, ?l)"
        using False by (simp add: rateAdmit_def Let_def)
      then show ?thesis
        using Cons.IH [of ?l] Cons.prems by (auto simp: max_def split: if_splits)
    qed
  qed (use assms(2) in simp)
  then show ?thesis
    using assms rate_no_reset [of ts l limit] by (fastforce simp: max_def split: if_splits)
qed

theorem rate_limit_bound_witness:
  "int (rateRun 1 [999999999, 1000000000] \<lparr>lim_lastReset = 0, lim_requestCount = 0\<rparr>) = 2"
  using rate_limit_bound [of "[999999999, 1000000000]" 999999999 1 "\<lparr>lim_lastReset = 0, lim_requestCount = 0\<rparr>"]
  by (simp add: rateAdmit_def)

end
