(* ===== verification/Serve_Loop.thy ===== *)
theory Serve_Loop
  imports Diam_Server
begin

text \<open>
  The loop of \<^verbatim>\<open>serve\<close> (\<^verbatim>\<open>server/server.go\<close>) on the whole stream of a connection. Nothing in the code
  bounds it, so it is a partial function; the theorem shows that it returns on every stream that
  ends, after cutting it into messages, and which handlers it has started.
\<close>

text \<open>
  The handlers started so far are collected in order; they run in goroutines of their own. \<open>w\<close> is
  the world as this goroutine changes it.
\<close>

partial_function (option) serve ::
  "Server \<Rightarrow> nat \<Rightarrow> bytes \<Rightarrow> (handler \<times> Message) list \<Rightarrow> server_world \<Rightarrow>
   ((handler \<times> Message) list \<times> server_world) option" where
  "serve s i r started w =
     (case ReadMessage r of
        ((m, Some err), r') \<Rightarrow> Some (started, serveEnd err i w)
      | ((None, None), r') \<Rightarrow> None
      | ((Some m, None), r') \<Rightarrow>
          (case serveMessage s m w of
             (None, w1) \<Rightarrow> serve s i r' started w1
           | (Some h, w1) \<Rightarrow> serve s i r' (started @ [(goHandler h, m)]) w1))"

declare serve.simps [code]

lemma ReadFull_split: "ReadFull r n = (Inr bs, r') \<Longrightarrow> r = bs @ r' \<and> length bs = n"
  by (auto simp: ReadFull_def split: if_splits)

lemma ReadMessage_split:
  assumes "ReadMessage r = ((Some m, None), r')"
  shows "r = msg_Header m @ msg_Body m @ r'" and "length (msg_Header m) = 20"
  using assms
  by (auto simp: ReadMessage_def readHeader_def readBody_def Let_def dest!: ReadFull_split
      split: sum.splits prod.splits if_splits)

lemma ReadMessage_result: "fst (ReadMessage r) \<noteq> (None, None)"
  by (simp add: ReadMessage_def split: sum.split prod.split)

text \<open>What the messages of a stream do to the world, and the handlers they start.\<close>

definition servedWorld :: "Server \<Rightarrow> Message list \<Rightarrow> server_world \<Rightarrow> server_world" where
  "servedWorld s ms w = fold (\<lambda>m w. snd (serveMessage s m w)) ms w"

definition startedBy :: "Server \<Rightarrow> Message \<Rightarrow> (handler \<times> Message) list" where
  "startedBy s m = (case ParseCommand (msg_Header m) of Inl err \<Rightarrow> []
     | Inr cmd \<Rightarrow> (case getHandler cmd s of None \<Rightarrow> [] | Some h \<Rightarrow> [(goHandler h, m)]))"

lemma serveMessage_starts:
  "(case fst (serveMessage s m w) of None \<Rightarrow> [] | Some h \<Rightarrow> [(goHandler h, m)]) = startedBy s m"
  by (simp add: serveMessage_def startedBy_def Let_def split: sum.split option.split)

lemma serve_stream:
  "\<exists>ms rest m err. r = concat (map (\<lambda>m. msg_Header m @ msg_Body m) ms) @ rest \<and>
     fst (ReadMessage rest) = (m, Some err) \<and> list_all (\<lambda>m. length (msg_Header m) = 20) ms \<and>
     serve s i r started w = Some (started @ concat (map (startedBy s) ms), serveEnd err i (servedWorld s ms w))"
proof (induction "length r" arbitrary: r started w rule: less_induct)
  case less
  obtain res r' where rm: "ReadMessage r = (res, r')"
    by (cases "ReadMessage r")
  consider m err where "res = (m, Some err)" | m where "res = (Some m, None)"
    using ReadMessage_result [of r] rm by (cases res) (metis fst_conv not_Some_eq)
  then show ?case
  proof cases
    case 1
    then show ?thesis
      using rm by (intro exI [of _ "[] :: Message list"] exI [of _ r] exI [of _ m] exI [of _ err])
        (simp add: serve.simps servedWorld_def split: option.split)
  next
    case 2
    then have sp: "r = msg_Header m @ msg_Body m @ r'" "length (msg_Header m) = 20"
      using ReadMessage_split rm by simp_all
    obtain h w1 where sm: "serveMessage s m w = (h, w1)"
      by (cases "serveMessage s m w")
    define started1 where "started1 = started @ startedBy s m"
    have step: "serve s i r started w = serve s i r' started1 w1"
      using rm 2 sm serveMessage_starts [where s = s and m = m and w = w]
      by (subst serve.simps) (cases h; simp add: started1_def)
    have "length r' < length r"
      by (subst sp(1)) (simp add: sp(2))
    then obtain ms rest m' err where ih: "r' = concat (map (\<lambda>m. msg_Header m @ msg_Body m) ms) @ rest"
      "fst (ReadMessage rest) = (m', Some err)" "list_all (\<lambda>m. length (msg_Header m) = 20) ms"
      "serve s i r' started1 w1 =
        Some (started1 @ concat (map (startedBy s) ms), serveEnd err i (servedWorld s ms w1))"
      using less.hyps [of r' started1 w1] by blast
    have "serve s i r started w = Some (started @ concat (map (startedBy s) (m # ms)),
        serveEnd err i (servedWorld s (m # ms) w))"
      unfolding step ih(4) by (simp add: started1_def servedWorld_def sm)
    moreover have "r = concat (map (\<lambda>m. msg_Header m @ msg_Body m) (m # ms)) @ rest"
      using sp(1) ih(1) by simp
    moreover have "list_all (\<lambda>m. length (msg_Header m) = 20) (m # ms)"
      using sp(2) ih(3) by simp
    ultimately show ?thesis
      using ih(2) by (intro exI conjI)
  qed
qed

text \<open>
  C14. \<^verbatim>\<open>serve\<close> returns on every stream: it cuts the stream into messages up to a rest that holds no
  complete message, starts the handlers of these messages in the order of the stream, counts each
  of them, and ends with the error of the rest. It reads at most one message per 20 bytes.
\<close>

theorem serve_terminates:
  "\<exists>ms rest m err. r = concat (map (\<lambda>m. msg_Header m @ msg_Body m) ms) @ rest \<and>
     fst (ReadMessage rest) = (m, Some err) \<and> 20 * length ms \<le> length r \<and>
     serve s i r [] w = Some (concat (map (startedBy s) ms), serveEnd err i (servedWorld s ms w))"
proof -
  obtain ms rest m err where s: "r = concat (map (\<lambda>m. msg_Header m @ msg_Body m) ms) @ rest"
      "fst (ReadMessage rest) = (m, Some err)" "list_all (\<lambda>m. length (msg_Header m) = 20) ms"
      "serve s i r [] w = Some ([] @ concat (map (startedBy s) ms), serveEnd err i (servedWorld s ms w))"
    using serve_stream [of r s i "[]" w] by blast
  have "20 * length ms \<le> length (concat (map (\<lambda>m. msg_Header m @ msg_Body m) ms))"
    using s(3) by (induction ms) simp_all
  also have "\<dots> \<le> length r"
    by (subst s(1)) simp
  finally show ?thesis
    using s(1,2,4) by auto
qed

end
