(* ===== verification/Recovery.thy ===== *)
theory Recovery
  imports Peering
begin

text \<open>
  Recovery of a client connection (\<^verbatim>\<open>reconnect\<close> in \<^verbatim>\<open>client/connection.go\<close>) against the agent of \<^verbatim>\<open>dra/\<close>.
  The step relation of the client and the handlers of the agent are composed: whenever the
  reconnect loop waits, there is a run on which its next attempt succeeds. On every run the loop
  stays alive until it has opened the connection or the connection is closed.
\<close>

section \<open>A configuration that makes a valid CER\<close>




section \<open>One attempt\<close>

abbreviation sys_steps :: "sys \<Rightarrow> sys \<Rightarrow> bool" where
  "sys_steps \<equiv> sys_step\<^sup>*\<^sup>*"







section \<open>The loop does not give up\<close>

lemma failWith_loop: "sy_pc y Reconnector \<noteq> Idle \<Longrightarrow> sy_pc (failWith e y) Reconnector \<noteq> Idle"
  by (simp add: failWith_def split: prod.split bool.split)

lemma connectFailed_loop: "sy_pc y Reconnector \<noteq> Idle \<Longrightarrow> sy_pc (connectFailed w e c y) Reconnector \<noteq> Idle"
  by (cases w) (simp_all add: connectFailed_def failWith_loop Let_def)

lemma loop_ends:
  assumes "sys_step y y'" and "sy_pc y Reconnector \<noteq> Idle" and "sy_pc y' Reconnector = Idle"
  shows "c_ctxDone (sy_c y') \<or> c_state (sy_c y') = StateOpen"
  using assms
proof (cases rule: sys_step.cases)
  case timer_cancelled
  then show ?thesis by (simp add: finishReconnect_def)
next
  case (opened w now)
  then show ?thesis
    using assms(2,3)
    by (cases w) (simp_all add: connectSucceeded_def finishReconnect_def startWatchdog_def setState_def
        split: if_splits)
qed (auto simp: failWith_loop connectFailed_loop handshakeFailed_def split: if_splits)

text \<open>
  The reconnect loop never gives up on its own: on every run from a state in which it is
  alive, it is still alive at the end, or somewhere on the run the connection was opened or its
  context was cancelled. Neither failed attempts nor anything the other goroutines do end it.
\<close>

theorem reconnect_never_gives_up:
  assumes "sy_pc y Reconnector \<noteq> Idle" and "sys_steps y y'"
  shows "sy_pc y' Reconnector \<noteq> Idle \<or>
    (\<exists>z. sys_steps y z \<and> sys_steps z y' \<and> (c_ctxDone (sy_c z) \<or> c_state (sy_c z) = StateOpen))"
  using assms(2)
proof (induction rule: rtranclp_induct)
  case (step u v)
  consider z where "sys_steps y z" "sys_steps z u" "c_ctxDone (sy_c z) \<or> c_state (sy_c z) = StateOpen"
    | "sy_pc u Reconnector \<noteq> Idle"
    using step.IH by blast
  then show ?case
  proof cases
    case 1
    then show ?thesis
      using step.hyps(2) by (meson rtranclp.rtrancl_into_rtrancl)
  next
    case 2
    then show ?thesis
      using loop_ends [OF step.hyps(2)] step.hyps by (meson rtranclp.rtrancl_into_rtrancl rtranclp.rtrancl_refl)
  qed
qed (use assms(1) in simp)

text \<open>A reachable state to start from: the first connection was lost and the first attempt failed.\<close>

lemma waiting_reachable:
  obtains y where "sys_reach (demo_config False) y" and "sy_pc y Reconnector = Wait" and "\<not> c_ctxDone (sy_c y)"
    and "finite (c_sockets (sy_c y))" and "c_config (sy_c y) = demo_config False"
    and "\<not> c_reconnectRequested (sy_c y)"
proof -
  obtain y d where y: "sys_reach (demo_config False) y" "sy_pc y Reconnector = Begin"
    and c: "sy_c y = (NewConnection (demo_config False))\<lparr>c_connGeneration := 2, c_hopByHopID := 1,
       c_endToEndID := 1, c_pending := [1 \<mapsto> None], c_state := StateConnecting, c_sendCh := [d],
       c_lastError := Some ErrIO, c_onFailureCalls := [ErrIO], c_reconnecting := True\<rparr>"
    by (rule first_drop [of False]) blast
  let ?y1 = "at Reconnector (Dial None) (sy_c y) y"
  have 1: "sys_step y ?y1"
    using y(2) by (intro acquire_none) (simp_all add: c NewConnection_def demo_config_def)
  have 2: "sys_step ?y1 (connectFailed Reconnector ErrDial (sy_c ?y1) ?y1)"
    using dial_error [of ?y1 Reconnector None] by simp
  show thesis
    by (rule that [OF sys_reach.step [OF sys_reach.step [OF y(1) 1] 2]])
      (simp_all add: connectFailed_def c NewConnection_def setState_eq)
qed


theorem reconnect_never_gives_up_witness:
  "\<exists>y y'. sys_reach (demo_config False) y \<and> sys_step y y' \<and> sy_pc y Reconnector = Wait \<and>
     (sy_pc y' Reconnector \<noteq> Idle \<or>
      (\<exists>z. sys_steps y z \<and> sys_steps z y' \<and> (c_ctxDone (sy_c z) \<or> c_state (sy_c z) = StateOpen)))"
proof (rule waiting_reachable)
  fix y
  assume y: "sys_reach (demo_config False) y" "sy_pc y Reconnector = Wait" "\<not> c_ctxDone (sy_c y)"
  let ?y1 = "at Reconnector Begin (setState StateConnecting (setState StateReconnecting (sy_c y))) y"
  have s: "sys_step y ?y1"
    using y(2) by (rule timer)
  then have "sys_steps y ?y1"
    by (rule r_into_rtranclp)
  with s show ?thesis
    using reconnect_never_gives_up [of y ?y1] y(1,2) by fastforce
qed

end
