(* ===== verification/Reconnect_Loops.thy ===== *)
theory Reconnect_Loops
  imports Client_Steps "HOL-Library.Multiset"
begin

text \<open>
  The reconnect loops of one client connection (\<^verbatim>\<open>client/connection.go\<close>) at the grain of its locks.
  \<^verbatim>\<open>handleFailure\<close> reads the state, the context, the socket and the switch one after the other and acts
  on what it has read; \<^verbatim>\<open>Close\<close> is four sections; any number of callers are under way at the same time,
  and every \<^verbatim>\<open>go c.reconnect()\<close> is a loop of its own. What all other goroutines do (the sections of
  \<^verbatim>\<open>connect\<close>, the read, write and watchdog loops, users) is one step that may change every field but
  the flags \<^verbatim>\<open>reconnecting\<close> and \<^verbatim>\<open>reconnectRequested\<close>, which only the code above writes, and the context;
  that is cancelled by \<^verbatim>\<open>Close\<close> or, in a step of its own, with the context it was made from. \<^verbatim>\<open>close\<close> is one
  section here: its parts do not touch the flags or the context.

  The loops are counted: as long as the context is not cancelled there is exactly one when
  \<^verbatim>\<open>reconnecting\<close> is set and none otherwise; afterwards only the calls of \<^verbatim>\<open>handleFailure\<close> that had
  already passed its check can still start one. A reachable state shows that they do: \<^verbatim>\<open>Close\<close> resets
  \<^verbatim>\<open>reconnecting\<close> while a loop is still running, and the late \<^verbatim>\<open>scheduleReconnect\<close> starts a second one.
  Every run of the coarser relation of \<open>Client_Steps\<close>, where \<^verbatim>\<open>handleFailure\<close> and \<^verbatim>\<open>Close\<close> are one
  step each, is a run of this one.
\<close>

section \<open>Threads\<close>

text \<open>
  Where a call of \<^verbatim>\<open>handleFailure\<close> stands; the arguments are its local variables \<^verbatim>\<open>state\<close> and
  \<^verbatim>\<open>reconnectEnabled\<close>. \<open>HFChecked\<close> and everything after it has passed the check of the context.
\<close>

datatype hf_pc =
    HFEntered
  | HFState ConnectionState
  | HFChecked ConnectionState
  | HFRecorded ConnectionState
  | HFHasConn
  | HFEnabled bool
  | HFFailed bool
  | HFClosed bool
  | HFNotified bool

datatype close_pc = CLEntered | CLState | CLCancelled | CLClosed

datatype loop_pc = LWait | LConnect | LConnected

record loops =
  rl_c :: Connection
  rl_failures :: "(conn_error \<times> hf_pc) multiset"
  rl_closes :: "close_pc multiset"
  rl_loops :: "loop_pc multiset"

definition rl_init :: "DRAConfig \<Rightarrow> loops" where
  "rl_init config = \<lparr>rl_c = NewConnection config, rl_failures = {#}, rl_closes = {#}, rl_loops = {#}\<rparr>"

section \<open>Steps\<close>

text \<open>
  One section of \<^verbatim>\<open>handleFailure\<close>: where the call goes on (\<open>None\<close> when it returns), whether it starts
  a loop, and the connection after it.
\<close>

fun hf_section :: "conn_error \<Rightarrow> hf_pc \<Rightarrow> Connection \<Rightarrow> hf_pc option \<times> bool \<times> Connection" where
  "hf_section err HFEntered c = (Some (HFState (c_state c)), False, c)"
| "hf_section err (HFState state) c =
     (if c_ctxDone c \<or> state = StateClosed then (None, False, c) else (Some (HFChecked state), False, c))"
| "hf_section err (HFChecked state) c = (Some (HFRecorded state), False, c\<lparr>c_lastError := Some err\<rparr>)"
| "hf_section err (HFRecorded state) c =
     (let hasConn = (c_conn c \<noteq> None)
      in if \<not> hasConn \<and> (state = StateFailed \<or> state = StateReconnecting) then (None, False, c)
         else (Some HFHasConn, False, c))"
| "hf_section err HFHasConn c = (Some (HFEnabled (\<not> c_reconnectDisabled c)), False, c)"
| "hf_section err (HFEnabled en) c = (Some (HFFailed en), False, setState StateFailed c)"
| "hf_section err (HFFailed en) c = (Some (HFClosed en), False, close_conn c)"
| "hf_section err (HFClosed en) c = (Some (HFNotified en), False, callOnFailure err c)"
| "hf_section err (HFNotified en) c =
     (if en then (case scheduleReconnect c of (go, c1) \<Rightarrow> (None, go, c1)) else (None, False, c))"

text \<open>One section of \<^verbatim>\<open>Close\<close>, up to waiting for the goroutines.\<close>

fun close_section :: "close_pc \<Rightarrow> Connection \<Rightarrow> close_pc option \<times> Connection" where
  "close_section CLEntered c = (Some CLState, setState StateClosed c)"
| "close_section CLState c = (Some CLCancelled, c\<lparr>c_ctxDone := True\<rparr>)"
| "close_section CLCancelled c = (Some CLClosed, close_conn c)"
| "close_section CLClosed c = (None, snd (finishReconnect False c))"

definition thread_at :: "'p option \<Rightarrow> 'p multiset" where
  "thread_at p = (case p of None \<Rightarrow> {#} | Some q \<Rightarrow> {#q#})"

text \<open>What the rest of the program may do: it never touches the two flags and the context.\<close>

definition elsewhere :: "Connection \<Rightarrow> Connection \<Rightarrow> bool" where
  "elsewhere c c' \<longleftrightarrow> c_reconnecting c' = c_reconnecting c \<and>
     c_reconnectRequested c' = c_reconnectRequested c \<and> c_ctxDone c' = c_ctxDone c"

inductive rl_step :: "loops \<Rightarrow> loops \<Rightarrow> bool" where
  rl_other: "elsewhere (rl_c y) c \<Longrightarrow> rl_step y (y\<lparr>rl_c := c\<rparr>)"
| rl_cancel: "rl_step y (y\<lparr>rl_c := (rl_c y)\<lparr>c_ctxDone := True\<rparr>\<rparr>)"
| rl_failure: "rl_step y (y\<lparr>rl_failures := add_mset (err, HFEntered) (rl_failures y)\<rparr>)"
| rl_handle: "rl_failures y = add_mset (err, p) fs \<Longrightarrow> hf_section err p (rl_c y) = (q, go, c) \<Longrightarrow>
    rl_step y (y\<lparr>rl_c := c, rl_failures := image_mset (Pair err) (thread_at q) + fs,
      rl_loops := (if go then add_mset LWait (rl_loops y) else rl_loops y)\<rparr>)"
| rl_user_close: "rl_step y (y\<lparr>rl_closes := add_mset CLEntered (rl_closes y)\<rparr>)"
| rl_close: "rl_closes y = add_mset p ps \<Longrightarrow> close_section p (rl_c y) = (q, c) \<Longrightarrow>
    rl_step y (y\<lparr>rl_c := c, rl_closes := thread_at q + ps\<rparr>)"
| rl_timer: "rl_loops y = add_mset LWait ls \<Longrightarrow>
    rl_step y (y\<lparr>rl_c := setState StateReconnecting (rl_c y), rl_loops := add_mset LConnect ls\<rparr>)"
| rl_cancelled: "rl_loops y = add_mset LWait ls \<Longrightarrow> c_ctxDone (rl_c y) \<Longrightarrow>
    rl_step y (y\<lparr>rl_c := snd (finishReconnect False (rl_c y)), rl_loops := ls\<rparr>)"
| rl_connect_error: "rl_loops y = add_mset LConnect ls \<Longrightarrow>
    rl_step y (y\<lparr>rl_loops := add_mset LWait ls\<rparr>)"
| rl_connect_ok: "rl_loops y = add_mset LConnect ls \<Longrightarrow>
    rl_step y (y\<lparr>rl_loops := add_mset LConnected ls\<rparr>)"
| rl_finish: "rl_loops y = add_mset LConnected ls \<Longrightarrow> finishReconnect True (rl_c y) = (stop, c) \<Longrightarrow>
    rl_step y (y\<lparr>rl_c := c, rl_loops := (if stop then ls else add_mset LWait ls)\<rparr>)"

abbreviation rl_steps :: "loops \<Rightarrow> loops \<Rightarrow> bool" where
  "rl_steps \<equiv> rl_step\<^sup>*\<^sup>*"

inductive rl_reach :: "DRAConfig \<Rightarrow> loops \<Rightarrow> bool" for config where
  rl_reach_init: "rl_reach config (rl_init config)"
| rl_reach_step: "rl_reach config y \<Longrightarrow> rl_step y y' \<Longrightarrow> rl_reach config y'"

section \<open>Counting the loops\<close>

text \<open>The calls of \<^verbatim>\<open>handleFailure\<close> that have passed the check of the context.\<close>

fun hf_armed :: "hf_pc \<Rightarrow> bool" where
  "hf_armed HFEntered = False"
| "hf_armed (HFState state) = False"
| "hf_armed _ = True"

definition armed :: "loops \<Rightarrow> nat" where
  "armed y = size {#f \<in># rl_failures y. hf_armed (snd f)#}"

definition loops_ok :: "loops \<Rightarrow> bool" where
  "loops_ok y \<longleftrightarrow> c_ctxDone (rl_c y) \<or> size (rl_loops y) = (if c_reconnecting (rl_c y) then 1 else 0) \<and>
     CLCancelled \<notin># rl_closes y \<and> CLClosed \<notin># rl_closes y"

lemma hf_section_ctxDone: "hf_section err p c = (q, go, c') \<Longrightarrow> c_ctxDone c' = c_ctxDone c"
  by (cases p) (auto simp: callOnFailure_def scheduleReconnect_def Let_def split: if_splits)

lemma hf_section_go:
  "hf_section err p c = (q, go, c') \<Longrightarrow> c_reconnecting c' = (c_reconnecting c \<or> go) \<and> (go \<longrightarrow> \<not> c_reconnecting c)"
  by (cases p) (auto simp: callOnFailure_def scheduleReconnect_def Let_def split: if_splits)

lemma hf_section_armed:
  assumes "hf_section err p c = (q, go, c')" and "c_ctxDone c"
  shows "(if go then 1 else 0) + size (filter_mset hf_armed (thread_at q)) \<le> (if hf_armed p then 1 else (0::nat))"
  using assms by (cases p) (auto simp: scheduleReconnect_def Let_def thread_at_def split: if_splits)

lemma filter_armed_image:
  "size {#f \<in># image_mset (Pair err) M. hf_armed (snd f)#} = size (filter_mset hf_armed M)"
  by (induction M) simp_all

lemma loops_ok_step:
  assumes "rl_step y y'" and "loops_ok y"
  shows "loops_ok y'"
  using assms
proof (cases rule: rl_step.cases)
  case (rl_handle err p fs q go c)
  then show ?thesis
    using assms(2) hf_section_ctxDone [OF rl_handle(3)] hf_section_go [OF rl_handle(3)]
    by (auto simp: loops_ok_def)
next
  case (rl_close p ps q c)
  then show ?thesis
    using assms(2) by (cases p) (auto simp: loops_ok_def thread_at_def finishReconnect_def)
qed (auto simp: loops_ok_def elsewhere_def finishReconnect_def split: if_splits)

lemma loops_ok_reach: "rl_reach config y \<Longrightarrow> loops_ok y"
proof (induction rule: rl_reach.induct)
  case rl_reach_init
  then show ?case by (simp add: loops_ok_def rl_init_def NewConnection_def)
qed (rule loops_ok_step)

lemma armed_handle:
  assumes "rl_failures y = add_mset (err, p) fs"
    and "rl_failures y' = image_mset (Pair err) (thread_at q) + fs"
  shows "armed y' + (if hf_armed p then 1 else 0) = armed y + size (filter_mset hf_armed (thread_at q))"
  using assms filter_armed_image [of err "thread_at q"] by (simp add: armed_def)

lemma loops_cancelled_step:
  assumes "rl_step y y'" and "c_ctxDone (rl_c y)"
  shows "c_ctxDone (rl_c y') \<and> size (rl_loops y') + armed y' \<le> size (rl_loops y) + armed y"
  using assms
proof (cases rule: rl_step.cases)
  case (rl_handle err p fs q go c)
  then show ?thesis
    using armed_handle [OF rl_handle(2), of y' q] hf_section_ctxDone [OF rl_handle(3)]
      hf_section_armed [OF rl_handle(3)] assms(2)
    by (auto split: if_splits)
next
  case (rl_close p ps q c)
  then show ?thesis
    using assms(2) by (cases p) (auto simp: armed_def finishReconnect_def)
qed (auto simp: armed_def elsewhere_def finishReconnect_def split: if_splits)

lemma loops_cancelled_steps:
  assumes "rl_steps y z" and "c_ctxDone (rl_c y)"
  shows "c_ctxDone (rl_c z) \<and> size (rl_loops z) + armed z \<le> size (rl_loops y) + armed y"
  using assms
proof (induction rule: rtranclp_induct)
  case (step u v)
  then show ?case
    using loops_cancelled_step [of u v] by force
qed simp


section \<open>The coarse relation is a special case\<close>

definition hf_at :: "conn_error \<Rightarrow> hf_pc \<Rightarrow> Connection \<Rightarrow> loops \<Rightarrow> loops" where
  "hf_at err p c y = y\<lparr>rl_c := c, rl_failures := add_mset (err, p) (rl_failures y)\<rparr>"

definition went :: "bool \<Rightarrow> Connection \<Rightarrow> loops \<Rightarrow> loops" where
  "went go c y = y\<lparr>rl_c := c, rl_loops := (if go then add_mset LWait (rl_loops y) else rl_loops y)\<rparr>"

lemma hf_start: "rl_steps y (hf_at err HFEntered (rl_c y) y)"
  using rl_failure [of y err] by (simp add: hf_at_def r_into_rtranclp)

lemma hf_next:
  assumes "rl_steps y0 (hf_at err p c y)" and "hf_section err p c = (Some q, False, c')"
  shows "rl_steps y0 (hf_at err q c' y)"
  using assms(1) rl_handle [of "hf_at err p c y" err p "rl_failures y" "Some q" False c'] assms(2)
  by (simp add: hf_at_def thread_at_def rtranclp.rtrancl_into_rtrancl)

lemma hf_last:
  assumes "rl_steps y0 (hf_at err p c y)" and "hf_section err p c = (None, go, c')"
  shows "rl_steps y0 (went go c' y)"
proof -
  have "rl_step (hf_at err p c y) (went go c' y)"
    using rl_handle [of "hf_at err p c y" err p "rl_failures y" None go c'] assms(2)
    by (cases go) (simp_all add: hf_at_def went_def thread_at_def)
  with assms(1) show ?thesis
    by (rule rtranclp.rtrancl_into_rtrancl)
qed

lemma hf_to_check: "rl_steps y (hf_at err (HFState (c_state (rl_c y))) (rl_c y) y)"
  by (rule hf_next [OF hf_start]) simp

lemma hf_to_record:
  assumes "\<not> c_ctxDone (rl_c y)" and "c_state (rl_c y) \<noteq> StateClosed"
  shows "rl_steps y (hf_at err (HFRecorded (c_state (rl_c y))) ((rl_c y)\<lparr>c_lastError := Some err\<rparr>) y)"
proof -
  have "rl_steps y (hf_at err (HFChecked (c_state (rl_c y))) (rl_c y) y)"
    by (rule hf_next [OF hf_to_check]) (use assms in simp)
  then show ?thesis
    by (rule hf_next) simp
qed

lemma hf_to_schedule:
  assumes "\<not> c_ctxDone (rl_c y)" and "c_state (rl_c y) \<noteq> StateClosed"
    and "c_conn (rl_c y) \<noteq> None \<or> c_state (rl_c y) \<notin> {StateFailed, StateReconnecting}"
  shows "rl_steps y (hf_at err (HFNotified (\<not> c_reconnectDisabled (rl_c y)))
     (callOnFailure err (close_conn (setState StateFailed ((rl_c y)\<lparr>c_lastError := Some err\<rparr>)))) y)"
proof -
  let ?c1 = "(rl_c y)\<lparr>c_lastError := Some err\<rparr>" and ?en = "\<not> c_reconnectDisabled (rl_c y)"
  have "rl_steps y (hf_at err HFHasConn ?c1 y)"
    by (rule hf_next [OF hf_to_record [OF assms(1,2)]]) (use assms(3) in auto)
  then have "rl_steps y (hf_at err (HFEnabled ?en) ?c1 y)"
    by (rule hf_next) simp
  then have "rl_steps y (hf_at err (HFFailed ?en) (setState StateFailed ?c1) y)"
    by (rule hf_next) simp
  then have "rl_steps y (hf_at err (HFClosed ?en) (close_conn (setState StateFailed ?c1)) y)"
    by (rule hf_next) simp
  then show ?thesis
    by (rule hf_next) simp
qed

text \<open>The sections one after the other, nothing in between, are \<open>handleFailure\<close>.\<close>

lemma handleFailure_run:
  assumes "handleFailure err (rl_c y) = (go, c)"
  shows "rl_steps y (went go c y)"
proof -
  let ?c = "rl_c y" let ?c1 = "?c\<lparr>c_lastError := Some err\<rparr>"
  consider "c_ctxDone ?c \<or> c_state ?c = StateClosed"
    | "\<not> c_ctxDone ?c" "c_state ?c \<noteq> StateClosed" "c_conn ?c = None" "c_state ?c \<in> {StateFailed, StateReconnecting}"
    | "\<not> c_ctxDone ?c" "c_state ?c \<noteq> StateClosed"
      "c_conn ?c \<noteq> None \<or> c_state ?c \<notin> {StateFailed, StateReconnecting}"
    by blast
  then show ?thesis
  proof cases
    case 1
    then have "handleFailure err ?c = (False, ?c)"
      by (auto simp: handleFailure_def Let_def)
    with 1 assms show ?thesis
      by (intro hf_last [OF hf_to_check]) auto
  next
    case 2
    then have "handleFailure err ?c = (False, ?c1)"
      by (auto simp: handleFailure_def Let_def)
    with 2 assms show ?thesis
      by (intro hf_last [OF hf_to_record]) auto
  next
    case 3
    then have "handleFailure err ?c = (let c3 = callOnFailure err (close_conn (setState StateFailed ?c1))
        in if c_reconnectDisabled ?c then (False, c3) else scheduleReconnect c3)"
      by (auto simp: handleFailure_def Let_def)
    with 3 assms show ?thesis
      by (intro hf_last [OF hf_to_schedule]) (auto simp: Let_def)
  qed
qed

lemma Close_run: "rl_steps y (y\<lparr>rl_c := Close (rl_c y)\<rparr>)"
proof -
  let ?at = "\<lambda>p c. y\<lparr>rl_c := c, rl_closes := add_mset p (rl_closes y)\<rparr>"
  have go: "rl_step (?at p c) (?at q c')" if "close_section p c = (Some q, c')" for p q c c'
    using rl_close [of "?at p c" p "rl_closes y" "Some q" c'] that by (simp add: thread_at_def)
  let ?c1 = "setState StateClosed (rl_c y)" let ?c2 = "?c1\<lparr>c_ctxDone := True\<rparr>"
  have "rl_step\<^sup>+\<^sup>+ y (?at CLEntered (rl_c y))"
    using rl_user_close [of y] by simp
  also have "rl_step (?at CLEntered (rl_c y)) (?at CLState ?c1)"
    by (rule go) simp
  also have "rl_step (?at CLState ?c1) (?at CLCancelled ?c2)"
    by (rule go) simp
  also have "rl_step (?at CLCancelled ?c2) (?at CLClosed (close_conn ?c2))"
    by (rule go) simp
  also have "rl_step (?at CLClosed (close_conn ?c2)) (y\<lparr>rl_c := Close (rl_c y)\<rparr>)"
    using rl_close [of "?at CLClosed (close_conn ?c2)" CLClosed "rl_closes y" None "Close (rl_c y)"]
    by (simp add: thread_at_def Close_def Let_def)
  finally show ?thesis
    by (rule tranclp_into_rtranclp)
qed


text \<open>The methods that the other goroutines run leave the two flags and the context alone.\<close>

lemma elsewhere_trans: "elsewhere a b \<Longrightarrow> elsewhere b c \<Longrightarrow> elsewhere a c"
  by (simp add: elsewhere_def)

lemma elsewhere_simple:
  "elsewhere c (setState s c)" "elsewhere c (close_conn c)" "elsewhere c (unregisterPending hbh c)"
  "elsewhere c (ReleaseLocalAddr port c)" "elsewhere c ((setState s c)\<lparr>c_lastError := e\<rparr>)"
  "elsewhere c (startWatchdog ((setState s c)\<lparr>c_lastActivity := t, c_dwrFailureCount := k\<rparr>))"
  by (simp_all add: elsewhere_def unregisterPending_def ReleaseLocalAddr_def startWatchdog_def)

lemma elsewhere_same:
  "c_reconnecting c' = c_reconnecting c \<Longrightarrow> c_reconnectRequested c' = c_reconnectRequested c \<Longrightarrow>
   c_ctxDone c' = c_ctxDone c \<Longrightarrow> elsewhere c c'"
  by (simp add: elsewhere_def)

lemma elsewhere_handshakeSend: "handshakeSend ip c = (r, c') \<Longrightarrow> elsewhere c c'"
  by (auto simp: handshakeSend_def nextHopByHopID_def nextEndToEndID_def registerPending_def
      unregisterPending_def Let_def elsewhere_def split: sum.splits if_splits)

lemma elsewhere_sendDWR: "sendDWR c = (r, c') \<Longrightarrow> elsewhere c c'"
  by (auto simp: sendDWR_def nextHopByHopID_def nextEndToEndID_def registerPending_def
      unregisterPending_def Let_def elsewhere_def split: sum.splits if_splits)

lemma elsewhere_Send: "Send d c = (r, c') \<Longrightarrow> elsewhere c c'"
  by (auto simp: Send_def elsewhere_def split: if_splits)

lemma elsewhere_handleDWA: "handleDWA now d c = (r, c') \<Longrightarrow> elsewhere c c'"
  by (auto simp: handleDWA_def elsewhere_def split: sum.splits if_splits)

lemma elsewhere_readLoopMessage: "elsewhere c (readLoopMessage g now msg c)"
  by (simp add: readLoopMessage_def dispatchMessage_def deliverResponse_def handleDWR_def
      forwardToRecv_def elsewhere_def split: sum.split option.split)

lemmas elsewheres = elsewhere_same elsewhere_simple elsewhere_handshakeSend elsewhere_sendDWR
  elsewhere_Send elsewhere_handleDWA elsewhere_readLoopMessage elsewhere_trans [OF _ elsewhere_simple(3)]

text \<open>A state of the coarse relation as one of the fine relation: no call is half-way.\<close>

fun loops_of :: "pc \<Rightarrow> loop_pc multiset" where
  "loops_of Idle = {#}"
| "loops_of Wait = {#LWait#}"
| "loops_of _ = {#LConnect#}"

definition rl_of :: "sys \<Rightarrow> loops" where
  "rl_of y = \<lparr>rl_c = sy_c y, rl_failures = {#}, rl_closes = {#}, rl_loops = loops_of (sy_pc y Reconnector)\<rparr>"

lemma rl_of_dwrs [simp]: "rl_of (y\<lparr>sy_dwrs := ds\<rparr>) = rl_of y"
  by (simp add: rl_of_def)

lemma sim_other:
  assumes "elsewhere (sy_c y) (sy_c y')"
    and "loops_of (sy_pc y' Reconnector) = loops_of (sy_pc y Reconnector)"
  shows "rl_steps (rl_of y) (rl_of y')"
  using rl_other [of "rl_of y" "sy_c y'"] assms by (simp add: rl_of_def r_into_rtranclp)

lemma sim_here: "elsewhere (sy_c y) c \<Longrightarrow> rl_steps (rl_of y) (rl_of (y\<lparr>sy_c := c\<rparr>))"
  by (rule sim_other) simp_all

lemma sim_at:
  "elsewhere (sy_c y) c \<Longrightarrow> loops_of p = loops_of (sy_pc y w) \<or> w = Starter \<Longrightarrow>
   rl_steps (rl_of y) (rl_of (at w p c y))"
  by (rule sim_other) auto

lemma sim_go:
  assumes "handleFailure e (sy_c y) = (go, c)" and "loop_ok y"
  shows "rl_steps (rl_of y) (rl_of (if go then at Reconnector Wait c y else y\<lparr>sy_c := c\<rparr>))"
proof -
  have "go \<longrightarrow> sy_pc y Reconnector = Idle"
    using loop_step_handleFailure [OF assms(1)] assms(2) by (auto simp: loop_ok_def loop_step_def)
  then have "went go c (rl_of y) = rl_of (if go then at Reconnector Wait c y else y\<lparr>sy_c := c\<rparr>)"
    by (auto simp: went_def rl_of_def)
  then show ?thesis
    using handleFailure_run [of e "rl_of y" go c] assms(1) by (simp add: rl_of_def)
qed

lemma sim_failWith: "loop_ok y \<Longrightarrow> rl_steps (rl_of y) (rl_of (failWith e y))"
  using sim_go [of e y] by (cases "handleFailure e (sy_c y)") (auto simp: failWith_def split: bool.split)

lemma sim_connectFailed:
  assumes "loop_ok y" and "loops_of (sy_pc y w) = {#LConnect#}" and "elsewhere (sy_c y) c"
  shows "rl_steps (rl_of y) (rl_of (connectFailed w e c y))"
proof -
  let ?c1 = "(setState StateFailed c)\<lparr>c_lastError := Some e\<rparr>"
  have c1: "elsewhere (sy_c y) ?c1"
    using elsewhere_trans [OF assms(3)] elsewhere_simple(5) by blast
  show ?thesis
  proof (cases w)
    case Starter
    have "loop_ok (at Starter Finished ?c1 y)"
      using assms(1) c1 by (simp add: loop_ok_def elsewhere_def)
    with sim_at [OF c1, of Finished Starter] show ?thesis
      using sim_failWith rtranclp_trans Starter by (fastforce simp: connectFailed_def Let_def)
  next
    case Reconnector
    have "rl_steps (rl_of y) (rl_of (y\<lparr>sy_c := ?c1\<rparr>))"
      by (rule sim_here [OF c1])
    moreover have "rl_step (rl_of (y\<lparr>sy_c := ?c1\<rparr>)) (rl_of (at Reconnector Wait ?c1 y))"
      using rl_connect_error [of "rl_of (y\<lparr>sy_c := ?c1\<rparr>)" "{#}"] assms(2) Reconnector
      by (simp add: rl_of_def)
    ultimately show ?thesis
      using Reconnector by (simp add: connectFailed_def Let_def rtranclp.rtrancl_into_rtrancl)
  qed
qed

lemma sim_connectSucceeded:
  assumes "loops_of (sy_pc y w) = {#LConnect#}" and "elsewhere (sy_c y) c"
  shows "rl_steps (rl_of y) (rl_of (connectSucceeded w c y))"
proof (cases w)
  case Starter
  then show ?thesis
    using sim_at [OF assms(2), of Finished Starter] by (simp add: connectSucceeded_def)
next
  case Reconnector
  let ?u = "rl_of (y\<lparr>sy_c := c\<rparr>)"
  obtain stop d where f: "finishReconnect True c = (stop, d)"
    by fastforce
  have 1: "rl_steps (rl_of y) ?u"
    by (rule sim_here [OF assms(2)])
  have 2: "rl_step ?u (?u\<lparr>rl_loops := {#LConnected#}\<rparr>)"
    using rl_connect_ok [of ?u "{#}"] assms(1) Reconnector by (simp add: rl_of_def)
  have "rl_step (?u\<lparr>rl_loops := {#LConnected#}\<rparr>) (rl_of (connectSucceeded w c y))"
    using rl_finish [of "?u\<lparr>rl_loops := {#LConnected#}\<rparr>" "{#}" stop d] f Reconnector
    by (cases stop) (simp_all add: rl_of_def connectSucceeded_def)
  with 1 2 show ?thesis
    by (meson rtranclp.rtrancl_into_rtrancl)
qed


lemma sim_handleDWRFailure:
  assumes "handleDWRFailure now e (sy_c y) = (go, c)" and "loop_ok y"
  shows "rl_steps (rl_of y) (rl_of (if go then at Reconnector Wait (unregisterPending hbh c) y
      else y\<lparr>sy_c := unregisterPending hbh c\<rparr>))"
proof -
  let ?c1 = "(sy_c y)\<lparr>c_dwrFailureCount := c_dwrFailureCount (sy_c y) + 1, c_dwrLastFailTime := now\<rparr>"
  let ?y1 = "y\<lparr>sy_c := ?c1\<rparr>"
  let ?on = "\<lambda>d. if go then at Reconnector Wait d y else y\<lparr>sy_c := d\<rparr>"
  have 1: "rl_steps (rl_of y) (rl_of ?y1)"
    by (rule sim_here) (simp add: elsewhere_def)
  have ok: "loop_ok ?y1"
    using assms(2) by (simp add: loop_ok_def)
  have "handleFailure (ErrMaxDWRFailures e) ?c1 = (go, c) \<or> go = False \<and> c = ?c1"
    using assms(1) by (simp add: handleDWRFailure_def Let_def split: if_splits)
  then consider "handleFailure (ErrMaxDWRFailures e) ?c1 = (go, c)" | "go = False" "c = ?c1"
    by blast
  then have 2: "rl_steps (rl_of ?y1) (rl_of (?on c))"
  proof cases
    case 1
    then show ?thesis
      using sim_go [of "ErrMaxDWRFailures e" ?y1 go c] ok by (cases go) (simp_all add: at_def)
  next
    case 2
    then show ?thesis
      by simp
  qed
  have "rl_steps (rl_of (?on c)) (rl_of (?on (unregisterPending hbh c)))"
    by (rule sim_other) (simp_all add: elsewhere_simple)
  with 1 2 show ?thesis
    by (meson rtranclp_trans)
qed

lemma sim_timer:
  assumes "sy_pc y Reconnector = Wait"
  shows "rl_steps (rl_of y)
    (rl_of (at Reconnector Begin (setState StateConnecting (setState StateReconnecting (sy_c y))) y))"
proof -
  have "rl_step (rl_of y) (rl_of (at Reconnector Begin (setState StateReconnecting (sy_c y)) y))"
    using rl_timer [of "rl_of y" "{#}"] assms by (simp add: rl_of_def)
  moreover have "rl_steps (rl_of (at Reconnector Begin (setState StateReconnecting (sy_c y)) y))
      (rl_of (at Reconnector Begin (setState StateConnecting (setState StateReconnecting (sy_c y))) y))"
    by (rule sim_other) (simp_all add: elsewhere_simple)
  ultimately show ?thesis
    by (rule converse_rtranclp_into_rtranclp)
qed

lemma sim_cancelled:
  assumes "sy_pc y Reconnector = Wait" and "c_ctxDone (sy_c y)"
  shows "rl_steps (rl_of y) (rl_of (at Reconnector Idle (snd (finishReconnect False (sy_c y))) y))"
  using rl_cancelled [of "rl_of y" "{#}"] assms by (simp add: rl_of_def r_into_rtranclp)

lemma sim_close: "rl_steps (rl_of y) (rl_of (y\<lparr>sy_c := Close (sy_c y)\<rparr>))"
  using Close_run [of "rl_of y"] by (simp add: rl_of_def)

lemma sim_step:
  assumes "sys_step y y'" and "loop_ok y"
  shows "rl_steps (rl_of y) (rl_of y')"
  using assms
proof (cases rule: sys_step.cases)
  case (dwr_failed hbh g e now go c)
  then show ?thesis
    using sim_handleDWRFailure [OF dwr_failed(5) assms(2), of hbh] by simp
next
  case (cer_error w ip e c)
  then show ?thesis
    using sim_connectFailed [OF assms(2)] elsewhere_trans [OF elsewhere_handshakeSend elsewhere_simple(2)]
    by (simp add: handshakeFailed_def)
next
  case (dial_error w la)
  then show ?thesis
    using assms(2) by (simp add: sim_connectFailed elsewheres split: option.split)
next
  case (tick_failed e c)
  have "loop_ok (y\<lparr>sy_c := c\<rparr>)"
    using elsewhere_sendDWR [OF tick_failed(3)] assms(2) by (simp add: loop_ok_def elsewhere_def)
  then show ?thesis
    using sim_failWith sim_here [OF elsewhere_sendDWR [OF tick_failed(3)]] tick_failed(1) rtranclp_trans
    by fastforce
next
  case (write_failed d rest)
  then have "loop_ok (y\<lparr>sy_c := (sy_c y)\<lparr>c_sendCh := rest\<rparr>\<rparr>)"
    using assms(2) by (simp add: loop_ok_def)
  moreover have "rl_steps (rl_of y) (rl_of (y\<lparr>sy_c := (sy_c y)\<lparr>c_sendCh := rest\<rparr>\<rparr>))"
    by (rule sim_here) (simp add: elsewhere_def)
  ultimately show ?thesis
    using sim_failWith write_failed(1) rtranclp_trans by fastforce
next
  case (dwa_ok hbh g data now c)
  then show ?thesis
    using sim_here [OF elsewhere_trans [OF elsewhere_handleDWA [OF dwa_ok(5)] elsewhere_simple(3)]]
    by simp
qed (use assms(2) in \<open>simp_all add: sim_here sim_at sim_failWith sim_connectFailed sim_connectSucceeded
    sim_timer sim_cancelled sim_close handshakeFailed_def elsewheres
    elsewhere_trans [OF elsewhere_simple(3) elsewhere_simple(2)]\<close>)


lemma rl_reach_steps: "rl_steps y z \<Longrightarrow> rl_reach config y \<Longrightarrow> rl_reach config z"
  by (induction rule: rtranclp_induct) (auto intro: rl_reach_step)

lemma sim_reach: "sys_reach config y \<Longrightarrow> rl_reach config (rl_of y)"
proof (induction rule: sys_reach.induct)
  case init
  then show ?case
    using rl_reach_init [of config] by (simp add: rl_of_def sys_init_def rl_init_def)
next
  case (step y y')
  then show ?case
    using sim_step loop_ok_reach rl_reach_steps by blast
qed

section \<open>A second loop after Close\<close>

text \<open>
  The loop has dialled again and waits for the CEA when the peer drops the socket: the read loop
  calls \<^verbatim>\<open>handleFailure\<close>, which passes its check. Before it gets to \<^verbatim>\<open>scheduleReconnect\<close>, \<^verbatim>\<open>Close\<close> cancels
  the context and resets \<^verbatim>\<open>reconnecting\<close>.
\<close>

lemma reconnecting_reachable:
  obtains y where "rl_reach (demo_config False) y" and "rl_loops y = {#LConnect#}" and "rl_failures y = {#}"
    and "\<not> c_ctxDone (rl_c y)" and "c_state (rl_c y) = StateCERSent" and "\<not> c_reconnectDisabled (rl_c y)"
proof -
  obtain y d where y: "sys_reach (demo_config False) y" "sy_pc y Reconnector = Begin"
    and c: "sy_c y = (NewConnection (demo_config False))\<lparr>c_connGeneration := 2, c_hopByHopID := 1,
       c_endToEndID := 1, c_pending := [1 \<mapsto> None], c_state := StateConnecting, c_sendCh := [d],
       c_lastError := Some ErrIO, c_onFailureCalls := [ErrIO], c_reconnecting := True\<rparr>"
    by (rule first_drop [of False]) blast
  obtain d2 where "sys_reach (demo_config False)
      (at Reconnector (AwaitCEA (c_hopByHopID (sy_c y) + 1)) (cer_sent_conn None 2 d2 (sy_c y)) y)"
    by (rule reach_AwaitCEA [OF y, of 2 None])
      (simp_all add: c NewConnection_def demo_config_def bound_list_def sane_def)
  from sim_reach [OF this] show thesis
    by (rule that) (simp_all add: rl_of_def cer_sent_conn_def c NewConnection_def)
qed

lemma second_loop_path:
  obtains y z where "rl_reach (demo_config False) y" and "c_ctxDone (rl_c y)" and "size (rl_loops y) = 1"
    and "armed y = 1" and "rl_steps y z" and "size (rl_loops z) = 2"
proof -
  obtain u where u: "rl_reach (demo_config False) u" "rl_loops u = {#LConnect#}" "rl_failures u = {#}"
    and c: "\<not> c_ctxDone (rl_c u)" "c_state (rl_c u) = StateCERSent" "\<not> c_reconnectDisabled (rl_c u)"
    by (rule reconnecting_reachable)
  obtain c3 where "rl_steps u (hf_at ErrIO (HFNotified True) c3 u)" (is "rl_steps u ?v")
    using hf_to_schedule [of u ErrIO] c by auto
  moreover have "rl_steps ?v (hf_at ErrIO (HFNotified True) (Close c3) u)" (is "rl_steps _ ?y")
    using Close_run [of ?v] by (cases u) (simp add: hf_at_def)
  ultimately have y: "rl_steps u ?y"
    by (rule rtranclp_trans)
  have f: "c_ctxDone (Close c3)" "\<not> c_reconnecting (Close c3)"
    by (simp_all add: Close_def finishReconnect_def Let_def)
  have z: "rl_steps ?y (went True ((Close c3)\<lparr>c_reconnecting := True\<rparr>) u)"
    by (rule hf_last [OF rtranclp.rtrancl_refl]) (simp add: scheduleReconnect_def f)
  show thesis
    by (rule that [OF rl_reach_steps [OF y u(1)] _ _ _ z])
      (simp_all add: hf_at_def went_def u(2,3) f armed_def)
qed

section \<open>Properties\<close>

text \<open>
  C23. The reconnect loops of a connection, with every lock section of \<^verbatim>\<open>handleFailure\<close>, \<^verbatim>\<open>Close\<close>,
  \<^verbatim>\<open>scheduleReconnect\<close> and \<^verbatim>\<open>finishReconnect\<close> interleaved in any way with the rest of the program: as
  long as the context is not cancelled, exactly one loop runs when \<^verbatim>\<open>reconnecting\<close> is set and none
  otherwise; once it is cancelled, the loops together with the calls of \<^verbatim>\<open>handleFailure\<close> that had
  already passed its check never become more, so only those calls can still start a loop, one each.
\<close>

theorem reconnect_loops_counted:
  assumes "rl_reach config y" and "rl_steps y z"
  shows "(\<not> c_ctxDone (rl_c y) \<longrightarrow> size (rl_loops y) = (if c_reconnecting (rl_c y) then 1 else 0)) \<and>
    (c_ctxDone (rl_c y) \<longrightarrow> size (rl_loops z) + armed z \<le> size (rl_loops y) + armed y)"
  using loops_ok_reach [OF assms(1)] loops_cancelled_steps [OF assms(2)] by (auto simp: loops_ok_def)

theorem reconnect_loops_counted_witness:
  "\<exists>(u::loops) y z. \<not> c_ctxDone (rl_c u) \<and> c_reconnecting (rl_c u) \<and> size (rl_loops u) = 1 \<and>
     c_ctxDone (rl_c y) \<and> size (rl_loops y) = 1 \<and> armed y = 1 \<and> size (rl_loops z) = 2 \<and> armed z = 0"
proof (rule second_loop_path)
  fix y z
  assume y: "rl_reach (demo_config False) y" "c_ctxDone (rl_c y)" "size (rl_loops y) = 1" "armed y = 1"
    "rl_steps y z" "size (rl_loops z) = 2"
  obtain u where u: "rl_reach (demo_config False) u" "rl_loops u = {#LConnect#}" "\<not> c_ctxDone (rl_c u)"
    by (rule reconnecting_reachable)
  have "armed z = 0"
    using reconnect_loops_counted [OF y(1,5)] y by simp
  moreover have "c_reconnecting (rl_c u)"
    using reconnect_loops_counted [OF u(1) rtranclp.rtrancl_refl] u(2,3) by (simp split: if_splits)
  ultimately show ?thesis
    using y u(2,3) by (intro exI [of _ u] exI [of _ y] exI [of _ z]) simp
qed

text \<open>
  \<^verbatim>\<open>Close\<close> does not keep the loops at one: a state is reachable in which the context is cancelled,
  one loop is inside \<^verbatim>\<open>connect\<close> and one call of \<^verbatim>\<open>handleFailure\<close> is about to run \<^verbatim>\<open>scheduleReconnect\<close>;
  from it a state is reachable in which two loops run on the closed connection.
\<close>

theorem second_loop_after_Close:
  "\<exists>y z. rl_reach (demo_config False) y \<and> c_ctxDone (rl_c y) \<and> size (rl_loops y) = 1 \<and>
     rl_steps y z \<and> size (rl_loops z) = 2"
  by (rule second_loop_path) blast

text \<open>
  The relation of \<open>Client_Steps\<close>, in which \<^verbatim>\<open>handleFailure\<close> and \<^verbatim>\<open>Close\<close> are single steps, is
  refined by the sections: every reachable state of it is reached by the sections too, with the same
  connection, no call half-way and the same loop.
\<close>

theorem sections_implement_steps:
  assumes "sys_reach config y"
  shows "rl_reach config (rl_of y) \<and> (\<forall>y'. sys_step y y' \<longrightarrow> rl_steps (rl_of y) (rl_of y'))"
  using sim_reach [OF assms] sim_step loop_ok_reach [OF assms] by blast

theorem sections_implement_steps_witness:
  "rl_steps (rl_of (sys_init (demo_config True)))
     (rl_of ((sys_init (demo_config True))\<lparr>sy_c := Close (NewConnection (demo_config True))\<rparr>))"
proof -
  have "sys_step (sys_init (demo_config True))
      ((sys_init (demo_config True))\<lparr>sy_c := Close (sy_c (sys_init (demo_config True)))\<rparr>)"
    by (rule user_close)
  then show ?thesis
    using sections_implement_steps [OF sys_reach.init, of "demo_config True"] by (simp add: sys_init_def)
qed

end
