(* ===== verification/Address_Pool.thy ===== *)
theory Address_Pool
  imports Conn_Pool
begin

text \<open>
  The pool with one connection per remote address (\<^verbatim>\<open>client/address_pool.go\<close>): configuration, the
  look-up that lets one goroutine dial while the others wait, adding and removing connections, the
  lifecycle manager of a connection, the health check and \<^verbatim>\<open>Close\<close>; and the steps of concurrent
  callers. The lemmas show that an address is dialled by at most one goroutine at a time, that the
  maps only name connections of their address, and what happens to an entry that has gone stale.
\<close>

section \<open>Configuration\<close>

text \<open>\<open>pcf_BackoffOK\<close> is \<^verbatim>\<open>ReconnectBackoff >= 1.0\<close>; the other times are in nanoseconds.\<close>

record PoolConfig =
  pcf_OriginHost :: gostring
  pcf_OriginRealm :: gostring
  pcf_ProductName :: gostring
  pcf_VendorID :: u32
  pcf_DialTimeout :: int
  pcf_SendTimeout :: int
  pcf_DWRInterval :: int
  pcf_DWRTimeout :: int
  pcf_MaxDWRFailures :: int
  pcf_ReconnectEnabled :: bool
  pcf_ReconnectInterval :: int
  pcf_MaxReconnectDelay :: int
  pcf_BackoffOK :: bool
  pcf_SendBufferSize :: nat
  pcf_RecvBufferSize :: nat
  pcf_AuthAppIDs :: "u32 list"
  pcf_AcctAppIDs :: "u32 list"
  pcf_IdleTimeout :: int
  pcf_MaxConnLifetime :: int

definition DefaultPoolConfig :: PoolConfig where
  "DefaultPoolConfig =
     \<lparr>pcf_OriginHost = [], pcf_OriginRealm = [],
      pcf_ProductName = map (\<lambda>ch. word_of_nat (of_char ch)) ''Diameter-Client'', pcf_VendorID = 10415,
      pcf_DialTimeout = 10000000000, pcf_SendTimeout = 5000000000, pcf_DWRInterval = 30000000000,
      pcf_DWRTimeout = 10000000000, pcf_MaxDWRFailures = 3, pcf_ReconnectEnabled = False,
      pcf_ReconnectInterval = 5000000000, pcf_MaxReconnectDelay = 300000000000, pcf_BackoffOK = True,
      pcf_SendBufferSize = 1000, pcf_RecvBufferSize = 1000, pcf_AuthAppIDs = [], pcf_AcctAppIDs = [],
      pcf_IdleTimeout = 0, pcf_MaxConnLifetime = 0\<rparr>"

definition PoolConfig_Validate :: "PoolConfig \<Rightarrow> config_error option" where
  "PoolConfig_Validate c =
     (if pcf_OriginHost c = [] then Some (ErrInvalidConfig ''OriginHost'' ''must not be empty'')
      else if pcf_OriginRealm c = [] then Some (ErrInvalidConfig ''OriginRealm'' ''must not be empty'')
      else if pcf_ProductName c = [] then Some (ErrInvalidConfig ''ProductName'' ''must not be empty'')
      else if pcf_DialTimeout c \<le> 0 then Some (ErrInvalidConfig ''DialTimeout'' ''must be greater than 0'')
      else if pcf_DWRInterval c \<le> 0 then Some (ErrInvalidConfig ''DWRInterval'' ''must be greater than 0'')
      else if pcf_DWRTimeout c \<le> 0 then Some (ErrInvalidConfig ''DWRTimeout'' ''must be greater than 0'')
      else if pcf_DWRTimeout c \<ge> pcf_DWRInterval c then
        Some (ErrInvalidConfig ''DWRTimeout'' ''must be less than DWRInterval'')
      else if pcf_MaxDWRFailures c \<le> 0 then
        Some (ErrInvalidConfig ''MaxDWRFailures'' ''must be greater than 0'')
      else if \<not> pcf_BackoffOK c then Some (ErrInvalidConfig ''ReconnectBackoff'' ''must be >= 1.0'')
      else None)"

section \<open>The pool\<close>

text \<open>
  Managed connections are numbered as they are created. \<open>mc_ctxDone\<close>: their context is cancelled,
  which is the parent of the connection's own context; \<open>mc_manager\<close>: the lifecycle manager runs.
\<close>

record ManagedConnection =
  mc_conn :: Connection
  mc_address :: gostring
  mc_ctxDone :: bool
  mc_manager :: bool

record AddressPool =
  ap_config :: PoolConfig
  ap_heap :: "nat \<rightharpoonup> ManagedConnection"
  ap_next :: nat
  ap_connections :: "gostring \<rightharpoonup> nat"
  ap_establishing :: "gostring set"
  ap_closed :: bool
  ap_ActiveConnections :: u64
  ap_TotalConnections :: u64
  ap_FailedEstablishments :: u64
  ap_MessagesSent :: u64
  ap_BytesSent :: u64
  ap_ConnectionsClosed :: u64
  ap_IdleTimeouts :: u64
  ap_MaxLifetimeExpirations :: u64

definition NewAddressConnectionPool :: "PoolConfig option \<Rightarrow> (config_error option, AddressPool) result" where
  "NewAddressConnectionPool config =
     (case config of
        None \<Rightarrow> Inl None
      | Some cfg \<Rightarrow>
          (case PoolConfig_Validate cfg of
             Some err \<Rightarrow> Inl (Some err)
           | None \<Rightarrow> Inr \<lparr>ap_config = cfg, ap_heap = Map.empty, ap_next = 0, ap_connections = Map.empty,
               ap_establishing = {}, ap_closed = False, ap_ActiveConnections = 0, ap_TotalConnections = 0,
               ap_FailedEstablishments = 0, ap_MessagesSent = 0, ap_BytesSent = 0, ap_ConnectionsClosed = 0,
               ap_IdleTimeouts = 0, ap_MaxLifetimeExpirations = 0\<rparr>))"

definition connOf :: "nat \<Rightarrow> AddressPool \<Rightarrow> Connection option" where
  "connOf m p = map_option mc_conn (ap_heap p m)"

definition mcActive :: "nat \<Rightarrow> AddressPool \<Rightarrow> bool" where
  "mcActive m p = (case ap_heap p m of None \<Rightarrow> False | Some mc \<Rightarrow> IsActive (mc_conn mc))"

definition updManaged :: "nat \<Rightarrow> (ManagedConnection \<Rightarrow> ManagedConnection) \<Rightarrow> AddressPool \<Rightarrow> AddressPool" where
  "updManaged m f p = p\<lparr>ap_heap := (ap_heap p)(m := map_option f (ap_heap p m))\<rparr>"

text \<open>The check of \<^verbatim>\<open>getOrCreateConnection\<close>, made without and again with the establishing lock.\<close>

definition activeEntry :: "gostring \<Rightarrow> AddressPool \<Rightarrow> nat option" where
  "activeEntry addr p =
     (case ap_connections p addr of
        Some m \<Rightarrow> if mcActive m p then Some m else None
      | None \<Rightarrow> None)"

datatype enter = EnterFound nat | EnterWait | EnterDial

definition ap_enter :: "gostring \<Rightarrow> AddressPool \<Rightarrow> enter \<times> AddressPool" where
  "ap_enter addr p =
     (case activeEntry addr p of
        Some m \<Rightarrow> (EnterFound m, p)
      | None \<Rightarrow>
          if addr \<in> ap_establishing p then (EnterWait, p)
          else (EnterDial, p\<lparr>ap_establishing := insert addr (ap_establishing p)\<rparr>))"

text \<open>A waiter that was woken up.\<close>

definition ap_woken :: "gostring \<Rightarrow> AddressPool \<Rightarrow> nat option" where
  "ap_woken addr p = ap_connections p addr"

text \<open>
  The configuration of a new connection; \<open>host\<close> and \<open>port\<close> come from \<^verbatim>\<open>net.SplitHostPort\<close> and
  \<^verbatim>\<open>fmt.Sscanf\<close>.
\<close>

definition connConfig :: "PoolConfig \<Rightarrow> gostring \<Rightarrow> int \<Rightarrow> DRAConfig" where
  "connConfig c host port =
     \<lparr>Host = host, Port = port, LocalAddr = [], LocalPortMin = 0, LocalPortMax = 0,
      OriginHost = pcf_OriginHost c, OriginRealm = pcf_OriginRealm c, ProductName = pcf_ProductName c,
      VendorID = pcf_VendorID c, ConnectionCount = 1, DWRInterval = pcf_DWRInterval c,
      DWRTimeout = pcf_DWRTimeout c, MaxDWRFailures = pcf_MaxDWRFailures c,
      ReconnectInterval = pcf_ReconnectInterval c, MaxReconnectDelay = pcf_MaxReconnectDelay c,
      SendBufferSize = pcf_SendBufferSize c, RecvBufferSize = pcf_RecvBufferSize c,
      AuthAppIDs = pcf_AuthAppIDs c, AcctAppIDs = pcf_AcctAppIDs c,
      hasAcquireLocalAddr = False, hasReleaseLocalAddr = False\<rparr>"

definition newManaged :: "PoolConfig \<Rightarrow> gostring \<Rightarrow> gostring \<Rightarrow> int \<Rightarrow> ManagedConnection" where
  "newManaged c addr host port =
     \<lparr>mc_conn = (NewConnection (connConfig c host port))
        \<lparr>c_reconnectDisabled := \<not> pcf_ReconnectEnabled c\<rparr>,
      mc_address = addr, mc_ctxDone = False, mc_manager = False\<rparr>"

text \<open>Cancelling a managed connection also ends the context of its connection.\<close>

definition cancelled :: "ManagedConnection \<Rightarrow> ManagedConnection" where
  "cancelled mc = mc\<lparr>mc_ctxDone := True, mc_conn := (mc_conn mc)\<lparr>c_ctxDone := True\<rparr>\<rparr>"

definition mc_cancel :: "nat \<Rightarrow> AddressPool \<Rightarrow> AddressPool" where
  "mc_cancel m p = updManaged m cancelled p"

definition onConnectionFailure :: "nat \<Rightarrow> AddressPool \<Rightarrow> AddressPool" where
  "onConnectionFailure m p = mc_cancel m p"

text \<open>
  \<^verbatim>\<open>establishConnection\<close> after \<^verbatim>\<open>conn.Start\<close> has succeeded with the connection in the state \<open>conn\<close>: the
  lifecycle manager is started, and then the connection is added unless the address has an entry.
  The context of the connection is a child of the pool's, so it is done when the pool is closed.
\<close>

definition ap_started :: "ManagedConnection \<Rightarrow> Connection \<Rightarrow> AddressPool \<Rightarrow> nat \<times> AddressPool" where
  "ap_started mc conn p =
     (ap_next p, p\<lparr>ap_heap := (ap_heap p)(ap_next p \<mapsto>
                     mc\<lparr>mc_conn := conn, mc_ctxDone := ap_closed p, mc_manager := True\<rparr>),
                   ap_next := ap_next p + 1\<rparr>)"

definition ap_add :: "gostring \<Rightarrow> nat \<Rightarrow> AddressPool \<Rightarrow> nat \<times> AddressPool" where
  "ap_add addr m p =
     (case ap_connections p addr of
        Some existing \<Rightarrow>
          (existing, updManaged m (\<lambda>mc. mc\<lparr>mc_conn := Close (mc_conn mc)\<rparr>) (mc_cancel m p))
      | None \<Rightarrow>
          (m, p\<lparr>ap_connections := (ap_connections p)(addr \<mapsto> m),
                ap_ActiveConnections := ap_ActiveConnections p + 1,
                ap_TotalConnections := ap_TotalConnections p + 1\<rparr>))"

text \<open>The end of \<^verbatim>\<open>getOrCreateConnection\<close> for the goroutine that dialled.\<close>

definition ap_leave :: "gostring \<Rightarrow> bool \<Rightarrow> AddressPool \<Rightarrow> AddressPool" where
  "ap_leave addr failed p =
     (let p1 = p\<lparr>ap_establishing := ap_establishing p - {addr}\<rparr>
      in if failed then p1\<lparr>ap_FailedEstablishments := ap_FailedEstablishments p1 + 1\<rparr> else p1)"

definition removeConnection :: "gostring \<Rightarrow> AddressPool \<Rightarrow> AddressPool" where
  "removeConnection addr p =
     p\<lparr>ap_connections := (ap_connections p)(addr := None),
       ap_ActiveConnections := ap_ActiveConnections p - 1,
       ap_ConnectionsClosed := ap_ConnectionsClosed p + 1\<rparr>"

text \<open>
  \<^verbatim>\<open>Connection.SendWithContext\<close>; \<open>callerDone\<close> is the caller's context. With room in the channel and a
  finished context both arms are ready and \<open>pick\<close> is Go's choice.
\<close>

definition SendWithContext ::
  "bool \<Rightarrow> bool \<Rightarrow> bytes \<Rightarrow> Connection \<Rightarrow> conn_error option \<times> Connection" where
  "SendWithContext pick callerDone data c =
     (let done = (callerDone \<or> c_ctxDone c)
      in if \<not> IsActive c then (Some ErrConnectionClosed, c)
         else if length (c_sendCh c) < SendBufferSize (c_config c) \<and> (pick \<or> \<not> done)
         then (None, c\<lparr>c_sendCh := c_sendCh c @ [data]\<rparr>)
         else if done then (Some ErrCtxDone, c)
         else (Some ErrSendBufferFull, c))"

text \<open>The end of \<^verbatim>\<open>Send\<close> with the connection it was given.\<close>

definition ap_sendOn ::
  "bool \<Rightarrow> bool \<Rightarrow> nat \<Rightarrow> bytes \<Rightarrow> AddressPool \<Rightarrow> conn_error option \<times> AddressPool" where
  "ap_sendOn pick callerDone m message p =
     (case connOf m p of
        None \<Rightarrow> (Some ErrConnectionClosed, p)
      | Some conn \<Rightarrow>
          (case SendWithContext pick callerDone message conn of
             (Some err, conn') \<Rightarrow> (Some err, p)
           | (None, conn') \<Rightarrow>
               (None, (updManaged m (\<lambda>mc. mc\<lparr>mc_conn := conn'\<rparr>) p)
                 \<lparr>ap_MessagesSent := ap_MessagesSent p + 1,
                  ap_BytesSent := ap_BytesSent p + word_of_nat (length message)\<rparr>)))"

section \<open>Lifecycle\<close>

text \<open>
  What the lifecycle manager of a connection does when one of its channels fires; \<open>now\<close> is the time.
  It returns in the first case and when a limit is exceeded, and then removes its address.
\<close>

datatype lifecycle = CtxDone | IdleTimer int | LifetimeTimer

definition managerEnd :: "nat \<Rightarrow> gostring \<Rightarrow> AddressPool \<Rightarrow> AddressPool" where
  "managerEnd m addr p = removeConnection addr (updManaged m (\<lambda>mc. mc\<lparr>mc_manager := False\<rparr>) p)"

definition lifecycleManager :: "lifecycle \<Rightarrow> nat \<Rightarrow> ManagedConnection \<Rightarrow> AddressPool \<Rightarrow> AddressPool" where
  "lifecycleManager ev m mc p =
     (case ev of
        CtxDone \<Rightarrow>
          if mc_ctxDone mc
          then managerEnd m (mc_address mc) (updManaged m (\<lambda>mc. mc\<lparr>mc_conn := Close (mc_conn mc)\<rparr>) p)
          else p
      | IdleTimer now \<Rightarrow>
          if pcf_IdleTimeout (ap_config p) > 0 \<and>
             now - c_lastActivity (mc_conn mc) \<ge> pcf_IdleTimeout (ap_config p)
          then managerEnd m (mc_address mc)
                 (mc_cancel m (p\<lparr>ap_IdleTimeouts := ap_IdleTimeouts p + 1\<rparr>))
          else p
      | LifetimeTimer \<Rightarrow>
          if pcf_MaxConnLifetime (ap_config p) > 0
          then managerEnd m (mc_address mc)
                 (mc_cancel m (p\<lparr>ap_MaxLifetimeExpirations := ap_MaxLifetimeExpirations p + 1\<rparr>))
          else p)"

text \<open>The loop over a list of managed connections, those of the map in some order.\<close>

definition performHealthCheck :: "nat list \<Rightarrow> AddressPool \<Rightarrow> AddressPool" where
  "performHealthCheck ms p = fold (\<lambda>m p. if \<not> mcActive m p then mc_cancel m p else p) ms p"

text \<open>\<^verbatim>\<open>Close\<close>: cancelling the pool's context cancels all its children, then the loop cancels those of the map.\<close>

definition ap_Close :: "nat list \<Rightarrow> AddressPool \<Rightarrow> AddressPool" where
  "ap_Close ms p =
     (if ap_closed p then p
      else fold mc_cancel ms (p\<lparr>ap_closed := True, ap_heap := (\<lambda>m. map_option cancelled (ap_heap p m))\<rparr>))"

definition ap_GetConnection :: "gostring \<Rightarrow> AddressPool \<Rightarrow> Connection option" where
  "ap_GetConnection addr p = (case ap_connections p addr of Some m \<Rightarrow> connOf m p | None \<Rightarrow> None)"

section \<open>Concurrent callers\<close>

text \<open>Where a goroutine is in \<^verbatim>\<open>getOrCreateConnection\<close>.\<close>

datatype caller =
    Outside
  | Waits gostring
  | Dials gostring
  | Adds gostring nat
  | Leaves gostring "nat option"
  | Got gostring "nat option"

record ap_sys =
  as_pool :: AddressPool
  as_caller :: "nat \<Rightarrow> caller"

definition setCaller :: "nat \<Rightarrow> caller \<Rightarrow> AddressPool \<Rightarrow> ap_sys \<Rightarrow> ap_sys" where
  "setCaller k x p s = \<lparr>as_pool = p, as_caller = (as_caller s)(k := x)\<rparr>"

definition onPool :: "(AddressPool \<Rightarrow> AddressPool) \<Rightarrow> ap_sys \<Rightarrow> ap_sys" where
  "onPool f s = s\<lparr>as_pool := f (as_pool s)\<rparr>"

text \<open>
  The steps of the callers, of the goroutines of a connection (\<open>as_conn\<close>: any change of its state),
  of its failure callback and its manager, and of the pool's own operations.
\<close>

inductive ap_step :: "ap_sys \<Rightarrow> ap_sys \<Rightarrow> bool" where
  as_found: "as_caller s k = Outside \<Longrightarrow> ap_enter addr (as_pool s) = (EnterFound m, p) \<Longrightarrow>
    ap_step s (setCaller k (Got addr (Some m)) p s)"
| as_wait: "as_caller s k = Outside \<Longrightarrow> ap_enter addr (as_pool s) = (EnterWait, p) \<Longrightarrow>
    ap_step s (setCaller k (Waits addr) p s)"
| as_dial: "as_caller s k = Outside \<Longrightarrow> ap_enter addr (as_pool s) = (EnterDial, p) \<Longrightarrow>
    ap_step s (setCaller k (Dials addr) p s)"
| as_failed: "as_caller s k = Dials addr \<Longrightarrow> ap_step s (setCaller k (Leaves addr None) (as_pool s) s)"
| as_started: "as_caller s k = Dials addr \<Longrightarrow>
    ap_started (newManaged (ap_config (as_pool s)) addr host port) conn (as_pool s) = (m, p) \<Longrightarrow>
    ap_step s (setCaller k (Adds addr m) p s)"
| as_add: "as_caller s k = Adds addr m \<Longrightarrow> ap_add addr m (as_pool s) = (r, p) \<Longrightarrow>
    ap_step s (setCaller k (Leaves addr (Some r)) p s)"
| as_leave: "as_caller s k = Leaves addr r \<Longrightarrow>
    ap_step s (setCaller k (Got addr r) (ap_leave addr (r = None) (as_pool s)) s)"
| as_woken: "as_caller s k = Waits addr \<Longrightarrow>
    ap_step s (setCaller k (Got addr (ap_woken addr (as_pool s))) (as_pool s) s)"
| as_giveup: "as_caller s k = Waits addr \<Longrightarrow> ap_step s (setCaller k (Got addr None) (as_pool s) s)"
| as_send: "as_caller s k = Got addr (Some m) \<Longrightarrow> ap_sendOn pick callerDone m message (as_pool s) = (err, p) \<Longrightarrow>
    ap_step s (setCaller k Outside p s)"
| as_error: "as_caller s k = Got addr None \<Longrightarrow> ap_step s (setCaller k Outside (as_pool s) s)"
| as_conn: "ap_step s (onPool (updManaged m (\<lambda>mc. mc\<lparr>mc_conn := c\<rparr>)) s)"
| as_failure: "ap_step s (onPool (onConnectionFailure m) s)"
| as_manager: "ap_heap (as_pool s) m = Some mc \<Longrightarrow> mc_manager mc \<Longrightarrow>
    ap_step s (onPool (lifecycleManager ev m mc) s)"
| as_health: "ap_step s (onPool (performHealthCheck ms) s)"
| as_close: "ap_step s (onPool (ap_Close ms) s)"

inductive ap_reach :: "ap_sys \<Rightarrow> bool" where
  ar_new: "NewAddressConnectionPool config = Inr p \<Longrightarrow>
    ap_reach \<lparr>as_pool = p, as_caller = (\<lambda>_. Outside)\<rparr>"
| ar_step: "ap_reach s \<Longrightarrow> ap_step s s' \<Longrightarrow> ap_reach s'"

section \<open>One goroutine dials\<close>

text \<open>The addresses of the managed connections, and the part of the pool the invariant is about.\<close>

definition shape :: "AddressPool \<Rightarrow> nat \<rightharpoonup> gostring" where
  "shape p = (\<lambda>m. map_option mc_address (ap_heap p m))"

definition frame :: "AddressPool \<Rightarrow> (nat \<rightharpoonup> gostring) \<times> nat \<times> (gostring \<rightharpoonup> nat) \<times> gostring set" where
  "frame p = (shape p, ap_next p, ap_connections p, ap_establishing p)"

definition pool_wf :: "AddressPool \<Rightarrow> bool" where
  "pool_wf p \<longleftrightarrow> (\<forall>m a. shape p m = Some a \<longrightarrow> m < ap_next p) \<and>
     (\<forall>a m. ap_connections p a = Some m \<longrightarrow> shape p m = Some a)"

fun establishes :: "caller \<Rightarrow> gostring option" where
  "establishes (Dials a) = Some a"
| "establishes (Adds a m) = Some a"
| "establishes (Leaves a r) = Some a"
| "establishes _ = None"

fun holds_conn :: "caller \<Rightarrow> (gostring \<times> nat) option" where
  "holds_conn (Adds a m) = Some (a, m)"
| "holds_conn (Leaves a (Some m)) = Some (a, m)"
| "holds_conn (Got a (Some m)) = Some (a, m)"
| "holds_conn _ = None"

definition ap_inv :: "ap_sys \<Rightarrow> bool" where
  "ap_inv s \<longleftrightarrow> pool_wf (as_pool s) \<and>
     (\<forall>k a. establishes (as_caller s k) = Some a \<longrightarrow> a \<in> ap_establishing (as_pool s)) \<and>
     (\<forall>k l a. establishes (as_caller s k) = Some a \<and> establishes (as_caller s l) = Some a \<longrightarrow> k = l) \<and>
     (\<forall>k a m. holds_conn (as_caller s k) = Some (a, m) \<longrightarrow> shape (as_pool s) m = Some a)"

lemma shape_updManaged: "(\<And>mc. mc_address (f mc) = mc_address mc) \<Longrightarrow> shape (updManaged m f p) = shape p"
  by (auto simp: shape_def updManaged_def fun_eq_iff map_option_case split: option.split)

lemma updManaged_frame [simp]:
  "(\<And>mc. mc_address (f mc) = mc_address mc) \<Longrightarrow> frame (updManaged m f p) = frame p"
  by (simp add: frame_def shape_updManaged) (simp add: updManaged_def)

lemma cancelled_simps [simp]: "mc_address (cancelled mc) = mc_address mc" "mc_ctxDone (cancelled mc)"
  "mc_manager (cancelled mc) = mc_manager mc"
  by (simp_all add: cancelled_def)

lemma mc_cancel_frame [simp]: "frame (mc_cancel m p) = frame p"
  by (simp add: mc_cancel_def)

lemma fold_frame: "(\<And>m p. frame (f m p) = frame p) \<Longrightarrow> frame (fold f ms p) = frame p"
  by (induction ms arbitrary: p) simp_all

lemma performHealthCheck_frame: "frame (performHealthCheck ms p) = frame p"
  unfolding performHealthCheck_def by (rule fold_frame) simp

lemma ap_Close_frame: "frame (ap_Close ms p) = frame p"
proof -
  let ?q = "p\<lparr>ap_closed := True, ap_heap := (\<lambda>m. map_option cancelled (ap_heap p m))\<rparr>"
  have "frame ?q = frame p"
    by (simp add: frame_def shape_def option.map_comp comp_def)
  then show ?thesis
    using fold_frame [of mc_cancel ms ?q] by (simp add: ap_Close_def)
qed

lemma counters_frame [simp]:
  "frame (p\<lparr>ap_IdleTimeouts := x\<rparr>) = frame p" "frame (p\<lparr>ap_MaxLifetimeExpirations := x\<rparr>) = frame p"
  "frame (p\<lparr>ap_MessagesSent := x, ap_BytesSent := y\<rparr>) = frame p"
  by (simp_all add: frame_def shape_def)

lemma ap_sendOn_frame: "ap_sendOn pick done m message p = (err, p') \<Longrightarrow> frame p' = frame p"
  by (auto simp: ap_sendOn_def split: option.splits prod.splits)

text \<open>A lifecycle step keeps the frame or removes one address from the map.\<close>

lemma managerEnd_frame:
  assumes "frame q = frame p"
  shows "frame (managerEnd m a q) = (shape p, ap_next p, (ap_connections p)(a := None), ap_establishing p)"
proof -
  have "frame (updManaged m (\<lambda>mc. mc\<lparr>mc_manager := False\<rparr>) q) = frame p"
    using assms by simp
  then show ?thesis
    by (simp add: managerEnd_def removeConnection_def frame_def shape_def)
qed

lemma lifecycleManager_frame:
  "frame (lifecycleManager ev m mc p) = frame p \<or>
   frame (lifecycleManager ev m mc p) =
     (shape p, ap_next p, (ap_connections p)(mc_address mc := None), ap_establishing p)"
  by (cases ev) (simp_all add: lifecycleManager_def managerEnd_frame)

lemma pool_wf_frame: "frame p' = frame p \<Longrightarrow> pool_wf p' = pool_wf p"
  by (simp add: frame_def pool_wf_def)

lemma ap_inv_frame:
  assumes "frame (as_pool s') = frame (as_pool s)" and "as_caller s' = as_caller s"
  shows "ap_inv s' = ap_inv s"
  using assms pool_wf_frame [OF assms(1)] by (simp add: ap_inv_def frame_def)

lemma ap_inv_onPool: "ap_inv s \<Longrightarrow> frame (f (as_pool s)) = frame (as_pool s) \<Longrightarrow> ap_inv (onPool f s)"
  using ap_inv_frame [of "onPool f s" s] by (simp add: onPool_def)

text \<open>A caller that moves without taking part in an establishment it was not part of.\<close>

lemma ap_inv_caller_grow:
  assumes inv: "ap_inv s" and "pool_wf p" and "ap_establishing p = ap_establishing (as_pool s)"
    and "\<And>m a. shape (as_pool s) m = Some a \<Longrightarrow> shape p m = Some a"
    and est: "establishes x = None \<or> establishes x = establishes (as_caller s k)"
    and "\<And>a m. holds_conn x = Some (a, m) \<Longrightarrow> shape p m = Some a"
  shows "ap_inv (setCaller k x p s)"
proof -
  let ?s = "setCaller k x p s"
  have e: "establishes (as_caller s l) = Some a" if "establishes (as_caller ?s l) = Some a" for l a
    using est that by (cases "l = k") (auto simp: setCaller_def)
  have "a \<in> ap_establishing (as_pool ?s)" if "establishes (as_caller ?s l) = Some a" for l a
    using e [OF that] inv assms(3) by (auto simp: ap_inv_def setCaller_def)
  moreover have "l = l'" if "establishes (as_caller ?s l) = Some a" "establishes (as_caller ?s l') = Some a" for l l' a
    using e [OF that(1)] e [OF that(2)] inv unfolding ap_inv_def by blast
  moreover have "shape (as_pool ?s) m = Some a"
    if "holds_conn (as_caller ?s l) = Some (a, m)" for l a m
  proof (cases "l = k")
    case True
    then show ?thesis
      using that assms(6) by (simp add: setCaller_def)
  next
    case False
    then have "holds_conn (as_caller s l) = Some (a, m)"
      using that by (simp add: setCaller_def)
    then have "shape (as_pool s) m = Some a"
      using inv unfolding ap_inv_def by blast
    then show ?thesis
      using assms(4) by (auto simp: setCaller_def)
  qed
  moreover have "pool_wf (as_pool ?s)"
    using assms(2) by (simp add: setCaller_def)
  ultimately show ?thesis
    unfolding ap_inv_def by blast
qed

lemma ap_inv_caller:
  assumes "ap_inv s" and "frame p = frame (as_pool s)"
    and "establishes x = None \<or> establishes x = establishes (as_caller s k)"
    and "\<And>a m. holds_conn x = Some (a, m) \<Longrightarrow> shape (as_pool s) m = Some a"
  shows "ap_inv (setCaller k x p s)"
proof (rule ap_inv_caller_grow [OF assms(1)])
  show "pool_wf p"
    using assms(1) pool_wf_frame [OF assms(2)] by (simp add: ap_inv_def)
qed (use assms(2-4) in \<open>simp_all add: frame_def\<close>)

lemma ap_inv_facts:
  assumes "ap_inv s"
  shows "ap_connections (as_pool s) a = Some m \<Longrightarrow> shape (as_pool s) m = Some a"
    and "as_caller s k = Adds a m \<Longrightarrow> shape (as_pool s) m = Some a"
    and "as_caller s k = Leaves a (Some m) \<Longrightarrow> shape (as_pool s) m = Some a"
    and "shape (as_pool s) m = Some a \<Longrightarrow> m < ap_next (as_pool s)"
  using assms holds_conn.simps(1) [of a m] holds_conn.simps(2) [of a m] unfolding ap_inv_def pool_wf_def by metis+

lemma ap_inv_step:
  assumes inv: "ap_inv s" and "ap_step s s'"
  shows "ap_inv s'"
  using assms(2)
proof cases
  case (as_found k addr m p)
  then have "p = as_pool s" "ap_connections (as_pool s) addr = Some m"
    by (auto simp: ap_enter_def activeEntry_def split: option.splits if_splits)
  then show ?thesis
    using as_found(1) ap_inv_facts(1) [OF inv] by (auto intro!: ap_inv_caller [OF inv])
next
  case (as_wait k addr p)
  then have "p = as_pool s"
    by (auto simp: ap_enter_def split: option.splits if_splits)
  then show ?thesis
    using as_wait(1) by (auto intro!: ap_inv_caller [OF inv])
next
  case (as_dial k addr p)
  then have "p = (as_pool s)\<lparr>ap_establishing := insert addr (ap_establishing (as_pool s))\<rparr>"
    "addr \<notin> ap_establishing (as_pool s)"
    by (auto simp: ap_enter_def split: option.splits if_splits)
  then show ?thesis
    using inv as_dial by (auto simp: ap_inv_def setCaller_def pool_wf_def shape_def split: if_splits)
next
  case (as_started k addr host port conn m p)
  then have p: "m = ap_next (as_pool s)" "shape p = (shape (as_pool s))(m \<mapsto> addr)" "ap_next p = m + 1"
    "ap_connections p = ap_connections (as_pool s)" "ap_establishing p = ap_establishing (as_pool s)"
    by (auto simp: ap_started_def newManaged_def shape_def fun_eq_iff)
  have new: "shape (as_pool s) m' = Some a \<Longrightarrow> m' \<noteq> m" for m' a
    using inv p(1) by (auto simp: ap_inv_def pool_wf_def)
  show ?thesis
    unfolding as_started(1)
  proof (rule ap_inv_caller_grow [OF inv])
    show "pool_wf p"
      using inv p new by (auto simp: ap_inv_def pool_wf_def less_Suc_eq)
  qed (use as_started(2) p new in auto)
next
  case (as_add k addr m r p)
  have m: "shape (as_pool s) m = Some addr"
    using ap_inv_facts(2) [OF inv as_add(2)] .
  show ?thesis
  proof (cases "ap_connections (as_pool s) addr")
    case None
    then have "p = (as_pool s)\<lparr>ap_connections := (ap_connections (as_pool s))(addr \<mapsto> m),
        ap_ActiveConnections := ap_ActiveConnections (as_pool s) + 1,
        ap_TotalConnections := ap_TotalConnections (as_pool s) + 1\<rparr>" "r = m"
      using as_add(3) by (auto simp: ap_add_def)
    then have p: "shape p = shape (as_pool s)" "ap_next p = ap_next (as_pool s)" "r = m"
      "ap_establishing p = ap_establishing (as_pool s)"
      "ap_connections p = (ap_connections (as_pool s))(addr \<mapsto> m)"
      by (simp_all add: shape_def)
    show ?thesis
      unfolding as_add(1)
    proof (rule ap_inv_caller_grow [OF inv])
      show "pool_wf p"
        using inv p m by (auto simp: ap_inv_def pool_wf_def)
    qed (use as_add(2) p m in auto)
  next
    case (Some old)
    then have "shape (as_pool s) old = Some addr"
      by (rule ap_inv_facts(1) [OF inv])
    moreover have "r = old" "frame p = frame (as_pool s)"
      using as_add(3) Some by (auto simp: ap_add_def)
    ultimately show ?thesis
      unfolding as_add(1) using as_add(2) by (intro ap_inv_caller [OF inv]) simp_all
  qed
next
  case (as_leave k addr r)
  let ?p = "ap_leave addr (r = None) (as_pool s)"
  have p: "shape ?p = shape (as_pool s)" "ap_next ?p = ap_next (as_pool s)"
    "ap_connections ?p = ap_connections (as_pool s)" "ap_establishing ?p = ap_establishing (as_pool s) - {addr}"
    by (simp_all add: ap_leave_def shape_def Let_def)
  have "establishes (as_caller s l) = Some addr \<Longrightarrow> l = k" for l
    using inv as_leave(2) by (force simp: ap_inv_def)
  moreover have "r = Some m \<Longrightarrow> shape (as_pool s) m = Some addr" for m
    using ap_inv_facts(3) [OF inv] as_leave(2) by blast
  ultimately show ?thesis
    using inv as_leave(1) p
    by (cases r) (auto simp: ap_inv_def setCaller_def pool_wf_def split: if_splits)
next
  case (as_woken k addr)
  then show ?thesis
    using ap_inv_facts(1) [OF inv]
    by (cases "ap_woken addr (as_pool s)") (auto simp: ap_woken_def intro!: ap_inv_caller [OF inv])
next
  case (as_send k addr m pick callerDone message err p)
  then show ?thesis
    using ap_sendOn_frame [OF as_send(3)] by (auto intro!: ap_inv_caller [OF inv])
next
  case (as_manager m mc ev)
  consider "frame (lifecycleManager ev m mc (as_pool s)) = frame (as_pool s)"
    | "frame (lifecycleManager ev m mc (as_pool s)) =
        (shape (as_pool s), ap_next (as_pool s), (ap_connections (as_pool s))(mc_address mc := None),
         ap_establishing (as_pool s))"
    using lifecycleManager_frame [of ev m mc "as_pool s"] by blast
  then show ?thesis
  proof cases
    case 1
    then show ?thesis
      using ap_inv_onPool [OF inv] as_manager(1) by simp
  next
    case 2
    then show ?thesis
      using inv as_manager(1) by (auto simp: onPool_def ap_inv_def pool_wf_def frame_def split: if_splits)
  qed
next
  case (as_failed k addr)
  then show ?thesis
    by (auto intro!: ap_inv_caller [OF inv])
next
  case (as_giveup k addr)
  then show ?thesis
    by (auto intro!: ap_inv_caller [OF inv])
next
  case (as_error k addr)
  then show ?thesis
    by (auto intro!: ap_inv_caller [OF inv])
qed (use ap_inv_onPool [OF inv] in \<open>simp_all add: onConnectionFailure_def performHealthCheck_frame ap_Close_frame\<close>)

lemma ap_reach_inv: "ap_reach s \<Longrightarrow> ap_inv s"
proof (induction rule: ap_reach.induct)
  case (ar_new config p)
  then have "shape p = Map.empty" "ap_connections p = Map.empty"
    by (auto simp: NewAddressConnectionPool_def shape_def split: option.splits)
  then show ?case
    by (simp add: ap_inv_def pool_wf_def)
qed (use ap_inv_step in blast)

text \<open>
  C9. However the callers interleave, at most one goroutine is establishing a connection to an
  address at any time, from the moment it has registered the address until it has taken it out
  again, and a caller that finds the address registered does not dial.
\<close>

theorem one_dial_per_address:
  assumes "ap_reach s" and "establishes (as_caller s k) = Some a" and "establishes (as_caller s l) = Some a"
  shows "k = l \<and> a \<in> ap_establishing (as_pool s) \<and> fst (ap_enter a (as_pool s)) \<noteq> EnterDial"
  using ap_reach_inv [OF assms(1)] assms(2,3)
  by (auto simp: ap_inv_def ap_enter_def split: option.split)

text \<open>
  C31. The pool never mixes up addresses. In every reachable state an entry of the map is a managed
  connection of exactly that address; and the connection that \<^verbatim>\<open>getOrCreateConnection\<close> holds for a
  caller on any of its paths (dialled and about to be added, found on adding, found in the map, or
  taken after waiting) exists and is one of the address the caller asked for.
\<close>

theorem pool_entries_typed:
  assumes "ap_reach s"
  shows "(\<forall>a m. ap_connections (as_pool s) a = Some m \<longrightarrow>
      (\<exists>mc. ap_heap (as_pool s) m = Some mc \<and> mc_address mc = a)) \<and>
    (\<forall>k a m. as_caller s k \<in> {Adds a m, Leaves a (Some m), Got a (Some m)} \<longrightarrow>
      (\<exists>mc. ap_heap (as_pool s) m = Some mc \<and> mc_address mc = a))"
proof -
  note inv = ap_reach_inv [OF assms]
  have "\<exists>mc. ap_heap (as_pool s) m = Some mc \<and> mc_address mc = a" if "shape (as_pool s) m = Some a" for m a
    using that by (auto simp: shape_def)
  moreover have "shape (as_pool s) m = Some a" if "as_caller s k \<in> {Adds a m, Leaves a (Some m), Got a (Some m)}"
    for k a m
  proof -
    have "holds_conn (as_caller s k) = Some (a, m)"
      using that by auto
    then show ?thesis
      using inv unfolding ap_inv_def by blast
  qed
  ultimately show ?thesis
    using ap_inv_facts(1) [OF inv] by blast
qed

section \<open>Stale entries\<close>

text \<open>A small pool for the instances.\<close>

definition example_apool :: AddressPool where
  "example_apool = \<lparr>ap_config = DefaultPoolConfig\<lparr>pcf_OriginHost := [104], pcf_OriginRealm := [114]\<rparr>,
     ap_heap = Map.empty, ap_next = 0, ap_connections = Map.empty,
     ap_establishing = {}, ap_closed = False, ap_ActiveConnections = 0, ap_TotalConnections = 0,
     ap_FailedEstablishments = 0, ap_MessagesSent = 0, ap_BytesSent = 0, ap_ConnectionsClosed = 0,
     ap_IdleTimeouts = 0, ap_MaxLifetimeExpirations = 0\<rparr>"

definition example_sys :: ap_sys where
  "example_sys = \<lparr>as_pool = example_apool, as_caller = (\<lambda>_. Outside)\<rparr>"

lemma example_sys_reach: "ap_reach example_sys"
  unfolding example_sys_def
  by (rule ar_new [of "Some (ap_config example_apool)"])
    (simp add: NewAddressConnectionPool_def PoolConfig_Validate_def example_apool_def DefaultPoolConfig_def)

lemma example_dials:
  "ap_reach (setCaller 0 (Dials [1]) (example_apool\<lparr>ap_establishing := {[1]}\<rparr>) example_sys)"
  by (rule ar_step [OF example_sys_reach as_dial])
    (simp_all add: example_sys_def ap_enter_def activeEntry_def, simp add: example_apool_def)

theorem one_dial_per_address_witness:
  "\<exists>s. ap_reach s \<and> as_caller s 0 = Dials [1] \<and> fst (ap_enter [1] (as_pool s)) \<noteq> EnterDial"
  using one_dial_per_address [OF example_dials, of 0 "[1]" 0] example_dials
  by (intro exI [of _ "setCaller 0 (Dials [1]) (example_apool\<lparr>ap_establishing := {[1]}\<rparr>) example_sys"])
    (simp add: setCaller_def)

theorem pool_entries_typed_witness:
  "\<exists>s. ap_reach s \<and> (\<exists>m mc. as_caller s 0 = Got [1] (Some m) \<and> ap_connections (as_pool s) [1] = Some m \<and>
     ap_heap (as_pool s) m = Some mc \<and> mc_address mc = [1])"
proof -
  let ?s0 = "setCaller 0 (Dials [1]) (example_apool\<lparr>ap_establishing := {[1]}\<rparr>) example_sys"
  define m p where "m = fst (ap_started (newManaged (ap_config (as_pool ?s0)) [1] [1] 1) example_conn (as_pool ?s0))"
    and "p = snd (ap_started (newManaged (ap_config (as_pool ?s0)) [1] [1] 1) example_conn (as_pool ?s0))"
  have 1: "ap_reach (setCaller 0 (Adds [1] m) p ?s0)"
    by (rule ar_step [OF example_dials as_started]) (simp add: setCaller_def, simp add: m_def p_def)
  have c: "ap_connections p [1] = None"
    by (simp add: p_def ap_started_def setCaller_def example_apool_def)
  obtain q where q: "ap_add [1] m p = (m, q)" and e: "ap_connections q [1] = Some m"
    using c by (simp add: ap_add_def)
  let ?s2 = "setCaller 0 (Leaves [1] (Some m)) q (setCaller 0 (Adds [1] m) p ?s0)"
  have 2: "ap_reach ?s2"
    using q by (intro ar_step [OF 1 as_add]) (simp_all add: setCaller_def)
  let ?s3 = "setCaller 0 (Got [1] (Some m)) (ap_leave [1] False (as_pool ?s2)) ?s2"
  have 3: "ap_reach ?s3"
    using ar_step [OF 2 as_leave [of ?s2 0 "[1]" "Some m"]] by (simp add: setCaller_def)
  have e3: "ap_connections (as_pool ?s3) [1] = Some m" and g: "as_caller ?s3 0 = Got [1] (Some m)"
    using e by (simp_all add: setCaller_def ap_leave_def)
  have "as_caller ?s3 0 \<in> {Adds [1] m, Leaves [1] (Some m), Got [1] (Some m)}"
    using g by blast
  then obtain mc where "ap_heap (as_pool ?s3) m = Some mc" "mc_address mc = [1]"
    using pool_entries_typed [OF 3] by blast
  with 3 e3 g show ?thesis
    by blast
qed

text \<open>
  An entry that is no longer active defeats the pool: the caller that has just established a
  new connection to the address closes it and is given the old entry, on which sending fails; when
  the manager of the closed connection ends, it removes the old entry from the map and counts down
  the active connections, although the new connection was never counted.
\<close>

theorem stale_entry_wins:
  assumes "ap_connections p a = Some old" and "ap_heap p old = Some mco" and "\<not> IsActive (mc_conn mco)"
    and "ap_heap p m = Some mc" and "m \<noteq> old" and "mc_address mc = a"
    and "ap_add a m p = (r, p1)" and "ap_heap p1 m = Some mc1" and "lifecycleManager CtxDone m mc1 p1 = p2"
  shows "r = old \<and> c_state (mc_conn mc1) = StateClosed \<and>
    (\<forall>pick done msg. fst (ap_sendOn pick done r msg p1) = Some ErrConnectionClosed) \<and>
    ap_connections p2 a = None \<and> ap_ActiveConnections p2 = ap_ActiveConnections p - 1 \<and>
    ap_heap p2 old = Some mco"
proof -
  have a: "r = old" "p1 = updManaged m (\<lambda>mc. mc\<lparr>mc_conn := Close (mc_conn mc)\<rparr>) (mc_cancel m p)"
    using assms(1,7) by (auto simp: ap_add_def)
  then have mc1: "mc1 = mc\<lparr>mc_ctxDone := True, mc_conn := Close ((mc_conn mc)\<lparr>c_ctxDone := True\<rparr>)\<rparr>"
    using assms(4,8) by (simp add: updManaged_def mc_cancel_def cancelled_def)
  have "ap_heap p1 old = Some mco"
    using a(2) assms(2,5) by (simp add: updManaged_def mc_cancel_def)
  then have s: "fst (ap_sendOn pick dn r msg p1) = Some ErrConnectionClosed" for pick dn msg
    using a(1) assms(3) by (simp add: ap_sendOn_def connOf_def SendWithContext_def)
  have "c_state (Close c) = StateClosed" for c
    by (simp add: Close_def finishReconnect_def Let_def)
  then have "c_state (mc_conn mc1) = StateClosed"
    by (simp add: mc1)
  moreover have "mc_ctxDone mc1" "mc_address mc1 = a"
    using mc1 assms(6) by simp_all
  then have "ap_connections p2 a = None \<and> ap_ActiveConnections p2 = ap_ActiveConnections p - 1 \<and>
      ap_heap p2 old = Some mco"
    using assms(2,5,9) a(2)
    by (auto simp: lifecycleManager_def managerEnd_def removeConnection_def updManaged_def mc_cancel_def)
  ultimately show ?thesis
    using a(1) s by blast
qed

theorem stale_entry_wins_witness:
  "\<exists>p mc r p1 mc1 p2. ap_connections p [1] = Some 0 \<and> ap_heap p 1 = Some mc \<and> IsActive (mc_conn mc) \<and>
     ap_add [1] 1 p = (r, p1) \<and> ap_heap p1 1 = Some mc1 \<and> lifecycleManager CtxDone 1 mc1 p1 = p2 \<and>
     c_state (mc_conn mc1) = StateClosed \<and> ap_connections p2 [1] = None"
proof -
  let ?mc = "newManaged DefaultPoolConfig [1] [1] 1"
  let ?new = "?mc\<lparr>mc_conn := (mc_conn ?mc)\<lparr>c_state := StateOpen\<rparr>\<rparr>"
  define p where "p = example_apool\<lparr>ap_heap := [0 \<mapsto> ?mc, 1 \<mapsto> ?new], ap_connections := [[1] \<mapsto> 0]\<rparr>"
  have h: "ap_connections p [1] = Some 0" "ap_heap p 0 = Some ?mc" "\<not> IsActive (mc_conn ?mc)"
    "ap_heap p 1 = Some ?new" "mc_address ?new = [1]" "IsActive (mc_conn ?new)"
    by (simp_all add: p_def newManaged_def NewConnection_def IsActive_def state_IsActive_def)
  obtain r p1 where a: "ap_add [1] 1 p = (r, p1)"
    by (cases "ap_add [1] 1 p")
  obtain mc1 where m: "ap_heap p1 1 = Some mc1"
    using a h by (auto simp: ap_add_def updManaged_def mc_cancel_def)
  show ?thesis
    using stale_entry_wins [OF h(1-4) _ h(5) a m refl] h a m by (intro exI [of _ p]) auto
qed

text \<open>
  A connection that has been idle for too long leaves the map and its manager ends, but it is not
  closed: only its context is cancelled, and its socket stays as it was.
\<close>

lemma idle_connection_not_closed:
  assumes "ap_heap p m = Some mc" and "0 < pcf_IdleTimeout (ap_config p)"
    and "pcf_IdleTimeout (ap_config p) \<le> now - c_lastActivity (mc_conn mc)"
  shows "ap_heap (lifecycleManager (IdleTimer now) m mc p) m =
      Some (mc\<lparr>mc_ctxDone := True, mc_manager := False, mc_conn := (mc_conn mc)\<lparr>c_ctxDone := True\<rparr>\<rparr>) \<and>
    ap_connections (lifecycleManager (IdleTimer now) m mc p) (mc_address mc) = None"
  using assms by (simp add: lifecycleManager_def managerEnd_def removeConnection_def mc_cancel_def cancelled_def updManaged_def)

end
