(* ===== verification/Request_Table.thy ===== *)
theory Request_Table
  imports Server_Conn Address_Pool
begin

text \<open>
  Requests waiting for their answers. Three components keep such a table: the client connection
  for its handshake and watchdog (\<^verbatim>\<open>pending\<close> in \<^verbatim>\<open>client/connection.go\<close>), the server connection for the
  requests it sends (\<^verbatim>\<open>pendingReqs\<close> in \<^verbatim>\<open>server/connection.go\<close>) and the address client for its sessions
  (\<^verbatim>\<open>client/address_client.go\<close>, modelled here). The locale \<open>request_table\<close> states what they share, and
  the abstract table below is what all three refine: the first answer to a registered id counts.
\<close>

section \<open>The address client\<close>

text \<open>
  A session is the channel for its answer, of capacity one. Channels are numbered as they are made:
  a request keeps the channel it waits on even when the map holds another one for its id.
\<close>

record AddressClient =
  acl_pool :: AddressPool
  acl_sessions :: "u32 \<rightharpoonup> nat"
  acl_chans :: "nat \<Rightarrow> bytes list"
  acl_made :: nat
  acl_TotalRequests :: u64
  acl_TotalResponses :: u64
  acl_TotalErrors :: u64
  acl_TotalTimeouts :: u64

definition NewAddressClient :: "PoolConfig option \<Rightarrow> (config_error option, AddressClient) result" where
  "NewAddressClient config =
     (case config of
        None \<Rightarrow> Inl None
      | Some cfg \<Rightarrow>
          (case NewAddressConnectionPool (Some cfg) of
             Inl err \<Rightarrow> Inl err
           | Inr pool \<Rightarrow> Inr \<lparr>acl_pool = pool, acl_sessions = Map.empty, acl_chans = (\<lambda>_. []), acl_made = 0,
               acl_TotalRequests = 0, acl_TotalResponses = 0, acl_TotalErrors = 0, acl_TotalTimeouts = 0\<rparr>))"

text \<open>\<^verbatim>\<open>StoreSession\<close> with the new channel its caller makes for it.\<close>

definition acl_StoreSession :: "u32 \<Rightarrow> AddressClient \<Rightarrow> AddressClient" where
  "acl_StoreSession hopbyhop c =
     c\<lparr>acl_sessions := (acl_sessions c)(hopbyhop \<mapsto> acl_made c), acl_chans := (acl_chans c)(acl_made c := []),
       acl_made := acl_made c + 1\<rparr>"

definition acl_DeleteSession :: "u32 \<Rightarrow> AddressClient \<Rightarrow> AddressClient" where
  "acl_DeleteSession hopbyhop c = c\<lparr>acl_sessions := (acl_sessions c)(hopbyhop := None)\<rparr>"

definition acl_FindSession :: "u32 \<Rightarrow> AddressClient \<Rightarrow> nat option" where
  "acl_FindSession hopbyhop c = acl_sessions c hopbyhop"

text \<open>The handler the client installs in its pool, for one received message.\<close>

definition acl_deliver :: "u32 \<Rightarrow> bytes \<Rightarrow> AddressClient \<Rightarrow> AddressClient" where
  "acl_deliver hopbyhop msg c =
     (case acl_FindSession hopbyhop c of
        None \<Rightarrow> c
      | Some ch \<Rightarrow> if acl_chans c ch = [] then c\<lparr>acl_chans := (acl_chans c)(ch := [msg])\<rparr> else c)"

definition acl_handleFn :: "Message \<Rightarrow> AddressClient \<Rightarrow> AddressClient" where
  "acl_handleFn m c =
     (case ParseMessageHeader (msg_Header m) of
        Inl err \<Rightarrow> c
      | Inr info \<Rightarrow> acl_deliver (mi_HopByHopID info) (msg_Header m @ msg_Body m) c)"

text \<open>
  \<^verbatim>\<open>SendWithContext\<close>: the request is registered, which gives its id and its channel, handed to the pool
  (\<open>expired\<close>: whether the context's deadline has passed when that fails), and then the answer is awaited.
\<close>

definition acl_begin :: "bytes \<Rightarrow> AddressClient \<Rightarrow> (u32 \<times> nat) option \<times> AddressClient" where
  "acl_begin message c =
     (if length message < 20 then (None, c)
      else
        let hopByHopID = Uint32 (bslice 12 16 message);
            c1 = c\<lparr>acl_TotalRequests := acl_TotalRequests c + 1\<rparr>
        in (Some (hopByHopID, acl_made c1), acl_StoreSession hopByHopID c1))"

definition acl_sendFailed :: "u32 \<Rightarrow> bool \<Rightarrow> AddressClient \<Rightarrow> AddressClient" where
  "acl_sendFailed hopByHopID expired c =
     (let c1 = c\<lparr>acl_TotalErrors := acl_TotalErrors c + 1\<rparr>;
          c2 = (if expired then c1\<lparr>acl_TotalTimeouts := acl_TotalTimeouts c1 + 1\<rparr> else c1)
      in acl_DeleteSession hopByHopID c2)"

definition acl_end :: "wake \<Rightarrow> u32 \<Rightarrow> nat \<Rightarrow> AddressClient \<Rightarrow> (bytes option \<times> AddressClient) option" where
  "acl_end w hopByHopID rspChan c =
     (case w of
        WakeResponse \<Rightarrow>
          (case acl_chans c rspChan of
             rsp # rest \<Rightarrow> Some (Some rsp, acl_DeleteSession hopByHopID
               (c\<lparr>acl_chans := (acl_chans c)(rspChan := rest), acl_TotalResponses := acl_TotalResponses c + 1\<rparr>))
           | [] \<Rightarrow> None)
      | _ \<Rightarrow> Some (None, acl_DeleteSession hopByHopID
               (c\<lparr>acl_TotalTimeouts := acl_TotalTimeouts c + 1\<rparr>)))"

text \<open>The channels in the map have been made, and no two ids share one.\<close>

definition acl_ok :: "AddressClient \<Rightarrow> bool" where
  "acl_ok c \<longleftrightarrow> (\<forall>h ch. acl_sessions c h = Some ch \<longrightarrow> ch < acl_made c) \<and> inj_on (acl_sessions c) (dom (acl_sessions c))"

section \<open>The abstract table\<close>

text \<open>An id has no request, a request that waits, or a request with its answer.\<close>

type_synonym 'a table = "u32 \<rightharpoonup> 'a option"

datatype 'a request_event = Register u32 | Deliver u32 'a | Finish u32

fun table_step :: "'a request_event \<Rightarrow> 'a table \<Rightarrow> 'a table" where
  "table_step (Register h) t = t(h \<mapsto> None)"
| "table_step (Deliver h a) t = (if t h = Some None then t(h \<mapsto> Some a) else t)"
| "table_step (Finish h) t = t(h := None)"

fun first_answer :: "u32 \<Rightarrow> 'a request_event list \<Rightarrow> 'a option" where
  "first_answer h [] = None"
| "first_answer h (Deliver k a # evs) = (if k = h then Some a else first_answer h evs)"
| "first_answer h (_ # evs) = first_answer h evs"

fun touches :: "u32 \<Rightarrow> 'a request_event \<Rightarrow> bool" where
  "touches h (Register k) = (k = h)"
| "touches h (Finish k) = (k = h)"
| "touches h (Deliver k a) = False"

lemma table_answered:
  "\<forall>e \<in> set evs. \<not> touches h e \<Longrightarrow> t h = Some (Some a) \<Longrightarrow> fold table_step evs t h = Some (Some a)"
proof (induction evs arbitrary: t)
  case (Cons e evs)
  then have "table_step e t h = Some (Some a)"
    by (cases e) auto
  then show ?case
    using Cons by simp
qed simp

lemma table_first_answer:
  "\<forall>e \<in> set evs. \<not> touches h e \<Longrightarrow> t h = Some None \<Longrightarrow> fold table_step evs t h = Some (first_answer h evs)"
proof (induction evs arbitrary: t)
  case (Cons e evs)
  then show ?case
    by (cases e) (auto simp: table_answered)
qed simp

section \<open>The contract\<close>

text \<open>One event on a concrete table.\<close>

primrec request_run ::
  "(u32 \<Rightarrow> 's \<Rightarrow> 's) \<Rightarrow> (u32 \<Rightarrow> 'a \<Rightarrow> 's \<Rightarrow> 's) \<Rightarrow> (u32 \<Rightarrow> 's \<Rightarrow> 's) \<Rightarrow> 'a request_event \<Rightarrow> 's \<Rightarrow> 's" where
  "request_run register deliver finish (Register h) = register h"
| "request_run register deliver finish (Deliver h a) = deliver h a"
| "request_run register deliver finish (Finish h) = finish h"

locale request_table =
  fixes register :: "u32 \<Rightarrow> 's \<Rightarrow> 's"
    and deliver :: "u32 \<Rightarrow> 'a \<Rightarrow> 's \<Rightarrow> 's"
    and finish :: "u32 \<Rightarrow> 's \<Rightarrow> 's"
    and slots :: "'s \<Rightarrow> 'a table"
    and good :: "'s \<Rightarrow> bool"
  assumes slots_register: "good s \<Longrightarrow> slots (register h s) = (slots s)(h \<mapsto> None)"
    and slots_deliver: "good s \<Longrightarrow>
      slots (deliver h a s) = (if slots s h = Some None then (slots s)(h \<mapsto> Some a) else slots s)"
    and slots_finish: "good s \<Longrightarrow> slots (finish h s) = (slots s)(h := None)"
    and good_register: "good s \<Longrightarrow> good (register h s)"
    and good_deliver: "good s \<Longrightarrow> good (deliver h a s)"
    and good_finish: "good s \<Longrightarrow> good (finish h s)"
begin

abbreviation run :: "'a request_event \<Rightarrow> 's \<Rightarrow> 's" where
  "run \<equiv> request_run register deliver finish"

lemma refines_step: "good s \<Longrightarrow> slots (run e s) = table_step e (slots s)"
  by (cases e) (simp_all add: slots_register slots_deliver slots_finish)

lemma good_step: "good s \<Longrightarrow> good (run e s)"
  by (cases e) (simp_all add: good_register good_deliver good_finish)

lemma good_run: "good s \<Longrightarrow> good (fold run evs s)"
  by (induction evs arbitrary: s) (simp_all add: good_step)

lemma refines: "good s \<Longrightarrow> slots (fold run evs s) = fold table_step evs (slots s)"
  by (induction evs arbitrary: s) (simp_all add: refines_step good_step)

lemma first_answer_counts:
  "good s \<Longrightarrow> \<forall>e \<in> set evs. \<not> touches h e \<Longrightarrow> slots (fold run evs (register h s)) h = Some (first_answer h evs)"
  by (simp add: refines table_first_answer slots_register good_register)

lemma request_leaves_no_trace:
  assumes "good s" and "\<forall>e \<in> set evs. \<exists>a. e = Deliver h a" and "slots s h = None"
  shows "slots (finish h (fold run evs (register h s))) = slots s"
proof -
  have "fold table_step evs t k = t k" if "k \<noteq> h" for t k
    using assms(2) that by (induction evs arbitrary: t) auto
  then show ?thesis
    using assms(1,3) by (auto simp: slots_finish refines slots_register good_register good_run fun_eq_iff)
qed

end

text \<open>The channel of a request seen as the answer it holds.\<close>

definition chan_slots :: "(u32 \<rightharpoonup> bytes list) \<Rightarrow> bytes table" where
  "chan_slots t = (\<lambda>h. map_option (\<lambda>ch. case ch of [] \<Rightarrow> None | m # _ \<Rightarrow> Some m) (t h))"

definition acl_slots :: "AddressClient \<Rightarrow> bytes table" where
  "acl_slots c = chan_slots (\<lambda>h. map_option (acl_chans c) (acl_sessions c h))"

definition sc_register :: "u32 \<Rightarrow> ServerConn \<Rightarrow> ServerConn" where
  "sc_register h c = c\<lparr>sc_pendingReqs := (sc_pendingReqs c)(h \<mapsto> [])\<rparr>"

definition sc_finish :: "u32 \<Rightarrow> ServerConn \<Rightarrow> ServerConn" where
  "sc_finish h c = c\<lparr>sc_pendingReqs := (sc_pendingReqs c)(h := None)\<rparr>"

text \<open>A message with the given bytes, cut into header and body as the connection holds it.\<close>

definition deliverBytes :: "u32 \<Rightarrow> bytes \<Rightarrow> Connection \<Rightarrow> Connection" where
  "deliverBytes h bs = deliverResponse h \<lparr>msg_Length = word_of_nat (length bs), msg_Header = take 20 bs, msg_Body = drop 20 bs\<rparr>"

interpretation client_table: request_table registerPending deliverBytes unregisterPending c_pending "\<lambda>_. True"
  by unfold_locales
    (auto simp: registerPending_def unregisterPending_def deliverBytes_def deliverResponse_def
      split: option.splits)

interpretation server_table: request_table sc_register sc_deliver sc_finish "\<lambda>c. chan_slots (sc_pendingReqs c)" "\<lambda>_. True"
  by unfold_locales
    (auto simp: sc_register_def sc_finish_def sc_deliver_def chan_slots_def fun_eq_iff
      split: option.splits list.splits)

lemma acl_ok_StoreSession: "acl_ok c \<Longrightarrow> acl_ok (acl_StoreSession h c)"
  by (auto simp: acl_ok_def acl_StoreSession_def inj_on_def dom_def split: if_splits)
     (metis less_irrefl less_Suc_eq)+

lemma acl_ok_deliver: "acl_ok c \<Longrightarrow> acl_ok (acl_deliver h m c)"
  by (auto simp: acl_ok_def acl_deliver_def split: option.split)

lemma acl_ok_DeleteSession: "acl_ok c \<Longrightarrow> acl_ok (acl_DeleteSession h c)"
  by (auto simp: acl_ok_def acl_DeleteSession_def inj_on_def dom_def)

interpretation session_table: request_table acl_StoreSession acl_deliver acl_DeleteSession acl_slots acl_ok
proof unfold_locales
  fix c h and a :: bytes
  assume ok: "acl_ok c"
  have fresh: "map_option ((acl_chans c)(acl_made c := [])) (acl_sessions c k) = map_option (acl_chans c) (acl_sessions c k)" for k
    using ok by (cases "acl_sessions c k") (auto simp: acl_ok_def)
  show "acl_slots (acl_StoreSession h c) = (acl_slots c)(h \<mapsto> None)"
    using fresh by (auto simp: acl_slots_def acl_StoreSession_def chan_slots_def fun_eq_iff)
  have other: "map_option ((acl_chans c)(ch := b)) (acl_sessions c k) = map_option (acl_chans c) (acl_sessions c k)"
    if "acl_sessions c h = Some ch" "k \<noteq> h" for k ch b
    using ok that by (cases "acl_sessions c k") (auto simp: acl_ok_def inj_on_def dom_def)
  show "acl_slots (acl_deliver h a c) = (if acl_slots c h = Some None then (acl_slots c)(h \<mapsto> Some a) else acl_slots c)"
    using other
    by (auto simp: acl_slots_def acl_deliver_def acl_FindSession_def chan_slots_def fun_eq_iff split: option.splits list.splits)
  show "acl_slots (acl_DeleteSession h c) = (acl_slots c)(h := None)"
    by (auto simp: acl_slots_def acl_DeleteSession_def chan_slots_def)
qed (simp_all add: acl_ok_StoreSession acl_ok_deliver acl_ok_DeleteSession)

definition example_acl :: AddressClient where
  "example_acl = \<lparr>acl_pool = example_apool, acl_sessions = Map.empty, acl_chans = (\<lambda>_. []), acl_made = 0,
     acl_TotalRequests = 0, acl_TotalResponses = 0, acl_TotalErrors = 0, acl_TotalTimeouts = 0\<rparr>"

text \<open>
  C8. All three tables of waiting requests refine the abstract one: whatever sequence of
  registrations, answers and ends of requests happens, the concrete table shows what the
  abstract table shows after the same events.
\<close>

theorem request_tables_refine:
  assumes "acl_ok ac"
  shows "c_pending (fold (request_run registerPending deliverBytes unregisterPending) evs c) =
     fold table_step evs (c_pending c) \<and>
   chan_slots (sc_pendingReqs (fold (request_run sc_register sc_deliver sc_finish) evs sc)) =
     fold table_step evs (chan_slots (sc_pendingReqs sc)) \<and>
   acl_slots (fold (request_run acl_StoreSession acl_deliver acl_DeleteSession) evs ac) =
     fold table_step evs (acl_slots ac)"
  using assms by (intro conjI client_table.refines server_table.refines session_table.refines) simp_all

theorem request_tables_refine_witness:
  "acl_slots (fold (request_run acl_StoreSession acl_deliver acl_DeleteSession)
     [Register 1, Register 2, Deliver 2 [7], Finish 1] example_acl) = [2 \<mapsto> Some [7]]"
  using request_tables_refine [of example_acl "[Register 1, Register 2, Deliver 2 [7], Finish 1]"]
  by (simp add: acl_ok_def example_acl_def acl_slots_def chan_slots_def fun_eq_iff)

lemma untouched_channel:
  assumes "\<forall>e \<in> set evs. \<not> touches h e" and "acl_sessions c h = Some ch"
  shows "acl_sessions (fold (request_run acl_StoreSession acl_deliver acl_DeleteSession) evs c) h = Some ch"
  using assms
proof (induction evs arbitrary: c)
  case (Cons e evs)
  then have "acl_sessions (request_run acl_StoreSession acl_deliver acl_DeleteSession e c) h = Some ch"
    by (cases e) (auto simp: acl_StoreSession_def acl_DeleteSession_def acl_deliver_def split: option.split)
  then show ?case
    using Cons by simp
qed simp

lemma session_channel:
  assumes "acl_ok c" and "acl_begin req c = (Some (h, ch), c1)" and "\<forall>e \<in> set evs. \<not> touches h e"
    and "c2 = fold (request_run acl_StoreSession acl_deliver acl_DeleteSession) evs c1"
  shows "case first_answer h evs of Some a \<Rightarrow> \<exists>ms. acl_chans c2 ch = a # ms | None \<Rightarrow> acl_chans c2 ch = []"
proof -
  let ?c = "c\<lparr>acl_TotalRequests := acl_TotalRequests c + 1\<rparr>"
  have c1: "c1 = acl_StoreSession h ?c" "ch = acl_made c"
    using assms(2) by (auto simp: acl_begin_def Let_def split: if_splits)
  have "acl_ok ?c"
    using assms(1) by (simp add: acl_ok_def)
  then have "acl_slots c2 h = Some (first_answer h evs)"
    using session_table.first_answer_counts [OF _ assms(3)] assms(4) c1(1) by simp
  moreover have "acl_sessions c2 h = Some ch"
    using untouched_channel [OF assms(3)] c1 assms(4) by (simp add: acl_StoreSession_def)
  ultimately show ?thesis
    by (cases "first_answer h evs") (auto simp: acl_slots_def chan_slots_def split: list.splits)
qed

text \<open>
  A request of the address client returns the first message that carries its Hop-by-Hop id,
  whatever other requests are registered, answered and ended meanwhile, and no other message.
\<close>

theorem session_first_answer:
  assumes "acl_ok c" and "acl_begin req c = (Some (h, ch), c1)" and "\<forall>e \<in> set evs. \<not> touches h e" and "first_answer h evs = Some a"
    and "c2 = fold (request_run acl_StoreSession acl_deliver acl_DeleteSession) evs c1"
  shows "h = Uint32 (bslice 12 16 req) \<and> acl_TotalRequests c1 = acl_TotalRequests c + 1 \<and>
    (\<exists>c3. acl_end WakeResponse h ch c2 = Some (Some a, c3) \<and> acl_sessions c3 = (acl_sessions c2)(h := None))"
proof -
  obtain ms where "acl_chans c2 ch = a # ms"
    using session_channel [OF assms(1-3,5)] assms(4) by auto
  then show ?thesis
    using assms(2) by (auto simp: acl_end_def acl_begin_def acl_DeleteSession_def acl_StoreSession_def Let_def split: if_splits)
qed

theorem session_first_answer_witness:
  "\<exists>c1 c3. acl_begin (replicate 20 0) example_acl = (Some (0, 0), c1) \<and>
     acl_end WakeResponse 0 0 (fold (request_run acl_StoreSession acl_deliver acl_DeleteSession)
       [Register 1, Deliver 1 [5], Deliver 0 [6], Deliver 0 [7]] c1) = Some (Some [6], c3)"
proof -
  have ok: "acl_ok example_acl"
    by (simp add: acl_ok_def example_acl_def)
  obtain c1 where b: "acl_begin (replicate 20 0) example_acl = (Some (0, 0), c1)"
    by (simp add: acl_begin_def bslice_def Let_def eval_nat_numeral wire_simps example_acl_def)
  show ?thesis
    using session_first_answer [OF ok b, of "[Register 1, Deliver 1 [5], Deliver 0 [6], Deliver 0 [7]]" "[6]"] b
    by auto
qed

end
