(* ===== verification/Diam_Client.thy ===== *)
theory Diam_Client
  imports Request_Table Diam_Server
begin

text \<open>
  The simple client (\<^verbatim>\<open>client/client.go\<close>): its configuration and its construction over a connection
  pool, its statistics, and a request with its answer. There is no table of requests: a caller
  that has sent its request takes whatever message the pool has received. The lemmas show that
  the count of active requests is exact and what answer a caller gets.
\<close>

section \<open>Configuration\<close>

record ClientConfig =
  clf_ServerAddress :: gostring
  clf_PoolSize :: int
  clf_MinPoolSize :: int
  clf_OriginHost :: gostring
  clf_OriginRealm :: gostring
  clf_ProductName :: gostring
  clf_VendorId :: u32
  clf_DWRInterval :: int
  clf_DWRTimeout :: int
  clf_MaxDWRFailures :: int
  clf_AuthAppIDs :: "u32 list"
  clf_AcctAppIDs :: "u32 list"

datatype client_error =
    ClientConfigNil
  | ClientFieldRequired string
  | ClientPoolSize
  | ClientMinPoolNegative
  | ClientMinPoolTooLarge
  | ClientPool config_error

text \<open>\<^verbatim>\<open>validateClientConfig\<close>: an error, or the configuration with its defaults filled in.\<close>

definition validateClientConfig :: "ClientConfig \<Rightarrow> (client_error, ClientConfig) result" where
  "validateClientConfig c =
     (if clf_ServerAddress c = [] then Inl (ClientFieldRequired ''ServerAddress'')
      else if clf_OriginHost c = [] then Inl (ClientFieldRequired ''OriginHost'')
      else if clf_OriginRealm c = [] then Inl (ClientFieldRequired ''OriginRealm'')
      else if clf_PoolSize c \<le> 0 then Inl ClientPoolSize
      else if clf_MinPoolSize c < 0 then Inl ClientMinPoolNegative
      else if clf_MinPoolSize c > clf_PoolSize c then Inl ClientMinPoolTooLarge
      else Inr (c\<lparr>clf_DWRInterval := (if clf_DWRInterval c \<le> 0 then 30000000000 else clf_DWRInterval c),
                  clf_DWRTimeout := (if clf_DWRTimeout c \<le> 0 then 10000000000 else clf_DWRTimeout c),
                  clf_MaxDWRFailures := (if clf_MaxDWRFailures c \<le> 0 then 3 else clf_MaxDWRFailures c)\<rparr>))"

text \<open>
  \<^verbatim>\<open>client.go\<close> declares \<^verbatim>\<open>InterfaceStats\<close> and \<^verbatim>\<open>CommandStats\<close> a second time, with the fields and the
  \<^verbatim>\<open>getOrCreateCommandStats\<close> of the server; the model shares them.
\<close>

record DiamClient =
  dcl_config :: ClientConfig
  dcl_pool :: ConnectionPool
  dcl_ctxDone :: bool
  dcl_TotalRequests :: u64
  dcl_TotalResponses :: u64
  dcl_TotalErrors :: u64
  dcl_ActiveRequests :: u64
  dcl_BytesSent :: u64
  dcl_BytesReceived :: u64
  dcl_InterfaceStats :: "int \<rightharpoonup> InterfaceStats"

definition clientPoolConfig :: "ClientConfig \<Rightarrow> DRAConfig" where
  "clientPoolConfig c =
     \<lparr>Host = clf_ServerAddress c, Port = 3868, LocalAddr = [], LocalPortMin = 0, LocalPortMax = 0,
      OriginHost = clf_OriginHost c, OriginRealm = clf_OriginRealm c, ProductName = clf_ProductName c,
      VendorID = clf_VendorId c, ConnectionCount = clf_PoolSize c, DWRInterval = clf_DWRInterval c,
      DWRTimeout = clf_DWRTimeout c, MaxDWRFailures = clf_MaxDWRFailures c,
      ReconnectInterval = 5000000000, MaxReconnectDelay = 300000000000, SendBufferSize = 100,
      RecvBufferSize = 100, AuthAppIDs = clf_AuthAppIDs c, AcctAppIDs = clf_AcctAppIDs c,
      hasAcquireLocalAddr = False, hasReleaseLocalAddr = False\<rparr>"

definition NewClient ::
  "(gostring \<Rightarrow> bytes option) \<Rightarrow> ClientConfig option \<Rightarrow> (client_error, DiamClient) result" where
  "NewClient parseIP config =
     (case config of
        None \<Rightarrow> Inl ClientConfigNil
      | Some cfg0 \<Rightarrow>
          (case validateClientConfig cfg0 of
             Inl err \<Rightarrow> Inl err
           | Inr cfg \<Rightarrow>
               (case NewConnectionPool parseIP (clientPoolConfig cfg) of
                  Inl err \<Rightarrow> Inl (ClientPool err)
                | Inr pool \<Rightarrow> Inr \<lparr>dcl_config = cfg, dcl_pool = pool, dcl_ctxDone = False,
                    dcl_TotalRequests = 0, dcl_TotalResponses = 0, dcl_TotalErrors = 0,
                    dcl_ActiveRequests = 0, dcl_BytesSent = 0, dcl_BytesReceived = 0, dcl_InterfaceStats = Map.empty\<rparr>)))"

section \<open>Requests\<close>

definition cl_getOrCreateInterfaceStats ::
  "int \<Rightarrow> (int \<rightharpoonup> InterfaceStats) \<Rightarrow> InterfaceStats \<times> (int \<rightharpoonup> InterfaceStats)" where
  "cl_getOrCreateInterfaceStats appID tbl =
     (case tbl appID of
        Some stats \<Rightarrow> (stats, tbl)
      | None \<Rightarrow> (newInterfaceStats, tbl(appID \<mapsto> newInterfaceStats)))"

text \<open>The counters of one message of \<open>n\<close> bytes, sent and received; the pointers are updated in place.\<close>

definition cl_countSent :: "Command \<Rightarrow> nat \<Rightarrow> (int \<rightharpoonup> InterfaceStats) \<Rightarrow> int \<rightharpoonup> InterfaceStats" where
  "cl_countSent cmd n tbl =
     (let (ifStats, tbl1) = cl_getOrCreateInterfaceStats (cmd_Interface cmd) tbl;
          if1 = ifStats\<lparr>is_MessagesSent := is_MessagesSent ifStats + 1,
                        is_BytesSent := is_BytesSent ifStats + word_of_nat n\<rparr>;
          (cmdStats, if2) = getOrCreateCommandStats (cmd_Code cmd) if1;
          cs1 = cmdStats\<lparr>cs_MessagesSent := cs_MessagesSent cmdStats + 1,
                         cs_BytesSent := cs_BytesSent cmdStats + word_of_nat n\<rparr>
      in tbl1(cmd_Interface cmd \<mapsto> if2\<lparr>is_CommandStats := (is_CommandStats if2)(cmd_Code cmd \<mapsto> cs1)\<rparr>))"

definition cl_countReceived :: "Command \<Rightarrow> nat \<Rightarrow> (int \<rightharpoonup> InterfaceStats) \<Rightarrow> int \<rightharpoonup> InterfaceStats" where
  "cl_countReceived cmd n tbl =
     (let (ifStats, tbl1) = cl_getOrCreateInterfaceStats (cmd_Interface cmd) tbl;
          if1 = ifStats\<lparr>is_MessagesReceived := is_MessagesReceived ifStats + 1,
                        is_BytesReceived := is_BytesReceived ifStats + word_of_nat n\<rparr>;
          (cmdStats, if2) = getOrCreateCommandStats (cmd_Code cmd) if1;
          cs1 = cmdStats\<lparr>cs_MessagesReceived := cs_MessagesReceived cmdStats + 1,
                         cs_BytesReceived := cs_BytesReceived cmdStats + word_of_nat n\<rparr>
      in tbl1(cmd_Interface cmd \<mapsto> if2\<lparr>is_CommandStats := (is_CommandStats if2)(cmd_Code cmd \<mapsto> cs1)\<rparr>))"

text \<open>\<^verbatim>\<open>SendWithTimeout\<close> up to the wait, and its end: the arm of the \<^verbatim>\<open>select\<close> that fired.\<close>

definition cl_begin :: "bytes \<Rightarrow> DiamClient \<Rightarrow> send_error option \<times> DiamClient" where
  "cl_begin msg c =
     (let c1 = c\<lparr>dcl_TotalRequests := dcl_TotalRequests c + 1, dcl_ActiveRequests := dcl_ActiveRequests c + 1\<rparr>
      in case cp_Send msg (dcl_pool c1) of
           (Some err, p) \<Rightarrow> (Some err, c1\<lparr>dcl_pool := p, dcl_TotalErrors := dcl_TotalErrors c1 + 1,
             dcl_ActiveRequests := dcl_ActiveRequests c1 + NOT 0\<rparr>)
         | (None, p) \<Rightarrow>
             (None, c1\<lparr>dcl_pool := p, dcl_BytesSent := dcl_BytesSent c1 + word_of_nat (length msg),
                dcl_InterfaceStats :=
                  (if 20 \<le> length msg
                   then (case ParseCommand (take 20 msg) of
                           Inr cmd \<Rightarrow> cl_countSent cmd (length msg) (dcl_InterfaceStats c)
                         | Inl err \<Rightarrow> dcl_InterfaceStats c)
                   else dcl_InterfaceStats c)\<rparr>))"

definition cl_end :: "wake \<Rightarrow> DiamClient \<Rightarrow> (bytes option \<times> DiamClient) option" where
  "cl_end w c =
     (let c0 = c\<lparr>dcl_ActiveRequests := dcl_ActiveRequests c + NOT 0\<rparr>
      in case w of
           WakeResponse \<Rightarrow>
             (case cp_recvCh (dcl_pool c) of
                [] \<Rightarrow> None
              | m # ms \<Rightarrow>
                  let data = msg_Header m @ msg_Body m
                  in Some (Some data, c0\<lparr>dcl_pool := (dcl_pool c)\<lparr>cp_recvCh := ms\<rparr>,
                       dcl_TotalResponses := dcl_TotalResponses c + 1,
                       dcl_BytesReceived := dcl_BytesReceived c + word_of_nat (length data),
                       dcl_InterfaceStats :=
                         (if 20 \<le> length data
                          then (case ParseCommand (msg_Header m) of
                                  Inr cmd \<Rightarrow> cl_countReceived cmd (length data) (dcl_InterfaceStats c)
                                | Inl err \<Rightarrow> dcl_InterfaceStats c)
                          else dcl_InterfaceStats c)\<rparr>))
         | WakeTimeout \<Rightarrow> Some (None, c0\<lparr>dcl_TotalErrors := dcl_TotalErrors c + 1\<rparr>)
         | WakeClosed \<Rightarrow> if dcl_ctxDone c then Some (None, c0) else None)"

lemma cp_Send_recvCh: "cp_recvCh (snd (cp_Send msg p)) = cp_recvCh p"
  by (auto simp: cp_Send_def sendOn_def Let_def split: option.split prod.split)

text \<open>
  The count of active requests is exact: a request that could not be sent leaves it as it was, and
  a request that was sent raises it by one until it ends, however it ends.
\<close>

theorem active_requests_exact:
  "(case cl_begin req c of
      (Some err, c1) \<Rightarrow> dcl_ActiveRequests c1 = dcl_ActiveRequests c
    | (None, c1) \<Rightarrow> dcl_ActiveRequests c1 = dcl_ActiveRequests c + 1) \<and>
   (case cl_end w c of None \<Rightarrow> True | Some (r, c2) \<Rightarrow> dcl_ActiveRequests c2 = dcl_ActiveRequests c - 1)"
  by (simp add: cl_begin_def cl_end_def Let_def split: prod.split option.split wake.split list.split)

text \<open>
  The simple client does not match answers to requests: a message the pool had received before
  the request was even sent, such as the late answer to a request that has timed out, is
  returned as its answer.
\<close>

theorem stale_answer_returned:
  assumes "cp_recvCh (dcl_pool c) = m # ms" and "cl_begin req c = (None, c1)"
  shows "\<exists>c2. cl_end WakeResponse c1 = Some (Some (msg_Header m @ msg_Body m), c2) \<and>
    cp_recvCh (dcl_pool c2) = ms \<and> dcl_ActiveRequests c2 = dcl_ActiveRequests c"
proof -
  obtain p where p: "cp_Send req (dcl_pool c) = (None, p)"
    and c1: "dcl_pool c1 = p" "dcl_ActiveRequests c1 = dcl_ActiveRequests c + 1"
    using assms(2) by (auto simp: cl_begin_def Let_def split: prod.splits option.splits)
  have "cp_recvCh p = m # ms"
    using cp_Send_recvCh [of req "dcl_pool c"] p assms(1) by simp
  then show ?thesis
    by (simp add: cl_end_def c1 Let_def)
qed

definition example_client :: DiamClient where
  "example_client = \<lparr>dcl_config = \<lparr>clf_ServerAddress = [49], clf_PoolSize = 1, clf_MinPoolSize = 0,
       clf_OriginHost = [104], clf_OriginRealm = [114], clf_ProductName = [112], clf_VendorId = 0,
       clf_DWRInterval = 2, clf_DWRTimeout = 1, clf_MaxDWRFailures = 1, clf_AuthAppIDs = [], clf_AcctAppIDs = []\<rparr>,
     dcl_pool = \<lparr>cp_config = c_config example_conn,
       cp_connections = [([97], example_conn\<lparr>c_state := StateOpen\<rparr>)], cp_nextConnIdx = 0, cp_closed = False,
       cp_recvCh = [\<lparr>msg_Length = 20, msg_Header = [9], msg_Body = []\<rparr>]\<rparr>,
     dcl_ctxDone = False, dcl_TotalRequests = 0, dcl_TotalResponses = 0, dcl_TotalErrors = 0,
     dcl_ActiveRequests = 0, dcl_BytesSent = 0, dcl_BytesReceived = 0, dcl_InterfaceStats = Map.empty\<rparr>"

theorem stale_answer_returned_witness:
  "\<exists>c1 c2. cl_begin [7] example_client = (None, c1) \<and> cl_end WakeResponse c1 = Some (Some [9], c2)"
proof -
  have "fst (cl_begin [7] example_client) = None"
    by (simp add: cl_begin_def cp_Send_def example_client_def rotation_def connActive_def sendOn_def Send_def
        IsActive_def state_IsActive_def example_conn_def NewConnection_def)
  then obtain c1 where b: "cl_begin [7] example_client = (None, c1)"
    by (metis prod.collapse)
  then show ?thesis
    using stale_answer_returned [OF _ b] by (auto simp: example_client_def)
qed

end
