(* ===== verification/Port_Pool.thy ===== *)
theory Port_Pool
  imports Prelude "HOL-Library.AList" "HOL-Library.Multiset"
begin

text \<open>
  \<^verbatim>\<open>pkg/portpool\<close>: the bounded pool of source ports that every outbound connection must use. Go
  maps are association lists with distinct keys; where the code ranges over a map, the
  iteration order, which Go leaves open, is an argument. The clock is an argument too
  (\<^verbatim>\<open>cfg.Now()\<close>, nanoseconds).

  The locale \<open>port_source\<close> is what a dialer relies on; it is interpreted on the pool. The lemmas
  show that free, used and quarantined ports always partition the configured range, that no
  port is held twice, that allocation fails only when it has to, and that a released port
  stays out of circulation for the whole quarantine.
\<close>

section \<open>Configuration and state\<close>

record Config =
  SourceIP :: "bytes option"
  MinPort :: int
  MaxPort :: int
  QuarantineDuration :: int

record Pool =
  cfg :: Config
  free :: "int list"
  inUse :: "(int \<times> gostring) list"
  quarantine :: "(int \<times> int) list"
  failures :: u64

datatype pool_error =
    ErrPoolExhausted
  | SourceIPRequired
  | MinPortOutOfRange int
  | MaxPortOutOfRange int
  | MinPortAboveMaxPort int int
  | NegativeQuarantine

definition New :: "Config \<Rightarrow> (pool_error, Pool) result" where
  "New c =
     (if SourceIP c = None then Inl SourceIPRequired
      else if MinPort c < 1 \<or> MinPort c > 65535 then Inl (MinPortOutOfRange (MinPort c))
      else if MaxPort c < 1 \<or> MaxPort c > 65535 then Inl (MaxPortOutOfRange (MaxPort c))
      else if MinPort c > MaxPort c then Inl (MinPortAboveMaxPort (MinPort c) (MaxPort c))
      else if QuarantineDuration c < 0 then Inl NegativeQuarantine
      else Inr \<lparr>cfg = c, free = [MinPort c..MaxPort c], inUse = [], quarantine = [], failures = 0\<rparr>)"

section \<open>Operations\<close>

definition sweepPort :: "int \<Rightarrow> int \<Rightarrow> Pool \<Rightarrow> Pool" where
  "sweepPort now port p =
     (case map_of (quarantine p) port of
        None \<Rightarrow> p
      | Some until \<Rightarrow>
          if \<not> now < until
          then p\<lparr>quarantine := AList.delete port (quarantine p), free := free p @ [port]\<rparr>
          else p)"

definition sweepQuarantineLocked :: "int list \<Rightarrow> int \<Rightarrow> Pool \<Rightarrow> Pool" where
  "sweepQuarantineLocked order now p =
     (if quarantine p = [] then p else fold (sweepPort now) order p)"

definition Acquire ::
  "int list \<Rightarrow> int \<Rightarrow> gostring \<Rightarrow> Pool \<Rightarrow> (pool_error, int) result \<times> Pool" where
  "Acquire order now owner p0 =
     (let p = sweepQuarantineLocked order now p0
      in case free p of
           [] \<Rightarrow> (Inl ErrPoolExhausted, p\<lparr>failures := failures p + 1\<rparr>)
         | port # rest \<Rightarrow>
             (Inr port, p\<lparr>free := rest, inUse := AList.update port owner (inUse p)\<rparr>))"

definition Release :: "int \<Rightarrow> int \<Rightarrow> Pool \<Rightarrow> Pool" where
  "Release now port p =
     (if map_of (inUse p) port = None then p
      else
        let p' = p\<lparr>inUse := AList.delete port (inUse p)\<rparr>
        in if QuarantineDuration (cfg p) > 0
           then p'\<lparr>quarantine :=
                  AList.update port (now + QuarantineDuration (cfg p)) (quarantine p')\<rparr>
           else p'\<lparr>free := free p' @ [port]\<rparr>)"

definition Contains :: "Pool \<Rightarrow> int \<Rightarrow> bool" where
  "Contains p port \<longleftrightarrow> port \<ge> MinPort (cfg p) \<and> port \<le> MaxPort (cfg p)"

record PoolStats =
  st_SourceIP :: "bytes option"
  st_MinPort :: int
  st_MaxPort :: int
  st_Total :: int
  st_InUse :: int
  st_Quarantined :: int
  st_Free :: int
  st_AllocationFailures :: u64

definition Stats :: "int list \<Rightarrow> int \<Rightarrow> Pool \<Rightarrow> PoolStats \<times> Pool" where
  "Stats order now p0 =
     (let p = sweepQuarantineLocked order now p0;
          total = MaxPort (cfg p) - MinPort (cfg p) + 1;
          inuse = int (length (inUse p));
          q = int (length (quarantine p));
          fr = total - inuse - q;
          fr' = (if fr < 0 then 0 else fr)
      in (\<lparr>st_SourceIP = SourceIP (cfg p), st_MinPort = MinPort (cfg p),
           st_MaxPort = MaxPort (cfg p), st_Total = total, st_InUse = inuse,
           st_Quarantined = q, st_Free = fr', st_AllocationFailures = failures p\<rparr>, p))"

definition InUseOwners :: "Pool \<Rightarrow> (int \<times> gostring) list" where
  "InUseOwners p = inUse p"

definition LocalTCPAddr :: "Pool \<Rightarrow> int \<Rightarrow> bytes option \<times> int" where
  "LocalTCPAddr p port = (SourceIP (cfg p), port)"

text \<open>A history of calls, each under the pool's mutex.\<close>

datatype pool_op =
    OpAcquire "int list" int gostring
  | OpRelease int int
  | OpStats "int list" int

fun pool_step :: "pool_op \<Rightarrow> Pool \<Rightarrow> Pool" where
  "pool_step (OpAcquire order now owner) p = snd (Acquire order now owner p)"
| "pool_step (OpRelease now port) p = Release now port p"
| "pool_step (OpStats order now) p = snd (Stats order now p)"

section \<open>The partition invariant\<close>

definition keys :: "('k \<times> 'v) list \<Rightarrow> 'k multiset" where
  "keys al = mset (map fst al)"

lemma set_keys [simp]: "set_mset (keys al) = fst ` set al"
  by (simp add: keys_def)

lemma keys_delete:
  "distinct (map fst al) \<Longrightarrow> map_of al k \<noteq> None \<Longrightarrow> keys al = add_mset k (keys (AList.delete k al))"
proof (induction al)
  case (Cons a al)
  obtain k' v' where a: "a = (k', v')" by (cases a)
  show ?case
  proof (cases "k' = k")
    case True
    then have "AList.delete k al = al"
      using Cons.prems a by (force simp: AList.delete_eq filter_id_conv)
    then show ?thesis
      using True by (simp add: a keys_def)
  qed (use Cons a in \<open>simp_all add: keys_def\<close>)
qed simp

lemma keys_update: "k \<notin> fst ` set al \<Longrightarrow> keys (AList.update k v al) = add_mset k (keys al)"
  by (induction al) (auto simp: keys_def)

definition ports :: "Pool \<Rightarrow> int multiset" where
  "ports p = mset (free p) + keys (inUse p) + keys (quarantine p)"

definition pool_inv :: "Pool \<Rightarrow> bool" where
  "pool_inv p \<longleftrightarrow> ports p = mset [MinPort (cfg p)..MaxPort (cfg p)]"

lemma pool_inv_distinct:
  assumes "pool_inv p"
  shows "distinct (free p @ map fst (inUse p) @ map fst (quarantine p))"
proof -
  have "mset (free p @ map fst (inUse p) @ map fst (quarantine p)) =
      mset [MinPort (cfg p)..MaxPort (cfg p)]"
    using assms by (simp add: pool_inv_def ports_def keys_def add.assoc)
  then show ?thesis
    using mset_eq_imp_distinct_iff distinct_upto by blast
qed

lemma pool_inv_set:
  assumes "pool_inv p"
  shows "set (free p) \<union> fst ` set (inUse p) \<union> fst ` set (quarantine p) =
    {MinPort (cfg p)..MaxPort (cfg p)}"
proof -
  have "set_mset (ports p) = {MinPort (cfg p)..MaxPort (cfg p)}"
    using assms by (simp add: pool_inv_def)
  then show ?thesis
    by (simp add: ports_def)
qed

lemma sweepPort_inv [intro]:
  assumes "pool_inv p"
  shows "pool_inv (sweepPort now port p)"
proof (cases "map_of (quarantine p) port")
  case (Some until)
  then have "keys (quarantine p) = add_mset port (keys (AList.delete port (quarantine p)))"
    using keys_delete [of "quarantine p" port] pool_inv_distinct [OF assms] by simp
  then show ?thesis
    using assms Some by (simp add: pool_inv_def ports_def sweepPort_def)
qed (simp add: sweepPort_def assms)

lemma sweep_cfg [simp]:
  "cfg (sweepPort now port p) = cfg p" "inUse (sweepPort now port p) = inUse p"
  "failures (sweepPort now port p) = failures p"
  by (auto simp: sweepPort_def split: option.split)

lemma fold_sweepPort [simp]:
  "cfg (fold (sweepPort now) order p) = cfg p" "inUse (fold (sweepPort now) order p) = inUse p"
  "failures (fold (sweepPort now) order p) = failures p"
  by (induction order arbitrary: p) auto

lemma sweep_inv: "pool_inv p \<Longrightarrow> pool_inv (fold (sweepPort now) order p)"
  by (induction order arbitrary: p) auto

lemma sweepQuarantineLocked_simps [simp]:
  "cfg (sweepQuarantineLocked order now p) = cfg p"
  "inUse (sweepQuarantineLocked order now p) = inUse p"
  "failures (sweepQuarantineLocked order now p) = failures p"
  "pool_inv p \<Longrightarrow> pool_inv (sweepQuarantineLocked order now p)"
  by (simp_all add: sweepQuarantineLocked_def sweep_inv)

lemma Acquire_cfg [simp]: "cfg (snd (Acquire order now owner p)) = cfg p"
  by (simp add: Acquire_def Let_def split: list.split)

lemma Acquire_inv: "pool_inv p \<Longrightarrow> pool_inv (snd (Acquire order now owner p))"
  using pool_inv_distinct [of "sweepQuarantineLocked order now p"]
    sweepQuarantineLocked_simps(4) [of p order now]
  by (auto simp: Acquire_def pool_inv_def ports_def Let_def keys_update split: list.split)

lemma Release_inv:
  assumes "pool_inv p"
  shows "pool_inv (Release now port p)"
proof (cases "map_of (inUse p) port")
  case (Some owner)
  then have "keys (inUse p) = add_mset port (keys (AList.delete port (inUse p)))"
    and "port \<notin> fst ` set (quarantine p)"
    using pool_inv_distinct [OF assms] keys_delete [of "inUse p" port] map_of_SomeD [OF Some]
    by (auto simp: image_iff) (metis IntI empty_iff fst_conv image_eqI)
  then show ?thesis
    using assms Some by (simp add: Release_def pool_inv_def ports_def Let_def keys_update)
qed (simp add: Release_def assms)

lemma pool_step_inv: "pool_inv p \<Longrightarrow> pool_inv (pool_step op p)"
  by (cases op) (simp_all add: Acquire_inv Release_inv Stats_def Let_def)

lemma New_inv: "New c = Inr p \<Longrightarrow> pool_inv p \<and> cfg p = c \<and> inUse p = [] \<and> quarantine p = []"
  by (auto simp: New_def pool_inv_def ports_def keys_def split: if_splits)

lemma pool_steps_inv: "pool_inv p \<Longrightarrow> pool_inv (fold pool_step ops p)"
  by (induction ops arbitrary: p) (simp_all add: pool_step_inv)

lemma pool_step_cfg [simp]: "cfg (pool_step op p) = cfg p"
  by (cases op) (simp_all add: Release_def Stats_def Let_def)

lemma pool_steps_cfg [simp]: "cfg (fold pool_step ops p) = cfg p"
  by (induction ops arbitrary: p) simp_all

section \<open>What a dialer relies on\<close>

text \<open>
  \<open>held s\<close> are the ports currently leased. \<open>'e\<close> stands for what the environment contributes to a
  call: the clock and the iteration order.
\<close>

locale port_source =
  fixes acquire :: "'e \<Rightarrow> gostring \<Rightarrow> 's \<Rightarrow> (pool_error, int) result \<times> 's"
    and release :: "'e \<Rightarrow> int \<Rightarrow> 's \<Rightarrow> 's"
    and inv :: "'s \<Rightarrow> bool"
    and held :: "'s \<Rightarrow> int set"
    and in_range :: "'s \<Rightarrow> int \<Rightarrow> bool"
  assumes acquire_inv: "inv s \<Longrightarrow> inv (snd (acquire e owner s))"
    and acquire_fresh: "inv s \<Longrightarrow> acquire e owner s = (Inr port, s') \<Longrightarrow>
      port \<notin> held s \<and> held s' = insert port (held s) \<and> in_range s port"
    and acquire_failed: "inv s \<Longrightarrow> acquire e owner s = (Inl err, s') \<Longrightarrow> held s' = held s"
    and acquire_range: "in_range (snd (acquire e owner s)) = in_range s"
    and release_inv: "inv s \<Longrightarrow> inv (release e port s)"
    and release_held: "inv s \<Longrightarrow> held (release e port s) = held s - {port}"
    and release_range: "in_range (release e port s) = in_range s"

text \<open>
  Clients of the pool: a lease is taken and remembered on success, and given back by a client
  that holds it. \<open>leases\<close> are the ports that some client believes to own.
\<close>

datatype 'e lease_op = Take 'e gostring | Give 'e int

fun lease_step ::
  "('e \<Rightarrow> gostring \<Rightarrow> 's \<Rightarrow> (pool_error, int) result \<times> 's) \<Rightarrow> ('e \<Rightarrow> int \<Rightarrow> 's \<Rightarrow> 's) \<Rightarrow>
   'e lease_op \<Rightarrow> 's \<times> int list \<Rightarrow> 's \<times> int list" where
  "lease_step acquire release (Take e owner) (s, leases) =
     (case acquire e owner s of
        (Inr port, s') \<Rightarrow> (s', port # leases)
      | (Inl err, s') \<Rightarrow> (s', leases))"
| "lease_step acquire release (Give e port) (s, leases) =
     (if port \<in> set leases then (release e port s, remove1 port leases) else (s, leases))"

context port_source
begin

lemma lease_step_exclusive:
  assumes "inv s" "distinct leases" "set leases = held s" "\<forall>p \<in> set leases. in_range s p"
    and "lease_step acquire release op (s, leases) = (s', leases')"
  shows "inv s' \<and> distinct leases' \<and> set leases' = held s' \<and> (\<forall>p \<in> set leases'. in_range s' p)"
proof (cases op)
  case (Take e owner)
  obtain r t where a: "acquire e owner s = (r, t)" by (cases "acquire e owner s")
  then have "inv t" "in_range t = in_range s"
    using acquire_inv [OF assms(1), of e owner] acquire_range [of e owner s] by simp_all
  then show ?thesis
    using assms a Take acquire_fresh [OF assms(1), of e owner] acquire_failed [OF assms(1), of e owner]
    by (cases r) auto
next
  case (Give e port)
  then show ?thesis
    using assms release_inv release_held release_range [of e port s]
    by (auto split: if_splits)
qed

lemma leases_exclusive:
  assumes "inv s" "held s = {}"
    and "fold (lease_step acquire release) ops (s, []) = (s', leases)"
  shows "distinct leases \<and> set leases = held s' \<and> (\<forall>p \<in> set leases. in_range s' p)"
proof -
  have "inv s' \<and> distinct leases \<and> set leases = held s' \<and> (\<forall>p \<in> set leases. in_range s' p)"
    if "inv t" "distinct ls" "set ls = held t" "\<forall>p \<in> set ls. in_range t p"
      "fold (lease_step acquire release) ops (t, ls) = (s', leases)" for t ls
    using that
  proof (induction ops arbitrary: t ls)
    case (Cons op ops)
    obtain t' ls' where "lease_step acquire release op (t, ls) = (t', ls')"
      by (cases "lease_step acquire release op (t, ls)")
    then show ?case
      using Cons.IH [of t' ls'] Cons.prems lease_step_exclusive [of t ls op t' ls'] by simp
  qed simp
  from this [of s "[]"] show ?thesis
    using assms by simp
qed

end

lemma Acquire_fresh:
  assumes "pool_inv p" and "Acquire order now owner p = (Inr port, p')"
  shows "port \<notin> fst ` set (inUse p) \<and> fst ` set (inUse p') = insert port (fst ` set (inUse p)) \<and>
    Contains p port"
proof -
  let ?q = "sweepQuarantineLocked order now p"
  have "port \<in> set (free ?q)" and inUse: "inUse p' = AList.update port owner (inUse p)"
    using assms(2) by (auto simp: Acquire_def Let_def split: list.splits)
  moreover have "pool_inv ?q"
    using assms(1) by simp
  ultimately have "port \<notin> fst ` set (inUse p)" "port \<in> {MinPort (cfg p)..MaxPort (cfg p)}"
    using pool_inv_distinct [of ?q] pool_inv_set [of ?q] by auto
  then show ?thesis
    by (simp add: inUse Contains_def dom_update [unfolded dom_map_of_conv_image_fst])
qed

lemma Contains_cfg: "cfg p = cfg q \<Longrightarrow> Contains p = Contains q"
  by (rule ext) (simp add: Contains_def)

lemma inv_contains:
  assumes "pool_inv p"
  shows "port \<in> set (free p) \<union> fst ` set (inUse p) \<union> fst ` set (quarantine p) \<longleftrightarrow> Contains p port"
    and "port \<in> set (free p) \<Longrightarrow> Contains p port"
  using pool_inv_set [OF assms] unfolding Contains_def by auto

lemma Release_inUse:
  "fst ` set (inUse (Release now port p)) = fst ` set (inUse p) - {port}"
proof (cases "map_of (inUse p) port")
  case None
  then show ?thesis
    by (simp add: Release_def map_of_eq_None_iff)
qed (auto simp: Release_def Let_def AList.delete_eq)

interpretation pool: port_source
  "\<lambda>(order, now). Acquire order now" "\<lambda>(order, now). Release now"
  pool_inv "\<lambda>p. fst ` set (inUse p)" Contains
proof (unfold_locales, goal_cases)
  case (1 s e owner)
  then show ?case by (cases e) (simp add: Acquire_inv)
next
  case (2 s e owner port s')
  then show ?case by (cases e) (metis Acquire_fresh case_prod_conv)
next
  case (3 s e owner err s')
  then show ?case by (cases e) (auto simp: Acquire_def Let_def split: list.splits)
next
  case (4 e owner s)
  show ?case by (cases e) (auto intro: Contains_cfg)
next
  case (5 s e port)
  then show ?case by (cases e) (simp add: Release_inv)
next
  case (6 s e port)
  then show ?case by (cases e) (simp add: Release_inUse)
next
  case (7 e port s)
  show ?case by (cases e) (auto simp: Release_def Let_def intro!: Contains_cfg)
qed

section \<open>The sweep\<close>

definition expired :: "int \<Rightarrow> Pool \<Rightarrow> int \<Rightarrow> bool" where
  "expired now p port = (case map_of (quarantine p) port of None \<Rightarrow> False | Some until \<Rightarrow> until \<le> now)"

lemma sweepPort_effect:
  "map_of (quarantine (sweepPort now port p)) =
     (if expired now p port then (map_of (quarantine p))(port := None) else map_of (quarantine p))"
  "free (sweepPort now port p) = (if expired now p port then free p @ [port] else free p)"
  by (auto simp: sweepPort_def expired_def AList.delete_conv split: option.split)

lemma fold_sweepPort_effect:
  "map_of (quarantine (fold (sweepPort now) order p)) port =
     (if port \<in> set order \<and> expired now p port then None else map_of (quarantine p) port) \<and>
   set (free (fold (sweepPort now) order p)) = set (free p) \<union> {port \<in> set order. expired now p port}"
proof (induction order arbitrary: p)
  case (Cons a order)
  have "expired now (sweepPort now a p) x \<longleftrightarrow> expired now p x \<and> x \<noteq> a" for x
    by (auto simp: expired_def sweepPort_effect)
  then show ?case
    using Cons [of "sweepPort now a p"] by (auto simp: sweepPort_effect)
qed (simp add: expired_def)

lemma map_of_sweep:
  "map_of (quarantine (sweepQuarantineLocked order now p)) port =
     (if port \<in> set order \<and> expired now p port then None else map_of (quarantine p) port)"
  "set (free (sweepQuarantineLocked order now p)) =
     set (free p) \<union> {port \<in> set order. expired now p port}"
  using fold_sweepPort_effect [of now order p]
  by (auto simp: sweepQuarantineLocked_def expired_def)

section \<open>Properties\<close>

text \<open>
  C4. Whatever calls a pool has served since its creation, with whatever clock readings and map
  iteration orders, its free, used and quarantined ports are exactly the configured range, each
  port once: none is lost, none is duplicated, none is invented.
\<close>

theorem pool_partition:
  assumes "New c = Inr p"
  shows "ports (fold pool_step ops p) = mset [MinPort c..MaxPort c]"
  using pool_steps_inv [of p ops] New_inv [OF assms] by (simp add: pool_inv_def)

definition example_config :: Config where
  "example_config =
     \<lparr>SourceIP = Some [10, 0, 0, 1], MinPort = 4000, MaxPort = 4001, QuarantineDuration = 60\<rparr>"

lemma New_example:
  "New example_config =
     Inr \<lparr>cfg = example_config, free = [4000, 4001], inUse = [], quarantine = [], failures = 0\<rparr>"
  by (simp add: New_def example_config_def upto.simps)

theorem pool_partition_witness:
  "ports (fold pool_step [OpAcquire [] 0 [97], OpRelease 5 4000, OpAcquire [4000] 9 [98]]
     \<lparr>cfg = example_config, free = [4000, 4001], inUse = [], quarantine = [], failures = 0\<rparr>) =
   {#4000, 4001#}"
  by (subst pool_partition [OF New_example]) (simp add: example_config_def upto.simps)

text \<open>
  Leases are exclusive: in any history of successful and failed allocations and of releases,
  the ports that clients hold are pairwise distinct, lie in the configured range, and are exactly
  the ports the pool records as in use.
\<close>

theorem pool_leases_exclusive:
  assumes "New c = Inr p"
    and "fold (lease_step (\<lambda>(order, now). Acquire order now) (\<lambda>(order, now). Release now)) ops
      (p, []) = (p', leases)"
  shows "distinct leases \<and> set leases = fst ` set (inUse p') \<and> (\<forall>port \<in> set leases. Contains p' port)"
  using New_inv [OF assms(1)] pool.leases_exclusive [OF _ _ assms(2)] by simp

theorem pool_leases_exclusive_witness:
  "\<exists>p'. fold (lease_step (\<lambda>(order, now). Acquire order now) (\<lambda>(order, now). Release now))
      [Take ([], 0) [97], Take ([], 1) [98], Take ([], 2) [99]]
      (\<lparr>cfg = example_config, free = [4000, 4001], inUse = [], quarantine = [], failures = 0\<rparr>, []) =
        (p', [4001, 4000]) \<and> distinct [4001, 4000 :: int] \<and> failures p' = 1"
proof -
  let ?p = "\<lparr>cfg = example_config, free = [4000, 4001], inUse = [], quarantine = [], failures = 0\<rparr>"
  let ?ops = "[Take ([], 0) [97], Take ([], 1) [98], Take ([], 2) [99]] :: (int list \<times> int) lease_op list"
  obtain p' where r: "fold (lease_step (\<lambda>(order, now). Acquire order now) (\<lambda>(order, now). Release now))
      ?ops (?p, []) = (p', [4001, 4000])" and f: "failures p' = 1"
    by (simp add: Acquire_def sweepQuarantineLocked_def)
  then show ?thesis
    using pool_leases_exclusive [OF New_example r] by blast
qed

text \<open>
  \<^verbatim>\<open>Acquire\<close> fails with \<^verbatim>\<open>ErrPoolExhausted\<close> exactly when every port of the range is in use or
  still in quarantine; the sweep visits every quarantined port.
\<close>

theorem Acquire_exhausted:
  assumes "pool_inv p" and "fst ` set (quarantine p) \<subseteq> set order"
  shows "fst (Acquire order now owner p) = Inl ErrPoolExhausted \<longleftrightarrow>
    (\<forall>port. Contains p port \<longrightarrow>
       port \<in> fst ` set (inUse p) \<or> (\<exists>until. map_of (quarantine p) port = Some until \<and> now < until))"
proof -
  let ?q = "sweepQuarantineLocked order now p"
  have "expired now p x \<Longrightarrow> x \<in> fst ` set (quarantine p)" for x
    by (force simp: expired_def dest: map_of_SomeD split: option.splits)
  then have fr: "set (free ?q) = set (free p) \<union> {x. expired now p x}"
    using assms(2) by (auto simp: map_of_sweep)
  have "fst (Acquire order now owner p) = Inl ErrPoolExhausted \<longleftrightarrow> set (free ?q) = {}"
    by (simp add: Acquire_def Let_def split: list.split)
  also have "\<dots> \<longleftrightarrow> (\<forall>port. Contains p port \<longrightarrow> port \<notin> set (free ?q))"
  proof -
    have "Contains p port" if "port \<in> set (free ?q)" for port
    proof -
      have "Contains ?q = Contains p"
        by (rule Contains_cfg) simp
      then show ?thesis
        using inv_contains(2) [of ?q port] assms(1) that by simp
    qed
    then show ?thesis
      by (metis all_not_in_conv)
  qed
  also have "\<dots> \<longleftrightarrow> (\<forall>port. Contains p port \<longrightarrow> port \<in> fst ` set (inUse p) \<or>
      (\<exists>until. map_of (quarantine p) port = Some until \<and> now < until))"
  proof -
    have "port \<notin> set (free ?q) \<longleftrightarrow> port \<in> fst ` set (inUse p) \<or>
        (\<exists>until. map_of (quarantine p) port = Some until \<and> now < until)" if "Contains p port" for port
    proof -
      have k: "map_of (quarantine p) port = None \<longleftrightarrow> port \<notin> fst ` set (quarantine p)"
        by (simp add: map_of_eq_None_iff)
      have "port \<in> set (free p) \<union> fst ` set (inUse p) \<union> fst ` set (quarantine p)"
        using that inv_contains [OF assms(1)] by blast
      then show ?thesis
        using k pool_inv_distinct [OF assms(1)]
        by (cases "map_of (quarantine p) port") (auto simp: fr expired_def not_le)
    qed
    then show ?thesis
      by blast
  qed
  finally show ?thesis .
qed

theorem Acquire_exhausted_witness:
  "fst (Acquire [4000] 10 [97] \<lparr>cfg = example_config, free = [], inUse = [(4001, [98])],
       quarantine = [(4000, 60)], failures = 0\<rparr>) = Inl ErrPoolExhausted"
proof -
  let ?p = "\<lparr>cfg = example_config, free = [], inUse = [(4001, [98])],
       quarantine = [(4000, 60)], failures = 0\<rparr>"
  have "pool_inv ?p"
    by (simp add: pool_inv_def ports_def keys_def example_config_def upto.simps)
  then show ?thesis
    using Acquire_exhausted [of ?p "[4000]" 10 "[97]"]
    by (auto simp: Contains_def example_config_def)
qed

fun op_time :: "pool_op \<Rightarrow> int" where
  "op_time (OpAcquire order now owner) = now"
| "op_time (OpRelease now port) = now"
| "op_time (OpStats order now) = now"

lemma pool_step_quarantined:
  assumes "map_of (quarantine p) port = Some until" and "op_time op < until" and "pool_inv p"
  shows "map_of (quarantine (pool_step op p)) port = Some until"
proof (cases op)
  case (OpAcquire order now owner)
  then show ?thesis
    using assms by (auto simp: Acquire_def Let_def map_of_sweep expired_def split: list.split)
next
  case (OpRelease now q)
  have "port \<in> fst ` set (quarantine p)"
    using assms(1) by (force dest: map_of_SomeD)
  then have "port \<notin> fst ` set (inUse p)"
    using pool_inv_distinct [OF assms(3)] by auto
  then have "map_of (inUse p) port = None"
    by (simp add: map_of_eq_None_iff)
  then show ?thesis
    using assms OpRelease by (auto simp: Release_def Let_def update_conv')
next
  case (OpStats order now)
  then show ?thesis
    using assms by (auto simp: Stats_def Let_def map_of_sweep expired_def)
qed

text \<open>
  Quarantine: once a held port has been released at time \<open>t\<close>, no history of calls whose clock
  readings stay below \<open>t + QuarantineDuration\<close> puts it back in circulation: it stays in
  quarantine, so no \<^verbatim>\<open>Acquire\<close> returns it.
\<close>

theorem released_port_quarantined:
  assumes "pool_inv p" and "map_of (inUse p) port = Some owner" and "QuarantineDuration (cfg p) > 0"
    and "\<forall>op \<in> set ops. op_time op < t + QuarantineDuration (cfg p)"
    and "p' = fold pool_step ops (Release t port p)"
  shows "map_of (quarantine p') port = Some (t + QuarantineDuration (cfg p)) \<and>
    (\<forall>order now owner'. now < t + QuarantineDuration (cfg p) \<longrightarrow>
       fst (Acquire order now owner' p') \<noteq> Inr port)"
proof -
  let ?u = "t + QuarantineDuration (cfg p)"
  have keep: "map_of (quarantine (fold pool_step ops q)) port = Some ?u \<and> pool_inv (fold pool_step ops q)"
    if "map_of (quarantine q) port = Some ?u" "pool_inv q" for q
    using that assms(4)
    by (induction ops arbitrary: q) (auto simp: pool_step_quarantined pool_step_inv)
  have "map_of (quarantine (Release t port p)) port = Some ?u"
    using assms by (simp add: Release_def Let_def update_conv')
  then have q: "map_of (quarantine p') port = Some ?u" "pool_inv p'"
    using keep [of "Release t port p"] Release_inv assms(1,5) by blast+
  have "fst (Acquire order now owner' p') \<noteq> Inr port" if "now < ?u" for order now owner'
  proof
    assume "fst (Acquire order now owner' p') = Inr port"
    then have "port \<in> set (free (sweepQuarantineLocked order now p'))"
      by (auto simp: Acquire_def Let_def split: list.splits)
    moreover have "port \<notin> set (free p')"
      using pool_inv_distinct [OF q(2)] map_of_SomeD [OF q(1)] by force
    ultimately show False
      using q(1) that by (simp add: map_of_sweep expired_def)
  qed
  then show ?thesis
    using q by blast
qed

theorem released_port_quarantined_witness:
  "fst (Acquire [4000] 64 [99] (fold pool_step [OpAcquire [4000] 10 [98]] (Release 5 4000
     \<lparr>cfg = example_config, free = [4001], inUse = [(4000, [97])], quarantine = [],
      failures = 0\<rparr>))) \<noteq> Inr 4000"
proof -
  let ?p = "\<lparr>cfg = example_config, free = [4001], inUse = [(4000, [97])], quarantine = [],
      failures = 0\<rparr>"
  have "pool_inv ?p"
    by (simp add: pool_inv_def ports_def keys_def example_config_def upto.simps)
  then show ?thesis
    using released_port_quarantined [of ?p 4000 "[97]" "[OpAcquire [4000] 10 [98]]" 5]
    by (simp add: example_config_def)
qed

text \<open>
  \<^verbatim>\<open>Release\<close> is idempotent and ignores ports that are not in use, as its deferred callers
  need: a second release changes nothing, whenever it happens.
\<close>

theorem Release_idempotent:
  "Release t' port (Release t port p) = Release t port p \<and>
   (port \<notin> fst ` set (inUse p) \<longrightarrow> Release t port p = p)"
proof -
  have "map_of (inUse (Release t port p)) port = None"
    using Release_inUse [of t port p] by (simp add: map_of_eq_None_iff)
  then show ?thesis
    by (simp add: Release_def map_of_eq_None_iff)
qed

theorem Release_idempotent_witness:
  "Release 9 1 \<lparr>cfg = example_config, free = [4000, 4001], inUse = [], quarantine = [],
      failures = 0\<rparr> = \<lparr>cfg = example_config, free = [4000, 4001], inUse = [], quarantine = [],
      failures = 0\<rparr>"
  using Release_idempotent [of 0 1 9 "\<lparr>cfg = example_config, free = [4000, 4001], inUse = [],
      quarantine = [], failures = 0\<rparr>"] by simp

text \<open>
  The figures \<^verbatim>\<open>Stats\<close> reports add up: the free count it derives by subtraction is the length
  of the free list after the sweep, so its clamp at zero never acts.
\<close>

theorem Stats_consistent:
  assumes "pool_inv p" and "Stats order now p = (s, p')" and "MinPort (cfg p) \<le> MaxPort (cfg p) + 1"
  shows "st_Free s = int (length (free p')) \<and>
    st_Total s = st_Free s + st_InUse s + st_Quarantined s"
proof -
  have p': "p' = sweepQuarantineLocked order now p"
    using assms(2) by (simp add: Stats_def Let_def)
  have "size (ports p') = length [MinPort (cfg p)..MaxPort (cfg p)]"
    using assms(1) p' sweepQuarantineLocked_simps(4) [of p order now]
    by (simp add: pool_inv_def)
  then have "int (length (free p') + length (inUse p') + length (quarantine p')) =
      MaxPort (cfg p) - MinPort (cfg p) + 1"
    using assms(3) by (simp add: ports_def keys_def length_upto)
  then show ?thesis
    using assms(2) by (auto simp: Stats_def Let_def p')
qed

theorem Stats_consistent_witness:
  "st_Free (fst (Stats [4000] 70 \<lparr>cfg = example_config, free = [4001], inUse = [],
      quarantine = [(4000, 65)], failures = 0\<rparr>)) = 2"
proof -
  let ?p = "\<lparr>cfg = example_config, free = [4001], inUse = [], quarantine = [(4000, 65)],
      failures = 0\<rparr>"
  have "pool_inv ?p"
    by (simp add: pool_inv_def ports_def keys_def example_config_def upto.simps)
  then have "st_Free (fst (Stats [4000] 70 ?p)) = int (length (free (snd (Stats [4000] 70 ?p))))"
    using Stats_consistent [of ?p "[4000]" 70] by (simp add: example_config_def prod_eq_iff)
  then show ?thesis
    by (simp add: Stats_def Let_def sweepQuarantineLocked_def sweepPort_def)
qed

end
