(* ===== verification/Conn_Manager.thy ===== *)
theory Conn_Manager
  imports Client_Steps Port_Pool
begin

text \<open>
  The connection manager (\<^verbatim>\<open>pkg/connmanager/manager.go\<close>): one connection per agent and Diameter
  interface, each dialled from a port of a shared pool. The manager's closures connect the port pool
  of \<^verbatim>\<open>pkg/portpool\<close> with the hooks of \<^verbatim>\<open>client.Connection\<close>; here the two models are put together
  in the same way, and the runs of all slots over one pool are a step relation.
\<close>

section \<open>Configuration\<close>

definition InterfaceS6a :: gostring where "InterfaceS6a = [115, 54, 97]"
definition InterfaceS13 :: gostring where "InterfaceS13 = [115, 49, 51]"
definition S6A_APPLICATION_ID :: u32 where "S6A_APPLICATION_ID = 16777251"

record InterfaceSpec =
  is_Interface :: gostring
  is_ApplicationID :: u32

definition DefaultInterfaces :: "InterfaceSpec list" where
  "DefaultInterfaces =
     [\<lparr>is_Interface = InterfaceS6a, is_ApplicationID = S6A_APPLICATION_ID\<rparr>,
      \<lparr>is_Interface = InterfaceS13, is_ApplicationID = S13_APPLICATION_ID\<rparr>]"

record Key =
  key_DRA :: gostring
  key_Interface :: gostring

definition Key_String :: "Key \<Rightarrow> gostring" where
  "Key_String k = key_DRA k @ [47] @ key_Interface k"

record DRASpec =
  spec_Name :: gostring
  spec_Host :: gostring
  spec_Port :: int

record mgr_Config =
  mc_SourceIP :: "bytes option"
  mc_MinPort :: int
  mc_MaxPort :: int
  mc_QuarantineDuration :: int
  mc_DRAs :: "DRASpec list"
  mc_Interfaces :: "InterfaceSpec list"
  mc_OriginHost :: gostring
  mc_OriginRealm :: gostring
  mc_ProductName :: gostring
  mc_VendorID :: u32
  mc_DWRInterval :: int
  mc_DWRTimeout :: int
  mc_MaxDWRFailures :: int
  mc_ReconnectInterval :: int
  mc_MaxReconnectDelay :: int
  mc_SendBufferSize :: nat
  mc_RecvBufferSize :: nat

text \<open>Durations are in nanoseconds.\<close>

definition second :: int where "second = 1000000000"

definition withDefaults :: "mgr_Config \<Rightarrow> mgr_Config" where
  "withDefaults c =
     c\<lparr>mc_Interfaces := (if mc_Interfaces c = [] then DefaultInterfaces else mc_Interfaces c),
       mc_QuarantineDuration := (if mc_QuarantineDuration c = 0 then 60 * second else mc_QuarantineDuration c),
       mc_DWRInterval := (if mc_DWRInterval c = 0 then 30 * second else mc_DWRInterval c),
       mc_DWRTimeout := (if mc_DWRTimeout c = 0 then 10 * second else mc_DWRTimeout c),
       mc_MaxDWRFailures := (if mc_MaxDWRFailures c = 0 then 3 else mc_MaxDWRFailures c),
       mc_ReconnectInterval := (if mc_ReconnectInterval c = 0 then second else mc_ReconnectInterval c),
       mc_MaxReconnectDelay := (if mc_MaxReconnectDelay c = 0 then 30 * second else mc_MaxReconnectDelay c),
       mc_SendBufferSize := (if mc_SendBufferSize c = 0 then 1000 else mc_SendBufferSize c),
       mc_RecvBufferSize := (if mc_RecvBufferSize c = 0 then 1000 else mc_RecvBufferSize c),
       mc_ProductName := (if mc_ProductName c = []
         then [68, 105, 97, 109, 101, 116, 101, 114, 45, 71, 87] else mc_ProductName c),
       mc_VendorID := (if mc_VendorID c = 0 then 10415 else mc_VendorID c)\<rparr>"

datatype mgr_error =
    MgrSourceIPRequired
  | MgrOriginHostRequired
  | MgrOriginRealmRequired
  | MgrNoDRAs
  | MgrNameRequired
  | MgrDuplicateName gostring
  | MgrHostRequired gostring
  | MgrPortOutOfRange gostring int
  | MgrPortRangeTooSmall int int
  | MgrPool pool_error
  | MgrSlot gostring config_error
  | MgrClosed

fun checkSpecs :: "gostring set \<Rightarrow> DRASpec list \<Rightarrow> mgr_error option" where
  "checkSpecs seen [] = None"
| "checkSpecs seen (d # rest) =
     (if spec_Name d = [] then Some MgrNameRequired
      else if spec_Name d \<in> seen then Some (MgrDuplicateName (spec_Name d))
      else if spec_Host d = [] then Some (MgrHostRequired (spec_Name d))
      else if spec_Port d \<le> 0 \<or> spec_Port d > 65535 then Some (MgrPortOutOfRange (spec_Name d) (spec_Port d))
      else checkSpecs (insert (spec_Name d) seen) rest)"

definition validate :: "mgr_Config \<Rightarrow> mgr_error option" where
  "validate c =
     (if mc_SourceIP c = None then Some MgrSourceIPRequired
      else if mc_OriginHost c = [] then Some MgrOriginHostRequired
      else if mc_OriginRealm c = [] then Some MgrOriginRealmRequired
      else if mc_DRAs c = [] then Some MgrNoDRAs
      else case checkSpecs {} (mc_DRAs c) of
             Some err \<Rightarrow> Some err
           | None \<Rightarrow>
               let totalSlots = int (length (mc_DRAs c)) * int (length (mc_Interfaces c));
                   totalPorts = mc_MaxPort c - mc_MinPort c + 1
               in if totalPorts \<le> totalSlots then Some (MgrPortRangeTooSmall totalPorts totalSlots)
                  else None)"

section \<open>The manager\<close>

record mgr_slot =
  sl_key :: Key
  sl_app :: u32
  sl_cfg :: DRAConfig
  sl_conn :: Connection

record Manager =
  m_cfg :: mgr_Config
  m_pool :: Pool
  m_slots :: "Key \<rightharpoonup> mgr_slot"
  m_keys :: "Key list"
  m_ctxDone :: bool

definition buildSlotConfig :: "mgr_Config \<Rightarrow> DRASpec \<Rightarrow> InterfaceSpec \<Rightarrow> DRAConfig" where
  "buildSlotConfig c dra ispec =
     \<lparr>Host = spec_Host dra, Port = spec_Port dra, LocalAddr = [], LocalPortMin = 0, LocalPortMax = 0,
      OriginHost = mc_OriginHost c, OriginRealm = mc_OriginRealm c, ProductName = mc_ProductName c,
      VendorID = mc_VendorID c, ConnectionCount = 1, DWRInterval = mc_DWRInterval c,
      DWRTimeout = mc_DWRTimeout c, MaxDWRFailures = mc_MaxDWRFailures c,
      ReconnectInterval = mc_ReconnectInterval c, MaxReconnectDelay = mc_MaxReconnectDelay c,
      SendBufferSize = mc_SendBufferSize c, RecvBufferSize = mc_RecvBufferSize c,
      AuthAppIDs = [is_ApplicationID ispec], AcctAppIDs = [],
      hasAcquireLocalAddr = True, hasReleaseLocalAddr = True\<rparr>"

text \<open>The two closures, over the pool they share.\<close>

definition acquireFn ::
  "int list \<Rightarrow> int \<Rightarrow> gostring \<Rightarrow> Pool \<Rightarrow> (pool_error, bytes option \<times> int) result \<times> Pool" where
  "acquireFn order now owner pool =
     (case Acquire order now owner pool of
        (Inl err, pool') \<Rightarrow> (Inl err, pool')
      | (Inr port, pool') \<Rightarrow> (Inr (LocalTCPAddr pool' port), pool'))"

definition releaseFn :: "int \<Rightarrow> (bytes option \<times> int) option \<Rightarrow> Pool \<Rightarrow> Pool" where
  "releaseFn now addr pool =
     (case addr of None \<Rightarrow> pool | Some (ip, port) \<Rightarrow> Release now port pool)"

fun addSlots ::
  "(gostring \<Rightarrow> bytes option) \<Rightarrow> mgr_Config \<Rightarrow> (DRASpec \<times> InterfaceSpec) list \<Rightarrow> Manager \<Rightarrow>
   (mgr_error, Manager) result" where
  "addSlots parseIP c [] m = Inr m"
| "addSlots parseIP c ((dra, ispec) # rest) m =
     (let key = \<lparr>key_DRA = spec_Name dra, key_Interface = is_Interface ispec\<rparr>;
          slotCfg = buildSlotConfig c dra ispec
      in case DRAConfig_Validate parseIP slotCfg of
           Some err \<Rightarrow> Inl (MgrSlot (Key_String key) err)
         | None \<Rightarrow>
             addSlots parseIP c rest
               (m\<lparr>m_slots := (m_slots m)(key \<mapsto>
                    \<lparr>sl_key = key, sl_app = is_ApplicationID ispec, sl_cfg = slotCfg,
                     sl_conn = NewConnection slotCfg\<rparr>),
                  m_keys := m_keys m @ [key]\<rparr>))"

definition mgr_New :: "(gostring \<Rightarrow> bytes option) \<Rightarrow> mgr_Config \<Rightarrow> (mgr_error, Manager) result" where
  "mgr_New parseIP cfg0 =
     (let c = withDefaults cfg0
      in case validate c of
           Some err \<Rightarrow> Inl err
         | None \<Rightarrow>
             (case New \<lparr>SourceIP = mc_SourceIP c, MinPort = mc_MinPort c, MaxPort = mc_MaxPort c,
                        QuarantineDuration = mc_QuarantineDuration c\<rparr> of
                Inl err \<Rightarrow> Inl (MgrPool err)
              | Inr pool \<Rightarrow>
                  addSlots parseIP c
                    (concat (map (\<lambda>dra. map (Pair dra) (mc_Interfaces c)) (mc_DRAs c)))
                    \<lparr>m_cfg = c, m_pool = pool, m_slots = Map.empty, m_keys = [], m_ctxDone = False\<rparr>))"

text \<open>
  \<^verbatim>\<open>Start\<close> and \<^verbatim>\<open>Close\<close> run the same method of every connection, each in a goroutine of its own; those
  goroutines are the steps below.
\<close>

definition mgr_Start :: "Manager \<Rightarrow> mgr_error option" where
  "mgr_Start m = (if m_ctxDone m then Some MgrClosed else None)"

definition mgr_Close :: "Manager \<Rightarrow> Manager" where
  "mgr_Close m = m\<lparr>m_ctxDone := True,
     m_slots := (\<lambda>k. map_option (\<lambda>s. s\<lparr>sl_conn := Close (sl_conn s)\<rparr>) (m_slots m k))\<rparr>"

definition mgr_Get :: "Key \<Rightarrow> Manager \<Rightarrow> Connection option" where
  "mgr_Get k m = map_option sl_conn (m_slots m k)"

definition Slots :: "Manager \<Rightarrow> mgr_slot list" where
  "Slots m = List.map_filter (m_slots m) (m_keys m)"

definition States :: "Manager \<Rightarrow> Key \<rightharpoonup> ConnectionState" where
  "States m = (\<lambda>k. map_option (c_state \<circ> sl_conn) (m_slots m k))"

definition ActiveCount :: "Manager \<Rightarrow> nat" where
  "ActiveCount m =
     length (filter (\<lambda>k. case m_slots m k of None \<Rightarrow> False | Some s \<Rightarrow> IsActive (sl_conn s))
       (remdups (m_keys m)))"

section \<open>The slots over one pool\<close>

record mgr_sys =
  ms_pool :: Pool
  ms_sys :: "Key \<Rightarrow> sys"

abbreviation slotHeld :: "mgr_sys \<Rightarrow> Key \<Rightarrow> int list" where
  "slotHeld g k \<equiv> c_held (sy_c (ms_sys g k))"

definition mgr_init :: "Manager \<Rightarrow> mgr_sys" where
  "mgr_init m = \<lparr>ms_pool = m_pool m,
     ms_sys = (\<lambda>k. sys_init (sl_cfg (the (m_slots m k))))\<rparr>"

text \<open>
  A slot takes a step of its own. If the step acquires a port, that port comes from the pool under
  the slot's name; the ports a step releases go back to the pool. A refused acquisition changes the
  pool too (the sweep and the failure counter); the slot sees it as its \<open>acquire_error\<close> step.
\<close>

inductive mgr_step :: "Key set \<Rightarrow> mgr_sys \<Rightarrow> mgr_sys \<Rightarrow> bool" for ks where
  slot_acquires: "k \<in> ks \<Longrightarrow> sys_step (ms_sys g k) y \<Longrightarrow> c_held (sy_c y) = port # slotHeld g k \<Longrightarrow>
    acquireFn order now (Key_String k) (ms_pool g) = (Inr (ip, port), pool) \<Longrightarrow>
    mgr_step ks g \<lparr>ms_pool = pool, ms_sys = (ms_sys g)(k := y)\<rparr>"
| slot_moves: "k \<in> ks \<Longrightarrow> sys_step (ms_sys g k) y \<Longrightarrow>
    mset (slotHeld g k) = mset (c_held (sy_c y)) + mset released \<Longrightarrow>
    mgr_step ks g \<lparr>ms_pool = fold (\<lambda>port. releaseFn now (Some (ip, port))) released (ms_pool g),
      ms_sys = (ms_sys g)(k := y)\<rparr>"
| acquire_refused: "acquireFn order now owner (ms_pool g) = (Inl err, pool) \<Longrightarrow>
    mgr_step ks g (g\<lparr>ms_pool := pool\<rparr>)"
| port_stats: "mgr_step ks g (g\<lparr>ms_pool := snd (Stats order now (ms_pool g))\<rparr>)"

inductive mgr_reach :: "Manager \<Rightarrow> mgr_sys \<Rightarrow> bool" for m where
  mgr_start: "mgr_reach m (mgr_init m)"
| mgr_run: "mgr_reach m g \<Longrightarrow> mgr_step (set (m_keys m)) g g' \<Longrightarrow> mgr_reach m g'"

definition mgr_inv :: "Key set \<Rightarrow> mgr_sys \<Rightarrow> bool" where
  "mgr_inv ks g \<longleftrightarrow> pool_inv (ms_pool g) \<and> (\<forall>k\<in>ks. ports_ok (ms_sys g k)) \<and>
     fst ` set (inUse (ms_pool g)) = (\<Union>k\<in>ks. set (slotHeld g k)) \<and>
     (\<forall>k\<in>ks. \<forall>k'\<in>ks. k \<noteq> k' \<longrightarrow> set (slotHeld g k) \<inter> set (slotHeld g k') = {})"

lemma fold_releaseFn:
  "pool_inv p \<Longrightarrow> pool_inv (fold (\<lambda>port. releaseFn now (Some (ip, port))) released p)"
  "fst ` set (inUse (fold (\<lambda>port. releaseFn now (Some (ip, port))) released p)) =
     fst ` set (inUse p) - set released"
  "cfg (fold (\<lambda>port. releaseFn now (Some (ip, port))) released p) = cfg p"
proof (induction released arbitrary: p)
  case (Cons port released)
  { case 1 then show ?case using Cons(1) Release_inv by (simp add: releaseFn_def) }
  { case 2 then show ?case using Cons(2) by (auto simp: releaseFn_def Release_inUse) }
  { case 3 then show ?case using Cons(3) by (simp add: releaseFn_def Release_def Let_def) }
qed simp_all

lemma acquireFn_cases:
  assumes "acquireFn order now owner p = (r, p')" and "pool_inv p"
  shows "pool_inv p' \<and> cfg p' = cfg p" and "r = Inl err \<Longrightarrow> inUse p' = inUse p"
    and "r = Inr (ip, port) \<Longrightarrow> port \<notin> fst ` set (inUse p) \<and> Contains p port \<and>
      fst ` set (inUse p') = insert port (fst ` set (inUse p))"
proof -
  obtain r0 where a: "Acquire order now owner p = (r0, p')"
    and r: "r = (case r0 of Inl e \<Rightarrow> Inl e | Inr q \<Rightarrow> Inr (LocalTCPAddr p' q))"
    using assms(1) by (cases "Acquire order now owner p"; cases "fst (Acquire order now owner p)")
      (auto simp: acquireFn_def)
  show "pool_inv p' \<and> cfg p' = cfg p"
    using Acquire_inv [OF assms(2)] Acquire_cfg a by (metis snd_conv)
  show "r = Inl err \<Longrightarrow> inUse p' = inUse p"
    using a r by (auto simp: Acquire_def Let_def split: list.splits sum.splits)
  show "r = Inr (ip, port) \<Longrightarrow> port \<notin> fst ` set (inUse p) \<and> Contains p port \<and>
      fst ` set (inUse p') = insert port (fst ` set (inUse p))"
    using Acquire_fresh [OF assms(2)] a r by (auto simp: LocalTCPAddr_def split: sum.splits)
qed

lemma Stats_pool: "pool_inv p \<Longrightarrow> pool_inv (snd (Stats order now p))"
  "inUse (snd (Stats order now p)) = inUse p" "cfg (snd (Stats order now p)) = cfg p"
  by (simp_all add: Stats_def Let_def)

lemma union_update:
  assumes "k \<in> ks" and "\<And>j j'. j \<in> ks \<Longrightarrow> j' \<in> ks \<Longrightarrow> j \<noteq> j' \<Longrightarrow> H j \<inter> H j' = {}"
  shows "R \<subseteq> H k \<Longrightarrow> (\<Union>j\<in>ks. if j = k then H k - R else H j) = (\<Union>j\<in>ks. H j) - R"
proof -
  assume R: "R \<subseteq> H k"
  have "(\<Union>j\<in>ks. if j = k then H k - R else H j) = (H k - R) \<union> (\<Union>j\<in>ks - {k}. H j)"
    using assms(1) by (auto split: if_splits)
  moreover have "(\<Union>j\<in>ks - {k}. H j) \<inter> R = {}"
    using R assms by blast
  moreover have "(\<Union>j\<in>ks. H j) = H k \<union> (\<Union>j\<in>ks - {k}. H j)"
    using assms(1) by blast
  ultimately show ?thesis
    by blast
qed

lemma mgr_inv_step:
  assumes "mgr_step ks g g'" and "mgr_inv ks g"
  shows "mgr_inv ks g'"
  using assms
proof (cases rule: mgr_step.cases)
  case (slot_acquires k y port order now ip pool)
  note a = acquireFn_cases [OF slot_acquires(5)]
  have "ports_ok y"
    using ports_ok_step slot_acquires(2,3) assms(2) by (auto simp: mgr_inv_def)
  then show ?thesis
    using assms(2) slot_acquires(1,2,4) a(1) a(3) [OF _ refl]
    unfolding mgr_inv_def by (auto split: if_splits)
next
  case (slot_moves k y released now ip)
  have ok: "ports_ok y" "distinct (slotHeld g k)"
    using ports_ok_step slot_moves(2,3) assms(2) by (auto simp: mgr_inv_def ports_ok_def)
  have "set (c_held (sy_c y)) = set (slotHeld g k) - set released \<and> set released \<subseteq> set (slotHeld g k)"
  proof -
    have m: "mset (slotHeld g k) = mset (c_held (sy_c y) @ released)"
      using slot_moves(4) by simp
    then have "distinct (c_held (sy_c y) @ released)" "set (slotHeld g k) = set (c_held (sy_c y) @ released)"
      using ok(2) mset_eq_imp_distinct_iff mset_eq_setD by blast+
    then show ?thesis
      by auto
  qed
  then have R: "set released \<subseteq> set (slotHeld g k)" and H: "set (slotHeld g' j) =
      (if j = k then set (slotHeld g k) - set released else set (slotHeld g j))" for j
    by (simp_all add: slot_moves(1))
  have D: "j \<in> ks \<Longrightarrow> j' \<in> ks \<Longrightarrow> j \<noteq> j' \<Longrightarrow> set (slotHeld g j) \<inter> set (slotHeld g j') = {}" for j j'
    using assms(2) by (simp add: mgr_inv_def)
  have "(\<Union>j\<in>ks. set (slotHeld g' j)) = (\<Union>j\<in>ks. set (slotHeld g j)) - set released"
    unfolding H by (rule union_update [where H = "\<lambda>j. set (slotHeld g j)", OF slot_moves(2) D R])
  moreover have "fst ` set (inUse (ms_pool g')) = (\<Union>j\<in>ks. set (slotHeld g j)) - set released"
    using assms(2) fold_releaseFn(2) [where p = "ms_pool g" and released = released]
    by (simp add: slot_moves(1) mgr_inv_def)
  ultimately have "fst ` set (inUse (ms_pool g')) = (\<Union>j\<in>ks. set (slotHeld g' j))"
    by (simp only:)
  moreover have "set (slotHeld g' j) \<inter> set (slotHeld g' j') = {}" if "j \<in> ks" "j' \<in> ks" "j \<noteq> j'" for j j'
    using D [OF that] unfolding H by auto
  ultimately show ?thesis
    using assms(2) ok(1) by (simp add: mgr_inv_def slot_moves(1) fold_releaseFn(1))
next
  case (acquire_refused order now owner err pool)
  then show ?thesis
    using assms(2) acquireFn_cases [OF acquire_refused(2)] unfolding mgr_inv_def by auto
next
  case (port_stats order now)
  then show ?thesis
    using assms(2) by (simp add: mgr_inv_def Stats_pool)
qed

section \<open>Construction\<close>

lemma New_free: "New c = Inr p \<Longrightarrow> free p = [MinPort c..MaxPort c]"
  by (auto simp: New_def split: if_splits)

lemma checkSpecs_ok:
  "checkSpecs seen ds = None \<Longrightarrow> distinct (map spec_Name ds) \<and> spec_Name ` set ds \<inter> seen = {}"
proof (induction ds arbitrary: seen)
  case (Cons d ds)
  have d: "spec_Name d \<notin> seen" "checkSpecs (insert (spec_Name d) seen) ds = None"
    using Cons.prems by (auto split: if_splits)
  show ?case
    using Cons.IH [OF d(2)] d(1) by auto
qed simp

abbreviation slotKey :: "DRASpec \<times> InterfaceSpec \<Rightarrow> Key" where
  "slotKey x \<equiv> \<lparr>key_DRA = spec_Name (fst x), key_Interface = is_Interface (snd x)\<rparr>"

definition slot_ok :: "mgr_Config \<Rightarrow> Key \<Rightarrow> mgr_slot \<Rightarrow> bool" where
  "slot_ok c k s \<longleftrightarrow> sl_key s = k \<and> sl_conn s = NewConnection (sl_cfg s) \<and>
     AuthAppIDs (sl_cfg s) = [sl_app s] \<and> ConnectionCount (sl_cfg s) = 1 \<and>
     hasAcquireLocalAddr (sl_cfg s) \<and> hasReleaseLocalAddr (sl_cfg s) \<and>
     OriginHost (sl_cfg s) = mc_OriginHost c \<and> OriginRealm (sl_cfg s) = mc_OriginRealm c \<and>
     (\<exists>dra\<in>set (mc_DRAs c). \<exists>ispec\<in>set (mc_Interfaces c). k = slotKey (dra, ispec) \<and>
        sl_app s = is_ApplicationID ispec \<and> Host (sl_cfg s) = spec_Host dra \<and> Port (sl_cfg s) = spec_Port dra)"

lemma addSlots_ok:
  assumes "addSlots parseIP c xs m = Inr m'" and "set xs \<subseteq> set (mc_DRAs c) \<times> set (mc_Interfaces c)"
    and "dom (m_slots m) = set (m_keys m)" and "\<forall>k s. m_slots m k = Some s \<longrightarrow> slot_ok c k s"
  shows "m_keys m' = m_keys m @ map slotKey xs \<and> dom (m_slots m') = set (m_keys m') \<and>
    (\<forall>k s. m_slots m' k = Some s \<longrightarrow> slot_ok c k s) \<and> m_pool m' = m_pool m \<and> m_cfg m' = m_cfg m \<and>
    m_ctxDone m' = m_ctxDone m"
  using assms
proof (induction xs arbitrary: m)
  case (Cons x xs)
  obtain dra ispec where x: "x = (dra, ispec)"
    by (cases x)
  let ?cfg = "buildSlotConfig c dra ispec"
  let ?s = "\<lparr>sl_key = slotKey x, sl_app = is_ApplicationID ispec, sl_cfg = ?cfg, sl_conn = NewConnection ?cfg\<rparr>"
  let ?m = "m\<lparr>m_slots := (m_slots m)(slotKey x \<mapsto> ?s), m_keys := m_keys m @ [slotKey x]\<rparr>"
  have r: "addSlots parseIP c xs ?m = Inr m'"
    using Cons.prems(1) by (simp add: x Let_def split: option.splits)
  have "slot_ok c (slotKey x) ?s"
    using Cons.prems(2) by (auto simp: slot_ok_def x buildSlotConfig_def)
  then have "\<forall>k s. m_slots ?m k = Some s \<longrightarrow> slot_ok c k s"
    using Cons.prems(4) by simp
  moreover have "dom (m_slots ?m) = set (m_keys ?m)" "set xs \<subseteq> set (mc_DRAs c) \<times> set (mc_Interfaces c)"
    using Cons.prems(2,3) by auto
  ultimately have "m_keys m' = m_keys ?m @ map slotKey xs \<and> dom (m_slots m') = set (m_keys m') \<and>
      (\<forall>k s. m_slots m' k = Some s \<longrightarrow> slot_ok c k s) \<and> m_pool m' = m_pool ?m \<and> m_cfg m' = m_cfg ?m \<and>
      m_ctxDone m' = m_ctxDone ?m"
    using Cons.IH [OF r] by blast
  then show ?case
    by simp
qed simp

lemma product_keys_distinct:
  assumes "distinct (map spec_Name dras)" and "distinct (map is_Interface ifs)"
  shows "distinct (map slotKey (concat (map (\<lambda>dra. map (Pair dra) ifs) dras)))"
  using assms(1)
proof (induction dras)
  case (Cons dra dras)
  have "distinct (map (\<lambda>i. slotKey (dra, i)) ifs)"
    using assms(2) by (simp add: distinct_map inj_on_def)
  then show ?case
    using Cons by (auto simp: comp_def map_concat)
qed simp

lemma mgr_New_cases:
  assumes "mgr_New parseIP cfg0 = Inr m"
  obtains "validate (withDefaults cfg0) = None" and "m_cfg m = withDefaults cfg0"
    and "New \<lparr>SourceIP = mc_SourceIP (m_cfg m), MinPort = mc_MinPort (m_cfg m), MaxPort = mc_MaxPort (m_cfg m),
           QuarantineDuration = mc_QuarantineDuration (m_cfg m)\<rparr> = Inr (m_pool m)"
    and "m_keys m = map slotKey (concat (map (\<lambda>dra. map (Pair dra) (mc_Interfaces (m_cfg m))) (mc_DRAs (m_cfg m))))"
    and "dom (m_slots m) = set (m_keys m)" and "\<forall>k s. m_slots m k = Some s \<longrightarrow> slot_ok (m_cfg m) k s"
    and "\<not> m_ctxDone m"
proof -
  let ?c = "withDefaults cfg0"
  let ?xs = "concat (map (\<lambda>dra. map (Pair dra) (mc_Interfaces ?c)) (mc_DRAs ?c))"
  obtain pool where v: "validate ?c = None" and n: "New \<lparr>SourceIP = mc_SourceIP ?c, MinPort = mc_MinPort ?c,
      MaxPort = mc_MaxPort ?c, QuarantineDuration = mc_QuarantineDuration ?c\<rparr> = Inr pool"
    and a: "addSlots parseIP ?c ?xs
      \<lparr>m_cfg = ?c, m_pool = pool, m_slots = Map.empty, m_keys = [], m_ctxDone = False\<rparr> = Inr m"
    using assms by (auto simp: mgr_New_def Let_def split: option.splits sum.splits)
  have "set ?xs \<subseteq> set (mc_DRAs ?c) \<times> set (mc_Interfaces ?c)"
    by auto
  from addSlots_ok [OF a this] show thesis
    using that v n by simp
qed

lemma mgr_init_inv:
  assumes "mgr_New parseIP cfg0 = Inr m"
  shows "mgr_inv (set (m_keys m)) (mgr_init m)"
  using assms
proof (cases rule: mgr_New_cases)
  case 1
  have "ports_ok (sys_init (sl_cfg s))" if "slot_ok c k s" for c k s
    using that ports_ok_reach [OF sys_reach.init] by (simp add: slot_ok_def)
  then have "\<forall>k\<in>set (m_keys m). ports_ok (ms_sys (mgr_init m) k)"
    using 1(5,6) unfolding mgr_init_def mgr_sys.simps by (metis domD option.sel)
  then show ?thesis
    using New_inv [OF 1(3)] by (auto simp: mgr_inv_def mgr_init_def sys_init_def NewConnection_def)
qed

lemma mgr_reach_inv:
  assumes "mgr_reach m g" and "mgr_New parseIP cfg0 = Inr m"
  shows "mgr_inv (set (m_keys m)) g \<and> cfg (ms_pool g) = cfg (m_pool m)"
  using assms(1)
proof (induction rule: mgr_reach.induct)
  case mgr_start
  then show ?case
    using mgr_init_inv [OF assms(2)] by (simp add: mgr_init_def)
next
  case (mgr_run g g')
  have "cfg (ms_pool g') = cfg (ms_pool g)"
    using mgr_run.hyps(2) mgr_run.IH acquireFn_cases(1)
    by cases (auto simp: fold_releaseFn(3) Stats_pool(3) mgr_inv_def)
  then show ?case
    using mgr_run mgr_inv_step by simp
qed

section \<open>Properties\<close>

text \<open>
  C11. No two slots ever use the same source port: in every reachable state of the slots over their
  pool, the ports that different slots know are disjoint, and each of them lies in the configured
  range and is leased in the pool.
\<close>

theorem slots_share_no_port:
  assumes "mgr_New parseIP cfg0 = Inr m" and "mgr_reach m g"
    and "k \<in> set (m_keys m)" and "k' \<in> set (m_keys m)" and "k \<noteq> k'"
  shows "set (tracked (ms_sys g k)) \<inter> set (tracked (ms_sys g k')) = {} \<and>
    set (tracked (ms_sys g k)) \<subseteq> fst ` set (inUse (ms_pool g)) \<inter> {mc_MinPort (m_cfg m)..mc_MaxPort (m_cfg m)}"
proof -
  have inv: "mgr_inv (set (m_keys m)) g" and cfg: "cfg (ms_pool g) = cfg (m_pool m)"
    using mgr_reach_inv [OF assms(2,1)] by blast+
  have held: "set (tracked (ms_sys g j)) \<subseteq> set (slotHeld g j)" if "j \<in> set (m_keys m)" for j
    using inv that by (simp add: mgr_inv_def ports_ok_def)
  have "set (slotHeld g k) \<inter> set (slotHeld g k') = {}" "set (slotHeld g k) \<subseteq> fst ` set (inUse (ms_pool g))"
    using inv assms(3-5) unfolding mgr_inv_def by auto
  moreover have "fst ` set (inUse (ms_pool g)) \<subseteq> {mc_MinPort (m_cfg m)..mc_MaxPort (m_cfg m)}"
  proof -
    have "cfg (m_pool m) = \<lparr>SourceIP = mc_SourceIP (m_cfg m), MinPort = mc_MinPort (m_cfg m),
        MaxPort = mc_MaxPort (m_cfg m), QuarantineDuration = mc_QuarantineDuration (m_cfg m)\<rparr>"
      using assms(1) by (cases rule: mgr_New_cases) (use New_inv in blast)
    moreover have "pool_inv (ms_pool g)"
      using inv by (simp add: mgr_inv_def)
    ultimately show ?thesis
      using inv_contains(1) [of "ms_pool g"] cfg unfolding Contains_def by (metis (no_types, lifting)
          UnI1 UnI2 Config.select_convs(2,3) atLeastAtMost_iff subsetI)
  qed
  ultimately show ?thesis
    using held assms(3,4) by blast
qed

definition example_mgr_config :: mgr_Config where
  "example_mgr_config =
     \<lparr>mc_SourceIP = Some [10, 0, 0, 1], mc_MinPort = 5000, mc_MaxPort = 5007, mc_QuarantineDuration = 0,
      mc_DRAs = [\<lparr>spec_Name = [49], spec_Host = [97], spec_Port = 3868\<rparr>,
        \<lparr>spec_Name = [50], spec_Host = [98], spec_Port = 3868\<rparr>],
      mc_Interfaces = [], mc_OriginHost = [103], mc_OriginRealm = [114], mc_ProductName = [],
      mc_VendorID = 0, mc_DWRInterval = 0, mc_DWRTimeout = 0, mc_MaxDWRFailures = 0,
      mc_ReconnectInterval = 0, mc_MaxReconnectDelay = 0, mc_SendBufferSize = 0, mc_RecvBufferSize = 0\<rparr>"

lemma example_mgr: "\<exists>m. mgr_New (\<lambda>_. None) example_mgr_config = Inr m"
  by (simp add: mgr_New_def example_mgr_config_def withDefaults_def validate_def New_def DefaultInterfaces_def
      DRAConfig_Validate_def buildSlotConfig_def second_def Let_def)

theorem slots_share_no_port_witness:
  "\<exists>m k k'. mgr_New (\<lambda>_. None) example_mgr_config = Inr m \<and> k \<noteq> k' \<and>
     set (tracked (ms_sys (mgr_init m) k)) \<inter> set (tracked (ms_sys (mgr_init m) k')) = {}"
proof -
  obtain m where m: "mgr_New (\<lambda>_. None) example_mgr_config = Inr m"
    using example_mgr by blast
  let ?k = "\<lparr>key_DRA = [49], key_Interface = InterfaceS6a\<rparr>" and ?k' = "\<lparr>key_DRA = [49], key_Interface = InterfaceS13\<rparr>"
  have k: "?k \<in> set (m_keys m)" "?k' \<in> set (m_keys m)" "?k \<noteq> ?k'"
    using m by (cases rule: mgr_New_cases; simp add: example_mgr_config_def withDefaults_def DefaultInterfaces_def
        InterfaceS6a_def InterfaceS13_def)+
  show ?thesis
    using slots_share_no_port [OF m mgr_reach.mgr_start k] m k(3) by blast
qed

text \<open>
  A manager has one slot for every pair of agent and interface and no other; when the interface
  names differ, the keys differ too and there are as many as pairs. Each slot's connection is new
  and advertises its own application alone, and the pool has more ports than there are slots.
\<close>

theorem mgr_New_slots:
  assumes "mgr_New parseIP cfg0 = Inr m" and "distinct (map is_Interface (mc_Interfaces (m_cfg m)))"
  shows "distinct (m_keys m) \<and>
    set (m_keys m) = slotKey ` (set (mc_DRAs (m_cfg m)) \<times> set (mc_Interfaces (m_cfg m))) \<and>
    (\<forall>k\<in>set (m_keys m). \<exists>s. m_slots m k = Some s \<and> slot_ok (m_cfg m) k s) \<and>
    length (m_keys m) < length (free (m_pool m))"
  using assms(1)
proof (cases rule: mgr_New_cases)
  case 1
  let ?c = "m_cfg m"
  have v: "validate ?c = None"
    using 1(1,2) by simp
  have names: "distinct (map spec_Name (mc_DRAs ?c))"
    using v checkSpecs_ok [of "{}" "mc_DRAs ?c"] by (auto simp: validate_def split: if_splits option.splits)
  have "length (m_keys m) = length (mc_DRAs ?c) * length (mc_Interfaces ?c)"
    unfolding 1(4) by (simp add: length_concat comp_def sum_list_triv)
  moreover have "free (m_pool m) = [mc_MinPort ?c..mc_MaxPort ?c]"
    using New_free [OF 1(3)] by simp
  moreover have "int (length (mc_DRAs ?c)) * int (length (mc_Interfaces ?c)) < mc_MaxPort ?c - mc_MinPort ?c + 1"
    using v by (auto simp: validate_def Let_def split: if_splits option.splits)
  ultimately have "int (length (m_keys m)) < int (length (free (m_pool m)))"
    by simp
  then have "length (m_keys m) < length (free (m_pool m))"
    by linarith
  moreover have "distinct (m_keys m)"
    unfolding 1(4) by (rule product_keys_distinct [OF names assms(2)])
  moreover have "set (concat (map (\<lambda>dra. map (Pair dra) (mc_Interfaces ?c)) (mc_DRAs ?c))) =
      set (mc_DRAs ?c) \<times> set (mc_Interfaces ?c)"
    by auto
  then have "set (m_keys m) = slotKey ` (set (mc_DRAs ?c) \<times> set (mc_Interfaces ?c))"
    unfolding 1(4) set_map by (simp only:)
  moreover have "\<forall>k\<in>set (m_keys m). \<exists>s. m_slots m k = Some s \<and> slot_ok ?c k s"
    using 1(5,6) by (metis domD)
  ultimately show ?thesis
    by blast
qed

theorem mgr_New_slots_witness:
  "\<exists>m. mgr_New (\<lambda>_. None) example_mgr_config = Inr m \<and> distinct (m_keys m)"
proof -
  obtain m where m: "mgr_New (\<lambda>_. None) example_mgr_config = Inr m"
    using example_mgr by blast
  then have "distinct (map is_Interface (mc_Interfaces (m_cfg m)))"
    by (cases rule: mgr_New_cases) (simp add: example_mgr_config_def withDefaults_def DefaultInterfaces_def
        InterfaceS6a_def InterfaceS13_def)
  then show ?thesis
    using mgr_New_slots [OF m] m by blast
qed

end
