(* ===== verification/Go_Strings.thy ===== *)
theory Go_Strings
  imports Prelude
begin

text \<open>
  The functions of Go's packages \<^verbatim>\<open>strings\<close>, \<^verbatim>\<open>strconv\<close> and \<^verbatim>\<open>bufio\<close> the code generator uses, over ASCII
  text (the definitions of the \<^verbatim>\<open>proto\<close> files are ASCII, only their comments are not), with the facts
  about words, lines and decimal numbers that carry the proofs about the parser.
\<close>

section \<open>Package strings\<close>

definition isSpace :: "char \<Rightarrow> bool" where
  "isSpace c \<longleftrightarrow> c \<in> {CHR 0x09, CHR 0x0A, CHR 0x0B, CHR 0x0C, CHR 0x0D, CHR 0x20}"

definition TrimSpace :: "string \<Rightarrow> string" where
  "TrimSpace s = rev (dropWhile isSpace (rev (dropWhile isSpace s)))"

text \<open>\<^verbatim>\<open>strings.Trim\<close> with a set of characters.\<close>

definition Trim :: "string \<Rightarrow> string \<Rightarrow> string" where
  "Trim s cutset = rev (dropWhile (\<lambda>c. c \<in> set cutset) (rev (dropWhile (\<lambda>c. c \<in> set cutset) s)))"

definition HasPrefix :: "string \<Rightarrow> string \<Rightarrow> bool" where
  "HasPrefix s p \<longleftrightarrow> take (length p) s = p"

definition HasSuffix :: "string \<Rightarrow> string \<Rightarrow> bool" where
  "HasSuffix s p \<longleftrightarrow> length p \<le> length s \<and> drop (length s - length p) s = p"

definition TrimPrefix :: "string \<Rightarrow> string \<Rightarrow> string" where
  "TrimPrefix s p = (if HasPrefix s p then drop (length p) s else s)"

definition TrimSuffix :: "string \<Rightarrow> string \<Rightarrow> string" where
  "TrimSuffix s p = (if HasSuffix s p then take (length s - length p) s else s)"

text \<open>\<^verbatim>\<open>strings.Index\<close>: \<open>None\<close> for \<open>-1\<close>.\<close>

fun Index :: "string \<Rightarrow> string \<Rightarrow> nat option" where
  "Index [] sub = (if sub = [] then Some 0 else None)"
| "Index (c # s) sub = (if HasPrefix (c # s) sub then Some 0 else map_option Suc (Index s sub))"

definition Contains :: "string \<Rightarrow> string \<Rightarrow> bool" where
  "Contains s sub \<longleftrightarrow> Index s sub \<noteq> None"

text \<open>\<^verbatim>\<open>strings.Split\<close> and \<^verbatim>\<open>strings.SplitN(s, sep, 2)\<close> for a separator of one character.\<close>

fun Split :: "string \<Rightarrow> char \<Rightarrow> string list" where
  "Split [] sep = [[]]"
| "Split (c # s) sep =
     (if c = sep then [] # Split s sep
      else (case Split s sep of [] \<Rightarrow> [[c]] | w # ws \<Rightarrow> (c # w) # ws))"

definition SplitN2 :: "string \<Rightarrow> char \<Rightarrow> string list" where
  "SplitN2 s sep =
     (if sep \<in> set s then [takeWhile (\<lambda>c. c \<noteq> sep) s, tl (dropWhile (\<lambda>c. c \<noteq> sep) s)] else [s])"

text \<open>\<^verbatim>\<open>strings.Fields\<close>: the maximal runs of characters that are not white space.\<close>

fun fieldsFrom :: "string \<Rightarrow> string \<Rightarrow> string list" where
  "fieldsFrom cur [] = (if cur = [] then [] else [cur])"
| "fieldsFrom cur (c # s) =
     (if isSpace c then (if cur = [] then [] else [cur]) @ fieldsFrom [] s
      else fieldsFrom (cur @ [c]) s)"

definition Fields :: "string \<Rightarrow> string list" where
  "Fields s = fieldsFrom [] s"

definition ToUpperChar :: "char \<Rightarrow> char" where
  "ToUpperChar c = (if 97 \<le> (of_char c :: nat) \<and> (of_char c :: nat) \<le> 122 then char_of (of_char c - 32 :: nat) else c)"

definition ToUpper :: "string \<Rightarrow> string" where
  "ToUpper s = map ToUpperChar s"

text \<open>\<^verbatim>\<open>strings.ReplaceAll\<close> of one character by a string.\<close>

definition ReplaceAll :: "string \<Rightarrow> char \<Rightarrow> string \<Rightarrow> string" where
  "ReplaceAll s old new = concat (map (\<lambda>c. if c = old then new else [c]) s)"

section \<open>Package strconv and the verb for decimal numbers\<close>

datatype num_error = NumSyntax | NumRange

definition digitVal :: "char \<Rightarrow> nat option" where
  "digitVal c = (if 48 \<le> (of_char c :: nat) \<and> (of_char c :: nat) \<le> 57 then Some (of_char c - 48) else None)"

text \<open>The loop of \<^verbatim>\<open>strconv.ParseUint\<close> in base 10: the range is checked after every digit.\<close>

fun parseDigits :: "nat \<Rightarrow> nat \<Rightarrow> string \<Rightarrow> (num_error, nat) result" where
  "parseDigits bits n [] = Inr n"
| "parseDigits bits n (c # s) =
     (case digitVal c of
        None \<Rightarrow> Inl NumSyntax
      | Some d \<Rightarrow> if n * 10 + d \<ge> 2 ^ bits then Inl NumRange else parseDigits bits (n * 10 + d) s)"

definition ParseUint :: "nat \<Rightarrow> string \<Rightarrow> (num_error, nat) result" where
  "ParseUint bits s = (if s = [] then Inl NumSyntax else parseDigits bits 0 s)"

text \<open>\<^verbatim>\<open>strconv.Atoi\<close>: an optional sign, then digits, within 64 bits.\<close>

definition Atoi :: "string \<Rightarrow> (num_error, int) result" where
  "Atoi s =
     (let neg = (case s of c # _ \<Rightarrow> c = CHR ''-'' | [] \<Rightarrow> False);
          body = (case s of c # t \<Rightarrow> if c = CHR ''-'' \<or> c = CHR ''+'' then t else s | [] \<Rightarrow> s)
      in (case ParseUint 64 body of
            Inl e \<Rightarrow> Inl e
          | Inr n \<Rightarrow> if \<not> neg \<and> n \<ge> 2 ^ 63 then Inl NumRange
                     else if neg \<and> n > 2 ^ 63 then Inl NumRange
                     else Inr (if neg then - int n else int n)))"

text \<open>The verb \<^verbatim>\<open>%d\<close>.\<close>

definition digitChar :: "nat \<Rightarrow> char" where
  "digitChar d = char_of (48 + d)"

fun decimal :: "nat \<Rightarrow> string" where
  "decimal n = (if n < 10 then [digitChar n] else decimal (n div 10) @ [digitChar (n mod 10)])"

declare decimal.simps [simp del]

section \<open>Package bufio\<close>

text \<open>
  \<^verbatim>\<open>bufio.Scanner\<close> with \<^verbatim>\<open>ScanLines\<close>: the lines of a text without their line ends; a line that does not
  fit the buffer of 64 KiB together with its line end stops the scanner with an error (the flag).
\<close>

definition stripCR :: "string \<Rightarrow> string" where
  "stripCR l = TrimSuffix l [CHR 0x0D]"

definition rawLines :: "string \<Rightarrow> string list" where
  "rawLines text = (let ls = Split text (CHR 0x0A) in if last ls = [] then butlast ls else ls)"

fun scanFrom :: "string list \<Rightarrow> string list \<times> bool" where
  "scanFrom [] = ([], False)"
| "scanFrom (l # ls) =
     (if length l > 65535 then ([], True)
      else (case scanFrom ls of (rest, tooLong) \<Rightarrow> (stripCR l # rest, tooLong)))"

definition ScanLines :: "string \<Rightarrow> string list \<times> bool" where
  "ScanLines text = scanFrom (rawLines text)"

section \<open>Words and lines\<close>

text \<open>A word: letters, digits, dashes, underscores and dots.\<close>

definition wordChar :: "char \<Rightarrow> bool" where
  "wordChar c \<longleftrightarrow> (let n = (of_char c :: nat) in
     48 \<le> n \<and> n \<le> 57 \<or> 65 \<le> n \<and> n \<le> 90 \<or> 97 \<le> n \<and> n \<le> 122 \<or> n = 45 \<or> n = 95 \<or> n = 46)"

definition isWord :: "string \<Rightarrow> bool" where
  "isWord w \<longleftrightarrow> w \<noteq> [] \<and> list_all wordChar w"

definition spaceless :: "string \<Rightarrow> bool" where
  "spaceless w \<longleftrightarrow> w \<noteq> [] \<and> list_all (\<lambda>c. \<not> isSpace c) w"

lemma wordChar_neq:
  assumes "wordChar c"
  shows "\<not> isSpace c" "c \<noteq> CHR ''=''" "c \<noteq> CHR '';''" "c \<noteq> CHR ''/''" "c \<noteq> CHR ''{''" "c \<noteq> CHR ''}''" "c \<noteq> CHR '' ''"
  using assms by (auto simp: wordChar_def isSpace_def Let_def)

lemma isWord_spaceless: "isWord w \<Longrightarrow> spaceless w"
  by (auto simp: isWord_def spaceless_def list_all_iff dest: wordChar_neq(1))

lemma isWord_notin:
  assumes "isWord w"
  shows "CHR ''='' \<notin> set w" "CHR '';'' \<notin> set w" "CHR ''/'' \<notin> set w" "CHR ''{'' \<notin> set w" "CHR ''}'' \<notin> set w"
    "CHR '' '' \<notin> set w"
  using assms by (auto simp: isWord_def list_all_iff dest!: bspec dest: wordChar_neq)

lemma isWord_neq_Nil: "isWord w \<Longrightarrow> w \<noteq> []"
  by (simp add: isWord_def)

text \<open>Trimming.\<close>

lemma TrimSpace_id: "s = [] \<or> (\<not> isSpace (hd s) \<and> \<not> isSpace (last s)) \<Longrightarrow> TrimSpace s = s"
proof (cases s)
  case (Cons c t)
  assume "s = [] \<or> (\<not> isSpace (hd s) \<and> \<not> isSpace (last s))"
  then have "\<not> isSpace c" "\<not> isSpace (hd (rev s))"
    using Cons by (simp_all only: hd_rev list.sel simp_thms list.distinct)
  moreover have "dropWhile isSpace (rev s) = rev s"
    using calculation(2) by (cases "rev s") auto
  ultimately show ?thesis
    by (simp add: TrimSpace_def Cons)
qed (simp add: TrimSpace_def)

lemma TrimSpace_Nil [simp]: "TrimSpace [] = []"
  by (simp add: TrimSpace_def)

lemma TrimSpace_front [simp]: "isSpace c \<Longrightarrow> TrimSpace (c # s) = TrimSpace s"
  by (simp add: TrimSpace_def)

lemma dropWhile_rev_snoc:
  "P c \<Longrightarrow> rev (dropWhile P (rev (dropWhile P (s @ [c])))) = rev (dropWhile P (rev (dropWhile P s)))"
  by (induction s) auto

lemma TrimSpace_back [simp]: "isSpace c \<Longrightarrow> TrimSpace (s @ [c]) = TrimSpace s"
  by (simp add: TrimSpace_def dropWhile_rev_snoc)

lemma hd_dropWhile_rev: "dropWhile P s \<noteq> [] \<Longrightarrow> rev (dropWhile P (rev (dropWhile P s))) \<noteq> [] \<and>
    hd (rev (dropWhile P (rev (dropWhile P s)))) = hd (dropWhile P s)"
proof -
  assume ne: "dropWhile P s \<noteq> []"
  then obtain c t where ct: "dropWhile P s = c # t"
    by (cases "dropWhile P s") auto
  then have "\<not> P c"
    by (metis dropWhile_eq_Cons_conv)
  then have "dropWhile P (rev t @ [c]) = dropWhile P (rev t) @ [c]"
    by (cases "\<forall>x \<in> set (rev t). P x") (auto simp: dropWhile_append)
  then show ?thesis
    by (simp add: ct)
qed

lemma TrimSpace_ends:
  "TrimSpace s = [] \<or> (\<not> isSpace (hd (TrimSpace s)) \<and> \<not> isSpace (last (TrimSpace s)))"
proof (cases "dropWhile isSpace s = []")
  case False
  have "\<not> isSpace (hd (TrimSpace s))"
    using hd_dropWhile_rev [OF False] hd_dropWhile [OF False] by (simp add: TrimSpace_def)
  moreover have "\<not> isSpace (last (TrimSpace s))"
    using hd_dropWhile_rev [OF False] hd_dropWhile [of isSpace "rev (dropWhile isSpace s)"]
    by (simp add: TrimSpace_def last_rev)
  ultimately show ?thesis
    by blast
qed (simp only: TrimSpace_def rev.simps dropWhile.simps simp_thms)

lemma TrimSpace_idem [simp]: "TrimSpace (TrimSpace s) = TrimSpace s"
  by (rule TrimSpace_id) (rule TrimSpace_ends)

lemma TrimSpace_spaceless: "spaceless w \<Longrightarrow> TrimSpace w = w"
  by (rule TrimSpace_id) (auto simp: spaceless_def list_all_iff)

lemma HasPrefix_append [simp]: "HasPrefix (p @ s) p"
  by (simp add: HasPrefix_def)

lemma HasPrefix_Nil [simp]: "HasPrefix s []"
  by (simp add: HasPrefix_def)

lemma HasPrefix_Cons [simp]: "HasPrefix (c # s) (d # p) \<longleftrightarrow> c = d \<and> HasPrefix s p"
  by (auto simp: HasPrefix_def)

lemma HasPrefix_short [simp]: "\<not> HasPrefix [] (d # p)"
  by (simp add: HasPrefix_def)

lemma HasSuffix_snoc [simp]: "HasSuffix (s @ [c]) [d] \<longleftrightarrow> c = d"
  by (simp add: HasSuffix_def)

lemma TrimSuffix_snoc [simp]: "TrimSuffix (s @ [c]) [c] = s"
  by (simp add: TrimSuffix_def)

lemma TrimSuffix_other: "s = [] \<or> last s \<noteq> c \<Longrightarrow> TrimSuffix s [c] = s"
  by (cases s rule: rev_cases) (auto simp: TrimSuffix_def HasSuffix_def)

lemma Index_absent: "c \<notin> set s \<Longrightarrow> Index s (c # p) = None"
  by (induction s) auto

lemma Contains_char: "Contains s [c] \<longleftrightarrow> c \<in> set s"
  by (induction s) (auto simp: Contains_def)

lemma SplitN2_at: "sep \<notin> set k \<Longrightarrow> SplitN2 (k @ sep # v) sep = [k, v]"
proof -
  assume n: "sep \<notin> set k"
  then have "takeWhile (\<lambda>c. c \<noteq> sep) (k @ sep # v) = k" "dropWhile (\<lambda>c. c \<noteq> sep) (k @ sep # v) = sep # v"
    by (auto simp: takeWhile_append dropWhile_append)
  then show ?thesis
    by (simp add: SplitN2_def)
qed

lemma SplitN2_absent: "sep \<notin> set s \<Longrightarrow> SplitN2 s sep = [s]"
  by (simp add: SplitN2_def)

text \<open>Fields.\<close>

lemma fieldsFrom_word: "list_all (\<lambda>c. \<not> isSpace c) w \<Longrightarrow> fieldsFrom cur (w @ s) = fieldsFrom (cur @ w) s"
  by (induction w arbitrary: cur) auto

lemma isSpace_blank [simp]: "isSpace (CHR '' '')"
  by (simp add: isSpace_def)

lemma Fields_Nil [simp]: "Fields [] = []"
  by (simp add: Fields_def)

lemma Fields_Cons: "spaceless w \<Longrightarrow> Fields (w @ CHR '' '' # s) = w # Fields s"
  using fieldsFrom_word [of w "[]"] by (simp add: Fields_def spaceless_def)

lemma Fields_one: "spaceless w \<Longrightarrow> Fields w = [w]"
  using fieldsFrom_word [of w "[]" "[]"] by (simp add: Fields_def spaceless_def)

fun unwords :: "string list \<Rightarrow> string" where
  "unwords [] = []"
| "unwords [w] = w"
| "unwords (w # ws) = w @ '' '' @ unwords ws"

lemma Fields_unwords: "list_all spaceless ws \<Longrightarrow> Fields (unwords ws) = ws"
  by (induction ws rule: unwords.induct) (auto simp: Fields_one Fields_Cons)

lemma unwords_eq_Nil: "list_all spaceless ws \<Longrightarrow> unwords ws = [] \<longleftrightarrow> ws = []"
  by (induction ws rule: unwords.induct) (auto simp: spaceless_def)

lemma hd_unwords: "list_all spaceless ws \<Longrightarrow> ws \<noteq> [] \<Longrightarrow> hd (unwords ws) = hd (hd ws)"
  by (induction ws rule: unwords.induct) (auto simp: spaceless_def)

lemma last_unwords: "list_all spaceless ws \<Longrightarrow> ws \<noteq> [] \<Longrightarrow> last (unwords ws) = last (last ws)"
  by (induction ws rule: unwords.induct) (auto simp: spaceless_def unwords_eq_Nil)

lemma TrimSpace_unwords: "list_all spaceless ws \<Longrightarrow> TrimSpace (unwords ws) = unwords ws"
proof (cases "ws = []")
  case False
  assume s: "list_all spaceless ws"
  then have "spaceless (hd ws)" "spaceless (last ws)"
    using False by (auto simp: list_all_iff)
  then show ?thesis
    using hd_unwords [OF s False] last_unwords [OF s False]
    by (intro TrimSpace_id) (auto simp: spaceless_def list_all_iff)
qed simp

lemma set_unwords: "set (unwords ws) \<subseteq> \<Union> (set ` set ws) \<union> {CHR '' ''}"
  by (induction ws rule: unwords.induct) auto

section \<open>Decimal numbers\<close>

lemma digitVal_digitChar [simp]: "d < 10 \<Longrightarrow> digitVal (digitChar d) = Some d"
  by (simp add: digitVal_def digitChar_def)

lemma decimal_neq_Nil [simp]: "decimal n \<noteq> []"
  by (subst decimal.simps) simp

lemma parseDigits_append:
  "parseDigits bits n s = Inr m \<Longrightarrow> parseDigits bits n (s @ t) = parseDigits bits m t"
  by (induction bits n s rule: parseDigits.induct) (auto split: option.splits if_splits)

lemma parseDigits_decimal: "n < 2 ^ bits \<Longrightarrow> parseDigits bits 0 (decimal n) = Inr n"
proof (induction n rule: decimal.induct)
  case (1 n)
  show ?case
  proof (cases "n < 10")
    case False
    have "n div 10 < 2 ^ bits"
      using 1(2) by simp
    with 1(1) [OF False] have "parseDigits bits 0 (decimal (n div 10)) = Inr (n div 10)"
      by simp
    then show ?thesis
      using False 1(2) by (subst decimal.simps) (simp add: parseDigits_append)
  qed (use 1(2) in \<open>subst decimal.simps, simp\<close>)
qed

lemma ParseUint_decimal [simp]: "n < 2 ^ bits \<Longrightarrow> ParseUint bits (decimal n) = Inr n"
  by (simp add: ParseUint_def parseDigits_decimal)

lemma wordChar_digitChar [simp]: "d < 10 \<Longrightarrow> wordChar (digitChar d)"
  by (simp add: wordChar_def digitChar_def Let_def)

lemma isWord_decimal [simp]: "isWord (decimal n)"
proof (induction n rule: decimal.induct)
  case (1 n)
  then show ?case
    by (subst decimal.simps) (auto simp: isWord_def)
qed

lemma digit_not_sign: "d < 10 \<Longrightarrow> digitChar d \<noteq> CHR ''-'' \<and> digitChar d \<noteq> CHR ''+''"
  using digitVal_digitChar [of d] by (auto simp: digitVal_def)

lemma hd_decimal: "hd (decimal n) \<noteq> CHR ''-'' \<and> hd (decimal n) \<noteq> CHR ''+''"
proof (induction n rule: decimal.induct)
  case (1 n)
  then show ?case
    by (subst (1 2) decimal.simps) (auto simp: digit_not_sign)
qed

lemma Atoi_decimal [simp]: "n < 2 ^ 63 \<Longrightarrow> Atoi (decimal n) = Inr (int n)"
proof -
  assume n: "n < 2 ^ 63"
  then have p: "ParseUint 64 (decimal n) = Inr n"
    by simp
  obtain c s where "decimal n = c # s" "c \<noteq> CHR ''-''" "c \<noteq> CHR ''+''"
    using hd_decimal [of n] decimal_neq_Nil [of n] by (cases "decimal n") auto
  then show ?thesis
    using p n by (simp add: Atoi_def)
qed

end
