(* ===== verification/Proto_Parser.thy ===== *)
theory Proto_Parser
  imports Go_Strings Avp_Types
begin

text \<open>
  The parser of the code generator (\<^verbatim>\<open>codegen/parser.go\<close>, with the definitions of \<^verbatim>\<open>codegen/avp.go\<close> and
  \<^verbatim>\<open>codegen/command.go\<close>): from the lines of a \<^verbatim>\<open>proto\<close> file to AVP, command, enum and constant definitions,
  and the resolution of references between them.

  Definitions of AVPs are shared by pointers: the map of the parser and the fields of commands and
  of grouped AVPs refer to the same object, and a later definition of a name does not change what
  earlier fields point to. The model keeps the objects in a list, a pointer is an index. The
  fields themselves are never shared and are values.
\<close>

section \<open>Definitions\<close>

record AVPField =
  fd_AVP :: nat
  fd_FieldName :: string
  fd_Fixed :: bool
  fd_Required :: bool
  fd_Repeated :: bool
  fd_Position :: int

record AVPDefinition =
  ad_Name :: string
  ad_Code :: u32
  ad_Type :: TypeID
  ad_TypeName :: string
  ad_Must :: bool
  ad_MayEncrypt :: bool
  ad_VendorID :: u32
  ad_GroupedFields :: "AVPField list"

record CommandDefinition =
  cd_Name :: string
  cd_Abbreviation :: string
  cd_Code :: u32
  cd_ApplicationID :: u32
  cd_Request :: bool
  cd_Proxiable :: bool
  cd_Package :: string
  cd_Fields :: "AVPField list"

record EnumDefinition =
  ed_Name :: string
  ed_Values :: "string \<rightharpoonup> u32"

record ProtoParser =
  pp_heap :: "AVPDefinition list"
  pp_AVPs :: "string \<rightharpoonup> nat"
  pp_Commands :: "CommandDefinition list"
  pp_Consts :: "string \<rightharpoonup> u64"
  pp_Enums :: "string \<rightharpoonup> EnumDefinition"
  pp_Package :: string
  pp_GoPackage :: string
  pp_PackageName :: string

text \<open>\<open>heap\<close> holds the definitions other parsers of the same run have made.\<close>

definition NewProtoParser :: "AVPDefinition list \<Rightarrow> ProtoParser" where
  "NewProtoParser heap =
     \<lparr>pp_heap = heap, pp_AVPs = Map.empty, pp_Commands = [], pp_Consts = Map.empty, pp_Enums = Map.empty,
      pp_Package = [], pp_GoPackage = [], pp_PackageName = []\<rparr>"

definition zeroAVP :: "string \<Rightarrow> AVPDefinition" where
  "zeroAVP name =
     \<lparr>ad_Name = name, ad_Code = 0, ad_Type = UnknownType, ad_TypeName = [], ad_Must = False,
      ad_MayEncrypt = False, ad_VendorID = 0, ad_GroupedFields = []\<rparr>"

definition zeroField :: AVPField where
  "zeroField =
     \<lparr>fd_AVP = 0, fd_FieldName = [], fd_Fixed = False, fd_Required = False, fd_Repeated = False, fd_Position = 0\<rparr>"

text \<open>What a parsing operation reports; \<open>IndexPanic\<close> is an index out of range, which ends the program.\<close>

datatype parse_error =
    EmptyBlock
  | InvalidDeclaration string
  | InvalidNumber string string num_error
  | InvalidFieldDefinition string
  | InvalidConst string
  | LineTooLong
  | OpenFailed
  | IndexPanic

section \<open>Names\<close>

text \<open>\<^verbatim>\<open>toCamelCase\<close> and \<^verbatim>\<open>generateAbbreviation\<close>.\<close>

definition capitalise :: "string \<Rightarrow> string" where
  "capitalise part = (case part of [] \<Rightarrow> [] | c # rest \<Rightarrow> ToUpperChar c # rest)"

definition toCamelCase :: "string \<Rightarrow> string" where
  "toCamelCase s = concat (map capitalise (Split s (CHR ''_'')))"

definition generateAbbreviation :: "string \<Rightarrow> string" where
  "generateAbbreviation name =
     concat (map (\<lambda>part. case part of [] \<Rightarrow> [] | c # _ \<Rightarrow> [ToUpperChar c]) (Split name (CHR ''-'')))"

section \<open>Lines\<close>

text \<open>\<^verbatim>\<open>line == "" || strings.HasPrefix(line, "//")\<close>\<close>

definition skipLine :: "string \<Rightarrow> bool" where
  "skipLine line \<longleftrightarrow> line = [] \<or> HasPrefix line ''//''"

text \<open>\<^verbatim>\<open>if idx := strings.Index(line, "//"); idx >= 0 { line = strings.TrimSpace(line[:idx]) }\<close>\<close>

definition stripComment :: "string \<Rightarrow> string" where
  "stripComment line = (case Index line ''//'' of None \<Rightarrow> line | Some idx \<Rightarrow> TrimSpace (take idx line))"

text \<open>The declared name in the first line of a block.\<close>

definition declaredName :: "string \<Rightarrow> (parse_error, string) result" where
  "declaredName firstLine =
     (case Fields (TrimSpace firstLine) of
        _ # w # _ \<Rightarrow> Inr (TrimSpace (TrimSuffix w ''{''))
      | _ \<Rightarrow> Inl (InvalidDeclaration (TrimSpace firstLine)))"

definition parseU32 :: "string \<Rightarrow> string \<Rightarrow> string \<Rightarrow> (parse_error, u32) result" where
  "parseU32 what name value =
     (case ParseUint 32 value of Inl e \<Rightarrow> Inl (InvalidNumber what name e) | Inr n \<Rightarrow> Inr (word_of_nat n))"

section \<open>AVP blocks\<close>

text \<open>
  The definition a field refers to: a new one for the generic \<^verbatim>\<open>AVP\<close>, the known definition of that
  name, or a new placeholder.
\<close>

definition placeholder :: "string \<Rightarrow> AVPDefinition" where
  "placeholder name = (zeroAVP name)\<lparr>ad_TypeName := ''OctetString''\<rparr>"

definition allocAVP :: "AVPDefinition \<Rightarrow> ProtoParser \<Rightarrow> nat \<times> ProtoParser" where
  "allocAVP d p = (length (pp_heap p), p\<lparr>pp_heap := pp_heap p @ [d]\<rparr>)"

definition fieldAVP :: "string \<Rightarrow> ProtoParser \<Rightarrow> nat \<times> ProtoParser" where
  "fieldAVP avpName p =
     (if avpName = ''AVP'' then allocAVP (placeholder ''AVP'') p
      else (case pp_AVPs p avpName of
              Some a \<Rightarrow> (a, p)
            | None \<Rightarrow> allocAVP (placeholder avpName) p))"

text \<open>\<^verbatim>\<open>Position (after =)\<close>: the parts behind the field name.\<close>

definition fieldPosition :: "string list \<Rightarrow> int" where
  "fieldPosition parts =
     (case parts of
        eq # pos # _ \<Rightarrow>
          if eq = ''='' then (case Atoi (TrimSuffix pos '';'') of Inl _ \<Rightarrow> 0 | Inr n \<Rightarrow> n) else 0
      | _ \<Rightarrow> 0)"

definition finishField :: "AVPField \<Rightarrow> string \<Rightarrow> string \<Rightarrow> string list \<Rightarrow> ProtoParser \<Rightarrow> AVPField \<times> ProtoParser" where
  "finishField field avpName fieldName parts p =
     (case fieldAVP avpName p of (a, p') \<Rightarrow>
        (field\<lparr>fd_Position := fieldPosition parts, fd_AVP := a, fd_FieldName := toCamelCase fieldName\<rparr>, p'))"

text \<open>One line of a grouped block; \<open>None\<close> when the line is skipped.\<close>

definition groupedField :: "string \<Rightarrow> ProtoParser \<Rightarrow> (AVPField \<times> ProtoParser) option" where
  "groupedField line0 p =
     (let line = TrimSpace line0 in
      if skipLine line then None
      else (let parts = Fields (TrimSuffix (stripComment line) '';'') in
            if length parts < 4 then None
            else if hd parts = ''optional'' then
              Some (finishField zeroField (parts ! 1) (parts ! 2) (drop 3 parts) p)
            else if hd parts = ''required'' then
              Some (finishField (zeroField\<lparr>fd_Required := True\<rparr>) (parts ! 1) (parts ! 2) (drop 3 parts) p)
            else if hd parts = ''repeated'' then
              Some (finishField (zeroField\<lparr>fd_Repeated := True\<rparr>) (parts ! 1) (parts ! 2) (drop 3 parts) p)
            else Some (finishField zeroField (parts ! 0) (parts ! 1) (drop 2 parts) p)))"

fun parseGroupedFields :: "string list \<Rightarrow> AVPDefinition \<Rightarrow> ProtoParser \<Rightarrow> AVPDefinition \<times> ProtoParser" where
  "parseGroupedFields [] avp p = (avp, p)"
| "parseGroupedFields (line # lines) avp p =
     (case groupedField line p of
        None \<Rightarrow> parseGroupedFields lines avp p
      | Some (field, p') \<Rightarrow>
          parseGroupedFields lines (avp\<lparr>ad_GroupedFields := ad_GroupedFields avp @ [field]\<rparr>) p')"

text \<open>A property line \<^verbatim>\<open>key = value;\<close> of an AVP.\<close>

definition avpProperty :: "string \<Rightarrow> AVPDefinition \<Rightarrow> (parse_error, AVPDefinition) result" where
  "avpProperty line avp =
     (case SplitN2 (TrimSuffix line '';'') (CHR ''='') of
        [k, v] \<Rightarrow>
          (let key = TrimSpace k; value = TrimSpace v in
           if key = ''code'' then
             (case parseU32 ''code'' (ad_Name avp) value of
                Inl e \<Rightarrow> Inl e | Inr c \<Rightarrow> Inr (avp\<lparr>ad_Code := c\<rparr>))
           else if key = ''type'' then
             Inr (case map_of Available value of
                    None \<Rightarrow> avp\<lparr>ad_TypeName := value\<rparr>
                  | Some t \<Rightarrow> avp\<lparr>ad_TypeName := value, ad_Type := t\<rparr>)
           else if key = ''must'' then Inr (avp\<lparr>ad_Must := (value = ''true'')\<rparr>)
           else if key = ''may_encrypt'' then Inr (avp\<lparr>ad_MayEncrypt := (value = ''true'')\<rparr>)
           else if key = ''vendor_id'' then
             (case parseU32 ''vendor_id'' (ad_Name avp) value of
                Inl e \<Rightarrow> Inl e | Inr c \<Rightarrow> Inr (avp\<lparr>ad_VendorID := c\<rparr>))
           else Inr avp)
      | _ \<Rightarrow> Inr avp)"

text \<open>The loop over the lines behind the first; \<open>grouped\<close> are the lines of the open grouped block.\<close>

fun avpLines ::
  "string list \<Rightarrow> string list option \<Rightarrow> AVPDefinition \<Rightarrow> ProtoParser \<Rightarrow>
   (parse_error, AVPDefinition \<times> ProtoParser) result" where
  "avpLines [] grouped avp p = Inr (avp, p)"
| "avpLines (line0 # lines) grouped avp p =
     (let line = TrimSpace line0 in
      if skipLine line then avpLines lines grouped avp p
      else if HasPrefix line ''grouped {'' then avpLines lines (Some []) avp p
      else (case grouped of
              Some gs \<Rightarrow>
                if line = ''}'' then
                  (case parseGroupedFields gs avp p of (avp', p') \<Rightarrow> avpLines lines None avp' p')
                else avpLines lines (Some (gs @ [line])) avp p
            | None \<Rightarrow>
                (case avpProperty line avp of
                   Inl e \<Rightarrow> Inl e
                 | Inr avp' \<Rightarrow> avpLines lines None avp' p)))"

text \<open>A definition on a single line is expanded first.\<close>

definition expandPart :: "string \<Rightarrow> string list" where
  "expandPart part0 =
     (let part = TrimSpace part0 in
      if part = [] then []
      else if part = ''grouped {'' \<or> part = ''grouped { }'' then [''grouped {'', ''}'']
      else if HasPrefix part ''grouped {'' then [part]
      else [part @ '';''])"

definition expandAVP :: "string list \<Rightarrow> string list" where
  "expandAVP lines =
     (case lines of
        [l] \<Rightarrow>
          (let line = TrimSpace l in
           case Index line ''{'' of
             Some openIdx \<Rightarrow>
               if HasSuffix line ''}'' then
                 (let header = TrimSpace (take openIdx line);
                      body = TrimSpace (bslice (openIdx + 1) (length line - 1) line)
                  in [header @ '' {''] @ concat (map expandPart (Split body (CHR '';''))) @ [''}''])
               else lines
           | None \<Rightarrow> lines)
      | _ \<Rightarrow> lines)"

definition parseAVPBlock :: "string list \<Rightarrow> ProtoParser \<Rightarrow> (parse_error, ProtoParser) result" where
  "parseAVPBlock lines0 p =
     (case expandAVP lines0 of
        [] \<Rightarrow> Inl EmptyBlock
      | firstLine # rest \<Rightarrow>
          (case declaredName firstLine of
             Inl e \<Rightarrow> Inl e
           | Inr name \<Rightarrow>
               (case avpLines rest None (zeroAVP name) p of
                  Inl e \<Rightarrow> Inl e
                | Inr (avp, p') \<Rightarrow>
                    (case allocAVP avp p' of (a, p'') \<Rightarrow> Inr (p''\<lparr>pp_AVPs := (pp_AVPs p'')(name \<mapsto> a)\<rparr>)))))"

section \<open>Command blocks\<close>

text \<open>The modifiers in front of a field, in any order, with what is behind them.\<close>

fun modifiers :: "string list \<Rightarrow> AVPField \<Rightarrow> AVPField \<times> string list" where
  "modifiers [] field = (field, [])"
| "modifiers (w # ws) field =
     (if w = ''fixed'' then modifiers ws (field\<lparr>fd_Fixed := True\<rparr>)
      else if w = ''repeated'' then modifiers ws (field\<lparr>fd_Repeated := True\<rparr>)
      else if w = ''required'' then modifiers ws (field\<lparr>fd_Required := True\<rparr>)
      else if w = ''optional'' then modifiers ws (field\<lparr>fd_Required := False\<rparr>)
      else (field, w # ws))"

definition parseFieldDefinition ::
  "string \<Rightarrow> CommandDefinition \<Rightarrow> ProtoParser \<Rightarrow> (parse_error, CommandDefinition \<times> ProtoParser) result" where
  "parseFieldDefinition line cmd p =
     (let parts = Fields line in
      if length parts < 4 then Inl (InvalidFieldDefinition line)
      else (case modifiers parts zeroField of
              (field, avpName # fieldName # rest) \<Rightarrow>
                (case finishField field avpName fieldName rest p of (f, p') \<Rightarrow>
                   Inr (cmd\<lparr>cd_Fields := cd_Fields cmd @ [f]\<rparr>, p'))
            | _ \<Rightarrow> Inl IndexPanic))"

definition commandProperty :: "string \<Rightarrow> string \<Rightarrow> CommandDefinition \<Rightarrow> (parse_error, CommandDefinition) result" where
  "commandProperty key value cmd =
     (if key = ''code'' then
        (case parseU32 ''code'' (cd_Name cmd) value of
           Inl e \<Rightarrow> Inl e | Inr c \<Rightarrow> Inr (cmd\<lparr>cd_Code := c\<rparr>))
      else if key = ''application_id'' then
        (case parseU32 ''application_id'' (cd_Name cmd) value of
           Inl e \<Rightarrow> Inl e | Inr c \<Rightarrow> Inr (cmd\<lparr>cd_ApplicationID := c\<rparr>))
      else if key = ''request'' then Inr (cmd\<lparr>cd_Request := (value = ''true'')\<rparr>)
      else if key = ''proxiable'' then Inr (cmd\<lparr>cd_Proxiable := (value = ''true'')\<rparr>)
      else Inr cmd)"

definition commandLine ::
  "string \<Rightarrow> CommandDefinition \<Rightarrow> ProtoParser \<Rightarrow> (parse_error, CommandDefinition \<times> ProtoParser) result" where
  "commandLine line0 cmd p =
     (let line1 = TrimSpace line0 in
      if skipLine line1 then Inr (cmd, p)
      else (let line = TrimSuffix (stripComment line1) '';'' in
            case SplitN2 line (CHR ''='') of
              [k, v] \<Rightarrow>
                (let key = TrimSpace k; value = TrimSpace v in
                 if Contains key '' '' then parseFieldDefinition line cmd p
                 else (case commandProperty key value cmd of Inl e \<Rightarrow> Inl e | Inr cmd' \<Rightarrow> Inr (cmd', p)))
            | _ \<Rightarrow> Inr (cmd, p)))"

fun commandLines ::
  "string list \<Rightarrow> CommandDefinition \<Rightarrow> ProtoParser \<Rightarrow> (parse_error, CommandDefinition \<times> ProtoParser) result" where
  "commandLines [] cmd p = Inr (cmd, p)"
| "commandLines (line # lines) cmd p =
     (case commandLine line cmd p of Inl e \<Rightarrow> Inl e | Inr (cmd', p') \<Rightarrow> commandLines lines cmd' p')"

definition zeroCommand :: "string \<Rightarrow> CommandDefinition" where
  "zeroCommand name =
     \<lparr>cd_Name = name, cd_Abbreviation = [], cd_Code = 0, cd_ApplicationID = 0, cd_Request = False,
      cd_Proxiable = False, cd_Package = [], cd_Fields = []\<rparr>"

text \<open>The last line of the block is not looked at, nor is the rest of the first.\<close>

definition parseCommandBlock :: "string list \<Rightarrow> ProtoParser \<Rightarrow> (parse_error, ProtoParser) result" where
  "parseCommandBlock lines p =
     (case lines of
        [] \<Rightarrow> Inl EmptyBlock
      | firstLine # rest \<Rightarrow>
          (case declaredName firstLine of
             Inl e \<Rightarrow> Inl e
           | Inr name \<Rightarrow>
               (case commandLines (butlast rest) (zeroCommand name) p of
                  Inl e \<Rightarrow> Inl e
                | Inr (cmd, p') \<Rightarrow>
                    Inr (p'\<lparr>pp_Commands := pp_Commands p' @
                      [cmd\<lparr>cd_Abbreviation := generateAbbreviation name, cd_Package := pp_PackageName p'\<rparr>]\<rparr>))))"

section \<open>Constants and enums\<close>

definition parseConst :: "string \<Rightarrow> ProtoParser \<Rightarrow> (parse_error, ProtoParser) result" where
  "parseConst line0 p =
     (let line = TrimSuffix (stripComment (TrimPrefix line0 ''const '')) '';'' in
      case SplitN2 line (CHR ''='') of
        [k, v] \<Rightarrow>
          (case ParseUint 64 (TrimSpace v) of
             Inl e \<Rightarrow> Inl (InvalidNumber ''const'' (TrimSpace k) e)
           | Inr n \<Rightarrow> Inr (p\<lparr>pp_Consts := (pp_Consts p)(TrimSpace k \<mapsto> word_of_nat n)\<rparr>))
      | _ \<Rightarrow> Inl (InvalidConst line))"

definition enumLine :: "string \<Rightarrow> EnumDefinition \<Rightarrow> (parse_error, EnumDefinition) result" where
  "enumLine line0 enum =
     (let line1 = TrimSpace line0 in
      if skipLine line1 then Inr enum
      else (case SplitN2 (TrimSuffix (stripComment line1) '';'') (CHR ''='') of
              [k, v] \<Rightarrow>
                (case parseU32 (ed_Name enum) (TrimSpace k) (TrimSpace v) of
                   Inl e \<Rightarrow> Inl e
                 | Inr n \<Rightarrow> Inr (enum\<lparr>ed_Values := (ed_Values enum)(TrimSpace k \<mapsto> n)\<rparr>))
            | _ \<Rightarrow> Inr enum))"

fun enumLines :: "string list \<Rightarrow> EnumDefinition \<Rightarrow> (parse_error, EnumDefinition) result" where
  "enumLines [] enum = Inr enum"
| "enumLines (line # lines) enum =
     (case enumLine line enum of Inl e \<Rightarrow> Inl e | Inr enum' \<Rightarrow> enumLines lines enum')"

definition parseEnumBlock :: "string list \<Rightarrow> ProtoParser \<Rightarrow> (parse_error, ProtoParser) result" where
  "parseEnumBlock lines p =
     (case lines of
        [] \<Rightarrow> Inl EmptyBlock
      | firstLine # rest \<Rightarrow>
          (case declaredName firstLine of
             Inl e \<Rightarrow> Inl e
           | Inr name \<Rightarrow>
               (case enumLines (butlast rest) \<lparr>ed_Name = name, ed_Values = Map.empty\<rparr> of
                  Inl e \<Rightarrow> Inl e
                | Inr enum \<Rightarrow> Inr (p\<lparr>pp_Enums := (pp_Enums p)(name \<mapsto> enum)\<rparr>))))"

section \<open>Files\<close>

datatype block = AvpBlock | CommandBlock | EnumBlock

definition parseBlock :: "block \<Rightarrow> string list \<Rightarrow> ProtoParser \<Rightarrow> (parse_error, ProtoParser) result" where
  "parseBlock b lines p =
     (case b of
        AvpBlock \<Rightarrow> parseAVPBlock lines p
      | CommandBlock \<Rightarrow> parseCommandBlock lines p
      | EnumBlock \<Rightarrow> parseEnumBlock lines p)"

text \<open>The block a line starts.\<close>

definition startsBlock :: "string \<Rightarrow> block option" where
  "startsBlock line =
     (if HasPrefix line ''avp '' then Some AvpBlock
      else if HasPrefix line ''command '' then Some CommandBlock
      else if HasPrefix line ''enum '' then Some EnumBlock
      else None)"

definition braceDepth :: "string list \<Rightarrow> int" where
  "braceDepth ls =
     int (length (filter (\<lambda>c. c = CHR ''{'') (concat ls))) - int (length (filter (\<lambda>c. c = CHR ''}'') (concat ls)))"

definition packageLine :: "string \<Rightarrow> ProtoParser \<Rightarrow> ProtoParser" where
  "packageLine line p =
     (case Fields line of
        _ # w # _ \<Rightarrow> p\<lparr>pp_Package := TrimSuffix w '';''\<rparr>
      | _ \<Rightarrow> p)"

definition goPackageLine :: "string \<Rightarrow> ProtoParser \<Rightarrow> ProtoParser" where
  "goPackageLine line p =
     (case Split line (CHR ''='') of
        _ # v # _ \<Rightarrow>
          (let goPackage = Trim (TrimSpace v) [CHR 0x22, CHR 0x27, CHR '';'']
           in p\<lparr>pp_GoPackage := goPackage, pp_PackageName := last (Split goPackage (CHR ''/''))\<rparr>)
      | _ \<Rightarrow> p)"

text \<open>The state between two lines: the open block with its lines, and the parser.\<close>

definition fileLine ::
  "string \<Rightarrow> (block \<times> string list) option \<times> ProtoParser \<Rightarrow>
   (parse_error, (block \<times> string list) option \<times> ProtoParser) result" where
  "fileLine line0 st =
     (case st of (cur, p) \<Rightarrow>
        (let line = TrimSpace line0 in
         if skipLine line then Inr (cur, p)
         else if HasPrefix line ''syntax'' then Inr (cur, p)
         else if HasPrefix line ''package '' then Inr (cur, packageLine line p)
         else if HasPrefix line ''option go_package'' then Inr (cur, goPackageLine line p)
         else if HasPrefix line ''const '' then
           (case parseConst line p of Inl e \<Rightarrow> Inl e | Inr p' \<Rightarrow> Inr (cur, p'))
         else
           (case (case startsBlock line of
                    Some b \<Rightarrow> Some (b, [line])
                  | None \<Rightarrow> map_option (\<lambda>(b, ls). (b, ls @ [line])) cur) of
              None \<Rightarrow> Inr (None, p)
            | Some (b, ls) \<Rightarrow>
                if braceDepth ls = 0
                then (case parseBlock b ls p of Inl e \<Rightarrow> Inl e | Inr p' \<Rightarrow> Inr (None, p'))
                else Inr (Some (b, ls), p))))"

fun fileLines ::
  "string list \<Rightarrow> (block \<times> string list) option \<times> ProtoParser \<Rightarrow>
   (parse_error, (block \<times> string list) option \<times> ProtoParser) result" where
  "fileLines [] st = Inr st"
| "fileLines (line # lines) st =
     (case fileLine line st of Inl e \<Rightarrow> Inl e | Inr st' \<Rightarrow> fileLines lines st')"

text \<open>\<^verbatim>\<open>ParseFile\<close> on the text of the file, \<open>None\<close> when it cannot be opened.\<close>

definition ParseFile :: "string option \<Rightarrow> ProtoParser \<Rightarrow> (parse_error, ProtoParser) result" where
  "ParseFile file p =
     (case file of
        None \<Rightarrow> Inl OpenFailed
      | Some text \<Rightarrow>
          (case ScanLines text of (lines, tooLong) \<Rightarrow>
             (case fileLines lines (None, p) of
                Inl e \<Rightarrow> Inl e
              | Inr (_, p') \<Rightarrow> if tooLong then Inl LineTooLong else Inr p')))"

section \<open>References\<close>

text \<open>\<^verbatim>\<open>ResolveAVPReferences\<close>: the loop bodies are the same for commands and for grouped fields.\<close>

definition resolveField :: "AVPDefinition list \<Rightarrow> (string \<rightharpoonup> nat) \<Rightarrow> AVPField \<Rightarrow> AVPField" where
  "resolveField heap avps field =
     (let name = ad_Name (heap ! fd_AVP field) in
      if name \<noteq> ''AVP'' then
        (case avps name of
           Some a \<Rightarrow> if ad_Code (heap ! a) \<noteq> 0 then field\<lparr>fd_AVP := a\<rparr> else field
         | None \<Rightarrow> field)
      else field)"

text \<open>The second loop runs over the map in some order and changes the definitions it refers to.\<close>

definition resolveCommands :: "ProtoParser \<Rightarrow> ProtoParser" where
  "resolveCommands p = p\<lparr>pp_Commands :=
     map (\<lambda>cmd. cmd\<lparr>cd_Fields := map (resolveField (pp_heap p) (pp_AVPs p)) (cd_Fields cmd)\<rparr>) (pp_Commands p)\<rparr>"

definition resolveGrouped :: "string \<Rightarrow> ProtoParser \<Rightarrow> ProtoParser" where
  "resolveGrouped name p =
     (case pp_AVPs p name of
        None \<Rightarrow> p
      | Some a \<Rightarrow>
          (let d = pp_heap p ! a
           in p\<lparr>pp_heap := (pp_heap p)[a := d\<lparr>ad_GroupedFields :=
                map (resolveField (pp_heap p) (pp_AVPs p)) (ad_GroupedFields d)\<rparr>]\<rparr>))"

definition ResolveAVPReferences :: "string list \<Rightarrow> ProtoParser \<Rightarrow> ProtoParser" where
  "ResolveAVPReferences order p = fold resolveGrouped order (resolveCommands p)"

section \<open>Pointers lead to definitions\<close>

definition fields_in :: "AVPDefinition list \<Rightarrow> AVPField list \<Rightarrow> bool" where
  "fields_in heap fs \<longleftrightarrow> (\<forall>f \<in> set fs. fd_AVP f < length heap)"

text \<open>Every pointer leads to a definition, and an entry of the map to one of that name.\<close>

definition parser_wf :: "ProtoParser \<Rightarrow> bool" where
  "parser_wf p \<longleftrightarrow>
     (\<forall>d \<in> set (pp_heap p). fields_in (pp_heap p) (ad_GroupedFields d)) \<and>
     (\<forall>c \<in> set (pp_Commands p). fields_in (pp_heap p) (cd_Fields c)) \<and>
     (\<forall>n a. pp_AVPs p n = Some a \<longrightarrow> a < length (pp_heap p) \<and> ad_Name (pp_heap p ! a) = n)"

lemma fields_in_ext: "fields_in heap fs \<Longrightarrow> fields_in (heap @ h) fs"
  by (auto simp: fields_in_def)

lemma wf_ext:
  assumes "parser_wf p" and "\<forall>d \<in> set h. fields_in (pp_heap p @ h) (ad_GroupedFields d)"
  shows "parser_wf (p\<lparr>pp_heap := pp_heap p @ h\<rparr>)"
  using assms by (auto simp: parser_wf_def fields_in_ext nth_append intro: trans_less_add1)

text \<open>
  \<open>grown p p'\<close>: new definitions without grouped fields were added for fields, nothing else changed.
\<close>

definition grown :: "ProtoParser \<Rightarrow> ProtoParser \<Rightarrow> bool" where
  "grown p p' \<longleftrightarrow> (\<exists>h. p' = p\<lparr>pp_heap := pp_heap p @ h\<rparr> \<and> (\<forall>d \<in> set h. ad_GroupedFields d = []))"

lemma grown_refl [simp]: "grown p p"
  unfolding grown_def by (rule exI [of _ "[]"]) simp

lemma grown_trans: "grown p q \<Longrightarrow> grown q r \<Longrightarrow> grown p r"
proof -
  assume "grown p q" "grown q r"
  then obtain h k where "q = p\<lparr>pp_heap := pp_heap p @ h\<rparr>" "\<forall>d \<in> set h. ad_GroupedFields d = []"
      "r = q\<lparr>pp_heap := pp_heap q @ k\<rparr>" "\<forall>d \<in> set k. ad_GroupedFields d = []"
    unfolding grown_def by blast
  then show ?thesis
    unfolding grown_def by (intro exI [of _ "h @ k"]) auto
qed

lemma grown_wf: "grown p p' \<Longrightarrow> parser_wf p \<Longrightarrow> parser_wf p'"
  by (auto simp: grown_def fields_in_def intro!: wf_ext)

lemma fieldAVP_grown:
  assumes "parser_wf p" and "fieldAVP n p = (a, p')"
  shows "grown p p' \<and> a < length (pp_heap p') \<and> ad_Name (pp_heap p' ! a) = n"
proof -
  have alloc: "allocAVP (placeholder n) p = (a, p') \<Longrightarrow> ?thesis"
    by (auto simp: allocAVP_def grown_def placeholder_def zeroAVP_def)
  show ?thesis
    using assms alloc by (auto simp: fieldAVP_def parser_wf_def split: if_splits option.splits)
qed


lemma grown_fields_in: "grown p p' \<Longrightarrow> fields_in (pp_heap p) fs \<Longrightarrow> fields_in (pp_heap p') fs"
  by (auto simp: grown_def fields_in_def intro: trans_less_add1)

lemma fields_in_Nil [simp]: "fields_in heap []"
  by (simp add: fields_in_def)

lemma fields_in_append [simp]: "fields_in heap (fs @ gs) \<longleftrightarrow> fields_in heap fs \<and> fields_in heap gs"
  by (auto simp: fields_in_def)

text \<open>\<open>adds p fs p' fs'\<close>: definitions were added, and the fields in hand still point into the heap.\<close>

definition adds :: "ProtoParser \<Rightarrow> AVPField list \<Rightarrow> ProtoParser \<Rightarrow> AVPField list \<Rightarrow> bool" where
  "adds p fs p' fs' \<longleftrightarrow> (parser_wf p \<and> fields_in (pp_heap p) fs \<longrightarrow> grown p p' \<and> fields_in (pp_heap p') fs')"

lemma adds_refl [simp]: "adds p fs p fs"
  by (simp add: adds_def)

lemma adds_trans: "adds p fs q gs \<Longrightarrow> adds q gs r hs \<Longrightarrow> adds p fs r hs"
  using grown_trans grown_wf unfolding adds_def by blast

lemma finishField_adds: "finishField field n fieldName parts p = (f, p') \<Longrightarrow> adds p fs p' (fs @ [f])"
  using fieldAVP_grown [of p n] grown_fields_in
  by (auto simp: finishField_def adds_def fields_in_def split: prod.splits)

lemma groupedField_adds: "groupedField line p = Some (f, p') \<Longrightarrow> adds p fs p' (fs @ [f])"
  by (auto simp: groupedField_def Let_def split: if_splits intro: finishField_adds)

lemma parseGroupedFields_adds:
  "parseGroupedFields ls avp p = (avp', p') \<Longrightarrow>
     adds p (ad_GroupedFields avp) p' (ad_GroupedFields avp') \<and> ad_Name avp' = ad_Name avp"
proof (induction ls avp p rule: parseGroupedFields.induct)
  case (2 line lines avp p)
  show ?case
  proof (cases "groupedField line p")
    case None
    then show ?thesis
      using 2 by simp
  next
    case (Some fp)
    obtain f p1 where fp: "fp = (f, p1)"
      by fastforce
    then show ?thesis
      using 2(2) [OF Some fp [symmetric]] 2(3) Some adds_trans [OF groupedField_adds [of line p f p1 "ad_GroupedFields avp"]]
      by simp
  qed
qed simp

lemma avpProperty_fields:
  "avpProperty line avp = Inr avp' \<Longrightarrow> ad_GroupedFields avp' = ad_GroupedFields avp \<and> ad_Name avp' = ad_Name avp"
  by (auto simp: avpProperty_def Let_def split: list.splits if_splits sum.splits option.splits)

lemma avpLines_adds:
  "avpLines ls gs avp p = Inr (avp', p') \<Longrightarrow>
     adds p (ad_GroupedFields avp) p' (ad_GroupedFields avp') \<and> ad_Name avp' = ad_Name avp"
proof (induction ls arbitrary: gs avp p)
  case (Cons line ls)
  consider (same) gs' where "avpLines ls gs' avp p = Inr (avp', p')"
    | (close) g avp1 p1 where "parseGroupedFields g avp p = (avp1, p1)" "avpLines ls None avp1 p1 = Inr (avp', p')"
    | (property) l avp1 where "avpProperty l avp = Inr avp1" "avpLines ls None avp1 p = Inr (avp', p')"
    using Cons.prems by (auto simp: Let_def split: if_splits option.splits sum.splits prod.splits)
  then show ?case
  proof cases
    case close
    then show ?thesis
      using parseGroupedFields_adds [OF close(1)] Cons.IH [OF close(2)] adds_trans by fastforce
  next
    case property
    then show ?thesis
      using avpProperty_fields [OF property(1)] Cons.IH [OF property(2)] by simp
  qed (rule Cons.IH)
qed simp

lemma wf_add_avp:
  assumes "parser_wf p" and "fields_in (pp_heap p) (ad_GroupedFields d)" and "ad_Name d = name"
  shows "parser_wf (p\<lparr>pp_heap := pp_heap p @ [d], pp_AVPs := (pp_AVPs p)(name \<mapsto> length (pp_heap p))\<rparr>)"
proof -
  have "parser_wf (p\<lparr>pp_heap := pp_heap p @ [d]\<rparr>)"
    using assms(1,2) by (intro wf_ext) (auto intro: fields_in_ext)
  then show ?thesis
    using assms(3) by (auto simp: parser_wf_def)
qed

text \<open>Parsing only adds definitions.\<close>

definition extends :: "ProtoParser \<Rightarrow> ProtoParser \<Rightarrow> bool" where
  "extends p p' \<longleftrightarrow> (\<exists>h. pp_heap p' = pp_heap p @ h)"

lemma extends_refl [simp]: "pp_heap p' = pp_heap p \<Longrightarrow> extends p p'"
  by (simp add: extends_def)

lemma extends_trans: "extends p q \<Longrightarrow> extends q r \<Longrightarrow> extends p r"
  by (auto simp: extends_def)

lemma parseAVPBlock_wf: "parseAVPBlock ls p = Inr p' \<Longrightarrow> parser_wf p \<Longrightarrow> parser_wf p' \<and> extends p p'"
proof -
  assume a: "parseAVPBlock ls p = Inr p'" and wf: "parser_wf p"
  from a obtain first rest where "expandAVP ls = first # rest"
    by (cases "expandAVP ls") (auto simp: parseAVPBlock_def)
  moreover from calculation a obtain name where "declaredName first = Inr name"
    by (cases "declaredName first") (auto simp: parseAVPBlock_def)
  moreover from calculation a obtain avp p1 where b: "avpLines rest None (zeroAVP name) p = Inr (avp, p1)"
    by (cases "avpLines rest None (zeroAVP name) p") (auto simp: parseAVPBlock_def)
  ultimately have p': "p' = p1\<lparr>pp_heap := pp_heap p1 @ [avp], pp_AVPs := (pp_AVPs p1)(name \<mapsto> length (pp_heap p1))\<rparr>"
    using a by (simp add: parseAVPBlock_def allocAVP_def)
  have "grown p p1" "fields_in (pp_heap p1) (ad_GroupedFields avp)" "ad_Name avp = name"
    using avpLines_adds [OF b] wf by (auto simp: adds_def zeroAVP_def)
  then show ?thesis
    unfolding p' using wf_add_avp [OF grown_wf [OF _ wf]] by (auto simp: grown_def extends_def)
qed

lemma commandLine_adds:
  "commandLine line cmd p = Inr (cmd', p') \<Longrightarrow> adds p (cd_Fields cmd) p' (cd_Fields cmd')"
proof -
  have property: "commandProperty k v cmd = Inr c \<Longrightarrow> cd_Fields c = cd_Fields cmd" for k v c
    by (auto simp: commandProperty_def split: if_splits sum.splits)
  have field: "parseFieldDefinition l cmd p = Inr (cmd', p') \<Longrightarrow> adds p (cd_Fields cmd) p' (cd_Fields cmd')" for l
    by (auto simp: parseFieldDefinition_def Let_def split: if_splits prod.splits list.splits intro: finishField_adds)
  assume "commandLine line cmd p = Inr (cmd', p')"
  then show ?thesis
    using property field by (fastforce simp: commandLine_def Let_def split: if_splits list.splits sum.splits)
qed

lemma commandLines_adds:
  "commandLines ls cmd p = Inr (cmd', p') \<Longrightarrow> adds p (cd_Fields cmd) p' (cd_Fields cmd')"
proof (induction ls arbitrary: cmd p)
  case (Cons l ls)
  then show ?case
    by (fastforce split: sum.splits dest: commandLine_adds intro: adds_trans)
qed simp

lemma parseCommandBlock_wf: "parseCommandBlock ls p = Inr p' \<Longrightarrow> parser_wf p \<Longrightarrow> parser_wf p' \<and> extends p p'"
proof -
  assume a: "parseCommandBlock ls p = Inr p'" and wf: "parser_wf p"
  from a obtain first rest where "ls = first # rest"
    by (cases ls) (auto simp: parseCommandBlock_def)
  moreover from calculation a obtain name where "declaredName first = Inr name"
    by (cases "declaredName first") (auto simp: parseCommandBlock_def)
  moreover from calculation a obtain cmd p1 where b: "commandLines (butlast rest) (zeroCommand name) p = Inr (cmd, p1)"
    by (cases "commandLines (butlast rest) (zeroCommand name) p") (auto simp: parseCommandBlock_def)
  ultimately have p': "p' = p1\<lparr>pp_Commands := pp_Commands p1 @
      [cmd\<lparr>cd_Abbreviation := generateAbbreviation name, cd_Package := pp_PackageName p1\<rparr>]\<rparr>"
    using a by (simp add: parseCommandBlock_def)
  have "grown p p1" "fields_in (pp_heap p1) (cd_Fields cmd)"
    using commandLines_adds [OF b] wf by (auto simp: adds_def zeroCommand_def)
  then show ?thesis
    using grown_wf [OF _ wf] p' by (auto simp: parser_wf_def grown_def extends_def)
qed

lemma fileLine_wf:
  assumes "fileLine l (cur, p) = Inr (cur', p')" and "parser_wf p"
  shows "parser_wf p' \<and> extends p p'"
proof -
  have enum: "parser_wf q \<and> extends p q" if "parseEnumBlock ls p = Inr q" for ls q
    using that assms(2) by (auto simp: parseEnumBlock_def parser_wf_def split: list.splits sum.splits)
  have const: "parser_wf q \<and> extends p q" if "parseConst l p = Inr q" for l q
    using that assms(2) by (auto simp: parseConst_def parser_wf_def Let_def split: list.splits sum.splits)
  have pkg: "parser_wf (packageLine l p) \<and> extends p (packageLine l p)"
      "parser_wf (goPackageLine l p) \<and> extends p (goPackageLine l p)" for l
    using assms(2) by (auto simp: packageLine_def goPackageLine_def parser_wf_def Let_def split: list.splits)
  have block: "parser_wf q \<and> extends p q" if "parseBlock b ls p = Inr q" for b ls q
    using that assms(2) parseAVPBlock_wf parseCommandBlock_wf enum by (auto simp: parseBlock_def split: block.splits)
  show ?thesis
    using assms const pkg block by (auto simp: fileLine_def Let_def split: if_splits option.splits sum.splits)
qed

lemma fileLines_wf: "fileLines ls (cur, p) = Inr (cur', p') \<Longrightarrow> parser_wf p \<Longrightarrow> parser_wf p' \<and> extends p p'"
proof (induction ls arbitrary: cur p)
  case (Cons l ls)
  then obtain cur1 p1 where l: "fileLine l (cur, p) = Inr (cur1, p1)" "fileLines ls (cur1, p1) = Inr (cur', p')"
    by (auto split: sum.splits)
  show ?case
    using fileLine_wf [OF l(1) Cons.prems(2)] Cons.IH [OF l(2)] extends_trans by blast
qed simp

lemma ParseFile_wf: "ParseFile file p = Inr p' \<Longrightarrow> parser_wf p \<Longrightarrow> parser_wf p' \<and> extends p p'"
  by (auto simp: ParseFile_def split: option.splits prod.splits sum.splits if_splits dest: fileLines_wf)

end
