(* ===== verification/Proto_Roundtrip.thy ===== *)
theory Proto_Roundtrip
  imports Proto_Parser
begin

text \<open>
  The text of a \<^verbatim>\<open>proto\<close> file against what the parser makes of it. A file is described by its items;
  \<open>print_item\<close> writes an item in the format of the files under \<^verbatim>\<open>proto/\<close>, and \<open>meaning\<close> says what the
  definitions of an item are, without lines and without pointers. The lemmas show that the parser
  reads every printed file back as its meaning, with any indentation, blank lines and comment lines,
  and what it does with text outside this format.
\<close>

section \<open>Items and their text\<close>

record field_item =
  fi_avp :: string
  fi_name :: string
  fi_fixed :: bool
  fi_required :: bool
  fi_repeated :: bool
  fi_pos :: nat

record avp_item =
  ai_code :: u32
  ai_type :: string
  ai_must :: bool
  ai_encrypt :: bool
  ai_vendor :: u32
  ai_fields :: "field_item list"

record command_item =
  ci_name :: string
  ci_code :: u32
  ci_app :: u32
  ci_request :: bool
  ci_proxiable :: bool
  ci_fields :: "field_item list"

datatype item =
    ConstItem string u64
  | EnumItem string "(string \<times> u32) list"
  | AvpItem string avp_item
  | CommandItem command_item

definition boolText :: "bool \<Rightarrow> string" where
  "boolText b = (if b then ''true'' else ''false'')"

text \<open>A line of words, with the semicolon behind the last.\<close>

definition prop_line :: "string \<Rightarrow> string \<Rightarrow> string" where
  "prop_line key value = unwords [key, ''='', value] @ '';''"

definition grouped_modifier :: "field_item \<Rightarrow> string" where
  "grouped_modifier f = (if fi_repeated f then ''repeated'' else if fi_required f then ''required'' else ''optional'')"

definition print_grouped_field :: "field_item \<Rightarrow> string" where
  "print_grouped_field f =
     unwords [grouped_modifier f, fi_avp f, fi_name f, ''='', decimal (fi_pos f)] @ '';''"

definition field_modifiers :: "field_item \<Rightarrow> string list" where
  "field_modifiers f =
     (if fi_fixed f then [''fixed''] else []) @ (if fi_repeated f then [''repeated''] else []) @
     [if fi_required f then ''required'' else ''optional'']"

definition print_field :: "field_item \<Rightarrow> string" where
  "print_field f = unwords (field_modifiers f @ [fi_avp f, fi_name f, ''='', decimal (fi_pos f)]) @ '';''"

definition print_item :: "item \<Rightarrow> string list" where
  "print_item i =
     (case i of
        ConstItem name v \<Rightarrow> [unwords [''const'', name, ''='', decimal (unat v)] @ '';'']
      | EnumItem name vs \<Rightarrow>
          [unwords [''enum'', name, ''{'']] @ map (\<lambda>(k, v). prop_line k (decimal (unat v))) vs @ [''}'']
      | AvpItem name a \<Rightarrow>
          [unwords [''avp'', name, ''{''],
           prop_line ''code'' (decimal (unat (ai_code a))), prop_line ''type'' (ai_type a),
           prop_line ''must'' (boolText (ai_must a)), prop_line ''may_encrypt'' (boolText (ai_encrypt a)),
           prop_line ''vendor_id'' (decimal (unat (ai_vendor a)))] @
          (if ai_fields a = [] then [] else [''grouped {''] @ map print_grouped_field (ai_fields a) @ [''}'']) @ [''}'']
      | CommandItem c \<Rightarrow>
          [unwords [''command'', ci_name c, ''{''],
           prop_line ''code'' (decimal (unat (ci_code c))),
           prop_line ''application_id'' (decimal (unat (ci_app c))),
           prop_line ''request'' (boolText (ci_request c)), prop_line ''proxiable'' (boolText (ci_proxiable c))] @
          map print_field (ci_fields c) @ [''}''])"

text \<open>
  Names are words. A field of a grouped AVP has one modifier, so it is neither fixed nor both
  required and repeated; the AVP of a command field is not a modifier; the name of an enum value
  does not begin like a line the scanner takes for itself.
\<close>

definition field_ok :: "field_item \<Rightarrow> bool" where
  "field_ok f \<longleftrightarrow> isWord (fi_avp f) \<and> isWord (fi_name f) \<and> fi_pos f < 2 ^ 63"

definition value_name_ok :: "string \<Rightarrow> bool" where
  "value_name_ok n \<longleftrightarrow> isWord n \<and> \<not> HasPrefix n ''syntax'' \<and> n \<notin> {''package'', ''option'', ''const'', ''avp'', ''command'', ''enum''}"

definition item_ok :: "item \<Rightarrow> bool" where
  "item_ok i =
     (case i of
        ConstItem name v \<Rightarrow> isWord name
      | EnumItem name vs \<Rightarrow> isWord name \<and> list_all (\<lambda>(k, v). value_name_ok k) vs
      | AvpItem name a \<Rightarrow> isWord name \<and> isWord (ai_type a) \<and>
          list_all (\<lambda>f. field_ok f \<and> \<not> fi_fixed f \<and> \<not> (fi_required f \<and> fi_repeated f)) (ai_fields a)
      | CommandItem c \<Rightarrow> isWord (ci_name c) \<and>
          list_all (\<lambda>f. field_ok f \<and> fi_avp f \<notin> {''fixed'', ''repeated'', ''required'', ''optional''}) (ci_fields c))"

section \<open>Meaning\<close>

text \<open>What can be seen of a parser: pointers are replaced by the name of what they point to.\<close>

record proto_view =
  pv_avps :: "string \<rightharpoonup> avp_item"
  pv_commands :: "command_item list"
  pv_consts :: "string \<rightharpoonup> u64"
  pv_enums :: "string \<rightharpoonup> (string \<rightharpoonup> u32)"

definition view_field :: "AVPDefinition list \<Rightarrow> AVPField \<Rightarrow> field_item" where
  "view_field heap f =
     \<lparr>fi_avp = ad_Name (heap ! fd_AVP f), fi_name = fd_FieldName f, fi_fixed = fd_Fixed f,
      fi_required = fd_Required f, fi_repeated = fd_Repeated f, fi_pos = nat (fd_Position f)\<rparr>"

definition view_avp :: "AVPDefinition list \<Rightarrow> AVPDefinition \<Rightarrow> avp_item" where
  "view_avp heap d =
     \<lparr>ai_code = ad_Code d, ai_type = ad_TypeName d, ai_must = ad_Must d, ai_encrypt = ad_MayEncrypt d,
      ai_vendor = ad_VendorID d, ai_fields = map (view_field heap) (ad_GroupedFields d)\<rparr>"

definition view_command :: "AVPDefinition list \<Rightarrow> CommandDefinition \<Rightarrow> command_item" where
  "view_command heap c =
     \<lparr>ci_name = cd_Name c, ci_code = cd_Code c, ci_app = cd_ApplicationID c, ci_request = cd_Request c,
      ci_proxiable = cd_Proxiable c, ci_fields = map (view_field heap) (cd_Fields c)\<rparr>"

definition view :: "ProtoParser \<Rightarrow> proto_view" where
  "view p =
     \<lparr>pv_avps = (\<lambda>n. map_option (\<lambda>a. view_avp (pp_heap p) (pp_heap p ! a)) (pp_AVPs p n)),
      pv_commands = map (view_command (pp_heap p)) (pp_Commands p), pv_consts = pp_Consts p,
      pv_enums = (\<lambda>n. map_option ed_Values (pp_Enums p n))\<rparr>"

text \<open>Field names become Go names.\<close>

definition go_field :: "field_item \<Rightarrow> field_item" where
  "go_field f = f\<lparr>fi_name := toCamelCase (fi_name f)\<rparr>"

definition meaning :: "item \<Rightarrow> proto_view \<Rightarrow> proto_view" where
  "meaning i v =
     (case i of
        ConstItem name n \<Rightarrow> v\<lparr>pv_consts := (pv_consts v)(name \<mapsto> n)\<rparr>
      | EnumItem name vs \<Rightarrow> v\<lparr>pv_enums := (pv_enums v)(name \<mapsto> map_of (rev vs))\<rparr>
      | AvpItem name a \<Rightarrow> v\<lparr>pv_avps := (pv_avps v)(name \<mapsto> a\<lparr>ai_fields := map go_field (ai_fields a)\<rparr>)\<rparr>
      | CommandItem c \<Rightarrow> v\<lparr>pv_commands := pv_commands v @ [c\<lparr>ci_fields := map go_field (ci_fields c)\<rparr>]\<rparr>)"

section \<open>Lines of words\<close>

lemma spaceless_eq [simp]: "spaceless ''=''"
  by (simp add: spaceless_def isSpace_def)

lemma isWord_boolText [simp]: "isWord (boolText b)"
  by (simp add: boolText_def isWord_def wordChar_def)

text \<open>A line: words with no slash, then a semicolon.\<close>

lemma line_trim: "list_all spaceless ws \<Longrightarrow> ws \<noteq> [] \<Longrightarrow> TrimSpace (unwords ws @ '';'') = unwords ws @ '';''"
proof (rule TrimSpace_id)
  assume a: "list_all spaceless ws" "ws \<noteq> []"
  then have "unwords ws \<noteq> []" "spaceless (hd ws)"
    by (auto simp: unwords_eq_Nil list_all_iff)
  then show "unwords ws @ '';'' = [] \<or> \<not> isSpace (hd (unwords ws @ '';'')) \<and> \<not> isSpace (last (unwords ws @ '';''))"
    using hd_unwords [OF a] by (auto simp: spaceless_def list_all_iff isSpace_def)
qed

lemma line_no_slash:
  "list_all (\<lambda>w. CHR ''/'' \<notin> set w) ws \<Longrightarrow> CHR ''/'' \<notin> set (unwords ws)"
  using set_unwords [of ws] by (auto simp: list_all_iff)

lemma no_slash_skip: "CHR ''/'' \<notin> set s \<Longrightarrow> s \<noteq> [] \<Longrightarrow> \<not> skipLine s"
  by (cases s) (auto simp: skipLine_def)

lemma no_slash_comment: "CHR ''/'' \<notin> set s \<Longrightarrow> stripComment s = s"
  by (simp add: stripComment_def Index_absent)

lemma unwords_snoc: "ws \<noteq> [] \<Longrightarrow> unwords (ws @ vs) = (if vs = [] then unwords ws else unwords ws @ '' '' @ unwords vs)"
  by (induction ws rule: unwords.induct) (cases vs; auto)+

lemma split_line:
  assumes "list_all (\<lambda>w. CHR ''='' \<notin> set w) ks" and "ks \<noteq> []"
  shows "SplitN2 (unwords (ks @ [''='', v])) (CHR ''='') = [unwords ks @ '' '', CHR '' '' # v]"
proof -
  have n: "CHR ''='' \<notin> set (unwords ks @ '' '')"
    using set_unwords [of ks] assms(1) by (auto simp: list_all_iff)
  have "unwords (ks @ [''='', v]) = (unwords ks @ '' '') @ CHR ''='' # (CHR '' '' # v)"
    using assms(2) by (simp add: unwords_snoc)
  then show ?thesis
    using SplitN2_at [OF n] by metis
qed

text \<open>What every printed line inside a block has in common.\<close>

definition word_line :: "string list \<Rightarrow> string \<Rightarrow> string" where
  "word_line ks v = unwords (ks @ [''='', v]) @ '';''"

lemma word_line:
  assumes "list_all isWord ks" and "ks \<noteq> []" and "isWord v"
  shows "TrimSpace (word_line ks v) = word_line ks v" "\<not> skipLine (word_line ks v)"
    "stripComment (word_line ks v) = word_line ks v"
    "TrimSuffix (word_line ks v) '';'' = unwords (ks @ [''='', v])"
    "SplitN2 (unwords (ks @ [''='', v])) (CHR ''='') = [unwords ks @ '' '', CHR '' '' # v]"
    "TrimSpace (unwords ks @ '' '') = unwords ks" "TrimSpace (CHR '' '' # v) = v"
    "Fields (unwords (ks @ [''='', v])) = ks @ [''='', v]"
proof -
  have s: "list_all spaceless (ks @ [''='', v])"
    using assms isWord_spaceless by (auto simp: list_all_iff)
  have slash: "CHR ''/'' \<notin> set (word_line ks v)"
    unfolding word_line_def
    using line_no_slash [of "ks @ [''='', v]"] assms isWord_notin(3) by (auto simp: list_all_iff)
  have ne: "word_line ks v \<noteq> []"
    by (simp add: word_line_def)
  show "TrimSpace (word_line ks v) = word_line ks v"
    unfolding word_line_def using s by (intro line_trim) auto
  show "\<not> skipLine (word_line ks v)"
    using slash ne by (rule no_slash_skip)
  show "stripComment (word_line ks v) = word_line ks v"
    using slash by (rule no_slash_comment)
  show "TrimSuffix (word_line ks v) '';'' = unwords (ks @ [''='', v])"
    by (simp add: word_line_def)
  show "SplitN2 (unwords (ks @ [''='', v])) (CHR ''='') = [unwords ks @ '' '', CHR '' '' # v]"
    using assms isWord_notin(1) by (intro split_line) (auto simp: list_all_iff)
  show "TrimSpace (unwords ks @ '' '') = unwords ks"
    using TrimSpace_unwords [of ks] s by simp
  show "TrimSpace (CHR '' '' # v) = v"
    using TrimSpace_spaceless [OF isWord_spaceless [OF assms(3)]] by simp
  show "Fields (unwords (ks @ [''='', v])) = ks @ [''='', v]"
    using s by (rule Fields_unwords)
qed

lemma prop_line_word_line: "prop_line k v = word_line [k] v"
  by (simp add: prop_line_def word_line_def)

lemma print_grouped_field_word_line:
  "print_grouped_field f = word_line [grouped_modifier f, fi_avp f, fi_name f] (decimal (fi_pos f))"
  by (simp add: print_grouped_field_def word_line_def)

lemma print_field_word_line:
  "print_field f = word_line (field_modifiers f @ [fi_avp f, fi_name f]) (decimal (fi_pos f))"
  by (simp add: print_field_def word_line_def)

lemma isWord_literals [simp]:
  "isWord ''code''" "isWord ''type''" "isWord ''must''" "isWord ''may_encrypt''" "isWord ''vendor_id''"
  "isWord ''application_id''" "isWord ''request''" "isWord ''proxiable''" "isWord ''fixed''" "isWord ''repeated''"
  "isWord ''required''" "isWord ''optional''" "isWord ''const''" "isWord ''avp''" "isWord ''command''" "isWord ''enum''"
  by (simp_all add: isWord_def wordChar_def)

section \<open>Views and new definitions\<close>

lemma view_field_ext: "fd_AVP f < length heap \<Longrightarrow> view_field (heap @ h) f = view_field heap f"
  by (simp add: view_field_def nth_append)

lemma view_fields_ext: "fields_in heap fs \<Longrightarrow> map (view_field (heap @ h)) fs = map (view_field heap) fs"
  by (auto simp: fields_in_def view_field_ext)

lemma view_ext:
  assumes "parser_wf p"
  shows "view (p\<lparr>pp_heap := pp_heap p @ h\<rparr>) = view p"
proof -
  have "view_avp (pp_heap p @ h) ((pp_heap p @ h) ! a) = view_avp (pp_heap p) (pp_heap p ! a)" if "pp_AVPs p n = Some a" for n a
  proof -
    have "a < length (pp_heap p)"
      using assms that by (auto simp: parser_wf_def)
    then have "fields_in (pp_heap p) (ad_GroupedFields (pp_heap p ! a))"
      using assms by (auto simp: parser_wf_def)
    then show ?thesis
      using \<open>a < length (pp_heap p)\<close> by (simp add: view_avp_def view_fields_ext nth_append)
  qed
  then have "map_option (\<lambda>a. view_avp (pp_heap p @ h) ((pp_heap p @ h) ! a)) (pp_AVPs p n) =
      map_option (\<lambda>a. view_avp (pp_heap p) (pp_heap p ! a)) (pp_AVPs p n)" for n
    by (cases "pp_AVPs p n") simp_all
  moreover have "map (view_command (pp_heap p @ h)) (pp_Commands p) = map (view_command (pp_heap p)) (pp_Commands p)"
    using assms by (auto simp: parser_wf_def view_command_def view_fields_ext)
  ultimately show ?thesis
    by (simp add: view_def)
qed

lemma grown_view: "grown p p' \<Longrightarrow> parser_wf p \<Longrightarrow> view p' = view p"
  using view_ext by (auto simp: grown_def)

lemma grown_fields:
  "grown p p' \<Longrightarrow> fields_in (pp_heap p) fs \<Longrightarrow>
     fields_in (pp_heap p') fs \<and> map (view_field (pp_heap p')) fs = map (view_field (pp_heap p)) fs"
  using fields_in_ext view_fields_ext by (auto simp: grown_def simp del: map_eq_conv)

lemma finishField_grown:
  assumes "parser_wf p" and "finishField field n fieldName parts p = (f, p')"
  shows "grown p p' \<and> fields_in (pp_heap p') [f] \<and> view_field (pp_heap p') f =
    \<lparr>fi_avp = n, fi_name = toCamelCase fieldName, fi_fixed = fd_Fixed field, fi_required = fd_Required field,
     fi_repeated = fd_Repeated field, fi_pos = nat (fieldPosition parts)\<rparr>"
  using assms(2) fieldAVP_grown [OF assms(1)]
  by (auto simp: finishField_def fields_in_def view_field_def split: prod.splits)

lemma fieldPosition_decimal: "n < 2 ^ 63 \<Longrightarrow> fieldPosition [''='', decimal n] = int n"
proof -
  assume n: "n < 2 ^ 63"
  have "last (decimal n) \<noteq> CHR '';''"
    using isWord_notin(2) [OF isWord_decimal [of n]] by (metis decimal_neq_Nil last_in_set)
  then have "TrimSuffix (decimal n) '';'' = decimal n"
    by (intro TrimSuffix_other) simp
  then show ?thesis
    using Atoi_decimal [OF n] by (simp add: fieldPosition_def)
qed

section \<open>Blocks are read back\<close>

lemma HasPrefix_set: "HasPrefix s q \<Longrightarrow> set q \<subseteq> set s"
  unfolding HasPrefix_def by (metis set_take_subset)

lemma word_line_braces:
  assumes "list_all isWord ks" and "isWord v"
  shows "CHR ''{'' \<notin> set (word_line ks v)" "CHR ''}'' \<notin> set (word_line ks v)"
  using set_unwords [of "ks @ [''='', v]"] assms isWord_notin(4,5)
  by (auto simp: word_line_def list_all_iff)

lemma word_line_not_grouped:
  assumes "list_all isWord ks" and "isWord v"
  shows "\<not> HasPrefix (word_line ks v) ''grouped {''" "word_line ks v \<noteq> ''}''"
  using word_line_braces [OF assms] HasPrefix_set [of "word_line ks v" "''grouped {''"] by auto

lemma isWord_grouped_modifier [simp]: "isWord (grouped_modifier f)"
  by (simp add: grouped_modifier_def)

lemma groupedField_print:
  assumes "parser_wf p" and "field_ok f" and "\<not> fi_fixed f" and "\<not> (fi_required f \<and> fi_repeated f)"
  shows "\<exists>g p'. groupedField (print_grouped_field f) p = Some (g, p') \<and> grown p p' \<and>
    fields_in (pp_heap p') [g] \<and> view_field (pp_heap p') g = go_field f"
proof -
  let ?ks = "[grouped_modifier f, fi_avp f, fi_name f]" and ?v = "decimal (fi_pos f)"
  have w: "list_all isWord ?ks" "?ks \<noteq> []" "isWord ?v"
    using assms(2) by (simp_all add: field_ok_def)
  note l = word_line [OF w]
  define z where "z = zeroField\<lparr>fd_Required := fi_required f, fd_Repeated := fi_repeated f\<rparr>"
  have z: "zeroField\<lparr>fd_Required := True\<rparr> = z" if "fi_required f" "\<not> fi_repeated f"
    using that by (simp add: z_def zeroField_def)
  have z2: "zeroField\<lparr>fd_Repeated := True\<rparr> = z" if "fi_repeated f" "\<not> fi_required f"
    using that by (simp add: z_def zeroField_def)
  have z3: "zeroField = z" if "\<not> fi_repeated f" "\<not> fi_required f"
    using that by (simp add: z_def zeroField_def)
  have "groupedField (print_grouped_field f) p = Some (finishField z (fi_avp f) (fi_name f) [''='', ?v] p)"
    unfolding groupedField_def print_grouped_field_word_line
    using l assms(4) by (simp add: grouped_modifier_def z z2 z3)
  moreover obtain g p' where g: "finishField z (fi_avp f) (fi_name f) [''='', ?v] p = (g, p')"
    by fastforce
  moreover have "grown p p' \<and> fields_in (pp_heap p') [g] \<and> view_field (pp_heap p') g = go_field f"
    using finishField_grown [OF assms(1) g] assms(2,3)
    by (simp add: go_field_def field_ok_def fieldPosition_decimal z_def zeroField_def)
  ultimately show ?thesis
    by auto
qed

lemma parseGroupedFields_print:
  assumes "parser_wf p"
    and "list_all (\<lambda>f. field_ok f \<and> \<not> fi_fixed f \<and> \<not> (fi_required f \<and> fi_repeated f)) fs"
  shows "\<exists>gs p'. parseGroupedFields (map print_grouped_field fs) avp p =
      (avp\<lparr>ad_GroupedFields := ad_GroupedFields avp @ gs\<rparr>, p') \<and> grown p p' \<and>
    fields_in (pp_heap p') gs \<and> map (view_field (pp_heap p')) gs = map go_field fs"
  using assms
proof (induction fs arbitrary: avp p)
  case Nil
  show ?case
    by (intro exI [of _ "[]"] exI [of _ p]) (simp add: fields_in_def)
next
  case (Cons f fs)
  obtain g p1 where g: "groupedField (print_grouped_field f) p = Some (g, p1)" "grown p p1"
      "fields_in (pp_heap p1) [g]" "view_field (pp_heap p1) g = go_field f"
    using groupedField_print [OF Cons.prems(1), of f] Cons.prems(2) by auto
  obtain gs p' where gs: "parseGroupedFields (map print_grouped_field fs)
        (avp\<lparr>ad_GroupedFields := ad_GroupedFields avp @ [g]\<rparr>) p1 =
      (avp\<lparr>ad_GroupedFields := ad_GroupedFields avp @ [g]\<rparr>
         \<lparr>ad_GroupedFields := ad_GroupedFields (avp\<lparr>ad_GroupedFields := ad_GroupedFields avp @ [g]\<rparr>) @ gs\<rparr>, p')"
      "grown p1 p'" "fields_in (pp_heap p') gs" "map (view_field (pp_heap p')) gs = map go_field fs"
    using Cons.IH [OF grown_wf [OF g(2) Cons.prems(1)], of "avp\<lparr>ad_GroupedFields := ad_GroupedFields avp @ [g]\<rparr>"]
      Cons.prems(2) by auto
  note f = grown_fields [OF gs(2) g(3)]
  have "parseGroupedFields (map print_grouped_field (f # fs)) avp p =
      (avp\<lparr>ad_GroupedFields := ad_GroupedFields avp @ (g # gs)\<rparr>, p')"
    using g(1) gs(1) by simp
  moreover have "grown p p'"
    using grown_trans [OF g(2) gs(2)] .
  moreover have "fields_in (pp_heap p') (g # gs)" "map (view_field (pp_heap p')) (g # gs) = map go_field (f # fs)"
    using f gs(3,4) g(4) by (simp_all add: fields_in_def)
  ultimately show ?case
    by blast
qed

lemma avpLines_prop:
  assumes "isWord k" and "isWord v"
  shows "avpLines (prop_line k v # rest) None avp p =
    (case avpProperty (prop_line k v) avp of Inl e \<Rightarrow> Inl e | Inr avp' \<Rightarrow> avpLines rest None avp' p)"
  using word_line(1,2) [of "[k]" v] word_line_not_grouped [of "[k]" v] assms
  by (simp add: prop_line_word_line split: sum.split)

lemma avpProperty_prop:
  assumes "isWord k" and "isWord v"
  shows "avpProperty (prop_line k v) avp =
    (if k = ''code'' then (case parseU32 ''code'' (ad_Name avp) v of
                             Inl e \<Rightarrow> Inl e | Inr c \<Rightarrow> Inr (avp\<lparr>ad_Code := c\<rparr>))
     else if k = ''type'' then Inr (case map_of Available v of
                                      None \<Rightarrow> avp\<lparr>ad_TypeName := v\<rparr>
                                    | Some t \<Rightarrow> avp\<lparr>ad_TypeName := v, ad_Type := t\<rparr>)
     else if k = ''must'' then Inr (avp\<lparr>ad_Must := (v = ''true'')\<rparr>)
     else if k = ''may_encrypt'' then Inr (avp\<lparr>ad_MayEncrypt := (v = ''true'')\<rparr>)
     else if k = ''vendor_id'' then (case parseU32 ''vendor_id'' (ad_Name avp) v of
                                       Inl e \<Rightarrow> Inl e | Inr c \<Rightarrow> Inr (avp\<lparr>ad_VendorID := c\<rparr>))
     else Inr avp)"
  using word_line(4-7) [of "[k]" v] assms
  by (simp add: avpProperty_def prop_line_word_line)

lemma parseU32_decimal [simp]: "parseU32 what name (decimal (unat (v :: u32))) = Inr v"
proof -
  have "unat v < 2 ^ LENGTH(32)"
    by (rule unsigned_less)
  then show ?thesis
    by (simp add: parseU32_def)
qed

lemma boolText_eq [simp]: "boolText b = ''true'' \<longleftrightarrow> b"
  by (simp add: boolText_def)

lemma avpLines_grouped:
  assumes "list_all (\<lambda>l. TrimSpace l = l \<and> \<not> skipLine l \<and> \<not> HasPrefix l ''grouped {'' \<and> l \<noteq> ''}'') ls"
  shows "avpLines (ls @ ''}'' # rest) (Some gs) avp p =
    (case parseGroupedFields (gs @ ls) avp p of (avp', p') \<Rightarrow> avpLines rest None avp' p')"
  using assms
proof (induction ls arbitrary: gs)
  case Nil
  have "TrimSpace ''}'' = ''}''" "\<not> skipLine ''}''" "\<not> HasPrefix ''}'' ''grouped {''"
    by (simp_all add: TrimSpace_def isSpace_def skipLine_def)
  then show ?case
    by simp
qed simp

lemma declaredName_header:
  assumes "isWord kw" and "isWord name"
  shows "declaredName (unwords [kw, name, ''{'']) = Inr name"
proof -
  have s: "list_all spaceless [kw, name, ''{'']"
    using assms isWord_spaceless by (simp add: spaceless_def isSpace_def)
  have "TrimSuffix name ''{'' = name"
    using isWord_notin(4) [OF assms(2)] isWord_neq_Nil [OF assms(2)] by (intro TrimSuffix_other) (metis last_in_set)
  then show ?thesis
    using TrimSpace_unwords [OF s] Fields_unwords [OF s] TrimSpace_spaceless [OF isWord_spaceless [OF assms(2)]]
    by (simp add: declaredName_def del: unwords.simps)
qed

lemma view_add_avp:
  assumes "parser_wf p" and "fields_in (pp_heap p) (ad_GroupedFields d)" and "ad_Name d = name"
    and "p' = p\<lparr>pp_heap := pp_heap p @ [d], pp_AVPs := (pp_AVPs p)(name \<mapsto> length (pp_heap p))\<rparr>"
  shows "parser_wf p'" "view p' = (view p)\<lparr>pv_avps := (pv_avps (view p))(name \<mapsto> view_avp (pp_heap p) d)\<rparr>"
proof -
  let ?q = "p\<lparr>pp_heap := pp_heap p @ [d]\<rparr>"
  have q: "parser_wf ?q"
    using assms(1,2) by (intro wf_ext) (auto intro: fields_in_ext)
  then show "parser_wf p'"
    using assms(3,4) by (auto simp: parser_wf_def)
  have "view ?q = view p"
    using assms(1) by (rule view_ext)
  moreover have "view_avp (pp_heap p @ [d]) d = view_avp (pp_heap p) d"
    using view_fields_ext [OF assms(2)] by (simp add: view_avp_def del: map_eq_conv)
  ultimately show "view p' = (view p)\<lparr>pv_avps := (pv_avps (view p))(name \<mapsto> view_avp (pp_heap p) d)\<rparr>"
    using assms(4) by (auto simp: view_def fun_eq_iff)
qed

lemma grouped_lines_ok:
  assumes "list_all field_ok fs"
  shows "list_all (\<lambda>l. TrimSpace l = l \<and> \<not> skipLine l \<and> \<not> HasPrefix l ''grouped {'' \<and> l \<noteq> ''}'') (map print_grouped_field fs)"
proof -
  have "TrimSpace l = l \<and> \<not> skipLine l \<and> \<not> HasPrefix l ''grouped {'' \<and> l \<noteq> ''}''"
    if "field_ok f" "l = print_grouped_field f" for f l
    using that word_line(1,2) [of "[grouped_modifier f, fi_avp f, fi_name f]" "decimal (fi_pos f)"]
      word_line_not_grouped [of "[grouped_modifier f, fi_avp f, fi_name f]" "decimal (fi_pos f)"]
    by (simp add: field_ok_def print_grouped_field_word_line)
  then show ?thesis
    using assms by (auto simp: list_all_iff)
qed

lemma avpLines_close [simp]: "avpLines [''}''] None avp p = Inr (avp, p)"
  by (simp add: TrimSpace_def isSpace_def skipLine_def avpProperty_def SplitN2_def TrimSuffix_def HasSuffix_def)

lemma avpLines_grouped_start [simp]: "avpLines (''grouped {'' # rest) None avp p = avpLines rest (Some []) avp p"
  by (simp add: TrimSpace_def isSpace_def skipLine_def)

lemma avp_roundtrip:
  assumes "parser_wf p" and "item_ok (AvpItem name a)"
  shows "\<exists>p'. parseAVPBlock (print_item (AvpItem name a)) p = Inr p' \<and> parser_wf p' \<and>
    view p' = meaning (AvpItem name a) (view p)"
proof -
  have n: "isWord name" "isWord (ai_type a)"
    and fs: "list_all (\<lambda>f. field_ok f \<and> \<not> fi_fixed f \<and> \<not> (fi_required f \<and> fi_repeated f)) (ai_fields a)"
    using assms(2) by (auto simp: item_ok_def)
  define d where "d = \<lparr>ad_Name = name, ad_Code = ai_code a, ad_Type = (case map_of Available (ai_type a) of None \<Rightarrow> UnknownType | Some t \<Rightarrow> t),
     ad_TypeName = ai_type a, ad_Must = ai_must a, ad_MayEncrypt = ai_encrypt a, ad_VendorID = ai_vendor a, ad_GroupedFields = []\<rparr>"
  let ?g = "if ai_fields a = [] then [] else [''grouped {''] @ map print_grouped_field (ai_fields a) @ [''}'']"
  have props: "avpLines (tl (print_item (AvpItem name a))) None (zeroAVP name) p = avpLines (?g @ [''}'']) None d p"
    using n by (simp add: print_item_def avpLines_prop avpProperty_prop zeroAVP_def d_def
        del: avpLines.simps split: option.split)
  obtain gs p1 where gs: "parseGroupedFields (map print_grouped_field (ai_fields a)) d p = (d\<lparr>ad_GroupedFields := gs\<rparr>, p1)"
      "grown p p1" "fields_in (pp_heap p1) gs" "map (view_field (pp_heap p1)) gs = map go_field (ai_fields a)"
    using parseGroupedFields_print [OF assms(1) fs, of d] by (auto simp: d_def)
  have "list_all field_ok (ai_fields a)"
    using fs by (auto simp: list_all_iff)
  from avpLines_grouped [OF grouped_lines_ok [OF this], of "[''}'']" "[]" d p] gs(1)
  have "avpLines (?g @ [''}'']) None d p = Inr (d\<lparr>ad_GroupedFields := gs\<rparr>, p1)"
    by (cases "ai_fields a") (auto simp del: avpLines.simps)
  moreover have "expandAVP (print_item (AvpItem name a)) = unwords [''avp'', name, ''{''] # tl (print_item (AvpItem name a))"
    by (simp add: expandAVP_def print_item_def)
  moreover define p' where "p' = p1\<lparr>pp_heap := pp_heap p1 @ [d\<lparr>ad_GroupedFields := gs\<rparr>],
      pp_AVPs := (pp_AVPs p1)(name \<mapsto> length (pp_heap p1))\<rparr>"
  ultimately have parse: "parseAVPBlock (print_item (AvpItem name a)) p = Inr p'"
    using declaredName_header [OF isWord_literals(14) n(1)] props
    by (simp add: parseAVPBlock_def allocAVP_def)
  note w = view_add_avp [OF grown_wf [OF gs(2) assms(1)], of "d\<lparr>ad_GroupedFields := gs\<rparr>" name p']
  have "parser_wf p'" "view p' = (view p1)\<lparr>pv_avps := (pv_avps (view p1))(name \<mapsto> view_avp (pp_heap p1) (d\<lparr>ad_GroupedFields := gs\<rparr>))\<rparr>"
    using w gs(3) by (simp_all add: d_def p'_def)
  moreover have "view_avp (pp_heap p1) (d\<lparr>ad_GroupedFields := gs\<rparr>) = a\<lparr>ai_fields := map go_field (ai_fields a)\<rparr>"
    using gs(4) by (simp add: view_avp_def d_def del: map_eq_conv)
  moreover have "view p1 = view p"
    using grown_view [OF gs(2) assms(1)] .
  ultimately show ?thesis
    using parse by (simp add: meaning_def)
qed

text \<open>Commands.\<close>

lemma isWord_field_modifiers: "list_all isWord (field_modifiers f)"
  by (simp add: field_modifiers_def)

lemma modifiers_print:
  assumes "fi_avp f \<notin> {''fixed'', ''repeated'', ''required'', ''optional''}"
  shows "modifiers (field_modifiers f @ fi_avp f # rest) zeroField =
    (zeroField\<lparr>fd_Fixed := fi_fixed f, fd_Repeated := fi_repeated f, fd_Required := fi_required f\<rparr>, fi_avp f # rest)"
  using assms by (simp add: field_modifiers_def zeroField_def)

lemma commandLine_field:
  assumes "parser_wf p" and "field_ok f" and "fi_avp f \<notin> {''fixed'', ''repeated'', ''required'', ''optional''}"
  shows "\<exists>g p'. commandLine (print_field f) cmd p = Inr (cmd\<lparr>cd_Fields := cd_Fields cmd @ [g]\<rparr>, p') \<and> grown p p' \<and>
    fields_in (pp_heap p') [g] \<and> view_field (pp_heap p') g = go_field f"
proof -
  let ?ks = "field_modifiers f @ [fi_avp f, fi_name f]" and ?v = "decimal (fi_pos f)"
  let ?z = "zeroField\<lparr>fd_Fixed := fi_fixed f, fd_Repeated := fi_repeated f, fd_Required := fi_required f\<rparr>"
  have w: "list_all isWord ?ks" "?ks \<noteq> []" "isWord ?v"
    using assms(2) isWord_field_modifiers by (simp_all add: field_ok_def)
  have key: "Contains (unwords ?ks) '' ''"
    by (simp add: Contains_char field_modifiers_def)
  have len: "4 \<le> length (?ks @ [''='', ?v])"
    by simp
  have "modifiers (?ks @ [''='', ?v]) zeroField = (?z, fi_avp f # fi_name f # [''='', ?v])"
    using modifiers_print [OF assms(3), of "fi_name f # [''='', ?v]"] by simp
  then have "commandLine (print_field f) cmd p =
      (case finishField ?z (fi_avp f) (fi_name f) [''='', ?v] p of (g, p') \<Rightarrow>
         Inr (cmd\<lparr>cd_Fields := cd_Fields cmd @ [g]\<rparr>, p'))"
    unfolding commandLine_def print_field_word_line parseFieldDefinition_def Let_def
    using word_line [OF w] key len by (simp del: append.simps append_assoc unwords.simps)
  moreover obtain g p' where g: "finishField ?z (fi_avp f) (fi_name f) [''='', ?v] p = (g, p')"
    by fastforce
  moreover have "grown p p' \<and> fields_in (pp_heap p') [g] \<and> view_field (pp_heap p') g = go_field f"
    using finishField_grown [OF assms(1) g] assms(2) by (simp add: go_field_def field_ok_def fieldPosition_decimal zeroField_def)
  ultimately show ?thesis
    by auto
qed

lemma commandLine_prop:
  assumes "isWord k" and "isWord v"
  shows "commandLine (prop_line k v) cmd p =
    (case commandProperty k v cmd of Inl e \<Rightarrow> Inl e | Inr cmd' \<Rightarrow> Inr (cmd', p))"
  using word_line [of "[k]" v] assms isWord_notin(6) [OF assms(1)]
  by (simp add: commandLine_def prop_line_word_line Contains_char)

lemma commandLines_fields:
  assumes "parser_wf p"
    and "list_all (\<lambda>f. field_ok f \<and> fi_avp f \<notin> {''fixed'', ''repeated'', ''required'', ''optional''}) fs"
  shows "\<exists>gs p'. commandLines (map print_field fs) cmd p = Inr (cmd\<lparr>cd_Fields := cd_Fields cmd @ gs\<rparr>, p') \<and> grown p p' \<and>
    fields_in (pp_heap p') gs \<and> map (view_field (pp_heap p')) gs = map go_field fs"
  using assms
proof (induction fs arbitrary: cmd p)
  case Nil
  show ?case
    by (intro exI [of _ "[]"] exI [of _ p]) (simp add: fields_in_def)
next
  case (Cons f fs)
  obtain g p1 where g: "commandLine (print_field f) cmd p = Inr (cmd\<lparr>cd_Fields := cd_Fields cmd @ [g]\<rparr>, p1)" "grown p p1"
      "fields_in (pp_heap p1) [g]" "view_field (pp_heap p1) g = go_field f"
    using commandLine_field [OF Cons.prems(1), of f cmd] Cons.prems(2) by auto
  obtain gs p' where gs: "commandLines (map print_field fs) (cmd\<lparr>cd_Fields := cd_Fields cmd @ [g]\<rparr>) p1 =
      Inr (cmd\<lparr>cd_Fields := cd_Fields cmd @ g # gs\<rparr>, p')"
      "grown p1 p'" "fields_in (pp_heap p') gs" "map (view_field (pp_heap p')) gs = map go_field fs"
    using Cons.IH [OF grown_wf [OF g(2) Cons.prems(1)], of "cmd\<lparr>cd_Fields := cd_Fields cmd @ [g]\<rparr>"]
      Cons.prems(2) by auto
  note f = grown_fields [OF gs(2) g(3)]
  have "commandLines (map print_field (f # fs)) cmd p = Inr (cmd\<lparr>cd_Fields := cd_Fields cmd @ (g # gs)\<rparr>, p')"
    using g(1) gs(1) by simp
  moreover have "grown p p'"
    using grown_trans [OF g(2) gs(2)] .
  moreover have "fields_in (pp_heap p') (g # gs)" "map (view_field (pp_heap p')) (g # gs) = map go_field (f # fs)"
    using f gs(3,4) g(4) by (simp_all add: fields_in_def)
  ultimately show ?case
    by blast
qed

lemma command_roundtrip:
  assumes "parser_wf p" and "item_ok (CommandItem c)"
  shows "\<exists>p'. parseCommandBlock (print_item (CommandItem c)) p = Inr p' \<and> parser_wf p' \<and>
    view p' = meaning (CommandItem c) (view p)"
proof -
  have n: "isWord (ci_name c)"
    and fs: "list_all (\<lambda>f. field_ok f \<and> fi_avp f \<notin> {''fixed'', ''repeated'', ''required'', ''optional''}) (ci_fields c)"
    using assms(2) by (auto simp: item_ok_def)
  define d where "d = (zeroCommand (ci_name c))\<lparr>cd_Code := ci_code c, cd_ApplicationID := ci_app c,
     cd_Request := ci_request c, cd_Proxiable := ci_proxiable c\<rparr>"
  have rest: "butlast (tl (print_item (CommandItem c))) =
      [prop_line ''code'' (decimal (unat (ci_code c))), prop_line ''application_id'' (decimal (unat (ci_app c))),
       prop_line ''request'' (boolText (ci_request c)), prop_line ''proxiable'' (boolText (ci_proxiable c))] @
      map print_field (ci_fields c)"
    by (simp add: print_item_def butlast_append)
  obtain gs p1 where gs: "commandLines (map print_field (ci_fields c)) d p = Inr (d\<lparr>cd_Fields := gs\<rparr>, p1)" "grown p p1"
      "fields_in (pp_heap p1) gs" "map (view_field (pp_heap p1)) gs = map go_field (ci_fields c)"
    using commandLines_fields [OF assms(1) fs, of d] by (auto simp: d_def zeroCommand_def)
  have "commandLines (butlast (tl (print_item (CommandItem c)))) (zeroCommand (ci_name c)) p = Inr (d\<lparr>cd_Fields := gs\<rparr>, p1)"
    using gs(1) unfolding rest by (simp add: commandLine_prop commandProperty_def d_def)
  moreover define cmd where "cmd = d\<lparr>cd_Fields := gs, cd_Abbreviation := generateAbbreviation (ci_name c), cd_Package := pp_PackageName p1\<rparr>"
  moreover obtain ls where ls: "print_item (CommandItem c) = unwords [''command'', ci_name c, ''{''] # ls"
    by (simp add: print_item_def)
  ultimately have parse: "parseCommandBlock (print_item (CommandItem c)) p = Inr (p1\<lparr>pp_Commands := pp_Commands p1 @ [cmd]\<rparr>)"
    using declaredName_header [OF isWord_literals(15) n] unfolding ls by (simp add: parseCommandBlock_def del: unwords.simps)
  have p1: "parser_wf p1" "view p1 = view p"
    using grown_wf [OF gs(2) assms(1)] grown_view [OF gs(2) assms(1)] by auto
  have "parser_wf (p1\<lparr>pp_Commands := pp_Commands p1 @ [cmd]\<rparr>)"
    using p1(1) gs(3) by (auto simp: parser_wf_def cmd_def)
  moreover have "view_command (pp_heap p1) cmd = c\<lparr>ci_fields := map go_field (ci_fields c)\<rparr>"
    using gs(4) by (simp add: view_command_def cmd_def d_def zeroCommand_def del: map_eq_conv)
  then have "view (p1\<lparr>pp_Commands := pp_Commands p1 @ [cmd]\<rparr>) = meaning (CommandItem c) (view p)"
    using p1(2) by (auto simp: view_def meaning_def)
  ultimately show ?thesis
    using parse by blast
qed

text \<open>Enums and constants.\<close>

lemma enumLine_value:
  assumes "value_name_ok k"
  shows "enumLine (prop_line k (decimal (unat v))) enum = Inr (enum\<lparr>ed_Values := (ed_Values enum)(k \<mapsto> v)\<rparr>)"
  using word_line [of "[k]" "decimal (unat v)"] assms
  by (simp add: enumLine_def prop_line_word_line value_name_ok_def)

lemma enumLines_values:
  assumes "list_all (\<lambda>(k, v). value_name_ok k) vs"
  shows "enumLines (map (\<lambda>(k, v). prop_line k (decimal (unat v))) vs) enum =
    Inr (enum\<lparr>ed_Values := ed_Values enum ++ map_of (rev vs)\<rparr>)"
  using assms
proof (induction vs arbitrary: enum)
  case (Cons kv vs)
  then show ?case
    by (cases kv) (simp add: enumLine_value map_add_def fun_eq_iff split: option.split)
qed simp

lemma enum_roundtrip:
  assumes "parser_wf p" and "item_ok (EnumItem name vs)"
  shows "\<exists>p'. parseEnumBlock (print_item (EnumItem name vs)) p = Inr p' \<and> parser_wf p' \<and>
    view p' = meaning (EnumItem name vs) (view p)"
proof -
  have "parseEnumBlock (print_item (EnumItem name vs)) p =
      Inr (p\<lparr>pp_Enums := (pp_Enums p)(name \<mapsto> \<lparr>ed_Name = name, ed_Values = map_of (rev vs)\<rparr>)\<rparr>)"
    using declaredName_header [OF isWord_literals(16), of name] assms(2)
    by (simp add: parseEnumBlock_def print_item_def item_ok_def enumLines_values del: unwords.simps)
  then show ?thesis
    using assms(1) by (auto simp: parser_wf_def view_def meaning_def fun_eq_iff)
qed

lemma const_roundtrip:
  assumes "item_ok (ConstItem name v)"
  shows "parseConst (word_line [''const'', name] (decimal (unat v))) p = Inr (p\<lparr>pp_Consts := (pp_Consts p)(name \<mapsto> v)\<rparr>)"
proof -
  have w: "list_all isWord [name]" "isWord (decimal (unat v))"
    using assms by (simp_all add: item_ok_def)
  have "TrimPrefix (word_line [''const'', name] (decimal (unat v))) ''const '' = word_line [name] (decimal (unat v))"
    by (simp add: word_line_def TrimPrefix_def)
  moreover have "unat v < 2 ^ LENGTH(64)"
    by (rule unsigned_less)
  ultimately show ?thesis
    using word_line(3-7) [OF w(1) _ w(2)] by (simp add: parseConst_def)
qed

section \<open>Files are cut into blocks\<close>

text \<open>The lines the scanner looks at.\<close>

definition significant :: "string list \<Rightarrow> string list" where
  "significant ls = filter (\<lambda>l. \<not> skipLine l) (map TrimSpace ls)"

lemma fileLine_trim: "fileLine (TrimSpace l) st = fileLine l st"
  by (simp add: fileLine_def)

lemma fileLines_significant: "fileLines ls st = fileLines (significant ls) st"
proof (induction ls arbitrary: st)
  case (Cons l ls)
  have "skipLine (TrimSpace l) \<Longrightarrow> fileLine l st = Inr st"
    by (simp add: fileLine_def split: prod.split)
  then show ?case
    using Cons by (auto simp: significant_def fileLine_trim split: sum.split)
qed (simp add: significant_def)

text \<open>A line that can only belong to a block.\<close>

definition block_line :: "string \<Rightarrow> bool" where
  "block_line l \<longleftrightarrow> TrimSpace l = l \<and> \<not> skipLine l \<and> \<not> HasPrefix l ''syntax'' \<and> \<not> HasPrefix l ''package '' \<and>
     \<not> HasPrefix l ''option go_package'' \<and> \<not> HasPrefix l ''const ''"

definition lineDepth :: "string \<Rightarrow> int" where
  "lineDepth l = braceDepth [l]"

lemma braceDepth_snoc: "braceDepth (ls @ [l]) = braceDepth ls + lineDepth l"
  by (simp add: braceDepth_def lineDepth_def)

lemma braceDepth_Nil [simp]: "braceDepth [] = 0"
  by (simp add: braceDepth_def)

lemma lineDepth_no_brace: "CHR ''{'' \<notin> set l \<Longrightarrow> CHR ''}'' \<notin> set l \<Longrightarrow> lineDepth l = 0"
proof -
  assume "CHR ''{'' \<notin> set l" "CHR ''}'' \<notin> set l"
  then have "filter (\<lambda>c. c = CHR ''{'') l = []" "filter (\<lambda>c. c = CHR ''}'') l = []"
    by (auto simp: filter_empty_conv)
  then show ?thesis
    by (simp add: lineDepth_def braceDepth_def)
qed

text \<open>Behind an open block of depth \<open>d\<close>, the lines close it with the last of them and not before.\<close>

fun closes :: "int \<Rightarrow> string list \<Rightarrow> bool" where
  "closes d [] = False"
| "closes d (l # ls) =
     (if ls = [] then d + lineDepth l = 0 else d + lineDepth l \<noteq> 0 \<and> closes (d + lineDepth l) ls)"

lemma block_rest:
  assumes "closes (braceDepth acc) ls" and "list_all (\<lambda>l. block_line l \<and> startsBlock l = None) ls"
  shows "fileLines (ls @ rest) (Some (b, acc), p) =
    (case parseBlock b (acc @ ls) p of Inl e \<Rightarrow> Inl e | Inr p' \<Rightarrow> fileLines rest (None, p'))"
  using assms
proof (induction ls arbitrary: acc)
  case (Cons l ls)
  have l: "fileLine l (Some (b, acc), p) =
      (if braceDepth (acc @ [l]) = 0
       then (case parseBlock b (acc @ [l]) p of Inl e \<Rightarrow> Inl e | Inr p' \<Rightarrow> Inr (None, p'))
       else Inr (Some (b, acc @ [l]), p))"
    using Cons.prems(2) by (simp add: fileLine_def block_line_def)
  show ?case
  proof (cases "ls = []")
    case True
    then show ?thesis
      using l Cons.prems(1) by (auto simp: braceDepth_snoc split: sum.split)
  next
    case False
    then have "closes (braceDepth (acc @ [l])) ls" "braceDepth (acc @ [l]) \<noteq> 0"
      using Cons.prems(1) by (auto simp: braceDepth_snoc)
    then show ?thesis
      using l Cons.IH [of "acc @ [l]"] Cons.prems(2) by simp
  qed
qed simp

lemma block_read:
  assumes "block_line h" and "startsBlock h = Some b" and "lineDepth h \<noteq> 0" and "closes (lineDepth h) ls"
    and "list_all (\<lambda>l. block_line l \<and> startsBlock l = None) ls"
  shows "fileLines ((h # ls) @ rest) (None, p) =
    (case parseBlock b (h # ls) p of Inl e \<Rightarrow> Inl e | Inr p' \<Rightarrow> fileLines rest (None, p'))"
proof -
  have "braceDepth [h] = lineDepth h"
    by (simp add: lineDepth_def)
  moreover have "fileLine h (None, p) = Inr (Some (b, [h]), p)"
    using assms(1-3) by (simp add: fileLine_def block_line_def lineDepth_def)
  ultimately show ?thesis
    using block_rest [of "[h]" ls rest b p] assms(4,5) by simp
qed

lemma closes_append:
  assumes "list_all (\<lambda>l. lineDepth l = 0) ls" and "d \<noteq> 0" and "ms \<noteq> []"
  shows "closes d (ls @ ms) = closes d ms"
  using assms(1)
proof (induction ls)
  case (Cons l ls)
  then show ?case
    using assms(2,3) by simp
qed simp

lemma HasPrefix_word:
  assumes "CHR '' '' \<notin> set k" and "CHR '' '' \<notin> set q"
  shows "HasPrefix (k @ CHR '' '' # r) (q @ CHR '' '' # t) \<Longrightarrow> k = q"
    and "HasPrefix (k @ CHR '' '' # r) q \<Longrightarrow> HasPrefix k q"
proof -
  show "HasPrefix (k @ CHR '' '' # r) q \<Longrightarrow> HasPrefix k q"
    using assms
  proof (induction k arbitrary: q)
    case (Cons c k)
    then show ?case
      by (cases q) auto
  qed (auto simp: HasPrefix_def take_Cons split: nat.splits)
next
  show "HasPrefix (k @ CHR '' '' # r) (q @ CHR '' '' # t) \<Longrightarrow> k = q"
    using assms
  proof (induction k arbitrary: q)
    case Nil
    then show ?case
      by (cases q) auto
  next
    case (Cons c k)
    then show ?case
      by (cases q) auto
  qed
qed

lemma word_line_inner:
  assumes "list_all isWord (k # ks)" and "isWord v" and "\<not> HasPrefix k ''syntax''"
    and "k \<notin> {''package'', ''option'', ''const'', ''avp'', ''command'', ''enum''}"
  shows "block_line (word_line (k # ks) v)" "startsBlock (word_line (k # ks) v) = None" "lineDepth (word_line (k # ks) v) = 0"
proof -
  have sp: "CHR '' '' \<notin> set k"
    using assms(1) isWord_notin(6) by simp
  have w: "word_line (k # ks) v = k @ CHR '' '' # (unwords (ks @ [''='', v]) @ '';'')"
    by (cases ks) (simp_all add: word_line_def)
  have pre: "\<not> HasPrefix (word_line (k # ks) v) (q @ CHR '' '' # t)" if "CHR '' '' \<notin> set q" "k \<noteq> q" for q t
    using HasPrefix_word(1) [OF sp that(1)] that(2) w by metis
  show "block_line (word_line (k # ks) v)"
    using word_line(1,2) [OF assms(1) _ assms(2)] HasPrefix_word(2) [OF sp, of "''syntax''"] assms(3,4) w
      pre [of "''package''" "[]"] pre [of "''option''" "''go_package''"] pre [of "''const''" "[]"]
    by (auto simp: block_line_def)
  show "startsBlock (word_line (k # ks) v) = None"
    using assms(4) pre [of "''avp''" "[]"] pre [of "''command''" "[]"] pre [of "''enum''" "[]"]
    by (auto simp: startsBlock_def)
  show "lineDepth (word_line (k # ks) v) = 0"
    using word_line_braces [OF assms(1,2)] by (simp add: lineDepth_no_brace)
qed

definition inner :: "string \<Rightarrow> bool" where
  "inner l \<longleftrightarrow> block_line l \<and> startsBlock l = None"

lemma header_line:
  assumes "isWord name" and "kw \<in> {''avp'', ''command'', ''enum''}"
  shows "block_line (unwords [kw, name, ''{''])" "lineDepth (unwords [kw, name, ''{'']) = 1"
proof -
  have s: "list_all spaceless [kw, name, ''{'']"
    using assms isWord_spaceless by (auto simp: spaceless_def isSpace_def)
  have "filter (\<lambda>c. c = CHR ''{'') name = []" "filter (\<lambda>c. c = CHR ''}'') name = []"
    using isWord_notin(4,5) [OF assms(1)] by (auto simp: filter_empty_conv)
  then show "lineDepth (unwords [kw, name, ''{'']) = 1"
    using assms(2) by (auto simp: lineDepth_def braceDepth_def)
  show "block_line (unwords [kw, name, ''{''])"
    using TrimSpace_unwords [OF s] assms(2) by (auto simp: block_line_def skipLine_def)
qed

lemma brace_lines [simp]:
  "inner ''}''" "inner ''grouped {''" "lineDepth ''}'' = -1" "lineDepth ''grouped {'' = 1"
  by (simp_all add: inner_def block_line_def startsBlock_def skipLine_def TrimSpace_def isSpace_def lineDepth_def braceDepth_def)

lemma prop_line_inner:
  assumes "value_name_ok k" and "isWord v"
  shows "inner (prop_line k v)" "lineDepth (prop_line k v) = 0"
  using word_line_inner [of k "[]" v] assms by (simp_all add: prop_line_word_line inner_def value_name_ok_def)

lemma property_names [simp]:
  "value_name_ok ''code''" "value_name_ok ''type''" "value_name_ok ''must''" "value_name_ok ''may_encrypt''"
  "value_name_ok ''vendor_id''" "value_name_ok ''application_id''" "value_name_ok ''request''" "value_name_ok ''proxiable''"
  by (simp_all add: value_name_ok_def)

lemma print_field_inner:
  assumes "field_ok f"
  shows "inner (print_field f)" "lineDepth (print_field f) = 0"
proof -
  obtain k ks where k: "field_modifiers f @ [fi_avp f, fi_name f] = k # ks" "k \<in> {''fixed'', ''repeated'', ''required'', ''optional''}"
    by (cases "fi_fixed f"; cases "fi_repeated f"; cases "fi_required f") (auto simp: field_modifiers_def)
  have "list_all isWord (k # ks)"
    using assms isWord_field_modifiers [of f] by (simp flip: k(1) add: field_ok_def)
  then show "inner (print_field f)" "lineDepth (print_field f) = 0"
    unfolding print_field_word_line k(1) using word_line_inner [of k ks "decimal (fi_pos f)"] k(2)
    by (auto simp: inner_def)
qed

lemma print_grouped_field_inner:
  assumes "field_ok f"
  shows "inner (print_grouped_field f)" "lineDepth (print_grouped_field f) = 0"
  using word_line_inner [of "grouped_modifier f" "[fi_avp f, fi_name f]" "decimal (fi_pos f)"] assms
  by (auto simp: print_grouped_field_word_line inner_def field_ok_def grouped_modifier_def)

lemma block_item:
  assumes "print_item i = unwords [kw, name, ''{''] # body" and "isWord name"
    and "(kw, b) \<in> {(''avp'', AvpBlock), (''command'', CommandBlock), (''enum'', EnumBlock)}"
    and "closes 1 body" and "list_all inner body"
  shows "fileLines (print_item i @ rest) (None, p) =
    (case parseBlock b (print_item i) p of Inl e \<Rightarrow> Inl e | Inr p' \<Rightarrow> fileLines rest (None, p'))"
proof -
  have "startsBlock (unwords [kw, name, ''{'']) = Some b"
    using assms(3) by (auto simp: startsBlock_def)
  then show ?thesis
    unfolding assms(1) using header_line [OF assms(2), of kw] assms(3-5)
    by (intro block_read) (auto simp: inner_def [abs_def])
qed

lemma item_read:
  assumes "parser_wf p" and "item_ok i"
  shows "\<exists>p'. fileLines (print_item i @ rest) (None, p) = fileLines rest (None, p') \<and> parser_wf p' \<and>
    view p' = meaning i (view p)"
proof (cases i)
  case (ConstItem name v)
  let ?l = "word_line [''const'', name] (decimal (unat v))"
  have w: "list_all isWord [''const'', name]" "[''const'', name] \<noteq> []" "isWord (decimal (unat v))"
    using assms(2) ConstItem by (simp_all add: item_ok_def)
  have pre: "\<not> HasPrefix ?l ''syntax''" "\<not> HasPrefix ?l ''package ''" "\<not> HasPrefix ?l ''option go_package''" "HasPrefix ?l ''const ''"
    by (simp_all add: word_line_def)
  have "fileLine ?l (None, p) = Inr (None, p\<lparr>pp_Consts := (pp_Consts p)(name \<mapsto> v)\<rparr>)"
    using word_line(1,2) [OF w] pre const_roundtrip [of name v p] assms(2) ConstItem by (simp add: fileLine_def)
  moreover have "print_item i = [?l]"
    by (simp add: ConstItem print_item_def word_line_def)
  ultimately show ?thesis
    using assms(1) ConstItem by (auto simp: parser_wf_def view_def meaning_def)
next
  case (EnumItem name vs)
  have ok: "isWord name" "list_all (\<lambda>(k, v). value_name_ok k) vs"
    using assms(2) EnumItem by (auto simp: item_ok_def)
  let ?vs = "map (\<lambda>(k, v). prop_line k (decimal (unat v))) vs"
  have "list_all (\<lambda>l. lineDepth l = 0) ?vs" "list_all inner ?vs"
    using ok(2) prop_line_inner by (auto simp: list_all_iff)
  then have "fileLines (print_item i @ rest) (None, p) =
    (case parseEnumBlock (print_item i) p of Inl e \<Rightarrow> Inl e | Inr p' \<Rightarrow> fileLines rest (None, p'))"
    using block_item [of i "''enum''" name "?vs @ [''}'']" EnumBlock] ok(1)
    by (simp add: EnumItem print_item_def parseBlock_def closes_append del: unwords.simps)
  then show ?thesis
    using enum_roundtrip [OF assms(1), of name vs] assms(2) EnumItem by auto
next
  case (AvpItem name a)
  have ok: "isWord name" "isWord (ai_type a)" "list_all field_ok (ai_fields a)"
    using assms(2) AvpItem by (auto simp: item_ok_def list_all_iff)
  let ?ps = "[prop_line ''code'' (decimal (unat (ai_code a))), prop_line ''type'' (ai_type a),
           prop_line ''must'' (boolText (ai_must a)), prop_line ''may_encrypt'' (boolText (ai_encrypt a)),
           prop_line ''vendor_id'' (decimal (unat (ai_vendor a)))]"
  let ?fs = "map print_grouped_field (ai_fields a)"
  let ?g = "if ai_fields a = [] then [] else [''grouped {''] @ ?fs @ [''}'']"
  have ps: "list_all (\<lambda>l. lineDepth l = 0) ?ps" "list_all inner ?ps"
    using ok(2) prop_line_inner by simp_all
  have fs: "list_all (\<lambda>l. lineDepth l = 0) ?fs" "list_all inner ?fs"
    using ok(3) print_grouped_field_inner by (auto simp: list_all_iff)
  have "closes 1 (?ps @ ?g @ [''}''])"
    using closes_append [OF ps(1), of 1 "?g @ [''}'']"] closes_append [OF fs(1), of 2 "[''}'', ''}'']"] by simp
  moreover have "list_all inner (?ps @ ?g @ [''}''])"
    using ps(2) fs(2) by simp
  ultimately have "fileLines (print_item i @ rest) (None, p) =
    (case parseAVPBlock (print_item i) p of Inl e \<Rightarrow> Inl e | Inr p' \<Rightarrow> fileLines rest (None, p'))"
    using block_item [of i "''avp''" name "?ps @ ?g @ [''}'']" AvpBlock rest p] ok(1)
    by (simp add: AvpItem print_item_def parseBlock_def del: unwords.simps closes.simps)
  then show ?thesis
    using avp_roundtrip [OF assms(1), of name a] assms(2) AvpItem by auto
next
  case (CommandItem c)
  have ok: "isWord (ci_name c)" "list_all field_ok (ci_fields c)"
    using assms(2) CommandItem by (auto simp: item_ok_def list_all_iff)
  let ?ps = "[prop_line ''code'' (decimal (unat (ci_code c))), prop_line ''application_id'' (decimal (unat (ci_app c))),
           prop_line ''request'' (boolText (ci_request c)), prop_line ''proxiable'' (boolText (ci_proxiable c))]"
  let ?fs = "map print_field (ci_fields c)"
  have "list_all (\<lambda>l. lineDepth l = 0) (?ps @ ?fs)" "list_all inner (?ps @ ?fs)"
    using ok(2) prop_line_inner print_field_inner by (auto simp: list_all_iff)
  then have "fileLines (print_item i @ rest) (None, p) =
    (case parseCommandBlock (print_item i) p of Inl e \<Rightarrow> Inl e | Inr p' \<Rightarrow> fileLines rest (None, p'))"
    using block_item [of i "''command''" "ci_name c" "(?ps @ ?fs) @ [''}'']" CommandBlock rest p] ok(1)
      closes_append [of "?ps @ ?fs" 1 "[''}'']"]
    by (simp add: CommandItem print_item_def parseBlock_def del: unwords.simps)
  then show ?thesis
    using command_roundtrip [OF assms(1), of c] assms(2) CommandItem by auto
qed

lemma items_read:
  assumes "parser_wf p" and "list_all item_ok items"
  shows "\<exists>p'. fileLines (concat (map print_item items)) (None, p) = Inr (None, p') \<and> parser_wf p' \<and>
    view p' = fold meaning items (view p)"
  using assms
proof (induction items arbitrary: p)
  case (Cons i items)
  obtain p1 where p1: "fileLines (print_item i @ concat (map print_item items)) (None, p) =
        fileLines (concat (map print_item items)) (None, p1)" "parser_wf p1" "view p1 = meaning i (view p)"
    using item_read [OF Cons.prems(1), of i] Cons.prems(2) by auto
  then show ?case
    using Cons.IH [OF p1(2)] Cons.prems(2) by simp
qed auto

definition empty_view :: proto_view where
  "empty_view = \<lparr>pv_avps = Map.empty, pv_commands = [], pv_consts = Map.empty, pv_enums = Map.empty\<rparr>"

lemma NewProtoParser_wf: "parser_wf (NewProtoParser [])" "view (NewProtoParser []) = empty_view"
  by (simp_all add: NewProtoParser_def parser_wf_def view_def empty_view_def)

text \<open>
  C33. A \<^verbatim>\<open>proto\<close> file is read back completely: if its lines are, apart from indentation, blank lines and
  comment lines, the text of a list of constants, enums, AVPs and commands, then \<^verbatim>\<open>ParseFile\<close> succeeds
  and what the parser holds is what these items mean, in order, a later definition of a name
  replacing an earlier one; every field refers to a definition of the AVP it names.
\<close>

theorem ParseFile_roundtrip:
  assumes "ScanLines text = (ls, False)" and "significant ls = concat (map print_item items)"
    and "list_all item_ok items"
  shows "\<exists>p. ParseFile (Some text) (NewProtoParser []) = Inr p \<and> view p = fold meaning items empty_view"
  using items_read [OF NewProtoParser_wf(1) assms(3)] assms(1,2) fileLines_significant [of ls] NewProtoParser_wf(2)
  by (auto simp: ParseFile_def)

definition example_items :: "item list" where
  "example_items =
     [AvpItem ''Origin-Host'' \<lparr>ai_code = 264, ai_type = ''DiameterIdentity'', ai_must = True, ai_encrypt = False,
        ai_vendor = 0, ai_fields = []\<rparr>,
      CommandItem \<lparr>ci_name = ''Device-Watchdog-Request'', ci_code = 280, ci_app = 0, ci_request = True,
        ci_proxiable = False, ci_fields = [\<lparr>fi_avp = ''Origin-Host'', fi_name = ''origin_host'', fi_fixed = True,
          fi_required = True, fi_repeated = False, fi_pos = 1\<rparr>]\<rparr>]"

definition example_lines :: "string list" where
  "example_lines =
     [''// RFC 6733'', ''avp Origin-Host {'', ''  code = 264;'', ''  type = DiameterIdentity;'', ''  must = true;'',
      ''  may_encrypt = false;'', ''  vendor_id = 0;'', ''}'', [], ''command Device-Watchdog-Request {'', ''  code = 280;'',
      ''  application_id = 0;'', ''  request = true;'', ''  proxiable = false;'', ''  // identity'',
      ''  fixed required Origin-Host origin_host = 1;'', ''}'']"

definition unlines :: "string list \<Rightarrow> string" where
  "unlines ls = concat (map (\<lambda>l. l @ [CHR 0x0A]) ls)"

lemma Split_at: "sep \<notin> set w \<Longrightarrow> Split (w @ sep # s) sep = w # Split s sep"
  by (induction w) auto

lemma rawLines_unlines:
  assumes "list_all (\<lambda>l. CHR 0x0A \<notin> set l) ls"
  shows "rawLines (unlines ls) = ls"
proof -
  have "Split (unlines ls) (CHR 0x0A) = ls @ [[]]"
    using assms by (induction ls) (simp_all add: unlines_def Split_at)
  then show ?thesis
    by (simp add: rawLines_def)
qed

lemma ScanLines_unlines:
  assumes "list_all (\<lambda>l. CHR 0x0A \<notin> set l \<and> length l \<le> 65535 \<and> (l = [] \<or> last l \<noteq> CHR 0x0D)) ls"
  shows "ScanLines (unlines ls) = (ls, False)"
proof -
  have "scanFrom ls = (ls, False)"
    using assms by (induction ls) (auto simp: stripCR_def TrimSuffix_other)
  moreover have "rawLines (unlines ls) = ls"
    using assms by (intro rawLines_unlines) (auto simp: list_all_iff)
  ultimately show ?thesis
    by (simp add: ScanLines_def)
qed

lemma decimal_evals: "decimal 264 = ''264''" "decimal 280 = ''280''" "decimal 0 = ''0''" "decimal (Suc 0) = ''1''"
  by code_simp+

lemma example_lines_scan: "ScanLines (unlines example_lines) = (example_lines, False)"
  by (rule ScanLines_unlines) (simp add: example_lines_def)

lemma example_lines_significant: "significant example_lines = concat (map print_item example_items)"
  by (simp add: significant_def example_lines_def example_items_def print_item_def prop_line_def print_field_def
      field_modifiers_def boolText_def decimal_evals skipLine_def TrimSpace_def isSpace_def)

lemma example_items_ok: "list_all item_ok example_items"
  by (simp add: example_items_def item_ok_def field_ok_def isWord_def wordChar_def)

theorem ParseFile_roundtrip_witness:
  "\<exists>p. ParseFile (Some (unlines example_lines)) (NewProtoParser []) = Inr p \<and> view p = fold meaning example_items empty_view"
  using ParseFile_roundtrip [OF example_lines_scan example_lines_significant example_items_ok] .

section \<open>Text outside the format\<close>

text \<open>Lines behind an open block that never close it.\<close>

fun stays_open :: "int \<Rightarrow> string list \<Rightarrow> bool" where
  "stays_open d [] = True"
| "stays_open d (l # ls) = (d + lineDepth l \<noteq> 0 \<and> stays_open (d + lineDepth l) ls)"

lemma open_rest:
  assumes "stays_open (braceDepth acc) ls" and "list_all inner ls"
  shows "fileLines ls (Some (b, acc), p) = Inr (Some (b, acc @ ls), p)"
  using assms
proof (induction ls arbitrary: acc)
  case (Cons l ls)
  have "fileLine l (Some (b, acc), p) = Inr (Some (b, acc @ [l]), p)"
    using Cons.prems by (simp add: fileLine_def inner_def block_line_def braceDepth_snoc)
  then show ?case
    using Cons.IH [of "acc @ [l]"] Cons.prems by (simp add: braceDepth_snoc)
qed simp

text \<open>
  A block that is still open at the end of the file is lost without an error: \<^verbatim>\<open>ParseFile\<close> succeeds
  and holds what the items before the block mean, and nothing of the block.
\<close>

theorem open_block_dropped:
  assumes "ScanLines text = (ls, False)"
    and "significant ls = concat (map print_item items) @ h # body"
    and "list_all item_ok items"
    and "block_line h" and "startsBlock h = Some b" and "stays_open 0 (h # body)" and "list_all inner body"
  shows "\<exists>p. ParseFile (Some text) (NewProtoParser []) = Inr p \<and> view p = fold meaning items empty_view"
proof -
  have app: "fileLines (xs @ ys) st = (case fileLines xs st of Inl e \<Rightarrow> Inl e | Inr st' \<Rightarrow> fileLines ys st')" for xs ys st
    by (induction xs arbitrary: st) (auto split: sum.split)
  obtain p where p: "fileLines (concat (map print_item items)) (None, NewProtoParser []) = Inr (None, p)"
      "view p = fold meaning items empty_view"
    using items_read [OF NewProtoParser_wf(1) assms(3)] NewProtoParser_wf(2) by auto
  have "fileLine h (None, p) = Inr (Some (b, [h]), p)"
    using assms(4-6) by (simp add: fileLine_def block_line_def lineDepth_def)
  moreover have "fileLines body (Some (b, [h]), p) = Inr (Some (b, h # body), p)"
    using open_rest [of "[h]" body b p] assms(6,7) by (simp add: lineDepth_def)
  ultimately have "fileLines ls (None, NewProtoParser []) = Inr (Some (b, h # body), p)"
    using assms(2) p(1) fileLines_significant [of ls] app by simp
  then show ?thesis
    using assms(1) p(2) by (simp add: ParseFile_def)
qed

theorem open_block_dropped_witness:
  "\<exists>p. ParseFile (Some (unlines [''enum E {'', ''A = 0;''])) (NewProtoParser []) = Inr p \<and> view p = empty_view"
proof -
  have "ScanLines (unlines [''enum E {'', ''A = 0;'']) = ([''enum E {'', ''A = 0;''], False)"
    by (rule ScanLines_unlines) simp
  moreover have "significant [''enum E {'', ''A = 0;''] = concat (map print_item []) @ ''enum E {'' # [''A = 0;'']"
    by (simp add: significant_def skipLine_def TrimSpace_def isSpace_def)
  moreover have "block_line ''enum E {''" "startsBlock ''enum E {'' = Some EnumBlock"
      "stays_open 0 (''enum E {'' # [''A = 0;''])" "list_all inner [''A = 0;'']"
    by (simp_all add: block_line_def startsBlock_def inner_def skipLine_def TrimSpace_def isSpace_def lineDepth_def braceDepth_def)
  ultimately show ?thesis
    using open_block_dropped [where items = "[]" and h = "''enum E {''" and body = "[''A = 0;'']" and b = EnumBlock] by simp
qed

text \<open>
  Text that loses information or ends the program: the brace on the next line leaves the definition
  without a body; a comment behind a property changes its value; the fields on the line of \<^verbatim>\<open>grouped {\<close>
  are dropped; too few words behind the modifiers of a field are an index out of range.
\<close>

lemma brace_on_next_line:
  "fileLines [''avp X'', ''{'', ''code = 5;'', ''}''] (None, NewProtoParser []) =
     Inr (None, (NewProtoParser [])\<lparr>pp_heap := [zeroAVP ''X''], pp_AVPs := [''X'' \<mapsto> 0]\<rparr>)"
  by (simp add: fileLine_def skipLine_def TrimSpace_def isSpace_def startsBlock_def braceDepth_def parseBlock_def parseAVPBlock_def
      expandAVP_def declaredName_def Fields_def allocAVP_def NewProtoParser_def TrimSuffix_def HasSuffix_def)

lemma comment_behind_property:
  "avpProperty ''must = true; // mandatory'' d = Inr (d\<lparr>ad_Must := False\<rparr>)"
  "avpProperty ''code = 5; // code'' d = Inl (InvalidNumber ''code'' (ad_Name d) NumSyntax)"
  by (simp_all add: avpProperty_def SplitN2_def TrimSuffix_def HasSuffix_def TrimSpace_def isSpace_def parseU32_def ParseUint_def
      digitVal_def)

lemma fields_on_grouped_line:
  "avpLines [''grouped { required A a = 1;'', ''}'', ''}''] None d p = Inr (d, p)"
  by (simp add: skipLine_def TrimSpace_def isSpace_def avpProperty_def SplitN2_def TrimSuffix_def HasSuffix_def)

lemma short_field_panics:
  "parseFieldDefinition ''fixed required repeated Origin-Host=1'' cmd p = Inl IndexPanic"
  by (simp add: parseFieldDefinition_def Fields_def isSpace_def)

end
