(* ===== verification/Codegen.thy ===== *)
theory Codegen
  imports Proto_Roundtrip "HOL-Library.List_Lexorder" "HOL-Library.Char_ord"
begin

text \<open>
  The code generator around its parser: the resolution of AVP references, the two passes of
  \<^verbatim>\<open>cmd/diameter-codegen\<close> over a directory of \<^verbatim>\<open>proto\<close> files, and of \<^verbatim>\<open>codegen/generator.go\<close> the choice of Go
  types and names and the constants file. The lemmas show that the passes leave no reference
  unresolved that some file defines, that the single-file mode does, and that the constants file
  does not depend on the order in which Go visits its maps.
\<close>

section \<open>Directories\<close>

text \<open>A file is its text, \<open>None\<close> if it cannot be opened; with each loop over a map comes its order.\<close>

datatype codegen_error = NoProtoFiles | Parsing parse_error | Generating

type_synonym registry = "string \<rightharpoonup> nat"

fun firstPass ::
  "string option list \<Rightarrow> AVPDefinition list \<Rightarrow> registry \<Rightarrow> (codegen_error, AVPDefinition list \<times> registry) result" where
  "firstPass [] heap completeAVPs = Inr (heap, completeAVPs)"
| "firstPass (file # files) heap completeAVPs =
     (case ParseFile file (NewProtoParser heap) of
        Inl e \<Rightarrow> Inl (Parsing e)
      | Inr parser \<Rightarrow> firstPass files (pp_heap parser) (completeAVPs ++ pp_AVPs parser))"

definition packageOf :: "ProtoParser \<Rightarrow> string" where
  "packageOf p = (if pp_PackageName p = [] then ''base'' else pp_PackageName p)"

text \<open>\<open>generate\<close> stands for writing the files of one package, and whether that succeeded.\<close>

fun secondPass ::
  "(string \<Rightarrow> ProtoParser \<Rightarrow> bool) \<Rightarrow> (string option \<times> string list) list \<Rightarrow> AVPDefinition list \<Rightarrow> registry \<Rightarrow>
   (codegen_error, ProtoParser list) result" where
  "secondPass generate [] heap completeAVPs = Inr []"
| "secondPass generate ((file, order) # files) heap completeAVPs =
     (case ParseFile file (NewProtoParser heap) of
        Inl e \<Rightarrow> Inl (Parsing e)
      | Inr parser \<Rightarrow>
          (let fileParser = ResolveAVPReferences order (parser\<lparr>pp_AVPs := completeAVPs\<rparr>) in
           if \<not> generate (packageOf fileParser) fileParser then Inl Generating
           else (case secondPass generate files (pp_heap fileParser) completeAVPs of
                   Inl e \<Rightarrow> Inl e
                 | Inr ps \<Rightarrow> Inr (fileParser # ps))))"

definition processProtoDirectory ::
  "(string \<Rightarrow> ProtoParser \<Rightarrow> bool) \<Rightarrow> string list \<Rightarrow> (string option \<times> string list) list \<Rightarrow>
   (codegen_error, ProtoParser list) result" where
  "processProtoDirectory generate order0 files =
     (if files = [] then Inl NoProtoFiles
      else (case firstPass (map fst files) [] Map.empty of
              Inl e \<Rightarrow> Inl e
            | Inr (heap, completeAVPs) \<Rightarrow>
                (let resolver = ResolveAVPReferences order0 ((NewProtoParser heap)\<lparr>pp_AVPs := completeAVPs\<rparr>)
                 in secondPass generate files (pp_heap resolver) completeAVPs)))"

text \<open>The mode for a single file: nothing is resolved.\<close>

definition processProtoFile ::
  "(string \<Rightarrow> ProtoParser \<Rightarrow> bool) \<Rightarrow> string option \<Rightarrow> string \<Rightarrow> (codegen_error, ProtoParser) result" where
  "processProtoFile generate file packageName =
     (case ParseFile file (NewProtoParser []) of
        Inl e \<Rightarrow> Inl (Parsing e)
      | Inr parser \<Rightarrow>
          if generate (if packageName = [] then packageOf parser else packageName) parser
          then Inr parser else Inl Generating)"

section \<open>Names and types of the generated code\<close>

definition toConstantCase :: "string \<Rightarrow> string" where
  "toConstantCase s = ToUpper (ReplaceAll s (CHR ''-'') [])"

definition getAVPCodeConstant :: "string \<Rightarrow> string" where
  "getAVPCodeConstant avpName = ''AVPCode'' @ toConstantCase avpName"

definition getVendorIDConstant :: "u32 \<Rightarrow> string" where
  "getVendorIDConstant vendorID = (if vendorID = 0 then ''0'' else decimal (unat vendorID))"

definition getBaseGoType :: "string \<Rightarrow> string" where
  "getBaseGoType typeName =
     (if typeName \<in> set [''Unsigned32'', ''Unsigned64'', ''Integer32'', ''Integer64'', ''Float32'', ''Float64'',
          ''OctetString'', ''UTF8String'', ''DiameterIdentity'', ''DiameterURI'', ''Enumerated'', ''Address'', ''Time'',
          ''IPFilterRule'', ''QoSFilterRule'', ''Grouped'']
      then ''models_base.'' @ typeName else ''models_base.OctetString'')"

definition structName :: "string \<Rightarrow> string" where
  "structName name = toCamelCase (ReplaceAll name (CHR ''-'') ''_'')"

definition getBaseGoTypeForField :: "AVPDefinition list \<Rightarrow> AVPField \<Rightarrow> string" where
  "getBaseGoTypeForField heap field =
     (let avp = heap ! fd_AVP field in
      if ad_TypeName avp = ''Grouped'' then structName (ad_Name avp) else getBaseGoType (ad_TypeName avp))"

definition getGoType :: "AVPDefinition list \<Rightarrow> AVPField \<Rightarrow> string" where
  "getGoType heap field =
     (let baseType = getBaseGoTypeForField heap field; grouped = (ad_TypeName (heap ! fd_AVP field) = ''Grouped'') in
      if fd_Repeated field then (if grouped then ''[]*'' @ baseType else ''[]'' @ baseType)
      else if \<not> fd_Required field then ''*'' @ baseType
      else if grouped then ''*'' @ baseType
      else baseType)"

section \<open>The constants file\<close>

text \<open>The orders in which one run visits the maps of the parser.\<close>

record map_orders =
  mo_consts :: "string list"
  mo_avps :: "string list"
  mo_vendors :: "string list"
  mo_enums :: "string list"
  mo_values :: "string \<Rightarrow> string list"

abbreviation (input) nl :: string where
  "nl \<equiv> [CHR 0x0A]"

abbreviation (input) tab :: string where
  "tab \<equiv> [CHR 0x09]"

definition constBlock :: "string list \<Rightarrow> string" where
  "constBlock ls = ''const ('' @ nl @ concat ls @ '')'' @ nl @ nl"

definition protocolConstants :: "map_orders \<Rightarrow> ProtoParser \<Rightarrow> string" where
  "protocolConstants o1 p =
     (if mo_consts o1 = [] then []
      else ''// Protocol Constants'' @ nl @
        constBlock (map (\<lambda>name. tab @ name @ '' = '' @ decimal (unat (the (pp_Consts p name))) @ nl) (sort (mo_consts o1))))"

definition avpCodes :: "map_orders \<Rightarrow> ProtoParser \<Rightarrow> string" where
  "avpCodes o1 p =
     ''// AVP Codes'' @ nl @
     constBlock (map (\<lambda>name. tab @ getAVPCodeConstant name @ '' uint32 = '' @
       decimal (unat (ad_Code (pp_heap p ! the (pp_AVPs p name)))) @ nl) (sort (mo_avps o1)))"

definition vendorIDs :: "map_orders \<Rightarrow> ProtoParser \<Rightarrow> u32 list" where
  "vendorIDs o1 p =
     remdups (filter (\<lambda>v. v \<noteq> 0) (map (\<lambda>name. ad_VendorID (pp_heap p ! the (pp_AVPs p name))) (mo_vendors o1)))"

definition vendorConstants :: "map_orders \<Rightarrow> ProtoParser \<Rightarrow> string" where
  "vendorConstants o1 p =
     (if vendorIDs o1 p = [] then []
      else ''// Vendor IDs'' @ nl @
        constBlock (map (\<lambda>v. tab @ ''VendorID'' @ decimal (unat v) @ '' uint32 = '' @ decimal (unat v) @ nl)
          (sort (vendorIDs o1 p))))"

text \<open>\<^verbatim>\<open>sort.Slice\<close> leaves the order of equal names open; \<open>sort_key\<close> keeps them as they come.\<close>

definition commandCodes :: "ProtoParser \<Rightarrow> string" where
  "commandCodes p =
     (if pp_Commands p = [] then []
      else ''// Command Codes'' @ nl @
        constBlock (map (\<lambda>cmd. tab @ ''CommandCode'' @ toConstantCase (cd_Name cmd) @ '' uint32 = '' @
          decimal (unat (cd_Code cmd)) @ nl) (sort_key cd_Name (pp_Commands p))))"

definition enumType :: "map_orders \<Rightarrow> ProtoParser \<Rightarrow> string \<Rightarrow> string" where
  "enumType o1 p enumName =
     (let enum = the (pp_Enums p enumName); typeName = toCamelCase enumName in
      ''// '' @ typeName @ '' represents the '' @ enumName @ '' enumerated type'' @ nl @
      ''type '' @ typeName @ '' uint32'' @ nl @ nl @
      ''// '' @ enumName @ '' values'' @ nl @
      constBlock (map (\<lambda>v. tab @ typeName @ ''_'' @ v @ '' '' @ typeName @ '' = '' @
        decimal (unat (the (ed_Values enum v))) @ nl) (sort (mo_values o1 enumName))))"

definition GenerateConstants :: "string \<Rightarrow> map_orders \<Rightarrow> ProtoParser \<Rightarrow> string" where
  "GenerateConstants packageName o1 p =
     ''// Code generated by diameter-codegen. DO NOT EDIT.'' @ nl @ nl @
     ''package '' @ packageName @ nl @ nl @
     protocolConstants o1 p @ avpCodes o1 p @ vendorConstants o1 p @ commandCodes p @
     concat (map (enumType o1 p) (sort (mo_enums o1)))"

section \<open>Resolution\<close>

text \<open>Resolution changes where fields point to, never the head of a definition.\<close>

definition heads :: "AVPDefinition list \<Rightarrow> (string \<times> u32) list" where
  "heads heap = map (\<lambda>d. (ad_Name d, ad_Code d)) heap"

lemma heads_nth: "heads h = heads h' \<Longrightarrow> a < length h \<Longrightarrow> ad_Name (h ! a) = ad_Name (h' ! a) \<and> ad_Code (h ! a) = ad_Code (h' ! a)"
proof -
  assume h: "heads h = heads h'" and a: "a < length h"
  then have "length h' = length h"
    by (metis heads_def length_map)
  then show ?thesis
    using a arg_cong [OF h, of "\<lambda>xs. xs ! a"] by (simp add: heads_def)
qed

lemma heads_length: "heads h = heads h' \<Longrightarrow> length h = length h'"
  by (auto simp: heads_def dest: map_eq_imp_length_eq)

definition registry_in :: "AVPDefinition list \<Rightarrow> registry \<Rightarrow> bool" where
  "registry_in heap avps \<longleftrightarrow> (\<forall>n a. avps n = Some a \<longrightarrow> a < length heap \<and> ad_Name (heap ! a) = n)"

lemma resolveField_cong:
  assumes "heads h = heads h'" and "registry_in h avps" and "fd_AVP f < length h"
  shows "resolveField h' avps f = resolveField h avps f"
proof -
  have "ad_Name (h' ! fd_AVP f) = ad_Name (h ! fd_AVP f)"
    using heads_nth [OF assms(1,3)] by simp
  moreover have "ad_Code (h' ! a) = ad_Code (h ! a)" if "avps n = Some a" for n a
    using heads_nth [OF assms(1)] assms(2) that by (simp add: registry_in_def)
  ultimately show ?thesis
    by (simp add: resolveField_def Let_def split: option.split)
qed

text \<open>A field is resolved: it points to what the map has for its name, if that has a code.\<close>

definition resolved :: "AVPDefinition list \<Rightarrow> registry \<Rightarrow> AVPField \<Rightarrow> bool" where
  "resolved heap avps f \<longleftrightarrow>
     (let n = ad_Name (heap ! fd_AVP f) in
      n = ''AVP'' \<or> (case avps n of None \<Rightarrow> True | Some a \<Rightarrow> ad_Code (heap ! a) = 0 \<or> fd_AVP f = a))"

lemma resolveField_spec:
  assumes "registry_in h avps" and "fd_AVP f < length h"
  shows "resolved h avps (resolveField h avps f)" "fd_AVP (resolveField h avps f) < length h"
    "view_field h (resolveField h avps f) = view_field h f"
  using assms
  by (auto simp: resolved_def resolveField_def registry_in_def view_field_def Let_def split: option.splits)

lemma resolved_cong:
  assumes "heads h = heads h'" and "registry_in h avps" and "fd_AVP f < length h"
  shows "resolved h' avps f = resolved h avps f"
proof -
  have "ad_Name (h' ! fd_AVP f) = ad_Name (h ! fd_AVP f)"
    using heads_nth [OF assms(1,3)] by simp
  moreover have "ad_Code (h' ! a) = ad_Code (h ! a)" if "avps n = Some a" for n a
    using heads_nth [OF assms(1)] assms(2) that by (simp add: registry_in_def)
  ultimately show ?thesis
    by (simp add: resolved_def Let_def split: option.split)
qed

definition resolveDef :: "AVPDefinition list \<Rightarrow> registry \<Rightarrow> AVPDefinition \<Rightarrow> AVPDefinition" where
  "resolveDef heap avps d = d\<lparr>ad_GroupedFields := map (resolveField heap avps) (ad_GroupedFields d)\<rparr>"

lemma resolveGrouped_def': "resolveGrouped n p =
    (case pp_AVPs p n of None \<Rightarrow> p | Some a \<Rightarrow> p\<lparr>pp_heap := (pp_heap p)[a := resolveDef (pp_heap p) (pp_AVPs p) (pp_heap p ! a)]\<rparr>)"
  by (simp add: resolveGrouped_def resolveDef_def Let_def split: option.split)

lemma wf_registry: "parser_wf p \<Longrightarrow> registry_in (pp_heap p) (pp_AVPs p)"
  by (auto simp: parser_wf_def registry_in_def)

lemma wf_fields: "parser_wf p \<Longrightarrow> a < length (pp_heap p) \<Longrightarrow> fields_in (pp_heap p) (ad_GroupedFields (pp_heap p ! a))"
  by (auto simp: parser_wf_def)

lemma heads_resolved:
  "heads (h[a := resolveDef h0 avps (h ! a)]) = heads h"
  by (cases "a < length h") (auto simp: heads_def resolveDef_def map_update intro!: nth_equalityI simp: nth_list_update)

lemma resolveGrouped_wf:
  assumes "parser_wf p"
  shows "parser_wf (resolveGrouped n p)" "heads (pp_heap (resolveGrouped n p)) = heads (pp_heap p)"
    "pp_AVPs (resolveGrouped n p) = pp_AVPs p" "pp_Commands (resolveGrouped n p) = pp_Commands p"
    "pp_PackageName (resolveGrouped n p) = pp_PackageName p"
proof -
  show h: "heads (pp_heap (resolveGrouped n p)) = heads (pp_heap p)"
    by (simp add: resolveGrouped_def' heads_resolved split: option.split)
  show a: "pp_AVPs (resolveGrouped n p) = pp_AVPs p" "pp_Commands (resolveGrouped n p) = pp_Commands p"
      "pp_PackageName (resolveGrouped n p) = pp_PackageName p"
    by (simp_all add: resolveGrouped_def' split: option.split)
  note len = heads_length [OF h]
  have new: "fields_in (pp_heap p) (ad_GroupedFields (resolveDef (pp_heap p) (pp_AVPs p) (pp_heap p ! a)))" if "a < length (pp_heap p)" for a
    using wf_fields [OF assms that] resolveField_spec(2) [OF wf_registry [OF assms]] by (auto simp: resolveDef_def fields_in_def)
  have "fields_in (pp_heap p) (ad_GroupedFields d)" if d: "d \<in> set (pp_heap (resolveGrouped n p))" for d
  proof -
    obtain i where i: "i < length (pp_heap p)" "d = pp_heap (resolveGrouped n p) ! i"
      using d by (auto simp: in_set_conv_nth len)
    then show ?thesis
      using new [OF i(1)] wf_fields [OF assms i(1)]
      by (cases "pp_AVPs p n = Some i") (auto simp: resolveGrouped_def' split: option.split)
  qed
  then have "\<forall>d \<in> set (pp_heap (resolveGrouped n p)). fields_in (pp_heap (resolveGrouped n p)) (ad_GroupedFields d)"
    using len by (simp add: fields_in_def)
  moreover have "\<forall>c \<in> set (pp_Commands p). fields_in (pp_heap (resolveGrouped n p)) (cd_Fields c)"
    using assms len by (simp add: parser_wf_def fields_in_def)
  moreover have "b < length (pp_heap (resolveGrouped n p)) \<and> ad_Name (pp_heap (resolveGrouped n p) ! b) = m" if "pp_AVPs p m = Some b" for m b
    using assms that heads_nth [OF h [symmetric], of b] len by (auto simp: parser_wf_def)
  ultimately show "parser_wf (resolveGrouped n p)"
    unfolding parser_wf_def a by blast
qed

text \<open>The definitions the loop has visited are resolved, the others are as they were.\<close>

lemma resolve_loop:
  assumes "parser_wf p" and "distinct order"
  defines "q \<equiv> fold resolveGrouped order p"
  shows "parser_wf q \<and> heads (pp_heap q) = heads (pp_heap p) \<and> pp_AVPs q = pp_AVPs p \<and> pp_Commands q = pp_Commands p \<and>
    pp_PackageName q = pp_PackageName p \<and>
    (\<forall>i < length (pp_heap p). pp_heap q ! i =
       (if \<exists>n \<in> set order. pp_AVPs p n = Some i then resolveDef (pp_heap p) (pp_AVPs p) (pp_heap p ! i) else pp_heap p ! i))"
  using assms(1,2) unfolding q_def
proof (induction order arbitrary: p)
  case (Cons n ns)
  let ?r = "resolveGrouped n p"
  note r = resolveGrouped_wf [OF Cons.prems(1), of n]
  note len = heads_length [OF r(2)]
  note ih = Cons.IH [OF r(1)]
  have d: "distinct ns" "n \<notin> set ns"
    using Cons.prems(2) by auto
  have cong: "resolveDef (pp_heap ?r) (pp_AVPs ?r) (pp_heap p ! i) = resolveDef (pp_heap p) (pp_AVPs p) (pp_heap p ! i)"
    if "i < length (pp_heap p)" for i
    using wf_fields [OF Cons.prems(1) that] resolveField_cong [OF r(2) [symmetric] wf_registry [OF Cons.prems(1)]]
    by (simp add: resolveDef_def r(3) fields_in_def)
  have "pp_heap (fold resolveGrouped ns ?r) ! i =
      (if \<exists>m \<in> set (n # ns). pp_AVPs p m = Some i then resolveDef (pp_heap p) (pp_AVPs p) (pp_heap p ! i) else pp_heap p ! i)"
    if i: "i < length (pp_heap p)" for i
  proof (cases "pp_AVPs p n = Some i")
    case True
    have "\<not> (\<exists>m \<in> set ns. pp_AVPs p m = Some i)"
      using True d(2) Cons.prems(1) by (metis parser_wf_def)
    moreover have "pp_heap ?r ! i = resolveDef (pp_heap p) (pp_AVPs p) (pp_heap p ! i)"
      using True i by (simp add: resolveGrouped_def')
    ultimately show ?thesis
      using ih [OF d(1)] True i len r(3) by auto
  next
    case False
    then have "pp_heap ?r ! i = pp_heap p ! i"
      by (auto simp: resolveGrouped_def' split: option.split)
    then show ?thesis
      using ih [OF d(1)] False i len r(3) cong [OF i] by auto
  qed
  then show ?case
    using ih [OF d(1)] r by simp
qed simp

text \<open>The fields a generator reads: those of commands and of the definitions in the map.\<close>

definition live_fields :: "ProtoParser \<Rightarrow> AVPField list set" where
  "live_fields p = cd_Fields ` set (pp_Commands p) \<union> (\<lambda>a. ad_GroupedFields (pp_heap p ! a)) ` ran (pp_AVPs p)"

definition all_resolved :: "ProtoParser \<Rightarrow> bool" where
  "all_resolved p \<longleftrightarrow> (\<forall>fs \<in> live_fields p. list_all (resolved (pp_heap p) (pp_AVPs p)) fs)"

lemma view_field_heads:
  "heads h = heads h' \<Longrightarrow> fd_AVP f < length h \<Longrightarrow> view_field h' f = view_field h f"
  using heads_nth [of h h' "fd_AVP f"] by (simp add: view_field_def)

lemma resolveCommands_wf:
  assumes "parser_wf p"
  shows "parser_wf (resolveCommands p)"
    "list_all (\<lambda>c. list_all (resolved (pp_heap p) (pp_AVPs p)) (cd_Fields c)) (pp_Commands (resolveCommands p))"
    "map (view_command (pp_heap p)) (pp_Commands (resolveCommands p)) = map (view_command (pp_heap p)) (pp_Commands p)"
proof -
  have f: "fd_AVP f < length (pp_heap p)" if "c \<in> set (pp_Commands p)" "f \<in> set (cd_Fields c)" for c f
    using assms that by (auto simp: parser_wf_def fields_in_def)
  note s = resolveField_spec [OF wf_registry [OF assms]]
  show "parser_wf (resolveCommands p)"
    using assms s(2) by (auto simp: parser_wf_def resolveCommands_def fields_in_def)
  show "list_all (\<lambda>c. list_all (resolved (pp_heap p) (pp_AVPs p)) (cd_Fields c)) (pp_Commands (resolveCommands p))"
    using s(1) f by (auto simp: resolveCommands_def list_all_iff)
  show "map (view_command (pp_heap p)) (pp_Commands (resolveCommands p)) = map (view_command (pp_heap p)) (pp_Commands p)"
    using s(3) f by (auto simp: resolveCommands_def view_command_def)
qed

lemma resolve_references:
  assumes "parser_wf p" and "distinct order" and "set order = dom (pp_AVPs p)"
  defines "q \<equiv> ResolveAVPReferences order p"
  shows "parser_wf q" "all_resolved q" "view q = view p" "pp_AVPs q = pp_AVPs p" "heads (pp_heap q) = heads (pp_heap p)"
    "pp_PackageName q = pp_PackageName p"
proof -
  let ?c = "resolveCommands p"
  have c: "pp_heap ?c = pp_heap p" "pp_AVPs ?c = pp_AVPs p" "pp_Consts ?c = pp_Consts p" "pp_Enums ?c = pp_Enums p"
      "pp_PackageName ?c = pp_PackageName p"
    by (simp_all add: resolveCommands_def)
  note l = resolve_loop [OF resolveCommands_wf(1) [OF assms(1)] assms(2)]
  have q: "parser_wf q" "heads (pp_heap q) = heads (pp_heap p)" "pp_AVPs q = pp_AVPs p"
      "pp_Commands q = pp_Commands ?c" "pp_PackageName q = pp_PackageName p"
    using l unfolding q_def ResolveAVPReferences_def c by auto
  show "parser_wf q" "pp_AVPs q = pp_AVPs p" "heads (pp_heap q) = heads (pp_heap p)" "pp_PackageName q = pp_PackageName p"
    by fact+
  have wf: "registry_in (pp_heap p) (pp_AVPs p)"
    using assms(1) by (rule wf_registry)
  have def: "pp_heap q ! a = resolveDef (pp_heap p) (pp_AVPs p) (pp_heap p ! a)" "a < length (pp_heap p)"
    if "pp_AVPs p n = Some a" for n a
  proof -
    show "a < length (pp_heap p)"
      using wf that by (auto simp: registry_in_def)
    then show "pp_heap q ! a = resolveDef (pp_heap p) (pp_AVPs p) (pp_heap p ! a)"
      using l that assms(3) unfolding q_def ResolveAVPReferences_def c by auto
  qed
  have inside: "fd_AVP f < length (pp_heap p)" if "pp_AVPs p n = Some a" "f \<in> set (ad_GroupedFields (pp_heap p ! a))" for n a f
    using wf_fields [OF assms(1) def(2) [OF that(1)]] that(2) by (auto simp: fields_in_def)
  note s = resolveField_spec [OF wf]
  note same = resolved_cong [OF q(2) [symmetric] wf]
  show "all_resolved q"
    unfolding all_resolved_def q(3)
  proof
    fix fs assume "fs \<in> live_fields q"
    then consider (cmd) cm where "cm \<in> set (pp_Commands ?c)" "fs = cd_Fields cm"
      | (grp) n a where "pp_AVPs p n = Some a" "fs = ad_GroupedFields (pp_heap q ! a)"
      by (auto simp: live_fields_def q ran_def)
    then show "list_all (resolved (pp_heap q) (pp_AVPs p)) fs"
    proof cases
      case cmd
      then have "fields_in (pp_heap p) fs"
        using resolveCommands_wf(1) [OF assms(1)] by (auto simp: parser_wf_def c)
      then show ?thesis
        using resolveCommands_wf(2) [OF assms(1)] cmd same by (auto simp: list_all_iff fields_in_def)
    next
      case grp
      then show ?thesis
        using def [OF grp(1)] inside [OF grp(1)] s(1,2) same by (auto simp: list_all_iff resolveDef_def)
    qed
  qed
  have cmds: "map (view_command (pp_heap q)) (pp_Commands ?c) = map (view_command (pp_heap p)) (pp_Commands p)"
    unfolding resolveCommands_wf(3) [OF assms(1), symmetric]
    using resolveCommands_wf(1) [OF assms(1)] view_field_heads [OF q(2) [symmetric]]
    by (auto simp: view_command_def parser_wf_def fields_in_def c)
  have "view_avp (pp_heap q) (pp_heap q ! a) = view_avp (pp_heap p) (pp_heap p ! a)" if "pp_AVPs p n = Some a" for n a
    using def [OF that] inside [OF that] s(2,3) view_field_heads [OF q(2) [symmetric]]
    by (auto simp: view_avp_def resolveDef_def)
  then have avps: "map_option (\<lambda>a. view_avp (pp_heap q) (pp_heap q ! a)) (pp_AVPs p n) =
      map_option (\<lambda>a. view_avp (pp_heap p) (pp_heap p ! a)) (pp_AVPs p n)" for n
    by (cases "pp_AVPs p n") auto
  have fr: "pp_Consts (fold resolveGrouped os x) = pp_Consts x \<and> pp_Enums (fold resolveGrouped os x) = pp_Enums x" for os x
    by (induction os arbitrary: x) (simp_all add: resolveGrouped_def' split: option.split)
  have "pp_Consts q = pp_Consts p" "pp_Enums q = pp_Enums p"
    using fr by (simp_all add: q_def ResolveAVPReferences_def c)
  then show "view q = view p"
    using cmds avps by (simp add: view_def q)
qed

section \<open>Both passes\<close>

lemma NewProtoParser_wf_iff: "parser_wf (NewProtoParser heap) \<longleftrightarrow> (\<forall>d \<in> set heap. fields_in heap (ad_GroupedFields d))"
  by (simp add: parser_wf_def NewProtoParser_def)

lemma wf_heap: "parser_wf p \<Longrightarrow> parser_wf (NewProtoParser (pp_heap p))"
  by (simp add: NewProtoParser_wf_iff) (simp add: parser_wf_def)

lemma wf_registry_upd: "parser_wf p \<Longrightarrow> registry_in (pp_heap p) reg \<Longrightarrow> parser_wf (p\<lparr>pp_AVPs := reg\<rparr>)"
  by (simp add: parser_wf_def registry_in_def)

lemma registry_in_append: "registry_in heap reg \<Longrightarrow> registry_in (heap @ h) reg"
  by (auto simp: registry_in_def nth_append intro: trans_less_add1)

lemma registry_in_add: "registry_in heap r1 \<Longrightarrow> registry_in heap r2 \<Longrightarrow> registry_in heap (r1 ++ r2)"
  by (auto simp: registry_in_def map_add_Some_iff)

lemma registry_in_heads:
  assumes "heads h = heads h'" and "registry_in h reg"
  shows "registry_in h' reg"
  unfolding registry_in_def
proof (intro allI impI)
  fix n a assume "reg n = Some a"
  then have "a < length h" "ad_Name (h ! a) = n"
    using assms(2) by (auto simp: registry_in_def)
  then show "a < length h' \<and> ad_Name (h' ! a) = n"
    using heads_length [OF assms(1)] heads_nth [OF assms(1), of a] by simp
qed

lemma ParseFile_new:
  assumes "parser_wf (NewProtoParser heap)" and "ParseFile file (NewProtoParser heap) = Inr p"
  shows "parser_wf p" "\<exists>h. pp_heap p = heap @ h"
  using ParseFile_wf [OF assms(2,1)] by (auto simp: extends_def NewProtoParser_def)

lemma firstPass_wf:
  "firstPass files heap reg = Inr (heap', reg') \<Longrightarrow> parser_wf (NewProtoParser heap) \<Longrightarrow> registry_in heap reg \<Longrightarrow>
     parser_wf (NewProtoParser heap') \<and> registry_in heap' reg'"
proof (induction files heap reg rule: firstPass.induct)
  case (2 f files heap reg)
  obtain p where p: "ParseFile f (NewProtoParser heap) = Inr p"
    using 2(2) by (auto split: sum.splits)
  obtain h where h: "pp_heap p = heap @ h"
    using ParseFile_new(2) [OF 2(3) p] by blast
  have "registry_in (pp_heap p) (reg ++ pp_AVPs p)"
    using registry_in_add [OF registry_in_append [OF 2(4)] wf_registry [OF ParseFile_new(1) [OF 2(3) p], unfolded h]] h
    by simp
  then show ?case
    using 2(1) [OF p] 2(2) p wf_heap [OF ParseFile_new(1) [OF 2(3) p]] by simp
qed simp

definition covers :: "string list \<Rightarrow> registry \<Rightarrow> bool" where
  "covers order reg \<longleftrightarrow> distinct order \<and> set order = dom reg"

lemma secondPass_resolved:
  "secondPass generate files heap reg = Inr ps \<Longrightarrow> parser_wf (NewProtoParser heap) \<Longrightarrow> registry_in heap reg \<Longrightarrow>
     list_all (\<lambda>(file, order). covers order reg) files \<Longrightarrow>
     length ps = length files \<and>
     list_all (\<lambda>p. parser_wf p \<and> pp_AVPs p = reg \<and> all_resolved p \<and> (\<exists>h. heads (pp_heap p) = heads heap @ h)) ps"
proof (induction generate files heap reg arbitrary: ps rule: secondPass.induct)
  case (2 generate f order files heap reg)
  obtain p where p: "ParseFile f (NewProtoParser heap) = Inr p"
    using 2(2) by (auto split: sum.splits)
  obtain h where h: "pp_heap p = heap @ h"
    using ParseFile_new(2) [OF 2(3) p] by blast
  let ?r = "p\<lparr>pp_AVPs := reg\<rparr>"
  let ?q = "ResolveAVPReferences order ?r"
  have wf: "parser_wf ?r"
    using ParseFile_new(1) [OF 2(3) p] registry_in_append [OF 2(4)] h by (intro wf_registry_upd) auto
  have c: "distinct order" "set order = dom (pp_AVPs ?r)"
    using 2(5) by (auto simp: covers_def)
  note q = resolve_references [OF wf c]
  have hq: "heads (pp_heap ?q) = heads heap @ heads h"
    using q(5) h by (simp add: heads_def)
  obtain ps' where ps': "secondPass generate files (pp_heap ?q) reg = Inr ps'" "ps = ?q # ps'" "generate (packageOf ?q) ?q"
    using 2(2) p by (auto simp: Let_def split: if_splits sum.splits)
  have "registry_in (pp_heap ?q) reg"
    using registry_in_heads [OF q(5) [symmetric]] registry_in_append [OF 2(4), of h] h by simp
  then have ih: "length ps' = length files \<and>
     list_all (\<lambda>p. parser_wf p \<and> pp_AVPs p = reg \<and> all_resolved p \<and> (\<exists>h. heads (pp_heap p) = heads (pp_heap ?q) @ h)) ps'"
    using 2(1) [OF p refl _ ps'(1) wf_heap [OF q(1)]] ps'(3) 2(5) by simp
  moreover have "list_all (\<lambda>p. parser_wf p \<and> pp_AVPs p = reg \<and> all_resolved p \<and> (\<exists>h. heads (pp_heap p) = heads heap @ h)) ps'"
    using ih hq by (force simp: list_all_iff)
  ultimately show ?case
    using ps'(2) q(1,2,4) hq by auto
qed simp

text \<open>
  C34. Processing a directory leaves no reference open: in every parser the generator receives, each
  field of a command and of a grouped AVP points to the definition the registry of all files has for
  its name, unless that has no code, and the registry is the one the first pass built, with names
  and codes as they were parsed.
\<close>

theorem directory_resolved:
  assumes "processProtoDirectory generate order0 files = Inr ps"
    and "firstPass (map fst files) [] Map.empty = Inr (heap, reg)"
    and "covers order0 reg" and "list_all (\<lambda>(file, order). covers order reg) files"
  shows "length ps = length files \<and>
    list_all (\<lambda>p. parser_wf p \<and> pp_AVPs p = reg \<and> all_resolved p \<and> (\<exists>h. heads (pp_heap p) = heads heap @ h)) ps"
proof -
  let ?r = "(NewProtoParser heap)\<lparr>pp_AVPs := reg\<rparr>"
  let ?q = "ResolveAVPReferences order0 ?r"
  have h: "parser_wf (NewProtoParser heap)" "registry_in heap reg"
    using firstPass_wf [OF assms(2)] by (auto simp: NewProtoParser_wf_iff registry_in_def)
  have "parser_wf ?r" "pp_heap ?r = heap"
    using h wf_registry_upd [of "NewProtoParser heap"] by (auto simp: NewProtoParser_def)
  moreover have "distinct order0" "set order0 = dom (pp_AVPs ?r)"
    using assms(3) by (auto simp: covers_def)
  ultimately have q: "parser_wf ?q" "heads (pp_heap ?q) = heads heap"
    using resolve_references [of ?r order0] by auto
  have "secondPass generate files (pp_heap ?q) reg = Inr ps"
    using assms(1,2) by (auto simp: processProtoDirectory_def Let_def split: if_splits)
  from secondPass_resolved [OF this wf_heap [OF q(1)] registry_in_heads [OF q(2) [symmetric] h(2)] assms(4)]
  show ?thesis
    by (simp add: q(2))
qed

section \<open>Examples\<close>

definition command_lines :: "string list" where
  "command_lines = [''command Device-Watchdog-Request {'', ''  code = 280;'', ''  required Origin-Host origin_host = 1;'', ''}'']"

definition avp_lines :: "string list" where
  "avp_lines = [''avp Origin-Host {'', ''  code = 264;'', ''  type = DiameterIdentity;'', ''}'']"

definition watchdog_command :: "nat \<Rightarrow> CommandDefinition" where
  "watchdog_command a = (zeroCommand ''Device-Watchdog-Request'')\<lparr>cd_Abbreviation := ''DWR'', cd_Code := 280,
     cd_Fields := [zeroField\<lparr>fd_AVP := a, fd_FieldName := ''OriginHost'', fd_Required := True, fd_Position := 1\<rparr>]\<rparr>"

definition origin_host_avp :: AVPDefinition where
  "origin_host_avp = (zeroAVP ''Origin-Host'')\<lparr>ad_Code := 264, ad_Type := DiameterIdentityType, ad_TypeName := ''DiameterIdentity''\<rparr>"

lemmas line_defs = skipLine_def TrimSpace_def isSpace_def startsBlock_def braceDepth_def HasPrefix_def HasSuffix_def TrimSuffix_def
  SplitN2_def stripComment_def Contains_def Fields_def

lemma scan_examples:
  "ScanLines (unlines command_lines) = (command_lines, False)" "ScanLines (unlines avp_lines) = (avp_lines, False)"
  "ScanLines (unlines (command_lines @ avp_lines)) = (command_lines @ avp_lines, False)"
  by (rule ScanLines_unlines; simp add: command_lines_def avp_lines_def)+

lemma declared_examples:
  "declaredName ''command Device-Watchdog-Request {'' = Inr ''Device-Watchdog-Request''"
  "declaredName ''avp Origin-Host {'' = Inr ''Origin-Host''"
  by (simp_all add: declaredName_def line_defs)

lemma camel_example: "toCamelCase ''origin_host'' = ''OriginHost''"
  by code_simp

lemma parse_command_lines:
  assumes "pp_AVPs p ''Origin-Host'' = None"
  shows "fileLines (command_lines @ rest) (None, p) =
    fileLines rest (None, p\<lparr>pp_heap := pp_heap p @ [placeholder ''Origin-Host''],
      pp_Commands := pp_Commands p @ [(watchdog_command (length (pp_heap p)))\<lparr>cd_Package := pp_PackageName p\<rparr>]\<rparr>)"
proof -
  have "commandLine ''required Origin-Host origin_host = 1;'' ((zeroCommand ''Device-Watchdog-Request'')\<lparr>cd_Code := 280\<rparr>) p =
      Inr ((watchdog_command (length (pp_heap p)))\<lparr>cd_Abbreviation := []\<rparr>, p\<lparr>pp_heap := pp_heap p @ [placeholder ''Origin-Host'']\<rparr>)"
    using assms by (simp add: commandLine_def line_defs parseFieldDefinition_def finishField_def fieldAVP_def allocAVP_def
        fieldPosition_def Atoi_def ParseUint_def digitVal_def camel_example
        watchdog_command_def zeroCommand_def zeroField_def)
  moreover have "commandLine ''code = 280;'' (zeroCommand ''Device-Watchdog-Request'') p =
      Inr ((zeroCommand ''Device-Watchdog-Request'')\<lparr>cd_Code := 280\<rparr>, p)"
    by (simp add: commandLine_def line_defs commandProperty_def parseU32_def ParseUint_def digitVal_def)
  ultimately have "parseCommandBlock (map TrimSpace command_lines) p =
      Inr (p\<lparr>pp_heap := pp_heap p @ [placeholder ''Origin-Host''],
        pp_Commands := pp_Commands p @ [(watchdog_command (length (pp_heap p)))\<lparr>cd_Package := pp_PackageName p\<rparr>]\<rparr>)"
    by (simp add: parseCommandBlock_def command_lines_def declared_examples generateAbbreviation_def ToUpperChar_def watchdog_command_def
        TrimSpace_def isSpace_def)
  then show ?thesis
    by (simp add: command_lines_def fileLine_def line_defs parseBlock_def)
qed

lemma parse_avp_lines:
  "fileLines avp_lines (None, p) =
    Inr (None, p\<lparr>pp_heap := pp_heap p @ [origin_host_avp], pp_AVPs := (pp_AVPs p)(''Origin-Host'' \<mapsto> length (pp_heap p))\<rparr>)"
proof -
  have "avpLines [''code = 264;'', ''type = DiameterIdentity;'', ''}''] None (zeroAVP ''Origin-Host'') p = Inr (origin_host_avp, p)"
    by (simp add: line_defs avpProperty_def parseU32_def ParseUint_def digitVal_def Available_def origin_host_avp_def zeroAVP_def)
  then have "parseAVPBlock (map TrimSpace avp_lines) p =
      Inr (p\<lparr>pp_heap := pp_heap p @ [origin_host_avp], pp_AVPs := (pp_AVPs p)(''Origin-Host'' \<mapsto> length (pp_heap p))\<rparr>)"
    by (simp add: parseAVPBlock_def expandAVP_def avp_lines_def declared_examples allocAVP_def TrimSpace_def isSpace_def
        del: avpLines.simps)
  then show ?thesis
    by (simp add: avp_lines_def fileLine_def line_defs parseBlock_def)
qed

lemma ParseFile_command_example:
  "ParseFile (Some (unlines command_lines)) (NewProtoParser heap) =
    Inr ((NewProtoParser heap)\<lparr>pp_heap := heap @ [placeholder ''Origin-Host''], pp_Commands := [watchdog_command (length heap)]\<rparr>)"
  using parse_command_lines [of "NewProtoParser heap" "[]"]
  by (simp add: ParseFile_def scan_examples NewProtoParser_def watchdog_command_def zeroCommand_def)

lemma ParseFile_avp_example:
  "ParseFile (Some (unlines avp_lines)) (NewProtoParser heap) =
    Inr ((NewProtoParser heap)\<lparr>pp_heap := heap @ [origin_host_avp], pp_AVPs := [''Origin-Host'' \<mapsto> length heap]\<rparr>)"
  using parse_avp_lines [of "NewProtoParser heap"] by (simp add: ParseFile_def scan_examples NewProtoParser_def)

lemma example_heads: "ad_Name origin_host_avp = ''Origin-Host''" "ad_Code origin_host_avp = 264" "ad_GroupedFields origin_host_avp = []"
  "ad_Name (placeholder n) = n" "ad_Code (placeholder n) = 0"
  by (simp_all add: origin_host_avp_def zeroAVP_def placeholder_def)

theorem directory_resolved_witness:
  "\<exists>ps. processProtoDirectory (\<lambda>_ _. True) [''Origin-Host'']
        [(Some (unlines avp_lines), [''Origin-Host'']), (Some (unlines command_lines), [''Origin-Host''])] = Inr ps \<and>
     length ps = 2 \<and> list_all all_resolved ps"
proof -
  let ?files = "[(Some (unlines avp_lines), [''Origin-Host'']), (Some (unlines command_lines), [''Origin-Host''])]"
  let ?h = "[origin_host_avp, placeholder ''Origin-Host'']" and ?reg = "[''Origin-Host'' \<mapsto> 0 :: nat]"
  have first: "firstPass (map fst ?files) [] Map.empty = Inr (?h, ?reg)"
    using ParseFile_avp_example [of "[]"] ParseFile_command_example [of "[origin_host_avp]"]
    by (simp add: NewProtoParser_def)
  have c: "covers [''Origin-Host''] ?reg"
    by (simp add: covers_def)
  obtain ps where ps: "processProtoDirectory (\<lambda>_ _. True) [''Origin-Host''] ?files = Inr ps"
    unfolding processProtoDirectory_def first
    by (auto simp: Let_def ParseFile_avp_example ParseFile_command_example)
  show ?thesis
    using directory_resolved [OF ps first c] ps c by (auto simp: list_all_iff)
qed

text \<open>
  The mode for a single file resolves nothing: for a file that uses an AVP in a command before it
  defines it, the generator receives a field whose AVP has no code and the type of a placeholder,
  although the same file defines it. The mode for directories has no such field.
\<close>

theorem single_file_unresolved:
  "\<exists>p a. processProtoFile (\<lambda>_ _. True) (Some (unlines (command_lines @ avp_lines))) [] = Inr p \<and>
     map (map fd_AVP \<circ> cd_Fields) (pp_Commands p) = [[a]] \<and>
     ad_Name (pp_heap p ! a) = ''Origin-Host'' \<and> ad_Code (pp_heap p ! a) = 0 \<and>
     map_option (\<lambda>b. ad_Code (pp_heap p ! b)) (pp_AVPs p ''Origin-Host'') = Some 264 \<and> \<not> all_resolved p"
proof -
  let ?p = "(NewProtoParser [])\<lparr>pp_heap := [placeholder ''Origin-Host'', origin_host_avp],
    pp_AVPs := [''Origin-Host'' \<mapsto> 1], pp_Commands := [watchdog_command 0]\<rparr>"
  have "ParseFile (Some (unlines (command_lines @ avp_lines))) (NewProtoParser []) = Inr ?p"
    using parse_command_lines [of "NewProtoParser []" avp_lines]
      parse_avp_lines [of "(NewProtoParser [])\<lparr>pp_heap := [placeholder ''Origin-Host''], pp_Commands := [watchdog_command 0]\<rparr>"]
    by (simp add: ParseFile_def scan_examples NewProtoParser_def watchdog_command_def zeroCommand_def)
  then have "processProtoFile (\<lambda>_ _. True) (Some (unlines (command_lines @ avp_lines))) [] = Inr ?p"
    by (simp add: processProtoFile_def)
  moreover have "\<not> all_resolved ?p"
    by (simp add: all_resolved_def live_fields_def resolved_def watchdog_command_def example_heads)
  ultimately show ?thesis
    by (intro exI [of _ ?p] exI [of _ 0]) (simp add: watchdog_command_def example_heads)
qed

section \<open>The constants file is reproducible\<close>

text \<open>An order visits every key of the parser's maps once.\<close>

definition visits :: "map_orders \<Rightarrow> ProtoParser \<Rightarrow> bool" where
  "visits o1 p \<longleftrightarrow>
     distinct (mo_consts o1) \<and> set (mo_consts o1) = dom (pp_Consts p) \<and>
     distinct (mo_avps o1) \<and> set (mo_avps o1) = dom (pp_AVPs p) \<and>
     distinct (mo_vendors o1) \<and> set (mo_vendors o1) = dom (pp_AVPs p) \<and>
     distinct (mo_enums o1) \<and> set (mo_enums o1) = dom (pp_Enums p) \<and>
     (\<forall>n e. pp_Enums p n = Some e \<longrightarrow> distinct (mo_values o1 n) \<and> set (mo_values o1 n) = dom (ed_Values e))"

lemma sort_distinct_set: "distinct xs \<Longrightarrow> distinct ys \<Longrightarrow> set xs = set ys \<Longrightarrow> sort xs = sort ys"
  by (metis distinct_remdups_id sorted_list_of_set_sort_remdups)

lemma sort_remdups_set: "set xs = set ys \<Longrightarrow> sort (remdups xs) = sort (remdups ys)"
  by (metis sorted_list_of_set_sort_remdups)

text \<open>
  The constants file is reproducible: its text does not depend on the order in which the maps of
  the parser are visited.
\<close>

theorem GenerateConstants_deterministic:
  assumes "visits o1 p" and "visits o2 p"
  shows "GenerateConstants pkg o1 p = GenerateConstants pkg o2 p"
proof -
  note v1 = assms(1) [unfolded visits_def] and v2 = assms(2) [unfolded visits_def]
  have c: "sort (mo_consts o1) = sort (mo_consts o2)" "mo_consts o1 = [] \<longleftrightarrow> mo_consts o2 = []"
    using v1 v2 by (auto intro: sort_distinct_set)
  have a: "sort (mo_avps o1) = sort (mo_avps o2)" and e: "sort (mo_enums o1) = sort (mo_enums o2)"
    using v1 v2 by (auto intro: sort_distinct_set)
  have "set (mo_vendors o1) = set (mo_vendors o2)"
    using v1 v2 by simp
  then have s: "set (filter (\<lambda>v. v \<noteq> 0) (map (\<lambda>name. ad_VendorID (pp_heap p ! the (pp_AVPs p name))) (mo_vendors o1))) =
      set (filter (\<lambda>v. v \<noteq> 0) (map (\<lambda>name. ad_VendorID (pp_heap p ! the (pp_AVPs p name))) (mo_vendors o2)))"
    by simp
  have v: "sort (vendorIDs o1 p) = sort (vendorIDs o2 p)"
    unfolding vendorIDs_def using s by (rule sort_remdups_set)
  have ve: "vendorIDs o1 p = [] \<longleftrightarrow> vendorIDs o2 p = []"
    using s by (simp only: vendorIDs_def set_empty [symmetric] set_remdups)
  have "enumType o1 p n = enumType o2 p n" if "n \<in> set (sort (mo_enums o1))" for n
  proof -
    obtain en where en: "pp_Enums p n = Some en"
      using \<open>n \<in> set (sort (mo_enums o1))\<close> v1 by (auto simp: dom_def)
    then have "sort (mo_values o1 n) = sort (mo_values o2 n)"
      using v1 v2 by (intro sort_distinct_set) auto
    then show ?thesis
      by (simp add: enumType_def Let_def)
  qed
  then have en: "map (enumType o1 p) (sort (mo_enums o1)) = map (enumType o2 p) (sort (mo_enums o2))"
    unfolding e [symmetric] by (intro map_cong) auto
  show ?thesis
    unfolding GenerateConstants_def protocolConstants_def avpCodes_def vendorConstants_def using c a v ve en by simp
qed

theorem GenerateConstants_deterministic_witness:
  "\<exists>o1 o2 p. visits o1 p \<and> visits o2 p \<and> mo_consts o1 \<noteq> mo_consts o2 \<and>
     GenerateConstants ''base'' o1 p = GenerateConstants ''base'' o2 p"
proof -
  let ?o = "\<lambda>ks. \<lparr>mo_consts = ks, mo_avps = [], mo_vendors = [], mo_enums = [], mo_values = (\<lambda>_. [])\<rparr>"
  let ?p = "(NewProtoParser [])\<lparr>pp_Consts := [''A'' \<mapsto> 1, ''B'' \<mapsto> 2]\<rparr>"
  have v: "visits (?o [''A'', ''B'']) ?p" "visits (?o [''B'', ''A'']) ?p"
    by (auto simp: visits_def NewProtoParser_def)
  then show ?thesis
    using GenerateConstants_deterministic [OF v, of "''base''"]
    by (intro exI [of _ "?o [''A'', ''B'']"] exI [of _ "?o [''B'', ''A'']"] exI [of _ ?p]) simp
qed

text \<open>Names that differ only in dashes and case collide in the constants file.\<close>

lemma constant_names_collide: "getAVPCodeConstant ''Called-Party'' = getAVPCodeConstant ''CalledParty''"
  by code_simp

section \<open>Lengths\<close>

text \<open>\<^verbatim>\<open>AVP.Len\<close>, \<^verbatim>\<open>AVP.Padding\<close> and \<^verbatim>\<open>DiameterMessage.Len\<close> of \<^verbatim>\<open>codegen\<close>; \<open>cg_DataLen\<close> is \<^verbatim>\<open>Data.Len()\<close>.\<close>

record CgAVP =
  cg_Vendor :: bool
  cg_DataLen :: nat

definition cg_headerLen :: "CgAVP \<Rightarrow> nat" where
  "cg_headerLen a = (if cg_Vendor a then 12 else 8)"

definition cg_Padding :: "CgAVP \<Rightarrow> nat" where
  "cg_Padding a = (4 - (cg_headerLen a + cg_DataLen a) mod 4) mod 4"

definition cg_Len :: "CgAVP \<Rightarrow> nat" where
  "cg_Len a = (let totalLen = cg_headerLen a + cg_DataLen a in totalLen + (4 - totalLen mod 4) mod 4)"

definition cg_MessageLen :: "CgAVP list \<Rightarrow> nat" where
  "cg_MessageLen avps = fold (\<lambda>a n. n + cg_Len a) avps 20"

lemma cg_Len_padded: "cg_Len a = cg_headerLen a + cg_DataLen a + cg_Padding a \<and> 4 dvd cg_Len a \<and> cg_Padding a < 4"
proof -
  have "4 dvd n + (4 - n mod 4) mod 4" for n :: nat
  proof -
    obtain q r where n: "n = r + q * 4" and "r < 4"
      using mod_mult_div_eq [of n 4] mod_less_divisor [of 4 n] by (metis mult.commute zero_less_numeral)
    then have "n + (4 - n mod 4) mod 4 = 4 * (if r = 0 then q else Suc q)"
      by (auto simp: mod_add_left_eq)
    then show ?thesis
      by (metis dvd_triv_left)
  qed
  then show ?thesis
    by (simp add: cg_Len_def cg_Padding_def Let_def)
qed

lemma cg_MessageLen_aligned: "4 dvd cg_MessageLen avps"
proof -
  have "4 dvd n \<Longrightarrow> 4 dvd fold (\<lambda>a n. n + cg_Len a) avps n" for n
  proof (induction avps arbitrary: n)
    case (Cons a avps)
    then show ?case
      using cg_Len_padded [of a] by (metis (no_types, lifting) dvd_add fold_simps(2))
  qed simp
  then show ?thesis
    by (simp add: cg_MessageLen_def)
qed

end
