(* ===== verification/Dra_Pool.thy ===== *)
theory Dra_Pool
  imports Conn_Pool
begin

text \<open>
  The pool over several agents (\<^verbatim>\<open>client/dra_pool.go\<close>): agents grouped by priority, round-robin
  sending within the active priority, failover and failback by the priority manager, and the
  dispatch of received messages to handlers. \<^verbatim>\<open>sort.Slice\<close> does not promise an order of equal
  elements, so the sorted list is an argument with what the library documents as hypothesis.
\<close>

section \<open>Configuration\<close>

record DRAServerConfig =
  ds_Name :: gostring
  ds_Host :: gostring
  ds_Port :: int
  ds_Priority :: int
  ds_Weight :: int

record DRAPoolConfig =
  dpc_DRAs :: "DRAServerConfig list"
  dpc_LocalAddr :: gostring
  dpc_LocalPortMin :: int
  dpc_LocalPortMax :: int
  dpc_OriginHost :: gostring
  dpc_OriginRealm :: gostring
  dpc_ProductName :: gostring
  dpc_VendorID :: u32
  dpc_AuthAppIDs :: "u32 list"
  dpc_AcctAppIDs :: "u32 list"
  dpc_ConnectionsPerDRA :: int
  dpc_DWRInterval :: int
  dpc_DWRTimeout :: int
  dpc_MaxDWRFailures :: int
  dpc_ReconnectInterval :: int
  dpc_MaxReconnectDelay :: int
  dpc_SendBufferSize :: nat
  dpc_RecvBufferSize :: nat

datatype dra_pool_error =
    NoDRAs
  | OriginHostRequired
  | OriginRealmRequired
  | ConnectionsPerDRATooLow
  | DuplicateDRA gostring
  | PriorityTooLow gostring
  | PoolCreation gostring config_error

fun checkDRAs :: "gostring set \<Rightarrow> DRAServerConfig list \<Rightarrow> dra_pool_error option" where
  "checkDRAs names [] = None"
| "checkDRAs names (dra # rest) =
     (if ds_Name dra \<in> names then Some (DuplicateDRA (ds_Name dra))
      else if ds_Priority dra \<le> 0 then Some (PriorityTooLow (ds_Name dra))
      else checkDRAs (insert (ds_Name dra) names) rest)"

definition validateDRAPoolConfig :: "DRAPoolConfig \<Rightarrow> dra_pool_error option" where
  "validateDRAPoolConfig config =
     (if dpc_DRAs config = [] then Some NoDRAs
      else if dpc_OriginHost config = [] then Some OriginHostRequired
      else if dpc_OriginRealm config = [] then Some OriginRealmRequired
      else if dpc_ConnectionsPerDRA config \<le> 0 then Some ConnectionsPerDRATooLow
      else checkDRAs {} (dpc_DRAs config))"

section \<open>The pool\<close>

record DRAPool =
  dp_config :: DRAPoolConfig
  dp_draPools :: "(gostring \<times> ConnectionPool) list"
  dp_draConfigs :: "DRAServerConfig list"
  dp_priorityGroups :: "int \<Rightarrow> DRAServerConfig list"
  dp_priorityRR :: "int \<Rightarrow> u32"
  dp_activePriority :: "32 word"
  dp_FailoverCount :: u32
  dp_handlers :: "Command \<rightharpoonup> nat"
  dp_middleware :: "nat list"
  dp_recvCh :: "Message list"
  dp_TotalMessagesDrop :: u64
  dp_ctxDone :: bool

text \<open>The comparison given to \<^verbatim>\<open>sort.Slice\<close>.\<close>

definition draLess :: "DRAServerConfig \<Rightarrow> DRAServerConfig \<Rightarrow> bool" where
  "draLess a b = (if ds_Priority a = ds_Priority b then ds_Weight a > ds_Weight b
                  else ds_Priority a < ds_Priority b)"

definition groupByPriority :: "DRAServerConfig list \<Rightarrow> int \<Rightarrow> DRAServerConfig list" where
  "groupByPriority dras =
     foldl (\<lambda>groups dra. groups(ds_Priority dra := groups (ds_Priority dra) @ [dra])) (\<lambda>_. []) dras"

definition poolConfig :: "DRAPoolConfig \<Rightarrow> DRAServerConfig \<Rightarrow> DRAConfig" where
  "poolConfig config dra =
     \<lparr>Host = ds_Host dra, Port = ds_Port dra, LocalAddr = dpc_LocalAddr config,
      LocalPortMin = dpc_LocalPortMin config, LocalPortMax = dpc_LocalPortMax config,
      OriginHost = dpc_OriginHost config, OriginRealm = dpc_OriginRealm config,
      ProductName = dpc_ProductName config, VendorID = dpc_VendorID config,
      ConnectionCount = dpc_ConnectionsPerDRA config, DWRInterval = dpc_DWRInterval config,
      DWRTimeout = dpc_DWRTimeout config, MaxDWRFailures = dpc_MaxDWRFailures config,
      ReconnectInterval = dpc_ReconnectInterval config,
      MaxReconnectDelay = dpc_MaxReconnectDelay config, SendBufferSize = dpc_SendBufferSize config,
      RecvBufferSize = dpc_RecvBufferSize config, AuthAppIDs = dpc_AuthAppIDs config,
      AcctAppIDs = dpc_AcctAppIDs config, hasAcquireLocalAddr = False, hasReleaseLocalAddr = False\<rparr>"

fun createPools ::
  "(gostring \<Rightarrow> bytes option) \<Rightarrow> DRAPoolConfig \<Rightarrow> DRAServerConfig list \<Rightarrow>
   (dra_pool_error, (gostring \<times> ConnectionPool) list) result" where
  "createPools parseIP config [] = Inr []"
| "createPools parseIP config (dra # rest) =
     (case NewConnectionPool parseIP (poolConfig config dra) of
        Inl err \<Rightarrow> Inl (PoolCreation (ds_Name dra) err)
      | Inr connPool \<Rightarrow>
          (case createPools parseIP config rest of
             Inl err \<Rightarrow> Inl err
           | Inr pools \<Rightarrow> Inr ((ds_Name dra, connPool) # pools)))"

definition NewDRAPool ::
  "(gostring \<Rightarrow> bytes option) \<Rightarrow> DRAServerConfig list \<Rightarrow> DRAPoolConfig \<Rightarrow>
   (dra_pool_error, DRAPool) result" where
  "NewDRAPool parseIP sortedDRAs config =
     (case validateDRAPoolConfig config of
        Some err \<Rightarrow> Inl err
      | None \<Rightarrow>
          (case createPools parseIP config sortedDRAs of
             Inl err \<Rightarrow> Inl err
           | Inr pools \<Rightarrow> Inr
               \<lparr>dp_config = config, dp_draPools = pools, dp_draConfigs = sortedDRAs,
                dp_priorityGroups = groupByPriority sortedDRAs, dp_priorityRR = (\<lambda>_. 0),
                dp_activePriority = (case sortedDRAs of [] \<Rightarrow> 0 | dra # _ \<Rightarrow> word_of_int (ds_Priority dra)),
                dp_FailoverCount = 0, dp_handlers = Map.empty, dp_middleware = [], dp_recvCh = [],
                dp_TotalMessagesDrop = 0, dp_ctxDone = False\<rparr>))"

definition HandleFunc :: "Command \<Rightarrow> nat \<Rightarrow> DRAPool \<Rightarrow> DRAPool" where
  "HandleFunc cmd handler p = p\<lparr>dp_handlers := (dp_handlers p)(cmd \<mapsto> handler)\<rparr>"

definition GetActivePriority :: "DRAPool \<Rightarrow> int" where
  "GetActivePriority p = sint (dp_activePriority p)"

definition updatePool ::
  "gostring \<Rightarrow> ConnectionPool \<Rightarrow> (gostring \<times> ConnectionPool) list \<Rightarrow> (gostring \<times> ConnectionPool) list" where
  "updatePool name pool pools = map (\<lambda>(n, q). if n = name then (n, pool) else (n, q)) pools"

text \<open>
  The loop of \<^verbatim>\<open>Send\<close> over the agents in the order they are visited. A name without a pool would be
  a nil pointer.
\<close>

fun tryDRAs ::
  "bytes \<Rightarrow> int \<Rightarrow> DRAServerConfig list \<Rightarrow> (gostring \<times> ConnectionPool) list \<Rightarrow>
   send_error option \<times> (gostring \<times> ConnectionPool) list" where
  "tryDRAs data priority [] pools = (Some (ErrAllDRAs priority), pools)"
| "tryDRAs data priority (dra # rest) pools =
     (case map_of pools (ds_Name dra) of
        None \<Rightarrow> (Some NilDereference, pools)
      | Some pool \<Rightarrow>
          if cp_IsHealthy pool then
            (case cp_Send data pool of
               (None, pool') \<Rightarrow> (None, updatePool (ds_Name dra) pool' pools)
             | (Some e, pool') \<Rightarrow> tryDRAs data priority rest (updatePool (ds_Name dra) pool' pools))
          else tryDRAs data priority rest pools)"

definition dp_Send :: "bytes \<Rightarrow> DRAPool \<Rightarrow> send_error option \<times> DRAPool" where
  "dp_Send data p =
     (let currentPriority = sint (dp_activePriority p);
          draList = dp_priorityGroups p currentPriority;
          n = length draList
      in if (word_of_nat n :: u32) = 0 then (Some (ErrNoDRAs currentPriority), p)
         else
           let start = dp_priorityRR p currentPriority + 1
           in case tryDRAs data currentPriority (map (nth draList) (rotation start n)) (dp_draPools p) of
                (r, pools) \<Rightarrow>
                  (r, p\<lparr>dp_priorityRR := (dp_priorityRR p)(currentPriority := start),
                       dp_draPools := pools\<rparr>))"

definition SendToDRA :: "gostring \<Rightarrow> bytes \<Rightarrow> DRAPool \<Rightarrow> send_error option \<times> DRAPool" where
  "SendToDRA draName data p =
     (case map_of (dp_draPools p) draName of
        None \<Rightarrow> (Some (ErrDRANotFound draName), p)
      | Some pool \<Rightarrow>
          if \<not> cp_IsHealthy pool then (Some (ErrDRANotHealthy draName), p)
          else
            (case cp_Send data pool of
               (r, pool') \<Rightarrow> (r, p\<lparr>dp_draPools := updatePool draName pool' (dp_draPools p)\<rparr>)))"

section \<open>Receiving\<close>

text \<open>
  The middleware functions that run, in order, and the handler that is then called; \<open>None\<close> when the
  message is only logged.
\<close>

definition dispatchReceived :: "Message option \<Rightarrow> DRAPool \<Rightarrow> (nat list \<times> nat) option" where
  "dispatchReceived received p =
     (case received of
        None \<Rightarrow> None
      | Some msg \<Rightarrow>
          (case ParseMessageHeader (msg_Header msg) of
             Inl err \<Rightarrow> None
           | Inr header \<Rightarrow>
               let command = \<lparr>cmd_Interface = uint (mi_ApplicationID header),
                     cmd_Code = uint (mi_CommandCode header), cmd_Request = mi_IsRequest header\<rparr>
               in map_option (Pair (dp_middleware p)) (dp_handlers p command)))"

definition dp_aggregate :: "gostring \<Rightarrow> DRAPool \<Rightarrow> DRAPool" where
  "dp_aggregate name p =
     (case map_of (dp_draPools p) name of
        None \<Rightarrow> p
      | Some pool \<Rightarrow>
          (case cp_recvCh pool of
             [] \<Rightarrow> p
           | msg # rest \<Rightarrow>
               let p1 = p\<lparr>dp_draPools := updatePool name (pool\<lparr>cp_recvCh := rest\<rparr>) (dp_draPools p)\<rparr>
               in if length (dp_recvCh p) < dpc_RecvBufferSize (dp_config p) *
                       length (dpc_DRAs (dp_config p)) * nat (dpc_ConnectionsPerDRA (dp_config p))
                  then p1\<lparr>dp_recvCh := dp_recvCh p @ [msg]\<rparr>
                  else p1\<lparr>dp_TotalMessagesDrop := dp_TotalMessagesDrop p + 1\<rparr>))"

section \<open>Priorities\<close>

definition draHealthy :: "DRAPool \<Rightarrow> DRAServerConfig \<Rightarrow> bool" where
  "draHealthy p dra =
     (case map_of (dp_draPools p) (ds_Name dra) of None \<Rightarrow> False | Some pool \<Rightarrow> cp_IsHealthy pool)"

definition countHealthyDRAsAtPriority :: "int \<Rightarrow> DRAPool \<Rightarrow> nat" where
  "countHealthyDRAsAtPriority priority p = length (filter (draHealthy p) (dp_priorityGroups p priority))"

definition switchPriority :: "int \<Rightarrow> DRAPool \<Rightarrow> DRAPool" where
  "switchPriority priority p =
     p\<lparr>dp_activePriority := word_of_int priority, dp_FailoverCount := dp_FailoverCount p + 1\<rparr>"

definition checkAndUpdatePriority :: "DRAPool \<Rightarrow> DRAPool" where
  "checkAndUpdatePriority p =
     (let currentPriority = sint (dp_activePriority p);
          healthy = \<lambda>priority. countHealthyDRAsAtPriority priority p > 0
      in if healthy currentPriority then
           (case List.find healthy [1..currentPriority - 1] of
              Some priority \<Rightarrow> switchPriority priority p
            | None \<Rightarrow> p)
         else
           (case List.find healthy [currentPriority + 1..10] of
              Some priority \<Rightarrow> switchPriority priority p
            | None \<Rightarrow> p))"

definition dp_IsHealthy :: "DRAPool \<Rightarrow> bool" where
  "dp_IsHealthy p = list_ex (cp_IsHealthy \<circ> snd) (dp_draPools p)"

definition dp_Close :: "DRAPool \<Rightarrow> DRAPool" where
  "dp_Close p = p\<lparr>dp_ctxDone := True,
     dp_draPools := map (\<lambda>(name, pool). (name, cp_Close pool)) (dp_draPools p)\<rparr>"

section \<open>Groups\<close>

lemma foldl_group:
  "foldl (\<lambda>groups dra. groups(ds_Priority dra := groups (ds_Priority dra) @ [dra])) g dras priority =
     g priority @ filter (\<lambda>dra. ds_Priority dra = priority) dras"
  by (induction dras arbitrary: g) auto

lemma groupByPriority_filter:
  "groupByPriority dras priority = filter (\<lambda>dra. ds_Priority dra = priority) dras"
  by (simp add: groupByPriority_def foldl_group)

lemma createPools_names: "createPools parseIP config dras = Inr pools \<Longrightarrow> map fst pools = map ds_Name dras"
  by (induction dras arbitrary: pools) (auto split: sum.splits)

lemma createPools_inv:
  "createPools parseIP config dras = Inr pools \<Longrightarrow> dpc_ConnectionsPerDRA config \<le> 2 ^ 31 \<Longrightarrow>
   (name, pool) \<in> set pools \<Longrightarrow> cp_inv pool"
proof (induction dras arbitrary: pools)
  case (Cons dra dras)
  have "cp_inv q" if "NewConnectionPool parseIP (poolConfig config dra) = Inr q" for q
    using that Cons.prems(2)
    by (auto simp: NewConnectionPool_def DRAConfig_Validate_def cp_inv_def poolConfig_def
        split: option.splits if_splits)
  then show ?case
    using Cons by (auto split: sum.splits)
qed simp

lemma checkDRAs_ok:
  "checkDRAs names dras = None \<Longrightarrow> distinct (map ds_Name dras) \<and> ds_Name ` set dras \<inter> names = {} \<and>
     (\<forall>dra\<in>set dras. 0 < ds_Priority dra)"
proof (induction dras arbitrary: names)
  case (Cons dra dras)
  have d: "ds_Name dra \<notin> names" "0 < ds_Priority dra" "checkDRAs (insert (ds_Name dra) names) dras = None"
    using Cons.prems by (auto split: if_splits)
  show ?case
    using Cons.IH [OF d(3)] d(1,2) by auto
qed simp

section \<open>The pool over several agents is a sink\<close>

definition dp_queued :: "DRAPool \<Rightarrow> bytes multiset" where
  "dp_queued p = sum_list (map (\<lambda>(name, pool). cp_queued pool) (dp_draPools p))"

definition pools_inv :: "(gostring \<times> ConnectionPool) list \<Rightarrow> bool" where
  "pools_inv pools \<longleftrightarrow> distinct (map fst pools) \<and> list_all (cp_inv \<circ> snd) pools"

lemma updatePool_nth:
  assumes "distinct (map fst pools)" and "map_of pools name = Some pool"
  obtains i where "i < length pools" and "pools ! i = (name, pool)"
    and "\<And>q. updatePool name q pools = pools[i := (name, q)]"
proof -
  obtain i where i: "i < length pools" "pools ! i = (name, pool)"
    using map_of_SomeD [OF assms(2)] by (metis in_set_conv_nth)
  have "updatePool name q pools = pools[i := (name, q)]" for q
  proof (rule nth_equalityI)
    fix j assume "j < length (updatePool name q pools)"
    then have j: "j < length pools"
      by (simp add: updatePool_def)
    have "fst (pools ! j) = name \<longleftrightarrow> map fst pools ! j = map fst pools ! i"
      using i j by simp
    then have "fst (pools ! j) = name \<longleftrightarrow> j = i"
      using nth_eq_iff_index_eq [OF assms(1)] i(1) j by simp
    then show "updatePool name q pools ! j = pools[i := (name, q)] ! j"
      using j i by (auto simp: updatePool_def nth_list_update split_beta)
  qed (simp add: updatePool_def)
  then show thesis
    using that i by blast
qed

lemma updatePool_inv:
  assumes "pools_inv pools" and "map_of pools name = Some pool" and "cp_inv pool'"
  shows "pools_inv (updatePool name pool' pools)"
    and "sum_list (map (\<lambda>(name, pool). cp_queued pool) (updatePool name pool' pools)) + cp_queued pool =
      sum_list (map (\<lambda>(name, pool). cp_queued pool) pools) + cp_queued pool'"
proof -
  obtain i where i: "i < length pools" "pools ! i = (name, pool)"
    "updatePool name pool' pools = pools[i := (name, pool')]"
    using updatePool_nth [OF _ assms(2)] assms(1) by (auto simp: pools_inv_def)
  have "map fst (updatePool name pool' pools) = map fst pools"
    by (simp add: updatePool_def split_beta)
  moreover have "list_all (cp_inv \<circ> snd) (updatePool name pool' pools)"
    using assms by (auto simp: pools_inv_def list_all_iff updatePool_def)
  ultimately show "pools_inv (updatePool name pool' pools)"
    using assms by (simp add: pools_inv_def)
  show "sum_list (map (\<lambda>(name, pool). cp_queued pool) (updatePool name pool' pools)) + cp_queued pool =
      sum_list (map (\<lambda>(name, pool). cp_queued pool) pools) + cp_queued pool'"
    using sum_list_update_add [OF i(1), of "\<lambda>(name, pool). cp_queued pool" "(name, pool')"] i by simp
qed

lemma tryDRAs_sink:
  assumes "pools_inv pools" and "tryDRAs d priority dras pools = (r, pools')"
  shows "pools_inv pools' \<and> sum_list (map (\<lambda>(name, pool). cp_queued pool) pools') =
    (if r = None then add_mset d (sum_list (map (\<lambda>(name, pool). cp_queued pool) pools))
     else sum_list (map (\<lambda>(name, pool). cp_queued pool) pools))"
  using assms
proof (induction dras arbitrary: pools)
  case (Cons dra dras)
  show ?case
  proof (cases "map_of pools (ds_Name dra)")
    case None
    then show ?thesis
      using Cons.prems by auto
  next
    case (Some pool)
    obtain r1 pool' where s: "cp_Send d pool = (r1, pool')"
      by (cases "cp_Send d pool")
    have inv: "cp_inv pool"
      using Cons.prems(1) map_of_SomeD [OF Some] by (auto simp: pools_inv_def list_all_iff)
    note u = updatePool_inv [OF Cons.prems(1) Some cp_Send_sink(1) [OF inv s]]
    show ?thesis
      using Cons Some s u cp_Send_sink(2) [OF inv s]
      by (cases r1) (auto split: if_splits)
  qed
qed auto

interpretation dra_sink: message_sink dp_Send dp_queued "\<lambda>p. pools_inv (dp_draPools p)"
  by unfold_locales
    (auto simp: dp_Send_def dp_queued_def Let_def dest: tryDRAs_sink split: prod.splits if_splits)

section \<open>Which agent is used\<close>

lemma rotation_no_wrap:
  fixes start :: u32
  assumes "unat start + n \<le> 2 ^ 32" and "n < 2 ^ 32"
  shows "rotation start n = map (\<lambda>i. (unat start + i) mod n) [0..<n]"
proof -
  have "unat ((start + word_of_nat i) mod word_of_nat n :: u32) = (unat start + i) mod n" if "i < n" for i
  proof -
    have "unat (start + word_of_nat i :: u32) = unat start + i"
      using assms that by (simp add: unat_word_ariths unsigned_of_nat take_bit_nat_eq_self)
    then show ?thesis
      using assms by (simp add: unat_mod unsigned_of_nat take_bit_nat_eq_self)
  qed
  then show ?thesis
    by (simp add: rotation_def)
qed

lemma rotation_perm:
  fixes start :: u32
  assumes "unat start + n \<le> 2 ^ 32" and "0 < n" and "n < 2 ^ 32"
  shows "set (rotation start n) = {0..<n}" and "distinct (rotation start n)"
proof -
  have "rotation start n = map (\<lambda>i. (unat start mod n + i) mod n) [0..<n]"
    using rotation_no_wrap [OF assms(1,3)] by (simp add: mod_add_left_eq)
  then have "rotation start n = [unat start mod n..<n] @ [0..<unat start mod n]"
    using rotation_shift [of "unat start mod n" n] assms(2) by simp
  then show "set (rotation start n) = {0..<n}" "distinct (rotation start n)"
    using assms(2) mod_less_divisor [OF assms(2), of "unat start"] by auto
qed

lemma rotation_bound:
  assumes "i \<in> set (rotation start n)" and "(word_of_nat n :: u32) \<noteq> 0"
  shows "i < n"
proof -
  obtain x :: u32 where "i = unat (x mod word_of_nat n)"
    using assms(1) by (auto simp: rotation_def)
  moreover have "unat (x mod word_of_nat n) < unat (word_of_nat n :: u32)"
    using assms(2) by (simp add: unat_mod unat_gt_0)
  moreover have "unat (word_of_nat n :: u32) \<le> n"
    by (simp add: unsigned_of_nat take_bit_nat_less_eq_self)
  ultimately show ?thesis
    by linarith
qed

definition takes :: "(gostring \<times> ConnectionPool) list \<Rightarrow> bytes \<Rightarrow> DRAServerConfig \<Rightarrow> bool" where
  "takes pools d dra =
     (case map_of pools (ds_Name dra) of
        None \<Rightarrow> False
      | Some pool \<Rightarrow> cp_IsHealthy pool \<and> fst (cp_Send d pool) = None)"

lemma map_of_updatePool:
  "name' \<noteq> name \<Longrightarrow> map_of (updatePool name q pools) name' = map_of pools name'"
  by (induction pools) (auto simp: updatePool_def)

lemma tryDRAs_takes:
  assumes "distinct (map ds_Name dras)" and "ds_Name ` set dras \<subseteq> fst ` set pools"
  shows "fst (tryDRAs d priority dras pools) = None \<longleftrightarrow> list_ex (takes pools d) dras"
  using assms
proof (induction dras arbitrary: pools)
  case (Cons dra dras)
  obtain pool where pool: "map_of pools (ds_Name dra) = Some pool"
    using Cons.prems(2) by (auto simp: map_of_eq_None_iff dest: weak_map_of_SomeI)
  have later: "takes (updatePool (ds_Name dra) q pools) d x = takes pools d x" if "x \<in> set dras" for q x
  proof -
    have "ds_Name x \<noteq> ds_Name dra"
      using that Cons.prems(1) by (metis distinct.simps(2) image_eqI list.map(2) list.set_map)
    then show ?thesis
      by (simp add: takes_def map_of_updatePool)
  qed
  have names: "fst ` set (updatePool (ds_Name dra) q pools) = fst ` set pools" for q
    by (force simp: updatePool_def)
  show ?case
    using Cons pool
    by (auto simp: takes_def [of _ _ dra] names later list_ex_iff split: prod.splits option.splits)
qed simp

lemma dp_Send_fst:
  assumes "dp_priorityGroups p (GetActivePriority p) = draList" and "draList \<noteq> []" and "length draList < 2 ^ 32"
  shows "fst (dp_Send d p) = fst (tryDRAs d (GetActivePriority p)
    (map (nth draList) (rotation (dp_priorityRR p (GetActivePriority p) + 1) (length draList))) (dp_draPools p))"
proof -
  have "(word_of_nat (length draList) :: u32) \<noteq> 0"
  proof
    assume "(word_of_nat (length draList) :: u32) = 0"
    then have "unat (word_of_nat (length draList) :: u32) = 0"
      by simp
    then show False
      using assms(2,3) by (simp add: unsigned_of_nat take_bit_nat_eq_self)
  qed
  then show ?thesis
    using assms(1) by (simp add: dp_Send_def GetActivePriority_def Let_def split: prod.split)
qed

text \<open>Every agent of the active priority has a pool, and their names differ.\<close>

definition group_ok :: "DRAPool \<Rightarrow> bool" where
  "group_ok p \<longleftrightarrow> (let draList = dp_priorityGroups p (GetActivePriority p)
     in distinct (map ds_Name draList) \<and> ds_Name ` set draList \<subseteq> fst ` set (dp_draPools p) \<and>
        length draList < 2 ^ 32)"

section \<open>Failover\<close>

lemma find_upto:
  "List.find P [a..b] = Some q \<longleftrightarrow> a \<le> q \<and> q \<le> b \<and> P q \<and> (\<forall>x. a \<le> x \<and> x < q \<longrightarrow> \<not> P x)"
proof
  assume "List.find P [a..b] = Some q"
  then obtain i where i: "i < length [a..b]" "P ([a..b] ! i)" "q = [a..b] ! i" "\<forall>j<i. \<not> P ([a..b] ! j)"
    by (auto simp: find_Some_iff)
  have "\<not> P x" if "a \<le> x" "x < q" for x
    using i(4) [rule_format, of "nat (x - a)"] i(1,3) that by (simp add: nth_upto)
  then show "a \<le> q \<and> q \<le> b \<and> P q \<and> (\<forall>x. a \<le> x \<and> x < q \<longrightarrow> \<not> P x)"
    using i by (auto simp: nth_upto)
next
  assume q: "a \<le> q \<and> q \<le> b \<and> P q \<and> (\<forall>x. a \<le> x \<and> x < q \<longrightarrow> \<not> P x)"
  then show "List.find P [a..b] = Some q"
    unfolding find_Some_iff by (intro exI [of _ "nat (q - a)"]) (auto simp: nth_upto)
qed

lemma find_upto_None: "List.find P [a..b] = None \<longleftrightarrow> (\<forall>x. a \<le> x \<and> x \<le> b \<longrightarrow> \<not> P x)"
  by (auto simp: find_None_iff)

lemma sint_priority: "- (2 ^ 31) \<le> q \<Longrightarrow> q < 2 ^ 31 \<Longrightarrow> sint (word_of_int q :: 32 word) = q"
  by (simp add: signed_of_int signed_take_bit_int_eq_self)

lemma sint_bounds: "sint (w :: 32 word) < 2 ^ 31" "- (2 ^ 31) \<le> sint w"
  using sint_less [of w] sint_ge [of w] by simp_all

abbreviation healthyAt :: "DRAPool \<Rightarrow> int \<Rightarrow> bool" where
  "healthyAt p q \<equiv> 0 < countHealthyDRAsAtPriority q p"

lemma priority_after:
  assumes "- (2 ^ 31) \<le> q" and "q < 2 ^ 31"
  shows "GetActivePriority (switchPriority q p) = q"
  using sint_priority [OF assms] by (simp add: GetActivePriority_def switchPriority_def)

section \<open>Properties\<close>

text \<open>
  C12. The pool over several agents queues every message it accepts exactly once, on one connection
  of one agent, and none that it refuses, although it may try several agents for one message.
\<close>

theorem dra_pool_accepts_once:
  assumes "pools_inv (dp_draPools p)" and "send_all dp_Send ds p = (taken, p')"
  shows "dp_queued p' = dp_queued p + mset taken \<and> mset taken \<subseteq># mset ds"
  using dra_sink.send_all_exact [OF assms] send_all_taken [OF assms(2)] by blast

definition example_dras :: "DRAServerConfig list" where
  "example_dras =
     [\<lparr>ds_Name = [49], ds_Host = [97], ds_Port = 3868, ds_Priority = 1, ds_Weight = 1\<rparr>,
      \<lparr>ds_Name = [50], ds_Host = [98], ds_Port = 3868, ds_Priority = 2, ds_Weight = 1\<rparr>]"

definition example_dra_config :: DRAPoolConfig where
  "example_dra_config =
     \<lparr>dpc_DRAs = example_dras, dpc_LocalAddr = [], dpc_LocalPortMin = 0, dpc_LocalPortMax = 0,
      dpc_OriginHost = [103], dpc_OriginRealm = [114], dpc_ProductName = [71], dpc_VendorID = 10415,
      dpc_AuthAppIDs = [], dpc_AcctAppIDs = [], dpc_ConnectionsPerDRA = 1, dpc_DWRInterval = 30,
      dpc_DWRTimeout = 10, dpc_MaxDWRFailures = 3, dpc_ReconnectInterval = 5,
      dpc_MaxReconnectDelay = 300, dpc_SendBufferSize = 10, dpc_RecvBufferSize = 10\<rparr>"

text \<open>The first agent is up, the second is down, and the given priority is active.\<close>

definition example_dra_pool :: "bool \<Rightarrow> bool \<Rightarrow> 32 word \<Rightarrow> DRAPool" where
  "example_dra_pool up1 up2 active =
     (let conn = \<lambda>up. example_conn\<lparr>c_state := (if up then StateOpen else StateFailed)\<rparr>;
          pool = \<lambda>up. example_pool\<lparr>cp_connections := [([65], conn up)]\<rparr>
      in \<lparr>dp_config = example_dra_config, dp_draPools = [([49], pool up1), ([50], pool up2)],
         dp_draConfigs = example_dras, dp_priorityGroups = groupByPriority example_dras,
         dp_priorityRR = (\<lambda>_. 0), dp_activePriority = active, dp_FailoverCount = 0,
         dp_handlers = Map.empty, dp_middleware = [], dp_recvCh = [], dp_TotalMessagesDrop = 0,
         dp_ctxDone = False\<rparr>)"

lemmas example_dra_defs = example_dra_pool_def example_dras_def example_pool_def example_conn_def
  NewConnection_def groupByPriority_filter IsActive_def state_IsActive_def

theorem dra_pool_accepts_once_witness:
  "\<exists>p'. send_all dp_Send [[7]] (example_dra_pool True False 1) = ([[7]], p') \<and> dp_queued p' = {#[7]#}"
proof -
  obtain p' where r: "send_all dp_Send [[7]] (example_dra_pool True False 1) = ([[7]], p')"
    by (simp add: example_dra_defs dp_Send_def rotation_def upt_rec cp_IsHealthy_def cp_Send_def connActive_def
        sendOn_def Send_def Let_def)
  have "pools_inv (dp_draPools (example_dra_pool True False 1))" "dp_queued (example_dra_pool True False 1) = {#}"
    by (simp_all add: example_dra_defs pools_inv_def cp_inv_def dp_queued_def cp_queued_def Let_def)
  then show ?thesis
    using dra_pool_accepts_once [OF _ r] r by simp
qed

text \<open>
  As long as the round-robin counter does not wrap, sending succeeds exactly when some agent of
  the active priority is healthy and accepts the message: no such agent is skipped.
\<close>

theorem dp_Send_finds_agent:
  assumes "group_ok p" and "dp_priorityGroups p (GetActivePriority p) = draList" and "draList \<noteq> []"
    and "unat (dp_priorityRR p (GetActivePriority p) + 1) + length draList \<le> 2 ^ 32"
  shows "fst (dp_Send d p) = None \<longleftrightarrow> (\<exists>dra\<in>set draList. takes (dp_draPools p) d dra)"
proof -
  let ?rot = "rotation (dp_priorityRR p (GetActivePriority p) + 1) (length draList)"
  have l: "0 < length draList" "length draList < 2 ^ 32"
    using assms(1-3) by (auto simp: group_ok_def Let_def)
  note rot = rotation_perm [OF assms(4) l]
  have s: "set (map (nth draList) ?rot) = set draList"
    using rot(1) by (auto simp: set_conv_nth [of draList])
  have "distinct (map ds_Name draList)"
    using assms(1,2) by (simp add: group_ok_def Let_def)
  then have "distinct (map (nth (map ds_Name draList)) ?rot)"
    using rot inj_on_nth [of "map ds_Name draList" "{0..<length draList}"]
    by (simp add: distinct_map [of "nth (map ds_Name draList)"])
  moreover have "map ds_Name (map (nth draList) ?rot) = map (nth (map ds_Name draList)) ?rot"
    using rot(1) by simp
  ultimately have "distinct (map ds_Name (map (nth draList) ?rot))"
    by (simp only:)
  moreover have "ds_Name ` set (map (nth draList) ?rot) \<subseteq> fst ` set (dp_draPools p)"
    unfolding s using assms(1,2) by (simp add: group_ok_def Let_def)
  ultimately have "fst (dp_Send d p) = None \<longleftrightarrow> list_ex (takes (dp_draPools p) d) (map (nth draList) ?rot)"
    using dp_Send_fst [OF assms(2,3) l(2)] tryDRAs_takes by simp
  then show ?thesis
    unfolding list_ex_iff s .
qed

theorem dp_Send_finds_agent_witness:
  "fst (dp_Send [7] (example_dra_pool True False 1)) = None"
proof -
  let ?p = "example_dra_pool True False 1"
  have "group_ok ?p" "GetActivePriority ?p = 1" "dp_priorityRR ?p 1 = 0"
    and "dp_priorityGroups ?p 1 = [hd example_dras]"
    by (simp_all add: example_dra_defs group_ok_def GetActivePriority_def Let_def)
  moreover have "takes (dp_draPools ?p) [7] (hd example_dras)"
    by (simp add: takes_def example_dra_defs cp_IsHealthy_def cp_Send_def rotation_def connActive_def
        sendOn_def Send_def Let_def)
  ultimately show ?thesis
    using dp_Send_finds_agent [of ?p "[hd example_dras]" "[7]"] by simp
qed

text \<open>
  When the counter wraps, an agent can be skipped: with three agents, the call that takes the
  counter to its largest value tries the first one twice and the third one not at all, and fails
  if only that one is healthy.
\<close>

theorem dp_Send_wrap_skips:
  assumes "dp_priorityGroups p (GetActivePriority p) = [a, b, c]"
    and "dp_priorityRR p (GetActivePriority p) = 0xFFFFFFFE"
    and "map_of (dp_draPools p) (ds_Name a) = Some pa" and "\<not> cp_IsHealthy pa"
    and "map_of (dp_draPools p) (ds_Name b) = Some pb" and "\<not> cp_IsHealthy pb"
  shows "fst (dp_Send d p) = Some (ErrAllDRAs (GetActivePriority p))"
proof -
  have "rotation (0xFFFFFFFE + 1) (length [a, b, c]) = [0, 0, 1]"
    by (simp add: rotation_def upt_rec)
  then show ?thesis
    using dp_Send_fst [OF assms(1), of d] assms by simp
qed

theorem dp_Send_wrap_skips_witness:
  "let c = \<lparr>ds_Name = [51], ds_Host = [99], ds_Port = 3868, ds_Priority = 1, ds_Weight = 1\<rparr>;
       p0 = example_dra_pool False False 1;
       p = p0\<lparr>dp_priorityGroups := (\<lambda>_. example_dras @ [c]), dp_priorityRR := (\<lambda>_. 0xFFFFFFFE),
              dp_draPools := dp_draPools p0 @ [([51], snd (hd (dp_draPools (example_dra_pool True False 1))))]\<rparr>
   in draHealthy p c \<and> fst (dp_Send [7] p) = Some (ErrAllDRAs 1)"
proof -
  let ?c = "\<lparr>ds_Name = [51], ds_Host = [99], ds_Port = 3868, ds_Priority = 1, ds_Weight = 1\<rparr>"
  let ?p0 = "example_dra_pool False False 1"
  let ?p = "?p0\<lparr>dp_priorityGroups := (\<lambda>_. example_dras @ [?c]), dp_priorityRR := (\<lambda>_. 0xFFFFFFFE),
      dp_draPools := dp_draPools ?p0 @ [([51], snd (hd (dp_draPools (example_dra_pool True False 1))))]\<rparr>"
  have h: "draHealthy ?p ?c" and a: "GetActivePriority ?p = 1"
    by (simp_all add: draHealthy_def GetActivePriority_def example_dra_defs cp_IsHealthy_def Let_def)
  obtain da db pa pb where e: "example_dras = [da, db]" "map_of (dp_draPools ?p) (ds_Name da) = Some pa"
    "\<not> cp_IsHealthy pa" "map_of (dp_draPools ?p) (ds_Name db) = Some pb" "\<not> cp_IsHealthy pb"
    by (simp add: example_dra_defs cp_IsHealthy_def Let_def)
  have "fst (dp_Send [7] ?p) = Some (ErrAllDRAs (GetActivePriority ?p))"
    using dp_Send_wrap_skips [OF _ _ e(2-5), of ?c "[7]"] e(1) by simp
  then show ?thesis
    using h a by (simp only: Let_def)
qed

text \<open>
  C29. One round of the priority manager: while the active priority has a healthy agent it returns to
  the best priority that has one; when it has none it moves to the next worse priority up to 10
  that has one, and otherwise it stays.
\<close>

theorem checkAndUpdatePriority_spec:
  assumes "1 \<le> GetActivePriority p"
  shows "let old = GetActivePriority p; new = GetActivePriority (checkAndUpdatePriority p)
    in if healthyAt p old then healthyAt p new \<and> 1 \<le> new \<and> new \<le> old \<and> (\<forall>q. 1 \<le> q \<and> q < new \<longrightarrow> \<not> healthyAt p q)
       else if \<exists>q. old < q \<and> q \<le> 10 \<and> healthyAt p q
       then healthyAt p new \<and> old < new \<and> new \<le> 10 \<and> (\<forall>q. old < q \<and> q < new \<longrightarrow> \<not> healthyAt p q)
       else checkAndUpdatePriority p = p"
proof -
  let ?old = "GetActivePriority p"
  have old: "?old < 2 ^ 31"
    using sint_bounds by (simp add: GetActivePriority_def)
  note cu = checkAndUpdatePriority_def [of p, unfolded Let_def, folded GetActivePriority_def]
  show ?thesis
  proof (cases "healthyAt p ?old")
    case True
    show ?thesis
    proof (cases "List.find (healthyAt p) [1..?old - 1]")
      case None
      then have "\<forall>q. 1 \<le> q \<and> q < ?old \<longrightarrow> \<not> healthyAt p q"
        by (simp add: find_upto_None)
      then show ?thesis
        using True assms None by (simp add: cu Let_def)
    next
      case (Some q)
      then have "1 \<le> q \<and> q < ?old \<and> healthyAt p q \<and> (\<forall>x. 1 \<le> x \<and> x < q \<longrightarrow> \<not> healthyAt p x)"
        by (simp add: find_upto)
      then show ?thesis
        using True Some old priority_after [of q p] by (simp add: cu Let_def)
    qed
  next
    case False
    show ?thesis
    proof (cases "List.find (healthyAt p) [?old + 1..10]")
      case None
      then have "\<not> (\<exists>q. ?old < q \<and> q \<le> 10 \<and> healthyAt p q)"
        by (auto simp: find_upto_None)
      then show ?thesis
        using False None by (simp add: cu Let_def)
    next
      case (Some q)
      then have q: "?old < q \<and> q \<le> 10 \<and> healthyAt p q \<and> (\<forall>x. ?old < x \<and> x < q \<longrightarrow> \<not> healthyAt p x)"
        by (auto simp: find_upto)
      then have "GetActivePriority (checkAndUpdatePriority p) = q"
        using False Some assms priority_after [of q p] by (simp add: cu)
      then show ?thesis
        using False q by (auto simp: Let_def)
    qed
  qed
qed

theorem checkAndUpdatePriority_spec_witness:
  "GetActivePriority (checkAndUpdatePriority (example_dra_pool False True 1)) \<in> {2..10}"
proof -
  let ?p = "example_dra_pool False True 1"
  have "GetActivePriority ?p = 1" "\<not> healthyAt ?p 1" "healthyAt ?p 2"
    by (simp_all add: GetActivePriority_def countHealthyDRAsAtPriority_def draHealthy_def example_dra_defs
        cp_IsHealthy_def Let_def)
  then show ?thesis
    using checkAndUpdatePriority_spec [of ?p] by (auto simp: Let_def intro: exI [of _ 2] split: if_splits)
qed

text \<open>
  The manager does not leave a dead priority for a better one: when the active priority has lost
  its last agent, only better priorities have healthy ones and the worse ones up to 10 have none,
  every round leaves the pool as it is and every send fails, although an agent could be reached.
\<close>

theorem dead_priority_is_kept:
  assumes "\<not> healthyAt p (GetActivePriority p)" and "healthyAt p q" and "q < GetActivePriority p"
    and "\<forall>q. GetActivePriority p < q \<and> q \<le> 10 \<longrightarrow> \<not> healthyAt p q"
  shows "checkAndUpdatePriority p = p \<and> (\<exists>dra\<in>set (dp_priorityGroups p q). draHealthy p dra) \<and>
    fst (dp_Send d p) \<noteq> None"
proof -
  have none: "List.find (healthyAt p) [GetActivePriority p + 1..10] = None"
    using assms(4) by (simp add: find_upto_None)
  have "checkAndUpdatePriority p = p"
    using assms(1) none
    by (simp add: checkAndUpdatePriority_def [of p, unfolded Let_def, folded GetActivePriority_def])
  moreover have "\<exists>dra\<in>set (dp_priorityGroups p q). draHealthy p dra"
    using assms(2) by (auto simp: countHealthyDRAsAtPriority_def filter_empty_conv)
  moreover have "fst (tryDRAs d priority dras (dp_draPools p)) \<noteq> None"
    if "list_all (\<lambda>dra. \<not> draHealthy p dra) dras" for priority dras
    using that by (induction dras) (auto simp: draHealthy_def split: option.splits)
  moreover have "list_all (\<lambda>dra. \<not> draHealthy p dra)
      (map (nth (dp_priorityGroups p (GetActivePriority p))) (rotation start n))"
    if "n = length (dp_priorityGroups p (GetActivePriority p))" "(word_of_nat n :: u32) \<noteq> 0" for start n
    using assms(1) rotation_bound [OF _ that(2)] that(1)
    by (auto simp: list_all_iff countHealthyDRAsAtPriority_def filter_empty_conv)
  ultimately have "fst (dp_Send d p) \<noteq> None"
    by (simp add: dp_Send_def Let_def GetActivePriority_def [symmetric] split: prod.split)
      (metis fst_conv)
  moreover note \<open>checkAndUpdatePriority p = p\<close> \<open>\<exists>dra\<in>set (dp_priorityGroups p q). draHealthy p dra\<close>
  ultimately show ?thesis
    by blast
qed

theorem dead_priority_is_kept_witness:
  "checkAndUpdatePriority (example_dra_pool True False 2) = example_dra_pool True False 2 \<and>
   dp_IsHealthy (example_dra_pool True False 2) \<and> fst (dp_Send [7] (example_dra_pool True False 2)) \<noteq> None"
proof -
  let ?p = "example_dra_pool True False 2"
  have a: "GetActivePriority ?p = 2"
    by (simp add: GetActivePriority_def example_dra_defs Let_def)
  have h: "healthyAt ?p q \<longleftrightarrow> q = 1" for q
    by (simp add: countHealthyDRAsAtPriority_def draHealthy_def example_dra_defs cp_IsHealthy_def Let_def)
  have "dp_IsHealthy ?p"
    by (simp add: dp_IsHealthy_def example_dra_defs cp_IsHealthy_def Let_def)
  then show ?thesis
    using dead_priority_is_kept [of ?p 1 "[7]"] by (simp add: a h)
qed

text \<open>
  A new pool satisfies what sending relies on: the names of the agents differ, each has a valid
  connection pool, and the active priority is the best one configured. The sorted list is what
  \<^verbatim>\<open>sort.Slice\<close> promises: a permutation without inversions.
\<close>

theorem NewDRAPool_ok:
  assumes "NewDRAPool parseIP dras config = Inr p" and "mset dras = mset (dpc_DRAs config)"
    and "sorted_wrt (\<lambda>a b. \<not> draLess b a) dras" and "\<forall>dra\<in>set dras. ds_Priority dra < 2 ^ 31"
    and "dpc_ConnectionsPerDRA config \<le> 2 ^ 31" and "length dras < 2 ^ 32"
  shows "pools_inv (dp_draPools p) \<and> group_ok p \<and>
    GetActivePriority p = Min (ds_Priority ` set (dpc_DRAs config)) \<and>
    dp_priorityGroups p (GetActivePriority p) \<noteq> []"
proof -
  obtain pools where v: "validateDRAPoolConfig config = None" and c: "createPools parseIP config dras = Inr pools"
    using assms(1) by (auto simp: NewDRAPool_def split: option.splits sum.splits)
  have same: "set dras = set (dpc_DRAs config)"
    using assms(2) by (metis set_mset_mset)
  have ok: "dpc_DRAs config \<noteq> []" "checkDRAs {} (dpc_DRAs config) = None"
    using v by (auto simp: validateDRAPoolConfig_def split: if_splits)
  obtain dra rest where dras: "dras = dra # rest"
    using ok(1) assms(2) by (cases dras) auto
  have "mset (map ds_Name dras) = mset (map ds_Name (dpc_DRAs config))"
    using assms(2) by (metis mset_map)
  then have dist: "distinct (map ds_Name dras)"
    using checkDRAs_ok [OF ok(2)] mset_eq_imp_distinct_iff by blast
  have pos: "0 < ds_Priority dra" "ds_Priority dra < 2 ^ 31"
    using checkDRAs_ok [OF ok(2)] assms(4) same dras by auto
  have min: "ds_Priority dra \<le> ds_Priority x" if "x \<in> set dras" for x
    using assms(3) that by (auto simp: dras draLess_def split: if_splits)
  have p: "dp_draPools p = pools" "dp_priorityGroups p = groupByPriority dras"
      "GetActivePriority p = ds_Priority dra"
    using assms(1) v c dras sint_priority [of "ds_Priority dra"] pos
    by (auto simp: NewDRAPool_def GetActivePriority_def)
  have names: "map fst pools = map ds_Name dras"
    using createPools_names [OF c] .
  have "pools_inv pools"
    using names dist createPools_inv [OF c assms(5)] by (auto simp: pools_inv_def list_all_iff)
  moreover have "fst ` set pools = ds_Name ` set dras"
    using names by (metis list.set_map)
  then have "group_ok p"
    using dist assms(6) unfolding group_ok_def Let_def p groupByPriority_filter
    by (auto simp: distinct_map_filter le_less_trans [OF length_filter_le])
  moreover have "Min (ds_Priority ` set (dpc_DRAs config)) = ds_Priority dra"
    using min same dras by (intro Min_eqI) auto
  moreover have "dp_priorityGroups p (GetActivePriority p) \<noteq> []"
    by (simp add: p groupByPriority_filter dras)
  ultimately show ?thesis
    using p by simp
qed

theorem NewDRAPool_ok_witness:
  "\<exists>p. NewDRAPool (\<lambda>_. None) example_dras example_dra_config = Inr p \<and> GetActivePriority p = 1"
proof -
  obtain p where p: "NewDRAPool (\<lambda>_. None) example_dras example_dra_config = Inr p"
    by (simp add: NewDRAPool_def validateDRAPoolConfig_def example_dra_config_def example_dras_def
        NewConnectionPool_def DRAConfig_Validate_def poolConfig_def)
  then show ?thesis
    using NewDRAPool_ok [OF p] by (simp add: example_dra_config_def example_dras_def draLess_def)
qed

end
