(* ===== verification/Gateway.thy ===== *)
theory Gateway
  imports Request_Table Diam_Server Dra_Pool
begin

text \<open>
  The gateway (\<^verbatim>\<open>gateway/gateway.go\<close>): its construction from the servers, the address client and the DRA
  pool, and its table of sessions with the counters that go with it; and the gateway over several
  applications (\<^verbatim>\<open>client/gateway.go\<close>). The lemmas show which configurations construct, fail or panic, and
  that the session counters account for every session.
\<close>

section \<open>Construction\<close>

text \<open>
  \<open>None\<close> for a configuration is a nil pointer. The configurations of the servers, which the
  constructors change through their pointers, keep only the address, the limit and the connection
  configuration, which \<^verbatim>\<open>newServer\<close> replaces by the default when it is nil.
\<close>

record GatewayConfig =
  gwc_InServerConfig :: "ServerConfig option"
  gwc_InClientConfig :: "PoolConfig option"
  gwc_OutServerConfig :: "ServerConfig option"
  gwc_OutServerSupported :: bool
  gwc_DRASupported :: bool
  gwc_DRAPoolConfig :: "DRAPoolConfig option"
  gwc_OriginHost :: gostring
  gwc_OriginRealm :: gostring
  gwc_ProductName :: gostring
  gwc_VendorID :: u32
  gwc_SessionTimeout :: int

datatype gateway_error =
    GwConfigNil
  | GwRequired string
  | GwDRAPool dra_pool_error

text \<open>A constructor that returns an error, panics, or returns.\<close>

datatype 'a built = Failed gateway_error | Panic | Built 'a

definition ValidateGatewayConfig :: "GatewayConfig option \<Rightarrow> (gateway_error, GatewayConfig) result" where
  "ValidateGatewayConfig config =
     (case config of
        None \<Rightarrow> Inl GwConfigNil
      | Some c \<Rightarrow>
          if gwc_OriginHost c = [] then Inl (GwRequired ''OriginHost'')
          else if gwc_OriginRealm c = [] then Inl (GwRequired ''OriginRealm'')
          else if gwc_DRAPoolConfig c = None then Inl (GwRequired ''DRAPoolConfig'')
          else Inr (if gwc_SessionTimeout c \<le> 0 then c\<lparr>gwc_SessionTimeout := 30000000000\<rparr> else c))"

definition gw_newServer ::
  "(gostring \<Rightarrow> bytes option) \<Rightarrow> GatewayConfig \<Rightarrow> ServerConfig option \<Rightarrow> Server" where
  "gw_newServer parseIP config serverCfg =
     (let cfg = (case serverCfg of None \<Rightarrow> DefaultServerConfig | Some c \<Rightarrow> c);
          cc = (svc_ConnectionConfig cfg)\<lparr>scf_OriginHost := gwc_OriginHost config,
            scf_OriginRealm := gwc_OriginRealm config, scf_ProductName := gwc_ProductName config,
            scf_VendorID := gwc_VendorID config, scf_HandleWatchdog := True\<rparr>
      in NewServer parseIP (Some (cfg\<lparr>svc_ConnectionConfig := cc\<rparr>)))"

text \<open>A session is the time it was created; its connection and its channel belong to the caller.\<close>

record GatewayState =
  gw_config :: GatewayConfig
  gw_inServer :: Server
  gw_inClient :: AddressClient
  gw_outServer :: "Server option"
  gw_draPool :: "DRAPool option"
  gw_sessions :: "u32 \<rightharpoonup> int"
  gw_ActiveSessions :: u64
  gw_SessionsCreated :: u64
  gw_SessionsCompleted :: u64
  gw_SessionsExpired :: u64
  gw_TimeoutErrors :: u64
  gw_TotalRequests :: u64
  gw_TotalResponses :: u64
  gw_TotalErrors :: u64
  gw_TotalForwarded :: u64
  gw_TotalFromDRA :: u64
  gw_RoutingErrors :: u64
  gw_TotalLatencyMs :: u64
  gw_RequestCount :: u64

text \<open>
  \<open>sorted\<close> are the agents in the order \<^verbatim>\<open>NewDRAPool\<close> sorts them. After a failed \<^verbatim>\<open>NewDRAPool\<close> the nil pool
  is dereferenced before its error is looked at.
\<close>

definition NewGateway ::
  "(gostring \<Rightarrow> bytes option) \<Rightarrow> DRAServerConfig list \<Rightarrow> GatewayConfig option \<Rightarrow> GatewayState built" where
  "NewGateway parseIP sortedDRAs config =
     (case ValidateGatewayConfig config of
        Inl err \<Rightarrow> Failed err
      | Inr cfg \<Rightarrow>
          (case NewAddressClient (gwc_InClientConfig cfg) of
             Inl err \<Rightarrow> Panic
           | Inr inClient \<Rightarrow>
               let gw = \<lparr>gw_config = cfg, gw_inServer = gw_newServer parseIP cfg (gwc_InServerConfig cfg),
                     gw_inClient = inClient,
                     gw_outServer = (if gwc_OutServerSupported cfg
                       then Some (gw_newServer parseIP cfg (gwc_OutServerConfig cfg)) else None),
                     gw_draPool = None, gw_sessions = Map.empty, gw_ActiveSessions = 0, gw_SessionsCreated = 0,
                     gw_SessionsCompleted = 0, gw_SessionsExpired = 0, gw_TimeoutErrors = 0,
                     gw_TotalRequests = 0, gw_TotalResponses = 0, gw_TotalErrors = 0, gw_TotalForwarded = 0,
                     gw_TotalFromDRA = 0, gw_RoutingErrors = 0, gw_TotalLatencyMs = 0, gw_RequestCount = 0\<rparr>
               in if gwc_DRASupported cfg
                  then (case gwc_DRAPoolConfig cfg of
                          None \<Rightarrow> Failed (GwRequired ''DRAPoolConfig'')
                        | Some dpc \<Rightarrow>
                            (case NewDRAPool parseIP sortedDRAs (dpc\<lparr>dpc_OriginHost := gwc_OriginHost cfg,
                                    dpc_OriginRealm := gwc_OriginRealm cfg, dpc_ProductName := gwc_ProductName cfg,
                                    dpc_VendorID := gwc_VendorID cfg\<rparr>) of
                               Inl err \<Rightarrow> Panic
                             | Inr pool \<Rightarrow> Built (gw\<lparr>gw_draPool := Some (pool\<lparr>dp_handlers := Map.empty\<rparr>)\<rparr>)))
                  else Built gw))"

definition DefaultGatewayConfig :: GatewayConfig where
  "DefaultGatewayConfig =
     \<lparr>gwc_InServerConfig = Some DefaultServerConfig, gwc_InClientConfig = None,
      gwc_OutServerConfig = Some DefaultServerConfig, gwc_OutServerSupported = False,
      gwc_DRASupported = False, gwc_DRAPoolConfig = None,
      gwc_OriginHost = gostr ''diameter-gw.example.com'', gwc_OriginRealm = gostr ''example.com'',
      gwc_ProductName = gostr ''Diameter-Gateway'', gwc_VendorID = 10415, gwc_SessionTimeout = 30000000000\<rparr>"

section \<open>Handlers, counters and requests to the applications\<close>

definition RegisterInServer :: "Command \<Rightarrow> handler \<Rightarrow> GatewayState \<Rightarrow> GatewayState" where
  "RegisterInServer cmd handler g = g\<lparr>gw_inServer := sv_HandleFunc cmd handler (gw_inServer g)\<rparr>"

definition SetInHandler :: "(Command \<rightharpoonup> handler) \<Rightarrow> GatewayState \<Rightarrow> GatewayState" where
  "SetInHandler h g = g\<lparr>gw_inServer := (gw_inServer g)\<lparr>sv_HandlerMux := h\<rparr>\<rparr>"

text \<open>Without an outer server or a DRA pool the pointer is nil and the call panics (\<open>None\<close>).\<close>

definition RegisterOutServer :: "Command \<Rightarrow> handler \<Rightarrow> GatewayState \<Rightarrow> GatewayState option" where
  "RegisterOutServer cmd handler g =
     map_option (\<lambda>s. g\<lparr>gw_outServer := Some (sv_HandleFunc cmd handler s)\<rparr>) (gw_outServer g)"

definition SetOutHandler :: "(Command \<rightharpoonup> handler) \<Rightarrow> GatewayState \<Rightarrow> GatewayState option" where
  "SetOutHandler h g = map_option (\<lambda>s. g\<lparr>gw_outServer := Some (s\<lparr>sv_HandlerMux := h\<rparr>)\<rparr>) (gw_outServer g)"

definition RegisterDraPoolServer :: "Command \<Rightarrow> nat \<Rightarrow> GatewayState \<Rightarrow> GatewayState option" where
  "RegisterDraPoolServer cmd handler g =
     map_option (\<lambda>p. g\<lparr>gw_draPool := Some (HandleFunc cmd handler p)\<rparr>) (gw_draPool g)"

definition SetDraPoolHanlder :: "(Command \<rightharpoonup> nat) \<Rightarrow> GatewayState \<Rightarrow> GatewayState option" where
  "SetDraPoolHanlder h g = map_option (\<lambda>p. g\<lparr>gw_draPool := Some (p\<lparr>dp_handlers := h\<rparr>)\<rparr>) (gw_draPool g)"

definition IncrementTotalRequests :: "GatewayState \<Rightarrow> GatewayState" where
  "IncrementTotalRequests g = g\<lparr>gw_TotalRequests := gw_TotalRequests g + 1\<rparr>"

definition IncrementTotalResponses :: "GatewayState \<Rightarrow> GatewayState" where
  "IncrementTotalResponses g = g\<lparr>gw_TotalResponses := gw_TotalResponses g + 1\<rparr>"

definition IncrementTotalErrors :: "GatewayState \<Rightarrow> GatewayState" where
  "IncrementTotalErrors g = g\<lparr>gw_TotalErrors := gw_TotalErrors g + 1\<rparr>"

definition IncrementTotalForwarded :: "GatewayState \<Rightarrow> GatewayState" where
  "IncrementTotalForwarded g = g\<lparr>gw_TotalForwarded := gw_TotalForwarded g + 1\<rparr>"

definition IncrementTotalFromDRA :: "GatewayState \<Rightarrow> GatewayState" where
  "IncrementTotalFromDRA g = g\<lparr>gw_TotalFromDRA := gw_TotalFromDRA g + 1\<rparr>"

definition IncrementRoutingErrors :: "GatewayState \<Rightarrow> GatewayState" where
  "IncrementRoutingErrors g = g\<lparr>gw_RoutingErrors := gw_RoutingErrors g + 1\<rparr>"

lemmas Increment_defs = IncrementTotalRequests_def IncrementTotalResponses_def IncrementTotalErrors_def
  IncrementTotalForwarded_def IncrementTotalFromDRA_def IncrementRoutingErrors_def

text \<open>
  \<^verbatim>\<open>SendInternal\<close> is the address client's \<^verbatim>\<open>SendWithTimeout\<close>, here its three parts on the gateway: the
  registration of the request (\<open>None\<close>: refused as too short), a failed send, and the end of the wait.
  \<^verbatim>\<open>NewGateway\<close> never leaves the client nil, so the test for it is always passed.
\<close>

definition sendInternal_begin :: "bytes \<Rightarrow> GatewayState \<Rightarrow> (u32 \<times> nat) option \<times> GatewayState" where
  "sendInternal_begin req g = (case acl_begin req (gw_inClient g) of (h, c) \<Rightarrow> (h, g\<lparr>gw_inClient := c\<rparr>))"

definition sendInternal_failed :: "u32 \<Rightarrow> bool \<Rightarrow> GatewayState \<Rightarrow> GatewayState" where
  "sendInternal_failed h expired g = g\<lparr>gw_inClient := acl_sendFailed h expired (gw_inClient g)\<rparr>"

definition sendInternal_end :: "wake \<Rightarrow> u32 \<Rightarrow> nat \<Rightarrow> GatewayState \<Rightarrow> (bytes option \<times> GatewayState) option" where
  "sendInternal_end w h ch g = map_option (\<lambda>(rsp, c). (rsp, g\<lparr>gw_inClient := c\<rparr>)) (acl_end w h ch (gw_inClient g))"

text \<open>
  The counters of \<^verbatim>\<open>GetStats\<close>. No statement of the program changes \<^verbatim>\<open>RequestCount\<close>, so the branch that
  divides by it is dead and the average latency is always zero; \<open>None\<close> stands for that division.
\<close>

record GatewayStatsSnapshot =
  gss_TotalRequests :: u64
  gss_TotalResponses :: u64
  gss_TotalErrors :: u64
  gss_ActiveSessions :: u64
  gss_TotalForwarded :: u64
  gss_TotalFromDRA :: u64
  gss_TimeoutErrors :: u64
  gss_RoutingErrors :: u64
  gss_SessionsCreated :: u64
  gss_SessionsCompleted :: u64
  gss_SessionsExpired :: u64
  gss_AverageLatencyMs :: "nat option"

definition gw_GetStats :: "GatewayState \<Rightarrow> GatewayStatsSnapshot" where
  "gw_GetStats g =
     \<lparr>gss_TotalRequests = gw_TotalRequests g, gss_TotalResponses = gw_TotalResponses g,
      gss_TotalErrors = gw_TotalErrors g, gss_ActiveSessions = gw_ActiveSessions g,
      gss_TotalForwarded = gw_TotalForwarded g, gss_TotalFromDRA = gw_TotalFromDRA g,
      gss_TimeoutErrors = gw_TimeoutErrors g, gss_RoutingErrors = gw_RoutingErrors g,
      gss_SessionsCreated = gw_SessionsCreated g, gss_SessionsCompleted = gw_SessionsCompleted g,
      gss_SessionsExpired = gw_SessionsExpired g,
      gss_AverageLatencyMs = (if gw_RequestCount g > 0 then None else Some 0)\<rparr>"

section \<open>Sessions\<close>

text \<open>
  The operations change the map under the lock and the counters after it. The parts under the lock
  are \<open>storeLocked\<close> and \<open>deleteLocked\<close>; the flag says whether the counters are still to be changed.
\<close>

definition storeLocked :: "u32 \<Rightarrow> int \<Rightarrow> GatewayState \<Rightarrow> bool \<times> GatewayState" where
  "storeLocked hopbyhop createdAt g =
     (gw_sessions g hopbyhop = None, g\<lparr>gw_sessions := (gw_sessions g)(hopbyhop \<mapsto> createdAt)\<rparr>)"

definition countStored :: "GatewayState \<Rightarrow> GatewayState" where
  "countStored g = g\<lparr>gw_ActiveSessions := gw_ActiveSessions g + 1,
     gw_SessionsCreated := gw_SessionsCreated g + 1\<rparr>"

definition deleteLocked :: "u32 \<Rightarrow> GatewayState \<Rightarrow> bool \<times> GatewayState" where
  "deleteLocked hopbyhop g =
     (gw_sessions g hopbyhop \<noteq> None, g\<lparr>gw_sessions := (gw_sessions g)(hopbyhop := None)\<rparr>)"

definition countDeleted :: "GatewayState \<Rightarrow> GatewayState" where
  "countDeleted g = g\<lparr>gw_ActiveSessions := gw_ActiveSessions g + NOT 0,
     gw_SessionsCompleted := gw_SessionsCompleted g + 1\<rparr>"

definition StoreSession :: "u32 \<Rightarrow> int \<Rightarrow> GatewayState \<Rightarrow> GatewayState" where
  "StoreSession hopbyhop createdAt g =
     (case storeLocked hopbyhop createdAt g of (fresh, g1) \<Rightarrow> if fresh then countStored g1 else g1)"

definition DeleteSession :: "u32 \<Rightarrow> GatewayState \<Rightarrow> bool \<times> GatewayState" where
  "DeleteSession hopbyhop g =
     (case deleteLocked hopbyhop g of (ok, g1) \<Rightarrow> (ok, if ok then countDeleted g1 else g1))"

definition FindSession :: "u32 \<Rightarrow> GatewayState \<Rightarrow> int option" where
  "FindSession hopbyhop g = gw_sessions g hopbyhop"

text \<open>The loop of the clean-up over the keys of the map, in some order.\<close>

fun cleanupLoop :: "int \<Rightarrow> u32 list \<Rightarrow> GatewayState \<Rightarrow> GatewayState" where
  "cleanupLoop now [] g = g"
| "cleanupLoop now (h # hs) g =
     (case gw_sessions g h of
        None \<Rightarrow> cleanupLoop now hs g
      | Some createdAt \<Rightarrow>
          if now - createdAt > gwc_SessionTimeout (gw_config g)
          then cleanupLoop now hs (g\<lparr>gw_sessions := (gw_sessions g)(h := None),
                 gw_ActiveSessions := gw_ActiveSessions g + NOT 0,
                 gw_TimeoutErrors := gw_TimeoutErrors g + 1,
                 gw_SessionsExpired := gw_SessionsExpired g + 1\<rparr>)
          else cleanupLoop now hs g)"

definition cleanupExpiredSessions :: "int \<Rightarrow> u32 list \<Rightarrow> GatewayState \<Rightarrow> GatewayState" where
  "cleanupExpiredSessions now order g = cleanupLoop now order g"

section \<open>Concurrent sessions\<close>

text \<open>
  The counters are atomic variables, changed one after the other. \<open>countNow\<close> is one of these changes,
  \<open>countNext\<close> the one that follows it in the same call; \<open>gs_todo\<close> counts the calls that have changed the
  map and are about to make a change. The clean-up is cut the same way, key by key.
\<close>

datatype session_count =
    StoreActive | StoreCreated
  | DeleteActive | DeleteCompleted
  | ExpireActive | ExpireTimeout | ExpireExpired

fun countNow :: "session_count \<Rightarrow> GatewayState \<Rightarrow> GatewayState" where
  "countNow StoreActive g = g\<lparr>gw_ActiveSessions := gw_ActiveSessions g + 1\<rparr>"
| "countNow StoreCreated g = g\<lparr>gw_SessionsCreated := gw_SessionsCreated g + 1\<rparr>"
| "countNow DeleteActive g = g\<lparr>gw_ActiveSessions := gw_ActiveSessions g + NOT 0\<rparr>"
| "countNow DeleteCompleted g = g\<lparr>gw_SessionsCompleted := gw_SessionsCompleted g + 1\<rparr>"
| "countNow ExpireActive g = g\<lparr>gw_ActiveSessions := gw_ActiveSessions g + NOT 0\<rparr>"
| "countNow ExpireTimeout g = g\<lparr>gw_TimeoutErrors := gw_TimeoutErrors g + 1\<rparr>"
| "countNow ExpireExpired g = g\<lparr>gw_SessionsExpired := gw_SessionsExpired g + 1\<rparr>"

fun countNext :: "session_count \<Rightarrow> session_count option" where
  "countNext StoreActive = Some StoreCreated"
| "countNext DeleteActive = Some DeleteCompleted"
| "countNext ExpireActive = Some ExpireTimeout"
| "countNext ExpireTimeout = Some ExpireExpired"
| "countNext _ = None"

record gateway_sys =
  gs_gateway :: GatewayState
  gs_todo :: "session_count \<Rightarrow> nat"

definition later :: "session_count \<Rightarrow> (session_count \<Rightarrow> nat) \<Rightarrow> session_count \<Rightarrow> nat" where
  "later k t = t(k := t k + 1)"

inductive gateway_step :: "gateway_sys \<Rightarrow> gateway_sys \<Rightarrow> bool" where
  gs_store: "storeLocked h t (gs_gateway y) = (fresh, g) \<Longrightarrow>
    gateway_step y \<lparr>gs_gateway = g, gs_todo = (if fresh then later StoreActive (gs_todo y) else gs_todo y)\<rparr>"
| gs_delete: "deleteLocked h (gs_gateway y) = (ok, g) \<Longrightarrow>
    gateway_step y \<lparr>gs_gateway = g, gs_todo = (if ok then later DeleteActive (gs_todo y) else gs_todo y)\<rparr>"
| gs_expire: "gw_sessions (gs_gateway y) h = Some createdAt \<Longrightarrow>
    now - createdAt > gwc_SessionTimeout (gw_config (gs_gateway y)) \<Longrightarrow>
    gateway_step y \<lparr>gs_gateway = (gs_gateway y)\<lparr>gw_sessions := (gw_sessions (gs_gateway y))(h := None)\<rparr>,
      gs_todo = later ExpireActive (gs_todo y)\<rparr>"
| gs_count: "0 < gs_todo y k \<Longrightarrow> t = (gs_todo y)(k := gs_todo y k - 1) \<Longrightarrow>
    gateway_step y \<lparr>gs_gateway = countNow k (gs_gateway y),
      gs_todo = (case countNext k of None \<Rightarrow> t | Some k' \<Rightarrow> later k' t)\<rparr>"

inductive gateway_reach :: "GatewayState \<Rightarrow> gateway_sys \<Rightarrow> bool" for g0 where
  gr_start: "gateway_reach g0 \<lparr>gs_gateway = g0, gs_todo = (\<lambda>_. 0)\<rparr>"
| gr_step: "gateway_reach g0 y \<Longrightarrow> gateway_step y y' \<Longrightarrow> gateway_reach g0 y'"

definition sessions_accounted :: "gateway_sys \<Rightarrow> bool" where
  "sessions_accounted y \<longleftrightarrow>
     (let g = gs_gateway y; todo = (\<lambda>k. word_of_nat (gs_todo y k) :: u64);
          n = word_of_nat (card (dom (gw_sessions g)))
      in finite (dom (gw_sessions g)) \<and>
         gw_ActiveSessions g + todo StoreActive = n + todo DeleteActive + todo ExpireActive \<and>
         gw_SessionsCreated g + todo StoreActive + todo StoreCreated =
           n + (gw_SessionsCompleted g + todo DeleteActive + todo DeleteCompleted) +
           (gw_SessionsExpired g + todo ExpireActive + todo ExpireTimeout + todo ExpireExpired) \<and>
         gw_TimeoutErrors g = gw_SessionsExpired g + todo ExpireExpired)"

lemma card_dom_upd:
  "finite (dom m) \<Longrightarrow> card (dom (m(k \<mapsto> v))) = card (dom m) + (if m k = None then 1 else 0)"
  by (auto simp: card_insert_if domIff)

lemma card_dom_del:
  "finite (dom m) \<Longrightarrow> m k \<noteq> None \<Longrightarrow> card (dom m) = card (dom (m(k := None))) + 1"
  by (metis Suc_eq_plus1 card_Suc_Diff1 domIff dom_fun_upd)

lemma sys_eta: "\<lparr>gs_gateway = gs_gateway y, gs_todo = gs_todo y\<rparr> = y"
  by simp

lemma accounted_store:
  "sessions_accounted y \<Longrightarrow> sessions_accounted \<lparr>gs_gateway = snd (storeLocked h t (gs_gateway y)),
     gs_todo = (if fst (storeLocked h t (gs_gateway y)) then later StoreActive (gs_todo y) else gs_todo y)\<rparr>"
  using card_dom_upd [of "gw_sessions (gs_gateway y)" h t]
  by (auto simp: storeLocked_def sessions_accounted_def later_def Let_def algebra_simps)

lemma accounted_remove:
  assumes "sessions_accounted y" and "gw_sessions (gs_gateway y) h \<noteq> None" and "k = DeleteActive \<or> k = ExpireActive"
  shows "sessions_accounted \<lparr>gs_gateway = (gs_gateway y)\<lparr>gw_sessions := (gw_sessions (gs_gateway y))(h := None)\<rparr>,
     gs_todo = later k (gs_todo y)\<rparr>"
  using assms card_dom_del [of "gw_sessions (gs_gateway y)" h]
  by (auto simp: sessions_accounted_def later_def Let_def algebra_simps)

lemma accounted_count:
  assumes "sessions_accounted y" and "gs_todo y k = Suc n"
  shows "sessions_accounted \<lparr>gs_gateway = countNow k (gs_gateway y),
     gs_todo = (case countNext k of None \<Rightarrow> (gs_todo y)(k := n) | Some k' \<Rightarrow> later k' ((gs_todo y)(k := n)))\<rparr>"
  using assms by (cases k) (simp_all add: sessions_accounted_def later_def Let_def algebra_simps)

lemma accounted_step:
  assumes "sessions_accounted y" and "gateway_step y y'"
  shows "sessions_accounted y'"
  using assms(2)
proof cases
  case (gs_store h t fresh g)
  then show ?thesis
    using accounted_store [OF assms(1), of h t] by simp
next
  case (gs_delete h ok g)
  then show ?thesis
    using assms(1) accounted_remove [OF assms(1), of h DeleteActive]
    by (cases "gw_sessions (gs_gateway y) h = None") (auto simp: deleteLocked_def fun_upd_idem sys_eta)
next
  case (gs_expire h createdAt now)
  then show ?thesis
    using accounted_remove [OF assms(1), of h ExpireActive] by simp
next
  case (gs_count k t)
  have "gs_todo y k = Suc (gs_todo y k - 1)"
    using gs_count(2) by simp
  from accounted_count [OF assms(1) this] show ?thesis
    unfolding gs_count(1,3) .
qed

lemma NewGateway_sessions:
  "NewGateway parseIP ds config = Built g \<Longrightarrow> gw_sessions g = Map.empty \<and> gw_ActiveSessions g = 0 \<and>
     gw_SessionsCreated g = 0 \<and> gw_SessionsCompleted g = 0 \<and> gw_SessionsExpired g = 0 \<and> gw_TimeoutErrors g = 0"
  by (auto simp: NewGateway_def Let_def split: sum.splits option.splits if_splits)

lemma gateway_reach_accounted:
  assumes "NewGateway parseIP ds config = Built g0" and "gateway_reach g0 y"
  shows "sessions_accounted y"
  using assms(2)
proof induction
  case gr_start
  then show ?case
    using NewGateway_sessions [OF assms(1)] by (simp add: sessions_accounted_def)
qed (rule accounted_step)

text \<open>The operations as a whole are runs of these steps.\<close>

lemma count_reach:
  assumes "gateway_reach g0 \<lparr>gs_gateway = g, gs_todo = later k t\<rparr>"
  shows "gateway_reach g0 \<lparr>gs_gateway = countNow k g,
    gs_todo = (case countNext k of None \<Rightarrow> t | Some k' \<Rightarrow> later k' t)\<rparr>"
  using gr_step [OF assms gs_count [of _ k t]] by (simp add: later_def)

lemma StoreSession_reach:
  assumes "gateway_reach g0 y"
  shows "gateway_reach g0 (y\<lparr>gs_gateway := StoreSession h t (gs_gateway y)\<rparr>)"
proof -
  let ?g = "snd (storeLocked h t (gs_gateway y))"
  have s: "gateway_reach g0 \<lparr>gs_gateway = ?g,
      gs_todo = (if fst (storeLocked h t (gs_gateway y)) then later StoreActive (gs_todo y) else gs_todo y)\<rparr>"
    by (rule gr_step [OF assms gs_store]) simp
  show ?thesis
  proof (cases "fst (storeLocked h t (gs_gateway y))")
    case True
    then show ?thesis
      using count_reach [of g0 "countNow StoreActive ?g" StoreCreated "gs_todo y"]
        count_reach [of g0 ?g StoreActive "gs_todo y"] s
      by (cases y) (simp add: StoreSession_def countStored_def case_prod_beta)
  next
    case False
    then show ?thesis
      using s by (cases y) (simp add: StoreSession_def case_prod_beta)
  qed
qed

lemma DeleteSession_reach:
  assumes "gateway_reach g0 y"
  shows "gateway_reach g0 (y\<lparr>gs_gateway := snd (DeleteSession h (gs_gateway y))\<rparr>)"
proof -
  let ?g = "snd (deleteLocked h (gs_gateway y))"
  have s: "gateway_reach g0 \<lparr>gs_gateway = ?g,
      gs_todo = (if fst (deleteLocked h (gs_gateway y)) then later DeleteActive (gs_todo y) else gs_todo y)\<rparr>"
    by (rule gr_step [OF assms gs_delete]) simp
  show ?thesis
  proof (cases "fst (deleteLocked h (gs_gateway y))")
    case True
    then show ?thesis
      using count_reach [of g0 "countNow DeleteActive ?g" DeleteCompleted "gs_todo y"]
        count_reach [of g0 ?g DeleteActive "gs_todo y"] s
      by (cases y) (simp add: DeleteSession_def countDeleted_def case_prod_beta)
  next
    case False
    then show ?thesis
      using s by (cases y) (simp add: DeleteSession_def case_prod_beta)
  qed
qed

lemma cleanupLoop_reach:
  "gateway_reach g0 \<lparr>gs_gateway = g, gs_todo = t\<rparr> \<Longrightarrow>
   gateway_reach g0 \<lparr>gs_gateway = cleanupLoop now hs g, gs_todo = t\<rparr>"
proof (induction now hs g rule: cleanupLoop.induct)
  case (2 now h hs g)
  show ?case
  proof (cases "\<exists>createdAt. gw_sessions g h = Some createdAt \<and> now - createdAt > gwc_SessionTimeout (gw_config g)")
    case True
    then obtain createdAt where c: "gw_sessions g h = Some createdAt"
      "now - createdAt > gwc_SessionTimeout (gw_config g)"
      by blast
    let ?g = "g\<lparr>gw_sessions := (gw_sessions g)(h := None)\<rparr>"
    have "gateway_reach g0 \<lparr>gs_gateway = ?g, gs_todo = later ExpireActive t\<rparr>"
      using gr_step [OF 2(4) gs_expire [of _ h createdAt now]] c by simp
    from count_reach [OF this] have "gateway_reach g0
        \<lparr>gs_gateway = countNow ExpireActive ?g, gs_todo = later ExpireTimeout t\<rparr>" by simp
    from count_reach [OF this] have "gateway_reach g0
        \<lparr>gs_gateway = countNow ExpireTimeout (countNow ExpireActive ?g), gs_todo = later ExpireExpired t\<rparr>" by simp
    from count_reach [OF this] show ?thesis
      using 2(2) [OF c] c by simp
  next
    case False
    then show ?thesis
      using 2 by (auto split: option.split)
  qed
qed simp

text \<open>
  C22. The session counters account for every session at every moment, although they are atomic
  variables changed one after the other outside the lock: in any interleaving of stores, deletions
  and clean-ups, with the calls that have changed the map and still owe a counter its change
  counted in, the active sessions are those in the map, the created ones are those in the map and
  the completed and expired ones together, and the time-outs are the expired ones. So the counters
  are exact whenever no call is under way.
\<close>

theorem sessions_balance:
  assumes "NewGateway parseIP ds config = Built g0" and "gateway_reach g0 y"
    and "g = gs_gateway y" and "todo = (\<lambda>k. word_of_nat (gs_todo y k))"
    and "n = word_of_nat (card (dom (gw_sessions g)))"
  shows "finite (dom (gw_sessions g)) \<and>
    gw_ActiveSessions g + todo StoreActive = n + todo DeleteActive + todo ExpireActive \<and>
    gw_SessionsCreated g + todo StoreActive + todo StoreCreated =
      n + (gw_SessionsCompleted g + todo DeleteActive + todo DeleteCompleted) +
      (gw_SessionsExpired g + todo ExpireActive + todo ExpireTimeout + todo ExpireExpired) \<and>
    gw_TimeoutErrors g = gw_SessionsExpired g + todo ExpireExpired"
  using gateway_reach_accounted [OF assms(1,2)] assms(3-5) by (simp add: sessions_accounted_def Let_def)

definition example_gateway_config :: GatewayConfig where
  "example_gateway_config = DefaultGatewayConfig\<lparr>gwc_InClientConfig := Some (ap_config example_apool),
     gwc_DRAPoolConfig := Some \<lparr>dpc_DRAs = [], dpc_LocalAddr = [], dpc_LocalPortMin = 0, dpc_LocalPortMax = 0,
       dpc_OriginHost = [], dpc_OriginRealm = [], dpc_ProductName = [], dpc_VendorID = 0, dpc_AuthAppIDs = [],
       dpc_AcctAppIDs = [], dpc_ConnectionsPerDRA = 1, dpc_DWRInterval = 2, dpc_DWRTimeout = 1,
       dpc_MaxDWRFailures = 1, dpc_ReconnectInterval = 1, dpc_MaxReconnectDelay = 1, dpc_SendBufferSize = 1,
       dpc_RecvBufferSize = 1\<rparr>\<rparr>"

lemma example_gateway_built: "\<exists>g. NewGateway (\<lambda>_. None) [] (Some example_gateway_config) = Built g"
  by (simp add: NewGateway_def ValidateGatewayConfig_def example_gateway_config_def DefaultGatewayConfig_def
      NewAddressClient_def NewAddressConnectionPool_def PoolConfig_Validate_def example_apool_def
      DefaultPoolConfig_def gostr_def Let_def)

theorem sessions_balance_witness:
  "\<exists>g0 y. NewGateway (\<lambda>_. None) [] (Some example_gateway_config) = Built g0 \<and> gateway_reach g0 y \<and>
     gs_todo y StoreCreated = 1 \<and> gw_ActiveSessions (gs_gateway y) = 1 \<and> gw_SessionsCreated (gs_gateway y) = 0"
proof -
  obtain g0 where g: "NewGateway (\<lambda>_. None) [] (Some example_gateway_config) = Built g0"
    using example_gateway_built by blast
  let ?t0 = "\<lambda>_::session_count. 0::nat"
  let ?g1 = "g0\<lparr>gw_sessions := [5 \<mapsto> 0]\<rparr>"
  note z = NewGateway_sessions [OF g]
  have "gateway_reach g0 \<lparr>gs_gateway = ?g1, gs_todo = later StoreActive ?t0\<rparr>"
    using gr_step [OF gr_start gs_store [of 5 0 _ True ?g1]] z by (simp add: storeLocked_def)
  from count_reach [OF this]
  have r: "gateway_reach g0 \<lparr>gs_gateway = countNow StoreActive ?g1, gs_todo = later StoreCreated ?t0\<rparr>"
    by simp
  have "gw_ActiveSessions (countNow StoreActive ?g1) = 1 \<and> gw_SessionsCreated (countNow StoreActive ?g1) = 0"
    using sessions_balance [OF g r refl refl refl] z by (simp add: later_def)
  then show ?thesis
    using g r by (intro exI [of _ g0] exI [of _ "\<lparr>gs_gateway = countNow StoreActive ?g1,
      gs_todo = later StoreCreated ?t0\<rparr>"]) (simp add: later_def)
qed

text \<open>
  The clean-up removes exactly the sessions that are older than the timeout, whatever order the
  map is visited in, and keeps the others.
\<close>

theorem cleanup_exact:
  assumes "dom (gw_sessions g) \<subseteq> set order"
  shows "FindSession h (cleanupExpiredSessions now order g) =
    (case FindSession h g of
       None \<Rightarrow> None
     | Some t \<Rightarrow> if now - t > gwc_SessionTimeout (gw_config g) then None else Some t)"
proof -
  have "gw_sessions (cleanupLoop now hs g) h =
      (case gw_sessions g h of
         None \<Rightarrow> None
       | Some t \<Rightarrow> if h \<in> set hs \<and> now - t > gwc_SessionTimeout (gw_config g) then None else Some t)" for hs
    by (induction now hs g rule: cleanupLoop.induct) (auto split: option.splits if_splits)
  then show ?thesis
    using assms by (force simp: FindSession_def cleanupExpiredSessions_def split: option.splits)
qed

theorem cleanup_exact_witness:
  "\<exists>g. FindSession 1 (cleanupExpiredSessions 40000000000 [1, 2] g) = None \<and>
     FindSession 2 (cleanupExpiredSessions 40000000000 [1, 2] g) = Some 20000000000"
proof -
  obtain g0 where g: "NewGateway (\<lambda>_. None) [] (Some example_gateway_config) = Built g0"
    using example_gateway_built by blast
  have t: "gwc_SessionTimeout (gw_config g0) = 30000000000"
    using g by (auto simp: NewGateway_def ValidateGatewayConfig_def example_gateway_config_def
        DefaultGatewayConfig_def Let_def split: sum.splits if_splits option.splits)
  let ?g = "g0\<lparr>gw_sessions := [1 \<mapsto> 0, 2 \<mapsto> 20000000000]\<rparr>"
  show ?thesis
    using cleanup_exact [of ?g "[1, 2]" 1 40000000000] cleanup_exact [of ?g "[1, 2]" 2 40000000000] t
    by (intro exI [of _ ?g]) (simp add: FindSession_def)
qed

lemma NewGateway_built_iff:
  "(\<exists>g. NewGateway parseIP ds (Some cfg) = Built g) \<longleftrightarrow>
     (gwc_OriginHost cfg \<noteq> [] \<and> gwc_OriginRealm cfg \<noteq> [] \<and>
      (\<exists>c. gwc_InClientConfig cfg = Some c \<and> PoolConfig_Validate c = None) \<and>
      (\<exists>d. gwc_DRAPoolConfig cfg = Some d \<and> (if gwc_DRASupported cfg then
        (\<exists>p. NewDRAPool parseIP ds (d\<lparr>dpc_OriginHost := gwc_OriginHost cfg, dpc_OriginRealm := gwc_OriginRealm cfg,
           dpc_ProductName := gwc_ProductName cfg, dpc_VendorID := gwc_VendorID cfg\<rparr>) = Inr p) else True)))"
  by (auto simp: NewGateway_def ValidateGatewayConfig_def NewAddressClient_def NewAddressConnectionPool_def Let_def
      split: sum.splits option.splits if_splits)

lemma NewGateway_failed_iff:
  "(\<exists>e. NewGateway parseIP ds (Some cfg) = Failed e) \<longleftrightarrow>
     gwc_OriginHost cfg = [] \<or> gwc_OriginRealm cfg = [] \<or> gwc_DRAPoolConfig cfg = None"
  by (auto simp: NewGateway_def ValidateGatewayConfig_def Let_def split: sum.splits option.splits if_splits)

text \<open>
  When the gateway can be built: with an identity, a DRA pool configuration and a valid client
  configuration, and if agents are to be used, a DRA pool that can be built. With an identity and a
  DRA pool configuration in place no error is ever returned: whatever else is wrong makes the
  constructor panic, in particular a missing client configuration or a DRA pool that cannot be built.
\<close>

theorem NewGateway_outcomes:
  "((\<exists>g. NewGateway parseIP ds (Some cfg) = Built g) \<longleftrightarrow>
     (gwc_OriginHost cfg \<noteq> [] \<and> gwc_OriginRealm cfg \<noteq> [] \<and>
      (\<exists>c. gwc_InClientConfig cfg = Some c \<and> PoolConfig_Validate c = None) \<and>
      (\<exists>d. gwc_DRAPoolConfig cfg = Some d \<and> (if gwc_DRASupported cfg then
        (\<exists>p. NewDRAPool parseIP ds (d\<lparr>dpc_OriginHost := gwc_OriginHost cfg, dpc_OriginRealm := gwc_OriginRealm cfg,
           dpc_ProductName := gwc_ProductName cfg, dpc_VendorID := gwc_VendorID cfg\<rparr>) = Inr p) else True)))) \<and>
   ((\<exists>e. NewGateway parseIP ds (Some cfg) = Failed e) \<longleftrightarrow>
     gwc_OriginHost cfg = [] \<or> gwc_OriginRealm cfg = [] \<or> gwc_DRAPoolConfig cfg = None)"
  by (intro conjI NewGateway_built_iff NewGateway_failed_iff)

section \<open>One pool per application\<close>

record AppGateway =
  agw_pools :: "u32 \<rightharpoonup> DRAPool"

datatype app_error = NoPoolConfigured u32 | AppSend send_error

datatype app_gateway_error = NoPools | AppPool u32 dra_pool_error

text \<open>\<^verbatim>\<open>NewGateway\<close> of \<^verbatim>\<open>client/gateway.go\<close> over the configured pools in the order the map is visited.\<close>

fun buildPools ::
  "(gostring \<Rightarrow> bytes option) \<Rightarrow> (u32 \<times> DRAServerConfig list \<times> DRAPoolConfig) list \<Rightarrow> AppGateway \<Rightarrow>
   (app_gateway_error, AppGateway) result" where
  "buildPools parseIP [] g = Inr g"
| "buildPools parseIP ((appID, ds, poolCfg) # rest) g =
     (case NewDRAPool parseIP ds poolCfg of
        Inl err \<Rightarrow> Inl (AppPool appID err)
      | Inr pool \<Rightarrow> buildPools parseIP rest (g\<lparr>agw_pools := (agw_pools g)(appID \<mapsto> pool)\<rparr>))"

definition NewAppGateway ::
  "(gostring \<Rightarrow> bytes option) \<Rightarrow> (u32 \<times> DRAServerConfig list \<times> DRAPoolConfig) list \<Rightarrow>
   (app_gateway_error, AppGateway) result" where
  "NewAppGateway parseIP pools =
     (if pools = [] then Inl NoPools else buildPools parseIP pools \<lparr>agw_pools = Map.empty\<rparr>)"

definition onApp ::
  "u32 \<Rightarrow> (DRAPool \<Rightarrow> send_error option \<times> DRAPool) \<Rightarrow> AppGateway \<Rightarrow> app_error option \<times> AppGateway" where
  "onApp appID f g =
     (case agw_pools g appID of
        None \<Rightarrow> (Some (NoPoolConfigured appID), g)
      | Some pool \<Rightarrow>
          (case f pool of (r, pool') \<Rightarrow>
             (map_option AppSend r, g\<lparr>agw_pools := (agw_pools g)(appID \<mapsto> pool')\<rparr>)))"

definition agw_Send :: "u32 \<Rightarrow> bytes \<Rightarrow> AppGateway \<Rightarrow> app_error option \<times> AppGateway" where
  "agw_Send appID data g = onApp appID (dp_Send data) g"

definition agw_SendToDRA :: "u32 \<Rightarrow> gostring \<Rightarrow> bytes \<Rightarrow> AppGateway \<Rightarrow> app_error option \<times> AppGateway" where
  "agw_SendToDRA appID draName data g = onApp appID (SendToDRA draName data) g"

definition agw_HandleFunc :: "Command \<Rightarrow> nat \<Rightarrow> AppGateway \<Rightarrow> AppGateway" where
  "agw_HandleFunc cmd handler g = g\<lparr>agw_pools := (\<lambda>a. map_option (HandleFunc cmd handler) (agw_pools g a))\<rparr>"

definition agw_Close :: "AppGateway \<Rightarrow> AppGateway" where
  "agw_Close g = g\<lparr>agw_pools := (\<lambda>a. map_option dp_Close (agw_pools g a))\<rparr>"

definition app_queued :: "u32 \<Rightarrow> AppGateway \<Rightarrow> bytes multiset" where
  "app_queued appID g = (case agw_pools g appID of None \<Rightarrow> {#} | Some pool \<Rightarrow> dp_queued pool)"

definition app_inv :: "AppGateway \<Rightarrow> bool" where
  "app_inv g \<longleftrightarrow> (\<forall>pool \<in> ran (agw_pools g). pools_inv (dp_draPools pool))"

text \<open>Each application of the gateway is a sink of its own.\<close>

lemma app_inv_upd: "app_inv g \<Longrightarrow> pools_inv (dp_draPools pool) \<Longrightarrow> app_inv (g\<lparr>agw_pools := (agw_pools g)(a \<mapsto> pool)\<rparr>)"
  by (auto simp: app_inv_def ran_def)

lemma app_inv_pool: "app_inv g \<Longrightarrow> agw_pools g a = Some pool \<Longrightarrow> pools_inv (dp_draPools pool)"
  by (auto simp: app_inv_def ran_def)

interpretation app_sink: message_sink "agw_Send a" "app_queued a" app_inv for a
proof unfold_locales
  fix g d r g'
  assume "app_inv g" "agw_Send a d g = (r, g')"
  then show "app_inv g'"
    using dra_sink.inv_send
    by (auto simp: agw_Send_def onApp_def split: option.splits prod.splits intro!: app_inv_upd dest: app_inv_pool)
next
  fix g d g'
  assume "app_inv g" "agw_Send a d g = (None, g')"
  then show "app_queued a g' = add_mset d (app_queued a g)"
    using dra_sink.send_accepted
    by (auto simp: agw_Send_def onApp_def app_queued_def split: option.splits prod.splits dest: app_inv_pool)
next
  fix g d e g'
  assume "app_inv g" "agw_Send a d g = (Some e, g')"
  then show "app_queued a g' = app_queued a g"
    using dra_sink.send_refused
    by (auto simp: agw_Send_def onApp_def app_queued_def split: option.splits prod.splits dest: app_inv_pool)
qed

text \<open>
  Applications do not disturb each other: whatever is sent to one application is queued there
  exactly as often as it was accepted, and the pools of all other applications, with what they
  have queued, stay as they were.
\<close>

theorem apps_isolated:
  assumes "app_inv g" and "send_all (agw_Send a) ds g = (taken, g')"
  shows "app_queued a g' = app_queued a g + mset taken \<and> (\<forall>b. b \<noteq> a \<longrightarrow> agw_pools g' b = agw_pools g b)"
proof -
  have "send_all (agw_Send a) ds g = (taken, g') \<Longrightarrow> b \<noteq> a \<Longrightarrow> agw_pools g' b = agw_pools g b" for b g taken
  proof (induction ds arbitrary: g taken)
    case (Cons d ds)
    obtain r g1 taken1 where 1: "agw_Send a d g = (r, g1)" "send_all (agw_Send a) ds g1 = (taken1, g')"
      using Cons.prems(1) by (auto split: prod.splits)
    have "agw_pools g1 b = agw_pools g b"
      using 1(1) Cons.prems(2) by (auto simp: agw_Send_def onApp_def split: option.splits prod.splits)
    then show ?case
      using Cons.IH [OF 1(2) Cons.prems(2)] by simp
  qed simp
  then show ?thesis
    using app_sink.send_all_exact [OF assms] assms(2) by blast
qed

theorem apps_isolated_witness:
  "\<exists>g'. send_all (agw_Send 1) [[7]] \<lparr>agw_pools = [1 \<mapsto> example_dra_pool True False 1, 2 \<mapsto> example_dra_pool True False 1]\<rparr> =
       ([[7]], g') \<and> app_queued 1 g' = {#[7]#} \<and> agw_pools g' 2 = Some (example_dra_pool True False 1)"
proof -
  let ?p = "example_dra_pool True False 1"
  let ?g = "\<lparr>agw_pools = [1 \<mapsto> ?p, 2 \<mapsto> ?p]\<rparr>"
  have "fst (dp_Send [7] ?p) = None"
    by (simp add: example_dra_defs dp_Send_def rotation_def upt_rec cp_IsHealthy_def cp_Send_def connActive_def
        sendOn_def Send_def Let_def)
  then obtain p' where "dp_Send [7] ?p = (None, p')"
    by (metis prod.collapse)
  then obtain g' where s: "send_all (agw_Send 1) [[7]] ?g = ([[7]], g')"
    by (simp add: agw_Send_def onApp_def)
  have "pools_inv (dp_draPools ?p)" "dp_queued ?p = {#}"
    by (simp_all add: example_dra_defs pools_inv_def cp_inv_def dp_queued_def cp_queued_def Let_def)
  then have "app_inv ?g" "app_queued 1 ?g = {#}"
    by (auto simp: app_inv_def app_queued_def ran_def split: if_splits)
  then show ?thesis
    using apps_isolated [OF _ s] s by simp
qed

end
