(* ===== verification/Generated_Base.thy ===== *)
theory Generated_Base
  imports Generated_Code
begin

text \<open>
  The definitions of \<^verbatim>\<open>proto/diameter.proto\<close> and \<^verbatim>\<open>proto/s13.proto\<close> the gateway uses, as the parser
  leaves them after \<^verbatim>\<open>ResolveAVPReferences\<close>. For the CER the scheme of \<open>Generated_Code\<close> is compared
  with the record and the methods of \<open>Base_Messages\<close>, which were taken from the checked-in output of
  the generator: they are the same function, on every input.
\<close>

definition avpDef :: "string \<Rightarrow> u32 \<Rightarrow> string \<Rightarrow> bool \<Rightarrow> bool \<Rightarrow> u32 \<Rightarrow> AVPField list \<Rightarrow> AVPDefinition" where
  "avpDef name code typeName must mayEncrypt vendorID members =
     \<lparr>ad_Name = name, ad_Code = code, ad_Type = genType typeName, ad_TypeName = typeName, ad_Must = must,
      ad_MayEncrypt = mayEncrypt, ad_VendorID = vendorID, ad_GroupedFields = members\<rparr>"

definition fixedField :: "nat \<Rightarrow> AVPField" where
  "fixedField a = zeroField\<lparr>fd_AVP := a, fd_Fixed := True, fd_Required := True\<rparr>"

definition requiredField :: "nat \<Rightarrow> AVPField" where
  "requiredField a = zeroField\<lparr>fd_AVP := a, fd_Required := True\<rparr>"

definition optionalField :: "nat \<Rightarrow> AVPField" where
  "optionalField a = zeroField\<lparr>fd_AVP := a\<rparr>"

definition repeatedField :: "nat \<Rightarrow> bool \<Rightarrow> AVPField" where
  "repeatedField a required = zeroField\<lparr>fd_AVP := a, fd_Required := required, fd_Repeated := True\<rparr>"

lemmas field_defs = fixedField_def requiredField_def optionalField_def repeatedField_def zeroField_def

section \<open>The capabilities exchange\<close>

definition base_avps :: "AVPDefinition list" where
  "base_avps =
     [avpDef ''Origin-Host'' 264 ''DiameterIdentity'' True False 0 [],
      avpDef ''Origin-Realm'' 296 ''DiameterIdentity'' True False 0 [],
      avpDef ''Host-IP-Address'' 257 ''Address'' True False 0 [],
      avpDef ''Vendor-Id'' 266 ''Unsigned32'' True False 0 [],
      avpDef ''Product-Name'' 269 ''UTF8String'' False False 0 [],
      avpDef ''Origin-State-Id'' 278 ''Unsigned32'' False False 0 [],
      avpDef ''Supported-Vendor-Id'' 265 ''Unsigned32'' True False 0 [],
      avpDef ''Auth-Application-Id'' 258 ''Unsigned32'' True False 0 [],
      avpDef ''Inband-Security-Id'' 299 ''Unsigned32'' True False 0 [],
      avpDef ''Acct-Application-Id'' 259 ''Unsigned32'' True False 0 [],
      avpDef ''Vendor-Specific-Application-Id'' 260 ''Grouped'' True False 0
        [optionalField 3, optionalField 7, optionalField 9],
      avpDef ''Firmware-Revision'' 267 ''Unsigned32'' False False 0 [],
      placeholder ''AVP'']"

definition CER_definition :: CommandDefinition where
  "CER_definition =
     \<lparr>cd_Name = ''Capabilities-Exchange-Request'', cd_Abbreviation = ''CER'', cd_Code = 257, cd_ApplicationID = 0,
      cd_Request = True, cd_Proxiable = False, cd_Package = ''base'',
      cd_Fields =
        [fixedField 0, fixedField 1, repeatedField 2 True, fixedField 3, fixedField 4, optionalField 5,
         repeatedField 6 False, repeatedField 7 False, repeatedField 8 False, repeatedField 9 False,
         repeatedField 10 False, optionalField 11, repeatedField 12 False]\<rparr>"

text \<open>The struct as a value of the scheme.\<close>

definition opt :: "('a \<Rightarrow> avp_value) \<Rightarrow> 'a option \<Rightarrow> gval list" where
  "opt con v = (case v of None \<Rightarrow> [] | Some x \<Rightarrow> [Val (con x)])"

definition many :: "('a \<Rightarrow> avp_value) \<Rightarrow> 'a list \<Rightarrow> gval list" where
  "many con vs = map (\<lambda>x. Val (con x)) vs"

definition VSA_fields :: "VendorSpecificApplicationId \<Rightarrow> gval list list" where
  "VSA_fields g = [opt Unsigned32 (vsa_VendorId g), opt Unsigned32 (vsa_AuthApplicationId g), opt Unsigned32 (vsa_AcctApplicationId g)]"

definition VSA_value :: "VendorSpecificApplicationId option \<Rightarrow> gval" where
  "VSA_value v = (case v of None \<Rightarrow> NilPtr | Some g \<Rightarrow> Struct (VSA_fields g))"

definition CER_fields :: "CapabilitiesExchangeRequest \<Rightarrow> gval list list" where
  "CER_fields m =
     [[Val (DiameterIdentity (cer_OriginHost m))], [Val (DiameterIdentity (cer_OriginRealm m))],
      many Address (cer_HostIpAddress m), [Val (Unsigned32 (cer_VendorId m))], [Val (UTF8String (cer_ProductName m))],
      opt Unsigned32 (cer_OriginStateId m), many Unsigned32 (cer_SupportedVendorId m),
      many Unsigned32 (cer_AuthApplicationId m), many Unsigned32 (cer_InbandSecurityId m),
      many Unsigned32 (cer_AcctApplicationId m), map VSA_value (cer_VendorSpecificApplicationId m),
      opt Unsigned32 (cer_FirmwareRevision m), many OctetString (cer_Avp m)]"

definition CER_struct :: "CapabilitiesExchangeRequest \<Rightarrow> GenMessage" where
  "CER_struct m = \<lparr>gm_Header = cer_Header m, gm_Fields = CER_fields m\<rparr>"

subsection \<open>Marshal\<close>

lemma base_avps_nth:
  "base_avps ! 0 = avpDef ''Origin-Host'' 264 ''DiameterIdentity'' True False 0 []"
  "base_avps ! Suc 0 = avpDef ''Origin-Realm'' 296 ''DiameterIdentity'' True False 0 []"
  "base_avps ! 2 = avpDef ''Host-IP-Address'' 257 ''Address'' True False 0 []"
  "base_avps ! 3 = avpDef ''Vendor-Id'' 266 ''Unsigned32'' True False 0 []"
  "base_avps ! 4 = avpDef ''Product-Name'' 269 ''UTF8String'' False False 0 []"
  "base_avps ! 5 = avpDef ''Origin-State-Id'' 278 ''Unsigned32'' False False 0 []"
  "base_avps ! 6 = avpDef ''Supported-Vendor-Id'' 265 ''Unsigned32'' True False 0 []"
  "base_avps ! 7 = avpDef ''Auth-Application-Id'' 258 ''Unsigned32'' True False 0 []"
  "base_avps ! 8 = avpDef ''Inband-Security-Id'' 299 ''Unsigned32'' True False 0 []"
  "base_avps ! 9 = avpDef ''Acct-Application-Id'' 259 ''Unsigned32'' True False 0 []"
  "base_avps ! 10 = avpDef ''Vendor-Specific-Application-Id'' 260 ''Grouped'' True False 0 [optionalField 3, optionalField 7, optionalField 9]"
  "base_avps ! 11 = avpDef ''Firmware-Revision'' 267 ''Unsigned32'' False False 0 []"
  "base_avps ! 12 = placeholder ''AVP''"
  by (simp_all add: base_avps_def)

lemma avpDef_sel [simp]:
  "ad_Name (avpDef n c t m e v fs) = n" "ad_Code (avpDef n c t m e v fs) = c" "ad_TypeName (avpDef n c t m e v fs) = t"
  "ad_Must (avpDef n c t m e v fs) = m" "ad_MayEncrypt (avpDef n c t m e v fs) = e" "ad_VendorID (avpDef n c t m e v fs) = v"
  "ad_GroupedFields (avpDef n c t m e v fs) = fs"
  by (simp_all add: avpDef_def)

lemma field_sel [simp]:
  "fd_AVP (fixedField a) = a" "fd_AVP (requiredField a) = a" "fd_AVP (optionalField a) = a" "fd_AVP (repeatedField a r) = a"
  "fd_Required (fixedField a)" "fd_Required (requiredField a)" "\<not> fd_Required (optionalField a)" "fd_Required (repeatedField a r) = r"
  "\<not> fd_Repeated (fixedField a)" "\<not> fd_Repeated (requiredField a)" "\<not> fd_Repeated (optionalField a)" "fd_Repeated (repeatedField a r)"
  by (simp_all add: field_defs)

lemma values_many:
  "ad_VendorID d = 0 \<Longrightarrow> ad_MayEncrypt d = False \<Longrightarrow> valuesBytes h d (many con vs) = writeAVPs (repeated (ad_Code d) con (ad_Must d) vs)"
  by (induction vs) (simp_all add: many_def repeated_def genAVP_def)

lemma values_opt:
  "ad_VendorID d = 0 \<Longrightarrow> ad_MayEncrypt d = False \<Longrightarrow> valuesBytes h d (opt con v) = writeAVPs (optional (ad_Code d) con (ad_Must d) v)"
  by (cases v) (simp_all add: opt_def optional_def genAVP_def)

lemma VSA_bytes: "fieldsBytes base_avps [optionalField 3, optionalField 7, optionalField 9] (VSA_fields g) =
    writeAVPs (optional AVPCodeVENDORID Unsigned32 True (vsa_VendorId g) @
     optional AVPCodeAUTHAPPLICATIONID Unsigned32 True (vsa_AuthApplicationId g) @
     optional AVPCodeACCTAPPLICATIONID Unsigned32 True (vsa_AcctApplicationId g))"
  by (simp add: VSA_fields_def base_avps_nth values_opt)

lemma values_VSA: "valuesBytes base_avps (base_avps ! 10) (map VSA_value vs) = writeAVPs (concat (map VSA_writes vs))"
proof (induction vs)
  case (Cons v vs)
  have "valueBytes base_avps (base_avps ! 10) (VSA_value v) = writeAVPs (VSA_writes v)"
    by (cases v) (simp_all add: VSA_value_def VSA_writes_def VSA_Marshal_def base_avps_nth VSA_bytes genAVP_def)
  then show ?case
    using Cons by simp
qed simp

lemma CER_bytes: "fieldsBytes base_avps (cd_Fields CER_definition) (CER_fields m) = writeAVPs (CER_writes m)"
  by (simp add: CER_definition_def CER_fields_def CER_writes_def base_avps_nth values_VSA [unfolded base_avps_nth]
      values_opt values_many genAVP_def placeholder_def zeroAVP_def)

lemma CER_check: "genValidate base_avps CER_definition (CER_struct m) = CER_Validate m"
  by (simp add: genValidate_def CER_definition_def CER_struct_def CER_fields_def base_avps_nth checkField_def isGrouped_def
      Let_def emptyText_def many_def CER_Validate_def split: list.split)

subsection \<open>Unmarshal\<close>

text \<open>A loop that cannot panic follows \<open>walkAVPs\<close> through every embedding.\<close>

lemma genWalk_simulates:
  assumes "\<And>c v b m. step' c v b (E m) = Some (E (step c v b m))"
  shows "genWalk step' data (E m) = map_sum Codec E (walkAVPs step data m)"
  using assms
proof (induction step data m rule: walkAVPs.induct)
  case (1 step data m)
  show ?case
  proof (cases "data ! 4 AND 0x80 \<noteq> 0")
    case True
    then show ?thesis
      by (subst genWalk.simps, subst walkAVPs.simps) (use 1 in \<open>simp add: Let_def\<close>)
  next
    case False
    then show ?thesis
      by (subst genWalk.simps, subst walkAVPs.simps) (use 1 in \<open>simp add: Let_def\<close>)
  qed
qed

lemma fieldIndex_Nil [simp]: "fieldIndex h [] code = None"
  by (simp add: fieldIndex_def)

lemma fieldIndex_Cons:
  "fieldIndex h (f # fs) code =
     (if ad_Code (h ! fd_AVP f) = code \<and> code \<noteq> 0 then Some 0 else map_option Suc (fieldIndex h fs code))"
  by (simp add: fieldIndex_def upt_conv_Cons map_Suc_upt [symmetric] filter_map o_def del: upt_Suc split: list.split)

lemma genStep_skips:
  "code \<notin> set (codesOf h fs) \<Longrightarrow> genStep rd h fs code vendor value vals = Some vals"
proof -
  assume "code \<notin> set (codesOf h fs)"
  then have "fieldIndex h fs code = None"
    by (induction fs) (auto simp: fieldIndex_Cons codesOf_def split: if_splits)
  then show ?thesis
    by (simp add: genStep_def)
qed

lemma VSA_step:
  "genStep rd base_avps [optionalField 3, optionalField 7, optionalField 9] c v b (VSA_fields g) = Some (VSA_fields (VSA_avp c v b g))"
proof -
  let ?fs = "[optionalField 3, optionalField 7, optionalField 9]"
  consider "c = AVPCodeVENDORID" | "c = AVPCodeAUTHAPPLICATIONID" | "c = AVPCodeACCTAPPLICATIONID" | "c \<notin> set (codesOf base_avps ?fs)"
    by (auto simp: codesOf_def base_avps_nth)
  then show ?thesis
  proof cases
    case 4
    then have "VSA_avp c v b g = g"
      by (auto simp: codesOf_def base_avps_nth VSA_avp_def)
    then show ?thesis
      using genStep_skips [OF 4] by simp
  qed (auto simp: genStep_def fieldIndex_Cons base_avps_nth isGrouped_def genType_def genTypes_def genDecode_def Decode_def
      DecodeUnsigned32_def assertable_def VSA_avp_def with_Unsigned32_def VSA_fields_def storeField_def opt_def)
qed

lemma VSA_read:
  "groupRead base_avps (base_avps ! 10) data =
     (case VSA_Unmarshal data VSA_zero of Inl e \<Rightarrow> Inl (Codec e) | Inr g \<Rightarrow> Inr (Struct (VSA_fields g)))"
proof -
  let ?fs = "[optionalField 3, optionalField 7, optionalField 9]"
  have "zeroFields base_avps ?fs = VSA_fields VSA_zero"
    by (simp add: zeroFields_def zeroOf_def VSA_fields_def VSA_zero_def opt_def)
  moreover have "genWalk (genStep (groupRead base_avps) base_avps ?fs) data (VSA_fields VSA_zero) =
      map_sum Codec VSA_fields (walkAVPs VSA_avp data VSA_zero)"
    by (intro genWalk_simulates VSA_step)
  ultimately show ?thesis
    by (subst groupRead.simps) (simp add: base_avps_nth VSA_Unmarshal_def split: sum.split)
qed

lemma CER_index:
  "fieldIndex base_avps (cd_Fields CER_definition) 264 = Some 0"
  "fieldIndex base_avps (cd_Fields CER_definition) 296 = Some 1"
  "fieldIndex base_avps (cd_Fields CER_definition) 257 = Some 2"
  "fieldIndex base_avps (cd_Fields CER_definition) 266 = Some 3"
  "fieldIndex base_avps (cd_Fields CER_definition) 269 = Some 4"
  "fieldIndex base_avps (cd_Fields CER_definition) 278 = Some 5"
  "fieldIndex base_avps (cd_Fields CER_definition) 265 = Some 6"
  "fieldIndex base_avps (cd_Fields CER_definition) 258 = Some 7"
  "fieldIndex base_avps (cd_Fields CER_definition) 299 = Some 8"
  "fieldIndex base_avps (cd_Fields CER_definition) 259 = Some 9"
  "fieldIndex base_avps (cd_Fields CER_definition) 260 = Some 10"
  "fieldIndex base_avps (cd_Fields CER_definition) 267 = Some 11"
  by (simp_all add: fieldIndex_Cons CER_definition_def base_avps_nth)

lemma CER_field:
  "cd_Fields CER_definition ! 0 = fixedField 0" "cd_Fields CER_definition ! Suc 0 = fixedField 1"
  "cd_Fields CER_definition ! 2 = repeatedField 2 True" "cd_Fields CER_definition ! 3 = fixedField 3"
  "cd_Fields CER_definition ! 4 = fixedField 4" "cd_Fields CER_definition ! 5 = optionalField 5"
  "cd_Fields CER_definition ! 6 = repeatedField 6 False" "cd_Fields CER_definition ! 7 = repeatedField 7 False"
  "cd_Fields CER_definition ! 8 = repeatedField 8 False" "cd_Fields CER_definition ! 9 = repeatedField 9 False"
  "cd_Fields CER_definition ! 10 = repeatedField 10 False" "cd_Fields CER_definition ! 11 = optionalField 11"
  by (simp_all add: CER_definition_def)

lemma read_field:
  assumes "fieldIndex h fs code = Some i" and "ad_VendorID (h ! fd_AVP (fs ! i)) = 0" and "\<not> isGrouped (h ! fd_AVP (fs ! i))"
  shows "genStep rd h fs code vendor value vals =
    (case genDecode (genType (ad_TypeName (h ! fd_AVP (fs ! i)))) value of
       Inl e \<Rightarrow> Some vals
     | Inr v \<Rightarrow> if assertable (genType (ad_TypeName (h ! fd_AVP (fs ! i)))) v then Some (storeField (fs ! i) i (Val v) vals) else None)"
  using assms by (simp add: genStep_def Let_def)

lemma decoders:
  "genDecode (genType ''DiameterIdentity'') b = DecodeDiameterIdentity b" "genDecode (genType ''UTF8String'') b = DecodeUTF8String b"
  "genDecode (genType ''Unsigned32'') b = DecodeUnsigned32 b" "genDecode (genType ''Address'') b = DecodeAddress b"
  "assertable (genType ''DiameterIdentity'') (DiameterIdentity s)" "assertable (genType ''UTF8String'') (UTF8String s)"
  "assertable (genType ''Unsigned32'') (Unsigned32 n)" "assertable (genType ''Address'') (Address a)"
  by (simp_all add: genType_def genTypes_def genDecode_def Decode_def assertable_def Let_def Address_methods_def)

lemmas step_facts = CER_index CER_field base_avps_nth isGrouped_def storeField_def CER_avp_def CER_fields_def opt_def many_def

lemma CER_step:
  "genStep (groupRead base_avps) base_avps (cd_Fields CER_definition) c v b (CER_fields m) = Some (CER_fields (CER_avp c v b m))"
proof (cases "c \<in> set (codesOf base_avps (cd_Fields CER_definition))")
  case False
  then have "CER_avp c v b m = m"
    by (simp add: codesOf_def base_avps_nth CER_definition_def CER_avp_def placeholder_def zeroAVP_def)
  then show ?thesis
    using genStep_skips [OF False] by simp
next
  case True
  then consider "c = AVPCodeORIGINHOST \<or> c = AVPCodeORIGINREALM" | "c = AVPCodeHOSTIPADDRESS" | "c = AVPCodePRODUCTNAME"
    | "c = AVPCodeVENDORID \<or> c = AVPCodeORIGINSTATEID \<or> c = AVPCodeSUPPORTEDVENDORID \<or> c = AVPCodeAUTHAPPLICATIONID \<or>
       c = AVPCodeINBANDSECURITYID \<or> c = AVPCodeACCTAPPLICATIONID \<or> c = AVPCodeFIRMWAREREVISION"
    | "c = AVPCodeVENDORSPECIFICAPPLICATIONID"
    by (simp add: codesOf_def base_avps_nth CER_definition_def placeholder_def zeroAVP_def) metis
  then show ?thesis
  proof cases
    case 1
    then show ?thesis
      by (elim disjE) (simp_all add: read_field decoders step_facts with_DiameterIdentity_def DecodeDiameterIdentity_def)
  next
    case 2
    then show ?thesis
      by (simp add: read_field decoders step_facts with_Address_def DecodeAddress_def)
  next
    case 3
    then show ?thesis
      by (simp add: read_field decoders step_facts with_UTF8String_def DecodeUTF8String_def)
  next
    case 4
    then show ?thesis
      by (elim disjE) (simp_all add: read_field decoders step_facts with_Unsigned32_def DecodeUnsigned32_def)
  next
    case 5
    then show ?thesis
      by (simp add: genStep_def step_facts with_VSA_def VSA_read [unfolded base_avps_nth] VSA_value_def split: sum.split)
  qed
qed

lemma walkAVPs_invariant:
  assumes "walkAVPs step data m = Inr m'" and "P m" and "\<And>c v b x. P x \<Longrightarrow> P (step c v b x)"
  shows "P m'"
  using assms
proof (induction step data m rule: walkAVPs.induct)
  case (1 step data m)
  show ?case
    using 1(2) by (subst (asm) walkAVPs.simps) (use 1(1,3,4) in \<open>auto simp: Let_def split: if_splits\<close>)
qed

text \<open>The loop does not touch the header, so it makes no difference that the scheme stores it last.\<close>

lemma CER_walk:
  "genWalk (genStep (groupRead base_avps) base_avps (cd_Fields CER_definition)) data (gm_Fields (CER_struct m)) =
   map_sum Codec CER_fields (walkAVPs CER_avp data (m\<lparr>cer_Header := h\<rparr>))"
  using genWalk_simulates [of _ CER_fields CER_avp, OF CER_step, of data "m\<lparr>cer_Header := h\<rparr>"] by (simp add: CER_struct_def CER_fields_def)

lemma CER_header_kept: "walkAVPs CER_avp data m = Inr m' \<Longrightarrow> cer_Header m' = cer_Header m"
  by (erule walkAVPs_invariant [where P = "\<lambda>x. cer_Header x = cer_Header m"])
     (auto simp: CER_avp_def with_DiameterIdentity_def with_Address_def with_Unsigned32_def with_UTF8String_def with_VSA_def
       split: sum.splits avp_value.splits)

text \<open>
  C20. The CER methods of the checked-in \<^verbatim>\<open>diameter.pb.go\<close> are what the generator's scheme gives for the
  definition in \<^verbatim>\<open>diameter.proto\<close>: for every CER \<^verbatim>\<open>Marshal\<close> returns the same bytes, header and error,
  and for every input \<^verbatim>\<open>Unmarshal\<close> fills the same fields or returns the same error (and never panics).
\<close>

theorem CER_is_generated:
  "genMarshal base_avps CER_definition (CER_struct m) = map_sum id (map_prod CER_struct id) (CER_Marshal m) \<and>
   genUnmarshal base_avps CER_definition data (CER_struct m) = map_sum Codec CER_struct (CER_Unmarshal data m) \<and>
   newMessage base_avps CER_definition = CER_struct NewCapabilitiesExchangeRequest"
proof (intro conjI)
  show "genMarshal base_avps CER_definition (CER_struct m) = map_sum id (map_prod CER_struct id) (CER_Marshal m)"
    using CER_check [of m] CER_bytes [of m]
    by (simp add: genMarshal_def CER_Marshal_def sealMessage_def Let_def CER_struct_def CER_fields_def split: option.split)
  show "genUnmarshal base_avps CER_definition data (CER_struct m) = map_sum Codec CER_struct (CER_Unmarshal data m)"
  proof (cases "length data < 20 \<or> isl (unmarshalHeader (take 20 data))")
    case False
    then obtain h where h: "unmarshalHeader (take 20 data) = Inr h"
      by (cases "unmarshalHeader (take 20 data)") auto
    have kept: "cer_Header m' = h" if "walkAVPs CER_avp (drop 20 data) (m\<lparr>cer_Header := h\<rparr>) = Inr m'" for m'
      using CER_header_kept [OF that] by simp
    show ?thesis
      using False h kept
      by (cases "walkAVPs CER_avp (drop 20 data) (m\<lparr>cer_Header := h\<rparr>)")
         (simp_all add: genUnmarshal_def CER_Unmarshal_def unmarshalMessage_def CER_walk [of _ m h], simp add: CER_struct_def)
  qed (auto simp: genUnmarshal_def CER_Unmarshal_def unmarshalMessage_def isl_def)
  show "newMessage base_avps CER_definition = CER_struct NewCapabilitiesExchangeRequest"
    by (simp add: newMessage_def CER_struct_def NewCapabilitiesExchangeRequest_def new_header_def CER_definition_def CER_zero_def
        zeroFields_def zeroOf_def base_avps_nth isGrouped_def genType_def genTypes_def CER_fields_def opt_def many_def Let_def
        placeholder_def zeroAVP_def zero_header_def)
qed

section \<open>The S13 application\<close>

definition s13_avps :: "AVPDefinition list" where
  "s13_avps =
     [avpDef ''Session-Id'' 263 ''UTF8String'' True False 0 [],
      avpDef ''Auth-Session-State'' 277 ''Enumerated'' True False 0 [],
      avpDef ''Origin-Host'' 264 ''DiameterIdentity'' True False 0 [],
      avpDef ''Origin-Realm'' 296 ''DiameterIdentity'' True False 0 [],
      avpDef ''Destination-Realm'' 283 ''DiameterIdentity'' True False 0 [],
      avpDef ''IMEI'' 1402 ''UTF8String'' True False 10415 [],
      avpDef ''3GPP2-MEID'' 1471 ''OctetString'' True False 10415 [],
      avpDef ''Software-Version'' 1403 ''UTF8String'' True False 10415 [],
      avpDef ''Terminal-Information'' 1401 ''Grouped'' True False 10415 [optionalField 5, optionalField 6, optionalField 7],
      avpDef ''DRMP'' 301 ''Enumerated'' False False 0 [],
      avpDef ''Vendor-Id'' 266 ''Unsigned32'' True False 0 [],
      avpDef ''Auth-Application-Id'' 258 ''Unsigned32'' True False 0 [],
      avpDef ''Acct-Application-Id'' 259 ''Unsigned32'' True False 0 [],
      avpDef ''Vendor-Specific-Application-Id'' 260 ''Grouped'' True False 0
        [optionalField 10, optionalField 11, optionalField 12],
      avpDef ''Destination-Host'' 293 ''DiameterIdentity'' True False 0 [],
      avpDef ''User-Name'' 1 ''UTF8String'' True True 0 [],
      placeholder ''AVP'',
      avpDef ''Proxy-Host'' 280 ''DiameterIdentity'' True False 0 [],
      avpDef ''Proxy-State'' 33 ''OctetString'' True False 0 [],
      avpDef ''Proxy-Info'' 284 ''Grouped'' True False 0 [requiredField 17, optionalField 18],
      avpDef ''Route-Record'' 282 ''DiameterIdentity'' True False 0 [],
      avpDef ''Result-Code'' 268 ''Unsigned32'' True False 0 [],
      avpDef ''Experimental-Result-Code'' 298 ''Unsigned32'' True False 0 [],
      avpDef ''Experimental-Result'' 297 ''Grouped'' True False 0 [requiredField 10, requiredField 22],
      avpDef ''Equipment-Status'' 1445 ''Enumerated'' True False 10415 [],
      avpDef ''Failed-AVP'' 279 ''Grouped'' True False 0 [repeatedField 16 False]]"

definition MICR_definition :: CommandDefinition where
  "MICR_definition =
     \<lparr>cd_Name = ''ME-Identity-Check-Request'', cd_Abbreviation = ''MICR'', cd_Code = 324, cd_ApplicationID = 16777252,
      cd_Request = True, cd_Proxiable = True, cd_Package = ''s13'',
      cd_Fields =
        [fixedField 0, fixedField 1, fixedField 2, fixedField 3, fixedField 4, fixedField 8, optionalField 9,
         optionalField 13, optionalField 14, optionalField 15, repeatedField 16 False, repeatedField 19 False,
         repeatedField 20 False]\<rparr>"

definition MICA_definition :: CommandDefinition where
  "MICA_definition =
     \<lparr>cd_Name = ''ME-Identity-Check-Answer'', cd_Abbreviation = ''MICA'', cd_Code = 324, cd_ApplicationID = 16777252,
      cd_Request = False, cd_Proxiable = True, cd_Package = ''s13'',
      cd_Fields =
        [fixedField 0, fixedField 1, fixedField 2, fixedField 3, optionalField 21, optionalField 23, optionalField 24,
         optionalField 9, optionalField 13, repeatedField 16 False, optionalField 25, repeatedField 19 False,
         repeatedField 20 False]\<rparr>"

text \<open>A request for the status of an equipment, with the fields a network sends.\<close>

definition example_MICR :: GenMessage where
  "example_MICR = (newMessage s13_avps MICR_definition)\<lparr>gm_Fields :=
     [[Val (UTF8String [109, 109, 101, 59, 49])], [Val (Enumerated 1)], [Val (DiameterIdentity [109, 109, 101])],
      [Val (DiameterIdentity [110, 101, 116])], [Val (DiameterIdentity [101, 105, 114])],
      [Struct [[Val (UTF8String [52, 57, 48, 49, 53])], [], [Val (UTF8String [48, 49])]]],
      [], [], [], [Val (UTF8String [48, 48, 49, 48, 49, 57])], [], [], [Val (DiameterIdentity [97]), Val (DiameterIdentity [98])]]\<rparr>"

section \<open>What the scheme does with messages\<close>

lemma generated_roundtrip:
  assumes "genMarshal h cmd m = Inr (m', bs)" and "distinct (codesOf h (cd_Fields cmd))"
    and "carriedFields h (cd_Fields cmd) (gm_Fields m)"
    and "length bs < 2 ^ 24" and "unat (hdr_CommandCode (gm_Header m)) < 2 ^ 24"
  shows "genUnmarshal h cmd bs (newMessage h cmd) = Inr m'"
proof -
  let ?body = "fieldsBytes h (cd_Fields cmd) (gm_Fields m)"
  let ?hd = "(gm_Header m)\<lparr>hdr_Length := word_of_nat (20 + length ?body)\<rparr>"
  have m: "m' = m\<lparr>gm_Header := ?hd\<rparr>" "bs = marshalHeader ?hd @ ?body"
    using assms(1) by (auto simp: genMarshal_def sealMessage_def Let_def split: option.splits)
  have len: "20 + length ?body < 2 ^ 24"
    using assms(4) m(2) by simp
  then have "take_bit 24 (hdr_Length ?hd) = hdr_Length ?hd" "take_bit 24 (hdr_CommandCode ?hd) = hdr_CommandCode ?hd"
    using assms(5) by (simp_all add: take_bit_24_less unsigned_of_nat take_bit_nat_eq_self del: of_nat_add)
  then have "unmarshalHeader (marshalHeader ?hd) = Inr ?hd"
    using unmarshalHeader_append [of ?hd "[]"] by simp
  moreover have "list_all (list_all (readable h)) (gm_Fields m)"
    using all_readable by (simp add: list_all_iff)
  then have "genWalk (genStep (groupRead h) h (cd_Fields cmd)) ?body (zeroFields h (cd_Fields cmd)) = Inr (gm_Fields m)"
    using fields_walk [OF assms(2,3)] len by simp
  ultimately show ?thesis
    unfolding m by (simp add: genUnmarshal_def newMessage_def)
qed

text \<open>
  C15. A message of any definition survives the wire: for every command whose fields have different
  AVP codes, and every message the generated \<^verbatim>\<open>Marshal\<close> accepts and the wire can carry, nested groups
  and vendor-specific AVPs included, the generated \<^verbatim>\<open>Unmarshal\<close> rebuilds exactly the marshalled message
  from its bytes.
\<close>

theorem genUnmarshal_genMarshal:
  assumes "genMarshal h cmd m = Inr (m', bs)" and "distinct (codesOf h (cd_Fields cmd))"
    and "carriedFields h (cd_Fields cmd) (gm_Fields m)"
    and "length bs < 2 ^ 24" and "unat (hdr_CommandCode (gm_Header m)) < 2 ^ 24"
  shows "genUnmarshal h cmd bs (newMessage h cmd) = Inr m'"
  using assms by (rule generated_roundtrip)

theorem genUnmarshal_genMarshal_witness:
  "\<exists>m' bs. genMarshal s13_avps MICR_definition example_MICR = Inr (m', bs) \<and>
     genUnmarshal s13_avps MICR_definition bs (newMessage s13_avps MICR_definition) = Inr m'"
proof -
  have c: "distinct (codesOf s13_avps (cd_Fields MICR_definition))"
      "carriedFields s13_avps (cd_Fields MICR_definition) (gm_Fields example_MICR)"
      "genValidate s13_avps MICR_definition example_MICR = None"
    by code_simp+
  obtain m' bs where m: "genMarshal s13_avps MICR_definition example_MICR = Inr (m', bs)"
    using c(3) by (simp add: genMarshal_def sealMessage_def Let_def)
  have "length (fieldsBytes s13_avps (cd_Fields MICR_definition) (gm_Fields example_MICR)) = 152"
    by code_simp
  then have "length bs = 172"
    using m c(3) by (auto simp: genMarshal_def sealMessage_def Let_def)
  moreover have "unat (hdr_CommandCode (gm_Header example_MICR)) = 324"
    by (simp add: example_MICR_def newMessage_def MICR_definition_def)
  ultimately show ?thesis
    using genUnmarshal_genMarshal [OF m c(1,2)] m by simp
qed

text \<open>
  Input can make the generated \<^verbatim>\<open>Unmarshal\<close> panic: whatever the definition, if a field has the type
  \<^verbatim>\<open>Time\<close>, a message whose first AVP has the code (and vendor) of that field and a value that is not
  four bytes long ends in the failed type assertion, because \<^verbatim>\<open>DecodeTime\<close> returns a pointer for it.
\<close>

theorem time_field_panics:
  assumes "distinct (codesOf h (cd_Fields cmd))" and "f \<in> set (cd_Fields cmd)" and "d = h ! fd_AVP f"
    and "ad_Code d \<noteq> 0" and "ad_TypeName d = ''Time''" and "length value \<noteq> 4" and "length value < 2 ^ 24 - 12"
    and "bs = marshalHeader hdr @ marshalAVPWithVendor (ad_Code d) (OctetString value) must prot (ad_VendorID d) @ rest"
  shows "genUnmarshal h cmd bs m = Inl TypeAssertionPanic"
proof -
  obtain pre fs where fs: "cd_Fields cmd = pre @ f # fs"
    using assms(2) by (meson split_list)
  let ?st = "genStep (groupRead h) h (cd_Fields cmd)"
  let ?avp = "marshalAVPWithVendor (ad_Code d) (OctetString value) must prot (ad_VendorID d)"
  have idx: "fieldIndex h (cd_Fields cmd) (ad_Code d) = Some (length pre)"
    using fieldIndex_at [of h pre f fs] assms(1,3,4) fs by simp
  have "?st (ad_Code d) (ad_VendorID d) value s = None" for s
    using idx fs assms(3,5,6)
    by (simp add: genStep_def isGrouped_def genType_def genTypes_def genDecode_def Decode_def DecodeTime_def assertable_def)
  then have "genWalk ?st (?avp @ rest) (gm_Fields m) = Inl TypeAssertionPanic"
    using genWalk_frame [of "OctetString value" ?st "ad_Code d" must prot "ad_VendorID d" rest "gm_Fields m"] assms(7)
    by (simp add: Let_def)
  then show ?thesis
    by (simp add: genUnmarshal_def assms(8) unmarshalHeader_def)
qed

text \<open>The \<^verbatim>\<open>Event-Timestamp\<close> of the accounting commands, sent with one byte instead of four.\<close>

definition timestamp_avps :: "AVPDefinition list" where
  "timestamp_avps =
     [avpDef ''Session-Id'' 263 ''UTF8String'' True False 0 [], avpDef ''Event-Timestamp'' 55 ''Time'' True False 0 []]"

theorem time_field_panics_witness:
  "genUnmarshal timestamp_avps (MICR_definition\<lparr>cd_Fields := [fixedField 0, optionalField 1]\<rparr>)
     (marshalHeader zero_header @ marshalAVPWithVendor 55 (OctetString [7]) True False 0)
     (newMessage timestamp_avps MICR_definition) = Inl TypeAssertionPanic"
proof -
  let ?cmd = "MICR_definition\<lparr>cd_Fields := [fixedField 0, optionalField 1]\<rparr>"
  have "distinct (codesOf timestamp_avps (cd_Fields ?cmd))" "timestamp_avps ! fd_AVP (optionalField 1) = avpDef ''Event-Timestamp'' 55 ''Time'' True False 0 []"
    by (simp_all add: timestamp_avps_def codesOf_def)
  then show ?thesis
    using time_field_panics [of timestamp_avps ?cmd "optionalField 1" _ "[7]" _ zero_header True False "[]"] by simp
qed

end
