(* ===== verification/Gateway_Program.thy ===== *)
theory Gateway_Program
  imports Gateway Generated_Base
begin

text \<open>
  The gateway program (\<^verbatim>\<open>cmd/gateway/main.go\<close>): its handler for the ME-Identity-Check requests the agents
  send. The request is forwarded as it is to an instance of the EIR application, and the answer is
  written back to the agent. Several handlers run at once, each in its goroutine, and share the
  sessions of the address client, which are keyed by the hop-by-hop id alone.

  The lemmas show that the counters account for every request in any interleaving, that an answer
  carries the id of the request it is written for, what is sent when no instance is known, and what
  happens to two requests with one id.
\<close>

section \<open>The handler\<close>

text \<open>An instance of an application, as the service discovery reports it.\<close>

record Pod =
  pod_Ip :: gostring
  pod_Port :: int

definition podAddress :: "Pod \<Rightarrow> gostring" where
  "podAddress pod = pod_Ip pod @ gostr '':'' @ itoa (pod_Port pod)"

text \<open>The answer built when no instance is known: a new MICA with a result code and the ids of the request.\<close>

definition noInstanceAnswer :: "MessageInfo \<Rightarrow> GenMessage" where
  "noInstanceAnswer info =
     (let mica = newMessage s13_avps MICA_definition
      in \<lparr>gm_Header = (gm_Header mica)\<lparr>hdr_HopByHopID := mi_HopByHopID info, hdr_EndToEndID := mi_EndToEndID info\<rparr>,
          gm_Fields = (gm_Fields mica)[4 := [Val (Unsigned32 5001)]]\<rparr>)"

text \<open>
  The handler up to the wait for the answer: it has returned having written some messages to the
  agent, it has panicked, or it waits for the answer to the request it has handed to the address.
  \<open>eirApps\<close> is what \<^verbatim>\<open>GetPodInfos\<close> returned, in the order the map is visited; \<open>None\<close> if that call panicked,
  as with a nil client when governance is disabled it can. The counters it changes are separate atomic
  variables that nothing in the handler reads, so one step changes them together.
\<close>

datatype micr_result = MicrDone "bytes list" | MicrPanic | MicrWait gostring bytes u32 nat

definition micrHandler :: "Pod list option \<Rightarrow> Message \<Rightarrow> GatewayState \<Rightarrow> micr_result \<times> GatewayState" where
  "micrHandler eirApps msg g =
     (let g1 = IncrementTotalRequests g in
      case ParseMessageHeader (msg_Header msg) of
        Inl err \<Rightarrow> (MicrDone [], IncrementTotalErrors g1)
      | Inr info \<Rightarrow>
          (case eirApps of
             None \<Rightarrow> (MicrPanic, g1)
           | Some [] \<Rightarrow>
               (case genMarshal s13_avps MICA_definition (noInstanceAnswer info) of
                  Inl err \<Rightarrow> (MicrDone [], IncrementTotalErrors g1)
                | Inr (_, rspBytes) \<Rightarrow> (MicrDone [rspBytes], IncrementRoutingErrors (IncrementTotalResponses g1)))
           | Some (selectedEIRApp # _) \<Rightarrow>
               (let req = msg_Header msg @ msg_Body msg in
                case sendInternal_begin req (IncrementTotalForwarded g1) of
                  (None, g2) \<Rightarrow> (MicrDone [], IncrementTotalErrors g2)
                | (Some (h, rspChan), g2) \<Rightarrow> (MicrWait (podAddress selectedEIRApp) req h rspChan, g2))))"

text \<open>The rest of the handler: the send has failed, or the wait is over.\<close>

definition micrUnsent :: "u32 \<Rightarrow> bool \<Rightarrow> GatewayState \<Rightarrow> GatewayState" where
  "micrUnsent h expired g = IncrementTotalErrors (sendInternal_failed h expired g)"

definition micrEnd :: "wake \<Rightarrow> u32 \<Rightarrow> nat \<Rightarrow> GatewayState \<Rightarrow> (bytes list \<times> GatewayState) option" where
  "micrEnd w h rspChan g =
     (case sendInternal_end w h rspChan g of
        None \<Rightarrow> None
      | Some (None, g1) \<Rightarrow> Some ([], IncrementTotalErrors g1)
      | Some (Some rsp, g1) \<Rightarrow> Some ([rsp], IncrementTotalResponses (IncrementTotalFromDRA g1)))"

section \<open>Concurrent requests\<close>

text \<open>
  The requests so far (the agent's connection and the id), the handlers that wait, each with its
  connection, its id and its channel, the writes (the connection, the id of its request and the
  bytes), and the number of handlers that have panicked.
\<close>

record micr_sys =
  ms_gateway :: GatewayState
  ms_requests :: "(nat \<times> u32) list"
  ms_waiting :: "(nat \<times> u32 \<times> nat) list"
  ms_written :: "(nat \<times> u32 \<times> bytes) list"
  ms_panicked :: nat

definition requestID :: "Message \<Rightarrow> u32" where
  "requestID msg = Uint32 (bslice 12 16 (msg_Header msg @ msg_Body msg))"

definition arrive :: "Pod list option \<Rightarrow> nat \<Rightarrow> Message \<Rightarrow> micr_sys \<Rightarrow> micr_sys" where
  "arrive eirApps conn msg y =
     (let y1 = y\<lparr>ms_requests := ms_requests y @ [(conn, requestID msg)]\<rparr> in
      case micrHandler eirApps msg (ms_gateway y) of
        (MicrDone bs, g) \<Rightarrow> y1\<lparr>ms_gateway := g, ms_written := ms_written y @ map (\<lambda>b. (conn, requestID msg, b)) bs\<rparr>
      | (MicrPanic, g) \<Rightarrow> y1\<lparr>ms_gateway := g, ms_panicked := ms_panicked y + 1\<rparr>
      | (MicrWait addr req h ch, g) \<Rightarrow> y1\<lparr>ms_gateway := g, ms_waiting := ms_waiting y @ [(conn, h, ch)]\<rparr>)"

definition answered :: "Message \<Rightarrow> micr_sys \<Rightarrow> micr_sys" where
  "answered m y = y\<lparr>ms_gateway := (ms_gateway y)\<lparr>gw_inClient := acl_handleFn m (gw_inClient (ms_gateway y))\<rparr>\<rparr>"

inductive micr_step :: "micr_sys \<Rightarrow> micr_sys \<Rightarrow> bool" where
  ms_arrive: "micr_step y (arrive eirApps conn msg y)"
| ms_unsent: "ms_waiting y = pre @ (conn, h, ch) # post \<Longrightarrow>
    micr_step y (y\<lparr>ms_gateway := micrUnsent h expired (ms_gateway y), ms_waiting := pre @ post\<rparr>)"
| ms_answer: "micr_step y (answered m y)"
| ms_end: "ms_waiting y = pre @ (conn, h, ch) # post \<Longrightarrow> micrEnd w h ch (ms_gateway y) = Some (bs, g) \<Longrightarrow>
    micr_step y (y\<lparr>ms_gateway := g, ms_waiting := pre @ post,
      ms_written := ms_written y @ map (\<lambda>b. (conn, h, b)) bs\<rparr>)"

inductive micr_reach :: "GatewayState \<Rightarrow> micr_sys \<Rightarrow> bool" for g0 where
  mr_start: "micr_reach g0 \<lparr>ms_gateway = g0, ms_requests = [], ms_waiting = [], ms_written = [], ms_panicked = 0\<rparr>"
| mr_step: "micr_reach g0 y \<Longrightarrow> micr_step y y' \<Longrightarrow> micr_reach g0 y'"

section \<open>No instance\<close>

text \<open>The answer lacks the session id, the host and the realm, and \<^verbatim>\<open>Marshal\<close> refuses it.\<close>

lemma noInstanceAnswer_refused:
  "genMarshal s13_avps MICA_definition (noInstanceAnswer info) = Inl (ValidationFailed (RequiredFieldEmpty ''Session-Id''))"
proof -
  have "gm_Fields (noInstanceAnswer info) = [Val (UTF8String [])] # tl (gm_Fields (noInstanceAnswer info))"
    by (simp add: noInstanceAnswer_def newMessage_def zeroFields_def MICA_definition_def Let_def zeroOf_def s13_avps_def isGrouped_def
        genType_def genTypes_def numeral_eq_Suc)
  moreover have "checkField s13_avps (fixedField 0) [Val (UTF8String [])] = Some (RequiredFieldEmpty ''Session-Id'')"
    by (simp add: checkField_def s13_avps_def emptyText_def)
  moreover have "cd_Fields MICA_definition = fixedField 0 # tl (cd_Fields MICA_definition)"
    by (simp add: MICA_definition_def)
  ultimately have "checkFields s13_avps (cd_Fields MICA_definition) (gm_Fields (noInstanceAnswer info)) = Some (RequiredFieldEmpty ''Session-Id'')"
    by (metis checkFields.simps(1) option.simps(5))
  then show ?thesis
    by (simp add: genMarshal_def genValidate_def MICA_definition_def)
qed

text \<open>A header that parses gives the id of the message.\<close>

lemma parsed_id:
  assumes "ParseMessageHeader (msg_Header msg) = Inr info"
  shows "20 \<le> length (msg_Header msg)" and "mi_HopByHopID info = requestID msg"
proof -
  show "20 \<le> length (msg_Header msg)"
    using assms by (auto simp: ParseMessageHeader_def split: if_splits)
  moreover have "mi_HopByHopID info = Uint32 (bslice 12 16 (msg_Header msg))"
    using assms by (auto simp: ParseMessageHeader_def Let_def split: if_splits)
  ultimately show "mi_HopByHopID info = requestID msg"
    by (simp add: requestID_def bslice_def)
qed

text \<open>What the handler does, branch by branch.\<close>

lemma micrHandler_bad_header:
  "ParseMessageHeader (msg_Header msg) = Inl e \<Longrightarrow>
     micrHandler apps msg g = (MicrDone [], IncrementTotalErrors (IncrementTotalRequests g))"
  by (simp add: micrHandler_def)

lemma micrHandler_no_instance:
  "ParseMessageHeader (msg_Header msg) = Inr info \<Longrightarrow>
     micrHandler (Some []) msg g = (MicrDone [], IncrementTotalErrors (IncrementTotalRequests g))"
  by (simp add: micrHandler_def noInstanceAnswer_refused)

lemma micrHandler_forward:
  assumes "ParseMessageHeader (msg_Header msg) = Inr info"
  shows "micrHandler (Some (pod # pods)) msg g =
    (MicrWait (podAddress pod) (msg_Header msg @ msg_Body msg) (requestID msg) (acl_made (gw_inClient g)),
     (IncrementTotalForwarded (IncrementTotalRequests g))\<lparr>gw_inClient := acl_StoreSession (requestID msg)
        ((gw_inClient g)\<lparr>acl_TotalRequests := acl_TotalRequests (gw_inClient g) + 1\<rparr>)\<rparr>)"
  using assms parsed_id(1) [OF assms]
  by (simp add: micrHandler_def sendInternal_begin_def acl_begin_def requestID_def Increment_defs Let_def)

lemma micrHandler_panic:
  "ParseMessageHeader (msg_Header msg) = Inr info \<Longrightarrow> micrHandler None msg g = (MicrPanic, IncrementTotalRequests g)"
  by (simp add: micrHandler_def)

text \<open>The four outcomes of an arrival.\<close>

lemma arrive_cases:
  obtains
    (refused) "arrive apps conn msg y = y\<lparr>ms_requests := ms_requests y @ [(conn, requestID msg)],
      ms_gateway := IncrementTotalErrors (IncrementTotalRequests (ms_gateway y))\<rparr>"
  | (panic) "arrive apps conn msg y = y\<lparr>ms_requests := ms_requests y @ [(conn, requestID msg)],
      ms_gateway := IncrementTotalRequests (ms_gateway y), ms_panicked := ms_panicked y + 1\<rparr>"
  | (forward) "arrive apps conn msg y = y\<lparr>ms_requests := ms_requests y @ [(conn, requestID msg)],
      ms_gateway := (IncrementTotalForwarded (IncrementTotalRequests (ms_gateway y)))\<lparr>gw_inClient := acl_StoreSession (requestID msg)
        ((gw_inClient (ms_gateway y))\<lparr>acl_TotalRequests := acl_TotalRequests (gw_inClient (ms_gateway y)) + 1\<rparr>)\<rparr>,
      ms_waiting := ms_waiting y @ [(conn, requestID msg, acl_made (gw_inClient (ms_gateway y)))]\<rparr>"
proof (cases "ParseMessageHeader (msg_Header msg)")
  case (Inl e)
  then show ?thesis
    using refused by (simp add: arrive_def micrHandler_bad_header)
next
  case (Inr info)
  note ok = Inr
  show ?thesis
  proof (cases apps)
    case None
    then show ?thesis
      using ok panic by (simp add: arrive_def micrHandler_panic)
  next
    case (Some pods)
    then show ?thesis
      using ok refused forward
      by (cases pods) (simp_all add: arrive_def micrHandler_no_instance micrHandler_forward)
  qed
qed

section \<open>The counters\<close>

definition micr_accounted :: "micr_sys \<Rightarrow> bool" where
  "micr_accounted y \<longleftrightarrow>
     (let g = ms_gateway y in
      gw_TotalRequests g = gw_TotalResponses g + gw_TotalErrors g + word_of_nat (length (ms_waiting y)) + word_of_nat (ms_panicked y) \<and>
      gw_TotalResponses g = gw_TotalFromDRA g \<and> gw_RoutingErrors g = 0)"

lemma micrEnd_counts:
  assumes "micrEnd w h ch g = Some (bs, g')"
  shows "gw_TotalRequests g' = gw_TotalRequests g \<and> gw_RoutingErrors g' = gw_RoutingErrors g \<and>
    (bs = [] \<and> gw_TotalErrors g' = gw_TotalErrors g + 1 \<and> gw_TotalResponses g' = gw_TotalResponses g \<and>
       gw_TotalFromDRA g' = gw_TotalFromDRA g \<or>
     gw_TotalErrors g' = gw_TotalErrors g \<and> gw_TotalResponses g' = gw_TotalResponses g + 1 \<and>
       gw_TotalFromDRA g' = gw_TotalFromDRA g + 1)"
  using assms by (auto simp: micrEnd_def sendInternal_end_def Increment_defs split: option.splits)

lemma micr_accounted_step:
  assumes "micr_accounted y" and "micr_step y y'"
  shows "micr_accounted y'"
  using assms(2)
proof cases
  case (ms_arrive apps conn msg)
  show ?thesis
    unfolding ms_arrive
    by (cases rule: arrive_cases [of apps conn msg y])
       (use assms(1) in \<open>simp_all add: micr_accounted_def Increment_defs Let_def algebra_simps\<close>)
next
  case (ms_unsent pre conn h ch post expired)
  then show ?thesis
    using assms(1) by (simp add: micr_accounted_def micrUnsent_def sendInternal_failed_def Increment_defs Let_def algebra_simps)
next
  case (ms_answer m)
  then show ?thesis
    using assms(1) by (simp add: micr_accounted_def answered_def Let_def)
next
  case (ms_end pre conn h ch post w bs g)
  then show ?thesis
    using assms(1) micrEnd_counts [OF ms_end(3)] by (auto simp: micr_accounted_def Let_def algebra_simps)
qed

lemma NewGateway_counters:
  "NewGateway parseIP ds config = Built g \<Longrightarrow> gw_TotalRequests g = 0 \<and> gw_TotalResponses g = 0 \<and> gw_TotalErrors g = 0 \<and>
     gw_TotalFromDRA g = 0 \<and> gw_RoutingErrors g = 0"
  by (auto simp: NewGateway_def Let_def split: sum.splits option.splits if_splits)

text \<open>
  C19. The gateway accounts for every request of the agents: whatever handlers run and in whatever
  order their sends fail, answers arrive and waits end, the requests are the responses, the errors,
  the handlers that still wait and those that panicked; every response came from an application; and
  the counter of routing errors never moves, because the answer it goes with is never sent.
\<close>

theorem micr_accounting:
  assumes "NewGateway parseIP ds config = Built g0" and "micr_reach g0 y" and "s = gw_GetStats (ms_gateway y)"
  shows "gss_TotalRequests s = gss_TotalResponses s + gss_TotalErrors s + word_of_nat (length (ms_waiting y)) + word_of_nat (ms_panicked y) \<and>
    gss_TotalResponses s = gss_TotalFromDRA s \<and> gss_RoutingErrors s = 0"
proof -
  have "micr_accounted y"
    using assms(2)
  proof induction
    case mr_start
    then show ?case
      using NewGateway_counters [OF assms(1)] by (simp add: micr_accounted_def)
  qed (rule micr_accounted_step)
  then show ?thesis
    by (simp add: assms(3) gw_GetStats_def micr_accounted_def Let_def)
qed

section \<open>Answers\<close>

text \<open>The hop-by-hop id in the bytes of a message.\<close>

definition hopByHop :: "bytes \<Rightarrow> u32" where
  "hopByHop bs = Uint32 (bslice 12 16 bs)"

text \<open>
  Channels in the map have been made; a handler's channel is in the map under the handler's id or not
  at all, and holds only messages with that id; so does every write.
\<close>

definition ids_match :: "micr_sys \<Rightarrow> bool" where
  "ids_match y \<longleftrightarrow>
     (let c = gw_inClient (ms_gateway y) in
      (\<forall>h ch. acl_sessions c h = Some ch \<longrightarrow> ch < acl_made c) \<and>
      (\<forall>(conn, h, ch) \<in> set (ms_waiting y). ch < acl_made c \<and> (\<forall>k. acl_sessions c k = Some ch \<longrightarrow> k = h) \<and>
         (\<forall>b \<in> set (acl_chans c ch). hopByHop b = h)) \<and>
      (\<forall>(conn, h, b) \<in> set (ms_written y). hopByHop b = h))"

definition answered_once :: "micr_sys \<Rightarrow> bool" where
  "answered_once y \<longleftrightarrow>
     image_mset (\<lambda>(conn, h, _). (conn, h)) (mset (ms_waiting y)) + image_mset (\<lambda>(conn, h, _). (conn, h)) (mset (ms_written y))
     \<subseteq># mset (ms_requests y)"

lemma handleFn_chans:
  "acl_sessions (acl_handleFn m c) = acl_sessions c" "acl_made (acl_handleFn m c) = acl_made c"
  "b \<in> set (acl_chans (acl_handleFn m c) ch) \<Longrightarrow> b \<in> set (acl_chans c ch) \<or> acl_sessions c (hopByHop b) = Some ch"
proof -
  show "acl_sessions (acl_handleFn m c) = acl_sessions c" "acl_made (acl_handleFn m c) = acl_made c"
    by (simp_all add: acl_handleFn_def acl_deliver_def split: sum.split option.split)
  assume b: "b \<in> set (acl_chans (acl_handleFn m c) ch)"
  show "b \<in> set (acl_chans c ch) \<or> acl_sessions c (hopByHop b) = Some ch"
  proof (cases "ParseMessageHeader (msg_Header m)")
    case (Inr info)
    then have "mi_HopByHopID info = hopByHop (msg_Header m @ msg_Body m)"
      using parsed_id(2) by (simp add: hopByHop_def requestID_def)
    then show ?thesis
      using b Inr by (auto simp: acl_handleFn_def acl_deliver_def acl_FindSession_def split: option.splits if_splits)
  qed (use b in \<open>simp add: acl_handleFn_def\<close>)
qed

lemma ids_match_shrink:
  assumes "ids_match y" and "acl_made (gw_inClient (ms_gateway y')) = acl_made (gw_inClient (ms_gateway y))"
    and "acl_sessions (gw_inClient (ms_gateway y')) \<subseteq>\<^sub>m acl_sessions (gw_inClient (ms_gateway y))"
    and "\<And>ch. set (acl_chans (gw_inClient (ms_gateway y')) ch) \<subseteq> set (acl_chans (gw_inClient (ms_gateway y)) ch)"
    and "set (ms_waiting y') \<subseteq> set (ms_waiting y)"
    and "\<And>conn h b. (conn, h, b) \<in> set (ms_written y') \<Longrightarrow> (conn, h, b) \<in> set (ms_written y) \<or> hopByHop b = h"
  shows "ids_match y'"
proof -
  let ?c = "gw_inClient (ms_gateway y)" and ?c' = "gw_inClient (ms_gateway y')"
  have sub: "acl_sessions ?c' k = Some ch \<Longrightarrow> acl_sessions ?c k = Some ch" for k ch
    using assms(3) by (metis domI map_le_def)
  have "ch < acl_made ?c' \<and> (\<forall>k. acl_sessions ?c' k = Some ch \<longrightarrow> k = h) \<and> (\<forall>b \<in> set (acl_chans ?c' ch). hopByHop b = h)"
    if "(conn, h, ch) \<in> set (ms_waiting y')" for conn h ch
  proof -
    have "(conn, h, ch) \<in> set (ms_waiting y)"
      using assms(5) that by blast
    then have "ch < acl_made ?c \<and> (\<forall>k. acl_sessions ?c k = Some ch \<longrightarrow> k = h) \<and> (\<forall>b \<in> set (acl_chans ?c ch). hopByHop b = h)"
      using assms(1) unfolding ids_match_def Let_def by blast
    then show ?thesis
      using assms(2) assms(4) [of ch] sub by auto
  qed
  moreover have "hopByHop b = h" if "(conn, h, b) \<in> set (ms_written y')" for conn h b
    using assms(1) assms(6) [OF that] unfolding ids_match_def Let_def by blast
  moreover have "acl_sessions ?c' h = Some ch \<Longrightarrow> ch < acl_made ?c'" for h ch
    using assms(1,2) sub unfolding ids_match_def Let_def by metis
  ultimately show ?thesis
    unfolding ids_match_def Let_def by blast
qed

lemma micrEnd_client:
  assumes "micrEnd w h ch g = Some (bs, g')"
  shows "acl_made (gw_inClient g') = acl_made (gw_inClient g) \<and>
    acl_sessions (gw_inClient g') = (acl_sessions (gw_inClient g))(h := None) \<and>
    (\<forall>k. set (acl_chans (gw_inClient g') k) \<subseteq> set (acl_chans (gw_inClient g) k)) \<and>
    set bs \<subseteq> set (acl_chans (gw_inClient g) ch) \<and> length bs \<le> 1"
  using assms
  by (cases w) (auto simp: micrEnd_def sendInternal_end_def acl_end_def acl_DeleteSession_def Increment_defs
      split: list.splits option.splits if_splits)

lemma ids_match_step:
  assumes "ids_match y" and "micr_step y y'"
  shows "ids_match y'"
  using assms(2)
proof cases
  case (ms_arrive apps conn msg)
  show ?thesis
    unfolding ms_arrive
  proof (cases rule: arrive_cases [of apps conn msg y])
    case forward
    show "ids_match (arrive apps conn msg y)"
      using assms(1) unfolding forward
      by (auto simp: ids_match_def Increment_defs acl_StoreSession_def Let_def less_Suc_eq)
  qed (use assms(1) in \<open>simp_all add: ids_match_def Increment_defs Let_def\<close>)
next
  case (ms_unsent pre conn h ch post expired)
  show ?thesis
    unfolding ms_unsent(1)
    by (rule ids_match_shrink [OF assms(1)])
       (auto simp: ms_unsent(2) micrUnsent_def sendInternal_failed_def acl_sendFailed_def acl_DeleteSession_def Increment_defs Let_def
         map_le_def)
next
  case (ms_answer m)
  then show ?thesis
    using assms(1) handleFn_chans(3) by (fastforce simp: ids_match_def answered_def handleFn_chans(1,2) Let_def)
next
  case (ms_end pre conn h ch post w bs g)
  note e = micrEnd_client [OF ms_end(3)]
  have b: "hopByHop b = h" if "b \<in> set bs" for b
    using assms(1) e that ms_end(2) unfolding ids_match_def Let_def by auto
  show ?thesis
    unfolding ms_end(1)
    by (rule ids_match_shrink [OF assms(1)]) (use e b in \<open>auto simp: ms_end(2) map_le_def\<close>)
qed

lemma answered_once_step:
  assumes "answered_once y" and "micr_step y y'"
  shows "answered_once y'"
  using assms(2)
proof cases
  case (ms_arrive apps conn msg)
  have grow: "A \<subseteq># B \<Longrightarrow> A \<subseteq># add_mset x B" for A B :: "(nat \<times> u32) multiset" and x
    by (metis add_mset_add_single mset_subset_eq_add_left subset_mset.order_trans)
  show ?thesis
    unfolding ms_arrive
    by (cases rule: arrive_cases [of apps conn msg y]) (use assms(1) in \<open>simp_all add: answered_once_def grow\<close>)
next
  case (ms_unsent pre conn h ch post expired)
  then show ?thesis
    using assms(1) by (auto simp: answered_once_def dest: mset_subset_eq_insertD subset_mset.less_imp_le)
next
  case (ms_answer m)
  then show ?thesis
    using assms(1) by (simp add: answered_once_def answered_def)
next
  case (ms_end pre conn h ch post w bs g)
  have "bs = [] \<or> (\<exists>b. bs = [b])"
    using micrEnd_client [OF ms_end(3)] by (cases bs) auto
  then show ?thesis
    using assms(1) ms_end(1,2) by (auto simp: answered_once_def dest: mset_subset_eq_insertD subset_mset.less_imp_le)
qed

text \<open>
  C16. Answers in any interleaving: what is written to an agent carries the hop-by-hop id of a request
  that agent has sent, and no request is answered twice: the waits and the writes, each with its
  connection and id, are together among the requests, counted with their multiplicity.
\<close>

theorem micr_answers:
  assumes "NewGateway parseIP ds config = Built g0" and "micr_reach g0 y"
  shows "answered_once y \<and> (\<forall>(conn, h, b) \<in> set (ms_written y). hopByHop b = h \<and> (conn, h) \<in> set (ms_requests y))"
proof -
  have start: "acl_sessions (gw_inClient g0) = Map.empty"
    using assms(1)
    by (auto simp: NewGateway_def NewAddressClient_def Let_def split: sum.splits option.splits if_splits)
  have "ids_match y \<and> answered_once y"
    using assms(2)
  proof induction
    case mr_start
    then show ?case
      using start by (simp add: ids_match_def answered_once_def Let_def)
  qed (blast intro: ids_match_step answered_once_step)
  moreover have "(conn, h) \<in> set (ms_requests y)" if "answered_once y" "(conn, h, b) \<in> set (ms_written y)" for conn h b
    using mset_subset_eqD [OF that(1) [unfolded answered_once_def], of "(conn, h)"] that(2) by force
  ultimately show ?thesis
    unfolding ids_match_def Let_def by blast
qed

text \<open>
  The rest of a forwarded request, when \<open>evs\<close> is what happened to the sessions of the client meanwhile,
  no other request with its id among it.
\<close>

definition meanwhile :: "bytes request_event list \<Rightarrow> GatewayState \<Rightarrow> GatewayState" where
  "meanwhile evs g = g\<lparr>gw_inClient :=
     fold (request_run acl_StoreSession acl_deliver acl_DeleteSession) evs (gw_inClient g)\<rparr>"

lemma meanwhile_counters [simp]:
  "gw_TotalRequests (meanwhile evs g) = gw_TotalRequests g" "gw_TotalForwarded (meanwhile evs g) = gw_TotalForwarded g"
  "gw_TotalResponses (meanwhile evs g) = gw_TotalResponses g" "gw_TotalErrors (meanwhile evs g) = gw_TotalErrors g"
  by (simp_all add: meanwhile_def)

lemma micr_waits:
  assumes "ParseMessageHeader (msg_Header msg) = Inr info" and "acl_ok (gw_inClient g)"
    and "\<forall>e \<in> set evs. \<not> touches (mi_HopByHopID info) e"
  obtains ch g1 where "micrHandler (Some (pod # pods)) msg g =
      (MicrWait (podAddress pod) (msg_Header msg @ msg_Body msg) (mi_HopByHopID info) ch, g1)"
    and "gw_TotalRequests g1 = gw_TotalRequests g + 1" and "gw_TotalForwarded g1 = gw_TotalForwarded g + 1"
    and "gw_TotalResponses g1 = gw_TotalResponses g" and "gw_TotalErrors g1 = gw_TotalErrors g"
    and "case first_answer (mi_HopByHopID info) evs of
        Some a \<Rightarrow> \<exists>ms. acl_chans (gw_inClient (meanwhile evs g1)) ch = a # ms
      | None \<Rightarrow> acl_chans (gw_inClient (meanwhile evs g1)) ch = []"
proof -
  let ?h = "mi_HopByHopID info" and ?ch = "acl_made (gw_inClient g)" and ?req = "msg_Header msg @ msg_Body msg"
  have hdr: "20 \<le> length (msg_Header msg)" and id: "requestID msg = ?h"
    using parsed_id [OF assms(1)] by simp_all
  define c1 where "c1 = acl_StoreSession ?h ((gw_inClient g)\<lparr>acl_TotalRequests := acl_TotalRequests (gw_inClient g) + 1\<rparr>)"
  let ?g1 = "(IncrementTotalForwarded (IncrementTotalRequests g))\<lparr>gw_inClient := c1\<rparr>"
  have b: "acl_begin ?req (gw_inClient g) = (Some (?h, ?ch), c1)"
    using hdr id by (simp add: acl_begin_def c1_def requestID_def Let_def)
  have "gw_inClient (meanwhile evs ?g1) = fold (request_run acl_StoreSession acl_deliver acl_DeleteSession) evs c1"
    by (simp add: meanwhile_def)
  note c = session_channel [OF assms(2) b assms(3) this]
  have f: "micrHandler (Some (pod # pods)) msg g = (MicrWait (podAddress pod) ?req ?h ?ch, ?g1)"
    using micrHandler_forward [OF assms(1), of pod pods g] id by (simp add: c1_def)
  show thesis
    by (rule that [OF f _ _ _ _ c]) (simp_all add: Increment_defs)
qed

text \<open>
  C17. A request with a valid header and an instance known is forwarded: the handler hands the very
  bytes it received to that instance's address and waits under the id of the request. Provided that
  meanwhile no other request with the same id is begun or ended (answers go astray otherwise, as shown below),
  however many others come and go: the first message that carries the id is what the handler writes
  back, as long as there is none it goes on waiting, and when the time is over or the bytes could not
  be sent it writes nothing and counts an error. In each case the id is free again afterwards.
\<close>

theorem micr_forwarded:
  assumes "ParseMessageHeader (msg_Header msg) = Inr info" and "acl_ok (gw_inClient g)"
    and "\<forall>e \<in> set evs. \<not> touches (mi_HopByHopID info) e" and "h = mi_HopByHopID info"
  shows "\<exists>ch g1. micrHandler (Some (pod # pods)) msg g =
      (MicrWait (podAddress pod) (msg_Header msg @ msg_Body msg) h ch, g1) \<and>
    gw_TotalForwarded g1 = gw_TotalForwarded g + 1 \<and>
    (case first_answer h evs of
       Some a \<Rightarrow> \<exists>g2. micrEnd WakeResponse h ch (meanwhile evs g1) = Some ([a], g2) \<and>
         gw_TotalResponses g2 = gw_TotalResponses g + 1 \<and> gw_TotalErrors g2 = gw_TotalErrors g \<and>
         acl_sessions (gw_inClient g2) h = None
     | None \<Rightarrow> micrEnd WakeResponse h ch (meanwhile evs g1) = None) \<and>
    (\<exists>g2. micrEnd WakeTimeout h ch (meanwhile evs g1) = Some ([], g2) \<and>
       gw_TotalResponses g2 = gw_TotalResponses g \<and> gw_TotalErrors g2 = gw_TotalErrors g + 1 \<and>
       acl_sessions (gw_inClient g2) h = None) \<and>
    (\<forall>expired. \<exists>g2. micrUnsent h expired (meanwhile evs g1) = g2 \<and>
       gw_TotalResponses g2 = gw_TotalResponses g \<and> gw_TotalErrors g2 = gw_TotalErrors g + 1 \<and>
       acl_sessions (gw_inClient g2) h = None)"
proof -
  obtain ch g1 where 1: "micrHandler (Some (pod # pods)) msg g =
      (MicrWait (podAddress pod) (msg_Header msg @ msg_Body msg) h ch, g1)"
    "gw_TotalForwarded g1 = gw_TotalForwarded g + 1" "gw_TotalResponses g1 = gw_TotalResponses g"
    "gw_TotalErrors g1 = gw_TotalErrors g"
    and c: "case first_answer h evs of
        Some a \<Rightarrow> \<exists>ms. acl_chans (gw_inClient (meanwhile evs g1)) ch = a # ms
      | None \<Rightarrow> acl_chans (gw_inClient (meanwhile evs g1)) ch = []"
    unfolding assms(4) by (rule micr_waits [OF assms(1-3), of pod pods])
  note defs = micrEnd_def sendInternal_end_def acl_end_def acl_DeleteSession_def Increment_defs
  have "case first_answer h evs of
       Some a \<Rightarrow> \<exists>g2. micrEnd WakeResponse h ch (meanwhile evs g1) = Some ([a], g2) \<and>
         gw_TotalResponses g2 = gw_TotalResponses g + 1 \<and> gw_TotalErrors g2 = gw_TotalErrors g \<and>
         acl_sessions (gw_inClient g2) h = None
     | None \<Rightarrow> micrEnd WakeResponse h ch (meanwhile evs g1) = None"
    using c 1(3,4) by (auto simp: defs split: option.splits)
  moreover have "\<exists>g2. micrEnd WakeTimeout h ch (meanwhile evs g1) = Some ([], g2) \<and>
       gw_TotalResponses g2 = gw_TotalResponses g \<and> gw_TotalErrors g2 = gw_TotalErrors g + 1 \<and>
       acl_sessions (gw_inClient g2) h = None"
    using 1(3,4) by (simp add: defs)
  moreover have "\<exists>g2. micrUnsent h expired (meanwhile evs g1) = g2 \<and>
       gw_TotalResponses g2 = gw_TotalResponses g \<and> gw_TotalErrors g2 = gw_TotalErrors g + 1 \<and>
       acl_sessions (gw_inClient g2) h = None" for expired
    using 1(3,4) by (simp add: micrUnsent_def sendInternal_failed_def acl_sendFailed_def acl_DeleteSession_def
        Increment_defs Let_def)
  ultimately show ?thesis
    using 1(1,2) by blast
qed

text \<open>
  Without a known instance the agent gets no answer at all: the MICA that should report it has
  neither session id nor host nor realm, \<^verbatim>\<open>Marshal\<close> refuses it, and the handler only counts an error.
\<close>

theorem no_instance_no_answer:
  assumes "ParseMessageHeader (msg_Header msg) = Inr info"
  shows "micrHandler (Some []) msg g = (MicrDone [], IncrementTotalErrors (IncrementTotalRequests g))"
  by (rule micrHandler_no_instance [OF assms])

text \<open>
  C21. Hop-by-hop ids of different agents collide: when two connections have requests with the same id
  under way, the first answer that carries the id, whichever request it answers, is written to the
  connection whose request came last, and the handler of the first request finds nothing to write.
\<close>

theorem micr_collision:
  assumes "ParseMessageHeader (msg_Header m1) = Inr i1" and "ParseMessageHeader (msg_Header m2) = Inr i2"
    and "requestID m1 = h" and "requestID m2 = h"
    and "ParseMessageHeader (msg_Header rsp) = Inr ir" and "mi_HopByHopID ir = h"
    and "y2 = arrive (Some (q # qs)) second m2 (arrive (Some (p # ps)) first m1 y)" and "y3 = answered rsp y2"
  shows "\<exists>ch1 ch2 g. ms_waiting y3 = ms_waiting y @ [(first, h, ch1), (second, h, ch2)] \<and>
    micrEnd WakeResponse h ch1 (ms_gateway y3) = None \<and>
    micrEnd WakeResponse h ch2 (ms_gateway y3) = Some ([msg_Header rsp @ msg_Body rsp], g)"
proof -
  let ?ch = "acl_made (gw_inClient (ms_gateway y))"
  have w: "ms_waiting y3 = ms_waiting y @ [(first, h, ?ch), (second, h, Suc ?ch)]"
    using assms(3,4)
    by (simp add: assms(7,8) answered_def arrive_def micrHandler_forward [OF assms(1)] micrHandler_forward [OF assms(2)] acl_StoreSession_def)
  have c: "acl_chans (gw_inClient (ms_gateway y3)) ?ch = []"
      "acl_chans (gw_inClient (ms_gateway y3)) (Suc ?ch) = [msg_Header rsp @ msg_Body rsp]"
    using assms(3-6)
    by (simp_all add: assms(7,8) answered_def arrive_def micrHandler_forward [OF assms(1)] micrHandler_forward [OF assms(2)]
        acl_StoreSession_def acl_handleFn_def acl_deliver_def acl_FindSession_def)
  then show ?thesis
    using w by (simp add: micrEnd_def sendInternal_end_def acl_end_def)
qed

section \<open>Examples\<close>

definition example_message :: "u32 \<Rightarrow> bytes \<Rightarrow> Message" where
  "example_message h body =
     \<lparr>msg_Length = 20, msg_Header = marshalHeader ((gm_Header example_MICR)\<lparr>hdr_Length := 20, hdr_HopByHopID := h\<rparr>), msg_Body = body\<rparr>"

lemma example_message_parses:
  "\<exists>info. ParseMessageHeader (msg_Header (example_message h body)) = Inr info \<and> mi_HopByHopID info = h"
proof -
  let ?h = "(gm_Header example_MICR)\<lparr>hdr_Length := 20, hdr_HopByHopID := h\<rparr>"
  have "hdr_Version ?h = 1" "20 \<le> take_bit 24 (hdr_Length ?h)"
    by (simp_all add: example_MICR_def newMessage_def)
  then show ?thesis
    using ParseMessageHeader_marshalHeader [of ?h "[]"] by (simp add: example_message_def info_of_header_def)
qed

lemma example_message_id: "requestID (example_message h body) = h"
  using example_message_parses [of h body] parsed_id(2) [of "example_message h body"] by auto

definition example_pod :: Pod where
  "example_pod = \<lparr>pod_Ip = [49], pod_Port = 3868\<rparr>"

theorem micr_accounting_witness:
  "\<exists>g0 y. NewGateway (\<lambda>_. None) [] (Some example_gateway_config) = Built g0 \<and> micr_reach g0 y \<and> length (ms_waiting y) = 1 \<and>
     gss_TotalRequests (gw_GetStats (ms_gateway y)) = gss_TotalErrors (gw_GetStats (ms_gateway y)) + 1"
proof -
  obtain g0 where g: "NewGateway (\<lambda>_. None) [] (Some example_gateway_config) = Built g0"
    using example_gateway_built by blast
  let ?y0 = "\<lparr>ms_gateway = g0, ms_requests = [], ms_waiting = [], ms_written = [], ms_panicked = 0\<rparr>"
  let ?y = "arrive (Some []) 2 (example_message 8 []) (arrive (Some [example_pod]) 1 (example_message 7 []) ?y0)"
  have r: "micr_reach g0 ?y"
    by (rule mr_step [OF mr_step [OF mr_start ms_arrive] ms_arrive])
  obtain i1 i2 where i: "ParseMessageHeader (msg_Header (example_message 7 [])) = Inr i1" "ParseMessageHeader (msg_Header (example_message 8 [])) = Inr i2"
    using example_message_parses by blast
  have y: "length (ms_waiting ?y) = 1" "ms_panicked ?y = 0" "gw_TotalResponses (ms_gateway ?y) = 0"
    using NewGateway_counters [OF g]
    by (simp_all add: arrive_def micrHandler_forward [OF i(1)] micrHandler_no_instance [OF i(2)] Increment_defs)
  then have "gss_TotalRequests (gw_GetStats (ms_gateway ?y)) = gss_TotalErrors (gw_GetStats (ms_gateway ?y)) + 1"
    using micr_accounting [OF g r refl] by (simp add: gw_GetStats_def)
  then show ?thesis
    using g r y by blast
qed

theorem micr_answers_witness:
  "\<exists>g0 y. NewGateway (\<lambda>_. None) [] (Some example_gateway_config) = Built g0 \<and> micr_reach g0 y \<and>
     (\<exists>b. (1, 7, b) \<in> set (ms_written y) \<and> hopByHop b = 7 \<and> (1, 7) \<in> set (ms_requests y))"
proof -
  obtain g0 where g: "NewGateway (\<lambda>_. None) [] (Some example_gateway_config) = Built g0"
    using example_gateway_built by blast
  let ?m = "example_message 7 []"
  let ?y0 = "\<lparr>ms_gateway = g0, ms_requests = [], ms_waiting = [], ms_written = [], ms_panicked = 0\<rparr>"
  let ?y1 = "arrive (Some [example_pod]) 1 ?m ?y0"
  let ?ch = "acl_made (gw_inClient g0)"
  obtain i where i: "ParseMessageHeader (msg_Header ?m) = Inr i" "mi_HopByHopID i = 7"
    using example_message_parses by blast
  have w: "ms_waiting ?y1 = [] @ (1, 7, ?ch) # []"
    by (simp add: arrive_def micrHandler_forward [OF i(1)] example_message_id)
  then have w2: "ms_waiting (answered ?m ?y1) = [] @ (1, 7, ?ch) # []"
    by (simp add: answered_def)
  have "acl_chans (gw_inClient (ms_gateway (answered ?m ?y1))) ?ch = [msg_Header ?m @ msg_Body ?m]"
    using i by (simp add: answered_def arrive_def micrHandler_forward [OF i(1)] example_message_id acl_StoreSession_def acl_handleFn_def
        acl_deliver_def acl_FindSession_def)
  then obtain g where e: "micrEnd WakeResponse 7 ?ch (ms_gateway (answered ?m ?y1)) = Some ([msg_Header ?m @ msg_Body ?m], g)"
    by (simp add: micrEnd_def sendInternal_end_def acl_end_def)
  let ?y = "(answered ?m ?y1)\<lparr>ms_gateway := g, ms_waiting := [] @ [],
      ms_written := ms_written (answered ?m ?y1) @ map (\<lambda>b. (1, 7, b)) [msg_Header ?m @ msg_Body ?m]\<rparr>"
  have r: "micr_reach g0 ?y"
    by (rule mr_step [OF mr_step [OF mr_step [OF mr_start ms_arrive] ms_answer] ms_end [OF w2 e]])
  moreover have "(1, 7, msg_Header ?m @ msg_Body ?m) \<in> set (ms_written ?y)"
    by simp
  ultimately show ?thesis
    using g micr_answers [OF g r] by blast
qed

definition example_events :: "bytes request_event list" where
  "example_events = [Register 8, Deliver 7 [5], Finish 8]"

theorem micr_forwarded_witness:
  "\<exists>g ch g1 g2 g3. micrHandler (Some [example_pod]) (example_message 7 [1]) (g\<lparr>gw_inClient := example_acl\<rparr>) =
      (MicrWait (podAddress example_pod) (msg_Header (example_message 7 [1]) @ [1]) 7 ch, g1) \<and>
    micrEnd WakeResponse 7 ch (meanwhile example_events g1) = Some ([[5]], g2) \<and>
    micrEnd WakeTimeout 7 ch (meanwhile example_events g1) = Some ([], g3)"
proof -
  obtain i where i: "ParseMessageHeader (msg_Header (example_message 7 [1])) = Inr i" "7 = mi_HopByHopID i"
    using example_message_parses by metis
  fix g :: GatewayState
  have ok: "acl_ok (gw_inClient (g\<lparr>gw_inClient := example_acl\<rparr>))"
    by (simp add: acl_ok_def example_acl_def)
  have n: "\<forall>e \<in> set example_events. \<not> touches (mi_HopByHopID i) e" and a: "first_answer 7 example_events = Some [5]"
    by (simp_all add: example_events_def i(2) [symmetric])
  have b: "msg_Body (example_message 7 [1]) = [1]"
    by (simp add: example_message_def)
  show ?thesis
    using micr_forwarded [OF i(1) ok n i(2), of example_pod "[]"] unfolding a option.case b by blast
qed

theorem no_instance_no_answer_witness:
  "\<exists>g. NewGateway (\<lambda>_. None) [] (Some example_gateway_config) = Built g \<and>
     micrHandler (Some []) (example_message 7 []) g = (MicrDone [], IncrementTotalErrors (IncrementTotalRequests g))"
  using no_instance_no_answer [of "example_message 7 []"] example_message_parses [of 7 "[]"] example_gateway_built by blast

theorem micr_collision_witness:
  "\<exists>(y3 :: micr_sys) ch1 ch2 g. ms_waiting y3 = [(1, 7, ch1), (2, 7, ch2)] \<and> micrEnd WakeResponse 7 ch1 (ms_gateway y3) = None \<and>
     micrEnd WakeResponse 7 ch2 (ms_gateway y3) = Some ([msg_Header (example_message 7 [9]) @ msg_Body (example_message 7 [9])], g)"
proof -
  obtain g0 where g: "NewGateway (\<lambda>_. None) [] (Some example_gateway_config) = Built g0"
    using example_gateway_built by blast
  let ?y0 = "\<lparr>ms_gateway = g0, ms_requests = [], ms_waiting = [], ms_written = [], ms_panicked = 0\<rparr>"
  obtain i1 i2 i3 where i: "ParseMessageHeader (msg_Header (example_message 7 [1])) = Inr i1"
      "ParseMessageHeader (msg_Header (example_message 7 [2])) = Inr i2"
      "ParseMessageHeader (msg_Header (example_message 7 [9])) = Inr i3" "mi_HopByHopID i3 = 7"
    using example_message_parses by meson
  show ?thesis
    using micr_collision [OF i(1,2) example_message_id example_message_id i(3,4) refl refl,
        of example_pod "[]" 2 example_pod "[]" 1 ?y0]
    unfolding micr_sys.simps append_Nil by blast
qed

end
