(* ===== verification/App_Config.thy ===== *)
theory App_Config
  imports Complex_Main Gateway
begin

text \<open>
  The configuration of the gateway program: the values \<^verbatim>\<open>setDefaults\<close> gives, what \<^verbatim>\<open>Load\<close> takes from the
  environment and what it refuses (\<^verbatim>\<open>internal/config/config.go\<close>), and how \<^verbatim>\<open>createGatewayConfig\<close> in
  \<^verbatim>\<open>cmd/gateway/main.go\<close> turns it into the configuration of the gateway. Reading files and variables is
  the business of the libraries \<^verbatim>\<open>viper\<close> and \<^verbatim>\<open>envconfig\<close>; the model starts with the values they deliver.
  Times are in nanoseconds, \<^verbatim>\<open>float64\<close> values are rationals (the configuration knows no others).

  The lemmas show that the defaults construct a gateway, and which accepted configurations do not.
\<close>

section \<open>The configuration\<close>

record gateway_section =
  ga_OriginHost :: gostring
  ga_OriginRealm :: gostring
  ga_ProductName :: gostring
  ga_VendorID :: u32
  ga_SessionTimeout :: int
  ga_EnableReqLog :: bool
  ga_EnableRespLog :: bool
  ga_StatsInterval :: int

record server_section =
  se_ListenAddr :: gostring
  se_MaxConnections :: int
  se_ReadTimeout :: int
  se_WriteTimeout :: int
  se_WatchdogInterval :: int
  se_WatchdogTimeout :: int
  se_MaxMessageSize :: int
  se_SendChannelSize :: int
  se_RecvChannelSize :: int
  se_HandleWatchdog :: bool

record dra_entry =
  de_Name :: gostring
  de_Host :: gostring
  de_Port :: int
  de_Priority :: int
  de_Weight :: int

record dra_section =
  dr_DRAs :: "dra_entry list"
  dr_Supported :: bool
  dr_ConnectionsPerDRA :: int
  dr_ConnectTimeout :: int
  dr_CERTimeout :: int
  dr_DWRInterval :: int
  dr_DWRTimeout :: int
  dr_MaxDWRFailures :: int
  dr_HealthCheckInterval :: int
  dr_ReconnectInterval :: int
  dr_MaxReconnectDelay :: int
  dr_ReconnectBackoff :: rat
  dr_SendBufferSize :: int
  dr_RecvBufferSize :: int

record client_section =
  cs_DialTimeout :: int
  cs_SendTimeout :: int
  cs_CERTimeout :: int
  cs_DWRInterval :: int
  cs_DWRTimeout :: int
  cs_MaxDWRFailures :: int
  cs_AuthAppIDs :: "u32 list"
  cs_SendBufferSize :: int
  cs_RecvBufferSize :: int
  cs_ReconnectEnabled :: bool
  cs_ReconnectInterval :: int
  cs_MaxReconnectDelay :: int
  cs_ReconnectBackoff :: rat
  cs_HealthCheckInterval :: int

record metrics_section =
  me_Enabled :: bool
  me_Port :: int
  me_Path :: gostring

record governance_section =
  go_Enabled :: bool
  go_URL :: gostring
  go_ServiceName :: gostring
  go_PodName :: gostring
  go_Subscriptions :: "gostring list"
  go_FailOnError :: bool
  go_ServiceIP :: gostring
  go_ServicePort :: int
  go_GovBackendPort :: int

text \<open>Of the logging section only what \<^verbatim>\<open>Validate\<close> reads.\<close>

record AppConfig =
  co_Gateway :: gateway_section
  co_Server :: server_section
  co_DRAPool :: dra_section
  co_Client :: client_section
  co_LogLevel :: gostring
  co_LogFormat :: gostring
  co_Metrics :: metrics_section
  co_Governance :: governance_section

section \<open>Validation\<close>

text \<open>The section whose check failed, for an agent its index, and the message.\<close>

datatype cfg_error = CfgErr string string | CfgDRA nat string

text \<open>The first of a list of checks that fails; each is written as the condition that refuses.\<close>

fun firstFailure :: "(bool \<times> string) list \<Rightarrow> string option" where
  "firstFailure [] = None"
| "firstFailure ((bad, msg) # checks) = (if bad then Some msg else firstFailure checks)"

definition cfg_Gateway_Validate :: "gateway_section \<Rightarrow> string option" where
  "cfg_Gateway_Validate c = firstFailure
     [(ga_OriginHost c = [], ''originHost is required''),
      (ga_OriginRealm c = [], ''originRealm is required''),
      (ga_ProductName c = [], ''productName is required''),
      (ga_SessionTimeout c < 0, ''sessionTimeout must be non-negative''),
      (ga_StatsInterval c < 0, ''statsInterval must be non-negative'')]"

definition cfg_Server_Validate :: "server_section \<Rightarrow> string option" where
  "cfg_Server_Validate c = firstFailure
     [(se_ListenAddr c = [], ''listenAddr is required''),
      (se_MaxConnections c < 1, ''maxConnections must be at least 1''),
      (se_ReadTimeout c < 0, ''readTimeout must be non-negative''),
      (se_WriteTimeout c < 0, ''writeTimeout must be non-negative''),
      (se_WatchdogInterval c < 0, ''watchdogInterval must be non-negative''),
      (se_WatchdogTimeout c < 0, ''watchdogTimeout must be non-negative''),
      (se_MaxMessageSize c < 1, ''maxMessageSize must be at least 1''),
      (se_SendChannelSize c < 1, ''sendChannelSize must be at least 1''),
      (se_RecvChannelSize c < 1, ''recvChannelSize must be at least 1'')]"

definition cfg_DRA_Validate :: "dra_entry \<Rightarrow> string option" where
  "cfg_DRA_Validate c = firstFailure
     [(de_Name c = [], ''name is required''),
      (de_Host c = [], ''host is required''),
      (de_Port c < 1 \<or> de_Port c > 65535, ''port must be between 1 and 65535''),
      (de_Priority c < 1, ''priority must be at least 1''),
      (de_Weight c < 1, ''weight must be at least 1'')]"

fun validateDRAs :: "nat \<Rightarrow> dra_entry list \<Rightarrow> cfg_error option" where
  "validateDRAs i [] = None"
| "validateDRAs i (dra # dras) =
     (case cfg_DRA_Validate dra of Some msg \<Rightarrow> Some (CfgDRA i msg) | None \<Rightarrow> validateDRAs (Suc i) dras)"

definition cfg_DRAPool_Validate :: "dra_section \<Rightarrow> cfg_error option" where
  "cfg_DRAPool_Validate c =
     (if dr_Supported c \<and> dr_DRAs c = [] then
        Some (CfgErr ''draPool'' ''at least one DRA is required when DRA support is enabled'')
      else (case validateDRAs 0 (dr_DRAs c) of
              Some err \<Rightarrow> Some err
            | None \<Rightarrow> map_option (CfgErr ''draPool'') (firstFailure
                [(dr_ConnectionsPerDRA c < 1, ''connectionsPerDRA must be at least 1''),
                 (dr_ConnectTimeout c < 0, ''connectTimeout must be non-negative''),
                 (dr_CERTimeout c < 0, ''cerTimeout must be non-negative''),
                 (dr_DWRInterval c < 0, ''dwrInterval must be non-negative''),
                 (dr_DWRTimeout c < 0, ''dwrTimeout must be non-negative''),
                 (dr_MaxDWRFailures c < 1, ''maxDWRFailures must be at least 1''),
                 (dr_HealthCheckInterval c < 0, ''healthCheckInterval must be non-negative''),
                 (dr_ReconnectInterval c < 0, ''reconnectInterval must be non-negative''),
                 (dr_MaxReconnectDelay c < 0, ''maxReconnectDelay must be non-negative''),
                 (dr_ReconnectBackoff c \<le> 0, ''reconnectBackoff must be positive''),
                 (dr_SendBufferSize c < 1, ''sendBufferSize must be at least 1''),
                 (dr_RecvBufferSize c < 1, ''recvBufferSize must be at least 1'')])))"

definition cfg_Client_Validate :: "client_section \<Rightarrow> string option" where
  "cfg_Client_Validate c = firstFailure
     ([(cs_DialTimeout c < 0, ''dialTimeout must be non-negative''),
       (cs_SendTimeout c < 0, ''sendTimeout must be non-negative''),
       (cs_CERTimeout c < 0, ''cerTimeout must be non-negative''),
       (cs_DWRInterval c < 0, ''dwrInterval must be non-negative''),
       (cs_DWRTimeout c < 0, ''dwrTimeout must be non-negative''),
       (cs_MaxDWRFailures c < 1, ''maxDWRFailures must be at least 1''),
       (cs_SendBufferSize c < 1, ''sendBufferSize must be at least 1''),
       (cs_RecvBufferSize c < 1, ''recvBufferSize must be at least 1'')] @
      (if cs_ReconnectEnabled c then
         [(cs_ReconnectInterval c < 0, ''reconnectInterval must be non-negative''),
          (cs_MaxReconnectDelay c < 0, ''maxReconnectDelay must be non-negative''),
          (cs_ReconnectBackoff c \<le> 0, ''reconnectBackoff must be positive'')] else []) @
      [(cs_HealthCheckInterval c < 0, ''healthCheckInterval must be non-negative'')])"

definition cfg_Logging_Validate :: "gostring \<Rightarrow> gostring \<Rightarrow> string option" where
  "cfg_Logging_Validate level form = firstFailure
     [(level \<notin> set (map gostr [''debug'', ''info'', ''warn'', ''error'']), ''level must be one of: debug, info, warn, error''),
      (form \<notin> set (map gostr [''json'', ''text'']), ''format must be one of: json, text'')]"

text \<open>\<^verbatim>\<open>c.Path[0]\<close> is only read when the path is not empty.\<close>

definition cfg_Metrics_Validate :: "metrics_section \<Rightarrow> string option" where
  "cfg_Metrics_Validate c =
     (if \<not> me_Enabled c then None
      else firstFailure
        [(me_Port c < 1 \<or> me_Port c > 65535, ''port must be between 1 and 65535''),
         (me_Path c = [], ''path is required when metrics is enabled''),
         (me_Path c ! 0 \<noteq> 47, ''path must start with /'')])"

definition cfg_Governance_Validate :: "governance_section \<Rightarrow> string option" where
  "cfg_Governance_Validate c =
     (if \<not> go_Enabled c then None
      else firstFailure
        [(go_URL c = [], ''url is required when governance is enabled''),
         (go_ServiceName c = [], ''serviceName is required when governance is enabled'')])"

definition orElse :: "'e option \<Rightarrow> 'e option \<Rightarrow> 'e option" where
  "orElse a b = (case a of None \<Rightarrow> b | Some e \<Rightarrow> Some e)"

definition cfg_Validate :: "AppConfig \<Rightarrow> cfg_error option" where
  "cfg_Validate c =
     orElse (map_option (CfgErr ''gateway'') (cfg_Gateway_Validate (co_Gateway c)))
    (orElse (map_option (CfgErr ''server'') (cfg_Server_Validate (co_Server c)))
    (orElse (cfg_DRAPool_Validate (co_DRAPool c))
    (orElse (map_option (CfgErr ''client'') (cfg_Client_Validate (co_Client c)))
    (orElse (map_option (CfgErr ''logging'') (cfg_Logging_Validate (co_LogLevel c) (co_LogFormat c)))
    (orElse (map_option (CfgErr ''metrics'') (cfg_Metrics_Validate (co_Metrics c)))
            (map_option (CfgErr ''governance'') (cfg_Governance_Validate (co_Governance c))))))))"

section \<open>Defaults and environment\<close>

definition seconds :: "int \<Rightarrow> int" where
  "seconds n = n * 1000000000"

definition defaultAppConfig :: AppConfig where
  "defaultAppConfig =
     \<lparr>co_Gateway = \<lparr>ga_OriginHost = gostr ''diameter-gw.example.com'', ga_OriginRealm = gostr ''example.com'',
        ga_ProductName = gostr ''Diameter-Gateway'', ga_VendorID = 10415, ga_SessionTimeout = seconds 30,
        ga_EnableReqLog = False, ga_EnableRespLog = False, ga_StatsInterval = seconds 60\<rparr>,
      co_Server = \<lparr>se_ListenAddr = gostr ''0.0.0.0:3868'', se_MaxConnections = 1000, se_ReadTimeout = seconds 30,
        se_WriteTimeout = seconds 10, se_WatchdogInterval = seconds 30, se_WatchdogTimeout = seconds 10,
        se_MaxMessageSize = 65535, se_SendChannelSize = 100, se_RecvChannelSize = 1000, se_HandleWatchdog = True\<rparr>,
      co_DRAPool = \<lparr>
        dr_DRAs = [\<lparr>de_Name = gostr ''DRA-1'', de_Host = gostr ''127.0.0.1'', de_Port = 3869, de_Priority = 1, de_Weight = 100\<rparr>,
          \<lparr>de_Name = gostr ''DRA-2'', de_Host = gostr ''127.0.0.1'', de_Port = 3870, de_Priority = 2, de_Weight = 100\<rparr>],
        dr_Supported = True, dr_ConnectionsPerDRA = 1, dr_ConnectTimeout = seconds 10, dr_CERTimeout = seconds 5,
        dr_DWRInterval = seconds 30, dr_DWRTimeout = seconds 10, dr_MaxDWRFailures = 3, dr_HealthCheckInterval = seconds 10,
        dr_ReconnectInterval = seconds 5, dr_MaxReconnectDelay = seconds 30, dr_ReconnectBackoff = 3 / 2,
        dr_SendBufferSize = 100, dr_RecvBufferSize = 100\<rparr>,
      co_Client = \<lparr>cs_DialTimeout = seconds 5, cs_SendTimeout = seconds 10, cs_CERTimeout = seconds 5,
        cs_DWRInterval = seconds 30, cs_DWRTimeout = seconds 10, cs_MaxDWRFailures = 3,
        cs_AuthAppIDs = [16777251, 16777252], cs_SendBufferSize = 1000, cs_RecvBufferSize = 1000,
        cs_ReconnectEnabled = False, cs_ReconnectInterval = seconds 2, cs_MaxReconnectDelay = seconds 30,
        cs_ReconnectBackoff = 3 / 2, cs_HealthCheckInterval = seconds 10\<rparr>,
      co_LogLevel = gostr ''info'', co_LogFormat = gostr ''json'',
      co_Metrics = \<lparr>me_Enabled = True, me_Port = 9091, me_Path = gostr ''/metrics''\<rparr>,
      co_Governance = \<lparr>go_Enabled = False, go_URL = [], go_ServiceName = gostr ''diam-gw'', go_PodName = [],
        go_Subscriptions = [gostr ''eir-diameter''], go_FailOnError = False, go_ServiceIP = [], go_ServicePort = 0,
        go_GovBackendPort = 0\<rparr>\<rparr>"

record EnvConfigs =
  en_TargetGov :: gostring
  en_GovBackendPort :: int
  en_Governance :: bool
  en_GovFail :: bool
  en_ServiceIP :: gostring
  en_ServicePort :: int

definition EnvDefaultValues :: "gostring \<Rightarrow> EnvConfigs" where
  "EnvDefaultValues localIP =
     \<lparr>en_TargetGov = gostr ''127.0.0.1:18000'', en_GovBackendPort = 2345, en_Governance = True, en_GovFail = True,
      en_ServiceIP = localIP, en_ServicePort = 3868\<rparr>"

definition startsWith :: "gostring \<Rightarrow> gostring \<Rightarrow> bool" where
  "startsWith p s \<longleftrightarrow> take (length p) s = p"

definition governanceURL :: "gostring \<Rightarrow> gostring" where
  "governanceURL target =
     (if \<not> startsWith (gostr ''http://'') target \<and> \<not> startsWith (gostr ''https://'') target then gostr ''http://'' @ target else target)"

text \<open>\<^verbatim>\<open>Load\<close> once the files and the variables are read.\<close>

definition finishLoad :: "EnvConfigs \<Rightarrow> AppConfig \<Rightarrow> (cfg_error, AppConfig) result" where
  "finishLoad env c =
     (let gov = (co_Governance c)\<lparr>go_Enabled := en_Governance env, go_FailOnError := en_GovFail env,
            go_ServiceIP := en_ServiceIP env, go_ServicePort := en_ServicePort env, go_GovBackendPort := en_GovBackendPort env\<rparr>;
          gov' = (if en_TargetGov env \<noteq> [] then gov\<lparr>go_URL := governanceURL (en_TargetGov env)\<rparr> else gov);
          c' = c\<lparr>co_Governance := gov'\<rparr>
      in case cfg_Validate c' of Some err \<Rightarrow> Inl err | None \<Rightarrow> Inr c')"

section \<open>The configuration of the gateway\<close>

definition draServerConfig :: "dra_entry \<Rightarrow> DRAServerConfig" where
  "draServerConfig d = \<lparr>ds_Name = de_Name d, ds_Host = de_Host d, ds_Port = de_Port d, ds_Priority = de_Priority d, ds_Weight = de_Weight d\<rparr>"

text \<open>
  The times and sizes that the model of the gateway has no field for are dropped. The sizes of channels are
  natural numbers: that \<^verbatim>\<open>make\<close> panics on a channel larger than the memory is not modelled.
\<close>

definition createGatewayConfig :: "AppConfig \<Rightarrow> GatewayConfig" where
  "createGatewayConfig c =
     (let ga = co_Gateway c; se = co_Server c; dr = co_DRAPool c; cl = co_Client c in
      \<lparr>gwc_InServerConfig = Some
         \<lparr>svc_ListenAddress = se_ListenAddr se, svc_MaxConnections = se_MaxConnections se,
          svc_ConnectionConfig =
            \<lparr>scf_MaxMessageSize = se_MaxMessageSize se, scf_SendChannelSize = nat (se_SendChannelSize se),
             scf_RecvChannelSize = nat (se_RecvChannelSize se), scf_OriginHost = ga_OriginHost ga,
             scf_OriginRealm = ga_OriginRealm ga, scf_ProductName = ga_ProductName ga, scf_VendorID = ga_VendorID ga,
             scf_HandleWatchdog = se_HandleWatchdog se\<rparr>\<rparr>,
       gwc_InClientConfig = Some
         \<lparr>pcf_OriginHost = ga_OriginHost ga, pcf_OriginRealm = ga_OriginRealm ga, pcf_ProductName = ga_ProductName ga,
          pcf_VendorID = ga_VendorID ga, pcf_DialTimeout = cs_DialTimeout cl, pcf_SendTimeout = cs_SendTimeout cl,
          pcf_DWRInterval = cs_DWRInterval cl, pcf_DWRTimeout = cs_DWRTimeout cl, pcf_MaxDWRFailures = cs_MaxDWRFailures cl,
          pcf_ReconnectEnabled = cs_ReconnectEnabled cl, pcf_ReconnectInterval = cs_ReconnectInterval cl,
          pcf_MaxReconnectDelay = cs_MaxReconnectDelay cl, pcf_BackoffOK = (cs_ReconnectBackoff cl \<ge> 1),
          pcf_SendBufferSize = nat (cs_SendBufferSize cl), pcf_RecvBufferSize = nat (cs_RecvBufferSize cl),
          pcf_AuthAppIDs = cs_AuthAppIDs cl, pcf_AcctAppIDs = [], pcf_IdleTimeout = 0, pcf_MaxConnLifetime = 0\<rparr>,
       gwc_OutServerConfig = None, gwc_OutServerSupported = False, gwc_DRASupported = dr_Supported dr,
       gwc_DRAPoolConfig = Some
         \<lparr>dpc_DRAs = map draServerConfig (dr_DRAs dr), dpc_LocalAddr = [], dpc_LocalPortMin = 0, dpc_LocalPortMax = 0,
          dpc_OriginHost = ga_OriginHost ga, dpc_OriginRealm = ga_OriginRealm ga, dpc_ProductName = ga_ProductName ga,
          dpc_VendorID = ga_VendorID ga, dpc_AuthAppIDs = [], dpc_AcctAppIDs = [],
          dpc_ConnectionsPerDRA = dr_ConnectionsPerDRA dr, dpc_DWRInterval = dr_DWRInterval dr,
          dpc_DWRTimeout = dr_DWRTimeout dr, dpc_MaxDWRFailures = dr_MaxDWRFailures dr,
          dpc_ReconnectInterval = dr_ReconnectInterval dr, dpc_MaxReconnectDelay = dr_MaxReconnectDelay dr,
          dpc_SendBufferSize = nat (dr_SendBufferSize dr), dpc_RecvBufferSize = nat (dr_RecvBufferSize dr)\<rparr>,
       gwc_OriginHost = ga_OriginHost ga, gwc_OriginRealm = ga_OriginRealm ga, gwc_ProductName = ga_ProductName ga,
       gwc_VendorID = ga_VendorID ga, gwc_SessionTimeout = ga_SessionTimeout ga\<rparr>)"

section \<open>Which configurations start\<close>

lemma firstFailure_None: "firstFailure checks = None \<longleftrightarrow> (\<forall>(bad, msg) \<in> set checks. \<not> bad)"
  by (induction checks rule: firstFailure.induct) auto

lemma orElse_None [simp]: "orElse a b = None \<longleftrightarrow> a = None \<and> b = None"
  by (simp add: orElse_def split: option.split)

lemma validateDRAs_None: "validateDRAs i dras = None \<longleftrightarrow> (\<forall>d \<in> set dras. cfg_DRA_Validate d = None)"
  by (induction i dras rule: validateDRAs.induct) (auto split: option.split)

lemma checkDRAs_None:
  "checkDRAs names ds = None \<longleftrightarrow> distinct (map ds_Name ds) \<and> names \<inter> ds_Name ` set ds = {} \<and> (\<forall>d \<in> set ds. 0 < ds_Priority d)"
  by (induction names ds rule: checkDRAs.induct) auto

lemma createPools_total:
  "(\<exists>ps. createPools parseIP config ds = Inr ps) \<longleftrightarrow> (\<forall>d \<in> set ds. DRAConfig_Validate parseIP (poolConfig config d) = None)"
  by (induction ds) (auto simp: NewConnectionPool_def split: option.splits sum.splits)

lemma NewDRAPool_total:
  "(\<exists>p. NewDRAPool parseIP ds config = Inr p) \<longleftrightarrow>
     validateDRAPoolConfig config = None \<and> (\<forall>d \<in> set ds. DRAConfig_Validate parseIP (poolConfig config d) = None)"
  using createPools_total [of parseIP config ds] by (auto simp: NewDRAPool_def split: option.splits sum.splits)

text \<open>What \<^verbatim>\<open>Validate\<close> guarantees of the sections that the constructors look at again.\<close>

lemma accepted_sections:
  assumes "cfg_Validate c = None"
  shows "ga_OriginHost (co_Gateway c) \<noteq> [] \<and> ga_OriginRealm (co_Gateway c) \<noteq> [] \<and> ga_ProductName (co_Gateway c) \<noteq> []"
    and "0 < cs_MaxDWRFailures (co_Client c)"
    and "dr_Supported (co_DRAPool c) \<Longrightarrow> dr_DRAs (co_DRAPool c) \<noteq> []"
    and "d \<in> set (dr_DRAs (co_DRAPool c)) \<Longrightarrow> de_Host d \<noteq> [] \<and> 0 < de_Port d \<and> de_Port d \<le> 65535 \<and> 0 < de_Priority d"
    and "0 < dr_ConnectionsPerDRA (co_DRAPool c) \<and> 0 < dr_MaxDWRFailures (co_DRAPool c)"
  using assms
  by (auto simp: cfg_Validate_def cfg_Gateway_Validate_def cfg_Client_Validate_def cfg_DRAPool_Validate_def validateDRAs_None
      cfg_DRA_Validate_def firstFailure_None split: if_splits option.splits)

lemma accepted_builds:
  assumes "cfg_Validate c = None" and "mset ds = mset (map draServerConfig (dr_DRAs (co_DRAPool c)))"
  shows
  "(\<exists>g. NewGateway parseIP ds (Some (createGatewayConfig c)) = Built g) \<longleftrightarrow>
      0 < cs_DialTimeout (co_Client c) \<and> 0 < cs_DWRTimeout (co_Client c) \<and>
      cs_DWRTimeout (co_Client c) < cs_DWRInterval (co_Client c) \<and> 1 \<le> cs_ReconnectBackoff (co_Client c) \<and>
      (if dr_Supported (co_DRAPool c) then distinct (map de_Name (dr_DRAs (co_DRAPool c))) \<and>
         0 < dr_DWRTimeout (co_DRAPool c) \<and> dr_DWRTimeout (co_DRAPool c) < dr_DWRInterval (co_DRAPool c) else True)"
proof -
  note ok = accepted_sections [OF assms(1)]
  let ?dras = "dr_DRAs (co_DRAPool c)" and ?d = "the (gwc_DRAPoolConfig (createGatewayConfig c))"
  have pool: "(\<exists>p. NewDRAPool parseIP ds ?d = Inr p) \<longleftrightarrow> distinct (map de_Name ?dras) \<and>
      0 < dr_DWRTimeout (co_DRAPool c) \<and> dr_DWRTimeout (co_DRAPool c) < dr_DWRInterval (co_DRAPool c)"
    if "dr_Supported (co_DRAPool c)"
  proof -
    have ds: "set ds = draServerConfig ` set ?dras"
      using mset_eq_setD [OF assms(2)] by simp
    have names: "map (ds_Name \<circ> draServerConfig) ?dras = map de_Name ?dras"
      by (simp add: draServerConfig_def o_def)
    have valid: "validateDRAPoolConfig ?d = None \<longleftrightarrow> distinct (map de_Name ?dras)"
      using ok(1,3,4,5) that names
      by (auto simp: validateDRAPoolConfig_def createGatewayConfig_def Let_def checkDRAs_None names)
         (auto simp: draServerConfig_def)
    have "DRAConfig_Validate parseIP (poolConfig ?d (draServerConfig d)) = None \<longleftrightarrow>
        0 < dr_DWRTimeout (co_DRAPool c) \<and> dr_DWRTimeout (co_DRAPool c) < dr_DWRInterval (co_DRAPool c)" if "d \<in> set ?dras" for d
      using ok(1,5) ok(4) [OF that] by (auto simp: DRAConfig_Validate_def poolConfig_def createGatewayConfig_def Let_def draServerConfig_def)
    then show ?thesis
      using ok(3) [OF that] by (auto simp: NewDRAPool_total valid ds)
  qed
  have client: "PoolConfig_Validate (the (gwc_InClientConfig (createGatewayConfig c))) = None \<longleftrightarrow>
      0 < cs_DialTimeout (co_Client c) \<and> 0 < cs_DWRTimeout (co_Client c) \<and>
      cs_DWRTimeout (co_Client c) < cs_DWRInterval (co_Client c) \<and> 1 \<le> cs_ReconnectBackoff (co_Client c)"
    using ok(1,2) by (auto simp: PoolConfig_Validate_def createGatewayConfig_def Let_def)
  have own: "?d\<lparr>dpc_OriginHost := gwc_OriginHost (createGatewayConfig c), dpc_OriginRealm := gwc_OriginRealm (createGatewayConfig c),
      dpc_ProductName := gwc_ProductName (createGatewayConfig c), dpc_VendorID := gwc_VendorID (createGatewayConfig c)\<rparr> = ?d"
    by (simp add: createGatewayConfig_def Let_def)
  have sel: "gwc_InClientConfig (createGatewayConfig c) = Some (the (gwc_InClientConfig (createGatewayConfig c)))"
      "gwc_DRAPoolConfig (createGatewayConfig c) = Some ?d" "gwc_DRASupported (createGatewayConfig c) = dr_Supported (co_DRAPool c)"
      "gwc_OriginHost (createGatewayConfig c) \<noteq> []" "gwc_OriginRealm (createGatewayConfig c) \<noteq> []"
    using ok(1) by (simp_all add: createGatewayConfig_def Let_def)
  show ?thesis
  proof -
    obtain cl d where cd: "gwc_InClientConfig (createGatewayConfig c) = Some cl" "gwc_DRAPoolConfig (createGatewayConfig c) = Some d"
      using sel by blast
    show ?thesis
      using pool client own sel(3-5) unfolding NewGateway_built_iff cd option.sel option.inject by simp
  qed
qed

text \<open>
  C38. What an accepted configuration does: for every configuration that \<^verbatim>\<open>Load\<close> accepts, the gateway
  never returns an error from its constructor; it is built exactly if the client's dial timeout and watchdog
  timeout are positive, the watchdog timeouts are below their intervals, the backoff is at least 1 and, with DRA
  support, the agents have different names; otherwise the program panics, although the configuration was accepted.
\<close>

theorem accepted_config_outcomes:
  assumes "cfg_Validate c = None" and "mset ds = mset (map draServerConfig (dr_DRAs (co_DRAPool c)))"
  shows "((\<exists>g. NewGateway parseIP ds (Some (createGatewayConfig c)) = Built g) \<longleftrightarrow>
      0 < cs_DialTimeout (co_Client c) \<and> 0 < cs_DWRTimeout (co_Client c) \<and>
      cs_DWRTimeout (co_Client c) < cs_DWRInterval (co_Client c) \<and> 1 \<le> cs_ReconnectBackoff (co_Client c) \<and>
      (if dr_Supported (co_DRAPool c) then distinct (map de_Name (dr_DRAs (co_DRAPool c))) \<and>
         0 < dr_DWRTimeout (co_DRAPool c) \<and> dr_DWRTimeout (co_DRAPool c) < dr_DWRInterval (co_DRAPool c) else True)) \<and>
    (\<nexists>e. NewGateway parseIP ds (Some (createGatewayConfig c)) = Failed e)"
  using accepted_builds [OF assms, of parseIP] NewGateway_failed_iff [of parseIP ds "createGatewayConfig c"]
    accepted_sections(1) [OF assms(1)]
  by (simp add: createGatewayConfig_def Let_def)

lemma default_accepted: "cfg_Validate defaultAppConfig = None"
  by (simp add: cfg_Validate_def cfg_Gateway_Validate_def cfg_Server_Validate_def cfg_DRAPool_Validate_def cfg_DRA_Validate_def
      cfg_Client_Validate_def cfg_Logging_Validate_def cfg_Metrics_Validate_def cfg_Governance_Validate_def defaultAppConfig_def
      seconds_def gostr_def)

theorem accepted_config_outcomes_witness:
  "\<exists>g. NewGateway (\<lambda>_. None) (map draServerConfig (dr_DRAs (co_DRAPool defaultAppConfig))) (Some (createGatewayConfig defaultAppConfig)) = Built g"
  using accepted_config_outcomes [OF default_accepted refl, of "\<lambda>_. None"]
  by (simp add: defaultAppConfig_def seconds_def gostr_def)

text \<open>
  The defaults start: with no file and no variable set, \<^verbatim>\<open>Load\<close> accepts the configuration, with the URL of the
  governance manager completed to \<^verbatim>\<open>http://127.0.0.1:18000\<close>, and the gateway is built from it.
\<close>

theorem default_config_starts:
  "\<exists>c g. finishLoad (EnvDefaultValues localIP) defaultAppConfig = Inr c \<and>
     go_URL (co_Governance c) = gostr ''http://127.0.0.1:18000'' \<and>
     NewGateway parseIP (map draServerConfig (dr_DRAs (co_DRAPool c))) (Some (createGatewayConfig c)) = Built g"
proof -
  let ?c = "defaultAppConfig\<lparr>co_Governance := (co_Governance defaultAppConfig)\<lparr>go_Enabled := True, go_FailOnError := True,
      go_ServiceIP := localIP, go_ServicePort := 3868, go_GovBackendPort := 2345, go_URL := gostr ''http://127.0.0.1:18000''\<rparr>\<rparr>"
  have "governanceURL (gostr ''127.0.0.1:18000'') = gostr ''http://127.0.0.1:18000''" "gostr ''127.0.0.1:18000'' \<noteq> []"
    by (simp_all add: governanceURL_def startsWith_def gostr_def)
  moreover have v: "cfg_Validate ?c = None"
    using default_accepted by (simp add: cfg_Validate_def cfg_Governance_Validate_def defaultAppConfig_def gostr_def)
  ultimately have "finishLoad (EnvDefaultValues localIP) defaultAppConfig = Inr ?c"
    by (simp add: finishLoad_def EnvDefaultValues_def Let_def)
  moreover have "\<exists>g. NewGateway parseIP (map draServerConfig (dr_DRAs (co_DRAPool ?c))) (Some (createGatewayConfig ?c)) = Built g"
    by (simp add: accepted_builds [OF v]) (simp add: defaultAppConfig_def seconds_def gostr_def)
  ultimately show ?thesis
    by auto
qed

end
