(* ===== verification/Sim_Routing.thy ===== *)
theory Sim_Routing
  imports Go_Strings Server_Conn
begin

text \<open>
  The configuration, the router and the session manager of the DRA simulator (\<^verbatim>\<open>simulator/dra/config.go\<close>,
  \<^verbatim>\<open>router.go\<close>, \<^verbatim>\<open>session.go\<close>). The lemmas show that the router finds an active backend whenever there is one
  and takes turns, how backends fail, and what the clean-up of the sessions removes.
\<close>

section \<open>Configuration\<close>

record SimConfig =
  sim_Host :: gostring
  sim_Port :: int
  sim_OriginHost :: gostring
  sim_OriginRealm :: gostring
  sim_ProductName :: gostring
  sim_VendorID :: u32
  sim_MaxConnections :: int
  sim_ReadTimeout :: int
  sim_WriteTimeout :: int
  sim_DWRInterval :: int
  sim_EnableMetrics :: bool
  sim_MetricsInterval :: int
  sim_EnableRouting :: bool
  sim_BackendServers :: string

definition SimConfig_Validate :: "SimConfig \<Rightarrow> string option" where
  "SimConfig_Validate c =
     (if sim_Host c = [] then Some ''host cannot be empty''
      else if sim_Port c \<le> 0 \<or> sim_Port c > 65535 then Some ''port must be between 1 and 65535''
      else if sim_OriginHost c = [] then Some ''origin-host cannot be empty''
      else if sim_OriginRealm c = [] then Some ''origin-realm cannot be empty''
      else if sim_ProductName c = [] then Some ''product-name cannot be empty''
      else if sim_MaxConnections c \<le> 0 then Some ''max-connections must be greater than 0''
      else if sim_ReadTimeout c \<le> 0 then Some ''read-timeout must be greater than 0''
      else if sim_WriteTimeout c \<le> 0 then Some ''write-timeout must be greater than 0''
      else if sim_DWRInterval c \<le> 0 then Some ''dwr-interval must be greater than 0''
      else if sim_EnableMetrics c \<and> sim_MetricsInterval c \<le> 0 then
        Some ''metrics-interval must be greater than 0 when metrics enabled''
      else if sim_EnableRouting c \<and> sim_BackendServers c = [] then Some ''backend-servers required when routing enabled''
      else None)"

section \<open>The router\<close>

record Backend =
  be_Host :: string
  be_Port :: int
  be_Weight :: int
  be_Active :: bool
  be_TotalRequests :: u64
  be_Failures :: u64

record Router =
  rt_backends :: "Backend list"
  rt_counter :: u64

datatype router_error = InvalidFormat string | InvalidPort string | NoBackends | NoActiveBackends

text \<open>
  \<^verbatim>\<open>fmt.Sscanf(s, "%d", &port)\<close>: white space, a sign, and the digits that follow; what comes after them is
  not looked at. A line end in the white space, no digit at all or a value beyond 64 bits is an error.
\<close>

definition scanDecimal :: "string \<Rightarrow> int option" where
  "scanDecimal s =
     (let sp = takeWhile isSpace s; r = dropWhile isSpace s;
          neg = (case r of c # _ \<Rightarrow> c = CHR ''-'' | [] \<Rightarrow> False);
          ds = takeWhile (\<lambda>c. c \<in> set ''0123456789'') (case r of c # r' \<Rightarrow> if c \<in> set ''+-'' then r' else r | [] \<Rightarrow> []);
          n = foldl (\<lambda>acc c. acc * 10 + int (of_char c - 48)) 0 ds
      in if CHR 0x0A \<in> set sp \<or> ds = [] then None
         else if neg then (if n \<le> 2 ^ 63 then Some (- n) else None)
         else if n < 2 ^ 63 then Some n else None)"

definition newBackend :: "string \<Rightarrow> int \<Rightarrow> Backend" where
  "newBackend host port =
     \<lparr>be_Host = host, be_Port = port, be_Weight = 1, be_Active = True, be_TotalRequests = 0, be_Failures = 0\<rparr>"

fun parseBackends :: "string list \<Rightarrow> (router_error, Backend list) result" where
  "parseBackends [] = Inr []"
| "parseBackends (s # ss) =
     (let server = TrimSpace s in
      if server = [] then parseBackends ss
      else (case Split server CHR '':'' of
              [host, port] \<Rightarrow>
                (case scanDecimal port of
                   None \<Rightarrow> Inl (InvalidPort server)
                 | Some p \<Rightarrow>
                     (case parseBackends ss of Inl e \<Rightarrow> Inl e | Inr bs \<Rightarrow> Inr (newBackend host p # bs)))
            | _ \<Rightarrow> Inl (InvalidFormat server)))"

definition NewRouter :: "string \<Rightarrow> (router_error, Router) result" where
  "NewRouter backendServers =
     (if backendServers = [] then Inr \<lparr>rt_backends = [], rt_counter = 0\<rparr>
      else (case parseBackends (Split backendServers CHR '','') of
              Inl e \<Rightarrow> Inl e
            | Inr [] \<Rightarrow> Inl NoBackends
            | Inr bs \<Rightarrow> Inr \<lparr>rt_backends = bs, rt_counter = 0\<rparr>))"

text \<open>The result is the index of the backend. \<^verbatim>\<open>idx\<close> is below the number of backends, so \<^verbatim>\<open>int(idx)\<close> is exact.\<close>

definition SelectBackend :: "Router \<Rightarrow> (router_error, nat) result \<times> Router" where
  "SelectBackend r =
     (let n = length (rt_backends r) in
      if n = 0 then (Inl NoBackends, r)
      else
        let counter = rt_counter r + 1; idx = unat counter mod n; r' = r\<lparr>rt_counter := counter\<rparr>
        in case filter (\<lambda>i. be_Active (rt_backends r ! i)) (map (\<lambda>i. (idx + i) mod n) [0..<n]) of
             [] \<Rightarrow> (Inl NoActiveBackends, r')
           | i # _ \<Rightarrow> (Inr i, r'))"

definition MarkBackendFailed :: "nat \<Rightarrow> Router \<Rightarrow> Router" where
  "MarkBackendFailed i r =
     (let b = rt_backends r ! i; b1 = b\<lparr>be_Failures := be_Failures b + 1\<rparr>;
          b2 = (if be_Failures b1 > 5 then b1\<lparr>be_Active := False\<rparr> else b1)
      in r\<lparr>rt_backends := (rt_backends r)[i := b2]\<rparr>)"

lemma SelectBackend_nonempty:
  assumes "rt_backends r \<noteq> []" and "s = unat (rt_counter r + 1) mod length (rt_backends r)"
  shows "SelectBackend r =
    ((case filter (\<lambda>i. be_Active (rt_backends r ! i)) ([s..<length (rt_backends r)] @ [0..<s]) of
        [] \<Rightarrow> Inl NoActiveBackends | i # _ \<Rightarrow> Inr i), r\<lparr>rt_counter := rt_counter r + 1\<rparr>)"
proof -
  have "s < length (rt_backends r)"
    using assms by simp
  then show ?thesis
    unfolding SelectBackend_def Let_def assms(2) [symmetric]
    using rotation_shift [of s "length (rt_backends r)"] assms(1) by (simp split: list.split)
qed

text \<open>
  The router finds an active backend exactly when there is one, and what it finds is one of its backends and
  active; as long as all are active it takes them in turn, also across any number of calls.
\<close>

theorem SelectBackend_turns:
  "((\<exists>i. fst (SelectBackend r) = Inr i) \<longleftrightarrow> (\<exists>b \<in> set (rt_backends r). be_Active b)) \<and>
   (\<forall>i. fst (SelectBackend r) = Inr i \<longrightarrow> i < length (rt_backends r) \<and> be_Active (rt_backends r ! i)) \<and>
   (list_all be_Active (rt_backends r) \<and> rt_backends r \<noteq> [] \<and> unat (rt_counter r) + k + 1 < 2 ^ 64 \<longrightarrow>
      fst (SelectBackend (((\<lambda>r. snd (SelectBackend r)) ^^ k) r)) = Inr ((unat (rt_counter r) + k + 1) mod length (rt_backends r)))"
proof (cases "rt_backends r = []")
  case True
  then show ?thesis
    by (simp add: SelectBackend_def)
next
  case ne: False
  let ?n = "length (rt_backends r)" and ?s = "unat (rt_counter r + 1) mod length (rt_backends r)"
  define L where "L = filter (\<lambda>i. be_Active (rt_backends r ! i)) ([?s..<?n] @ [0..<?s])"
  have sel: "fst (SelectBackend r) = (case L of [] \<Rightarrow> Inl NoActiveBackends | i # _ \<Rightarrow> Inr i)"
    using SelectBackend_nonempty [OF ne refl] by (simp add: L_def)
  have "?s < ?n"
    using ne by simp
  then have mem: "i \<in> set L \<longleftrightarrow> i < ?n \<and> be_Active (rt_backends r ! i)" for i
    by (auto simp: L_def)
  have found: "fst (SelectBackend r) = Inr i \<Longrightarrow> i < ?n \<and> be_Active (rt_backends r ! i)" for i
    unfolding sel using mem [of i] by (cases L) auto
  moreover have "(\<exists>i. fst (SelectBackend r) = Inr i) \<longleftrightarrow> (\<exists>b \<in> set (rt_backends r). be_Active b)"
  proof
    assume "\<exists>b \<in> set (rt_backends r). be_Active b"
    then obtain i where "i < ?n" "be_Active (rt_backends r ! i)"
      by (auto simp: in_set_conv_nth)
    then have "i \<in> set L"
      by (simp add: mem)
    then show "\<exists>i. fst (SelectBackend r) = Inr i"
      unfolding sel by (cases L) auto
  qed (use found in force)
  moreover have "fst (SelectBackend (((\<lambda>r. snd (SelectBackend r)) ^^ k) r)) = Inr ((unat (rt_counter r) + k + 1) mod ?n)"
    if all: "list_all be_Active (rt_backends r)" and lim: "unat (rt_counter r) + k + 1 < 2 ^ 64"
  proof -
    have iter: "((\<lambda>r. snd (SelectBackend r)) ^^ k) r = r\<lparr>rt_counter := rt_counter r + word_of_nat k\<rparr>" for k
    proof (induction k)
      case (Suc k)
      then show ?case
        using SelectBackend_nonempty [of "r\<lparr>rt_counter := rt_counter r + word_of_nat k\<rparr>"] ne by (simp add: ac_simps)
    qed simp
    let ?r = "r\<lparr>rt_counter := rt_counter r + word_of_nat k\<rparr>"
    have "rt_counter ?r + 1 = word_of_nat (unat (rt_counter r) + k + 1)"
      by simp
    then have u: "unat (rt_counter ?r + 1) = unat (rt_counter r) + k + 1"
      using lim by (simp add: unsigned_of_nat take_bit_nat_eq_self del: of_nat_add of_nat_Suc)
    let ?t = "(unat (rt_counter r) + k + 1) mod ?n"
    have "[?t..<?n] = ?t # [Suc ?t..<?n]"
      using ne by (simp add: upt_conv_Cons)
    moreover have "be_Active (rt_backends r ! ?t)"
      using all ne by (simp add: list_all_length)
    ultimately show ?thesis
      unfolding iter using SelectBackend_nonempty [of ?r ?t] ne u by simp
  qed
  ultimately show ?thesis
    using ne by blast
qed

theorem SelectBackend_turns_witness:
  "fst (SelectBackend \<lparr>rt_backends = [newBackend ''a'' 1, newBackend ''b'' 2], rt_counter = 0\<rparr>) = Inr 1 \<and>
   fst (SelectBackend (snd (SelectBackend \<lparr>rt_backends = [newBackend ''a'' 1, newBackend ''b'' 2], rt_counter = 0\<rparr>))) = Inr 0"
  using SelectBackend_turns [of "\<lparr>rt_backends = [newBackend ''a'' 1, newBackend ''b'' 2], rt_counter = 0\<rparr>" 0]
    SelectBackend_turns [of "\<lparr>rt_backends = [newBackend ''a'' 1, newBackend ''b'' 2], rt_counter = 0\<rparr>" 1]
  by (simp add: newBackend_def)

text \<open>A backend is given up at its sixth failure and never taken back.\<close>

lemma failure_counted:
  assumes "i < length (rt_backends r)"
  shows "be_Failures (rt_backends (MarkBackendFailed i r) ! i) = be_Failures (rt_backends r ! i) + 1"
    and "be_Active (rt_backends (MarkBackendFailed i r) ! i) \<longleftrightarrow> be_Active (rt_backends r ! i) \<and> \<not> be_Failures (rt_backends r ! i) + 1 > 5"
    and "length (rt_backends (MarkBackendFailed i r)) = length (rt_backends r)"
  using assms by (simp_all add: MarkBackendFailed_def Let_def)

lemma sixth_failure:
  assumes "i < length (rt_backends r)" and "be_Active (rt_backends r ! i)"
  shows "be_Failures (rt_backends r ! i) = 4 \<Longrightarrow> be_Active (rt_backends (MarkBackendFailed i r) ! i)"
    and "be_Failures (rt_backends r ! i) = 5 \<Longrightarrow> \<not> be_Active (rt_backends (MarkBackendFailed i r) ! i)"
  using assms by (simp_all add: failure_counted)

section \<open>The session manager\<close>

datatype SessionState = SessionStateActive | SessionStateTerminating | SessionStateTerminated

record SimSession =
  ss_OriginHost :: gostring
  ss_OriginRealm :: gostring
  ss_CreatedAt :: int
  ss_LastActivity :: int
  ss_State :: SessionState

type_synonym sessions = "gostring \<rightharpoonup> SimSession"

definition CreateSession :: "int \<Rightarrow> gostring \<Rightarrow> gostring \<Rightarrow> gostring \<Rightarrow> sessions \<Rightarrow> sessions" where
  "CreateSession now sessionID originHost originRealm sm =
     sm(sessionID \<mapsto> \<lparr>ss_OriginHost = originHost, ss_OriginRealm = originRealm, ss_CreatedAt = now, ss_LastActivity = now,
       ss_State = SessionStateActive\<rparr>)"

definition UpdateSession :: "int \<Rightarrow> gostring \<Rightarrow> sessions \<Rightarrow> sessions" where
  "UpdateSession now sessionID sm =
     (case sm sessionID of None \<Rightarrow> sm | Some s \<Rightarrow> sm(sessionID \<mapsto> s\<lparr>ss_LastActivity := now\<rparr>))"

definition TerminateSession :: "int \<Rightarrow> gostring \<Rightarrow> sessions \<Rightarrow> sessions" where
  "TerminateSession now sessionID sm =
     (case sm sessionID of
        None \<Rightarrow> sm
      | Some s \<Rightarrow> sm(sessionID \<mapsto> s\<lparr>ss_State := SessionStateTerminated, ss_LastActivity := now\<rparr>))"

definition sm_DeleteSession :: "gostring \<Rightarrow> sessions \<Rightarrow> sessions" where
  "sm_DeleteSession sessionID sm = sm(sessionID := None)"

text \<open>The loops over the map, in the order it is visited.\<close>

definition ActiveSessionCount :: "gostring list \<Rightarrow> sessions \<Rightarrow> nat" where
  "ActiveSessionCount order sm =
     length (filter (\<lambda>i. case sm i of None \<Rightarrow> False | Some s \<Rightarrow> ss_State s = SessionStateActive) order)"

fun CleanupExpired :: "int \<Rightarrow> int \<Rightarrow> gostring list \<Rightarrow> sessions \<Rightarrow> nat \<times> sessions" where
  "CleanupExpired now timeout [] sm = (0, sm)"
| "CleanupExpired now timeout (i # order) sm =
     (case sm i of
        None \<Rightarrow> CleanupExpired now timeout order sm
      | Some s \<Rightarrow>
          if ss_State s = SessionStateTerminated \<or> now - ss_LastActivity s > timeout
          then apfst Suc (CleanupExpired now timeout order (sm_DeleteSession i sm))
          else CleanupExpired now timeout order sm)"

text \<open>What is left after a clean-up over the whole map, and that the count is the number of removed sessions.\<close>

lemma deleted_at: "sm_DeleteSession k sm i = (if i = k then None else sm i)"
  by (simp add: sm_DeleteSession_def)

lemma cleanup_keeps:
  "snd (CleanupExpired now timeout order sm) i =
     (case sm i of
        None \<Rightarrow> None
      | Some s \<Rightarrow> if i \<in> set order \<and> (ss_State s = SessionStateTerminated \<or> now - ss_LastActivity s > timeout) then None else Some s)"
  by (induction order arbitrary: sm) (auto simp: deleted_at split: option.splits if_splits)

lemma cleanup_counts:
  "finite (dom sm) \<Longrightarrow> card (dom sm) = fst (CleanupExpired now timeout order sm) + card (dom (snd (CleanupExpired now timeout order sm)))"
proof (induction now timeout order sm rule: CleanupExpired.induct)
  case (2 now timeout i order sm)
  show ?case
  proof (cases "sm i")
    case (Some s)
    then have c: "card (dom sm) = Suc (card (dom (sm_DeleteSession i sm)))"
      using 2(4) unfolding sm_DeleteSession_def by (metis card.remove domI dom_fun_upd)
    have f: "finite (dom (sm_DeleteSession i sm))"
      using 2(4) by (simp add: sm_DeleteSession_def)
    show ?thesis
    proof (cases "ss_State s = SessionStateTerminated \<or> now - ss_LastActivity s > timeout")
      case True
      then show ?thesis
        using 2(2) [OF Some True f] c Some by simp
    next
      case False
      then show ?thesis
        using 2(3) [OF Some False 2(4)] Some by simp
    qed
  qed (use 2 in simp)
qed simp

text \<open>A terminated session is gone after the next clean-up, whenever that is.\<close>

lemma terminated_cleaned:
  "sm i \<noteq> None \<Longrightarrow> i \<in> set order \<Longrightarrow> snd (CleanupExpired now timeout order (TerminateSession t i sm)) i = None"
  by (auto simp: cleanup_keeps TerminateSession_def split: option.splits)

end
