(* ===== verification/Sim_Dra.thy ===== *)
theory Sim_Dra
  imports Sim_Routing Generated_Base
begin

text \<open>
  The DRA simulator (\<^verbatim>\<open>simulator/dra/dra.go\<close>): its connections and their messages, the limit on connections,
  and its shutdown. The lemmas show what is answered and what is not, that the count of connections
  is exact and bounded in every interleaving, and that \<^verbatim>\<open>Shutdown\<close> cannot return while a client is connected.
\<close>

section \<open>State\<close>

text \<open>
  A connection: \<^verbatim>\<open>sendCh\<close> holds at most 100 messages; \<open>sk_watchdogs\<close> counts the watchdog goroutines that have been
  started. The time of the last activity is only written, and left out.
\<close>

record ClientConnection =
  sk_handshakeComplete :: bool
  sk_peerHost :: "gostring option"
  sk_peerRealm :: "gostring option"
  sk_sendCh :: "bytes list"
  sk_watchdogs :: nat
  sk_closed :: bool

record DRAStats =
  st_TotalConnections :: u64
  st_ActiveConnections :: u64
  st_TotalMessages :: u64
  st_MessagesSent :: u64
  st_MessagesReceived :: u64
  st_BytesSent :: u64
  st_BytesReceived :: u64
  st_CERReceived :: u64
  st_CEASent :: u64
  st_DWRReceived :: u64
  st_DWASent :: u64
  st_DWRSent :: u64
  st_DWAReceived :: u64
  st_Errors :: u64
  st_RoutedMessages :: u64

text \<open>
  Connections are numbered as they are accepted; \<open>sd_conns\<close> has those in the map, \<open>sd_left\<close> those that have left it and
  that a goroutine may still hold.
\<close>

record SimDRA =
  sd_config :: SimConfig
  sd_router :: "Router option"
  sd_conns :: "nat \<rightharpoonup> ClientConnection"
  sd_left :: "nat \<rightharpoonup> ClientConnection"
  sd_sessions :: sessions
  sd_ctxDone :: bool
  sd_accepted :: nat
  sd_stats :: DRAStats

definition zeroStats :: DRAStats where
  "zeroStats =
     \<lparr>st_TotalConnections = 0, st_ActiveConnections = 0, st_TotalMessages = 0, st_MessagesSent = 0, st_MessagesReceived = 0,
      st_BytesSent = 0, st_BytesReceived = 0, st_CERReceived = 0, st_CEASent = 0, st_DWRReceived = 0, st_DWASent = 0,
      st_DWRSent = 0, st_DWAReceived = 0, st_Errors = 0, st_RoutedMessages = 0\<rparr>"

definition NewDRA :: "SimConfig \<Rightarrow> (router_error, SimDRA) result" where
  "NewDRA config =
     (let dra = \<lparr>sd_config = config, sd_router = None, sd_conns = Map.empty, sd_left = Map.empty, sd_sessions = Map.empty, sd_ctxDone = False,
            sd_accepted = 0, sd_stats = zeroStats\<rparr>
      in if sim_EnableRouting config
         then (case NewRouter (sim_BackendServers config) of Inl e \<Rightarrow> Inl e | Inr r \<Rightarrow> Inr (dra\<lparr>sd_router := Some r\<rparr>))
         else Inr dra)"

definition onStats :: "(DRAStats \<Rightarrow> DRAStats) \<Rightarrow> SimDRA \<Rightarrow> SimDRA" where
  "onStats f d = d\<lparr>sd_stats := f (sd_stats d)\<rparr>"

definition addSimError :: "SimDRA \<Rightarrow> SimDRA" where
  "addSimError = onStats (\<lambda>s. s\<lparr>st_Errors := st_Errors s + 1\<rparr>)"

definition newClientConnection :: ClientConnection where
  "newClientConnection =
     \<lparr>sk_handshakeComplete = False, sk_peerHost = None, sk_peerRealm = None, sk_sendCh = [], sk_watchdogs = 0, sk_closed = False\<rparr>"

section \<open>Connections\<close>

text \<open>
  A turn of \<^verbatim>\<open>acceptLoop\<close> with an accepted connection: refused at the limit, else handled. There is one accept
  loop, and only it inserts and increments, so that the insertion and the counters are one step here.
\<close>

definition handleConnection :: "SimDRA \<Rightarrow> SimDRA" where
  "handleConnection d =
     onStats (\<lambda>s. s\<lparr>st_TotalConnections := st_TotalConnections s + 1, st_ActiveConnections := st_ActiveConnections s + 1\<rparr>)
       (d\<lparr>sd_conns := (sd_conns d)(sd_accepted d \<mapsto> newClientConnection), sd_accepted := sd_accepted d + 1\<rparr>)"

definition sim_accept :: "SimDRA \<Rightarrow> SimDRA" where
  "sim_accept d =
     (if sint (st_ActiveConnections (sd_stats d)) \<ge> sim_MaxConnections (sd_config d) then addSimError d else handleConnection d)"

text \<open>\<^verbatim>\<open>removeConnection\<close>: the map under its lock, then the counter.\<close>

definition dropConnection :: "nat \<Rightarrow> SimDRA \<Rightarrow> SimDRA" where
  "dropConnection i d =
     (case sd_conns d i of
        None \<Rightarrow> d
      | Some c \<Rightarrow> d\<lparr>sd_conns := (sd_conns d)(i := None), sd_left := (sd_left d)(i \<mapsto> c)\<rparr>)"

definition countDropped :: "SimDRA \<Rightarrow> SimDRA" where
  "countDropped = onStats (\<lambda>s. s\<lparr>st_ActiveConnections := st_ActiveConnections s + NOT 0\<rparr>)"

definition removeConnection :: "nat \<Rightarrow> SimDRA \<Rightarrow> SimDRA" where
  "removeConnection i d = countDropped (dropConnection i d)"

definition onConn :: "nat \<Rightarrow> (ClientConnection \<Rightarrow> ClientConnection) \<Rightarrow> SimDRA \<Rightarrow> SimDRA" where
  "onConn i f d = d\<lparr>sd_conns := (sd_conns d)(i := map_option f (sd_conns d i)), sd_left := (sd_left d)(i := map_option f (sd_left d i))\<rparr>"

definition simConn :: "SimDRA \<Rightarrow> nat \<Rightarrow> ClientConnection option" where
  "simConn d i = (case sd_conns d i of None \<Rightarrow> sd_left d i | Some c \<Rightarrow> Some c)"

text \<open>\<^verbatim>\<open>Close\<close>, whose body runs once: a connection that has left the map is closed.\<close>

definition sim_Close :: "nat \<Rightarrow> SimDRA \<Rightarrow> SimDRA" where
  "sim_Close i d = (if sd_conns d i = None then d else removeConnection i (onConn i (\<lambda>c. c\<lparr>sk_closed := True\<rparr>) d))"

section \<open>Messages\<close>

datatype sim_error = SimTooShort | SimUnmarshal codec_error | SimMarshal codec_error | SimCtxDone | SimPanic
  | NoHandshake | PeerHostNotSet | PeerRealmNotSet | SimTimeout

text \<open>How a handler ends: it returns, perhaps with an error, or its \<^verbatim>\<open>select\<close> cannot go on yet.\<close>

datatype sim_outcome = SimReturns "sim_error option" SimDRA | SimBlocks

text \<open>
  The \<^verbatim>\<open>select\<close> that sends or gives up when the context is done: if both are possible \<open>pick\<close> says which is taken.
\<close>

definition offer :: "bool \<Rightarrow> nat \<Rightarrow> bytes \<Rightarrow> (SimDRA \<Rightarrow> SimDRA) \<Rightarrow> SimDRA \<Rightarrow> sim_outcome" where
  "offer pick i data sent d =
     (case simConn d i of
        None \<Rightarrow> SimBlocks
      | Some c \<Rightarrow>
          if length (sk_sendCh c) < 100 \<and> (pick \<or> \<not> sd_ctxDone d)
          then SimReturns None (sent (onConn i (\<lambda>c. c\<lparr>sk_sendCh := sk_sendCh c @ [data]\<rparr>) d))
          else if sd_ctxDone d then SimReturns (Some SimCtxDone) d
          else SimBlocks)"

text \<open>\<open>localIP\<close>: the address of the socket, \<open>None\<close> if it is not a TCP address.\<close>

definition sim_CEA :: "SimConfig \<Rightarrow> bytes option \<Rightarrow> CapabilitiesExchangeRequest \<Rightarrow> CapabilitiesExchangeAnswer" where
  "sim_CEA cfg localIP cer =
     (let cea = NewCapabilitiesExchangeAnswer in
      cea\<lparr>cea_ResultCode := 2001, cea_OriginHost := sim_OriginHost cfg, cea_OriginRealm := sim_OriginRealm cfg,
        cea_ProductName := sim_ProductName cfg, cea_VendorId := sim_VendorID cfg,
        cea_HostIpAddress := (case localIP of None \<Rightarrow> [] | Some ip \<Rightarrow> [ip]),
        cea_AuthApplicationId := cer_AuthApplicationId cer,
        cea_Header := (cea_Header cea)\<lparr>hdr_HopByHopID := hdr_HopByHopID (cer_Header cer),
          hdr_EndToEndID := hdr_EndToEndID (cer_Header cer)\<rparr>\<rparr>)"

definition sim_handleCER :: "bool \<Rightarrow> bytes option \<Rightarrow> nat \<Rightarrow> bytes \<Rightarrow> SimDRA \<Rightarrow> sim_outcome" where
  "sim_handleCER pick localIP i data d0 =
     (let d = onStats (\<lambda>s. s\<lparr>st_CERReceived := st_CERReceived s + 1\<rparr>) d0 in
      case CER_Unmarshal data CER_zero of
        Inl e \<Rightarrow> SimReturns (Some (SimUnmarshal e)) d
      | Inr cer \<Rightarrow>
          (let d1 = onConn i (\<lambda>c. c\<lparr>sk_peerHost := Some (cer_OriginHost cer), sk_peerRealm := Some (cer_OriginRealm cer)\<rparr>) d in
           case CEA_Marshal (sim_CEA (sd_config d) localIP cer) of
             Inl e \<Rightarrow> SimReturns (Some (SimMarshal e)) d1
           | Inr (_, ceaData) \<Rightarrow>
               offer pick i ceaData (\<lambda>d. onConn i (\<lambda>c. c\<lparr>sk_handshakeComplete := True, sk_watchdogs := sk_watchdogs c + 1\<rparr>)
                   (onStats (\<lambda>s. s\<lparr>st_CEASent := st_CEASent s + 1\<rparr>) d)) d1))"

definition sim_DWA :: "SimConfig \<Rightarrow> DeviceWatchdogRequest \<Rightarrow> DeviceWatchdogAnswer" where
  "sim_DWA cfg dwr =
     (let dwa = NewDeviceWatchdogAnswer in
      dwa\<lparr>dwa_ResultCode := 2001, dwa_OriginHost := sim_OriginHost cfg, dwa_OriginRealm := sim_OriginRealm cfg,
        dwa_Header := (dwa_Header dwa)\<lparr>hdr_HopByHopID := hdr_HopByHopID (dwr_Header dwr),
          hdr_EndToEndID := hdr_EndToEndID (dwr_Header dwr)\<rparr>\<rparr>)"

definition sim_handleDWR :: "bool \<Rightarrow> nat \<Rightarrow> bytes \<Rightarrow> SimDRA \<Rightarrow> sim_outcome" where
  "sim_handleDWR pick i data d0 =
     (let d = onStats (\<lambda>s. s\<lparr>st_DWRReceived := st_DWRReceived s + 1\<rparr>) d0 in
      case DWR_Unmarshal data DWR_zero of
        Inl e \<Rightarrow> SimReturns (Some (SimUnmarshal e)) d
      | Inr dwr \<Rightarrow>
          (case DWA_Marshal (sim_DWA (sd_config d) dwr) of
             Inl e \<Rightarrow> SimReturns (Some (SimMarshal e)) d
           | Inr (_, dwaData) \<Rightarrow> offer pick i dwaData (onStats (\<lambda>s. s\<lparr>st_DWASent := st_DWASent s + 1\<rparr>)) d))"

definition sim_handleDWA :: "bytes \<Rightarrow> SimDRA \<Rightarrow> sim_outcome" where
  "sim_handleDWA data d0 =
     (let d = onStats (\<lambda>s. s\<lparr>st_DWAReceived := st_DWAReceived s + 1\<rparr>) d0 in
      case DWA_Unmarshal data DWA_zero of Inl e \<Rightarrow> SimReturns (Some (SimUnmarshal e)) d | Inr _ \<Rightarrow> SimReturns None d)"

definition sim_handleDPR :: "nat \<Rightarrow> SimDRA \<Rightarrow> sim_outcome" where
  "sim_handleDPR i d = SimReturns None (sim_Close i d)"

definition sim_handleMICA :: "bytes \<Rightarrow> SimDRA \<Rightarrow> sim_outcome" where
  "sim_handleMICA data d =
     (case genUnmarshal s13_avps MICA_definition data \<lparr>gm_Header = zero_header, gm_Fields = zeroFields s13_avps (cd_Fields MICA_definition)\<rparr> of
        Inl (Codec e) \<Rightarrow> SimReturns (Some (SimUnmarshal e)) d
      | Inl TypeAssertionPanic \<Rightarrow> SimReturns (Some SimPanic) d
      | Inr _ \<Rightarrow> SimReturns None d)"

text \<open>Neither of the two sends anything.\<close>

definition sim_sendErrorResponse :: "bytes \<Rightarrow> u32 \<Rightarrow> SimDRA \<Rightarrow> sim_outcome" where
  "sim_sendErrorResponse requestData resultCode d = SimReturns None d"

definition sim_routeMessage :: "bytes \<Rightarrow> SimDRA \<Rightarrow> sim_outcome" where
  "sim_routeMessage data d = SimReturns None (onStats (\<lambda>s. s\<lparr>st_RoutedMessages := st_RoutedMessages s + 1\<rparr>) d)"

definition sim_handleMessage :: "bool \<Rightarrow> bytes option \<Rightarrow> nat \<Rightarrow> bytes \<Rightarrow> SimDRA \<Rightarrow> sim_outcome" where
  "sim_handleMessage pick localIP i data d =
     (if length data < 20 then SimReturns (Some SimTooShort) d
      else
        let cmdCode = Uint32 (bslice 4 8 data) AND 0x00FFFFFF; isRequest = (data ! 4 AND 0x80 \<noteq> 0)
        in if cmdCode = 257 then (if isRequest then sim_handleCER pick localIP i data d else SimReturns None d)
           else if cmdCode = 280 then (if isRequest then sim_handleDWR pick i data d else sim_handleDWA data d)
           else if cmdCode = 282 then (if isRequest then sim_handleDPR i d else SimReturns None d)
           else if cmdCode = 324 then (if \<not> isRequest then sim_handleMICA data d else SimReturns None d)
           else if sim_EnableRouting (sd_config d) \<and> sd_router d \<noteq> None then sim_routeMessage data d
           else sim_sendErrorResponse data 3001 d)"

text \<open>A turn of \<^verbatim>\<open>readLoop\<close> with a whole message: the counters, the handler, and an error only counted.\<close>

definition sim_receive :: "bool \<Rightarrow> bytes option \<Rightarrow> nat \<Rightarrow> bytes \<Rightarrow> SimDRA \<Rightarrow> SimDRA option" where
  "sim_receive pick localIP i message d =
     (let d1 = onStats (\<lambda>s. s\<lparr>st_MessagesReceived := st_MessagesReceived s + 1,
            st_BytesReceived := st_BytesReceived s + word_of_nat (length message), st_TotalMessages := st_TotalMessages s + 1\<rparr>) d in
      case sim_handleMessage pick localIP i message d1 of
        SimBlocks \<Rightarrow> None
      | SimReturns None d2 \<Rightarrow> Some d2
      | SimReturns (Some e) d2 \<Rightarrow> Some (addSimError d2))"

text \<open>A tick of the watchdog, which drops the DWR when the channel is full; the identifiers come from the clock.\<close>

definition sim_sendDWR :: "bool \<Rightarrow> u32 \<Rightarrow> u32 \<Rightarrow> nat \<Rightarrow> SimDRA \<Rightarrow> sim_error option \<times> SimDRA" where
  "sim_sendDWR pick hop e2e i d =
     (let dwr = NewDeviceWatchdogRequest\<lparr>dwr_OriginHost := sim_OriginHost (sd_config d), dwr_OriginRealm := sim_OriginRealm (sd_config d)\<rparr>;
          dwr' = dwr\<lparr>dwr_Header := (dwr_Header dwr)\<lparr>hdr_HopByHopID := hop, hdr_EndToEndID := e2e\<rparr>\<rparr>
      in case DWR_Marshal dwr' of
           Inl e \<Rightarrow> (Some (SimMarshal e), d)
         | Inr (_, data) \<Rightarrow>
             (case offer pick i data (onStats (\<lambda>s. s\<lparr>st_DWRSent := st_DWRSent s + 1\<rparr>)) d of
                SimReturns r d' \<Rightarrow> (r, d') | SimBlocks \<Rightarrow> (None, d)))"

text \<open>
  A turn of \<^verbatim>\<open>writeLoop\<close>: a written message is counted; a failed write ends the loop and closes. The socket of a
  connection that has left the map is closed.
\<close>

definition sim_write :: "bool \<Rightarrow> nat \<Rightarrow> SimDRA \<Rightarrow> (bytes option \<times> SimDRA) option" where
  "sim_write ok i d =
     (case simConn d i of
        None \<Rightarrow> None
      | Some c \<Rightarrow>
          (case sk_sendCh c of
             [] \<Rightarrow> None
           | data # rest \<Rightarrow>
               (let d1 = onConn i (\<lambda>c. c\<lparr>sk_sendCh := rest\<rparr>) d in
                if ok \<and> sd_conns d i \<noteq> None then Some (Some data, onStats (\<lambda>s. s\<lparr>st_MessagesSent := st_MessagesSent s + 1,
                       st_BytesSent := st_BytesSent s + word_of_nat (length data)\<rparr>) d1)
                else Some (None, sim_Close i (if sd_ctxDone d \<or> sd_conns d i = None then d1 else addSimError d1)))))"

text \<open>
  \<^verbatim>\<open>SendMICR\<close>: \<open>sid\<close> is the session id made from the host and the time, \<open>late\<close> says that five seconds have passed.
\<close>

definition sim_MICR :: "SimConfig \<Rightarrow> gostring \<Rightarrow> u32 \<Rightarrow> u32 \<Rightarrow> gostring \<Rightarrow> gostring \<Rightarrow> gostring \<Rightarrow> GenMessage" where
  "sim_MICR cfg sid hop e2e peerHost peerRealm imei =
     (let micr = newMessage s13_avps MICR_definition in
      \<lparr>gm_Header = (gm_Header micr)\<lparr>hdr_HopByHopID := hop, hdr_EndToEndID := e2e\<rparr>,
       gm_Fields = (gm_Fields micr)[0 := [Val (UTF8String sid)], 1 := [Val (Enumerated 1)],
         2 := [Val (DiameterIdentity (sim_OriginHost cfg))], 3 := [Val (DiameterIdentity (sim_OriginRealm cfg))],
         8 := [Val (DiameterIdentity peerHost)], 4 := [Val (DiameterIdentity peerRealm)],
         5 := [Struct [[Val (UTF8String imei)], [], []]]]\<rparr>)"

definition sim_SendMICR :: "bool \<Rightarrow> bool \<Rightarrow> gostring \<Rightarrow> u32 \<Rightarrow> u32 \<Rightarrow> gostring \<Rightarrow> nat \<Rightarrow> SimDRA \<Rightarrow> sim_outcome" where
  "sim_SendMICR pick late sid hop e2e imei i d =
     (case simConn d i of
        None \<Rightarrow> SimReturns (Some NoHandshake) d
      | Some c \<Rightarrow>
          if \<not> sk_handshakeComplete c then SimReturns (Some NoHandshake) d
          else (case (sk_peerHost c, sk_peerRealm c) of
             (None, _) \<Rightarrow> SimReturns (Some PeerHostNotSet) d
           | (Some host, None) \<Rightarrow> SimReturns (Some PeerRealmNotSet) d
           | (Some host, Some realm) \<Rightarrow>
               (case genMarshal s13_avps MICR_definition (sim_MICR (sd_config d) sid hop e2e host realm imei) of
                  Inl e \<Rightarrow> SimReturns (Some (SimMarshal e)) d
                | Inr (_, data) \<Rightarrow>
                    (case offer pick i data id d of
                       SimBlocks \<Rightarrow> if late then SimReturns (Some SimTimeout) d else SimBlocks
                     | r \<Rightarrow> r))))"

definition GetFirstConnection :: "nat list \<Rightarrow> SimDRA \<Rightarrow> nat option" where
  "GetFirstConnection order d =
     List.find (\<lambda>i. case sd_conns d i of None \<Rightarrow> False | Some c \<Rightarrow> sk_handshakeComplete c) order"

section \<open>What is not answered\<close>

text \<open>\<open>quiet\<close>: nothing has been queued on any connection.\<close>

definition quiet :: "SimDRA \<Rightarrow> SimDRA \<Rightarrow> bool" where
  "quiet d d' \<longleftrightarrow> (\<forall>j. map_option sk_sendCh (simConn d' j) = map_option sk_sendCh (simConn d j))"

lemma onStats_fields [simp]:
  "sd_conns (onStats f d) = sd_conns d" "sd_left (onStats f d) = sd_left d" "simConn (onStats f d) = simConn d" "sd_config (onStats f d) = sd_config d" "sd_router (onStats f d) = sd_router d"
  "sd_ctxDone (onStats f d) = sd_ctxDone d" "sd_accepted (onStats f d) = sd_accepted d" "sd_stats (onStats f d) = f (sd_stats d)"
  by (simp_all add: onStats_def simConn_def fun_eq_iff split: option.split)

lemma onConn_fields [simp]:
  "sd_config (onConn i f d) = sd_config d" "sd_ctxDone (onConn i f d) = sd_ctxDone d" "sd_accepted (onConn i f d) = sd_accepted d"
  "sd_stats (onConn i f d) = sd_stats d" "dom (sd_conns (onConn i f d)) = dom (sd_conns d)"
  by (auto simp: onConn_def split: if_splits)

lemma dropConnection_fields [simp]:
  "sd_conns (dropConnection i d) = (sd_conns d)(i := None)" "sd_config (dropConnection i d) = sd_config d"
  "sd_accepted (dropConnection i d) = sd_accepted d" "sd_stats (dropConnection i d) = sd_stats d"
  "sd_ctxDone (dropConnection i d) = sd_ctxDone d" "sd_left (dropConnection i d) = sd_left d ++ (sd_conns d |` {i})"
  by (auto simp: dropConnection_def map_add_def restrict_map_def fun_eq_iff split: option.split)

lemma Close_conns: "sd_conns (sim_Close i d) = (sd_conns d)(i := None)"
  by (auto simp: sim_Close_def removeConnection_def countDropped_def onConn_def)

lemma quiet_Close: "quiet d (sim_Close i d)"
  by (auto simp: quiet_def simConn_def sim_Close_def removeConnection_def countDropped_def onConn_def split: option.split)

text \<open>
  Only capability exchanges and watchdogs are answered: any other message, a request to disconnect,
  an equipment check and every request of an application included, whether routing is enabled or not, is handled
  without queueing a single message on any connection; a request to disconnect just closes its connection.
\<close>

theorem sim_unanswered:
  assumes "20 \<le> length data" and "Uint32 (bslice 4 8 data) AND 0x00FFFFFF = code" and "code \<noteq> 257" and "code \<noteq> 280"
  shows "\<exists>r d'. sim_handleMessage pick localIP i data d = SimReturns r d' \<and> quiet d d' \<and>
    (code = 282 \<and> data ! 4 AND 0x80 \<noteq> 0 \<longrightarrow> sd_conns d' i = None)"
proof -
  have mica: "\<exists>r. sim_handleMICA data d = SimReturns r d"
    by (simp add: sim_handleMICA_def split: sum.split unmarshal_error.split)
  have "quiet d d"
    by (simp add: quiet_def)
  then show ?thesis
    using assms mica quiet_Close [of d i]
    by (auto simp: sim_handleMessage_def sim_handleDPR_def sim_routeMessage_def sim_sendErrorResponse_def Close_conns quiet_def Let_def)
qed

section \<open>The count of the connections\<close>

definition accounts_of :: "SimDRA \<Rightarrow> SimConfig \<times> nat \<times> nat set \<times> u64 \<times> u64" where
  "accounts_of d = (sd_config d, sd_accepted d, dom (sd_conns d), st_ActiveConnections (sd_stats d), st_TotalConnections (sd_stats d))"

lemma offer_accounts:
  assumes "offer pick i data sent d = SimReturns r d'" and "\<And>x. accounts_of (sent x) = accounts_of x"
  shows "accounts_of d' = accounts_of d"
proof -
  have "accounts_of (sent (onConn i f d)) = accounts_of d" for f
    by (simp add: assms(2)) (simp add: accounts_of_def)
  then show ?thesis
    using assms(1) by (auto simp: offer_def split: option.splits if_splits)
qed

text \<open>Every handler but that of the DPR leaves the accounts alone; the DPR closes its connection.\<close>

lemma accounts_onStats [simp]:
  "(\<And>s. st_ActiveConnections (f s) = st_ActiveConnections s \<and> st_TotalConnections (f s) = st_TotalConnections s) \<Longrightarrow>
     accounts_of (onStats f d) = accounts_of d"
  by (simp add: accounts_of_def)

lemma accounts_onConn [simp]: "accounts_of (onConn i f d) = accounts_of d"
  by (simp add: accounts_of_def)

lemma handleCER_accounts: "sim_handleCER pick localIP i data d = SimReturns r d' \<Longrightarrow> accounts_of d' = accounts_of d"
  by (auto simp: sim_handleCER_def Let_def split: sum.splits prod.splits dest!: offer_accounts)

lemma handleDWR_accounts: "sim_handleDWR pick i data d = SimReturns r d' \<Longrightarrow> accounts_of d' = accounts_of d"
  by (auto simp: sim_handleDWR_def Let_def split: sum.splits prod.splits dest!: offer_accounts)

lemma handleDWA_accounts: "sim_handleDWA data d = SimReturns r d' \<Longrightarrow> accounts_of d' = accounts_of d"
  by (auto simp: sim_handleDWA_def Let_def split: sum.splits)

lemma handleMICA_accounts: "sim_handleMICA data d = SimReturns r d' \<Longrightarrow> accounts_of d' = accounts_of d"
  by (auto simp: sim_handleMICA_def split: sum.splits unmarshal_error.splits)

lemma handleMessage_accounts:
  assumes "sim_handleMessage pick localIP i data d = SimReturns r d'"
  shows "accounts_of d' = accounts_of d \<or> d' = sim_Close i d"
  using assms handleCER_accounts handleDWR_accounts handleDWA_accounts handleMICA_accounts
  by (simp add: sim_handleMessage_def sim_handleDPR_def sim_routeMessage_def sim_sendErrorResponse_def Let_def split: if_splits) (blast | auto)+

definition balanced :: "nat \<Rightarrow> SimDRA \<Rightarrow> bool" where
  "balanced pending d \<longleftrightarrow>
     finite (dom (sd_conns d)) \<and> (\<forall>i \<in> dom (sd_conns d). i < sd_accepted d) \<and>
     unat (st_ActiveConnections (sd_stats d)) = card (dom (sd_conns d)) + pending \<and>
     int (card (dom (sd_conns d)) + pending) \<le> sim_MaxConnections (sd_config d) \<and>
     st_TotalConnections (sd_stats d) = word_of_nat (sd_accepted d)"

lemma balanced_accounts: "accounts_of d' = accounts_of d \<Longrightarrow> balanced pending d \<Longrightarrow> balanced pending d'"
  by (simp add: balanced_def accounts_of_def)

text \<open>The counters between the two halves of a removal are the \<open>sa_pending\<close> ones.\<close>

record sim_sys =
  sa_dra :: SimDRA
  sa_pending :: nat

inductive sim_step :: "sim_sys \<Rightarrow> sim_sys \<Rightarrow> bool" where
  sa_accept: "sim_step y (y\<lparr>sa_dra := sim_accept (sa_dra y)\<rparr>)"
| sa_drop: "sd_conns (sa_dra y) i \<noteq> None \<Longrightarrow>
    sim_step y (y\<lparr>sa_dra := dropConnection i (sa_dra y), sa_pending := sa_pending y + 1\<rparr>)"
| sa_count: "0 < sa_pending y \<Longrightarrow> sim_step y (y\<lparr>sa_dra := countDropped (sa_dra y), sa_pending := sa_pending y - 1\<rparr>)"
| sa_receive: "sim_receive pick localIP i message (sa_dra y) = Some d \<Longrightarrow> sim_step y (y\<lparr>sa_dra := d\<rparr>)"
| sa_write: "sim_write ok i (sa_dra y) = Some (written, d) \<Longrightarrow> sim_step y (y\<lparr>sa_dra := d\<rparr>)"
| sa_watchdog: "sim_sendDWR pick hop e2e i (sa_dra y) = (r, d) \<Longrightarrow> sim_step y (y\<lparr>sa_dra := d\<rparr>)"
| sa_micr: "sim_SendMICR pick late sid hop e2e imei i (sa_dra y) = SimReturns r d \<Longrightarrow> sim_step y (y\<lparr>sa_dra := d\<rparr>)"
| sa_cancel: "sim_step y (y\<lparr>sa_dra := (sa_dra y)\<lparr>sd_ctxDone := True\<rparr>\<rparr>)"

inductive sim_reach :: "SimConfig \<Rightarrow> sim_sys \<Rightarrow> bool" for cfg where
  sa_start: "NewDRA cfg = Inr d \<Longrightarrow> sim_reach cfg \<lparr>sa_dra = d, sa_pending = 0\<rparr>"
| sa_step: "sim_reach cfg y \<Longrightarrow> sim_step y y' \<Longrightarrow> sim_reach cfg y'"

lemma unat_dec: "0 < unat (w :: u64) \<Longrightarrow> unat (w + NOT 0) = unat w - 1"
  by (simp add: unat_minus_one unat_gt_0)

lemma balanced_drop:
  assumes "balanced pending d" and "sd_conns d i \<noteq> None"
  shows "balanced (Suc pending) (dropConnection i d)"
proof -
  have "card (dom (sd_conns d)) = Suc (card (dom (sd_conns d) - {i}))"
    using assms by (intro card.remove) (auto simp: balanced_def)
  then show ?thesis
    using assms(1) by (auto simp: balanced_def)
qed

lemma balanced_count:
  assumes "balanced (Suc pending) d"
  shows "balanced pending (countDropped d)"
  using assms unat_dec [of "st_ActiveConnections (sd_stats d)"] by (simp add: balanced_def countDropped_def)

lemma balanced_Close:
  assumes "balanced pending d"
  shows "balanced pending (sim_Close i d)"
proof (cases "sd_conns d i = None")
  case False
  let ?d = "onConn i (\<lambda>c. c\<lparr>sk_closed := True\<rparr>) d"
  have "balanced pending ?d"
    using assms by (intro balanced_accounts [of ?d d]) simp_all
  moreover have "sd_conns ?d i \<noteq> None"
    using False by (simp add: onConn_def)
  ultimately show ?thesis
    using False balanced_count [OF balanced_drop, of pending ?d i] by (auto simp: sim_Close_def removeConnection_def)
qed (use assms in \<open>simp add: sim_Close_def\<close>)

lemma small_word:
  assumes "int (unat (w :: u64)) < 2 ^ 63"
  shows "sint w = int (unat w)" and "unat (w + 1) = unat w + 1"
proof -
  have u: "uint w < 2 ^ 63" "0 \<le> uint w"
    using assms by simp_all
  then show "sint w = int (unat w)"
    using signed_take_bit_int_eq_self [of 63 "uint w", OF order_trans [OF _ u(2)]] by (simp add: sint_uint)
  have "unat w < 2 ^ 63"
    using u by (simp flip: nat_uint_eq)
  then show "unat (w + 1) = unat w + 1"
    using unat_add_lem [of w 1] by simp
qed

lemma balanced_accept:
  assumes "balanced pending d" and "sim_MaxConnections (sd_config d) < 2 ^ 63"
  shows "balanced pending (sim_accept d)"
proof -
  let ?a = "st_ActiveConnections (sd_stats d)" and ?m = "sim_MaxConnections (sd_config d)"
  have b: "unat ?a = card (dom (sd_conns d)) + pending" "int (unat ?a) \<le> ?m"
    using assms(1) by (simp_all add: balanced_def)
  then have s: "sint ?a = int (unat ?a)"
    using assms(2) by (intro small_word) simp
  show ?thesis
  proof (cases "sint ?a \<ge> ?m")
    case True
    then show ?thesis
      using assms(1) by (simp add: sim_accept_def addSimError_def balanced_def)
  next
    case False
    then have room: "int (unat ?a) < ?m"
      using s by simp
    then have "unat (?a + 1) = unat ?a + 1"
      using assms(2) by (intro small_word) simp
    moreover have "sd_accepted d \<notin> dom (sd_conns d)"
      using assms(1) by (auto simp: balanced_def)
    ultimately show ?thesis
      using False assms(1) b room
      by (auto simp: sim_accept_def handleConnection_def balanced_def card_insert_if less_Suc_eq)
  qed
qed

lemma receive_accounts:
  assumes "sim_receive pick localIP i message d = Some d'"
  obtains d1 d2 where "accounts_of d1 = accounts_of d" and "accounts_of d2 = accounts_of d1 \<or> d2 = sim_Close i d1" and "accounts_of d' = accounts_of d2"
proof -
  define d1 where "d1 = onStats (\<lambda>s. s\<lparr>st_MessagesReceived := st_MessagesReceived s + 1,
      st_BytesReceived := st_BytesReceived s + word_of_nat (length message), st_TotalMessages := st_TotalMessages s + 1\<rparr>) d"
  obtain r d2 where m: "sim_handleMessage pick localIP i message d1 = SimReturns r d2" and d': "d' = d2 \<or> d' = addSimError d2"
    using assms by (auto simp: sim_receive_def d1_def Let_def split: sim_outcome.splits option.splits)
  show ?thesis
    using that [of d1 d2] handleMessage_accounts [OF m] d' by (auto simp: d1_def addSimError_def)
qed

lemma write_accounts:
  assumes "sim_write ok i d = Some (w, d')"
  obtains d1 where "accounts_of d1 = accounts_of d" and "accounts_of d' = accounts_of d1 \<or> d' = sim_Close i d1"
proof -
  obtain c data rest where c: "simConn d i = Some c" "sk_sendCh c = data # rest"
    using assms by (auto simp: sim_write_def split: option.splits list.splits)
  let ?d1 = "onConn i (\<lambda>c. c\<lparr>sk_sendCh := rest\<rparr>) d"
  have e: "accounts_of (if sd_ctxDone d \<or> sd_conns d i = None then ?d1 else addSimError ?d1) = accounts_of d" "accounts_of ?d1 = accounts_of d"
    by (simp_all add: addSimError_def)
  show ?thesis
  proof (cases "ok \<and> sd_conns d i \<noteq> None")
    case True
    then show ?thesis
      using that [OF e(2)] assms c by (auto simp: sim_write_def Let_def)
  next
    case False
    then show ?thesis
      using that [OF e(1)] assms c by (auto simp: sim_write_def Let_def)
  qed
qed

lemma sendDWR_accounts: "sim_sendDWR pick hop e2e i d = (r, d') \<Longrightarrow> accounts_of d' = accounts_of d"
  by (auto simp: sim_sendDWR_def Let_def split: sum.splits prod.splits sim_outcome.splits dest!: offer_accounts)

lemma SendMICR_accounts: "sim_SendMICR pick late sid hop e2e imei i d = SimReturns r d' \<Longrightarrow> accounts_of d' = accounts_of d"
  by (auto simp: sim_SendMICR_def split: option.splits if_splits sum.splits prod.splits sim_outcome.splits dest!: offer_accounts)

lemma Close_config [simp]: "sd_config (sim_Close i d) = sd_config d"
  by (simp add: sim_Close_def removeConnection_def countDropped_def)

text \<open>What every step keeps: the balance and the configuration.\<close>

definition in_order :: "SimConfig \<Rightarrow> sim_sys \<Rightarrow> bool" where
  "in_order cfg y \<longleftrightarrow> balanced (sa_pending y) (sa_dra y) \<and> sd_config (sa_dra y) = cfg"

lemma in_order_accounts: "accounts_of d = accounts_of (sa_dra y) \<Longrightarrow> in_order cfg y \<Longrightarrow> in_order cfg (y\<lparr>sa_dra := d\<rparr>)"
  using balanced_accounts [of d "sa_dra y"] by (simp add: in_order_def accounts_of_def)

lemma in_order_Close: "in_order cfg y \<Longrightarrow> in_order cfg (y\<lparr>sa_dra := sim_Close i (sa_dra y)\<rparr>)"
  using balanced_Close by (simp add: in_order_def)

lemma in_order_step:
  assumes "sim_step y y'" and "in_order cfg y" and "sim_MaxConnections cfg < 2 ^ 63"
  shows "in_order cfg y'"
  using assms(1)
proof cases
  case sa_accept
  then show ?thesis
    using assms(2,3) balanced_accept [of "sa_pending y" "sa_dra y"]
    by (simp add: in_order_def sim_accept_def addSimError_def handleConnection_def)
next
  case (sa_drop i)
  then show ?thesis
    using assms(2) balanced_drop [of "sa_pending y" "sa_dra y" i] by (simp add: in_order_def)
next
  case sa_count
  then obtain n where "sa_pending y = Suc n"
    by (cases "sa_pending y") simp_all
  then show ?thesis
    using sa_count assms(2) balanced_count [of n "sa_dra y"] by (simp add: in_order_def countDropped_def)
next
  case (sa_receive pick localIP i message d)
  obtain d1 d2 where "accounts_of d1 = accounts_of (sa_dra y)" "accounts_of d2 = accounts_of d1 \<or> d2 = sim_Close i d1" "accounts_of d = accounts_of d2"
    by (rule receive_accounts [OF sa_receive(2)])
  then show ?thesis
    using in_order_accounts [OF _ assms(2), of d1] in_order_Close [of cfg "y\<lparr>sa_dra := d1\<rparr>" i]
      in_order_accounts [of d "y\<lparr>sa_dra := d2\<rparr>" cfg] in_order_accounts [of d2 "y\<lparr>sa_dra := d1\<rparr>" cfg] sa_receive(1) by auto
next
  case (sa_write ok i written d)
  obtain d1 where "accounts_of d1 = accounts_of (sa_dra y)" "accounts_of d = accounts_of d1 \<or> d = sim_Close i d1"
    by (rule write_accounts [OF sa_write(2)])
  then show ?thesis
    using in_order_accounts [OF _ assms(2), of d1] in_order_Close [of cfg "y\<lparr>sa_dra := d1\<rparr>" i]
      in_order_accounts [of d "y\<lparr>sa_dra := d1\<rparr>" cfg] sa_write(1) by auto
next
  case (sa_watchdog pick hop e2e i r d)
  then show ?thesis
    using in_order_accounts [OF sendDWR_accounts assms(2)] by simp
next
  case (sa_micr pick late sid hop e2e imei i r d)
  then show ?thesis
    using in_order_accounts [OF SendMICR_accounts assms(2)] by simp
next
  case sa_cancel
  then show ?thesis
    using in_order_accounts [OF _ assms(2)] by (simp add: accounts_of_def)
qed

text \<open>
  C40. The simulator never has more connections than its limit, and its count of active connections is exact: in
  every interleaving of accepting, receiving, writing, watchdogs and closing it is the number of connections in the
  map and of those whose removal is not counted yet, and all connections ever accepted are counted.
\<close>

theorem sim_connections_bounded:
  assumes "SimConfig_Validate cfg = None" and "sim_MaxConnections cfg < 2 ^ 63" and "sim_reach cfg y" and "d = sa_dra y"
  shows "unat (st_ActiveConnections (sd_stats d)) = card (dom (sd_conns d)) + sa_pending y \<and>
    int (card (dom (sd_conns d)) + sa_pending y) \<le> sim_MaxConnections cfg \<and>
    st_TotalConnections (sd_stats d) = word_of_nat (sd_accepted d)"
proof -
  have "in_order cfg y"
    using assms(3)
  proof induction
    case (sa_start d)
    have "0 < sim_MaxConnections cfg"
      using assms(1) by (auto simp: SimConfig_Validate_def split: if_splits)
    then show ?case
      using sa_start by (auto simp: NewDRA_def in_order_def balanced_def zeroStats_def Let_def split: sum.splits if_splits)
  qed (use in_order_step assms(2) in blast)
  then show ?thesis
    by (auto simp: in_order_def balanced_def assms(4))
qed

section \<open>Shutdown\<close>

text \<open>
  The lock \<^verbatim>\<open>connMu\<close> and who needs it. A connection is open, has its \<^verbatim>\<open>closeOnce\<close> running (waiting for the lock or holding
  it inside \<^verbatim>\<open>removeConnection\<close>), or is gone. \<^verbatim>\<open>Shutdown\<close> takes the lock, closes each connection of the map, and
  releases it; the closing runs the body of \<^verbatim>\<open>closeOnce\<close>, which needs the lock again, or waits for whoever runs it.
\<close>

datatype closing = COpen | CWaits | CRemoves | CGone

datatype holder = ByShutdown | ByConn nat

datatype shutdown = Idle | WantsLock | Closing "nat list" | NeedsLock nat "nat list" | AwaitsOnce nat "nat list" | Returned

record lock_sys =
  lk_holder :: "holder option"
  lk_conn :: "nat \<Rightarrow> closing"
  lk_shutdown :: shutdown

inductive lock_step :: "lock_sys \<Rightarrow> lock_sys \<Rightarrow> bool" where
  lk_close: "lk_conn s i = COpen \<Longrightarrow> lock_step s (s\<lparr>lk_conn := (lk_conn s)(i := CWaits)\<rparr>)"
| lk_take: "lk_conn s i = CWaits \<Longrightarrow> lk_holder s = None \<Longrightarrow>
    lock_step s (s\<lparr>lk_conn := (lk_conn s)(i := CRemoves), lk_holder := Some (ByConn i)\<rparr>)"
| lk_drop: "lk_conn s i = CRemoves \<Longrightarrow> lk_holder s = Some (ByConn i) \<Longrightarrow>
    lock_step s (s\<lparr>lk_conn := (lk_conn s)(i := CGone), lk_holder := None\<rparr>)"
| lk_signal: "lk_shutdown s = Idle \<Longrightarrow> lock_step s (s\<lparr>lk_shutdown := WantsLock\<rparr>)"
| lk_locked: "lk_shutdown s = WantsLock \<Longrightarrow> lk_holder s = None \<Longrightarrow> distinct is \<Longrightarrow>
    (\<forall>i. i \<in> set is \<longleftrightarrow> lk_conn s i = COpen \<or> lk_conn s i = CWaits \<or> lk_conn s i = CRemoves) \<Longrightarrow>
    lock_step s (s\<lparr>lk_shutdown := Closing is, lk_holder := Some ByShutdown\<rparr>)"
| lk_first: "lk_shutdown s = Closing (i # is) \<Longrightarrow> lk_conn s i = COpen \<Longrightarrow>
    lock_step s (s\<lparr>lk_shutdown := NeedsLock i is\<rparr>)"
| lk_second: "lk_shutdown s = Closing (i # is) \<Longrightarrow> lk_conn s i \<noteq> COpen \<Longrightarrow>
    lock_step s (s\<lparr>lk_shutdown := AwaitsOnce i is\<rparr>)"
| lk_removed: "lk_shutdown s = NeedsLock i is \<Longrightarrow> lk_holder s = None \<Longrightarrow>
    lock_step s (s\<lparr>lk_conn := (lk_conn s)(i := CGone), lk_shutdown := Closing is\<rparr>)"
| lk_waited: "lk_shutdown s = AwaitsOnce i is \<Longrightarrow> lk_conn s i = CGone \<Longrightarrow> lock_step s (s\<lparr>lk_shutdown := Closing is\<rparr>)"
| lk_return: "lk_shutdown s = Closing [] \<Longrightarrow> lock_step s (s\<lparr>lk_shutdown := Returned, lk_holder := None\<rparr>)"

text \<open>\<^verbatim>\<open>Shutdown\<close> holds the lock with a connection before it that is not gone.\<close>

definition stuck :: "lock_sys \<Rightarrow> bool" where
  "stuck s \<longleftrightarrow> lk_holder s = Some ByShutdown \<and>
     (case lk_shutdown s of
        Closing (i # _) \<Rightarrow> lk_conn s i \<noteq> CGone | NeedsLock i _ \<Rightarrow> True | AwaitsOnce i _ \<Rightarrow> lk_conn s i \<noteq> CGone | _ \<Rightarrow> False)"

lemma stuck_step: "lock_step s s' \<Longrightarrow> stuck s \<Longrightarrow> stuck s'"
  by (induction rule: lock_step.induct) (auto simp: stuck_def split: shutdown.splits list.splits)

text \<open>
  The simulator cannot be shut down while a client is connected: as soon as \<^verbatim>\<open>Shutdown\<close> is about to take the lock
  of the connections and one of them is not gone, it takes the lock and never returns, whatever the connections do;
  the deadline it is given is not reached, because it is only looked at afterwards.
\<close>

theorem sim_shutdown_hangs:
  assumes "lk_shutdown s = WantsLock" and "lk_holder s = None" and "lk_conn s i \<noteq> CGone"
    and "lock_step s s1" and "lk_shutdown s1 \<noteq> WantsLock" and "lock_step\<^sup>*\<^sup>* s1 s2"
  shows "lk_shutdown s2 \<noteq> Returned \<and> lk_holder s2 = Some ByShutdown"
proof -
  obtain "is" where l: "s1 = s\<lparr>lk_shutdown := Closing is, lk_holder := Some ByShutdown\<rparr>"
      "\<forall>j. j \<in> set is \<longleftrightarrow> lk_conn s j = COpen \<or> lk_conn s j = CWaits \<or> lk_conn s j = CRemoves"
    using assms(4,1,5) by cases auto
  have "i \<in> set is"
    using l(2) assms(3) by (cases "lk_conn s i") auto
  then obtain j js where "is = j # js"
    by (cases "is") auto
  moreover from this have "lk_conn s j \<noteq> CGone"
    using l(2) by (metis closing.distinct(5,9,11) list.set_intros(1))
  ultimately have "stuck s1"
    using l(1) by (simp add: stuck_def)
  with assms(6) have "stuck s2"
    by (induction rule: rtranclp_induct) (use stuck_step in blast)+
  then show ?thesis
    by (auto simp: stuck_def split: shutdown.splits)
qed

section \<open>Examples\<close>

definition example_sim_config :: SimConfig where
  "example_sim_config =
     \<lparr>sim_Host = gostr ''0.0.0.0'', sim_Port = 3869, sim_OriginHost = gostr ''dra'', sim_OriginRealm = gostr ''net'',
      sim_ProductName = gostr ''DRA'', sim_VendorID = 10415, sim_MaxConnections = 1, sim_ReadTimeout = 1, sim_WriteTimeout = 1,
      sim_DWRInterval = 1, sim_EnableMetrics = False, sim_MetricsInterval = 0, sim_EnableRouting = False, sim_BackendServers = []\<rparr>"

theorem sim_connections_bounded_witness:
  "\<exists>y. sim_reach example_sim_config y \<and> sd_accepted (sa_dra y) = 1 \<and> unat (st_ActiveConnections (sd_stats (sa_dra y))) = 1 \<and>
     card (dom (sd_conns (sa_dra y))) = 1"
proof -
  obtain d where n: "NewDRA example_sim_config = Inr d" and e: "sd_conns d = Map.empty" "sd_accepted d = 0" "st_ActiveConnections (sd_stats d) = 0"
      "sd_config d = example_sim_config"
    by (simp add: NewDRA_def example_sim_config_def zeroStats_def)
  let ?y = "\<lparr>sa_dra = sim_accept d, sa_pending = 0\<rparr>"
  have r: "sim_reach example_sim_config ?y"
    using sa_step [OF sa_start [OF n] sa_accept] by simp
  have c: "sd_conns (sim_accept d) = [0 \<mapsto> newClientConnection]" "sd_accepted (sim_accept d) = 1"
    using e by (simp_all add: sim_accept_def handleConnection_def example_sim_config_def)
  have v: "SimConfig_Validate example_sim_config = None" "sim_MaxConnections example_sim_config < 2 ^ 63"
    by (simp_all add: SimConfig_Validate_def example_sim_config_def gostr_def)
  then show ?thesis
    using sim_connections_bounded [OF v r refl] r c by (intro exI [of _ ?y]) simp
qed

definition example_request :: bytes where
  "example_request = marshalHeader ((gm_Header example_MICR)\<lparr>hdr_Length := 20\<rparr>)"

theorem sim_unanswered_witness:
  "\<exists>d r d'. NewDRA example_sim_config = Inr d \<and>
     sim_handleMessage True None 0 example_request (handleConnection d) = SimReturns r d' \<and> quiet (handleConnection d) d'"
proof -
  have "20 \<le> length example_request" "Uint32 (bslice 4 8 example_request) AND 0x00FFFFFF = 324"
    by code_simp+
  from sim_unanswered [OF this, of True None 0] show ?thesis
    by (simp add: NewDRA_def example_sim_config_def)
qed

theorem sim_shutdown_hangs_witness:
  "\<exists>s s1. lock_step s s1 \<and> lk_shutdown s1 = Closing [0] \<and> (\<forall>s2. lock_step\<^sup>*\<^sup>* s1 s2 \<longrightarrow> lk_shutdown s2 \<noteq> Returned)"
proof -
  let ?s = "\<lparr>lk_holder = None, lk_conn = (\<lambda>i. if i = 0 then COpen else CGone), lk_shutdown = WantsLock\<rparr>"
  let ?s1 = "?s\<lparr>lk_shutdown := Closing [0], lk_holder := Some ByShutdown\<rparr>"
  have l: "lock_step ?s ?s1"
    by (rule lk_locked) auto
  then show ?thesis
    using sim_shutdown_hangs [of ?s 0 ?s1] by (intro exI [of _ ?s] exI [of _ ?s1]) auto
qed

end
