(* ===== verification/Simple_Dra.thy ===== *)
theory Simple_Dra
  imports Server_Peering
begin

text \<open>
  The small agent of \<^verbatim>\<open>simulator/simple-dra/main.go\<close>, a server with handlers of its own for the base
  protocol. It registers them without the request bit. The lemmas show what follows: its handlers see
  no request at all, so every request is answered by the default handlers of the server, and they
  do see answers, so that a watchdog answer is answered by another one, for ever between two of them.
\<close>

section \<open>Configuration\<close>

record SimpleConfig =
  sp_ListenAddress :: gostring
  sp_OriginHost :: gostring
  sp_OriginRealm :: gostring
  sp_ProductName :: gostring
  sp_VendorID :: u32

definition sp_DefaultConfig :: SimpleConfig where
  "sp_DefaultConfig =
     \<lparr>sp_ListenAddress = gostr ''0.0.0.0:3868'', sp_OriginHost = gostr ''dra-simulator.example.com'',
      sp_OriginRealm = gostr ''example.com'', sp_ProductName = gostr ''DRA-Simulator'', sp_VendorID = 10415\<rparr>"

definition sp_serverConfig :: "SimpleConfig \<Rightarrow> ServerConfig" where
  "sp_serverConfig config =
     \<lparr>svc_ListenAddress = sp_ListenAddress config, svc_MaxConnections = 100,
      svc_ConnectionConfig =
        \<lparr>scf_MaxMessageSize = 65535, scf_SendChannelSize = 100, scf_RecvChannelSize = 100,
         scf_OriginHost = sp_OriginHost config, scf_OriginRealm = sp_OriginRealm config,
         scf_ProductName = sp_ProductName config, scf_VendorID = sp_VendorID config, scf_HandleWatchdog = False\<rparr>\<rparr>"

section \<open>Handlers\<close>

text \<open>
  \<open>localIP\<close> is the address of the socket of a connection, \<open>None\<close> if it is not a TCP address. A marshalled answer
  is written; the errors of \<^verbatim>\<open>Marshal\<close> and of the write end the handler.
\<close>

definition sp_CEA :: "SimpleConfig \<Rightarrow> bytes option \<Rightarrow> CapabilitiesExchangeRequest \<Rightarrow> CapabilitiesExchangeAnswer" where
  "sp_CEA config localIP cer =
     (let cea = success_CEA (hdr_HopByHopID (cer_Header cer)) (hdr_EndToEndID (cer_Header cer)) (sp_OriginHost config)
            (sp_OriginRealm config) (sp_ProductName config) (sp_VendorID config)
            (case localIP of None \<Rightarrow> [] | Some ip \<Rightarrow> [ip])
      in cea\<lparr>cea_AuthApplicationId := cer_AuthApplicationId cer, cea_AcctApplicationId := cer_AcctApplicationId cer\<rparr>)"

definition sp_handleCER :: "(nat \<Rightarrow> bytes option) \<Rightarrow> SimpleConfig \<Rightarrow> handler" where
  "sp_handleCER localIP config msg i w =
     (case CER_Unmarshal (msg_Header msg @ msg_Body msg) CER_zero of
        Inl err \<Rightarrow> (Returned, w)
      | Inr cer \<Rightarrow>
          (case CEA_Marshal (sp_CEA config (localIP i) cer) of
             Inl err \<Rightarrow> (Returned, w)
           | Inr (_, ceaData) \<Rightarrow> (Returned, snd (response_Write ceaData i w))))"

definition sp_handleDWR :: "SimpleConfig \<Rightarrow> handler" where
  "sp_handleDWR config msg i w =
     (case DWR_Unmarshal (msg_Header msg @ msg_Body msg) DWR_zero of
        Inl err \<Rightarrow> (Returned, w)
      | Inr dwr \<Rightarrow>
          (case DWA_Marshal (success_DWA (hdr_HopByHopID (dwr_Header dwr)) (hdr_EndToEndID (dwr_Header dwr))
                  (sp_OriginHost config) (sp_OriginRealm config)) of
             Inl err \<Rightarrow> (Returned, w)
           | Inr (_, dwaData) \<Rightarrow> (Returned, snd (response_Write dwaData i w))))"

text \<open>Unlike the default handler, this one closes only if the DPA was written.\<close>

definition sp_handleDPR :: "SimpleConfig \<Rightarrow> handler" where
  "sp_handleDPR config msg i w =
     (case DPR_Unmarshal (msg_Header msg @ msg_Body msg) DPR_zero of
        Inl err \<Rightarrow> (Returned, w)
      | Inr dpr \<Rightarrow>
          (case DPA_Marshal (success_DPA (hdr_HopByHopID (dpr_Header dpr)) (hdr_EndToEndID (dpr_Header dpr))
                  (sp_OriginHost config) (sp_OriginRealm config)) of
             Inl err \<Rightarrow> (Returned, w)
           | Inr (_, dpaData) \<Rightarrow>
               (case response_Write dpaData i w of
                  (None, w1) \<Rightarrow> (Returned, w1)
                | (Some _, w1) \<Rightarrow> (Returned, w1\<lparr>w_closeTimers := w_closeTimers w1 @ [i]\<rparr>))))"

definition sp_registerHandlers :: "(nat \<Rightarrow> bytes option) \<Rightarrow> SimpleConfig \<Rightarrow> Server \<Rightarrow> Server" where
  "sp_registerHandlers localIP config s =
     (let s1 = sv_HandleFunc \<lparr>cmd_Interface = 0, cmd_Code = 257, cmd_Request = False\<rparr> (sp_handleCER localIP config) s;
          s2 = sv_HandleFunc \<lparr>cmd_Interface = 0, cmd_Code = 280, cmd_Request = False\<rparr> (sp_handleDWR config) s1
      in sv_HandleFunc \<lparr>cmd_Interface = 0, cmd_Code = 282, cmd_Request = False\<rparr> (sp_handleDPR config) s2)"

definition NewDRASimulator :: "(gostring \<Rightarrow> bytes option) \<Rightarrow> (nat \<Rightarrow> bytes option) \<Rightarrow> SimpleConfig \<Rightarrow> Server" where
  "NewDRASimulator parseIP localIP config =
     sp_registerHandlers localIP config (NewServer parseIP (Some (sp_serverConfig config)))"


interpretation sp_cer: server_handler "sp_handleCER localIP config" for localIP config
  by unfold_locales (auto simp: sp_handleCER_def intro: handler_effect.intros split: sum.split prod.split)

interpretation sp_dwr: server_handler "sp_handleDWR config" for config
  by unfold_locales (auto simp: sp_handleDWR_def intro: handler_effect.intros split: sum.split prod.split)

interpretation sp_dpr: server_handler "sp_handleDPR config" for config
proof unfold_locales
  fix w m i
  have "handler_effect w (snd (response_Write b i w))" for b
    by (intro handler_effect.intros)
  then show "handler_effect w (snd (sp_handleDPR config m i w))"
    by (auto simp: sp_handleDPR_def intro: handler_effect.intros split: sum.split prod.split option.split) (metis he_timer snd_conv)+
qed

section \<open>What the handlers see\<close>

lemma NewDRASimulator_handlers:
  "cmd_Request cmd \<Longrightarrow> getHandler cmd (NewDRASimulator parseIP localIP config) = getHandler cmd (NewServer parseIP (Some (sp_serverConfig config)))"
  "getHandler \<lparr>cmd_Interface = 0, cmd_Code = 257, cmd_Request = False\<rparr> (NewDRASimulator parseIP localIP config) = Some (sp_handleCER localIP config)"
  "getHandler \<lparr>cmd_Interface = 0, cmd_Code = 280, cmd_Request = False\<rparr> (NewDRASimulator parseIP localIP config) = Some (sp_handleDWR config)"
  "getHandler \<lparr>cmd_Interface = 0, cmd_Code = 282, cmd_Request = False\<rparr> (NewDRASimulator parseIP localIP config) = Some (sp_handleDPR config)"
  by (auto simp: getHandler_def NewDRASimulator_def sp_registerHandlers_def sv_HandleFunc_def wrapHandler_def NewServer_def Let_def
      intro!: option.case_cong)

text \<open>
  The agent's own handlers never see a request: any message with the request bit is served exactly as by the plain
  server, with the default handlers, so that a CER is answered without the application ids the agent's handler
  would copy; what its handlers see are answers, whatever message of theirs arrives.
\<close>

theorem simple_dra_requests:
  assumes "ParseCommand (msg_Header m) = Inr cmd"
  shows "(cmd_Request cmd \<longrightarrow>
      serveMessage (NewDRASimulator parseIP localIP config) m w = serveMessage (NewServer parseIP (Some (sp_serverConfig config))) m w) \<and>
    (\<not> cmd_Request cmd \<and> cmd_Interface cmd = 0 \<and> cmd_Code cmd = 257 \<longrightarrow>
      fst (serveMessage (NewDRASimulator parseIP localIP config) m w) = Some (sp_handleCER localIP config)) \<and>
    (\<not> cmd_Request cmd \<and> cmd_Interface cmd = 0 \<and> cmd_Code cmd = 280 \<longrightarrow>
      fst (serveMessage (NewDRASimulator parseIP localIP config) m w) = Some (sp_handleDWR config))"
  using assms NewDRASimulator_handlers(1) [of cmd parseIP localIP config] NewDRASimulator_handlers(2-4) [of parseIP localIP config]
  by (cases cmd) (auto simp: serveMessage_def Let_def)

section \<open>Watchdog answers\<close>

context generated_message
begin

text \<open>Another message type reads what was written, whatever fields it knows.\<close>

lemma read_as:
  assumes m: "Marshal m = Inr (m', bs)" and len: "length bs < 2 ^ 24" and code: "unat (hdr_CommandCode (header m)) < 2 ^ 24"
  shows "unmarshalMessage put step bs z = Inr (fold (readback step) (writes m) (put (header m') z))"
proof -
  note c = Marshal_cases [OF m]
  have h: "header m' = (header m)\<lparr>hdr_Length := word_of_nat (length bs)\<rparr>"
    using c(2) by (simp add: header_set)
  have "take_bit 24 (hdr_Length (header m')) = hdr_Length (header m')"
    "take_bit 24 (hdr_CommandCode (header m')) = hdr_CommandCode (header m')"
    using len code by (simp_all add: h take_bit_24_less unsigned_of_nat take_bit_nat_eq_self)
  then have hdr: "unmarshalHeader (marshalHeader (header m')) = Inr (header m')"
    using unmarshalHeader_append [of "header m'" "[]"] by simp
  have "length (writeAVPs (writes m)) < 2 ^ 24"
    using len by (subst (asm) c(3)) simp
  then have "walkAVPs step (writeAVPs (writes m)) (put (header m') z) = Inr (fold (readback step) (writes m) (put (header m') z))"
    using walkAVPs_writeAVPs [of "writes m" step "[]"] by simp
  then show ?thesis
    by (subst c(3)) (simp add: unmarshalMessage_def hdr)
qed

end

lemma DWR_avp_header [simp]: "dwr_Header (DWR_avp c v b m) = dwr_Header m"
  by (simp add: DWR_avp_def with_DiameterIdentity_def with_Unsigned32_def with_decoded split: sum.split avp_value.split)

lemma fold_readback_header: "dwr_Header (fold (readback DWR_avp) ws m) = dwr_Header m"
  by (induction ws arbitrary: m) (simp_all add: readback_def split: prod.split)

text \<open>
  A watchdog answer is answered: the DWA of any peer is read by the agent, taken by its handler for a DWR and
  answered by a DWA of its own with the same ids, which is just such a message again. Two of these agents
  answer each other without end.
\<close>

theorem simple_dra_pingpong:
  assumes "DWA_Marshal (success_DWA hbh e2e host realm) = Inr (dwa, bs)" and "sane_identity host realm"
    and "sane_identity (sp_OriginHost config) (sp_OriginRealm config)"
    and "w_conns w i = Some k" and "wc_open k" and "\<not> wc_broken k"
  shows "\<exists>m h w1 w2 dwa' out. ReadMessage (bs @ rest) = ((Some m, None), rest) \<and>
    serveMessage (NewDRASimulator parseIP localIP config) m w = (Some h, w1) \<and> h m i w1 = (Returned, w2) \<and>
    w_conns w2 i = Some (k\<lparr>wc_written := wc_written k @ [out]\<rparr>) \<and>
    DWA_Marshal (success_DWA hbh e2e (sp_OriginHost config) (sp_OriginRealm config)) = Inr (dwa', out)"
proof -
  let ?s = "NewDRASimulator parseIP localIP config"
  have len: "length bs < 2 ^ 24" and d: "dwa = (success_DWA hbh e2e host realm)\<lparr>dwa_Header :=
      (dwa_Header (success_DWA hbh e2e host realm))\<lparr>hdr_Length := word_of_nat (length bs)\<rparr>\<rparr>"
    using success_DWA_codec [OF assms(2), of hbh e2e] assms(1) by force+
  obtain m where m: "ReadMessage (bs @ rest) = ((Some m, None), rest)"
      "msg_Header m = marshalHeader (dwa_Header dwa)" "msg_Header m @ msg_Body m = bs"
    by (rule dwa.arrives [OF assms(1) len])
  define w1 where "w1 = snd (serveMessage ?s m w)"
  have s: "serveMessage ?s m w = (Some (sp_handleDWR config), w1)"
    using m(2) d by (simp add: w1_def serveMessage_def ParseCommand_marshalHeader NewDRASimulator_handlers success_defs Let_def)
  have k: "w_conns w1 i = Some k"
    using assms(4) by (simp add: w1_def serveMessage_def updStats_def Let_def split: sum.split)
  obtain dwr where u: "DWR_Unmarshal bs DWR_zero = Inr dwr" "dwr_Header dwr = dwa_Header dwa"
    using dwa.read_as [OF assms(1) len, of "\<lambda>h m. m\<lparr>dwr_Header := h\<rparr>" DWR_avp DWR_zero] fold_readback_header
    by (simp add: DWR_Unmarshal_def success_defs)
  obtain dwa' out where o: "DWA_Marshal (success_DWA hbh e2e (sp_OriginHost config) (sp_OriginRealm config)) = Inr (dwa', out)"
    using success_DWA_codec [OF assms(3)] by blast
  have "sp_handleDWR config m i w1 = (Returned, snd (response_Write out i w1))"
    using m(3) u o d by (simp add: sp_handleDWR_def success_defs)
  then show ?thesis
    using m(1) s o response_Write_written [OF k assms(5,6), of out] by blast
qed

section \<open>Examples\<close>

theorem simple_dra_requests_witness:
  "serveMessage (NewDRASimulator (\<lambda>_. None) (\<lambda>_. None) sp_DefaultConfig)
     \<lparr>msg_Length = 20, msg_Header = marshalHeader (bare_header 280 True), msg_Body = []\<rparr> (vs_world example_run) =
   serveMessage (NewServer (\<lambda>_. None) (Some (sp_serverConfig sp_DefaultConfig)))
     \<lparr>msg_Length = 20, msg_Header = marshalHeader (bare_header 280 True), msg_Body = []\<rparr> (vs_world example_run)"
  using simple_dra_requests [of "\<lparr>msg_Length = 20, msg_Header = marshalHeader (bare_header 280 True), msg_Body = []\<rparr>"]
  by (simp add: ParseCommand_marshalHeader bare_header_def)

theorem simple_dra_pingpong_witness:
  "\<exists>dwa bs dwa' out m h w1 w2.
     DWA_Marshal (success_DWA 1 2 (gostr ''peer'') (gostr ''net'')) = Inr (dwa, bs) \<and>
     serveMessage (NewDRASimulator (\<lambda>_. None) (\<lambda>_. None) sp_DefaultConfig) m (vs_world example_run) = (Some h, w1) \<and>
     h m 0 w1 = (Returned, w2) \<and>
     DWA_Marshal (success_DWA 1 2 (gostr ''dra-simulator.example.com'') (gostr ''example.com'')) = Inr (dwa', out)"
proof -
  have p: "sane_identity (gostr ''peer'') (gostr ''net'')" "sane_identity (sp_OriginHost sp_DefaultConfig) (sp_OriginRealm sp_DefaultConfig)"
    by (simp_all add: sane_identity_def gostr_def sp_DefaultConfig_def)
  obtain dwa bs where m: "DWA_Marshal (success_DWA 1 2 (gostr ''peer'') (gostr ''net'')) = Inr (dwa, bs)"
    using success_DWA_codec [OF p(1)] by blast
  obtain k where k: "w_conns (vs_world example_run) 0 = Some k" "wc_open k" "\<not> wc_broken k"
    using example_run(5) by (auto simp: canWrite_def split: option.splits)
  have e: "sp_OriginHost sp_DefaultConfig = gostr ''dra-simulator.example.com''" "sp_OriginRealm sp_DefaultConfig = gostr ''example.com''"
    by (simp_all add: sp_DefaultConfig_def)
  show ?thesis
    using simple_dra_pingpong [OF m p k, of "[]" "\<lambda>_. None" "\<lambda>_. None"] m unfolding e by blast
qed

end
