(* ===== verification/Generated_S6a.thy ===== *)
theory Generated_S6a
  imports Generated_Base
begin

text \<open>
  The definitions of \<^verbatim>\<open>proto/s6a.proto\<close> for the request of authentication vectors and its answer, with the
  groups they contain, as the parser leaves them after \<^verbatim>\<open>ResolveAVPReferences\<close>.
\<close>

definition s6a_avps :: "AVPDefinition list" where
  "s6a_avps =
     [avpDef ''Session-Id'' 263 ''UTF8String'' True False 0 [],
      avpDef ''Auth-Session-State'' 277 ''Enumerated'' True False 0 [],
      avpDef ''Origin-Host'' 264 ''DiameterIdentity'' True False 0 [],
      avpDef ''Origin-Realm'' 296 ''DiameterIdentity'' True False 0 [],
      avpDef ''Destination-Realm'' 283 ''DiameterIdentity'' True False 0 [],
      avpDef ''User-Name'' 1 ''UTF8String'' True True 0 [],
      avpDef ''Visited-PLMN-Id'' 1407 ''OctetString'' True False 10415 [],
      avpDef ''DRMP'' 301 ''Enumerated'' False False 0 [],
      avpDef ''Vendor-Id'' 266 ''Unsigned32'' True False 0 [],
      avpDef ''Auth-Application-Id'' 258 ''Unsigned32'' True False 0 [],
      avpDef ''Acct-Application-Id'' 259 ''Unsigned32'' True False 0 [],
      avpDef ''Vendor-Specific-Application-Id'' 260 ''Grouped'' True False 0
        [optionalField 8, optionalField 9, optionalField 10],
      avpDef ''Destination-Host'' 293 ''DiameterIdentity'' True False 0 [],
      avpDef ''OC-Feature-Vector'' 622 ''Unsigned64'' False False 0 [],
      avpDef ''OC-Supported-Features'' 621 ''Grouped'' False False 0 [optionalField 13],
      avpDef ''Feature-List-ID'' 629 ''Unsigned32'' False False 10415 [],
      avpDef ''Feature-List'' 630 ''Unsigned32'' False False 10415 [],
      avpDef ''Supported-Features'' 628 ''Grouped'' False False 10415
        [requiredField 8, requiredField 15, requiredField 16],
      avpDef ''Number-Of-Requested-Vectors'' 1410 ''Unsigned32'' True False 10415 [],
      avpDef ''Immediate-Response-Preferred'' 1412 ''Unsigned32'' True False 10415 [],
      avpDef ''Re-Synchronization-Info'' 1411 ''OctetString'' True False 10415 [],
      avpDef ''Requested-EUTRAN-Authentication-Info'' 1408 ''Grouped'' True False 10415
        [optionalField 18, optionalField 19, optionalField 20],
      avpDef ''Requested-UTRAN-GERAN-Authentication-Info'' 1409 ''Grouped'' True False 10415
        [optionalField 18, optionalField 19, optionalField 20],
      avpDef ''AIR-Flags'' 1679 ''Unsigned32'' True False 10415 [],
      placeholder ''AVP'',
      avpDef ''Proxy-Host'' 280 ''DiameterIdentity'' True False 0 [],
      avpDef ''Proxy-State'' 33 ''OctetString'' True False 0 [],
      avpDef ''Proxy-Info'' 284 ''Grouped'' True False 0 [requiredField 25, optionalField 26],
      avpDef ''Route-Record'' 282 ''DiameterIdentity'' True False 0 [],
      avpDef ''Result-Code'' 268 ''Unsigned32'' True False 0 [],
      avpDef ''Experimental-Result-Code'' 298 ''Unsigned32'' True False 0 [],
      avpDef ''Experimental-Result'' 297 ''Grouped'' True False 0 [requiredField 8, requiredField 30],
      avpDef ''Error-Diagnostic'' 1614 ''Enumerated'' False False 10415 [],
      avpDef ''OC-Sequence-Number'' 624 ''Unsigned64'' True False 0 [],
      avpDef ''OC-Report-Type'' 625 ''Enumerated'' True False 0 [],
      avpDef ''OC-Reduction-Percentage'' 626 ''Unsigned32'' False False 0 [],
      avpDef ''OC-Validity-Duration'' 627 ''Unsigned32'' False False 0 [],
      avpDef ''OC-OLR'' 623 ''Grouped'' False False 0
        [requiredField 33, requiredField 34, optionalField 35, optionalField 36],
      avpDef ''Load-Type'' 652 ''Enumerated'' False False 0 [],
      avpDef ''Load-Value'' 653 ''Unsigned64'' False False 0 [],
      avpDef ''SourceID'' 649 ''DiameterIdentity'' False False 0 [],
      avpDef ''Load'' 651 ''Grouped'' False False 0 [optionalField 38, optionalField 39, optionalField 40],
      avpDef ''Item-Number'' 1419 ''Unsigned32'' True False 10415 [],
      avpDef ''RAND'' 1447 ''OctetString'' True False 10415 [],
      avpDef ''XRES'' 1448 ''OctetString'' True False 10415 [],
      avpDef ''AUTN'' 1449 ''OctetString'' True False 10415 [],
      avpDef ''KASME'' 1450 ''OctetString'' True False 10415 [],
      avpDef ''E-UTRAN-Vector'' 1414 ''Grouped'' True False 10415
        [optionalField 42, requiredField 43, requiredField 44, requiredField 45, requiredField 46],
      avpDef ''Confidentiality-Key'' 1451 ''OctetString'' True False 10415 [],
      avpDef ''Integrity-Key'' 1452 ''OctetString'' True False 10415 [],
      avpDef ''UTRAN-Vector'' 1415 ''Grouped'' True False 10415
        [optionalField 42, requiredField 43, requiredField 44, requiredField 45, requiredField 48, requiredField 49],
      avpDef ''SRES'' 1454 ''OctetString'' True False 10415 [],
      avpDef ''Kc'' 1453 ''OctetString'' True False 10415 [],
      avpDef ''GERAN-Vector'' 1416 ''Grouped'' True False 10415
        [optionalField 42, requiredField 43, requiredField 51, requiredField 52],
      avpDef ''Authentication-Info'' 1413 ''Grouped'' True False 10415
        [repeatedField 47 False, repeatedField 50 False, repeatedField 53 False],
      avpDef ''UE-Usage-Type'' 1680 ''Unsigned32'' False False 10415 [],
      avpDef ''Failed-AVP'' 279 ''Grouped'' True False 0 [repeatedField 24 False]]"

definition AIR_definition :: CommandDefinition where
  "AIR_definition =
     \<lparr>cd_Name = ''Authentication-Information-Request'', cd_Abbreviation = ''AIR'', cd_Code = 318, cd_ApplicationID = 16777251,
      cd_Request = True, cd_Proxiable = True, cd_Package = ''s6a'',
      cd_Fields =
        [fixedField 0, fixedField 1, fixedField 2, fixedField 3, fixedField 4, fixedField 5, fixedField 6,
         optionalField 7, optionalField 11, optionalField 12, optionalField 14, repeatedField 17 False,
         optionalField 21, optionalField 22, optionalField 23, repeatedField 24 False, repeatedField 27 False,
         repeatedField 28 False]\<rparr>"

definition AIA_definition :: CommandDefinition where
  "AIA_definition =
     \<lparr>cd_Name = ''Authentication-Information-Answer'', cd_Abbreviation = ''AIA'', cd_Code = 318, cd_ApplicationID = 16777251,
      cd_Request = False, cd_Proxiable = True, cd_Package = ''s6a'',
      cd_Fields =
        [fixedField 0, fixedField 1, fixedField 2, fixedField 3, optionalField 7, optionalField 11, optionalField 29,
         optionalField 31, optionalField 32, optionalField 14, optionalField 37, repeatedField 41 False,
         repeatedField 17 False, optionalField 54, optionalField 55, repeatedField 24 False, optionalField 56,
         repeatedField 27 False, repeatedField 28 False]\<rparr>"

text \<open>No two fields of a message or a group have the same code, so every AVP belongs to one field.\<close>

lemma s6a_codes_distinct:
  "distinct (codesOf s6a_avps (cd_Fields AIR_definition)) \<and> distinct (codesOf s6a_avps (cd_Fields AIA_definition)) \<and>
   list_all (\<lambda>d. distinct (codesOf s6a_avps (ad_GroupedFields d))) s6a_avps"
  by code_simp

end
