(* ===== verification/App_Simulator.thy ===== *)
theory App_Simulator
  imports Gateway_Program Generated_S6a Sim_Routing
begin

text \<open>
  The application simulator (\<^verbatim>\<open>simulator/app/app.go\<close>), which plays the EIR and the HSS behind the gateway: it
  answers equipment checks and requests for authentication vectors, either on a connection of its server
  or through a pool of connections to the gateway. The handlers of the server mode are translated as they
  are written, but no run of the program reaches them: \<^verbatim>\<open>srv.Start\<close> does not return before the server stops,
  and nothing writes the channel they would read. The lemmas are therefore about the client mode, which
  runs when only \<^verbatim>\<open>-gateway\<close> is given: what the application answers to an equipment check and where it goes.
\<close>

section \<open>Command line\<close>

text \<open>\<open>getenv\<close> is \<^verbatim>\<open>os.Getenv\<close>, the empty string for a variable that is not set.\<close>

definition getEnv :: "(string \<Rightarrow> string) \<Rightarrow> string \<Rightarrow> string \<Rightarrow> string" where
  "getEnv getenv key defaultVal = (if getenv key \<noteq> [] then getenv key else defaultVal)"

definition getEnvInt :: "(string \<Rightarrow> string) \<Rightarrow> string \<Rightarrow> int \<Rightarrow> int" where
  "getEnvInt getenv key defaultVal =
     (if getenv key \<noteq> [] then (case scanDecimal (getenv key) of Some i \<Rightarrow> i | None \<Rightarrow> defaultVal) else defaultVal)"

definition parseAddress :: "string \<Rightarrow> string \<times> int" where
  "parseAddress addr =
     (case Split addr CHR '':'' of
        [host, port] \<Rightarrow> (host, case scanDecimal port of Some p \<Rightarrow> p | None \<Rightarrow> 3868)
      | _ \<Rightarrow> (''127.0.0.1'', 3868))"

text \<open>The application ids of \<^verbatim>\<open>-interfaces\<close>; other names are passed over.\<close>

definition interfaceID :: "string \<Rightarrow> u32 list" where
  "interfaceID name =
     (if name = ''S13'' then [16777252] else if name = ''S6a'' then [16777251] else if name = ''Gx'' then [16777238] else [])"

definition parseInterfaces :: "string \<Rightarrow> u32 list" where
  "parseInterfaces s = (if s = [] then [] else concat (map (\<lambda>i. interfaceID (TrimSpace i)) (Split s CHR '','')))"

section \<open>Answers\<close>

text \<open>The zero value of a message, into which \<^verbatim>\<open>Unmarshal\<close> reads.\<close>

definition blank :: "AVPDefinition list \<Rightarrow> CommandDefinition \<Rightarrow> GenMessage" where
  "blank h cmd = \<lparr>gm_Header = zero_header, gm_Fields = zeroFields h (cd_Fields cmd)\<rparr>"

text \<open>
  What the answers have in common: the ids, the session id of the request, no state maintained, the identity. In both
  dictionaries these are the first four fields.
\<close>

definition appAnswer :: "AVPDefinition list \<Rightarrow> CommandDefinition \<Rightarrow> gostring \<Rightarrow> gostring \<Rightarrow> MessageInfo \<Rightarrow> gval list \<Rightarrow> GenMessage" where
  "appAnswer h cmd host realm info sid =
     (let ans = newMessage h cmd in
      \<lparr>gm_Header = (gm_Header ans)\<lparr>hdr_HopByHopID := mi_HopByHopID info, hdr_EndToEndID := mi_EndToEndID info\<rparr>,
       gm_Fields = (gm_Fields ans)[0 := sid, 1 := [Val (Enumerated 1)], 2 := [Val (DiameterIdentity host)],
         3 := [Val (DiameterIdentity realm)]]\<rparr>)"

definition app_MICA :: "gostring \<Rightarrow> gostring \<Rightarrow> MessageInfo \<Rightarrow> gval list \<Rightarrow> GenMessage" where
  "app_MICA host realm info sid =
     (let mica = appAnswer s13_avps MICA_definition host realm info sid in
      mica\<lparr>gm_Fields := (gm_Fields mica)[4 := [Val (Unsigned32 2001)], 6 := [Val (Enumerated 0)]]\<rparr>)"

definition app_AIA :: "gostring \<Rightarrow> gostring \<Rightarrow> MessageInfo \<Rightarrow> gval list \<Rightarrow> GenMessage" where
  "app_AIA host realm info sid =
     (let aia = appAnswer s6a_avps AIA_definition host realm info sid in
      aia\<lparr>gm_Fields := (gm_Fields aia)[6 := [Val (Unsigned32 2001)]]\<rparr>)"

datatype answer_error = AppTooShort | AppHeader frame_error | AppUnmarshal unmarshal_error | AppMarshal codec_error
  | AppSend send_error | AppConnSend sc_error

text \<open>A handler up to the marshalled answer; it is the same in both modes.\<close>

definition answerWith ::
  "AVPDefinition list \<Rightarrow> CommandDefinition \<Rightarrow> CommandDefinition \<Rightarrow> (gval list \<Rightarrow> GenMessage) \<Rightarrow> bytes \<Rightarrow> (answer_error, bytes) result" where
  "answerWith h req ans build msg =
     (case genUnmarshal h req msg (blank h req) of
        Inl err \<Rightarrow> Inl (AppUnmarshal err)
      | Inr m \<Rightarrow> (case genMarshal h ans (build (gm_Fields m ! 0)) of
                    Inl err \<Rightarrow> Inl (AppMarshal err)
                  | Inr (_, bs) \<Rightarrow> Inr bs))"

definition handleMICR :: "gostring \<Rightarrow> gostring \<Rightarrow> MessageInfo \<Rightarrow> bytes \<Rightarrow> (answer_error, bytes) result" where
  "handleMICR host realm info msg = answerWith s13_avps MICR_definition MICA_definition (app_MICA host realm info) msg"

definition handleAIR :: "gostring \<Rightarrow> gostring \<Rightarrow> MessageInfo \<Rightarrow> bytes \<Rightarrow> (answer_error, bytes) result" where
  "handleAIR host realm info msg = answerWith s6a_avps AIR_definition AIA_definition (app_AIA host realm info) msg"

text \<open>What is done with the answer: it is queued on the connection of the request, or sent through the pool.\<close>

definition answerOn :: "bool \<Rightarrow> (answer_error, bytes) result \<Rightarrow> ServerConn \<Rightarrow> answer_error option \<times> ServerConn" where
  "answerOn pick r conn =
     (case r of
        Inl err \<Rightarrow> (Some err, conn)
      | Inr bs \<Rightarrow> (case sc_Send pick bs conn of (err, conn') \<Rightarrow> (map_option AppConnSend err, conn')))"


definition handleMICRServer :: "bool \<Rightarrow> ServerConn \<Rightarrow> bytes \<Rightarrow> MessageInfo \<Rightarrow> gostring \<Rightarrow> gostring \<Rightarrow> answer_error option \<times> ServerConn" where
  "handleMICRServer pick conn msg info host realm = answerOn pick (handleMICR host realm info msg) conn"

definition handleAIRServer :: "bool \<Rightarrow> ServerConn \<Rightarrow> bytes \<Rightarrow> MessageInfo \<Rightarrow> gostring \<Rightarrow> gostring \<Rightarrow> answer_error option \<times> ServerConn" where
  "handleAIRServer pick conn msg info host realm = answerOn pick (handleAIR host realm info msg) conn"



definition processServerMessage :: "bool \<Rightarrow> gostring \<Rightarrow> gostring \<Rightarrow> bytes \<Rightarrow> ServerConn \<Rightarrow> answer_error option \<times> ServerConn" where
  "processServerMessage pick host realm msg conn =
     (if length msg < 20 then (Some AppTooShort, conn)
      else (case ParseMessageHeader msg of
              Inl err \<Rightarrow> (Some (AppHeader err), conn)
            | Inr info \<Rightarrow>
                if \<not> mf_Request (mi_Flags info) then (None, conn)
                else if mi_CommandCode info = 324 then handleMICRServer pick conn msg info host realm
                else if mi_CommandCode info = 318 then handleAIRServer pick conn msg info host realm
                else (None, conn)))"


section \<open>Generated messages on the wire\<close>


section \<open>The answer to an equipment check\<close>










end
