(* ===== verification/Load_Gen.thy ===== *)
theory Load_Gen
  imports Sim_Dra Generated_S6a "HOL-Library.Signed_Division"
begin

text \<open>
  The load generator of the DRA simulator (\<^verbatim>\<open>simulator/dra/load_generator.go\<close>): three loops that send requests at a
  rate that a ramp raises in steps, and the counters they keep. The lemmas show what the rate is after every
  number of steps of the ramp, that it ends at the target and that no timer is set to an interval it cannot have, what a
  run counts, and which configurations make a loop panic before its first request.
\<close>

section \<open>State\<close>

record LoadGeneratorConfig =
  lc_Duration :: int
  lc_RampUpTime :: int
  lc_S13RatePerSec :: int
  lc_S6aRatePerSec :: int
  lc_GxRatePerSec :: int

record LoadStats =
  ls_S13Sent :: u64
  ls_S13Received :: u64
  ls_S6aSent :: u64
  ls_S6aReceived :: u64
  ls_GxSent :: u64
  ls_GxReceived :: u64
  ls_TotalSent :: u64
  ls_TotalReceived :: u64
  ls_Errors :: u64

text \<open>The generator: the simulator it works on, its configuration, whether its context is done, its counters.\<close>

record LoadGenerator =
  lg_dra :: SimDRA
  lg_config :: LoadGeneratorConfig
  lg_ctxDone :: bool
  lg_stats :: LoadStats

definition NewLoadGenerator :: "SimDRA \<Rightarrow> LoadGeneratorConfig \<Rightarrow> LoadGenerator" where
  "NewLoadGenerator d cfg =
     \<lparr>lg_dra = d, lg_config = cfg, lg_ctxDone = False,
      lg_stats = \<lparr>ls_S13Sent = 0, ls_S13Received = 0, ls_S6aSent = 0, ls_S6aReceived = 0, ls_GxSent = 0, ls_GxReceived = 0,
        ls_TotalSent = 0, ls_TotalReceived = 0, ls_Errors = 0\<rparr>\<rparr>"

definition lg_Stop :: "LoadGenerator \<Rightarrow> LoadGenerator" where
  "lg_Stop lg = lg\<lparr>lg_ctxDone := True\<rparr>"

section \<open>The ramp\<close>

text \<open>
  The variables of a traffic loop, times in nanoseconds: \<open>tr_interval\<close> is what the request ticker is set to. A ticker
  refuses an interval that is not positive: \<^verbatim>\<open>NewTicker\<close> and \<^verbatim>\<open>Reset\<close> panic (\<open>None\<close>).
\<close>

record Traffic =
  tr_currentRate :: int
  tr_targetRate :: int
  tr_rateIncrement :: int
  tr_rampUpTime :: int
  tr_isRampingUp :: bool
  tr_interval :: int

definition setTicker :: "int \<Rightarrow> Traffic \<Rightarrow> Traffic option" where
  "setTicker i t = (if i \<le> 0 then None else Some (t\<lparr>tr_interval := i\<rparr>))"

definition startTraffic :: "int \<Rightarrow> int \<Rightarrow> Traffic option" where
  "startTraffic rampUpTime targetRate =
     (let interval = 1000000000 sdiv targetRate; rampUpInterval = rampUpTime sdiv 10 in
      case setTicker interval \<lparr>tr_currentRate = 1, tr_targetRate = targetRate, tr_rateIncrement = (targetRate - 1) sdiv 10,
             tr_rampUpTime = rampUpTime, tr_isRampingUp = (rampUpTime > 0), tr_interval = interval\<rparr> of
        None \<Rightarrow> None
      | Some t \<Rightarrow> if rampUpInterval \<le> 0 then None else Some t)"

text \<open>A tick of the ramp's ticker, \<open>elapsed\<close> after the start.\<close>

definition rampTick :: "int \<Rightarrow> Traffic \<Rightarrow> Traffic option" where
  "rampTick elapsed t =
     (if tr_isRampingUp t \<and> elapsed < tr_rampUpTime t
      then let cur = tr_currentRate t + tr_rateIncrement t;
               cur' = (if cur > tr_targetRate t then tr_targetRate t else cur)
           in setTicker (1000000000 sdiv cur') (t\<lparr>tr_currentRate := cur'\<rparr>)
      else let t' = t\<lparr>tr_isRampingUp := False\<rparr> in
           if tr_currentRate t' \<noteq> tr_targetRate t'
           then setTicker (1000000000 sdiv tr_targetRate t') (t'\<lparr>tr_currentRate := tr_targetRate t'\<rparr>)
           else Some t')"

fun rampTicks :: "int list \<Rightarrow> Traffic \<Rightarrow> Traffic option" where
  "rampTicks [] t = Some t"
| "rampTicks (e # es) t = (case rampTick e t of None \<Rightarrow> None | Some t' \<Rightarrow> rampTicks es t')"

section \<open>Requests\<close>

text \<open>
  What a request needs from outside: the order the map of connections is visited in, the random number
  in its fifteen digits, the session id, the ids made from the clock, how the \<^verbatim>\<open>select\<close> that sends it chooses and
  whether it times out.
\<close>

record chance =
  ch_order :: "nat list"
  ch_digits :: gostring
  ch_sid :: gostring
  ch_hop :: u32
  ch_e2e :: u32
  ch_pick :: bool
  ch_late :: bool

datatype lg_error = NoConnections | LgSim sim_error | NoPeerIdentity | LgMarshal codec_error | LgCtxDone | LgTimeout

datatype lg_outcome = LgReturns "lg_error option" SimDRA | LgBlocks

definition sendS13Request :: "chance \<Rightarrow> LoadGenerator \<Rightarrow> lg_outcome" where
  "sendS13Request x lg =
     (case GetFirstConnection (ch_order x) (lg_dra lg) of
        None \<Rightarrow> LgReturns (Some NoConnections) (lg_dra lg)
      | Some i \<Rightarrow> (case sim_SendMICR (ch_pick x) (ch_late x) (ch_sid x) (ch_hop x) (ch_e2e x) (ch_digits x) i (lg_dra lg) of
                     SimReturns err d \<Rightarrow> LgReturns (map_option LgSim err) d
                   | SimBlocks \<Rightarrow> LgBlocks))"

definition lg_AIR :: "SimConfig \<Rightarrow> chance \<Rightarrow> gostring \<Rightarrow> gostring \<Rightarrow> GenMessage" where
  "lg_AIR cfg x peerHost peerRealm =
     (let air = newMessage s6a_avps AIR_definition in
      \<lparr>gm_Header = (gm_Header air)\<lparr>hdr_HopByHopID := ch_hop x, hdr_EndToEndID := ch_e2e x\<rparr>,
       gm_Fields = (gm_Fields air)[0 := [Val (UTF8String (ch_sid x))], 1 := [Val (Enumerated 1)],
         2 := [Val (DiameterIdentity (sim_OriginHost cfg))], 3 := [Val (DiameterIdentity (sim_OriginRealm cfg))],
         9 := [Val (DiameterIdentity peerHost)], 4 := [Val (DiameterIdentity peerRealm)],
         5 := [Val (UTF8String (ch_digits x))], 6 := [Val (OctetString [0x00, 0x10, 0x10])]]\<rparr>)"

definition sendS6aRequest :: "chance \<Rightarrow> LoadGenerator \<Rightarrow> lg_outcome" where
  "sendS6aRequest x lg =
     (let d = lg_dra lg in
      case GetFirstConnection (ch_order x) d of
        None \<Rightarrow> LgReturns (Some NoConnections) d
      | Some i \<Rightarrow>
          (case simConn d i of
             None \<Rightarrow> LgReturns (Some NoConnections) d
           | Some c \<Rightarrow>
               (case (sk_peerHost c, sk_peerRealm c) of
                  (Some host, Some realm) \<Rightarrow>
                    (case genMarshal s6a_avps AIR_definition (lg_AIR (sd_config d) x host realm) of
                       Inl err \<Rightarrow> LgReturns (Some (LgMarshal err)) d
                     | Inr (_, airData) \<Rightarrow>
                         if length (sk_sendCh c) < 100 \<and> (ch_pick x \<or> \<not> lg_ctxDone lg)
                         then LgReturns None (onConn i (\<lambda>c. c\<lparr>sk_sendCh := sk_sendCh c @ [airData]\<rparr>) d)
                         else if lg_ctxDone lg then LgReturns (Some LgCtxDone) d
                         else if ch_late x then LgReturns (Some LgTimeout) d
                         else LgBlocks)
                | _ \<Rightarrow> LgReturns (Some NoPeerIdentity) d)))"

definition sendGxRequest :: "LoadGenerator \<Rightarrow> lg_outcome" where
  "sendGxRequest lg = LgReturns None (lg_dra lg)"

text \<open>A tick of a loop's request ticker: the request, then its counters; \<open>None\<close> while the request has not returned.\<close>

definition counted :: "(LoadStats \<Rightarrow> LoadStats) \<Rightarrow> lg_outcome \<Rightarrow> LoadGenerator \<Rightarrow> LoadGenerator option" where
  "counted sent r lg =
     (case r of
        LgBlocks \<Rightarrow> None
      | LgReturns (Some err) d \<Rightarrow> Some (lg\<lparr>lg_dra := d, lg_stats := (lg_stats lg)\<lparr>ls_Errors := ls_Errors (lg_stats lg) + 1\<rparr>\<rparr>)
      | LgReturns None d \<Rightarrow>
          (let s = sent (lg_stats lg) in Some (lg\<lparr>lg_dra := d, lg_stats := s\<lparr>ls_TotalSent := ls_TotalSent s + 1\<rparr>\<rparr>)))"

datatype traffic = S13 | S6a | Gx

definition tick :: "traffic \<Rightarrow> chance \<Rightarrow> LoadGenerator \<Rightarrow> LoadGenerator option" where
  "tick k x lg =
     (case k of
        S13 \<Rightarrow> counted (\<lambda>s. s\<lparr>ls_S13Sent := ls_S13Sent s + 1\<rparr>) (sendS13Request x lg) lg
      | S6a \<Rightarrow> counted (\<lambda>s. s\<lparr>ls_S6aSent := ls_S6aSent s + 1\<rparr>) (sendS6aRequest x lg) lg
      | Gx \<Rightarrow> counted (\<lambda>s. s\<lparr>ls_GxSent := ls_GxSent s + 1\<rparr>) (sendGxRequest lg) lg)"

definition targetOf :: "traffic \<Rightarrow> LoadGeneratorConfig \<Rightarrow> int" where
  "targetOf k cfg = (case k of S13 \<Rightarrow> lc_S13RatePerSec cfg | S6a \<Rightarrow> lc_S6aRatePerSec cfg | Gx \<Rightarrow> lc_GxRatePerSec cfg)"

text \<open>
  A loop, with what its \<^verbatim>\<open>select\<close> receives until the context ends it: ticks of the ramp, each with the time since the start, and ticks of the
  request ticker. \<open>None\<close>: it has panicked, or a request has not returned.
\<close>

datatype loop_event = RampTick int | RequestTick chance

fun trafficLoop :: "traffic \<Rightarrow> loop_event list \<Rightarrow> Traffic \<Rightarrow> LoadGenerator \<Rightarrow> (Traffic \<times> LoadGenerator) option" where
  "trafficLoop k [] t lg = Some (t, lg)"
| "trafficLoop k (RampTick elapsed # evs) t lg =
     (case rampTick elapsed t of None \<Rightarrow> None | Some t' \<Rightarrow> trafficLoop k evs t' lg)"
| "trafficLoop k (RequestTick x # evs) t lg =
     (case tick k x lg of None \<Rightarrow> None | Some lg' \<Rightarrow> trafficLoop k evs t lg')"

definition generateS13Traffic :: "loop_event list \<Rightarrow> LoadGenerator \<Rightarrow> (Traffic \<times> LoadGenerator) option" where
  "generateS13Traffic evs lg =
     (case startTraffic (lc_RampUpTime (lg_config lg)) (lc_S13RatePerSec (lg_config lg)) of
        None \<Rightarrow> None | Some t \<Rightarrow> trafficLoop S13 evs t lg)"

definition generateS6aTraffic :: "loop_event list \<Rightarrow> LoadGenerator \<Rightarrow> (Traffic \<times> LoadGenerator) option" where
  "generateS6aTraffic evs lg =
     (case startTraffic (lc_RampUpTime (lg_config lg)) (lc_S6aRatePerSec (lg_config lg)) of
        None \<Rightarrow> None | Some t \<Rightarrow> trafficLoop S6a evs t lg)"

definition generateGxTraffic :: "loop_event list \<Rightarrow> LoadGenerator \<Rightarrow> (Traffic \<times> LoadGenerator) option" where
  "generateGxTraffic evs lg =
     (case startTraffic (lc_RampUpTime (lg_config lg)) (lc_GxRatePerSec (lg_config lg)) of
        None \<Rightarrow> None | Some t \<Rightarrow> trafficLoop Gx evs t lg)"

text \<open>\<^verbatim>\<open>Start\<close>: the loops of the interfaces with a positive rate; \<open>None\<close> for a loop that panics at once, which ends the process.\<close>

definition lg_Start :: "LoadGeneratorConfig \<Rightarrow> (traffic \<times> Traffic) list option" where
  "lg_Start cfg =
     those (map (\<lambda>k. map_option (Pair k) (startTraffic (lc_RampUpTime cfg) (targetOf k cfg)))
       (filter (\<lambda>k. targetOf k cfg > 0) [S13, S6a, Gx]))"

text \<open>The sum the final report shows as the rate aimed at, and the numerator of its success rate.\<close>

definition reportedTarget :: "LoadGeneratorConfig \<Rightarrow> int" where
  "reportedTarget cfg = lc_S13RatePerSec cfg + lc_S6aRatePerSec cfg + lc_GxRatePerSec cfg"

definition reportedSuccesses :: "LoadStats \<Rightarrow> u64" where
  "reportedSuccesses s = ls_TotalSent s - ls_Errors s"

section \<open>The rate\<close>

text \<open>What the ramp keeps: a rate between one and the target, and a ticker set to it or to the target.\<close>

definition ramp_ok :: "int \<Rightarrow> Traffic \<Rightarrow> bool" where
  "ramp_ok target t \<longleftrightarrow> 1 \<le> tr_currentRate t \<and> tr_currentRate t \<le> target \<and> tr_targetRate t = target \<and>
     tr_rateIncrement t = (target - 1) div 10 \<and>
     tr_interval t \<in> {1000000000 div tr_currentRate t, 1000000000 div target}"

lemma sdiv_nonneg: "0 \<le> (a :: int) \<Longrightarrow> 0 < b \<Longrightarrow> a sdiv b = a div b"
  by (cases "a = 0") (simp_all add: signed_divide_int_def sgn_if)

lemma rate_interval: "1 \<le> r \<Longrightarrow> r \<le> 1000000000 \<Longrightarrow> 0 < (1000000000 :: int) div r"
  by (simp add: pos_imp_zdiv_pos_iff)

text \<open>When a loop starts at all.\<close>

lemma startTraffic_cases:
  "1 \<le> target \<Longrightarrow> startTraffic ramp target =
     (if target \<le> 1000000000 \<and> 10 \<le> ramp
      then Some \<lparr>tr_currentRate = 1, tr_targetRate = target, tr_rateIncrement = (target - 1) div 10,
        tr_rampUpTime = ramp, tr_isRampingUp = True, tr_interval = 1000000000 div target\<rparr>
      else None)"
proof -
  assume t: "1 \<le> target"
  have "(ramp sdiv 10 \<le> 0) = (ramp < 10)" for ramp :: int
    by (cases "0 \<le> ramp") (auto simp: sdiv_nonneg signed_divide_int_def sgn_if)
  moreover have "(1000000000 div target \<le> 0) = (\<not> target \<le> 1000000000)"
    using t pos_imp_zdiv_pos_iff [of target 1000000000] by linarith
  ultimately show ?thesis
    using t by (cases "10 \<le> ramp"; cases "target \<le> 1000000000") (simp_all add: startTraffic_def setTicker_def sdiv_nonneg Let_def)
qed

lemma increment_nonneg: "ramp_ok target t \<Longrightarrow> 0 \<le> (target - 1) div 10"
  by (simp add: ramp_ok_def pos_imp_zdiv_nonneg_iff)

lemma rampTick_within:
  assumes "ramp_ok target t" and "target \<le> 1000000000" and "tr_isRampingUp t" and "elapsed < tr_rampUpTime t"
  defines "r \<equiv> min target (tr_currentRate t + (target - 1) div 10)"
  shows "rampTick elapsed t = Some (t\<lparr>tr_currentRate := r, tr_interval := 1000000000 div r\<rparr>)"
proof -
  have "0 \<le> (target - 1) div 10"
    using assms(1) by (rule increment_nonneg)
  then have r: "1 \<le> r" "r \<le> 1000000000"
    using assms(1,2) unfolding r_def ramp_ok_def by linarith+
  have "(if tr_currentRate t + tr_rateIncrement t > tr_targetRate t then tr_targetRate t else tr_currentRate t + tr_rateIncrement t) = r"
    using assms(1) by (simp add: r_def ramp_ok_def min_def)
  then show ?thesis
    using assms(3,4) rate_interval [OF r] r by (simp add: rampTick_def setTicker_def Let_def sdiv_nonneg)
qed

lemma rampTick_over:
  assumes "ramp_ok target t" and "target \<le> 1000000000" and "\<not> (tr_isRampingUp t \<and> elapsed < tr_rampUpTime t)"
  shows "rampTick elapsed t = Some (t\<lparr>tr_currentRate := target, tr_isRampingUp := False, tr_interval := 1000000000 div target\<rparr>)"
proof -
  have "0 < 1000000000 div target" "0 < target"
    using assms(1,2) rate_interval [of target] by (simp_all add: ramp_ok_def)
  then show ?thesis
    using assms(1,3) by (cases "tr_currentRate t = target") (auto simp: rampTick_def setTicker_def ramp_ok_def sdiv_nonneg Let_def)
qed

lemma rampTicks_append:
  "rampTicks (es @ fs) t = (case rampTicks es t of None \<Rightarrow> None | Some t' \<Rightarrow> rampTicks fs t')"
  by (induction es arbitrary: t) (auto split: option.split)

lemma rampTicks_over:
  assumes "ramp_ok target t" and "target \<le> 1000000000" and "\<not> tr_isRampingUp t" and "tr_currentRate t = target"
  shows "rampTicks es t = Some t"
  using assms
proof (induction es)
  case (Cons e es)
  have "rampTick e t = Some (t\<lparr>tr_currentRate := target, tr_isRampingUp := False, tr_interval := 1000000000 div target\<rparr>)"
    using Cons.prems by (intro rampTick_over) simp_all
  also have "\<dots> = Some t"
    using Cons.prems by (simp add: ramp_ok_def)
  finally show ?case
    using Cons by simp
qed simp

lemma rampTicks_within:
  assumes "ramp_ok target t" and "target \<le> 1000000000" and "tr_isRampingUp t" and "list_all (\<lambda>e. e < tr_rampUpTime t) es"
  defines "r n \<equiv> min target (tr_currentRate t + int n * ((target - 1) div 10))"
  shows "rampTicks es t = Some (if es = [] then t else
    t\<lparr>tr_currentRate := r (length es), tr_interval := 1000000000 div r (length es)\<rparr>)"
  using assms(4)
proof (induction es rule: rev_induct)
  case (snoc e es)
  let ?n = "length es" and ?i = "(target - 1) div 10"
  let ?t = "if es = [] then t else t\<lparr>tr_currentRate := r ?n, tr_interval := 1000000000 div r ?n\<rparr>"
  have i: "0 \<le> ?i"
    using assms(1) by (rule increment_nonneg)
  then have "1 \<le> r ?n" "r ?n \<le> target"
    using assms(1) mult_nonneg_nonneg [of "int ?n" ?i] unfolding r_def ramp_ok_def by linarith+
  then have "ramp_ok target ?t"
    using assms(1) by (simp add: ramp_ok_def)
  moreover have "min target (tr_currentRate ?t + ?i) = r (Suc ?n)"
    using i assms(1) by (auto simp: r_def ramp_ok_def algebra_simps min_def)
  ultimately show ?case
    using snoc assms(2,3) rampTick_within [of target ?t e] by (simp add: rampTicks_append split: if_splits)
qed simp

text \<open>
  C39. The rate of a traffic loop is known after every tick of its ramp. The loop starts exactly for a rate of at most
  10^9 and a ramp of at least ten nanoseconds; after \<open>n\<close> ticks within the ramp the rate is
  one plus \<open>n\<close> tenths of what is missing to the target, and never above it; from the first tick after the ramp on it is the target; no
  \<^verbatim>\<open>Reset\<close> of a ticker ever panics. Before the first tick the ticker runs at the full target rate, not at one.
\<close>

theorem ramp_rate:
  assumes "startTraffic ramp target = Some t" and "1 \<le> target" and "list_all (\<lambda>e. e < ramp) es" and "ramp \<le> e"
  shows "target \<le> 1000000000 \<and> 10 \<le> ramp \<and> tr_interval t = 1000000000 div target \<and>
    (\<exists>t1. rampTicks es t = Some t1 \<and> tr_currentRate t1 = min target (1 + int (length es) * ((target - 1) div 10)) \<and>
       (es \<noteq> [] \<longrightarrow> tr_interval t1 = 1000000000 div tr_currentRate t1)) \<and>
    (\<exists>t2. rampTicks (es @ e # fs) t = Some t2 \<and> tr_currentRate t2 = target \<and> tr_interval t2 = 1000000000 div target)"
proof -
  have c: "target \<le> 1000000000" "10 \<le> ramp" and t: "t = \<lparr>tr_currentRate = 1, tr_targetRate = target, tr_rateIncrement = (target - 1) div 10,
        tr_rampUpTime = ramp, tr_isRampingUp = True, tr_interval = 1000000000 div target\<rparr>"
    using assms(1,2) by (simp_all add: startTraffic_cases split: if_splits)
  have ok: "ramp_ok target t"
    using assms(2) by (simp add: ramp_ok_def t)
  obtain t1 where t1: "rampTicks es t = Some t1" "ramp_ok target t1" "tr_rampUpTime t1 = ramp"
      "tr_currentRate t1 = min target (1 + int (length es) * ((target - 1) div 10))"
      "es \<noteq> [] \<longrightarrow> tr_interval t1 = 1000000000 div tr_currentRate t1"
  proof (cases "es = []")
    case True
    then show thesis
      using that [of t] ok assms(2) by (simp add: t)
  next
    case False
    let ?r = "min target (1 + int (length es) * ((target - 1) div 10))"
    have "1 \<le> ?r"
      using assms(2) mult_nonneg_nonneg [OF _ increment_nonneg [OF ok], of "int (length es)"] by linarith
    then have "ramp_ok target (t\<lparr>tr_currentRate := ?r, tr_interval := 1000000000 div ?r\<rparr>)"
      using ok by (simp add: ramp_ok_def)
    then show thesis
      using that [of "t\<lparr>tr_currentRate := ?r, tr_interval := 1000000000 div ?r\<rparr>"] rampTicks_within [OF ok c(1), of es] False assms(3)
      by (simp add: t)
  qed
  have e: "rampTick e t1 = Some (t1\<lparr>tr_currentRate := target, tr_isRampingUp := False, tr_interval := 1000000000 div target\<rparr>)" (is "_ = Some ?t2")
    using rampTick_over [OF t1(2) c(1)] assms(4) t1(3) by simp
  moreover have "ramp_ok target ?t2"
    using t1(2) assms(2) by (simp add: ramp_ok_def)
  ultimately have "rampTicks (es @ e # fs) t = Some ?t2"
    using rampTicks_over [of target ?t2 fs] c(1) t1(1) by (simp add: rampTicks_append)
  then show ?thesis
    using c t t1 by simp
qed

section \<open>The counters\<close>

definition sums_agree :: "LoadStats \<Rightarrow> bool" where
  "sums_agree s \<longleftrightarrow> ls_TotalSent s = ls_S13Sent s + ls_S6aSent s + ls_GxSent s \<and>
     ls_S13Received s = 0 \<and> ls_S6aReceived s = 0 \<and> ls_GxReceived s = 0 \<and> ls_TotalReceived s = 0"

inductive load_reach :: "SimDRA \<Rightarrow> LoadGeneratorConfig \<Rightarrow> nat \<Rightarrow> LoadGenerator \<Rightarrow> bool" for d cfg where
  lr_start: "load_reach d cfg 0 (NewLoadGenerator d cfg)"
| lr_tick: "load_reach d cfg n lg \<Longrightarrow> tick k x lg = Some lg' \<Longrightarrow> load_reach d cfg (Suc n) lg'"
| lr_stop: "load_reach d cfg n lg \<Longrightarrow> load_reach d cfg n (lg_Stop lg)"
| lr_dra: "load_reach d cfg n lg \<Longrightarrow> load_reach d cfg n (lg\<lparr>lg_dra := d'\<rparr>)"

lemma counted_sums:
  assumes "counted sent r lg = Some lg'" and "sums_agree (lg_stats lg)"
    and "sent \<in> {\<lambda>s. s\<lparr>ls_S13Sent := ls_S13Sent s + 1\<rparr>, \<lambda>s. s\<lparr>ls_S6aSent := ls_S6aSent s + 1\<rparr>, \<lambda>s. s\<lparr>ls_GxSent := ls_GxSent s + 1\<rparr>}"
  defines "s \<equiv> lg_stats lg" and "s' \<equiv> lg_stats lg'"
  shows "sums_agree s' \<and> (ls_TotalSent s' = ls_TotalSent s + 1 \<and> ls_Errors s' = ls_Errors s \<or>
    ls_TotalSent s' = ls_TotalSent s \<and> ls_Errors s' = ls_Errors s + 1)"
  using assms(1-3) by (auto simp: s_def s'_def counted_def sums_agree_def Let_def split: lg_outcome.splits option.splits)

lemma tick_sums:
  assumes "tick k x lg = Some lg'" and "sums_agree (lg_stats lg)"
  defines "s \<equiv> lg_stats lg" and "s' \<equiv> lg_stats lg'"
  shows "sums_agree s' \<and> (ls_TotalSent s' = ls_TotalSent s + 1 \<and> ls_Errors s' = ls_Errors s \<or>
    ls_TotalSent s' = ls_TotalSent s \<and> ls_Errors s' = ls_Errors s + 1)"
  using assms(1,2) counted_sums [of _ _ lg lg'] unfolding s_def s'_def by (cases k; simp add: tick_def)

lemma unat_inc: "unat (w :: u64) < 2 ^ 63 \<Longrightarrow> unat (w + 1) = unat w + 1"
  by (simp add: unat_add_lem [THEN iffD1])

text \<open>
  The counters of a run add up: after \<open>n\<close> requests, whatever the three loops send and in whatever order, the
  total is the sum of the three interfaces, every request is counted once, as sent or as an error (modulo 2^64), and the
  counters of what was received are still zero, because nothing ever writes them. If more requests failed
  than were sent, the number of successes the final report divides wraps around to at least 2^63.
\<close>

theorem load_accounting:
  assumes "load_reach d cfg n lg" and "n < 2 ^ 63"
  defines "s \<equiv> lg_stats lg"
  shows "sums_agree s \<and> unat (ls_TotalSent s) + unat (ls_Errors s) = n \<and>
    (ls_TotalSent s < ls_Errors s \<longrightarrow> 2 ^ 63 \<le> reportedSuccesses s)"
proof -
  have g: "sums_agree s \<and> unat (ls_TotalSent s) + unat (ls_Errors s) = n"
    using assms(1,2) unfolding s_def
  proof induction
    case (lr_tick n lg k x lg')
    then show ?case
      using tick_sums [OF lr_tick.hyps(2)] unat_inc [of "ls_TotalSent (lg_stats lg)"] unat_inc [of "ls_Errors (lg_stats lg)"] by auto
  qed (simp_all add: NewLoadGenerator_def sums_agree_def lg_Stop_def)
  then have "2 ^ 63 \<le> unat (reportedSuccesses s)" if "ls_TotalSent s < ls_Errors s"
    using that assms(2) by (simp add: reportedSuccesses_def unat_sub_if_size word_size word_less_nat_alt) linarith
  then show ?thesis
    using g by (simp add: word_le_nat_alt)
qed

text \<open>The Gx loop counts requests it does not make: it reports every tick as sent and leaves the simulator as it is.\<close>

fun isRequest :: "loop_event \<Rightarrow> bool" where
  "isRequest (RequestTick x) = True"
| "isRequest (RampTick e) = False"

lemma trafficLoop_Gx:
  "trafficLoop Gx evs t lg = Some (t', lg') \<Longrightarrow> lg_dra lg' = lg_dra lg \<and>
     ls_GxSent (lg_stats lg') = ls_GxSent (lg_stats lg) + word_of_nat (length (filter isRequest evs))"
proof (induction Gx evs t lg rule: trafficLoop.induct)
  case (3 x evs t lg)
  then show ?case
    by (auto simp: tick_def counted_def sendGxRequest_def Let_def)
qed (auto split: option.splits)

lemma generateGxTraffic_phantom:
  assumes "generateGxTraffic evs lg = Some (t, lg')"
  shows "lg_dra lg' = lg_dra lg" and "ls_GxSent (lg_stats lg') = ls_GxSent (lg_stats lg) + word_of_nat (length (filter isRequest evs))"
  using assms trafficLoop_Gx by (auto simp: generateGxTraffic_def split: option.splits)

section \<open>Witnesses\<close>

theorem ramp_rate_witness:
  "\<exists>t t1 t2. startTraffic 10000000000 101 = Some t \<and> tr_interval t = 9900990 \<and>
     rampTicks [1000000000, 2000000000] t = Some t1 \<and> tr_currentRate t1 = 21 \<and>
     rampTicks [1000000000, 2000000000, 10000000000, 11000000000] t = Some t2 \<and> tr_currentRate t2 = 101"
proof -
  obtain t where t: "startTraffic 10000000000 101 = Some t"
    by (simp add: startTraffic_cases)
  show ?thesis
    using ramp_rate [OF t, of "[1000000000, 2000000000]" 10000000000 "[11000000000]"] t by auto
qed

definition example_chance :: chance where
  "example_chance = \<lparr>ch_order = [], ch_digits = [48], ch_sid = [115], ch_hop = 7, ch_e2e = 8, ch_pick = True, ch_late = False\<rparr>"

text \<open>Without a client every S13 request fails: after one, the report divides 2^64 - 1 successes.\<close>

theorem load_accounting_witness:
  "\<exists>d cfg lg. NewDRA example_sim_config = Inr d \<and> load_reach d cfg 1 lg \<and> ls_Errors (lg_stats lg) = 1 \<and>
     2 ^ 63 \<le> reportedSuccesses (lg_stats lg)"
proof -
  obtain d where d: "NewDRA example_sim_config = Inr d"
    by (simp add: NewDRA_def example_sim_config_def)
  fix cfg
  define lg where "lg = (NewLoadGenerator d cfg)\<lparr>lg_stats := (lg_stats (NewLoadGenerator d cfg))\<lparr>ls_Errors := 1\<rparr>\<rparr>"
  have "tick S13 example_chance (NewLoadGenerator d cfg) = Some lg"
    by (simp add: lg_def tick_def sendS13Request_def GetFirstConnection_def example_chance_def counted_def NewLoadGenerator_def)
  then have r: "load_reach d cfg (Suc 0) lg"
    by (rule lr_tick [OF lr_start])
  have "ls_Errors (lg_stats lg) = 1" "ls_TotalSent (lg_stats lg) = 0"
    by (simp_all add: lg_def NewLoadGenerator_def)
  then show ?thesis
    using d r load_accounting [OF r] by auto
qed

end
