(* ===== verification/Governance.thy ===== *)
theory Governance
  imports App_Config Proto_Roundtrip
begin

text \<open>
  The governance client (\<^verbatim>\<open>pkg/governance/client.go\<close>) and the configuration it is initialised from
  (\<^verbatim>\<open>pkg/config/config.go\<close>): one client for the process, registered once with the manager. The manager and the client of
  its package are outside the repository; what a call to it answers is an argument. The lemmas show that at most
  one registration is ever sent, when the process has a client and when that is registered, what a failed first
  initialisation leaves behind, and which port is registered for a listening address.
\<close>

section \<open>Configuration\<close>

record GovernanceConfig =
  gv_Enabled :: bool
  gv_ManagerURL :: string
  gv_ServiceName :: string
  gv_PodName :: string
  gv_NotificationPort :: int
  gv_PodIP :: string
  gv_Subscriptions :: "string list"
  gv_Timeout :: int

definition gv_Validate :: "GovernanceConfig \<Rightarrow> string option" where
  "gv_Validate g =
     (if \<not> gv_Enabled g then None
      else firstFailure
        [(gv_ManagerURL g = [], ''governance.manager_url is required when governance is enabled''),
         (gv_ServiceName g = [], ''governance.service_name is required when governance is enabled''),
         (gv_NotificationPort g < 1 \<or> gv_NotificationPort g > 65535, ''governance.notification_port must be between 1 and 65535''),
         (gv_PodIP g = [], ''governance.pod_ip is required when governance is enabled''),
         (gv_Timeout g \<le> 0, ''governance.timeout must be positive'')])"

text \<open>The sources a configuration is loaded from, in the order \<^verbatim>\<open>NewLoader\<close> hands them to the manager.\<close>

datatype provider = FileProvider string "string list" | ConsulProvider "string list" string | EtcdProvider "string list" string
  | EnvProvider string

record LoaderConfig =
  lo_ConfigFile :: string
  lo_SearchPaths :: "string list"
  lo_EnvPrefix :: string
  lo_Remote :: "(string \<times> string list \<times> string) option"
  lo_EnableHotReload :: bool

datatype loader_error = UnsupportedRemote string | RemoteFailed

text \<open>\<open>fileOk\<close>, \<open>watchOk\<close>, \<open>remoteOk\<close>: whether the constructors of the shared package succeed. The second component says whether a watcher is set.\<close>

definition NewLoader :: "bool \<Rightarrow> bool \<Rightarrow> bool \<Rightarrow> LoaderConfig \<Rightarrow> (loader_error, provider list \<times> bool) result" where
  "NewLoader fileOk watchOk remoteOk cfg =
     (let useFile = (lo_ConfigFile cfg \<noteq> [] \<and> fileOk);
          fileProviders = (if useFile then [FileProvider (lo_ConfigFile cfg) (lo_SearchPaths cfg)] else []);
          watcher = (useFile \<and> lo_EnableHotReload cfg \<and> watchOk);
          envProviders = (if lo_EnvPrefix cfg \<noteq> [] then [EnvProvider (lo_EnvPrefix cfg)] else [])
      in case lo_Remote cfg of
           None \<Rightarrow> Inr (fileProviders @ envProviders, watcher)
         | Some (name, endpoints, key) \<Rightarrow>
             if name \<noteq> ''consul'' \<and> name \<noteq> ''etcd'' then Inl (UnsupportedRemote name)
             else if \<not> remoteOk then Inl RemoteFailed
             else Inr (fileProviders @ [if name = ''consul'' then ConsulProvider endpoints key else EtcdProvider endpoints key] @ envProviders,
                       watcher))"

section \<open>State\<close>

record GovConfig =
  gg_ManagerURL :: string
  gg_ServiceName :: string
  gg_PodName :: string
  gg_NotificationPort :: int
  gg_PodIP :: string
  gg_ServicePort :: int
  gg_Subscriptions :: "string list"
  gg_Timeout :: int

record GovClient =
  gc_serviceName :: string
  gc_podName :: string
  gc_subscriptions :: "string list"
  gc_notifHandler :: nat
  gc_isRegistered :: bool

text \<open>What is sent to the manager to register, of the fields the code sets.\<close>

record registration =
  rg_ServiceName :: string
  rg_PodName :: string
  rg_IP :: string
  rg_Port :: int
  rg_HealthCheckURL :: string
  rg_NotificationURL :: string
  rg_Subscriptions :: "string list"

text \<open>
  The package's variables: whether the \<^verbatim>\<open>sync.Once\<close> has run, and the client. The other two components record the calls to the manager
  with their outcome.
\<close>

record gov_state =
  gs_once :: bool
  gs_globalClient :: "GovClient option"
  gs_registrations :: "(registration \<times> bool) list"
  gs_unregistrations :: "bool list"

definition gov_initial :: gov_state where
  "gov_initial = \<lparr>gs_once = False, gs_globalClient = None, gs_registrations = [], gs_unregistrations = []\<rparr>"

definition showInt :: "int \<Rightarrow> string" where
  "showInt i = (if i < 0 then CHR ''-'' # decimal (nat (- i)) else decimal (nat i))"

definition gov_url :: "string \<Rightarrow> int \<Rightarrow> string \<Rightarrow> string" where
  "gov_url ip port path = ''http://'' @ ip @ '':'' @ showInt port @ path"

definition registrationOf :: "GovConfig \<Rightarrow> registration" where
  "registrationOf cfg =
     \<lparr>rg_ServiceName = gg_ServiceName cfg, rg_PodName = gg_PodName cfg, rg_IP = gg_PodIP cfg, rg_Port = gg_ServicePort cfg,
      rg_HealthCheckURL = gov_url (gg_PodIP cfg) (gg_NotificationPort cfg) ''/health'',
      rg_NotificationURL = gov_url (gg_PodIP cfg) (gg_NotificationPort cfg) ''/notify'', rg_Subscriptions = []\<rparr>"

section \<open>Operations\<close>

text \<open>The configuration is completed in place: \<open>hostname\<close> is what \<^verbatim>\<open>os.Hostname\<close> returns, \<open>None\<close> for an error.\<close>

definition completeConfig :: "string option \<Rightarrow> GovConfig \<Rightarrow> GovConfig" where
  "completeConfig hostname cfg =
     (let c1 = (if gg_Timeout cfg = 0 then cfg\<lparr>gg_Timeout := 10000000000\<rparr> else cfg) in
      if gg_PodName c1 = []
      then c1\<lparr>gg_PodName := (case hostname of None \<Rightarrow> gg_ServiceName c1 @ ''-pod-unknown'' | Some h \<Rightarrow> h)\<rparr>
      else c1)"

text \<open>\<^verbatim>\<open>Initialize\<close>: \<open>accepted\<close> is whether the manager takes the registration; the result says whether an error is returned.\<close>

definition Initialize :: "string option \<Rightarrow> bool \<Rightarrow> GovConfig \<Rightarrow> gov_state \<Rightarrow> bool \<times> gov_state" where
  "Initialize hostname accepted cfg s =
     (if gs_once s then (False, s)
      else
        let c = completeConfig hostname cfg;
            client = \<lparr>gc_serviceName = gg_ServiceName c, gc_podName = gg_PodName c, gc_subscriptions = gg_Subscriptions c,
              gc_notifHandler = 0, gc_isRegistered = False\<rparr>;
            s1 = s\<lparr>gs_once := True, gs_registrations := gs_registrations s @ [(registrationOf c, accepted)]\<rparr>
        in if \<not> accepted then (True, s1)
           else (False, s1\<lparr>gs_globalClient := Some (client\<lparr>gc_isRegistered := True\<rparr>)\<rparr>))"

text \<open>The port of the listening address.\<close>

definition listenPort :: "string \<Rightarrow> int" where
  "listenPort addr =
     (case Split addr CHR '':'' of
        [_, port] \<Rightarrow> (case Atoi port of Inr p \<Rightarrow> p | Inl _ \<Rightarrow> 3868)
      | _ \<Rightarrow> 3868)"

definition govConfigOf :: "GovernanceConfig \<Rightarrow> string \<Rightarrow> GovConfig" where
  "govConfigOf g listenAddr =
     \<lparr>gg_ManagerURL = gv_ManagerURL g, gg_ServiceName = gv_ServiceName g, gg_PodName = gv_PodName g,
      gg_NotificationPort = gv_NotificationPort g, gg_PodIP = gv_PodIP g, gg_ServicePort = listenPort listenAddr,
      gg_Subscriptions = gv_Subscriptions g, gg_Timeout = gv_Timeout g\<rparr>"

text \<open>\<open>None\<close>: the call panics.\<close>

definition InitializeFromDiamGWConfig ::
  "string option \<Rightarrow> bool \<Rightarrow> GovernanceConfig \<Rightarrow> string \<Rightarrow> gov_state \<Rightarrow> (bool \<times> gov_state) option" where
  "InitializeFromDiamGWConfig hostname accepted g listenAddr s =
     (if gv_Validate g \<noteq> None then None
      else if \<not> gv_Enabled g then Some (False, s)
      else Some (Initialize hostname accepted (govConfigOf g listenAddr) s))"

definition GetClient :: "gov_state \<Rightarrow> GovClient option" where
  "GetClient s = gs_globalClient s"

datatype unregister_error = NotRegistered | UnregisterFailed

text \<open>\<^verbatim>\<open>Unregister\<close> of the client \<open>c\<close>; \<open>accepted\<close>: whether the manager takes it.\<close>

definition Unregister :: "bool \<Rightarrow> GovClient \<Rightarrow> gov_state \<Rightarrow> unregister_error option \<times> gov_state" where
  "Unregister accepted c s =
     (if \<not> gc_isRegistered c then (Some NotRegistered, s)
      else
        let s1 = s\<lparr>gs_unregistrations := gs_unregistrations s @ [accepted]\<rparr> in
        if \<not> accepted then (Some UnregisterFailed, s1)
        else (None, s1\<lparr>gs_globalClient := Some (c\<lparr>gc_isRegistered := False\<rparr>)\<rparr>))"

text \<open>The package's \<^verbatim>\<open>Shutdown\<close> with the client's: errors are logged only.\<close>

definition gov_Shutdown :: "bool \<Rightarrow> gov_state \<Rightarrow> gov_state" where
  "gov_Shutdown accepted s = (case GetClient s of None \<Rightarrow> s | Some c \<Rightarrow> snd (Unregister accepted c s))"

definition SetNotificationHandler :: "nat \<Rightarrow> gov_state \<Rightarrow> gov_state" where
  "SetNotificationHandler handler s = s\<lparr>gs_globalClient := map_option (\<lambda>c. c\<lparr>gc_notifHandler := handler\<rparr>) (gs_globalClient s)\<rparr>"

section \<open>Runs\<close>

inductive gov_step :: "gov_state \<Rightarrow> gov_state \<Rightarrow> bool" where
  gr_initialize: "Initialize hostname accepted cfg s = (err, s') \<Longrightarrow> gov_step s s'"
| gr_shutdown: "gov_step s (gov_Shutdown accepted s)"
| gr_unregister: "GetClient s = Some c \<Longrightarrow> Unregister accepted c s = (err, s') \<Longrightarrow> gov_step s s'"
| gr_handler: "gov_step s (SetNotificationHandler handler s)"

definition gov_reach :: "gov_state \<Rightarrow> bool" where
  "gov_reach s \<longleftrightarrow> gov_step\<^sup>*\<^sup>* gov_initial s"

text \<open>The invariant: what the variables say about the calls that were made.\<close>

inductive gov_ok :: "gov_state \<Rightarrow> bool" where
  ok_fresh: "gov_ok \<lparr>gs_once = False, gs_globalClient = None, gs_registrations = [], gs_unregistrations = []\<rparr>"
| ok_refused: "gov_ok \<lparr>gs_once = True, gs_globalClient = None, gs_registrations = [(r, False)], gs_unregistrations = []\<rparr>"
| ok_registered: "gc_isRegistered c \<Longrightarrow>
    gov_ok \<lparr>gs_once = True, gs_globalClient = Some c, gs_registrations = [(r, True)], gs_unregistrations = replicate k False\<rparr>"
| ok_left: "\<not> gc_isRegistered c \<Longrightarrow>
    gov_ok \<lparr>gs_once = True, gs_globalClient = Some c, gs_registrations = [(r, True)], gs_unregistrations = replicate k False @ [True]\<rparr>"

lemma Initialize_ok: "gov_ok s \<Longrightarrow> gov_ok (snd (Initialize hostname accepted cfg s))"
  by (induction rule: gov_ok.induct)
    (use ok_registered [where k = 0] in \<open>auto simp: Initialize_def Let_def intro: gov_ok.intros\<close>)

lemma Unregister_ok:
  assumes "gov_ok s" and "GetClient s = Some c"
  shows "gov_ok (snd (Unregister accepted c s))"
  using assms
proof (induction rule: gov_ok.induct)
  case (ok_registered c' r k)
  have "gov_ok \<lparr>gs_once = True, gs_globalClient = Some c', gs_registrations = [(r, True)], gs_unregistrations = replicate k False @ [False]\<rparr>"
    using gov_ok.ok_registered [OF ok_registered(1), of r "Suc k"] by (simp add: replicate_append_same)
  then show ?case
    using ok_registered by (auto simp: Unregister_def GetClient_def Let_def intro: gov_ok.ok_left)
qed (auto simp: Unregister_def GetClient_def intro: gov_ok.intros)

lemma Shutdown_ok: "gov_ok s \<Longrightarrow> gov_ok (gov_Shutdown accepted s)"
  using Unregister_ok by (simp add: gov_Shutdown_def split: option.split)

lemma SetNotificationHandler_ok: "gov_ok s \<Longrightarrow> gov_ok (SetNotificationHandler handler s)"
  by (induction rule: gov_ok.induct) (auto simp: SetNotificationHandler_def intro: gov_ok.intros)

lemma gov_ok_step: "gov_step s s' \<Longrightarrow> gov_ok s \<Longrightarrow> gov_ok s'"
  by (induction rule: gov_step.induct) (metis Initialize_ok Unregister_ok Shutdown_ok SetNotificationHandler_ok snd_conv)+

lemma gov_reach_ok: "gov_reach s \<Longrightarrow> gov_ok s"
  unfolding gov_reach_def
  by (induction rule: rtranclp_induct) (simp_all add: gov_ok_step gov_initial_def ok_fresh)

text \<open>
  C35. The process registers at most once, whatever the calls of \<^verbatim>\<open>Initialize\<close>, \<^verbatim>\<open>Unregister\<close> and \<^verbatim>\<open>Shutdown\<close> and their
  outcomes: one registration is sent at most; there is a client exactly if the manager took it; the client
  counts as registered exactly until the manager took an unregistration, which happens once at most, and nothing is sent after that.
\<close>

theorem gov_registered_once:
  assumes "gov_reach s"
  shows "length (gs_registrations s) \<le> 1 \<and> (GetClient s \<noteq> None \<longleftrightarrow> (\<exists>r. gs_registrations s = [(r, True)])) \<and>
    (\<forall>c. GetClient s = Some c \<longrightarrow> (gc_isRegistered c \<longleftrightarrow> True \<notin> set (gs_unregistrations s))) \<and>
    (\<forall>i < length (gs_unregistrations s). gs_unregistrations s ! i \<longrightarrow> i = length (gs_unregistrations s) - 1)"
  using gov_reach_ok [OF assms]
proof (induction rule: gov_ok.induct)
  case (ok_left c r k)
  then show ?case
    by (auto simp: GetClient_def nth_append less_Suc_eq)
qed (auto simp: GetClient_def)

text \<open>What holds after a failed registration is kept by every step.\<close>

lemma gov_failed_step: "gov_step s s' \<Longrightarrow> gs_once s \<and> gs_globalClient s = None \<Longrightarrow> gs_once s' \<and> gs_globalClient s' = None"
  by (induction rule: gov_step.induct) (auto simp: Initialize_def gov_Shutdown_def GetClient_def SetNotificationHandler_def)

text \<open>
  C36. A failed first initialisation cannot be repeated, and a retry reports success: once the manager has refused the
  registration, every later \<^verbatim>\<open>Initialize\<close>, with whatever configuration and however the manager would answer now,
  sends nothing, returns no error, and leaves the process without a client, for which \<^verbatim>\<open>MustGetClient\<close> panics.
\<close>

theorem gov_retry_hides_failure:
  assumes "Initialize hostname accepted cfg s = (True, s1)" and "GetClient s = None" and "gov_step\<^sup>*\<^sup>* s1 s2"
  shows "Initialize hostname' accepted' cfg' s2 = (False, s2) \<and> GetClient s2 = None"
proof -
  have "gs_once s1 \<and> gs_globalClient s1 = None"
    using assms(1,2) by (auto simp: Initialize_def GetClient_def Let_def split: if_splits)
  with assms(3) have "gs_once s2 \<and> gs_globalClient s2 = None"
    by (induction rule: rtranclp_induct) (simp_all add: gov_failed_step)
  then show ?thesis
    by (simp add: Initialize_def GetClient_def)
qed

section \<open>The port that is registered\<close>

lemma Split_absent: "sep \<notin> set s \<Longrightarrow> Split s sep = [s]"
  by (induction s) auto

lemma length_Split: "length (Split s sep) = Suc (count_list s sep)"
  by (induction s) (auto split: list.split)

lemma digitChar_not_colon: "d < 10 \<Longrightarrow> digitChar d \<noteq> CHR '':''"
  using digitVal_digitChar [of d] by (auto simp: digitVal_def)

lemma decimal_no_colon: "CHR '':'' \<notin> set (decimal n)"
proof (induction n rule: decimal.induct)
  case (1 n)
  then show ?case
    using digitChar_not_colon by (subst decimal.simps) (auto simp: eq_commute)
qed

lemma listenPort_decimal:
  assumes "p < 2 ^ 63"
  shows "listenPort (host @ '':'' @ decimal p) = (if CHR '':'' \<in> set host then 3868 else int p)"
proof (cases "CHR '':'' \<in> set host")
  case True
  then have "2 < length (Split (host @ '':'' @ decimal p) CHR '':'')"
    using count_list_0_iff [of host "CHR '':''"] by (simp add: length_Split)
  then show ?thesis
    using True by (auto simp: listenPort_def split: list.split)
next
  case False
  then have "Split (host @ '':'' @ decimal p) CHR '':'' = [host, decimal p]"
    using Split_at [of "CHR '':''" host "decimal p"] by (simp add: Split_absent decimal_no_colon)
  then show ?thesis
    using False assms by (simp add: listenPort_def)
qed

text \<open>
  What a gateway registers. From a valid configuration with governance enabled, the first initialisation sends
  exactly one registration and returns an error exactly if the manager refuses it. It carries the port of the listening
  address \<^verbatim>\<open>host:port\<close>, but 3868 whatever the port if the host contains a colon, as an IPv6 address does; a pod name
  unless the host name is empty; and never the subscriptions of the configuration.
\<close>

theorem gov_registration:
  assumes "gv_Validate g = None" and "gv_Enabled g" and "\<not> gs_once s" and "p < 2 ^ 63"
  shows "\<exists>r s'. InitializeFromDiamGWConfig hostname accepted g (host @ '':'' @ decimal p) s = Some (\<not> accepted, s') \<and>
    gs_registrations s' = gs_registrations s @ [(r, accepted)] \<and> rg_ServiceName r = gv_ServiceName g \<and>
    rg_Port r = (if CHR '':'' \<in> set host then 3868 else int p) \<and> (rg_PodName r = [] \<longrightarrow> hostname = Some []) \<and> rg_Subscriptions r = []"
proof -
  have "rg_PodName (registrationOf (completeConfig hostname c)) = [] \<longrightarrow> hostname = Some []" for c
    by (simp add: registrationOf_def completeConfig_def Let_def split: option.split)
  moreover have "rg_Port (registrationOf (completeConfig hostname (govConfigOf g addr))) = listenPort addr"
    "rg_ServiceName (registrationOf (completeConfig hostname (govConfigOf g addr))) = gv_ServiceName g" for addr
    by (simp_all add: registrationOf_def completeConfig_def govConfigOf_def Let_def)
  moreover have "rg_Subscriptions (registrationOf c) = []" for c
    by (simp add: registrationOf_def)
  ultimately show ?thesis
    using assms by (simp add: InitializeFromDiamGWConfig_def Initialize_def listenPort_decimal Let_def del: append_Cons)
qed

section \<open>Witnesses\<close>

definition example_governance :: GovernanceConfig where
  "example_governance = \<lparr>gv_Enabled = True, gv_ManagerURL = ''http://m'', gv_ServiceName = ''diam-gw'', gv_PodName = [],
     gv_NotificationPort = 9002, gv_PodIP = ''::1'', gv_Subscriptions = [''hss'', ''eir''], gv_Timeout = 1\<rparr>"

theorem gov_registration_witness:
  "\<exists>r s'. InitializeFromDiamGWConfig None False example_governance ''[::]:280'' gov_initial = Some (True, s') \<and>
     gs_registrations s' = [(r, False)] \<and> rg_Port r = 3868"
proof -
  have "gv_Validate example_governance = None" "gv_Enabled example_governance" "\<not> gs_once gov_initial"
    by (simp_all add: example_governance_def gv_Validate_def gov_initial_def)
  then obtain r s' where "InitializeFromDiamGWConfig None False example_governance (''[::]'' @ '':'' @ decimal 280) gov_initial = Some (True, s')"
      "gs_registrations s' = gs_registrations gov_initial @ [(r, False)]" "rg_Port r = 3868"
    using gov_registration [of example_governance gov_initial 280 None False "''[::]''"] by auto
  then show ?thesis
    by (auto simp: decimal_evals gov_initial_def)
qed

theorem gov_registered_once_witness:
  "\<exists>s1 s2 c cfg. Initialize None True cfg gov_initial = (False, s1) \<and> gov_Shutdown False s1 = s2 \<and>
     gs_unregistrations s2 = [False] \<and> GetClient s2 = Some c \<and> gc_isRegistered c"
proof -
  fix cfg
  obtain s1 c where s1: "Initialize None True cfg gov_initial = (False, s1)" "gs_globalClient s1 = Some c" "gc_isRegistered c" "gs_unregistrations s1 = []"
    by (simp add: Initialize_def gov_initial_def Let_def)
  then have u: "GetClient (gov_Shutdown False s1) = Some c" "gs_unregistrations (gov_Shutdown False s1) = [False]"
    by (simp_all add: gov_Shutdown_def GetClient_def Unregister_def Let_def)
  have "gov_reach (gov_Shutdown False s1)"
    unfolding gov_reach_def using gr_initialize [OF s1(1)] gr_shutdown by (meson r_into_rtranclp rtranclp_trans)
  then show ?thesis
    using gov_registered_once [of "gov_Shutdown False s1"] s1(1) u by auto
qed

theorem gov_retry_hides_failure_witness:
  "\<exists>s1 cfg. Initialize None False cfg gov_initial = (True, s1) \<and> Initialize None True cfg s1 = (False, s1) \<and> GetClient s1 = None"
proof -
  fix cfg
  obtain s1 where s1: "Initialize None False cfg gov_initial = (True, s1)"
    by (simp add: Initialize_def gov_initial_def Let_def)
  have "GetClient gov_initial = None"
    by (simp add: GetClient_def gov_initial_def)
  then show ?thesis
    using s1 gov_retry_hides_failure [OF s1 _ rtranclp.rtrancl_refl] by blast
qed

end
