(* ===== verification/Stats_Report.thy ===== *)
theory Stats_Report
  imports Gateway Governance
begin

text \<open>
  The statistics the gateway reports (\<^verbatim>\<open>internal/stats/converter.go\<close>), built from the snapshots of the gateway and of its
  server, and the counters by message type of \<^verbatim>\<open>pkg/metrics/metrics.go\<close>. The lemmas show that the report does not depend
  on the order in which the map of interfaces is visited, what its sums are, that the errors by
  interface it has a place for are never there, and what the counters hold when increments and resets interleave.
\<close>

section \<open>Snapshots of the server\<close>

record CommandStatsSnapshot =
  css_CommandCode :: int
  css_Stats :: CommandStats

record InterfaceStatsSnapshot =
  iss_ApplicationID :: int
  iss_MessagesReceived :: u64
  iss_MessagesSent :: u64
  iss_BytesReceived :: u64
  iss_BytesSent :: u64
  iss_Errors :: u64
  iss_CommandStats :: "int \<rightharpoonup> CommandStatsSnapshot"

record ServerStatsSnapshot =
  sss_TotalConnections :: u64
  sss_ActiveConnections :: u64
  sss_TotalMessages :: u64
  sss_MessagesSent :: u64
  sss_MessagesReceived :: u64
  sss_TotalBytesSent :: u64
  sss_TotalBytesReceived :: u64
  sss_Errors :: u64
  sss_InterfaceStats :: "int \<rightharpoonup> InterfaceStatsSnapshot"

definition snapshotInterface :: "int \<Rightarrow> InterfaceStats \<Rightarrow> InterfaceStatsSnapshot" where
  "snapshotInterface appID f =
     \<lparr>iss_ApplicationID = appID, iss_MessagesReceived = is_MessagesReceived f, iss_MessagesSent = is_MessagesSent f,
      iss_BytesReceived = is_BytesReceived f, iss_BytesSent = is_BytesSent f, iss_Errors = is_Errors f,
      iss_CommandStats = (\<lambda>code. map_option (\<lambda>c. \<lparr>css_CommandCode = code, css_Stats = c\<rparr>) (is_CommandStats f code))\<rparr>"

definition sv_GetStats :: "server_world \<Rightarrow> ServerStatsSnapshot" where
  "sv_GetStats w =
     (let st = w_stats w in
      \<lparr>sss_TotalConnections = st_TotalConnections st, sss_ActiveConnections = st_ActiveConnections st,
       sss_TotalMessages = st_TotalMessages st, sss_MessagesSent = st_MessagesSent st, sss_MessagesReceived = st_MessagesReceived st,
       sss_TotalBytesSent = st_TotalBytesSent st, sss_TotalBytesReceived = st_TotalBytesReceived st, sss_Errors = st_Errors st,
       sss_InterfaceStats = (\<lambda>appID. map_option (snapshotInterface appID) (st_InterfaceStats st appID))\<rparr>)"

section \<open>The report\<close>

text \<open>The fields of the shared package's types that the conversion sets; times and rates, which are floating-point numbers, are left out.\<close>

record SourceStats =
  so_Total :: u64
  so_Success :: u64
  so_Failed :: u64

record UnifiedCommandStats =
  uc_CommandCode :: int
  uc_Name :: string
  uc_RequestsSent :: u64
  uc_RequestsRecv :: u64
  uc_Errors :: u64

record ApplicationStats =
  ap_ApplicationID :: int
  ap_Name :: string
  ap_MessagesSent :: u64
  ap_MessagesRecv :: u64
  ap_BytesSent :: u64
  ap_BytesRecv :: u64
  ap_Errors :: u64
  ap_Commands :: "int \<rightharpoonup> UnifiedCommandStats"

record ServiceStats =
  un_ConnectionsTotal :: u64
  un_ConnectionsActive :: u64
  un_Total :: u64
  un_Success :: u64
  un_Failed :: u64
  un_BytesSent :: u64
  un_BytesRecv :: u64
  un_BySource :: "string \<rightharpoonup> SourceStats"
  un_ErrorsTotal :: u64
  un_ErrorsByInterface :: "string \<rightharpoonup> u64"
  un_ErrorsByType :: "string \<rightharpoonup> u64"
  un_Applications :: "int \<rightharpoonup> ApplicationStats"
  un_TotalForwarded :: u64
  un_TotalFromDRA :: u64
  un_Sessions :: "u64 \<times> u64 \<times> u64 \<times> u64"

definition getApplicationName :: "int \<Rightarrow> string" where
  "getApplicationName appID =
     (if appID = 0 then ''base'' else if appID = 16777251 then ''s6a'' else if appID = 16777252 then ''s13''
      else if appID = 16777216 then ''cx'' else if appID = 16777217 then ''sh'' else ''app_'' @ showInt appID)"

definition getCommandName :: "int \<Rightarrow> string" where
  "getCommandName cmdCode =
     (if cmdCode = 257 then ''CER/CEA'' else if cmdCode = 280 then ''DWR/DWA'' else if cmdCode = 282 then ''DPR/DPA''
      else if cmdCode = 316 then ''ULR/ULA'' else if cmdCode = 317 then ''CLR/CLA'' else if cmdCode = 318 then ''AIR/AIA''
      else if cmdCode = 319 then ''IDR/IDA'' else if cmdCode = 321 then ''PUR/PUA'' else if cmdCode = 323 then ''NOR/NOA''
      else if cmdCode = 324 then ''MICR/MICA'' else ''cmd_'' @ showInt cmdCode)"

definition convertApplication :: "int \<Rightarrow> InterfaceStatsSnapshot \<Rightarrow> ApplicationStats" where
  "convertApplication appID f =
     \<lparr>ap_ApplicationID = appID, ap_Name = getApplicationName appID, ap_MessagesSent = iss_MessagesSent f,
      ap_MessagesRecv = iss_MessagesReceived f, ap_BytesSent = iss_BytesSent f, ap_BytesRecv = iss_BytesReceived f,
      ap_Errors = iss_Errors f,
      ap_Commands = (\<lambda>code. map_option (\<lambda>c. \<lparr>uc_CommandCode = code, uc_Name = getCommandName code,
        uc_RequestsSent = cs_MessagesSent (css_Stats c), uc_RequestsRecv = cs_MessagesReceived (css_Stats c),
        uc_Errors = cs_Errors (css_Stats c)\<rparr>) (iss_CommandStats f code))\<rparr>"

text \<open>One iteration of the loop over the interfaces.\<close>

definition convertInterface :: "ServerStatsSnapshot \<Rightarrow> int \<Rightarrow> ServiceStats \<Rightarrow> ServiceStats" where
  "convertInterface snap appID u =
     (case sss_InterfaceStats snap appID of
        None \<Rightarrow> u
      | Some f \<Rightarrow>
          (let appName = getApplicationName appID;
               totalMessages = iss_MessagesReceived f + iss_MessagesSent f;
               u1 = u\<lparr>un_Applications := (un_Applications u)(appID \<mapsto> convertApplication appID f),
                 un_BySource := (un_BySource u)(appName \<mapsto>
                   \<lparr>so_Total = totalMessages, so_Success = totalMessages - iss_Errors f, so_Failed = iss_Errors f\<rparr>)\<rparr>
           in if iss_Errors f > 0 then u1\<lparr>un_ErrorsByInterface := (un_ErrorsByInterface u1)(appName \<mapsto> iss_Errors f)\<rparr> else u1))"

text \<open>\<open>order\<close> is the order the map of interfaces is visited in.\<close>

definition ConvertToUnifiedStats :: "int list \<Rightarrow> GatewayStatsSnapshot \<Rightarrow> ServerStatsSnapshot \<Rightarrow> ServiceStats" where
  "ConvertToUnifiedStats order g inServer =
     (let byType1 = (if gss_TimeoutErrors g > 0 then Map.empty(''timeout'' \<mapsto> gss_TimeoutErrors g) else Map.empty);
          byType2 = (if gss_RoutingErrors g > 0 then byType1(''routing'' \<mapsto> gss_RoutingErrors g) else byType1)
      in fold (convertInterface inServer) order
        \<lparr>un_ConnectionsTotal = sss_TotalConnections inServer, un_ConnectionsActive = sss_ActiveConnections inServer,
         un_Total = gss_TotalRequests g, un_Success = gss_TotalResponses g, un_Failed = gss_TotalErrors g,
         un_BytesSent = sss_TotalBytesSent inServer, un_BytesRecv = sss_TotalBytesReceived inServer, un_BySource = Map.empty,
         un_ErrorsTotal = gss_TotalErrors g, un_ErrorsByInterface = Map.empty, un_ErrorsByType = byType2,
         un_Applications = Map.empty, un_TotalForwarded = gss_TotalForwarded g, un_TotalFromDRA = gss_TotalFromDRA g,
         un_Sessions = (gss_ActiveSessions g, gss_SessionsCreated g, gss_SessionsCompleted g, gss_SessionsExpired g)\<rparr>)"

section \<open>Names\<close>

lemma decimal_inj: "decimal m = decimal n \<Longrightarrow> m = n"
proof -
  assume e: "decimal m = decimal n"
  have "m \<le> m + n" "n \<le> m + n"
    by simp_all
  then have "m < 2 ^ (m + n)" "n < 2 ^ (m + n)"
    using le_less_trans less_exp by blast+
  then have "parseDigits (m + n) 0 (decimal m) = Inr m" "parseDigits (m + n) 0 (decimal n) = Inr n"
    by (simp_all only: parseDigits_decimal)
  then show "m = n"
    unfolding e by simp
qed

lemma minus_decimal: "CHR ''-'' # s \<noteq> decimal n"
  by (metis hd_decimal list.sel(1))

lemma showInt_inj: "showInt i = showInt j \<Longrightarrow> i = j"
  by (auto simp: showInt_def minus_decimal minus_decimal [symmetric] split: if_splits dest: decimal_inj)

lemma getApplicationName_inj: "getApplicationName a = getApplicationName b \<Longrightarrow> a = b"
  by (auto simp: getApplicationName_def split: if_splits dest: showInt_inj)

section \<open>The loop over the interfaces\<close>

definition sourceOf :: "InterfaceStatsSnapshot \<Rightarrow> SourceStats" where
  "sourceOf f = \<lparr>so_Total = iss_MessagesReceived f + iss_MessagesSent f,
     so_Success = iss_MessagesReceived f + iss_MessagesSent f - iss_Errors f, so_Failed = iss_Errors f\<rparr>"

lemma convertInterface_fields:
  "un_BySource (convertInterface snap a u) =
     (case sss_InterfaceStats snap a of None \<Rightarrow> un_BySource u | Some f \<Rightarrow> (un_BySource u)(getApplicationName a \<mapsto> sourceOf f))"
  "un_ErrorsByInterface (convertInterface snap a u) =
     (case sss_InterfaceStats snap a of None \<Rightarrow> un_ErrorsByInterface u
      | Some f \<Rightarrow> if iss_Errors f > 0 then (un_ErrorsByInterface u)(getApplicationName a \<mapsto> iss_Errors f) else un_ErrorsByInterface u)"
  by (simp_all add: convertInterface_def sourceOf_def Let_def split: option.split)

lemma convert_sources:
  "un_BySource (fold (convertInterface snap) order u) (getApplicationName a) =
     (if a \<in> set order \<and> sss_InterfaceStats snap a \<noteq> None then map_option sourceOf (sss_InterfaceStats snap a)
      else un_BySource u (getApplicationName a))"
  by (induction order arbitrary: u) (auto simp: convertInterface_fields dest: getApplicationName_inj split: option.splits)

lemma convert_other_sources:
  "name \<notin> range getApplicationName \<Longrightarrow> un_BySource (fold (convertInterface snap) order u) name = un_BySource u name"
  by (induction order arbitrary: u) (auto simp: convertInterface_fields split: option.splits)

lemma convert_no_errors:
  assumes "\<And>a f. sss_InterfaceStats snap a = Some f \<Longrightarrow> iss_Errors f = 0"
  shows "un_ErrorsByInterface (fold (convertInterface snap) order u) = un_ErrorsByInterface u"
  using assms by (induction order arbitrary: u) (auto simp: convertInterface_fields split: option.splits)

lemma report_no_errors:
  assumes "\<And>a f. sss_InterfaceStats snap a = Some f \<Longrightarrow> iss_Errors f = 0"
  shows "un_ErrorsByInterface (ConvertToUnifiedStats order g snap) = Map.empty"
  by (simp add: ConvertToUnifiedStats_def Let_def convert_no_errors [OF assms])

text \<open>The table of the sources, given by the table of the interfaces.\<close>

lemma report_sources:
  assumes "dom (sss_InterfaceStats snap) \<subseteq> set order"
  shows "un_BySource (ConvertToUnifiedStats order g snap) (getApplicationName a) = map_option sourceOf (sss_InterfaceStats snap a)"
    and "name \<notin> range getApplicationName \<Longrightarrow> un_BySource (ConvertToUnifiedStats order g snap) name = None"
  using assms by (auto simp: ConvertToUnifiedStats_def Let_def convert_sources convert_other_sources split: option.split)

lemma table_sum_image:
  assumes "inj f" and "\<And>a. m' (f a) = map_option h (m a)" and "\<And>b. b \<notin> range f \<Longrightarrow> m' b = None"
  shows "table_sum g m' = table_sum (\<lambda>x. g (h x)) m"
proof -
  have d: "dom m' = f ` dom m"
  proof (intro set_eqI)
    show "b \<in> dom m' \<longleftrightarrow> b \<in> f ` dom m" for b
      using assms by (cases "b \<in> range f") (auto simp: inj_image_mem_iff domIff)
  qed
  have "table_sum g m' = (\<Sum>a\<in>dom m. g (the (m' (f a))))"
    unfolding table_sum_def d by (rule sum.reindex_cong [OF inj_on_subset [OF assms(1)]]) simp_all
  also have "\<dots> = table_sum (\<lambda>x. g (h x)) m"
    unfolding table_sum_def by (rule sum.cong) (auto simp: assms(2))
  finally show ?thesis .
qed

section \<open>Errors of an interface\<close>

text \<open>No step of the server changes the error counter of an interface.\<close>

definition errorless :: "server_world \<Rightarrow> bool" where
  "errorless w \<longleftrightarrow> (\<forall>f \<in> ran (st_InterfaceStats (w_stats w)). is_Errors f = 0)"

lemma errorless_counted:
  assumes "errorless w"
  shows "errorless (updStats (countReceivedCommand cmd len) w)" and "errorless (updStats (countSentCommand cmd n) w)"
proof -
  have "is_Errors (interfaceOf a (w_stats w)) = 0" for a
    using assms by (auto simp: errorless_def newInterfaceStats_def ranI split: option.split)
  then show "errorless (updStats (countReceivedCommand cmd len) w)" "errorless (updStats (countSentCommand cmd n) w)"
    using assms by (auto simp: errorless_def updStats_def countReceivedCommand_eq countSentCommand_eq Let_def dest!: ran_upd_subset)
qed

lemma errorless_same: "st_InterfaceStats (w_stats w') = st_InterfaceStats (w_stats w) \<Longrightarrow> errorless w' = errorless w"
  by (simp add: errorless_def)

lemma errorless_plain:
  "errorless w \<Longrightarrow> errorless (updStats addError w)" "errorless w \<Longrightarrow> errorless (updStats (countReceived len) w)"
  "errorless w \<Longrightarrow> errorless (updStats (countSent n) w)" "errorless w \<Longrightarrow> errorless (conn_Close i w)"
  "errorless w \<Longrightarrow> errorless (updStats (\<lambda>st. st\<lparr>st_MessagesSent := k st\<rparr>) w)"
  by (simp_all add: errorless_def updStats_def addError_def countReceived_def countSent_def conn_Close_def)

lemma errorless_write: "errorless w \<Longrightarrow> errorless (snd (response_Write b i w))"
proof -
  assume e: "errorless w"
  obtain r w1 where w1: "conn_Write b i w = (r, w1)"
    by (cases "conn_Write b i w")
  then have "w_stats w1 = w_stats w"
    by (auto simp: conn_Write_def split: if_splits option.splits)
  then have "errorless w1"
    using e by (simp add: errorless_def)
  then show ?thesis
    using w1 by (auto simp: response_Write_def Let_def errorless_plain errorless_counted split: option.split sum.split)
qed

lemma errorless_handler: "handler_effect w w' \<Longrightarrow> errorless w \<Longrightarrow> errorless w'"
  by (induction rule: handler_effect.induct) (simp_all add: errorless_write errorless_plain, simp_all add: errorless_def)

lemma errorless_serve: "errorless w \<Longrightarrow> errorless (snd (serveMessage s m w))"
  by (simp add: serveMessage_def errorless_plain errorless_counted Let_def split: sum.split)

lemma errorless_broadcast: "errorless w \<Longrightarrow> errorless (snd (broadcastTo b order failed w))"
proof (induction order arbitrary: failed w)
  case (Cons addr order)
  have "errorless w1" if "response_Write b i w = (r, w1)" for i r w1
    using errorless_write [OF Cons.prems, of b i] that by simp
  then show ?case
    using Cons by (auto simp: errorless_plain split: option.split prod.split)
qed simp

lemma errorless_step:
  assumes "server_step s y y'" and "server_inv s y" and "errorless (vs_world y)"
  shows "errorless (vs_world y')"
  using assms(1)
proof cases
  case (vs_run xs h m i ys out w)
  then have "handler_effect (vs_world y) w"
    using assms(2) server_handler.effects [of h "vs_world y" m i] by (auto simp: server_inv_def)
  then show ?thesis
    using vs_run(1) assms(3) errorless_handler by simp
next
  case (vs_message i m h w)
  then show ?thesis
    using errorless_serve [OF assms(3), of s m] by simp
next
  case (vs_unhandled i m w)
  then show ?thesis
    using errorless_serve [OF assms(3), of s m] by simp
next
  case (vs_broadcast b order failed w)
  then show ?thesis
    using errorless_broadcast [OF assms(3), of b order False] by (simp add: Broadcast_def)
next
  case (vs_stop order)
  then show ?thesis
    using assms(3) errorless_same [of "closeAll order (vs_world y)" "vs_world y"] by (simp add: closeAll_stats)
next
  case (vs_end i err)
  then show ?thesis
    using assms(3) errorless_same [of "serveEnd err i (vs_world y)" "vs_world y"]
    by (simp add: serveEnd_def conn_Close_def updStats_def addError_def Let_def)
next
  case (vs_accept remote w)
  then show ?thesis
    using assms(3) errorless_same [of w "vs_world y"] by (auto simp: acceptConn_def updStats_def Let_def split: if_splits)
next
  case (vs_refuse remote w)
  then show ?thesis
    using assms(3) errorless_same [of w "vs_world y"] by (auto simp: acceptConn_def updStats_def addError_def Let_def split: if_splits)
qed (use assms(3) in \<open>simp_all add: errorless_def conn_Close_def\<close>)

lemma errorless_reach: "server_reach s y \<Longrightarrow> server_ok s \<Longrightarrow> errorless (vs_world y)"
proof (induction rule: server_reach.induct)
  case sr_start
  show ?case
    by (simp add: errorless_def startServer_def emptyWorld_def newServerStats_def)
next
  case (sr_step y y')
  then show ?case
    using errorless_step server_reach_inv by blast
qed

text \<open>
  C37. The report by interface. For every state a server can reach and whatever order the map of interfaces is
  visited in, the report has one entry for each interface, under its own name, with the messages received and sent;
  the totals of the entries sum up to the messages the server has received plus those its interfaces have sent; and no error is ever
  shown for an interface: every request counts as a success and the table of errors by interface is empty, because
  the server counts its errors only in total.
\<close>

theorem report_by_interface:
  assumes "server_reach s y" and "server_ok s" and "st = w_stats (vs_world y)" and "dom (st_InterfaceStats st) \<subseteq> set order"
    and "u = ConvertToUnifiedStats order g (sv_GetStats (vs_world y))"
  shows "un_BySource u (getApplicationName a) = map_option (\<lambda>f. \<lparr>so_Total = is_MessagesReceived f + is_MessagesSent f,
      so_Success = is_MessagesReceived f + is_MessagesSent f, so_Failed = 0\<rparr>) (st_InterfaceStats st a) \<and>
    table_sum so_Total (un_BySource u) = st_MessagesReceived st + table_sum is_MessagesSent (st_InterfaceStats st) \<and>
    un_ErrorsByInterface u = Map.empty"
proof -
  let ?snap = "sv_GetStats (vs_world y)"
  have i: "sss_InterfaceStats ?snap = (\<lambda>a. map_option (snapshotInterface a) (st_InterfaceStats st a))"
    by (simp add: sv_GetStats_def assms(3) Let_def)
  have e: "is_Errors f = 0" if "st_InterfaceStats st a = Some f" for a f
    using errorless_reach [OF assms(1,2)] that by (auto simp: errorless_def assms(3) ran_def)
  have d: "dom (sss_InterfaceStats ?snap) \<subseteq> set order"
    using assms(4) by (auto simp: i dom_def)
  let ?src = "\<lambda>f. \<lparr>so_Total = is_MessagesReceived f + is_MessagesSent f,
      so_Success = is_MessagesReceived f + is_MessagesSent f, so_Failed = 0\<rparr>"
  have b: "un_BySource u (getApplicationName a) = map_option ?src (st_InterfaceStats st a)" for a
    using e [of a] by (cases "st_InterfaceStats st a") (simp_all add: assms(5) report_sources(1) [OF d] i sourceOf_def snapshotInterface_def)
  have "table_sum so_Total (un_BySource u) = table_sum (\<lambda>f. so_Total (?src f)) (st_InterfaceStats st)"
    using report_sources(2) [OF d] by (intro table_sum_image [of getApplicationName] b) (auto simp: inj_def assms(5) dest: getApplicationName_inj)
  also have "\<dots> = table_sum is_MessagesReceived (st_InterfaceStats st) + table_sum is_MessagesSent (st_InterfaceStats st)"
    by (simp add: table_sum_def sum.distrib)
  also have "table_sum is_MessagesReceived (st_InterfaceStats st) = st_MessagesReceived st"
    using server_reach_inv [OF assms(1,2)] by (simp add: server_inv_def stats_add_up_def assms(3))
  finally have "table_sum so_Total (un_BySource u) = st_MessagesReceived st + table_sum is_MessagesSent (st_InterfaceStats st)" .
  moreover have "un_ErrorsByInterface u = Map.empty"
    unfolding assms(5) by (rule report_no_errors) (use e in \<open>auto simp: i snapshotInterface_def\<close>)
  ultimately show ?thesis
    using b by simp
qed

text \<open>A server that has read one message of the base protocol.\<close>

lemma example_served:
  obtains y f where "server_reach example_server y" and "st_InterfaceStats (w_stats (vs_world y)) = [0 \<mapsto> f]"
    and "is_MessagesReceived f = 1" and "is_MessagesSent f = 0"
proof -
  define m where "m = \<lparr>msg_Length = 20, msg_Header = replicate 20 0, msg_Body = []\<rparr>"
  have z: "st_InterfaceStats (w_stats (vs_world example_run)) = Map.empty"
    by (simp add: example_run_def acceptConn_def emptyWorld_def newServerStats_def example_server_def NewServer_def sv_HandleFunc_def
        updStats_def Let_def)
  define w where "w = snd (serveMessage example_server m (vs_world example_run))"
  define f where "f = newInterfaceStats\<lparr>is_MessagesReceived := 1, is_BytesReceived := 20,
    is_CommandStats := [0 \<mapsto> zeroCommandStats\<lparr>cs_MessagesReceived := 1, cs_BytesReceived := 20\<rparr>]\<rparr>"
  have u: "Uint32 (replicate 4 0) = 0" "Uint32 [0, 0, 0, 0] = 0"
    by (simp_all add: eval_nat_numeral wire_simps)
  have w: "serveMessage example_server m (vs_world example_run) = (None, w)" "st_InterfaceStats (w_stats w) = [0 \<mapsto> f]"
      "is_MessagesReceived f = 1" "is_MessagesSent f = 0"
    by (simp_all add: w_def f_def serveMessage_def m_def ParseCommand_def example_server_def NewServer_def sv_HandleFunc_def
        getHandler_def updStats_def countReceivedCommand_eq countReceived_def bslice_def Let_def z [unfolded example_server_def] u
        newInterfaceStats_def zeroCommandStats_def)
  have "server_step example_server example_run (example_run\<lparr>vs_world := w\<rparr>)"
    using example_run(2) by (intro vs_unhandled [OF _ _ w(1)]) (simp_all add: m_def)
  then have "server_reach example_server (example_run\<lparr>vs_world := w\<rparr>)"
    by (rule sr_step [OF example_run(1,3)])
  then show thesis
    using that w(2-4) by fastforce
qed

theorem report_by_interface_witness:
  "\<exists>y g. server_reach example_server y \<and>
     un_BySource (ConvertToUnifiedStats [0] g (sv_GetStats (vs_world y))) ''base'' = Some \<lparr>so_Total = 1, so_Success = 1, so_Failed = 0\<rparr>"
proof -
  obtain y f where y: "server_reach example_server y" "st_InterfaceStats (w_stats (vs_world y)) = [0 \<mapsto> f]"
      "is_MessagesReceived f = 1" "is_MessagesSent f = 0"
    by (rule example_served)
  have "getApplicationName 0 = ''base''"
    by (simp add: getApplicationName_def)
  then show ?thesis
    using report_by_interface [OF y(1) example_server_ok refl _ refl, of "[0]" _ 0] y by auto
qed

section \<open>Counters by message type\<close>

text \<open>
  The map holds pointers to counters; \<open>mm_cells\<close> is what they point to. \<^verbatim>\<open>Increment\<close> finds or makes the counter under the lock and
  adds to it after the lock is released.
\<close>

record MessageTypeMetrics =
  mm_counters :: "u32 \<rightharpoonup> nat"
  mm_cells :: "nat \<Rightarrow> u64"
  mm_made :: nat

definition NewMessageTypeMetrics :: MessageTypeMetrics where
  "NewMessageTypeMetrics = \<lparr>mm_counters = Map.empty, mm_cells = (\<lambda>_. 0), mm_made = 0\<rparr>"

definition mm_counter :: "u32 \<Rightarrow> MessageTypeMetrics \<Rightarrow> nat \<times> MessageTypeMetrics" where
  "mm_counter commandCode m =
     (case mm_counters m commandCode of
        Some counter \<Rightarrow> (counter, m)
      | None \<Rightarrow> (mm_made m, m\<lparr>mm_counters := (mm_counters m)(commandCode \<mapsto> mm_made m),
          mm_cells := (mm_cells m)(mm_made m := 0), mm_made := mm_made m + 1\<rparr>))"

definition mm_Add :: "nat \<Rightarrow> MessageTypeMetrics \<Rightarrow> MessageTypeMetrics" where
  "mm_Add counter m = m\<lparr>mm_cells := (mm_cells m)(counter := mm_cells m counter + 1)\<rparr>"

definition mm_Increment :: "u32 \<Rightarrow> MessageTypeMetrics \<Rightarrow> MessageTypeMetrics" where
  "mm_Increment commandCode m = (case mm_counter commandCode m of (counter, m') \<Rightarrow> mm_Add counter m')"

definition mm_Get :: "u32 \<Rightarrow> MessageTypeMetrics \<Rightarrow> u64" where
  "mm_Get commandCode m = (case mm_counters m commandCode of None \<Rightarrow> 0 | Some counter \<Rightarrow> mm_cells m counter)"

definition mm_GetAll :: "MessageTypeMetrics \<Rightarrow> u32 \<rightharpoonup> u64" where
  "mm_GetAll m = (\<lambda>code. map_option (mm_cells m) (mm_counters m code))"

definition mm_Reset :: "MessageTypeMetrics \<Rightarrow> MessageTypeMetrics" where
  "mm_Reset m = m\<lparr>mm_counters := Map.empty\<rparr>"

definition CommandCodeToName :: "u32 \<Rightarrow> string" where
  "CommandCodeToName code =
     (if code = 257 then ''CER/CEA'' else if code = 280 then ''DWR/DWA'' else if code = 282 then ''DPR/DPA''
      else if code = 303 then ''ULA'' else if code = 306 then ''CLR'' else if code = 324 then ''ECR/ECA''
      else if code = 325 then ''AAR/AAA'' else if code = 271 then ''ACR/ACA'' else if code = 272 then ''STR/STA''
      else if code = 275 then ''ASR/ASA'' else ''CMD_'' @ decimal (unat code))"

definition CompactMetrics :: "u32 list \<Rightarrow> string \<Rightarrow> MessageTypeMetrics \<Rightarrow> string" where
  "CompactMetrics order direction m =
     (let shown = filter (\<lambda>code. mm_counters m code \<noteq> None \<and> mm_Get code m > 0) order in
      direction @ '': '' @ concat (map (\<lambda>code. ''['' @ CommandCodeToName code @ ''='' @ decimal (unat (mm_Get code m)) @ ''] '') shown) @
      ''(Total='' @ decimal (unat (\<Sum>code\<leftarrow>shown. mm_Get code m)) @ '')'')"

text \<open>
  Calls in any number of goroutines: increments between their two parts with the counter they have found, and for every code
  the increments that took the lock since the last reset.
\<close>

record metric_sys =
  mq_metrics :: MessageTypeMetrics
  mq_adding :: "(u32 \<times> nat) list"
  mq_since :: "u32 \<Rightarrow> nat"

inductive metric_reach :: "metric_sys \<Rightarrow> bool" where
  mq_new: "metric_reach \<lparr>mq_metrics = NewMessageTypeMetrics, mq_adding = [], mq_since = (\<lambda>_. 0)\<rparr>"
| mq_lock: "metric_reach y \<Longrightarrow> mm_counter code (mq_metrics y) = (p, m) \<Longrightarrow>
    metric_reach (y\<lparr>mq_metrics := m, mq_adding := (code, p) # mq_adding y, mq_since := (mq_since y)(code := mq_since y code + 1)\<rparr>)"
| mq_add: "metric_reach y \<Longrightarrow> mq_adding y = xs @ (code, p) # ys \<Longrightarrow>
    metric_reach (y\<lparr>mq_metrics := mm_Add p (mq_metrics y), mq_adding := xs @ ys\<rparr>)"
| mq_reset: "metric_reach y \<Longrightarrow> metric_reach (y\<lparr>mq_metrics := mm_Reset (mq_metrics y), mq_since := (\<lambda>_. 0)\<rparr>)"

text \<open>
  The invariant: the counters in the map are distinct, an increment holds the counter of its own code or one that has left the map, and
  counter and increments under way add up.
\<close>

definition pointers_ok :: "metric_sys \<Rightarrow> bool" where
  "pointers_ok y \<longleftrightarrow>
     (\<forall>code p. mm_counters (mq_metrics y) code = Some p \<longrightarrow> p < mm_made (mq_metrics y) \<and>
        (\<forall>code'. (code', p) \<in> set (mq_adding y) \<or> mm_counters (mq_metrics y) code' = Some p \<longrightarrow> code' = code)) \<and>
     (\<forall>code p. (code, p) \<in> set (mq_adding y) \<longrightarrow> p < mm_made (mq_metrics y))"

definition count_ok :: "metric_sys \<Rightarrow> u32 \<Rightarrow> bool" where
  "count_ok y code \<longleftrightarrow>
     (case mm_counters (mq_metrics y) code of
        None \<Rightarrow> mq_since y code = 0
      | Some p \<Rightarrow> mm_cells (mq_metrics y) p + word_of_nat (count_list (mq_adding y) (code, p)) = word_of_nat (mq_since y code))"

lemma metrics_lock:
  assumes "pointers_ok y" and "\<And>c. count_ok y c" and "mm_counter code (mq_metrics y) = (p, m)"
  defines "y' \<equiv> y\<lparr>mq_metrics := m, mq_adding := (code, p) # mq_adding y, mq_since := (mq_since y)(code := mq_since y code + 1)\<rparr>"
  shows "pointers_ok y'" and "count_ok y' c"
proof -
  let ?m = "mq_metrics y"
  have fresh: "(c, mm_made ?m) \<notin> set (mq_adding y)" "mm_counters ?m c \<noteq> Some (mm_made ?m)" for c
    using assms(1) by (auto simp: pointers_ok_def)
  have c: "mm_counters ?m code = Some p \<and> m = ?m \<or> mm_counters ?m code = None \<and> p = mm_made ?m \<and>
    m = ?m\<lparr>mm_counters := (mm_counters ?m)(code \<mapsto> mm_made ?m), mm_cells := (mm_cells ?m)(mm_made ?m := 0), mm_made := mm_made ?m + 1\<rparr>"
    using assms(3) by (auto simp: mm_counter_def split: option.splits)
  then show "pointers_ok y'"
    using assms(1) fresh by (auto simp: pointers_ok_def y'_def less_Suc_eq split: if_splits)
  show "count_ok y' c"
    using c assms(2) [of c] fresh by (cases "c = code"; cases "mm_counters ?m c") (auto simp: count_ok_def y'_def count_list_0_iff algebra_simps)
qed

lemma metrics_add:
  assumes "pointers_ok y" and "\<And>c. count_ok y c" and "mq_adding y = xs @ (code, p) # ys"
  defines "y' \<equiv> y\<lparr>mq_metrics := mm_Add p (mq_metrics y), mq_adding := xs @ ys\<rparr>"
  shows "pointers_ok y'" and "count_ok y' c"
proof -
  show "pointers_ok y'"
    using assms(1,3) unfolding y'_def pointers_ok_def by (auto simp: mm_Add_def)
  have own: "c = code" if "mm_counters (mq_metrics y) c = Some p"
    using assms(1,3) that by (auto simp: pointers_ok_def)
  show "count_ok y' c"
  proof (cases "mm_counters (mq_metrics y) c")
    case None
    then show ?thesis
      using assms(2) [of c] by (simp add: count_ok_def y'_def mm_Add_def)
  next
    case (Some q)
    then have "mm_cells (mq_metrics y) q + word_of_nat (count_list (xs @ (code, p) # ys) (c, q)) = word_of_nat (mq_since y c)"
      using assms(2) [of c] by (simp add: count_ok_def assms(3))
    then show ?thesis
      using Some own by (cases "q = p") (simp_all add: count_ok_def y'_def mm_Add_def add_ac)
  qed
qed

lemma metrics_reach_ok: "metric_reach y \<Longrightarrow> pointers_ok y \<and> (\<forall>c. count_ok y c)"
proof (induction rule: metric_reach.induct)
  case mq_new
  then show ?case
    by (simp add: pointers_ok_def count_ok_def NewMessageTypeMetrics_def)
next
  case (mq_lock y code p m)
  then show ?case
    using metrics_lock by blast
next
  case (mq_add y xs code p ys)
  then show ?case
    using metrics_add by blast
next
  case (mq_reset y)
  then show ?case
    by (auto simp: pointers_ok_def count_ok_def mm_Reset_def)
qed

text \<open>
  The counters by message type are exact although an increment adds after it has released the lock: however increments and
  resets interleave, the count of a code and the increments of it that have its counter and are still to add make up the increments that took
  the lock since the last reset (modulo 2^64); so when no increment is under way the count is that number, and an increment
  that adds after a reset does not disturb the new counts.
\<close>

theorem metrics_linearizable:
  assumes "metric_reach y" and "m = mq_metrics y"
  shows "(\<exists>n. n \<le> count_list (map fst (mq_adding y)) code \<and> mm_Get code m + word_of_nat n = word_of_nat (mq_since y code)) \<and>
    (mq_adding y = [] \<longrightarrow> mm_Get code m = word_of_nat (mq_since y code) \<and>
       (mm_GetAll m code = None \<or> mm_GetAll m code = Some (word_of_nat (mq_since y code))))"
proof -
  have c: "count_ok y code"
    using metrics_reach_ok [OF assms(1)] by blast
  have "count_list xs (code, p) \<le> count_list (map fst xs) code" for xs :: "(u32 \<times> nat) list" and p
    by (induction xs) auto
  then show ?thesis
    using c assms(2) by (cases "mm_counters m code") (auto simp: count_ok_def mm_Get_def mm_GetAll_def)
qed

theorem metrics_linearizable_witness:
  "\<exists>y1 y2. metric_reach y1 \<and> mq_adding y1 = [(324, 0)] \<and> mm_Get 324 (mq_metrics y1) = 0 \<and>
     metric_reach y2 \<and> mq_adding y2 = [] \<and> mm_Get 324 (mq_metrics y2) = 1"
proof -
  define y0 where "y0 = \<lparr>mq_metrics = NewMessageTypeMetrics, mq_adding = [], mq_since = (\<lambda>_. 0)\<rparr>"
  define m1 where "m1 = snd (mm_counter 324 NewMessageTypeMetrics)"
  define y1 where "y1 = y0\<lparr>mq_metrics := m1, mq_adding := [(324, 0)], mq_since := (\<lambda>_. 0)(324 := 1)\<rparr>"
  define y2 where "y2 = y1\<lparr>mq_metrics := mm_Add 0 m1, mq_adding := []\<rparr>"
  have "mm_counter 324 (mq_metrics y0) = (0, m1)"
    by (simp add: y0_def m1_def mm_counter_def NewMessageTypeMetrics_def)
  then have r1: "metric_reach y1"
    using mq_lock [OF mq_new, folded y0_def] by (simp add: y1_def y0_def)
  then have r2: "metric_reach y2"
    using mq_add [OF r1, of "[]" 324 0 "[]"] by (simp add: y1_def y2_def)
  have "mm_Get 324 (mq_metrics y1) = 0"
    by (simp add: y1_def m1_def mm_counter_def NewMessageTypeMetrics_def mm_Get_def)
  then show ?thesis
    using r1 r2 metrics_linearizable [OF r2 refl, of 324] by (intro exI [of _ y1] exI [of _ y2]) (simp add: y1_def y2_def)
qed

end
