(* ===== verification/Spec2Isabelle.thy ===== *)
theory Spec2Isabelle
  imports Server_Peering Middleware Serve_Loop Recovery Reconnect_Loops Diam_Client Conn_Manager
    Codegen Gateway_Program App_Config Sim_Dra Simple_Dra App_Simulator Load_Gen Stats_Report
begin

text \<open>
  Verification of the Diameter gateway \<^verbatim>\<open>diam-gw\<close>, a Go program that speaks the Diameter base protocol
  (RFC 6733): clients that keep connections to relay agents (DRAs), a server for inbound
  connections, a gateway between the two, a small relay agent of its own, the generator of its
  message types and simulators of its peers.

  \<^bold>\<open>Parts of the program and theories.\<close> Paths are relative to \<^verbatim>\<open>src/\<close>. Every theory imports the ones it
  calls; this theory imports them all.

  \<^item> \<^verbatim>\<open>models_base/\<close>, the AVP data types with their decoders and serialisers: \<open>Avp_Types\<close>.
  \<^item> \<^verbatim>\<open>commands/base/diameter.pb.go\<close>, the header and AVP codec: \<open>Avp_Codec\<close>; CER, CEA, DWR, DWA, DPR and
    DPA with \<^verbatim>\<open>Validate\<close>, \<^verbatim>\<open>Marshal\<close> and \<^verbatim>\<open>Unmarshal\<close>: \<open>Base_Messages\<close>.
  \<^item> \<^verbatim>\<open>pkg/connection/\<close>, header parsers, \<^verbatim>\<open>ReadMessage\<close> and the close notification: \<open>Framing\<close>.
  \<^item> \<^verbatim>\<open>pkg/portpool/\<close>, source ports with quarantine: \<open>Port_Pool\<close>.
  \<^item> \<^verbatim>\<open>client/connection.go\<close> with \<^verbatim>\<open>config.go\<close>, \<^verbatim>\<open>state.go\<close> and \<^verbatim>\<open>errors.go\<close>: the operations in \<open>Client_Conn\<close>,
    the goroutines as a step relation in \<open>Client_Steps\<close>, recovery after a failure in \<open>Recovery\<close>, and the
    lock sections of \<^verbatim>\<open>handleFailure\<close>, \<^verbatim>\<open>Close\<close> and the reconnect loops in \<open>Reconnect_Loops\<close>.
  \<^item> \<^verbatim>\<open>client/connection_pool.go\<close>: \<open>Conn_Pool\<close>; \<^verbatim>\<open>client/dra_pool.go\<close>: \<open>Dra_Pool\<close>;
    \<^verbatim>\<open>pkg/connmanager/manager.go\<close>: \<open>Conn_Manager\<close>.
  \<^item> \<^verbatim>\<open>client/address_pool.go\<close>: \<open>Address_Pool\<close>; \<^verbatim>\<open>client/address_client.go\<close> and the request tables:
    \<open>Request_Table\<close>; \<^verbatim>\<open>client/client.go\<close>: \<open>Diam_Client\<close>.
  \<^item> \<^verbatim>\<open>server/connection.go\<close>: \<open>Server_Conn\<close>; \<^verbatim>\<open>server/server.go\<close>: \<open>Diam_Server\<close> and, for the loop of \<^verbatim>\<open>serve\<close>,
    \<open>Serve_Loop\<close>; \<^verbatim>\<open>server/middleware.go\<close>: \<open>Middleware\<close>.
  \<^item> \<^verbatim>\<open>gateway/gateway.go\<close> and \<^verbatim>\<open>client/gateway.go\<close>: \<open>Gateway\<close>.
  \<^item> \<^verbatim>\<open>dra/\<close>, the relay agent: its message rewriting in \<open>Dra_Avp\<close>, the node in \<open>Dra_Node\<close>.
  \<^item> \<^verbatim>\<open>codegen/\<close> and \<^verbatim>\<open>cmd/diameter-codegen\<close>, the generator of the message types: the functions of
    Go's \<^verbatim>\<open>strings\<close>, \<^verbatim>\<open>strconv\<close> and \<^verbatim>\<open>bufio\<close> it uses in \<open>Go_Strings\<close>, its parser in \<open>Proto_Parser\<close> with the round
    trip in \<open>Proto_Roundtrip\<close>, the resolution of references, the two modes of the command and the
    constants file in \<open>Codegen\<close>, and what the code it writes does in \<open>Generated_Code\<close>. \<open>Generated_Base\<close> has the
    definitions of \<^verbatim>\<open>proto/diameter.proto\<close> and \<^verbatim>\<open>proto/s13.proto\<close> that are used, \<open>Generated_S6a\<close> those of
    \<^verbatim>\<open>proto/s6a.proto\<close>.
  \<^item> \<^verbatim>\<open>cmd/gateway/main.go\<close>, the gateway program: its request handler in \<open>Gateway_Program\<close>, its
    configuration (\<^verbatim>\<open>internal/config\<close>, \<^verbatim>\<open>pkg/config/env\<close>, \<^verbatim>\<open>createGatewayConfig\<close>) in \<open>App_Config\<close>.
  \<^item> \<^verbatim>\<open>simulator/dra/\<close>, the simulated agent: configuration, router and sessions in \<open>Sim_Routing\<close>, connections
    and shutdown in \<open>Sim_Dra\<close>, its load generator in \<open>Load_Gen\<close>. \<^verbatim>\<open>simulator/simple-dra/\<close>, an agent built on the
    server package: \<open>Simple_Dra\<close>. \<^verbatim>\<open>simulator/app/\<close>, the application behind the gateway: \<open>App_Simulator\<close>.
  \<^item> \<^verbatim>\<open>pkg/governance/client.go\<close>, the registration with the service registry, and \<^verbatim>\<open>pkg/config/config.go\<close>, which it is
    initialised from: \<open>Governance\<close>. \<^verbatim>\<open>internal/stats/converter.go\<close> and \<^verbatim>\<open>pkg/metrics/metrics.go\<close>, what is
    reported: \<open>Stats_Report\<close>.
  \<^item> Compositions: client against agent in \<open>Peering\<close> and \<open>Recovery\<close>, client against server in
    \<open>Server_Peering\<close>, all slots of a manager over one port pool in \<open>Conn_Manager\<close>, the server's counters and the report in \<open>Stats_Report\<close>.

  \<open>Prelude\<close> holds the shared lemmas on lists, words and maps, the byte-order functions and the named
  collections of simplification rules.

  \<^bold>\<open>How the models correspond to the code.\<close> A struct is a record with a prefix per type, an operation
  is a function on the records under its Go name (with a prefix where two packages use the same
  name), errors are datatypes with one constructor per error of the source, and an access that
  would panic is a value of the result type. Integers keep their width: \<^verbatim>\<open>uint8\<close> to \<^verbatim>\<open>uint64\<close> are words
  and wrap, \<^verbatim>\<open>int\<close> and durations (in nanoseconds) are mathematical integers where no code path comes
  near their bounds. Strings are byte lists. A channel is the list of its elements; a \<^verbatim>\<open>select\<close> with
  several ready arms takes an argument that makes Go's choice, and an operation that blocks has no
  result. Iteration over a Go map takes the order as an argument.

  Concurrency is modelled by step relations whose steps are the sections between two blocking
  points or under one lock: \<open>sys_step\<close> for the goroutines of a client connection (with \<^verbatim>\<open>handleFailure\<close> and \<^verbatim>\<open>Close\<close>
  as one step each) and \<open>rl_step\<close> for the sections of these two, \<open>sc_step\<close> for those
  of a server connection, \<open>server_step\<close> for the accept loop, the serving goroutines and the handler
  calls, \<open>ap_step\<close> for the callers of the address pool, \<open>gateway_step\<close> for the session table,
  \<open>micr_step\<close> for the request handlers of the gateway program, \<open>dra_reach\<close> for the connections of the
  agent, \<open>sim_step\<close> and \<open>lock_step\<close> for the simulator, \<open>load_reach\<close> for its load generator, \<open>gov_step\<close> for the
  calls of the governance client and \<open>metric_reach\<close> for the counters by message type. The environment chooses the outcome of dials, reads
  and writes and when timers fire.

  Code outside the repository appears as a parameter: \<^verbatim>\<open>net.ParseIP\<close> as \<open>parseIP\<close>, a dial with a bound
  source address as \<open>dial\<close>, whether a write to a peer succeeds as a field of \<open>dra_env\<close>, the instances the
  service discovery reports as a list, the answers of the registry as flags, the values \<^verbatim>\<open>viper\<close> and \<^verbatim>\<open>envconfig\<close> deliver as records. The theorems
  that need something of them state it as a hypothesis.

  \<^bold>\<open>Interfaces.\<close> \<open>generated_message\<close> in \<open>Base_Messages\<close> is what the code generator gives every message
  type; its six interpretations carry the round trips. \<open>message_sink\<close> in \<open>Conn_Pool\<close> is what a sender
  promises; the connection, the two pools and each application of the gateway are instances.
  \<open>server_handler\<close> and \<open>server_middleware\<close> in \<open>Diam_Server\<close> say what a handler may do to the server;
  the default handlers and the elementary middlewares are instances. \<open>request_table\<close> in \<open>Request_Table\<close> is the
  contract of the three tables of pending requests, \<open>correlation_table\<close> in \<open>Dra_Node\<close> that of the agent's
  table, and \<open>port_source\<close> in \<open>Port_Pool\<close> what a dialer relies on.

  \<^bold>\<open>What the lemmas show.\<close>

  \<^item> Codec: values, headers, AVPs and messages are rebuilt from their bytes; a stream is cut exactly
    where the messages announce it; the three readers of the repository agree.
  \<^item> Ports: a port is free, leased or in quarantine and never leased twice, also when all slots of a
    manager run concurrently; no port is released twice over all interleavings of a connection.
  \<^item> Connections: over all interleavings of the lock sections there is exactly one reconnect loop when the flag
    is set and none otherwise, until the context is cancelled; then late failures can start further ones,
    and a run shows two. A loop never ends without an open connection or a cancelled context, and from every waiting state a run leads to an open connection with
    the agent answering the bytes the client wrote. Two runs show defects of the retry logic.
  \<^item> Pools: what a pool accepts is queued exactly once; the selected priority in every case; one
    goroutine dials an address at a time; applications do not disturb each other.
  \<^item> Requests: the three tables refine one abstract table in which the first answer counts.
  \<^item> Server: the number of served connections is bounded and counted exactly, the statistics add up,
    middlewares wrap in the order of registration, the loop of \<^verbatim>\<open>serve\<close> returns on every stream that
    ends; \<^verbatim>\<open>Close\<close> of a server connection cannot return once a loop is involved.
  \<^item> Agent: which peer a request is routed to in every case, its answer returns to the requester with the
    original id and at most once, a peer that has gone leaves nothing behind; the rewriting of
    the origin is exact, and panics on a last AVP without its padding.
  \<^item> Gateway: the session counters balance over all interleavings of the single counter changes, the clean-up is exact, and which
    configurations construct, fail or panic, also of those the program accepts.
  \<^item> Gateway program: a request is forwarded unchanged and, unless another request uses its id meanwhile,
    answered with the first answer to its id, or not at all when the send fails or the time is over; the
    counters account for every request; two agents with one id get each other's answers, and without
    an instance there is no answer at all.
  \<^item> Generator: a file printed from definitions parses to these definitions; the directory mode resolves
    every reference; the constants do not depend on the order of maps; a message of any definition
    survives the generated \<^verbatim>\<open>Marshal\<close> and \<^verbatim>\<open>Unmarshal\<close>; the checked-in CER is what the generator gives.
  \<^item> Simulator: connections are counted exactly and bounded, backends are taken in turn, most messages
    are not answered, and the shutdown deadlocks. The rate of the load generator is known after every step of its
    ramp and its counters add up. The simple agent never calls its own handlers for requests, and answers answers.
  \<^item> Application simulator: in client mode an equipment check is answered with one MICA with the id and the session of
    the request, queued once in the pool. Its server mode is translated but never runs.
  \<^item> Registry and reports: a process registers once at most, and a retry after a failure reports success without a
    client; the port that is registered; the report by interface is complete, sums up and does not depend on the
    order of maps; the counters by message type are exact in every interleaving.

  \<^bold>\<open>Termination.\<close> Recursion is structural or has a measure (the AVP loops consume at least one byte per
  round). The only unbounded loop of the code that is modelled as a function, that of \<^verbatim>\<open>serve\<close>, is a
  partial function with the value \<open>None\<close> for not returning, and \<open>serve_terminates\<close> excludes it. No
  definition uses fuel.

  \<^bold>\<open>Not modelled.\<close> Of the generator, the text of the methods it writes (their meaning is) and the
  templates of its test files. Of the application commands, the other definitions of S6a and those of Cx and Sh:
  the theorems of \<open>Generated_Code\<close> hold for every definition. The clients of Consul, etcd and the registry are outside
  the repository, as is the decoding of configurations. Logging, floating-point rates and HTTP endpoints are output.
  The peers of \<^verbatim>\<open>gateway_test/\<close> and \<^verbatim>\<open>examples/\<close> drive the packages above. TLS, deadlines and the
  buffers of the network library are part of the environment.
\<close>

end
